(* ===== verification/Odo_Strings.thy ===== *)
theory Odo_Strings
  imports Odo_Prelude
begin

text \<open>
  Rust strings. A \<open>str\<close> is its UTF-8 byte sequence, here a \<open>char list\<close> (\<open>len()\<close> is the
  list's length, \<open>Ord\<close> the byte-wise lexicographic order of \<open>List_Lexorder\<close>). The
  functions below are the \<open>str\<close> and \<open>format!\<close> operations the modelled sources call, with
  their documented behaviour on valid UTF-8: character boundaries are respected, white space
  is the Unicode property.
\<close>

section \<open>Bytes, validity, characters\<close>

definition byte :: "char \<Rightarrow> nat" where
  "byte c = of_char c"

definition is_cont :: "char \<Rightarrow> bool" where
  "is_cont c \<longleftrightarrow> 128 \<le> byte c \<and> byte c < 192"

definition in_range :: "nat \<Rightarrow> nat \<Rightarrow> char \<Rightarrow> bool" where
  "in_range lo hi c \<longleftrightarrow> lo \<le> byte c \<and> byte c \<le> hi"

text \<open>\<open>std::str::from_utf8\<close> succeeds: the well-formed byte sequences of the Unicode standard.\<close>

fun utf8_valid :: "string \<Rightarrow> bool" where
  "utf8_valid [] = True"
| "utf8_valid (b # s) =
    (if byte b < 128 then utf8_valid s
     else (case s of
       [] \<Rightarrow> False
     | c1 # s1 \<Rightarrow>
         (if in_range 194 223 b then is_cont c1 \<and> utf8_valid s1
          else (case s1 of
            [] \<Rightarrow> False
          | c2 # s2 \<Rightarrow>
              (if in_range 224 239 b then
                 (if byte b = 224 then in_range 160 191 c1
                  else if byte b = 237 then in_range 128 159 c1 else is_cont c1)
                 \<and> is_cont c2 \<and> utf8_valid s2
               else (case s2 of
                 [] \<Rightarrow> False
               | c3 # s3 \<Rightarrow>
                   in_range 240 244 b
                   \<and> (if byte b = 240 then in_range 144 191 c1
                      else if byte b = 244 then in_range 128 143 c1 else is_cont c1)
                   \<and> is_cont c2 \<and> is_cont c3 \<and> utf8_valid s3))))))"

text \<open>\<open>s.chars().take(n).collect()\<close> and \<open>s.chars().count()\<close>.\<close>

function take_chars :: "nat \<Rightarrow> string \<Rightarrow> string" where
  "take_chars n [] = []"
| "take_chars n (c # cs) =
    (if n = 0 then []
     else c # takeWhile is_cont cs @ take_chars (n - 1) (dropWhile is_cont cs))"
  by pat_completeness auto
termination
  by (relation "measure (\<lambda>(n, s). length s)") (auto simp: le_imp_less_Suc length_dropWhile_le)

text \<open>\<open>s.chars()\<close>, each character as its bytes.\<close>

function chars :: "string \<Rightarrow> string list" where
  "chars [] = []"
| "chars (c # cs) = (c # takeWhile is_cont cs) # chars (dropWhile is_cont cs)"
  by pat_completeness auto
termination
  by (relation "measure length") (auto simp: le_imp_less_Suc length_dropWhile_le)

lemma concat_chars [simp]: "concat (chars s) = s"
  by (induction s rule: chars.induct) auto

lemma take_chars_chars: "take_chars n s = concat (take n (chars s))"
proof (induction n s rule: take_chars.induct)
  case (2 n c cs)
  then show ?case by (cases n) auto
qed simp

definition char_count :: "string \<Rightarrow> nat" where
  "char_count s = length (filter (\<lambda>c. \<not> is_cont c) s)"

lemma take_chars_0 [simp]: "take_chars 0 s = []"
  by (cases s) auto

lemma char_count_take_chars: "char_count (take_chars n s) \<le> n"
proof (induction n s rule: take_chars.induct)
  case (2 n c cs)
  have "filter (\<lambda>c. \<not> is_cont c) (takeWhile is_cont cs) = []"
    by (induction cs) auto
  with 2 show ?case
    by (cases "n = 0") (auto simp: char_count_def intro: le_SucI)
qed (simp add: char_count_def)

lemma take_chars_take_chars: "take_chars m (take_chars n s) = take_chars (min m n) s"
proof (induction n s arbitrary: m rule: take_chars.induct)
  case (2 n c cs)
  show ?case
  proof (cases "n = 0 \<or> m = 0")
    case False
    let ?r = "take_chars (n - 1) (dropWhile is_cont cs)"
    have hd: "?r = [] \<or> \<not> is_cont (hd ?r)"
      using hd_dropWhile[of is_cont cs] by (cases "dropWhile is_cont cs")
        (auto split: if_splits simp del: dropWhile_eq_Nil_conv)
    have t: "takeWhile is_cont (takeWhile is_cont cs @ ?r) = takeWhile is_cont cs"
      using hd by (cases ?r) (auto simp: takeWhile_append dest: set_takeWhileD)
    have d: "dropWhile is_cont (takeWhile is_cont cs @ ?r) = ?r"
      using hd by (cases ?r) (auto simp: dropWhile_append dest: set_takeWhileD)
    from False "2.IH"[of "m - 1"] show ?thesis
      by (auto simp: t d min_def simp del: One_nat_def)
  qed auto
qed simp

section \<open>Prefixes, searching, splitting\<close>

fun strip_prefix :: "string \<Rightarrow> string \<Rightarrow> string option" where
  "strip_prefix [] s = Some s"
| "strip_prefix (p # ps) [] = None"
| "strip_prefix (p # ps) (c # cs) = (if p = c then strip_prefix ps cs else None)"

lemma strip_prefix_Some: "strip_prefix p s = Some r \<longleftrightarrow> s = p @ r"
  by (induction p s rule: strip_prefix.induct) auto

definition starts_with :: "string \<Rightarrow> string \<Rightarrow> bool" where
  "starts_with p s \<longleftrightarrow> strip_prefix p s \<noteq> None"

lemma starts_with_iff: "starts_with p s \<longleftrightarrow> (\<exists>r. s = p @ r)"
  by (auto simp: starts_with_def strip_prefix_Some)

definition strip_suffix :: "string \<Rightarrow> string \<Rightarrow> string option" where
  "strip_suffix p s = map_option rev (strip_prefix (rev p) (rev s))"

text \<open>First occurrence of a pattern: the text before it and the text after it.\<close>

fun split_at :: "string \<Rightarrow> string \<Rightarrow> (string \<times> string) option" where
  "split_at p [] = (if p = [] then Some ([], []) else None)"
| "split_at p (c # cs) =
    (case strip_prefix p (c # cs) of
       Some r \<Rightarrow> Some ([], r)
     | None \<Rightarrow> map_option (\<lambda>(b, a). (c # b, a)) (split_at p cs))"

definition contains :: "string \<Rightarrow> string \<Rightarrow> bool" where
  "contains p s \<longleftrightarrow> split_at p s \<noteq> None"

lemma split_at_Some: "split_at p s = Some (b, a) \<Longrightarrow> s = b @ p @ a"
  by (induction p s arbitrary: b a rule: split_at.induct)
    (auto split: if_splits option.splits simp: strip_prefix_Some)

lemma split_at_length: "split_at p s = Some (b, a) \<Longrightarrow> length a + length p + length b = length s"
  by (drule split_at_Some) simp

lemma split_at_None: "split_at p s = None \<Longrightarrow> \<not> (\<exists>b a. s = b @ p @ a)"
proof (induction p s rule: split_at.induct)
  case (2 p c cs)
  have np: "strip_prefix p (c # cs) = None" and "split_at p cs = None"
    using 2 by (auto split: option.splits)
  with 2 have n: "\<not> (\<exists>b a. cs = b @ p @ a)" by simp
  show ?case
  proof
    assume "\<exists>b a. c # cs = b @ p @ a"
    then obtain b a where e: "c # cs = b @ p @ a" by blast
    show False
    proof (cases b)
      case Nil
      with e np show ?thesis by (metis append_Nil option.distinct(1) strip_prefix_Some)
    next
      case (Cons x xs)
      with e n show ?thesis by auto
    qed
  qed
qed (auto split: if_splits)

lemma contains_iff: "contains p s \<longleftrightarrow> (\<exists>b a. s = b @ p @ a)"
proof (cases "split_at p s")
  case None
  with split_at_None[OF None] show ?thesis by (simp add: contains_def)
next
  case (Some z)
  obtain b a where "z = (b, a)" by (cases z)
  with Some split_at_Some[of p s b a] show ?thesis by (auto simp: contains_def)
qed

definition contains_any :: "string \<Rightarrow> string list \<Rightarrow> bool" where
  "contains_any s ps \<longleftrightarrow> (\<exists>p \<in> set ps. contains p s)"

text \<open>\<open>rsplit_once(c)\<close>, and the last piece of \<open>rsplit(set)\<close>.\<close>

definition rsplit_once :: "char \<Rightarrow> string \<Rightarrow> (string \<times> string) option" where
  "rsplit_once d s =
     (if d \<in> set s
      then Some (rev (tl (dropWhile (\<lambda>c. c \<noteq> d) (rev s))), rev (takeWhile (\<lambda>c. c \<noteq> d) (rev s)))
      else None)"

definition last_piece :: "(char \<Rightarrow> bool) \<Rightarrow> string \<Rightarrow> string" where
  "last_piece sep s = rev (takeWhile (\<lambda>c. \<not> sep c) (rev s))"

fun join :: "string \<Rightarrow> string list \<Rightarrow> string" where
  "join sep [] = []"
| "join sep [s] = s"
| "join sep (s # t # ts) = s @ sep @ join sep (t # ts)"

section \<open>White space and trimming\<close>

text \<open>The characters with the Unicode property \<open>White_Space\<close>, in UTF-8.\<close>

definition white_space :: "string list" where
  "white_space =
    [[CHR 0x09], [CHR 0x0A], [CHR 0x0B], [CHR 0x0C], [CHR 0x0D], [CHR 0x20],
     [CHR 0xC2, CHR 0x85], [CHR 0xC2, CHR 0xA0], [CHR 0xE1, CHR 0x9A, CHR 0x80],
     [CHR 0xE2, CHR 0x80, CHR 0x80], [CHR 0xE2, CHR 0x80, CHR 0x81],
     [CHR 0xE2, CHR 0x80, CHR 0x82], [CHR 0xE2, CHR 0x80, CHR 0x83],
     [CHR 0xE2, CHR 0x80, CHR 0x84], [CHR 0xE2, CHR 0x80, CHR 0x85],
     [CHR 0xE2, CHR 0x80, CHR 0x86], [CHR 0xE2, CHR 0x80, CHR 0x87],
     [CHR 0xE2, CHR 0x80, CHR 0x88], [CHR 0xE2, CHR 0x80, CHR 0x89],
     [CHR 0xE2, CHR 0x80, CHR 0x8A], [CHR 0xE2, CHR 0x80, CHR 0xA8],
     [CHR 0xE2, CHR 0x80, CHR 0xA9], [CHR 0xE2, CHR 0x80, CHR 0xAF],
     [CHR 0xE2, CHR 0x81, CHR 0x9F], [CHR 0xE3, CHR 0x80, CHR 0x80]]"

fun strip_any :: "string list \<Rightarrow> string \<Rightarrow> string option" where
  "strip_any [] s = None"
| "strip_any (p # ps) s =
    (case strip_prefix p s of Some r \<Rightarrow> Some r | None \<Rightarrow> strip_any ps s)"

lemma strip_any_Some: "strip_any ps s = Some r \<Longrightarrow> \<exists>p \<in> set ps. s = p @ r"
  by (induction ps) (auto split: option.splits simp: strip_prefix_Some)

function drop_any :: "string list \<Rightarrow> string \<Rightarrow> string" where
  "drop_any ps s =
    (case strip_any ps s of
       None \<Rightarrow> s
     | Some r \<Rightarrow> if length r < length s then drop_any ps r else s)"
  by pat_completeness auto
termination
  by (relation "measure (\<lambda>(ps, s). length s)") auto

declare drop_any.simps [simp del]

definition trim_start :: "string \<Rightarrow> string" where
  "trim_start s = drop_any white_space s"

definition trim_end :: "string \<Rightarrow> string" where
  "trim_end s = rev (drop_any (map rev white_space) (rev s))"

definition trim :: "string \<Rightarrow> string" where
  "trim s = trim_end (trim_start s)"

text \<open>\<open>s.split(seps).find(|t| !t.is_empty())\<close>: the first non-empty token.\<close>

fun until_any :: "string list \<Rightarrow> string \<Rightarrow> string" where
  "until_any ps [] = []"
| "until_any ps (c # cs) =
    (if strip_any ps (c # cs) \<noteq> None then [] else c # until_any ps cs)"

definition first_token :: "string list \<Rightarrow> string \<Rightarrow> string option" where
  "first_token seps s =
    (let t = until_any seps (drop_any seps s) in if t = [] then None else Some t)"

lemma drop_any_suffix: "\<exists>p. s = p @ drop_any ps s"
proof (induction ps s rule: drop_any.induct)
  case (1 ps s)
  show ?case
  proof (cases "strip_any ps s")
    case None
    then show ?thesis by (simp add: drop_any.simps[of ps s])
  next
    case (Some r)
    show ?thesis
    proof (cases "length r < length s")
      case True
      with 1 Some obtain q where "r = q @ drop_any ps r" by blast
      moreover obtain p where "s = p @ r" using strip_any_Some[OF Some] by blast
      ultimately have "s = (p @ q) @ drop_any ps r" by (metis append_assoc)
      moreover have "drop_any ps s = drop_any ps r"
        using Some True by (simp add: drop_any.simps[of ps s])
      ultimately show ?thesis by metis
    next
      case False
      with Some show ?thesis by (simp add: drop_any.simps[of ps s])
    qed
  qed
qed

lemma length_drop_any: "length (drop_any ps s) \<le> length s"
proof -
  obtain p where "s = p @ drop_any ps s" using drop_any_suffix by blast
  from arg_cong[OF this, of length] show ?thesis by simp
qed

lemma length_trim: "length (trim s) \<le> length s"
  using length_drop_any[of "map rev white_space" "rev (drop_any white_space s)"]
    length_drop_any[of white_space s]
  by (simp add: trim_def trim_end_def trim_start_def)

section \<open>ASCII, decimal and hexadecimal\<close>

definition to_lower :: "char \<Rightarrow> char" where
  "to_lower c = (if 65 \<le> byte c \<and> byte c \<le> 90 then char_of (byte c + 32) else c)"

definition to_ascii_lowercase :: "string \<Rightarrow> string" where
  "to_ascii_lowercase s = map to_lower s"

definition is_ascii_alphanumeric :: "char \<Rightarrow> bool" where
  "is_ascii_alphanumeric c \<longleftrightarrow>
     in_range 48 57 c \<or> in_range 65 90 c \<or> in_range 97 122 c"

lemma length_to_ascii_lowercase [simp]: "length (to_ascii_lowercase s) = length s"
  by (simp add: to_ascii_lowercase_def)

lemma to_ascii_lowercase_Nil [simp]: "to_ascii_lowercase s = [] \<longleftrightarrow> s = []"
  by (simp add: to_ascii_lowercase_def)

lemma byte_char_of: "n < 256 \<Longrightarrow> byte (char_of n) = n"
  by (simp add: byte_def)

definition digit :: "nat \<Rightarrow> char" where
  "digit d = (if d < 10 then char_of (48 + d) else char_of (87 + d))"

fun dec :: "nat \<Rightarrow> string" where
  "dec n = (if n < 10 then [digit n] else dec (n div 10) @ [digit (n mod 10)])"

declare dec.simps [simp del]

definition dec_int :: "int \<Rightarrow> string" where
  "dec_int i = (if i < 0 then ''-'' @ dec (nat (- i)) else dec (nat i))"

text \<open>\<open>{:016x}\<close> of a \<open>u64\<close>.\<close>

definition hex16 :: "u64 \<Rightarrow> string" where
  "hex16 w = map (\<lambda>i. digit (unat w div 16 ^ i mod 16)) (rev [0..<16])"

lemma length_hex16 [simp]: "length (hex16 w) = 16"
  by (simp add: hex16_def)

lemma digit_inj: "d < 16 \<Longrightarrow> e < 16 \<Longrightarrow> digit d = digit e \<Longrightarrow> d = e"
  by (drule arg_cong[of _ _ byte]) (auto simp: digit_def byte_char_of split: if_splits)

lemma nat_base_eq:
  fixes m n :: nat
  assumes "0 < b" and "\<And>i. i < k \<Longrightarrow> m div b ^ i mod b = n div b ^ i mod b"
  shows "m mod b ^ k = n mod b ^ k"
  using assms(2)
proof (induction k)
  case (Suc k)
  have "x mod b ^ Suc k = b ^ k * (x div b ^ k mod b) + x mod b ^ k" for x
    by (simp only: power_Suc2 mod_mult2_eq)
  moreover have "m mod b ^ k = n mod b ^ k" using Suc by simp
  ultimately show ?case using Suc.prems[of k] by simp
qed simp

lemma hex16_inj: "hex16 a = hex16 b \<Longrightarrow> a = b"
proof -
  assume "hex16 a = hex16 b"
  then have "digit (unat a div 16 ^ i mod 16) = digit (unat b div 16 ^ i mod 16)" if "i < 16" for i
    using that by (auto simp: hex16_def map_eq_conv)
  then have "unat a div 16 ^ i mod 16 = unat b div 16 ^ i mod 16" if "i < 16" for i
    using that by (intro digit_inj) auto
  then have "unat a mod 16 ^ 16 = unat b mod 16 ^ 16"
    by (intro nat_base_eq) auto
  moreover have "unat w < 16 ^ 16" for w :: u64
    using unsigned_less[of w] by simp
  ultimately show "a = b" by (simp add: word_unat_eq_iff)
qed

text \<open>\<open>{:.1}\<close> of \<open>n as f64 / 2^k\<close>: one decimal, ties to even.\<close>

definition fixed1 :: "nat \<Rightarrow> string" where
  "fixed1 tenths = dec (tenths div 10) @ ''.'' @ dec (tenths mod 10)"

section \<open>Lines and integers\<close>

text \<open>\<open>s.lines()\<close>: split at line feeds, a carriage return before one belongs to it.\<close>

definition strip_cr :: "string \<Rightarrow> string" where
  "strip_cr l = (if l \<noteq> [] \<and> last l = CHR 0x0D then butlast l else l)"

function lines :: "string \<Rightarrow> string list" where
  "lines s =
    (if s = [] then []
     else if CHR 0x0A \<in> set s
     then strip_cr (takeWhile (\<lambda>c. c \<noteq> CHR 0x0A) s) # lines (tl (dropWhile (\<lambda>c. c \<noteq> CHR 0x0A) s))
     else [s])"
  by pat_completeness auto
termination
proof (relation "measure length")
  fix s :: string
  assume "s \<noteq> []"
  then show "(tl (dropWhile (\<lambda>c. c \<noteq> CHR 0x0A) s), s) \<in> measure length"
    using length_dropWhile_le[of "\<lambda>c. c \<noteq> CHR 0x0A" s] by (cases s) auto
qed simp

declare lines.simps [simp del]

definition digit_value :: "char \<Rightarrow> nat option" where
  "digit_value c = (if in_range 48 57 c then Some (byte c - 48) else None)"

fun parse_digits :: "string \<Rightarrow> nat \<Rightarrow> nat option" where
  "parse_digits [] acc = Some acc"
| "parse_digits (c # cs) acc =
    (case digit_value c of None \<Rightarrow> None | Some d \<Rightarrow> parse_digits cs (10 * acc + d))"

text \<open>\<open>str::parse::<i32>().ok()\<close>.\<close>

definition parse_i32 :: "string \<Rightarrow> int option" where
  "parse_i32 s =
     (let (negative, ds) =
        (case s of
           c # cs \<Rightarrow> if c = CHR ''-'' then (True, cs) else if c = CHR ''+'' then (False, cs)
                     else (False, s)
         | [] \<Rightarrow> (False, s))
      in if ds = [] then None
         else case parse_digits ds 0 of
           None \<Rightarrow> None
         | Some n \<Rightarrow>
             (let v = (if negative then - int n else int n)
              in if - (2 ^ 31) \<le> v \<and> v < 2 ^ 31 then Some v else None))"

text \<open>\<open>iter().filter_map(f)\<close>.\<close>

fun filter_map :: "('a \<Rightarrow> 'b option) \<Rightarrow> 'a list \<Rightarrow> 'b list" where
  "filter_map f [] = []"
| "filter_map f (x # xs) =
    (case f x of None \<Rightarrow> filter_map f xs | Some y \<Rightarrow> y # filter_map f xs)"

text \<open>\<open>iter().find_map(f)\<close>.\<close>

fun find_map :: "('a \<Rightarrow> 'b option) \<Rightarrow> 'a list \<Rightarrow> 'b option" where
  "find_map f [] = None"
| "find_map f (x # xs) = (case f x of Some y \<Rightarrow> Some y | None \<Rightarrow> find_map f xs)"

end
