(* ===== verification/Stable_Hash.thy ===== *)
theory Stable_Hash
  imports Odo_Strings
begin

unbundle bit_operations_syntax

text \<open>
  \<open>src-tauri/src/stable_hash.rs\<close>: the FNV-1a fold behind every persisted local identity
  (tool targets, resources, project keys, action targets). The hash is not collision free, but
  one round is a bijection of the state for a fixed byte and injective in the byte for a fixed
  state; \<open>fnv1a64_one_byte\<close> draws the consequence that two identities that differ in exactly
  one byte never share a hash.
\<close>

definition fnv_step :: "char \<Rightarrow> u64 \<Rightarrow> u64" where
  "fnv_step b h = (h XOR word_of_nat (byte b)) * 0x100000001b3"

definition fnv1a64 :: "string \<Rightarrow> u64" where
  "fnv1a64 bytes = fold fnv_step bytes 0xcbf29ce484222325"

text \<open>The private \<open>stable_hash\<close> helper of the callers: sixteen hexadecimal digits.\<close>

definition stable_hash :: "string \<Rightarrow> string" where
  "stable_hash v = hex16 (fnv1a64 v)"

lemma byte_less: "byte c < 256"
  by (simp add: byte_def)

lemma byte_inj: "byte c = byte d \<longleftrightarrow> c = d"
  by (simp add: byte_def)

lemma fnv_prime_inverse: "0x100000001b3 * (0xce965057aff6957b :: u64) = 1"
  by simp

lemma fnv_prime_cancel: "(a::u64) * 0x100000001b3 = b * 0x100000001b3 \<longleftrightarrow> a = b"
proof
  assume "a * 0x100000001b3 = b * 0x100000001b3"
  from arg_cong[OF this, of "\<lambda>x. x * 0xce965057aff6957b"]
  show "a = b" by (simp only: mult.assoc fnv_prime_inverse mult_1_right)
qed (rule arg_cong)

lemma xor_cancel: "(a XOR c = b XOR c) \<longleftrightarrow> a = b" for a b c :: u64
proof
  assume "a XOR c = b XOR c"
  from arg_cong[OF this, of "\<lambda>x. x XOR c"] show "a = b"
    by (simp add: xor.assoc)
qed simp

lemma fnv_step_state: "fnv_step c h = fnv_step c h' \<longleftrightarrow> h = h'"
  by (simp add: fnv_step_def fnv_prime_cancel xor_cancel)

lemma fnv_step_byte: "fnv_step c h = fnv_step d h \<longleftrightarrow> c = d"
proof -
  have "fnv_step c h = fnv_step d h
      \<longleftrightarrow> (word_of_nat (byte c) :: u64) = word_of_nat (byte d)"
    by (simp add: fnv_step_def fnv_prime_cancel xor.commute[of h] xor_cancel)
  also have "\<dots> \<longleftrightarrow> byte c = byte d"
    using byte_less[of c] byte_less[of d]
    by (simp add: word_of_nat_eq_iff take_bit_nat_eq_self)
  finally show ?thesis by (simp add: byte_inj)
qed

lemma fnv_fold_state: "fold fnv_step s h = fold fnv_step s h' \<longleftrightarrow> h = h'"
  by (induction s arbitrary: h h') (auto simp: fnv_step_state)

lemma fnv1a64_one_byte_iff: "fnv1a64 (p @ c # s) = fnv1a64 (p @ d # s) \<longleftrightarrow> c = d"
  by (simp add: fnv1a64_def fnv_fold_state fnv_step_byte)

lemma stable_hash_eq_iff: "stable_hash a = stable_hash b \<longleftrightarrow> fnv1a64 a = fnv1a64 b"
  by (auto simp: stable_hash_def dest: hex16_inj)

lemma length_stable_hash [simp]: "length (stable_hash v) = 16"
  by (simp add: stable_hash_def)

text \<open>The test vectors frozen beside the function.\<close>

lemma fnv1a64_vectors:
  "fnv1a64 [] = 0xcbf29ce484222325"
  "fnv1a64 ''hello'' = 0xa430d84680aabd0b"
  by code_simp+

text \<open>two byte strings of equal length that differ in exactly one byte have different
  FNV-1a hashes and different sixteen-digit identity keys.\<close>

lemma fnv1a64_one_byte:
  "(fnv1a64 (p @ c # s) = fnv1a64 (p @ d # s) \<longleftrightarrow> c = d)
    \<and> (stable_hash (p @ c # s) = stable_hash (p @ d # s) \<longleftrightarrow> c = d)"
  by (simp add: stable_hash_eq_iff fnv1a64_one_byte_iff)

end
