(* ===== verification/Odo_Json.thy ===== *)
theory Odo_Json
  imports Odo_Strings
begin

text \<open>
  What the transcript parsers rely on from outside the repository. \<open>serde_json::Value\<close> is the
  tree the sources pattern-match on, with the accessors they call; the text-to-tree parser, the
  serializer and chrono's timestamp parser are third-party code and therefore parameters,
  collected in the record \<open>host\<close>. Floating-point numbers are their IEEE-754 bit patterns: the
  sources only store and compare them here, and convert integers to them.
\<close>

section \<open>Floating-point bit patterns\<close>

type_synonym f64 = "64 word"
type_synonym f32 = "32 word"

definition f64_magnitude :: "f64 \<Rightarrow> nat" where
  "f64_magnitude x = unat x mod 2 ^ 63"

definition f64_is_nan :: "f64 \<Rightarrow> bool" where
  "f64_is_nan x \<longleftrightarrow> 2047 * 2 ^ 52 < f64_magnitude x"

definition f64_is_finite :: "f64 \<Rightarrow> bool" where
  "f64_is_finite x \<longleftrightarrow> f64_magnitude x < 2047 * 2 ^ 52"

text \<open>\<open>==\<close> on floats: NaN is unequal to everything, the two zeros are equal.\<close>

definition f64_eq :: "f64 \<Rightarrow> f64 \<Rightarrow> bool" where
  "f64_eq x y \<longleftrightarrow> \<not> f64_is_nan x \<and> \<not> f64_is_nan y
     \<and> (x = y \<or> (f64_magnitude x = 0 \<and> f64_magnitude y = 0))"

lemma f64_eq_refl: "f64_eq x x \<longleftrightarrow> \<not> f64_is_nan x"
  by (auto simp: f64_eq_def)

lemma f64_eq_sym: "f64_eq x y \<longleftrightarrow> f64_eq y x"
  by (auto simp: f64_eq_def)

lemma f64_eq_trans: "f64_eq x y \<Longrightarrow> f64_eq y z \<Longrightarrow> f64_eq x z"
  by (auto simp: f64_eq_def)

lemma f64_finite_not_nan: "f64_is_finite x \<Longrightarrow> \<not> f64_is_nan x"
  by (simp add: f64_is_finite_def f64_is_nan_def)

fun bit_length :: "nat \<Rightarrow> nat" where
  "bit_length n = (if n = 0 then 0 else Suc (bit_length (n div 2)))"

declare bit_length.simps [simp del]

text \<open>\<open>n as f64\<close>: round to 53 significant bits, ties to even.\<close>

definition f64_of_nat :: "nat \<Rightarrow> f64" where
  "f64_of_nat n =
     (if n = 0 then 0
      else let e = bit_length n - 1;
               m = (if e \<le> 52 then n * 2 ^ (52 - e) else round_half_even n (2 ^ (e - 52)))
           in word_of_nat ((1023 + e) * 2 ^ 52 + m - 2 ^ 52))"

text \<open>The same rounding as an exact integer, for values that are only scaled by powers of two.\<close>

definition f64_round_nat :: "nat \<Rightarrow> nat" where
  "f64_round_nat n =
     (let e = bit_length n in
      if e \<le> 53 then n else round_half_even n (2 ^ (e - 53)) * 2 ^ (e - 53))"

section \<open>JSON values\<close>

text \<open>serde_json keeps a non-negative integer, a negative integer and a float apart.\<close>

datatype number = PosInt u64 | NegInt "64 word" | Float f64

datatype json =
    Null
  | Bool bool
  | Number number
  | String string
  | Array "json list"
  | Object "(string \<times> json) list"

fun get :: "string \<Rightarrow> json \<Rightarrow> json option" where
  "get k (Object m) = map_of m k"
| "get k _ = None"

fun as_str :: "json \<Rightarrow> string option" where
  "as_str (String s) = Some s"
| "as_str _ = None"

fun as_bool :: "json \<Rightarrow> bool option" where
  "as_bool (Bool b) = Some b"
| "as_bool _ = None"

fun as_u64 :: "json \<Rightarrow> u64 option" where
  "as_u64 (Number (PosInt n)) = Some n"
| "as_u64 _ = None"

fun as_i64 :: "json \<Rightarrow> int option" where
  "as_i64 (Number (PosInt n)) = (if unat n < 2 ^ 63 then Some (uint n) else None)"
| "as_i64 (Number (NegInt n)) = Some (sint n)"
| "as_i64 _ = None"

fun as_f64 :: "json \<Rightarrow> f64 option" where
  "as_f64 (Number (PosInt n)) = Some (f64_of_nat (unat n))"
| "as_f64 (Number (NegInt n)) =
    (if sint n < 0 then Some (f64_of_nat (nat (- sint n)) + word_of_nat (2 ^ 63))
     else Some (f64_of_nat (nat (sint n))))"
| "as_f64 (Number (Float x)) = Some x"
| "as_f64 _ = None"

fun as_array :: "json \<Rightarrow> json list option" where
  "as_array (Array vs) = Some vs"
| "as_array _ = None"

definition get_str :: "string \<Rightarrow> json \<Rightarrow> string option" where
  "get_str k v = Option.bind (get k v) as_str"

definition get_bool :: "string \<Rightarrow> json \<Rightarrow> bool option" where
  "get_bool k v = Option.bind (get k v) as_bool"

definition get_u64 :: "string \<Rightarrow> json \<Rightarrow> u64 option" where
  "get_u64 k v = Option.bind (get k v) as_u64"

definition is_null :: "json \<Rightarrow> bool" where
  "is_null v \<longleftrightarrow> v = Null"

text \<open>\<open>keys.iter().find_map(|key| v.get(*key))\<close>.\<close>

fun get_first :: "string list \<Rightarrow> json \<Rightarrow> json option" where
  "get_first [] v = None"
| "get_first (k # ks) v = (case get k v of Some x \<Rightarrow> Some x | None \<Rightarrow> get_first ks v)"

definition or_else :: "'a option \<Rightarrow> 'a option \<Rightarrow> 'a option" where
  "or_else a b = (case a of Some x \<Rightarrow> Some x | None \<Rightarrow> b)"

definition unwrap_or :: "'a \<Rightarrow> 'a option \<Rightarrow> 'a" where
  "unwrap_or d a = (case a of Some x \<Rightarrow> x | None \<Rightarrow> d)"

lemma or_else_simps [simp]:
  "or_else None b = b" "or_else (Some x) b = Some x"
  by (simp_all add: or_else_def)

lemma unwrap_or_simps [simp]:
  "unwrap_or d None = d" "unwrap_or d (Some x) = x"
  by (simp_all add: unwrap_or_def)

section \<open>Time\<close>

text \<open>
  \<open>DateTime<Utc>\<close> is its number of nanoseconds since the epoch (leap-second readings are not
  represented). \<open>timestamp_millis\<close> rounds down, \<open>num_milliseconds\<close> of a difference rounds
  towards zero.
\<close>

type_synonym timestamp = int

definition timestamp_millis :: "timestamp \<Rightarrow> int" where
  "timestamp_millis t = t div 1000000"

definition num_milliseconds :: "int \<Rightarrow> int" where
  "num_milliseconds d = sgn d * (\<bar>d\<bar> div 1000000)"

lemma timestamp_millis_mono: "s \<le> t \<Longrightarrow> timestamp_millis s \<le> timestamp_millis t"
  by (simp add: timestamp_millis_def zdiv_mono1)

text \<open>\<open>try_into::<u64>().ok()\<close> of an \<open>i64\<close> millisecond count.\<close>

definition u64_of_int :: "int \<Rightarrow> u64 option" where
  "u64_of_int i = (if 0 \<le> i \<and> i < 2 ^ 63 then Some (word_of_int i) else None)"

section \<open>Parameters\<close>

text \<open>
  \<^item> \<open>host_from_str\<close>: \<open>serde_json::from_str::<Value>\<close>, None on a parse error;
  \<^item> \<open>host_to_string\<close>: \<open>serde_json::to_string\<close> / \<open>to_vec\<close>, None on an error;
  \<^item> \<open>host_parse_time\<close>: \<open>str::parse::<DateTime<Utc>>().ok()\<close>;
  \<^item> \<open>host_from_epoch\<close>: \<open>DateTime::from_timestamp(secs, 0)\<close>.
\<close>

record host =
  host_from_str :: "string \<Rightarrow> json option"
  host_to_string :: "json \<Rightarrow> string option"
  host_parse_time :: "string \<Rightarrow> timestamp option"
  host_from_epoch :: "int \<Rightarrow> timestamp option"

end
