(* ===== verification/Odo_Containers.thy ===== *)
theory Odo_Containers
  imports Odo_Prelude
begin

text \<open>
  The standard library's containers as the sources use them. Both map types are association
  lists with distinct keys: \<open>BTreeMap\<close> in increasing key order (its iteration order),
  \<open>HashMap\<close> in first-insertion order (its iteration order is unspecified; \<open>alist_sum\<close> and
  \<open>mset_eq_alist\<close> are the facts by which results do not depend on it). The operation behind
  nearly every use is \<open>entry(k).or_insert(d)\<close> followed by an update in place; the locale
  \<open>entry_api\<close> states its laws once and both map types interpret it.
  Vectors are lists; \<open>iter_mut().find(p)\<close> followed by a write is \<open>upd_first\<close>,
  \<open>partition_point\<close> is the length of the longest prefix that satisfies its predicate (what the
  library's binary search returns on a partitioned slice, the only slices it is called on).
\<close>

section \<open>Association lists with distinct keys\<close>

lemma map_of_distinct_in:
  "distinct (map fst m) \<Longrightarrow> (k, v) \<in> set m \<longleftrightarrow> map_of m k = Some v"
  by (metis map_of_SomeD map_of_eq_Some_iff)

lemma alist_sum:
  fixes w :: "'k \<Rightarrow> 'v \<Rightarrow> 'c::comm_monoid_add"
  assumes "distinct (map fst m)"
  shows "(\<Sum>(k, v)\<leftarrow>m. w k v) = (\<Sum>k\<in>dom (map_of m). w k (the (map_of m k)))"
  using assms
proof (induction m)
  case (Cons kv m)
  obtain k v where kv: "kv = (k, v)" by (cases kv)
  with Cons.prems have nk: "k \<notin> dom (map_of m)"
    by (auto simp: dom_map_of_conv_image_fst)
  have "(\<Sum>x\<in>dom (map_of m). w x (the (map_of (kv # m) x)))
      = (\<Sum>x\<in>dom (map_of m). w x (the (map_of m x)))"
    using nk kv by (intro sum.cong) auto
  moreover have "dom (map_of (kv # m)) = insert k (dom (map_of m))"
    by (auto simp: kv)
  ultimately show ?case
    using Cons nk kv by (simp add: finite_dom_map_of sum.insert del: map_of.simps) simp
qed simp

lemma mset_eq_alist:
  assumes "distinct (map fst m)" and "distinct (map fst m')" and "map_of m = map_of m'"
  shows "mset m = mset m'"
proof -
  have "set m = set m'"
    using assms map_of_distinct_in by (metis subrelI subset_antisym)
  moreover have "distinct m" and "distinct m'"
    using assms by (auto simp: distinct_map)
  ultimately show ?thesis by (simp add: set_eq_iff_mset_eq_distinct)
qed

section \<open>The entry operation\<close>

locale entry_api =
  fixes entry :: "'k \<Rightarrow> 'v \<Rightarrow> ('v \<Rightarrow> 'v) \<Rightarrow> ('k \<times> 'v) list \<Rightarrow> ('k \<times> 'v) list"
    and invar :: "('k \<times> 'v) list \<Rightarrow> bool"
  assumes invar_empty: "invar []"
    and invar_distinct: "invar m \<Longrightarrow> distinct (map fst m)"
    and entry_invar: "invar m \<Longrightarrow> invar (entry k d f m)"
    and entry_lookup: "invar m \<Longrightarrow>
      map_of (entry k d f m) = (map_of m)(k \<mapsto> f (case map_of m k of None \<Rightarrow> d | Some v \<Rightarrow> v))"
begin

lemma fold_invar: "invar m \<Longrightarrow> invar (fold (\<lambda>x. entry (key x) d (upd x)) xs m)"
  by (induction xs arbitrary: m) (auto simp: entry_invar)

text \<open>Folding entries groups the updates by key, in order.\<close>

lemma fold_lookup:
  assumes "invar m"
  shows "map_of (fold (\<lambda>x. entry (key x) d (upd x)) xs m) k =
    (if \<exists>x\<in>set xs. key x = k
     then Some (fold upd (filter (\<lambda>x. key x = k) xs)
       (case map_of m k of None \<Rightarrow> d | Some v \<Rightarrow> v))
     else map_of m k)"
  using assms
proof (induction xs arbitrary: m)
  case (Cons x xs)
  then show ?case
    by (auto simp: entry_invar entry_lookup Cons.IH)
qed simp

lemma fold_keys:
  assumes "invar m"
  shows "fst ` set (fold (\<lambda>x. entry (key x) d (upd x)) xs m) = fst ` set m \<union> key ` set xs"
  using assms
  by (induction xs arbitrary: m)
    (auto simp: entry_invar entry_lookup simp flip: dom_map_of_conv_image_fst split: if_splits)

text \<open>An additive measure of the values grows by what the entry adds.\<close>

lemma entry_sum:
  fixes w :: "'v \<Rightarrow> 'c::comm_monoid_add"
  assumes m: "invar m" and f: "\<And>v. w (f v) = w v + c" and d: "w d = 0"
  shows "(\<Sum>(k, v)\<leftarrow>entry k d f m. w v) = (\<Sum>(k, v)\<leftarrow>m. w v) + c"
proof -
  let ?D = "dom (map_of m) - {k}"
  let ?v = "case map_of m k of None \<Rightarrow> d | Some v \<Rightarrow> v"
  have fin: "finite ?D" by (simp add: finite_dom_map_of)
  have "(\<Sum>(k, v)\<leftarrow>entry k d f m. w v)
      = (\<Sum>x\<in>dom (map_of (entry k d f m)). w (the (map_of (entry k d f m) x)))"
    using alist_sum[OF invar_distinct[OF entry_invar[OF m]], of "\<lambda>_. w"] .
  also have "\<dots> = (\<Sum>x\<in>insert k ?D. w (the (if x = k then Some (f ?v) else map_of m x)))"
    by (intro sum.cong) (auto simp: entry_lookup[OF m] split: if_splits)
  also have "\<dots> = w (f ?v) + (\<Sum>x\<in>?D. w (the (map_of m x)))"
    using fin by (subst sum.insert) (auto intro!: sum.cong)
  also have "\<dots> = (w ?v + (\<Sum>x\<in>?D. w (the (map_of m x)))) + c"
    by (simp add: f ac_simps)
  also have "w ?v + (\<Sum>x\<in>?D. w (the (map_of m x))) = (\<Sum>x\<in>dom (map_of m). w (the (map_of m x)))"
  proof (cases "map_of m k")
    case None
    then have "?D = dom (map_of m)" by auto
    with None d show ?thesis by simp
  next
    case (Some v)
    then have "k \<in> dom (map_of m)" by auto
    with Some show ?thesis
      using sum.remove[OF finite_dom_map_of[of m], of k "\<lambda>x. w (the (map_of m x))"] by simp
  qed
  also have "\<dots> = (\<Sum>(k, v)\<leftarrow>m. w v)"
    using alist_sum[OF invar_distinct[OF m], of "\<lambda>_. w"] by simp
  finally show ?thesis .
qed

end

fun hm_entry :: "'k \<Rightarrow> 'v \<Rightarrow> ('v \<Rightarrow> 'v) \<Rightarrow> ('k \<times> 'v) list \<Rightarrow> ('k \<times> 'v) list" where
  "hm_entry k d f [] = [(k, f d)]"
| "hm_entry k d f ((a, v) # m) = (if a = k then (a, f v) # m else (a, v) # hm_entry k d f m)"

fun tm_entry :: "'k::linorder \<Rightarrow> 'v \<Rightarrow> ('v \<Rightarrow> 'v) \<Rightarrow> ('k \<times> 'v) list \<Rightarrow> ('k \<times> 'v) list" where
  "tm_entry k d f [] = [(k, f d)]"
| "tm_entry k d f ((a, v) # m) =
    (if k < a then (k, f d) # (a, v) # m
     else if k = a then (a, f v) # m
     else (a, v) # tm_entry k d f m)"

definition hm_inv :: "('k \<times> 'v) list \<Rightarrow> bool" where
  "hm_inv m \<longleftrightarrow> distinct (map fst m)"

definition tm_inv :: "('k::linorder \<times> 'v) list \<Rightarrow> bool" where
  "tm_inv m \<longleftrightarrow> sorted_wrt (<) (map fst m)"

definition hm_remove :: "'k \<Rightarrow> ('k \<times> 'v) list \<Rightarrow> ('k \<times> 'v) list" where
  "hm_remove k m = filter (\<lambda>(a, _). a \<noteq> k) m"

lemma hm_entry_keys: "fst ` set (hm_entry k d f m) = insert k (fst ` set m)"
  by (induction m) (force split: if_splits)+

lemma hm_entry_lookup:
  "map_of (hm_entry k d f m) = (map_of m)(k \<mapsto> f (case map_of m k of None \<Rightarrow> d | Some v \<Rightarrow> v))"
  by (induction m) (auto simp: fun_eq_iff)

lemma tm_entry_keys: "fst ` set (tm_entry k d f m) = insert k (fst ` set m)"
  by (induction m) (force split: if_splits)+

lemma tm_entry_lookup:
  assumes "tm_inv m"
  shows "map_of (tm_entry k d f m)
    = (map_of m)(k \<mapsto> f (case map_of m k of None \<Rightarrow> d | Some v \<Rightarrow> v))"
  using assms
proof (induction m)
  case (Cons av m)
  obtain a v where av: "av = (a, v)" by (cases av)
  have "map_of m k = None" if "k < a"
    using Cons.prems that by (fastforce simp: tm_inv_def av map_of_eq_None_iff)
  moreover have "tm_inv m" using Cons.prems by (simp add: tm_inv_def)
  ultimately show ?case
    using Cons.IH by (auto simp: av fun_eq_iff)
qed simp

lemma tm_entry_inv: "tm_inv m \<Longrightarrow> tm_inv (tm_entry k d f m)"
proof (induction m)
  case (Cons av m)
  then show ?case
    using tm_entry_keys[of k d f m]
    by (cases av) (fastforce simp: tm_inv_def image_iff)
qed (simp add: tm_inv_def)

interpretation hm: entry_api hm_entry hm_inv
proof
  fix m :: "('a \<times> 'b) list" and k d f
  show "hm_inv (hm_entry k d f m)" if "hm_inv m"
    using that
  proof (induction m)
    case (Cons av m)
    then show ?case
      using hm_entry_keys[of k d f m] by (cases av) (auto simp: hm_inv_def image_iff)
  qed (simp add: hm_inv_def)
qed (auto simp: hm_inv_def hm_entry_lookup)

interpretation tm: entry_api tm_entry tm_inv
proof
  show "distinct (map fst m)" if "tm_inv m" for m :: "('a \<times> 'b) list"
    using that by (simp add: tm_inv_def strict_sorted_iff)
qed (auto simp: tm_entry_inv tm_entry_lookup tm_inv_def[of "[]"])

lemma map_of_hm_remove: "map_of (hm_remove k m) = (map_of m)(k := None)"
  by (induction m) (auto simp: hm_remove_def fun_eq_iff)

text \<open>Two ordered maps with the same contents are equal as lists.\<close>

lemma tm_unique:
  assumes "tm_inv m" and "tm_inv m'" and "map_of m = map_of m'"
  shows "m = m'"
proof (rule map_sorted_distinct_set_unique)
  have "mset m = mset m'"
    using assms by (intro mset_eq_alist) (auto intro: tm.invar_distinct)
  then show e: "set m = set m'" by (rule mset_eq_setD)
  show "inj_on fst (set m \<union> set m')"
    using tm.invar_distinct[OF assms(1)] e by (simp add: distinct_map)
qed (use assms in \<open>auto simp: tm_inv_def strict_sorted_iff\<close>)

section \<open>Vectors\<close>

fun upd_first :: "('a \<Rightarrow> bool) \<Rightarrow> ('a \<Rightarrow> 'a) \<Rightarrow> 'a list \<Rightarrow> 'a list" where
  "upd_first p f [] = []"
| "upd_first p f (x # xs) = (if p x then f x # xs else x # upd_first p f xs)"

definition upd_last :: "('a \<Rightarrow> bool) \<Rightarrow> ('a \<Rightarrow> 'a) \<Rightarrow> 'a list \<Rightarrow> 'a list" where
  "upd_last p f xs = rev (upd_first p f (rev xs))"

definition partition_point :: "('a \<Rightarrow> bool) \<Rightarrow> 'a list \<Rightarrow> nat" where
  "partition_point p xs = length (takeWhile p xs)"

fun all_pairs :: "('a \<Rightarrow> 'a \<Rightarrow> bool) \<Rightarrow> 'a list \<Rightarrow> bool" where
  "all_pairs r (x # y # zs) \<longleftrightarrow> r x y \<and> all_pairs r (y # zs)"
| "all_pairs r _ \<longleftrightarrow> True"

lemma length_upd_first [simp]: "length (upd_first p f xs) = length xs"
  by (induction xs) auto

lemma length_upd_last [simp]: "length (upd_last p f xs) = length xs"
  by (simp add: upd_last_def)

lemma map_upd_first: "(\<And>x. g (f x) = g x) \<Longrightarrow> map g (upd_first p f xs) = map g xs"
  by (induction xs) auto

lemma map_upd_last: "(\<And>x. g (f x) = g x) \<Longrightarrow> map g (upd_last p f xs) = map g xs"
  by (simp add: upd_last_def rev_map[symmetric] map_upd_first)

lemma upd_first_ball:
  "\<forall>x\<in>set xs. P x \<Longrightarrow> (\<And>x. P x \<Longrightarrow> P (f x)) \<Longrightarrow> \<forall>x\<in>set (upd_first p f xs). P x"
  by (induction xs) auto

lemma upd_last_ball:
  "\<forall>x\<in>set xs. P x \<Longrightarrow> (\<And>x. P x \<Longrightarrow> P (f x)) \<Longrightarrow> \<forall>x\<in>set (upd_last p f xs). P x"
  unfolding upd_last_def set_rev by (rule upd_first_ball) auto

lemma upd_first_id: "\<not> (\<exists>x\<in>set xs. p x) \<Longrightarrow> upd_first p f xs = xs"
  by (induction xs) auto

lemma upd_first_split:
  "\<not> (\<exists>x\<in>set as. p x) \<Longrightarrow> p b \<Longrightarrow> upd_first p f (as @ b # cs) = as @ f b # cs"
  by (induction as) auto

lemma upd_last_split:
  "\<not> (\<exists>x\<in>set cs. p x) \<Longrightarrow> p b \<Longrightarrow> upd_last p f (as @ b # cs) = as @ f b # cs"
  by (simp add: upd_last_def upd_first_split)

lemma upd_first_cong:
  "(\<And>x. x \<in> set xs \<Longrightarrow> p x \<Longrightarrow> f x = g x) \<Longrightarrow> upd_first p f xs = upd_first p g xs"
  by (induction xs) auto

lemma map_upd_first_commute:
  "(\<And>x. p (h x) = p x) \<Longrightarrow> (\<And>x. h (f x) = g (h x)) \<Longrightarrow>
    map h (upd_first p f xs) = upd_first p g (map h xs)"
  by (induction xs) auto

lemma sum_upd_first:
  fixes w :: "'a \<Rightarrow> 'c::comm_monoid_add"
  assumes "\<exists>x\<in>set xs. p x" and "\<And>x. w (f x) = w x + c"
  shows "(\<Sum>x\<leftarrow>upd_first p f xs. w x) = (\<Sum>x\<leftarrow>xs. w x) + c"
  using assms(1)
proof (induction xs)
  case (Cons a xs)
  then show ?case by (cases "p a") (auto simp: assms(2) ac_simps)
qed simp

lemma all_pairs_sorted: "all_pairs (\<lambda>x y. g x \<le> g y) xs \<longleftrightarrow> sorted (map g xs)"
  for g :: "'a \<Rightarrow> 'b::linorder"
  by (induction "\<lambda>x y. g x \<le> g y" xs rule: all_pairs.induct) (auto intro: order_trans)

text \<open>On a sorted vector the slice between two partition points is the filtered vector.\<close>

lemma drop_partition_filter:
  fixes g :: "'a \<Rightarrow> 'b::linorder"
  assumes "sorted (map g xs)"
  shows "drop (partition_point (\<lambda>x. g x < a) xs) xs = filter (\<lambda>x. a \<le> g x) xs"
  using assms unfolding partition_point_def
proof (induction xs)
  case (Cons x xs)
  have "filter (\<lambda>y. a \<le> g y) xs = xs" if "a \<le> g x"
    using Cons.prems that by (intro filter_True) (auto intro: order_trans)
  with Cons show ?case by (auto simp: not_less not_le)
qed simp

lemma take_partition_filter:
  fixes g :: "'a \<Rightarrow> 'b::linorder"
  assumes "sorted (map g xs)"
  shows "take (partition_point (\<lambda>x. g x \<le> b) xs) xs = filter (\<lambda>x. g x \<le> b) xs"
  using assms unfolding partition_point_def
proof (induction xs)
  case (Cons x xs)
  have "filter (\<lambda>y. g y \<le> b) xs = []" if "\<not> g x \<le> b"
    using Cons.prems that by (intro filter_False) (auto dest: order_trans)
  with Cons show ?case by auto
qed simp

lemma partition_point_le: "partition_point p xs \<le> length xs"
  by (simp add: partition_point_def length_takeWhile_le)

end
