(* ===== verification/Model_Types.thy ===== *)
theory Model_Types
  imports Odo_Json Odo_Containers
begin

text \<open>
  The data model of \<open>src-tauri/src/model.rs\<close>: the enums and structs the parsers fill and the
  reports read, in the order of the file, with the field-wise accumulation operators. Record
  fields carry a prefix per struct, because the source reuses names such as \<open>model\<close> and
  \<open>timestamp\<close> in several of them.
\<close>

section \<open>Enums\<close>

datatype source_availability = AvailPresent | AvailMissing

datatype session_lifecycle = LifePresent | LifeRetained | LifeSuperseded | LifePurged

datatype tool_kind = KRead | KSearch | KMutation | KCommand | KOther

datatype tool_outcome = OutPending | OutSuccess | OutFailure | OutUnknown

datatype tool_origin = OrgCore | OrgMcp | OrgProvider | OrgUnknown

datatype task_category =
  CatPlanning | CatExploration | CatCoding | CatDebugging | CatTesting | CatReview | CatOther

datatype turn_status = InProgress | Completed | Aborted | RolledBack

datatype project_provenance =
  RepositoryRoot | WorkspaceRoot | ProviderProjectId | FallbackPathIdentity

text \<open>\<open>TaskCategory\<close> derives \<open>Ord\<close>: declaration order. It keys a \<open>BTreeMap\<close>.\<close>

fun category_rank :: "task_category \<Rightarrow> nat" where
  "category_rank CatPlanning = 0"
| "category_rank CatExploration = 1"
| "category_rank CatCoding = 2"
| "category_rank CatDebugging = 3"
| "category_rank CatTesting = 4"
| "category_rank CatReview = 5"
| "category_rank CatOther = 6"

lemma category_rank_inj: "category_rank a = category_rank b \<Longrightarrow> a = b"
  by (cases a; cases b) auto

instantiation task_category :: linorder
begin

definition "a \<le> b \<longleftrightarrow> category_rank a \<le> category_rank b"

definition "a < b \<longleftrightarrow> category_rank a < category_rank b"

instance
  by standard (auto simp: less_eq_task_category_def less_task_category_def intro: category_rank_inj)

end

fun tool_kind_as_str :: "tool_kind \<Rightarrow> string" where
  "tool_kind_as_str KRead = ''read''"
| "tool_kind_as_str KSearch = ''search''"
| "tool_kind_as_str KMutation = ''mutation''"
| "tool_kind_as_str KCommand = ''command''"
| "tool_kind_as_str KOther = ''other''"

fun tool_origin_as_str :: "tool_origin \<Rightarrow> string" where
  "tool_origin_as_str OrgCore = ''core''"
| "tool_origin_as_str OrgMcp = ''mcp''"
| "tool_origin_as_str OrgProvider = ''provider''"
| "tool_origin_as_str OrgUnknown = ''unknown''"

definition tool_origin_from_str_or_unknown :: "string \<Rightarrow> tool_origin" where
  "tool_origin_from_str_or_unknown v =
     (if v = ''core'' then OrgCore
      else if v = ''mcp'' then OrgMcp
      else if v = ''provider'' then OrgProvider
      else OrgUnknown)"

definition tool_origin_classify :: "tool_kind \<Rightarrow> string list \<Rightarrow> tool_origin" where
  "tool_origin_classify kind providers =
     (if providers \<noteq> [] then OrgMcp
      else if kind = KOther then OrgProvider
      else OrgCore)"

section \<open>Identities\<close>

type_synonym provider_id = string

definition codex_provider_id :: provider_id where
  "codex_provider_id = ''codex''"

definition claude_code_provider_id :: provider_id where
  "claude_code_provider_id = ''claude_code''"

definition gemini_cli_provider_id :: provider_id where
  "gemini_cli_provider_id = ''gemini_cli''"

definition storage_id_for_session :: "provider_id \<Rightarrow> string \<Rightarrow> string" where
  "storage_id_for_session provider sid =
     (if provider = codex_provider_id then ''codex:thread:'' @ sid
      else provider @ '':session:'' @ sid)"

definition storage_id_for_claude_subagent :: "string \<Rightarrow> string \<Rightarrow> string" where
  "storage_id_for_claude_subagent parent agent =
     ''claude_code:subagent:'' @ parent @ '':'' @ agent"

section \<open>Token totals\<close>

record token_totals =
  input_tokens :: u64
  cached_input_tokens :: u64
  cache_creation_input_tokens :: u64
  output_tokens :: u64
  reasoning_output_tokens :: u64
  total_tokens :: u64

text \<open>
  \<open>impl AddAssign<&TokenTotals>\<close>: field-wise wrapping addition. The type is made an instance of
  commutative monoids, so that sums of totals are the library's \<open>sum_list\<close>.
\<close>

instantiation unit :: comm_monoid_add
begin

definition zero_unit :: unit where "zero_unit = ()"

definition plus_unit :: "unit \<Rightarrow> unit \<Rightarrow> unit" where "plus_unit a b = ()"

instance by standard auto

end

instantiation token_totals_ext :: (comm_monoid_add) comm_monoid_add
begin

definition zero_token_totals_ext :: "'a token_totals_scheme" where
  "zero_token_totals_ext =
     \<lparr>input_tokens = 0, cached_input_tokens = 0, cache_creation_input_tokens = 0,
      output_tokens = 0, reasoning_output_tokens = 0, total_tokens = 0, \<dots> = 0\<rparr>"

definition plus_token_totals_ext ::
    "'a token_totals_scheme \<Rightarrow> 'a token_totals_scheme \<Rightarrow> 'a token_totals_scheme" where
  "plus_token_totals_ext a b =
     \<lparr>input_tokens = input_tokens a + input_tokens b,
      cached_input_tokens = cached_input_tokens a + cached_input_tokens b,
      cache_creation_input_tokens = cache_creation_input_tokens a + cache_creation_input_tokens b,
      output_tokens = output_tokens a + output_tokens b,
      reasoning_output_tokens = reasoning_output_tokens a + reasoning_output_tokens b,
      total_tokens = total_tokens a + total_tokens b,
      \<dots> = token_totals.more a + token_totals.more b\<rparr>"

instance
  by standard
    (auto simp: zero_token_totals_ext_def plus_token_totals_ext_def ac_simps
      intro!: token_totals.equality)

end

lemma token_totals_plus_sel [simp]:
  "input_tokens (a + b) = input_tokens a + input_tokens b"
  "cached_input_tokens (a + b) = cached_input_tokens a + cached_input_tokens b"
  "cache_creation_input_tokens (a + b)
     = cache_creation_input_tokens a + cache_creation_input_tokens b"
  "output_tokens (a + b) = output_tokens a + output_tokens b"
  "reasoning_output_tokens (a + b) = reasoning_output_tokens a + reasoning_output_tokens b"
  "total_tokens (a + b) = total_tokens a + total_tokens b"
  by (simp_all add: plus_token_totals_ext_def)

lemma token_totals_zero_sel [simp]:
  "input_tokens 0 = 0" "cached_input_tokens 0 = 0" "cache_creation_input_tokens 0 = 0"
  "output_tokens 0 = 0" "reasoning_output_tokens 0 = 0" "total_tokens 0 = 0"
  by (simp_all add: zero_token_totals_ext_def)

definition default_totals :: token_totals where
  "default_totals =
     \<lparr>input_tokens = 0, cached_input_tokens = 0, cache_creation_input_tokens = 0,
      output_tokens = 0, reasoning_output_tokens = 0, total_tokens = 0\<rparr>"

definition add_totals :: "token_totals \<Rightarrow> token_totals \<Rightarrow> token_totals" where
  "add_totals dst src =
     \<lparr>input_tokens = input_tokens dst + input_tokens src,
      cached_input_tokens = cached_input_tokens dst + cached_input_tokens src,
      cache_creation_input_tokens =
        cache_creation_input_tokens dst + cache_creation_input_tokens src,
      output_tokens = output_tokens dst + output_tokens src,
      reasoning_output_tokens = reasoning_output_tokens dst + reasoning_output_tokens src,
      total_tokens = total_tokens dst + total_tokens src\<rparr>"

lemma default_totals_eq [simp]: "default_totals = 0"
  by (simp add: default_totals_def zero_token_totals_ext_def zero_unit_def)

lemma add_totals_eq [simp]: "add_totals a b = a + b"
  by (simp add: add_totals_def plus_token_totals_ext_def)

section \<open>Tool observations and metrics\<close>

record tool_observation =
  o_call_id :: string
  o_turn_id :: "string option"
  o_harness :: provider_id
  o_model :: "string option"
  o_timestamp :: timestamp
  o_kind :: tool_kind
  o_name :: string
  o_providers :: "string list"
  o_effective_tools :: "string list"
  o_target :: "string option"
  o_resource_id :: "string option"
  o_origin :: tool_origin
  o_shell_family :: "string option"
  o_language :: "string option"
  o_outcome :: tool_outcome
  o_duration_ms :: "u64 option"
  o_output_bytes :: u64

record dimension_metrics =
  d_calls :: u64
  d_failures :: u64
  d_output_bytes :: u64
  d_duration_ms :: u64
  d_tokens :: u64

definition default_dimension_metrics :: dimension_metrics where
  "default_dimension_metrics =
     \<lparr>d_calls = 0, d_failures = 0, d_output_bytes = 0, d_duration_ms = 0, d_tokens = 0\<rparr>"

definition dimension_metrics_add_assign ::
    "dimension_metrics \<Rightarrow> dimension_metrics \<Rightarrow> dimension_metrics" where
  "dimension_metrics_add_assign self other =
     \<lparr>d_calls = d_calls self + d_calls other,
      d_failures = d_failures self + d_failures other,
      d_output_bytes = d_output_bytes self + d_output_bytes other,
      d_duration_ms = d_duration_ms self + d_duration_ms other,
      d_tokens = d_tokens self + d_tokens other\<rparr>"

record tool_metrics =
  m_calls :: u64
  m_reads :: u64
  m_searches :: u64
  m_mutations :: u64
  m_commands :: u64
  m_other :: u64
  m_successes :: u64
  m_failures :: u64
  m_unknown :: u64
  m_mutation_targets :: u64
  m_one_shot_mutations :: u64
  m_retry_count :: u64
  m_duration_ms :: u64
  m_output_bytes :: u64
  m_core_origin_calls :: u64
  m_mcp_origin_calls :: u64
  m_provider_origin_calls :: u64
  m_unknown_origin_calls :: u64

definition default_metrics :: tool_metrics where
  "default_metrics =
     \<lparr>m_calls = 0, m_reads = 0, m_searches = 0, m_mutations = 0, m_commands = 0, m_other = 0,
      m_successes = 0, m_failures = 0, m_unknown = 0, m_mutation_targets = 0,
      m_one_shot_mutations = 0, m_retry_count = 0, m_duration_ms = 0, m_output_bytes = 0,
      m_core_origin_calls = 0, m_mcp_origin_calls = 0, m_provider_origin_calls = 0,
      m_unknown_origin_calls = 0\<rparr>"

definition metrics_add_assign :: "tool_metrics \<Rightarrow> tool_metrics \<Rightarrow> tool_metrics" where
  "metrics_add_assign self v =
     \<lparr>m_calls = m_calls self + m_calls v,
      m_reads = m_reads self + m_reads v,
      m_searches = m_searches self + m_searches v,
      m_mutations = m_mutations self + m_mutations v,
      m_commands = m_commands self + m_commands v,
      m_other = m_other self + m_other v,
      m_successes = m_successes self + m_successes v,
      m_failures = m_failures self + m_failures v,
      m_unknown = m_unknown self + m_unknown v,
      m_mutation_targets = m_mutation_targets self + m_mutation_targets v,
      m_one_shot_mutations = m_one_shot_mutations self + m_one_shot_mutations v,
      m_retry_count = m_retry_count self + m_retry_count v,
      m_duration_ms = m_duration_ms self + m_duration_ms v,
      m_output_bytes = m_output_bytes self + m_output_bytes v,
      m_core_origin_calls = m_core_origin_calls self + m_core_origin_calls v,
      m_mcp_origin_calls = m_mcp_origin_calls self + m_mcp_origin_calls v,
      m_provider_origin_calls = m_provider_origin_calls self + m_provider_origin_calls v,
      m_unknown_origin_calls = m_unknown_origin_calls self + m_unknown_origin_calls v\<rparr>"

section \<open>Turns, categories, findings\<close>

record turn_classification =
  cl_version :: u32
  cl_category :: task_category
  cl_confidence :: f32
  cl_signals :: "string list"

definition default_classification :: turn_classification where
  "default_classification =
     \<lparr>cl_version = 1, cl_category = CatOther, cl_confidence = 0, cl_signals = []\<rparr>"

record tier_bucket =
  b_model :: string
  b_service_tier :: "string option"
  b_tokens :: token_totals

record category_metric =
  c_turns :: u64
  c_tokens :: token_totals
  c_tool_calls :: u64
  c_buckets :: "tier_bucket list"

definition default_category_metric :: category_metric where
  "default_category_metric =
     \<lparr>c_turns = 0, c_tokens = default_totals, c_tool_calls = 0, c_buckets = []\<rparr>"

record optimization_finding =
  f_version :: u32
  f_rule_id :: string
  f_severity :: string
  f_confidence :: string
  f_turn_id :: "string option"
  f_model :: "string option"
  f_timestamp :: "timestamp option"
  f_evidence :: string
  f_remediation :: string
  f_occurrences :: u64
  f_avoidable_calls :: u64

record optimization_summary =
  os_findings :: u64
  os_warnings :: u64
  os_likely_avoidable_calls :: u64
  os_by_rule :: "(string \<times> u64) list"

definition default_optimization_summary :: optimization_summary where
  "default_optimization_summary =
     \<lparr>os_findings = 0, os_warnings = 0, os_likely_avoidable_calls = 0, os_by_rule = []\<rparr>"

definition optimization_summary_from_findings ::
    "optimization_finding list \<Rightarrow> optimization_summary" where
  "optimization_summary_from_findings fs =
     fold (\<lambda>f out.
       out\<lparr>os_findings := os_findings out + 1,
           os_warnings := (if f_severity f = ''warning'' then os_warnings out + 1
                           else os_warnings out),
           os_likely_avoidable_calls := os_likely_avoidable_calls out + f_avoidable_calls f,
           os_by_rule := tm_entry (f_rule_id f) 0 (\<lambda>n. n + 1) (os_by_rule out)\<rparr>)
       fs default_optimization_summary"

record turn_info =
  t_turn_id :: string
  t_index :: u32
  t_model :: "string option"
  t_reasoning_effort :: "string option"
  t_collaboration_mode :: "string option"
  t_service_tier :: "string option"
  t_status :: turn_status
  t_abort_reason :: "string option"
  t_started_at :: "timestamp option"
  t_completed_at :: "timestamp option"
  t_duration_ms :: "u64 option"
  t_time_to_first_token_ms :: "u64 option"
  t_user_message :: "string option"
  t_last_agent_message :: "string option"
  t_tokens :: token_totals
  t_tool_metrics :: tool_metrics
  t_classification :: turn_classification

definition default_turn :: turn_info where
  "default_turn =
     \<lparr>t_turn_id = [], t_index = 0, t_model = None, t_reasoning_effort = None,
      t_collaboration_mode = None, t_service_tier = None, t_status = InProgress,
      t_abort_reason = None, t_started_at = None, t_completed_at = None, t_duration_ms = None,
      t_time_to_first_token_ms = None, t_user_message = None, t_last_agent_message = None,
      t_tokens = default_totals, t_tool_metrics = default_metrics,
      t_classification = default_classification\<rparr>"

section \<open>History points and rate-limit snapshots\<close>

record token_history_point =
  h_timestamp :: timestamp
  h_model :: "string option"
  h_service_tier :: "string option"
  h_request_input_tokens :: "u64 option"
  h_total_tokens :: u64
  h_delta :: token_totals

record rate_limit_window =
  w_used_percent :: f64
  w_window_minutes :: "u64 option"
  w_resets_at :: "timestamp option"

record rate_limit_snapshot_point =
  p_timestamp :: timestamp
  p_turn_id :: "string option"
  p_limit_id :: "string option"
  p_primary :: "rate_limit_window option"
  p_secondary :: "rate_limit_window option"
  p_run_started_at :: "timestamp option"
  p_observation_count :: u32

section \<open>Sessions\<close>

record session =
  s_id :: string
  s_storage_id :: string
  s_harness :: provider_id
  s_thread_name :: "string option"
  s_forked_from_id :: "string option"
  s_parent_thread_id :: "string option"
  s_agent_path :: "string option"
  s_agent_nickname :: "string option"
  s_file_path :: string
  s_source_availability :: source_availability
  s_lifecycle :: session_lifecycle
  s_archived :: bool
  s_started_at :: timestamp
  s_last_event_at :: timestamp
  s_working_directory :: "string option"
  s_originator :: "string option"
  s_source :: "string option"
  s_subagent_id_is_path_fallback :: bool
  s_history_mode :: "string option"
  s_memory_mode :: "string option"
  s_cli_version :: "string option"
  s_model_provider :: "string option"
  s_model :: "string option"
  s_service_tier :: "string option"
  s_plan_type :: "string option"
  s_credits_unlimited :: "bool option"
  s_credits_balance :: "f64 option"
  s_context_window :: "u32 option"
  s_latest_context_tokens :: "u64 option"
  s_total_turns :: u32
  s_first_user_message :: "string option"
  s_tokens_total :: token_totals
  s_tokens_by_model :: "(string \<times> token_totals) list"
  s_tokens_history :: "token_history_point list"
  s_rate_limits_history :: "rate_limit_snapshot_point list"
  s_turns :: "turn_info list"
  s_tool_observations :: "tool_observation list"
  s_tool_metrics :: tool_metrics
  s_tool_metrics_by_model :: "(string \<times> tool_metrics) list"
  s_category_totals :: "(task_category \<times> category_metric) list"
  s_optimization_findings :: "optimization_finding list"
  s_project_key :: "string option"
  s_project_label :: "string option"
  s_project_provenance :: "project_provenance option"

end
