(* ===== verification/Telemetry_Calls.thy ===== *)
theory Telemetry_Calls
  imports Stable_Hash Model_Types
begin

text \<open>
  The first half of \<open>src-tauri/src/telemetry.rs\<close>: what is kept of a tool call. Names are
  classified into kinds, arguments are reduced to hashed targets, MCP server names, effective
  tool names, a shell family and a language, and call results are attached to the last call with
  the same id. The lemmas show that the derived labels are bounded: identifiers are short, drawn
  from a small alphabet and free of duplicates, shell families and languages come from the fixed
  tables, and a hashed identity has a fixed length.
\<close>

section \<open>Classification\<close>

definition classify_tool :: "string \<Rightarrow> tool_kind" where
  "classify_tool name =
     (let v = to_ascii_lowercase name in
      if contains_any v [''read'', ''get'', ''open'', ''view''] then KRead
      else if contains_any v [''search'', ''find'', ''grep'', ''query''] then KSearch
      else if contains_any v [''edit'', ''write'', ''patch'', ''create'', ''delete'', ''move'']
        then KMutation
      else if contains_any v [''shell'', ''exec'', ''command'', ''bash'', ''powershell'']
        then KCommand
      else KOther)"

section \<open>Targets and resources\<close>

definition resource_candidate :: "json \<Rightarrow> string option" where
  "resource_candidate arguments =
     (case or_else
        (Option.bind
          (get_first [''path'', ''file_path'', ''target'', ''workdir'', ''cwd'', ''uri'',
             ''ref_id'', ''document_id'', ''spreadsheet_id'', ''command'', ''query''] arguments)
          as_str)
        (as_str arguments) of
        Some c \<Rightarrow> if c = [] then None else Some c
      | None \<Rightarrow> None)"

definition normalized_resource :: "json \<Rightarrow> string option" where
  "normalized_resource arguments = map_option stable_hash (resource_candidate arguments)"

definition normalized_target :: "host \<Rightarrow> string \<Rightarrow> json \<Rightarrow> string option" where
  "normalized_target hst name arguments =
     (let kind = classify_tool name in
      case normalized_resource arguments of
        None \<Rightarrow> None
      | Some resource \<Rightarrow>
          let identity =
            (if kind = KRead \<or> kind = KSearch
             then stable_hash (name @ [CHR 0x00] @ unwrap_or [] (host_to_string hst arguments))
             else resource)
          in Some (tool_kind_as_str kind @ '':'' @ identity))"

section \<open>Bounded identifiers\<close>

definition ident_byte :: "char \<Rightarrow> bool" where
  "ident_byte c \<longleftrightarrow>
     is_ascii_alphanumeric c \<or> c = CHR ''_'' \<or> c = CHR ''-'' \<or> c = CHR ''.''"

function collect_mcp_providers :: "string \<Rightarrow> string list \<Rightarrow> string list" where
  "collect_mcp_providers remaining providers =
     (case split_at ''mcp__'' remaining of
        None \<Rightarrow> providers
      | Some (_, candidate) \<Rightarrow>
          (case split_at ''__'' candidate of
             None \<Rightarrow> providers
           | Some (provider, rest) \<Rightarrow>
               collect_mcp_providers rest
                 (if provider \<noteq> [] \<and> length provider \<le> 64 \<and> list_all ident_byte provider
                  then let p = to_ascii_lowercase provider in
                       if p \<notin> set providers \<and> length providers < 16
                       then providers @ [p] else providers
                  else providers)))"
  by pat_completeness auto
termination
  by (relation "measure (\<lambda>(s, _). length s)") (auto dest!: split_at_length)

definition push_tool_identifier :: "string \<Rightarrow> string list \<Rightarrow> string list" where
  "push_tool_identifier v tools =
     (if v = [] \<or> length v > 128 \<or> \<not> list_all ident_byte v then tools
      else let l = to_ascii_lowercase v in
           if l \<notin> set tools \<and> length tools < 32 then tools @ [l] else tools)"

function collect_orchestrated_tools :: "string \<Rightarrow> string list \<Rightarrow> string list" where
  "collect_orchestrated_tools remaining tools =
     (case split_at ''tools.'' remaining of
        None \<Rightarrow> tools
      | Some (_, candidate) \<Rightarrow>
          collect_orchestrated_tools (dropWhile ident_byte candidate)
            (push_tool_identifier (takeWhile ident_byte candidate) tools))"
  by pat_completeness auto
termination
proof (relation "measure (\<lambda>(s, _). length s)")
  fix remaining tools x b candidate
  assume "split_at ''tools.'' remaining = Some x" and "(b, candidate) = x"
  then have "length candidate < length remaining"
    by (auto dest!: split_at_length)
  moreover have "length (dropWhile ident_byte candidate) \<le> length candidate"
    by (rule length_dropWhile_le)
  ultimately show "((dropWhile ident_byte candidate,
      push_tool_identifier (takeWhile ident_byte candidate) tools), remaining, tools)
      \<in> measure (\<lambda>(s, _). length s)"
    by simp
qed simp

declare collect_mcp_providers.simps [simp del] collect_orchestrated_tools.simps [simp del]

definition orchestration_source :: "json \<Rightarrow> string option" where
  "orchestration_source arguments = or_else (get_str ''input'' arguments) (as_str arguments)"

definition effective_tools :: "string \<Rightarrow> json \<Rightarrow> string list" where
  "effective_tools name arguments =
     (let tools = (case orchestration_source arguments of
                     Some source \<Rightarrow> collect_orchestrated_tools source []
                   | None \<Rightarrow> [])
      in if tools = [] then push_tool_identifier name tools else tools)"

definition tool_providers :: "string \<Rightarrow> json \<Rightarrow> string list" where
  "tool_providers name arguments =
     (let providers = collect_mcp_providers name [] in
      case orchestration_source arguments of
        Some source \<Rightarrow> collect_mcp_providers source providers
      | None \<Rightarrow> providers)"

section \<open>Shell families\<close>

definition shell_families :: "string list" where
  "shell_families =
    [
     ''git'', ''npm'', ''npx'', ''pnpm'', ''yarn'', ''cargo'', ''rustc'', ''python'',
     ''python3'', ''pip'', ''pip3'', ''node'', ''docker'', ''docker-compose'', ''make'',
     ''cmake'', ''go'', ''pytest'', ''ls'', ''cat'', ''grep'', ''find'', ''curl'', ''wget'',
     ''kubectl'', ''terraform'', ''dotnet'', ''mvn'', ''gradle'', ''ruby'', ''gem'',
     ''bundle'', ''brew'', ''apt'', ''apt-get'', ''systemctl'', ''ssh'', ''scp'', ''rsync'',
     ''tar'', ''zip'', ''unzip'', ''sed'', ''awk'', ''chmod'', ''chown'', ''mkdir'', ''rm'',
     ''cp'', ''mv'', ''echo'', ''pwsh'', ''powershell'', ''cmd'', ''bash'', ''sh'', ''zsh'',
     ''psql'', ''mysql'', ''sqlite3'', ''gh'', ''az'', ''aws'', ''gcloud'', ''jq'', ''tsc'',
     ''eslint'', ''prettier'', ''vitest'', ''jest'', ''playwright'', ''get-content'',
     ''get-childitem'', ''set-location'', ''new-item'', ''remove-item'', ''copy-item'',
     ''move-item'', ''select-string'', ''where-object'', ''foreach-object'', ''write-output'',
     ''test-path'', ''join-path'', ''get-item'', ''invoke-webrequest'', ''invoke-restmethod'']"

definition shell_wrappers :: "string list" where
  "shell_wrappers =
     [''bash -lc '', ''bash -c '', ''sh -lc '', ''sh -c '', ''zsh -lc '',
      ''powershell -command '', ''powershell.exe -command '', ''pwsh -command '',
      ''cmd /c '', ''cmd.exe /c '']"

definition is_quote :: "char \<Rightarrow> bool" where
  "is_quote c \<longleftrightarrow> c = CHR 0x22 \<or> c = CHR 0x27"

definition trim_quotes :: "string \<Rightarrow> string" where
  "trim_quotes s = rev (dropWhile is_quote (rev (dropWhile is_quote s)))"

definition strip_shell_wrapper :: "string \<Rightarrow> string" where
  "strip_shell_wrapper command =
     (let trimmed = trim_start command;
          lower = to_ascii_lowercase trimmed
      in case find (\<lambda>wrapper. starts_with wrapper lower) shell_wrappers of
           Some wrapper \<Rightarrow> trim_quotes (trim (drop (length wrapper) trimmed))
         | None \<Rightarrow> trimmed)"

definition classify_shell_family :: "string \<Rightarrow> string option" where
  "classify_shell_family command0 =
     (let command = strip_shell_wrapper command0;
          first =
            (case strip_prefix [CHR 0x22] command of
               Some rest \<Rightarrow> Some (takeWhile (\<lambda>c. c \<noteq> CHR 0x22) rest)
             | None \<Rightarrow>
                 (case strip_prefix [CHR 0x27] command of
                    Some rest \<Rightarrow> Some (takeWhile (\<lambda>c. c \<noteq> CHR 0x27) rest)
                  | None \<Rightarrow> first_token (white_space @ [''&'', ''|'', '';'']) command))
      in case first of
           None \<Rightarrow> None
         | Some token \<Rightarrow>
             let base = last_piece (\<lambda>c. c = CHR ''/'' \<or> c = CHR 0x5C) token;
                 base = unwrap_or base (strip_suffix ''.exe'' base);
                 lower = to_ascii_lowercase base
             in if lower = [] then None
                else if lower \<in> set shell_families then Some lower
                else Some ''other'')"

definition shell_family_for_call :: "tool_kind \<Rightarrow> json \<Rightarrow> string option" where
  "shell_family_for_call kind arguments =
     (if kind \<noteq> KCommand then None
      else Option.bind (or_else (get_str ''command'' arguments) (as_str arguments))
        classify_shell_family)"

section \<open>Languages\<close>

definition language_extensions :: "(string \<times> string) list" where
  "language_extensions =
    [
     (''rs'', ''rust''), (''ts'', ''typescript''), (''tsx'', ''typescript''),
     (''js'', ''javascript''), (''jsx'', ''javascript''), (''mjs'', ''javascript''),
     (''py'', ''python''), (''go'', ''go''), (''java'', ''java''), (''kt'', ''kotlin''),
     (''swift'', ''swift''), (''c'', ''c''), (''h'', ''c''), (''cpp'', ''cpp''),
     (''cc'', ''cpp''), (''hpp'', ''cpp''), (''cs'', ''csharp''), (''rb'', ''ruby''),
     (''php'', ''php''), (''sh'', ''shell''), (''bash'', ''shell''), (''ps1'', ''powershell''),
     (''sql'', ''sql''), (''md'', ''markdown''), (''json'', ''json''), (''yaml'', ''yaml''),
     (''yml'', ''yaml''), (''toml'', ''toml''), (''html'', ''html''), (''css'', ''css''),
     (''scss'', ''css''), (''svelte'', ''svelte''), (''vue'', ''vue''),
     (''proto'', ''protobuf''), (''graphql'', ''graphql'')]"

definition language_from_path :: "string \<Rightarrow> string option" where
  "language_from_path path =
     (case rsplit_once CHR ''.'' path of
        None \<Rightarrow> None
      | Some (_, extension) \<Rightarrow> map_of language_extensions (to_ascii_lowercase extension))"

definition language_for_call :: "json \<Rightarrow> string option" where
  "language_for_call arguments =
     Option.bind (Option.bind (get_first [''path'', ''file_path''] arguments) as_str)
       language_from_path"

section \<open>Observing calls and results\<close>

record tool_call_input =
  in_call_id :: string
  in_turn_id :: "string option"
  in_harness :: provider_id
  in_model :: "string option"
  in_timestamp :: timestamp
  in_name :: string
  in_arguments :: json

definition observe_call ::
    "host \<Rightarrow> tool_observation list \<Rightarrow> tool_call_input \<Rightarrow> tool_observation list" where
  "observe_call hst observations inp =
     (if in_call_id inp = [] then observations
      else
        let providers = tool_providers (in_name inp) (in_arguments inp);
            kind = classify_tool (in_name inp)
        in observations @
          [\<lparr>o_call_id = in_call_id inp,
            o_turn_id = in_turn_id inp,
            o_harness = in_harness inp,
            o_model = in_model inp,
            o_timestamp = in_timestamp inp,
            o_kind = kind,
            o_name = in_name inp,
            o_providers = providers,
            o_effective_tools = effective_tools (in_name inp) (in_arguments inp),
            o_target = normalized_target hst (in_name inp) (in_arguments inp),
            o_resource_id = normalized_resource (in_arguments inp),
            o_origin = tool_origin_classify kind providers,
            o_shell_family = shell_family_for_call kind (in_arguments inp),
            o_language = language_for_call (in_arguments inp),
            o_outcome = OutPending,
            o_duration_ms = None,
            o_output_bytes = 0\<rparr>])"

definition result_update ::
    "tool_outcome \<Rightarrow> u64 option \<Rightarrow> timestamp option \<Rightarrow> u64 \<Rightarrow> tool_observation
      \<Rightarrow> tool_observation" where
  "result_update outcome duration_ms completed_at output_bytes item =
     (let elapsed_ms = Option.bind completed_at
            (\<lambda>completed. u64_of_int (num_milliseconds (completed - o_timestamp item)))
      in item\<lparr>o_outcome := outcome,
              o_duration_ms :=
                (if duration_ms \<noteq> None \<or> (o_duration_ms item = None \<and> elapsed_ms \<noteq> None)
                 then or_else duration_ms elapsed_ms
                 else o_duration_ms item),
              o_output_bytes := max (o_output_bytes item) output_bytes\<rparr>)"

definition observe_result ::
    "tool_observation list \<Rightarrow> string \<Rightarrow> tool_outcome \<Rightarrow> u64 option \<Rightarrow> timestamp option
      \<Rightarrow> u64 \<Rightarrow> tool_observation list" where
  "observe_result observations call_id outcome duration_ms completed_at output_bytes =
     upd_last (\<lambda>item. o_call_id item = call_id)
       (result_update outcome duration_ms completed_at output_bytes) observations"

section \<open>The derived labels are bounded\<close>

definition lower_ident :: "char \<Rightarrow> bool" where
  "lower_ident c \<longleftrightarrow> ident_byte c \<and> \<not> in_range 65 90 c"

definition bounded_ids :: "nat \<Rightarrow> nat \<Rightarrow> string list \<Rightarrow> bool" where
  "bounded_ids n w ids \<longleftrightarrow>
     length ids \<le> n \<and> distinct ids
     \<and> (\<forall>i\<in>set ids. i \<noteq> [] \<and> length i \<le> w \<and> list_all lower_ident i)"

lemma to_lower_ident: "ident_byte c \<Longrightarrow> lower_ident (to_lower c)"
  by (auto simp: lower_ident_def ident_byte_def is_ascii_alphanumeric_def in_range_def
      to_lower_def byte_char_of byte_def split: if_splits)

lemma lowercase_ident: "list_all ident_byte v \<Longrightarrow> list_all lower_ident (to_ascii_lowercase v)"
  by (induction v) (auto simp: to_ascii_lowercase_def to_lower_ident)

lemma bounded_ids_Nil [simp]: "bounded_ids n w []"
  by (simp add: bounded_ids_def)

lemma bounded_ids_snoc:
  assumes "bounded_ids n w ids" and "length ids < n" and "v \<noteq> []" and "length v \<le> w"
    and "list_all ident_byte v" and "to_ascii_lowercase v \<notin> set ids"
  shows "bounded_ids n w (ids @ [to_ascii_lowercase v])"
  using assms by (auto simp: bounded_ids_def lowercase_ident)

lemma collect_mcp_providers_bounded:
  "bounded_ids 16 64 ps \<Longrightarrow> bounded_ids 16 64 (collect_mcp_providers s ps)"
proof (induction s ps rule: collect_mcp_providers.induct)
  case (1 s ps)
  show ?case
    using 1 by (subst collect_mcp_providers.simps)
      (auto simp: Let_def bounded_ids_snoc split: option.splits prod.splits)
qed

lemma push_tool_identifier_bounded:
  "bounded_ids 32 128 ts \<Longrightarrow> bounded_ids 32 128 (push_tool_identifier v ts)"
  by (auto simp: push_tool_identifier_def Let_def bounded_ids_snoc)

lemma collect_orchestrated_tools_bounded:
  "bounded_ids 32 128 ts \<Longrightarrow> bounded_ids 32 128 (collect_orchestrated_tools s ts)"
proof (induction s ts rule: collect_orchestrated_tools.induct)
  case (1 s ts)
  show ?case
    using 1 by (subst collect_orchestrated_tools.simps)
      (auto simp: push_tool_identifier_bounded split: option.splits prod.splits)
qed

lemma tool_providers_bounded: "bounded_ids 16 64 (tool_providers name arguments)"
  by (auto simp: tool_providers_def Let_def collect_mcp_providers_bounded split: option.splits)

lemma effective_tools_bounded: "bounded_ids 32 128 (effective_tools name arguments)"
  by (auto simp: effective_tools_def Let_def collect_orchestrated_tools_bounded
      push_tool_identifier_bounded split: option.splits)

lemma classify_shell_family_label:
  "classify_shell_family command = Some f \<Longrightarrow> f \<in> insert ''other'' (set shell_families)"
  by (auto simp: classify_shell_family_def Let_def split: option.splits if_splits)

lemma language_from_path_label:
  "language_from_path path = Some l \<Longrightarrow> l \<in> snd ` set language_extensions"
  by (force simp: language_from_path_def split: option.splits dest: map_of_SomeD)

lemma normalized_target_shape:
  "normalized_target hst name arguments = Some t \<Longrightarrow>
    \<exists>v. t = tool_kind_as_str (classify_tool name) @ '':'' @ stable_hash v"
  by (auto simp: normalized_target_def normalized_resource_def Let_def
      split: option.splits if_splits)

text \<open>What an appended observation looks like, whatever the arguments were.\<close>

definition observation_redacted :: "tool_observation \<Rightarrow> bool" where
  "observation_redacted ob \<longleftrightarrow>
     bounded_ids 16 64 (o_providers ob)
     \<and> bounded_ids 32 128 (o_effective_tools ob)
     \<and> (\<forall>f. o_shell_family ob = Some f \<longrightarrow> f \<in> insert ''other'' (set shell_families))
     \<and> (\<forall>l. o_language ob = Some l \<longrightarrow> l \<in> snd ` set language_extensions)
     \<and> (\<forall>r. o_resource_id ob = Some r \<longrightarrow> (\<exists>v. r = stable_hash v))
     \<and> (\<forall>t. o_target ob = Some t \<longrightarrow>
          (\<exists>v. t = tool_kind_as_str (o_kind ob) @ '':'' @ stable_hash v))
     \<and> o_origin ob \<noteq> OrgUnknown"

lemma shell_family_for_call_label:
  "shell_family_for_call kind arguments = Some f \<Longrightarrow> f \<in> insert ''other'' (set shell_families)"
  using classify_shell_family_label
  by (auto simp: shell_family_for_call_def bind_eq_Some_conv split: if_splits)

lemma language_for_call_label:
  "language_for_call arguments = Some l \<Longrightarrow> l \<in> snd ` set language_extensions"
  using language_from_path_label by (auto simp: language_for_call_def bind_eq_Some_conv)

lemma observe_call_redacted:
  assumes "\<forall>ob\<in>set obs. observation_redacted ob"
  shows "\<forall>ob\<in>set (observe_call hst obs inp). observation_redacted ob"
  using assms tool_providers_bounded effective_tools_bounded normalized_target_shape
  by (auto simp: observe_call_def Let_def observation_redacted_def tool_origin_classify_def
      normalized_resource_def simp del: insert_iff
      dest!: shell_family_for_call_label language_for_call_label)

section \<open>Results\<close>

lemma result_update_fields [simp, frame]:
  "o_call_id (result_update oc du ca by ob) = o_call_id ob"
  "o_turn_id (result_update oc du ca by ob) = o_turn_id ob"
  "o_model (result_update oc du ca by ob) = o_model ob"
  "o_timestamp (result_update oc du ca by ob) = o_timestamp ob"
  "o_kind (result_update oc du ca by ob) = o_kind ob"
  "o_target (result_update oc du ca by ob) = o_target ob"
  "o_origin (result_update oc du ca by ob) = o_origin ob"
  "o_outcome (result_update oc du ca by ob) = oc"
  "o_output_bytes (result_update oc du ca by ob) = max (o_output_bytes ob) by"
  by (simp_all add: result_update_def Let_def)

lemma result_update_redacted:
  "observation_redacted ob \<Longrightarrow> observation_redacted (result_update oc du ca by ob)"
  by (simp add: observation_redacted_def result_update_def Let_def)

lemma observe_result_split:
  "o_call_id ob = cid \<Longrightarrow> \<forall>x\<in>set after. o_call_id x \<noteq> cid \<Longrightarrow>
    observe_result (before @ ob # after) cid oc du ca by
      = before @ result_update oc du ca by ob # after"
  by (simp add: observe_result_def upd_last_split)

lemma observe_result_none:
  "\<forall>x\<in>set obs. o_call_id x \<noteq> cid \<Longrightarrow> observe_result obs cid oc du ca by = obs"
  by (simp add: observe_result_def upd_last_def upd_first_id)

lemma observe_result_map:
  "(\<And>ob. g (result_update oc du ca by ob) = g ob) \<Longrightarrow>
    map g (observe_result obs cid oc du ca by) = map g obs"
  by (simp add: observe_result_def map_upd_last)

end
