(* ===== verification/Telemetry_Metrics.thy ===== *)
theory Telemetry_Metrics
  imports Telemetry_Calls
begin

text \<open>
  The second half of \<open>src-tauri/src/telemetry.rs\<close>: the metrics accumulator, the open-set
  dimensions, the turn classifier, the optimization findings, the category totals, and
  \<open>refresh_session\<close>, which recomputes every derived field of a session from its observations
  and turns.
\<close>

section \<open>Metrics\<close>

definition count_kind :: "tool_kind \<Rightarrow> tool_metrics \<Rightarrow> tool_metrics" where
  "count_kind kind c =
     (case kind of
        KRead \<Rightarrow> c\<lparr>m_reads := m_reads c + 1\<rparr>
      | KSearch \<Rightarrow> c\<lparr>m_searches := m_searches c + 1\<rparr>
      | KMutation \<Rightarrow> c\<lparr>m_mutations := m_mutations c + 1\<rparr>
      | KCommand \<Rightarrow> c\<lparr>m_commands := m_commands c + 1\<rparr>
      | KOther \<Rightarrow> c\<lparr>m_other := m_other c + 1\<rparr>)"

definition count_outcome :: "tool_outcome \<Rightarrow> tool_metrics \<Rightarrow> tool_metrics" where
  "count_outcome outcome c =
     (case outcome of
        OutSuccess \<Rightarrow> c\<lparr>m_successes := m_successes c + 1\<rparr>
      | OutFailure \<Rightarrow> c\<lparr>m_failures := m_failures c + 1\<rparr>
      | OutPending \<Rightarrow> c\<lparr>m_unknown := m_unknown c + 1\<rparr>
      | OutUnknown \<Rightarrow> c\<lparr>m_unknown := m_unknown c + 1\<rparr>)"

definition count_origin :: "tool_origin \<Rightarrow> tool_metrics \<Rightarrow> tool_metrics" where
  "count_origin origin c =
     (case origin of
        OrgCore \<Rightarrow> c\<lparr>m_core_origin_calls := m_core_origin_calls c + 1\<rparr>
      | OrgMcp \<Rightarrow> c\<lparr>m_mcp_origin_calls := m_mcp_origin_calls c + 1\<rparr>
      | OrgProvider \<Rightarrow> c\<lparr>m_provider_origin_calls := m_provider_origin_calls c + 1\<rparr>
      | OrgUnknown \<Rightarrow> c\<lparr>m_unknown_origin_calls := m_unknown_origin_calls c + 1\<rparr>)"

definition accumulate_observation :: "tool_metrics \<Rightarrow> tool_observation \<Rightarrow> tool_metrics" where
  "accumulate_observation c item =
     count_origin (o_origin item) (count_outcome (o_outcome item) (count_kind (o_kind item)
       (c\<lparr>m_calls := m_calls c + 1,
          m_output_bytes := m_output_bytes c + o_output_bytes item,
          m_duration_ms := m_duration_ms c + unwrap_or 0 (o_duration_ms item)\<rparr>)))"

definition mutation_chain_fields :: "u64 list \<Rightarrow> u64 \<times> u64 \<times> u64" where
  "mutation_chain_fields counts =
     fold (\<lambda>count (mutation_targets, one_shot_mutations, retry_count).
       (mutation_targets + 1,
        (if count = 1 then one_shot_mutations + 1 else one_shot_mutations),
        retry_count + sat_sub count 1)) counts (0, 0, 0)"

type_synonym mutation_key = "string option \<times> string option"

record metrics_accumulator =
  acc_out :: tool_metrics
  acc_mutations :: "(mutation_key \<times> u64) list"

definition default_accumulator :: metrics_accumulator where
  "default_accumulator = \<lparr>acc_out = default_metrics, acc_mutations = []\<rparr>"

definition acc_push :: "tool_observation \<Rightarrow> metrics_accumulator \<Rightarrow> metrics_accumulator" where
  "acc_push item self =
     (let self = self\<lparr>acc_out := accumulate_observation (acc_out self) item\<rparr> in
      if o_kind item = KMutation
      then self\<lparr>acc_mutations :=
             hm_entry (o_turn_id item, o_target item) 0 (\<lambda>n. n + 1) (acc_mutations self)\<rparr>
      else self)"

definition acc_finish :: "metrics_accumulator \<Rightarrow> tool_metrics" where
  "acc_finish self =
     (case mutation_chain_fields (map snd (acc_mutations self)) of
        (mutation_targets, one_shot_mutations, retry_count) \<Rightarrow>
          (acc_out self)\<lparr>m_mutation_targets := mutation_targets,
                         m_one_shot_mutations := one_shot_mutations,
                         m_retry_count := retry_count\<rparr>)"

definition metrics :: "tool_observation list \<Rightarrow> tool_metrics" where
  "metrics observations = acc_finish (fold acc_push observations default_accumulator)"

definition metrics_with_models ::
    "tool_observation list \<Rightarrow> tool_metrics \<times> (string \<times> tool_metrics) list" where
  "metrics_with_models observations =
     (case fold (\<lambda>item (all, by_model).
        (acc_push item all,
         (case o_model item of
            Some model \<Rightarrow> tm_entry model default_accumulator (acc_push item) by_model
          | None \<Rightarrow> by_model))) observations (default_accumulator, []) of
        (all, by_model) \<Rightarrow>
          (acc_finish all, map (\<lambda>(model, acc). (model, acc_finish acc)) by_model))"

section \<open>Dimensions\<close>

definition accumulate_dimension_call ::
    "tool_outcome \<Rightarrow> u64 \<Rightarrow> u64 option \<Rightarrow> dimension_metrics \<Rightarrow> dimension_metrics"
  where
  "accumulate_dimension_call outcome output_bytes duration_ms entry =
     entry\<lparr>d_calls := d_calls entry + 1,
           d_failures := (if outcome = OutFailure then d_failures entry + 1
                          else d_failures entry),
           d_output_bytes := d_output_bytes entry + output_bytes,
           d_duration_ms := d_duration_ms entry + unwrap_or 0 duration_ms\<rparr>"

type_synonym dimension_map = "((string \<times> string) \<times> dimension_metrics) list"

definition dimension_call :: "tool_observation \<Rightarrow> string \<times> string \<Rightarrow> dimension_map \<Rightarrow> dimension_map"
  where
  "dimension_call item key out =
     tm_entry key default_dimension_metrics
       (accumulate_dimension_call (o_outcome item) (o_output_bytes item) (o_duration_ms item)) out"

definition tool_dimension_metrics :: "tool_observation list \<Rightarrow> dimension_map" where
  "tool_dimension_metrics observations =
     fold (\<lambda>item out.
       let out = fold (\<lambda>provider. dimension_call item (''mcp_server'', provider))
                   (o_providers item) out;
           out = (case o_shell_family item of
                    Some family \<Rightarrow> dimension_call item (''shell_family'', family) out
                  | None \<Rightarrow> out)
       in case o_language item of
            Some language \<Rightarrow> dimension_call item (''language'', language) out
          | None \<Rightarrow> out) observations []"

definition context_source_breakdown :: "token_totals \<Rightarrow> (string \<times> u64) list" where
  "context_source_breakdown tokens =
     (let out = [];
          out = (if cached_input_tokens tokens > 0
                 then tm_entry ''conversation_cache'' 0 (\<lambda>_. cached_input_tokens tokens) out
                 else out);
          out = (if cache_creation_input_tokens tokens > 0
                 then tm_entry ''newly_cached_context'' 0
                        (\<lambda>_. cache_creation_input_tokens tokens) out
                 else out);
          unattributed =
            sat_sub (sat_sub (input_tokens tokens) (cached_input_tokens tokens))
              (cache_creation_input_tokens tokens)
      in if unattributed > 0 then tm_entry ''unknown'' 0 (\<lambda>_. unattributed) out else out)"

definition dimension_totals ::
    "tool_observation list \<Rightarrow> token_totals
      \<Rightarrow> (string \<times> (string \<times> dimension_metrics) list) list" where
  "dimension_totals observations tokens =
     (let out = fold (\<lambda>((kind, v), entry).
            tm_entry kind [] (tm_entry v default_dimension_metrics (\<lambda>_. entry)))
            (tool_dimension_metrics observations) []
      in fold (\<lambda>(v, token_count).
            tm_entry ''context_source'' []
              (tm_entry v default_dimension_metrics
                (\<lambda>_. default_dimension_metrics\<lparr>d_tokens := token_count\<rparr>)))
            (context_source_breakdown tokens) out)"

section \<open>Turn classification\<close>

definition classify_turn :: "string \<Rightarrow> tool_metrics \<Rightarrow> turn_classification" where
  "classify_turn text tool =
     (let v = to_ascii_lowercase text;
          (category, confidence, signals) =
            (if contains_any v [''test'', ''clippy'', ''lint'', ''validate'', ''verify'']
                \<or> (m_commands tool > 0 \<and> m_failures tool = 0
                    \<and> contains_any v [''pass'', ''check''])
             then (CatTesting, 0x3F666666, [''testing-keyword''])
             else if contains_any v [''debug'', ''bug'', ''error'', ''fail'', ''diagnos'', ''fix'']
                \<or> m_failures tool > 0
             then (CatDebugging, 0x3F59999A, [''debug-signal''])
             else if contains_any v [''review'', ''audit'', ''inspect'', ''assess'']
             then (CatReview, 0x3F59999A, [''review-keyword''])
             else if contains_any v [''plan'', ''design'', ''architect'', ''approach'']
             then (CatPlanning, 0x3F4CCCCD, [''planning-keyword''])
             else if m_mutations tool > 0
                \<or> contains_any v [''implement'', ''add'', ''build'', ''refactor'', ''code'']
             then (CatCoding, 0x3F4CCCCD, [''mutation-or-coding-signal''])
             else if m_reads tool + m_searches tool > 0
                \<or> contains_any v [''explore'', ''find'', ''research'', ''understand'']
             then (CatExploration, 0x3F400000, [''read-or-search-signal''])
             else (CatOther, 0x3E99999A, [''no-strong-signal'']))
      in \<lparr>cl_version = 1, cl_category = category, cl_confidence = confidence,
          cl_signals = signals\<rparr>)"

section \<open>Category totals\<close>

text \<open>The find-or-push on a bucket vector keyed by (model, tier).\<close>

fun bucket_add ::
    "string \<Rightarrow> string option \<Rightarrow> token_totals \<Rightarrow> tier_bucket list \<Rightarrow> tier_bucket list" where
  "bucket_add model tier tokens [] =
     [\<lparr>b_model = model, b_service_tier = tier, b_tokens = tokens\<rparr>]"
| "bucket_add model tier tokens (b # bs) =
     (if b_model b = model \<and> b_service_tier b = tier
      then b\<lparr>b_tokens := add_totals (b_tokens b) tokens\<rparr> # bs
      else b # bucket_add model tier tokens bs)"

definition sort_buckets :: "tier_bucket list \<Rightarrow> tier_bucket list" where
  "sort_buckets bs = sort_key (\<lambda>b. (b_model b, b_service_tier b)) bs"

definition category_add :: "turn_info \<Rightarrow> category_metric \<Rightarrow> category_metric" where
  "category_add turn entry =
     entry\<lparr>c_turns := c_turns entry + 1,
           c_tokens := add_totals (c_tokens entry) (t_tokens turn),
           c_tool_calls := c_tool_calls entry + m_calls (t_tool_metrics turn),
           c_buckets :=
             (case t_model turn of
                Some model \<Rightarrow>
                  bucket_add model (t_service_tier turn) (t_tokens turn) (c_buckets entry)
              | None \<Rightarrow> c_buckets entry)\<rparr>"

definition category_totals :: "turn_info list \<Rightarrow> (task_category \<times> category_metric) list" where
  "category_totals turns =
     (let out = fold (\<lambda>turn.
            tm_entry (cl_category (t_classification turn)) default_category_metric
              (category_add turn)) turns []
      in map (\<lambda>(c, metric). (c, metric\<lparr>c_buckets := sort_buckets (c_buckets metric)\<rparr>)) out)"

section \<open>Optimization findings\<close>

definition turn_of :: "tool_observation \<Rightarrow> string" where
  "turn_of item = unwrap_or ''session'' (o_turn_id item)"

definition turn_label :: "string \<Rightarrow> string option" where
  "turn_label turn = (if turn \<noteq> ''session'' then Some turn else None)"

definition rsplit_colon :: "string \<Rightarrow> string option" where
  "rsplit_colon target = map_option snd (rsplit_once CHR '':'' target)"

type_synonym 'k observation_groups = "('k \<times> tool_observation list) list"

definition push_group ::
    "'k::linorder \<Rightarrow> tool_observation \<Rightarrow> 'k observation_groups \<Rightarrow> 'k observation_groups" where
  "push_group k item = tm_entry k [] (\<lambda>items. items @ [item])"

definition finding_groups ::
    "tool_observation list \<Rightarrow>
      (string \<times> string \<times> string) observation_groups
      \<times> (string \<times> string) observation_groups \<times> string observation_groups" where
  "finding_groups observations =
     fold (\<lambda>item (groups, target_activity, turn_calls).
       let turn = turn_of item;
           turn_calls = push_group turn item turn_calls
       in case o_target item of
            None \<Rightarrow> (groups, target_activity, turn_calls)
          | Some target \<Rightarrow>
              let resource = unwrap_or target (or_else (o_resource_id item) (rsplit_colon target))
              in (push_group (turn, tool_kind_as_str (o_kind item), target) item groups,
                  push_group (turn, resource) item target_activity,
                  turn_calls))
       observations ([], [], [])"

definition is_volatile_read :: "string \<Rightarrow> bool" where
  "is_volatile_read name \<longleftrightarrow>
     contains_any (to_ascii_lowercase name)
       [''status'', ''wait'', ''poll'', ''terminal'', ''get_goal'', ''list_agents'',
        ''read_thread'']"

definition short_private_id :: "string \<Rightarrow> string" where
  "short_private_id v = concat (rev (take 8 (rev (chars v))))"

record read_streak =
  rs_current :: nat
  rs_max :: nat
  rs_timestamp :: "timestamp option"
  rs_model :: "string option"
  rs_tool_name :: string

definition streak_hit :: "tool_observation \<Rightarrow> read_streak \<Rightarrow> read_streak" where
  "streak_hit item entry =
     (let entry = entry\<lparr>rs_current := rs_current entry + 1\<rparr> in
      if rs_max entry < rs_current entry
      then entry\<lparr>rs_max := rs_current entry,
                 rs_timestamp := Some (o_timestamp item),
                 rs_model := o_model item,
                 rs_tool_name := o_name item\<rparr>
      else entry)"

definition streak_step ::
    "tool_observation \<Rightarrow> (string \<times> read_streak) list \<Rightarrow> (string \<times> read_streak) list" where
  "streak_step item streaks =
     (if o_kind item = KRead \<and> o_outcome item = OutSuccess \<and> \<not> is_volatile_read (o_name item)
      then (case o_target item of
              Some target \<Rightarrow>
                tm_entry target
                  \<lparr>rs_current = 0, rs_max = 0, rs_timestamp = None, rs_model = None,
                   rs_tool_name = o_name item\<rparr>
                  (streak_hit item) streaks
            | None \<Rightarrow> streaks)
      else if o_kind item = KMutation
      then map (\<lambda>(k, streak). (k, streak\<lparr>rs_current := 0\<rparr>)) streaks
      else streaks)"

definition read_streaks :: "tool_observation list \<Rightarrow> (string \<times> read_streak) list" where
  "read_streaks items = fold streak_step (sort_key o_timestamp items) []"

definition repeated_read_threshold :: nat where "repeated_read_threshold = 3"
definition corrective_mutation_threshold :: nat where "corrective_mutation_threshold = 2"
definition repeated_failure_threshold :: nat where "repeated_failure_threshold = 2"
definition high_tool_churn_threshold :: nat where "high_tool_churn_threshold = 40"
definition excessive_output_bytes_threshold :: u64 where
  "excessive_output_bytes_threshold = 1048576"
definition analyzer_version :: u32 where "analyzer_version = 3"

definition repeated_read_findings ::
    "(string \<times> string) \<times> tool_observation list \<Rightarrow> optimization_finding list" where
  "repeated_read_findings = (\<lambda>((turn, resource), items).
     map (\<lambda>(_, streak).
        \<lparr>f_version = analyzer_version,
         f_rule_id = ''repeated-read'',
         f_severity = ''info'',
         f_confidence = ''high'',
         f_turn_id = turn_label turn,
         f_model = rs_model streak,
         f_timestamp = rs_timestamp streak,
         f_evidence = dec (rs_max streak) @ '' identical successful '' @ rs_tool_name streak
           @ '' requests to private target #'' @ short_private_id resource,
         f_remediation = ''Reuse the prior result until the resource changes, or request the needed ranges together'',
         f_occurrences = word_of_nat (rs_max streak),
         f_avoidable_calls = word_of_nat (rs_max streak - 1)\<rparr>)
       (filter (\<lambda>(_, streak). repeated_read_threshold \<le> rs_max streak) (read_streaks items)))"

definition count_failures :: "tool_observation list \<Rightarrow> nat" where
  "count_failures items = length (filter (\<lambda>item. o_outcome item = OutFailure) items)"

definition last_opt :: "'a list \<Rightarrow> 'a option" where
  "last_opt xs = (if xs = [] then None else Some (last xs))"

definition retry_rule :: "string \<Rightarrow> tool_observation list \<Rightarrow> (string \<times> string \<times> string) option" where
  "retry_rule kind items =
     (let failures = count_failures items in
      if kind = ''mutation'' \<and> corrective_mutation_threshold \<le> length items \<and> 0 < failures
      then Some (''corrective-mutation'', ''warning'',
        ''Inspect the first mutation error and validate the intended change before retrying'')
      else if repeated_failure_threshold \<le> failures
      then Some (''repeated-failure'', ''warning'',
        ''Stop retrying unchanged input; inspect the first error, adjust the tool request, then retry once'')
      else None)"

definition retry_findings ::
    "(string \<times> string \<times> string) \<times> tool_observation list \<Rightarrow> optimization_finding list" where
  "retry_findings = (\<lambda>((turn, kind, target), items).
     case retry_rule kind items of
       None \<Rightarrow> []
     | Some (rule_id, severity, message) \<Rightarrow>
         let failures = count_failures items;
             resource = unwrap_or (unwrap_or target (rsplit_colon target))
               (Option.bind (last_opt items) o_resource_id)
         in [\<lparr>f_version = analyzer_version,
              f_rule_id = rule_id,
              f_severity = severity,
              f_confidence = ''high'',
              f_turn_id = turn_label turn,
              f_model = Option.bind (last_opt items) o_model,
              f_timestamp = map_option o_timestamp (last_opt items),
              f_evidence = dec (length items) @ '' ''
                @ unwrap_or ''tool'' (map_option o_name (last_opt items))
                @ '' attempts to private target #'' @ short_private_id resource @ ''; ''
                @ dec failures @ '' failed'',
              f_remediation = message,
              f_occurrences = word_of_nat (length items),
              f_avoidable_calls = word_of_nat (failures - 1)\<rparr>])"

definition churn_findings :: "string \<times> tool_observation list \<Rightarrow> optimization_finding list" where
  "churn_findings = (\<lambda>(turn, items).
     let ms = metrics items in
     if high_tool_churn_threshold < length items \<and> (4 \<le> m_retry_count ms \<or> 4 \<le> m_failures ms)
     then [\<lparr>f_version = analyzer_version,
            f_rule_id = ''high-tool-churn'',
            f_severity = ''info'',
            f_confidence = ''medium'',
            f_turn_id = turn_label turn,
            f_model = Option.bind (last_opt items) o_model,
            f_timestamp = map_option o_timestamp (last_opt items),
            f_evidence = dec (length items) @ '' tool calls with ''
              @ dec (unat (m_retry_count ms)) @ '' retries and ''
              @ dec (unat (m_failures ms)) @ '' failures'',
            f_remediation = ''Review the failing or retried path first, then batch compatible independent calls'',
            f_occurrences = word_of_nat (length items),
            f_avoidable_calls = 0\<rparr>]
     else [])"

definition output_findings :: "string \<times> tool_observation list \<Rightarrow> optimization_finding list" where
  "output_findings = (\<lambda>(turn, items).
     let commands = filter (\<lambda>item. o_kind item = KCommand) items;
         command_output_bytes = sum_list (map o_output_bytes commands);
         command_calls = length commands
     in if excessive_output_bytes_threshold < command_output_bytes
        then [\<lparr>f_version = analyzer_version,
               f_rule_id = ''excessive-command-output'',
               f_severity = ''warning'',
               f_confidence = ''high'',
               f_turn_id = turn_label turn,
               f_model = Option.bind (last_opt items) o_model,
               f_timestamp = map_option o_timestamp (last_opt items),
               f_evidence =
                 fixed1 (round_half_even (10 * f64_round_nat (unat command_output_bytes)) (2 ^ 20))
                 @ '' MiB captured across '' @ dec command_calls @ '' command calls'',
               f_remediation = ''Filter, paginate, or summarize command output at the source'',
               f_occurrences = word_of_nat command_calls,
               f_avoidable_calls = 0\<rparr>]
        else [])"

text \<open>The final order: warnings first, then more avoidable calls, then time, then rule.\<close>

definition finding_key ::
    "optimization_finding \<Rightarrow> bool \<times> int \<times> timestamp option \<times> string" where
  "finding_key f =
     (f_severity f \<noteq> ''warning'', - uint (f_avoidable_calls f), f_timestamp f, f_rule_id f)"

definition findings :: "tool_observation list \<Rightarrow> optimization_finding list" where
  "findings observations =
     (case finding_groups observations of
        (groups, target_activity, turn_calls) \<Rightarrow>
          sort_key finding_key
            (concat (map repeated_read_findings target_activity)
             @ concat (map retry_findings groups)
             @ concat (map (\<lambda>g. churn_findings g @ output_findings g) turn_calls)))"

section \<open>Refreshing a session\<close>

definition turn_text :: "turn_info \<Rightarrow> string" where
  "turn_text turn =
     unwrap_or [] (t_user_message turn) @ '' '' @ unwrap_or [] (t_last_agent_message turn)"

definition observations_by_turn :: "tool_observation list \<Rightarrow> (string \<times> metrics_accumulator) list"
  where
  "observations_by_turn observations =
     fold (\<lambda>ob by_turn.
       case o_turn_id ob of
         Some turn_id \<Rightarrow> hm_entry turn_id default_accumulator (acc_push ob) by_turn
       | None \<Rightarrow> by_turn) observations []"

definition refresh_turn :: "(string \<times> metrics_accumulator) list \<Rightarrow> turn_info \<Rightarrow> turn_info" where
  "refresh_turn by_turn turn =
     (let ms = unwrap_or default_metrics (map_option acc_finish (map_of by_turn (t_turn_id turn)))
      in turn\<lparr>t_tool_metrics := ms, t_classification := classify_turn (turn_text turn) ms\<rparr>)"

fun refresh_turns ::
    "(string \<times> metrics_accumulator) list \<Rightarrow> turn_info list \<Rightarrow> turn_info list" where
  "refresh_turns by_turn [] = []"
| "refresh_turns by_turn (turn # turns) =
     refresh_turn by_turn turn # refresh_turns (hm_remove (t_turn_id turn) by_turn) turns"

definition refresh_session :: "session \<Rightarrow> session" where
  "refresh_session s =
     (case metrics_with_models (s_tool_observations s) of
        (all, by_model) \<Rightarrow>
          let turns = refresh_turns (observations_by_turn (s_tool_observations s)) (s_turns s)
          in s\<lparr>s_tool_metrics := all,
               s_tool_metrics_by_model := by_model,
               s_turns := turns,
               s_category_totals := category_totals turns,
               s_optimization_findings := findings (s_tool_observations s)\<rparr>)"

end
