(* ===== verification/Telemetry_Facts.thy ===== *)
theory Telemetry_Facts
  imports Telemetry_Metrics
begin

text \<open>
  What the telemetry computations mean: the metrics of a list of observations in closed form,
  their balance, the per-model split, the context-source partition, the repeated-read streaks
  as longest mutation-free runs, the conservation of turns and tokens by the category totals,
  and the fact that \<open>refresh_session\<close> is a function of the non-derived fields only.
\<close>

section \<open>Counters\<close>

definition metrics_balanced :: "tool_metrics \<Rightarrow> bool" where
  "metrics_balanced m \<longleftrightarrow>
     m_calls m = m_reads m + m_searches m + m_mutations m + m_commands m + m_other m
     \<and> m_calls m = m_successes m + m_failures m + m_unknown m
     \<and> m_calls m = m_core_origin_calls m + m_mcp_origin_calls m + m_provider_origin_calls m
         + m_unknown_origin_calls m"

lemma count_kind_sel:
  "m_calls (count_kind x c) = m_calls c"
  "m_reads (count_kind x c) = m_reads c + of_bool (x = KRead)"
  "m_searches (count_kind x c) = m_searches c + of_bool (x = KSearch)"
  "m_mutations (count_kind x c) = m_mutations c + of_bool (x = KMutation)"
  "m_commands (count_kind x c) = m_commands c + of_bool (x = KCommand)"
  "m_other (count_kind x c) = m_other c + of_bool (x = KOther)"
  "m_successes (count_kind x c) = m_successes c"
  "m_failures (count_kind x c) = m_failures c"
  "m_unknown (count_kind x c) = m_unknown c"
  "m_duration_ms (count_kind x c) = m_duration_ms c"
  "m_output_bytes (count_kind x c) = m_output_bytes c"
  "m_core_origin_calls (count_kind x c) = m_core_origin_calls c"
  "m_mcp_origin_calls (count_kind x c) = m_mcp_origin_calls c"
  "m_provider_origin_calls (count_kind x c) = m_provider_origin_calls c"
  "m_unknown_origin_calls (count_kind x c) = m_unknown_origin_calls c"
  by (cases x; simp add: count_kind_def)+

lemma count_outcome_sel:
  "m_calls (count_outcome x c) = m_calls c"
  "m_reads (count_outcome x c) = m_reads c"
  "m_searches (count_outcome x c) = m_searches c"
  "m_mutations (count_outcome x c) = m_mutations c"
  "m_commands (count_outcome x c) = m_commands c"
  "m_other (count_outcome x c) = m_other c"
  "m_successes (count_outcome x c) = m_successes c + of_bool (x = OutSuccess)"
  "m_failures (count_outcome x c) = m_failures c + of_bool (x = OutFailure)"
  "m_unknown (count_outcome x c) = m_unknown c + of_bool (x = OutPending \<or> x = OutUnknown)"
  "m_duration_ms (count_outcome x c) = m_duration_ms c"
  "m_output_bytes (count_outcome x c) = m_output_bytes c"
  "m_core_origin_calls (count_outcome x c) = m_core_origin_calls c"
  "m_mcp_origin_calls (count_outcome x c) = m_mcp_origin_calls c"
  "m_provider_origin_calls (count_outcome x c) = m_provider_origin_calls c"
  "m_unknown_origin_calls (count_outcome x c) = m_unknown_origin_calls c"
  by (cases x; simp add: count_outcome_def)+

lemma count_origin_sel:
  "m_calls (count_origin x c) = m_calls c"
  "m_reads (count_origin x c) = m_reads c"
  "m_searches (count_origin x c) = m_searches c"
  "m_mutations (count_origin x c) = m_mutations c"
  "m_commands (count_origin x c) = m_commands c"
  "m_other (count_origin x c) = m_other c"
  "m_successes (count_origin x c) = m_successes c"
  "m_failures (count_origin x c) = m_failures c"
  "m_unknown (count_origin x c) = m_unknown c"
  "m_duration_ms (count_origin x c) = m_duration_ms c"
  "m_output_bytes (count_origin x c) = m_output_bytes c"
  "m_core_origin_calls (count_origin x c) = m_core_origin_calls c + of_bool (x = OrgCore)"
  "m_mcp_origin_calls (count_origin x c) = m_mcp_origin_calls c + of_bool (x = OrgMcp)"
  "m_provider_origin_calls (count_origin x c) = m_provider_origin_calls c + of_bool (x = OrgProvider)"
  "m_unknown_origin_calls (count_origin x c) = m_unknown_origin_calls c + of_bool (x = OrgUnknown)"
  by (cases x; simp add: count_origin_def)+

lemmas count_sels = count_kind_sel count_outcome_sel count_origin_sel

lemma accumulate_observation_sums:
  fixes m ob
  defines "m' \<equiv> accumulate_observation m ob"
  shows "m_calls m' = m_calls m + 1"
    and "m_reads m' + m_searches m' + m_mutations m' + m_commands m' + m_other m'
      = m_reads m + m_searches m + m_mutations m + m_commands m + m_other m + 1"
    and "m_successes m' + m_failures m' + m_unknown m'
      = m_successes m + m_failures m + m_unknown m + 1"
    and "m_core_origin_calls m' + m_mcp_origin_calls m' + m_provider_origin_calls m'
        + m_unknown_origin_calls m'
      = m_core_origin_calls m + m_mcp_origin_calls m + m_provider_origin_calls m
        + m_unknown_origin_calls m + 1"
  unfolding m'_def accumulate_observation_def count_sels
  by (cases "o_kind ob"; cases "o_outcome ob"; cases "o_origin ob"; simp)+

lemma accumulate_observation_balanced:
  "metrics_balanced m \<Longrightarrow> metrics_balanced (accumulate_observation m ob)"
  unfolding metrics_balanced_def accumulate_observation_sums by metis

definition mutation_key :: "tool_observation \<Rightarrow> mutation_key" where
  "mutation_key ob = (o_turn_id ob, o_target ob)"

definition mutation_keys :: "tool_observation list \<Rightarrow> mutation_key list" where
  "mutation_keys obs = map mutation_key (filter (\<lambda>ob. o_kind ob = KMutation) obs)"

lemma mutation_keys_append: "mutation_keys (a @ b) = mutation_keys a @ mutation_keys b"
  by (simp add: mutation_keys_def)

lemma acc_out_fold:
  "acc_out (fold acc_push obs a) = fold (\<lambda>ob m. accumulate_observation m ob) obs (acc_out a)"
  by (induction obs arbitrary: a) (auto simp: acc_push_def Let_def)

lemma acc_mutations_fold:
  "acc_mutations (fold acc_push obs a)
     = fold (\<lambda>k. hm_entry k 0 (\<lambda>n. n + 1)) (mutation_keys obs) (acc_mutations a)"
  by (induction obs arbitrary: a) (auto simp: acc_push_def mutation_keys_def mutation_key_def Let_def)

text \<open>A frequency table built by \<open>entry(k).or_default() += 1\<close>.\<close>

definition count_table :: "'k list \<Rightarrow> ('k \<times> u64) list" where
  "count_table ks = fold (\<lambda>k. hm_entry k 0 (\<lambda>n. n + 1)) ks []"

lemma fold_incr: "fold (\<lambda>_ n. n + 1) xs a = a + (of_nat (length xs) :: u64)"
  by (induction xs arbitrary: a) auto

lemma count_table_inv: "hm_inv (count_table ks)"
  using hm.fold_invar[of "[]" "\<lambda>k. k" "0 :: u64" "\<lambda>_ n. n + 1" ks]
  by (simp add: count_table_def hm_inv_def)

lemma count_table_lookup:
  "map_of (count_table ks) k = (if k \<in> set ks then Some (of_nat (count_list ks k)) else None)"
proof -
  have "length (filter (\<lambda>x. x = k) ks) = count_list ks k"
    by (induction ks) auto
  then show ?thesis
    using hm.fold_lookup[of "[]" "\<lambda>k. k" "0 :: u64" "\<lambda>_ n. n + 1" ks k]
    by (simp add: count_table_def hm_inv_def fold_incr)
qed

lemma count_table_dom: "dom (map_of (count_table ks)) = set ks"
  by (auto simp: dom_def count_table_lookup)

lemma count_table_sum:
  fixes w :: "u64 \<Rightarrow> 'c::comm_monoid_add"
  shows "(\<Sum>v\<leftarrow>map snd (count_table ks). w v) = (\<Sum>k\<in>set ks. w (of_nat (count_list ks k)))"
proof -
  have "(\<Sum>v\<leftarrow>map snd (count_table ks). w v) = (\<Sum>(k, v)\<leftarrow>count_table ks. w v)"
    by (simp add: comp_def split_def)
  also have "\<dots> = (\<Sum>k\<in>set ks. w (the (map_of (count_table ks) k)))"
    using alist_sum[of "count_table ks" "\<lambda>_. w"] count_table_inv[of ks]
    by (simp add: hm_inv_def count_table_dom)
  also have "\<dots> = (\<Sum>k\<in>set ks. w (of_nat (count_list ks k)))"
    by (intro sum.cong) (auto simp: count_table_lookup)
  finally show ?thesis .
qed

lemma length_filter_sum: "of_nat (length (filter P xs)) = (\<Sum>x\<leftarrow>xs. if P x then 1 else 0)"
  by (induction xs) auto

lemma mutation_chain_fields_sums:
  "mutation_chain_fields counts =
    ((\<Sum>c\<leftarrow>counts. 1), (\<Sum>c\<leftarrow>counts. if c = 1 then 1 else 0), (\<Sum>c\<leftarrow>counts. sat_sub c 1))"
proof -
  have "fold (\<lambda>count (t, s, r).
      (t + 1, (if count = 1 then s + 1 else s), r + sat_sub count 1)) counts (t0, s0, r0) =
    (t0 + (\<Sum>c\<leftarrow>counts. 1), s0 + (\<Sum>c\<leftarrow>counts. if c = 1 then 1 else 0),
     r0 + (\<Sum>c\<leftarrow>counts. sat_sub c 1))" for t0 s0 r0 :: u64
    by (induction counts arbitrary: t0 s0 r0) (auto simp: algebra_simps)
  then show ?thesis by (simp add: mutation_chain_fields_def)
qed

lemma of_nat_sat_sub:
  assumes "n < 2 ^ 64"
  shows "sat_sub (of_nat n :: u64) 1 = of_nat (n - 1)"
proof (cases n)
  case (Suc m)
  have "unat (of_nat n :: u64) = n" using assms by (simp add: unat_of_nat take_bit_nat_eq_self)
  with Suc show ?thesis by (auto simp: sat_sub_def word_le_nat_alt)
qed (simp add: sat_sub_def)

lemma sum_count_minus_one:
  "(\<Sum>k\<in>set ks. count_list ks k - 1) = length ks - card (set ks)"
proof -
  have "(\<Sum>k\<in>set ks. count_list ks k - 1) = (\<Sum>k\<in>set ks. count_list ks k) - (\<Sum>k\<in>set ks. 1)"
    by (intro sum_subtractf_nat) (auto simp: Suc_le_eq count_list_0_iff simp flip: neq0_conv)
  then show ?thesis by (simp add: sum_count_set)
qed

text \<open>The three chain fields in terms of the mutation keys.\<close>

lemma chain_fields_count_table:
  assumes "length ks < 2 ^ 64"
  shows "mutation_chain_fields (map snd (count_table ks)) =
    (of_nat (card (set ks)),
     of_nat (card {k \<in> set ks. count_list ks k = 1}),
     of_nat (length ks - card (set ks)))"
proof -
  have small: "count_list ks k < 2 ^ 64" for k
    using count_le_length[of ks k] assms by simp
  have one: "of_nat (count_list ks k) = (1 :: u64) \<longleftrightarrow> count_list ks k = 1" for k
    using small[of k] by (simp add: word_unat_eq_iff unat_of_nat take_bit_nat_eq_self)
  have "(\<Sum>k\<in>set ks. sat_sub (of_nat (count_list ks k) :: u64) 1)
      = of_nat (length ks - card (set ks))"
    unfolding sum_count_minus_one[symmetric] by (simp add: of_nat_sat_sub[OF small])
  moreover have "(\<Sum>k\<in>set ks. if count_list ks k = 1 then 1 else 0 :: u64)
      = of_nat (card {k \<in> set ks. count_list ks k = 1})"
    by (simp add: sum.If_cases Int_def)
  ultimately show ?thesis
    by (simp add: mutation_chain_fields_sums count_table_sum one del: map_map)
qed

text \<open>The accumulator after a list of observations, and the finished metrics.\<close>

lemma acc_fold_default:
  "acc_mutations (fold acc_push obs default_accumulator) = count_table (mutation_keys obs)"
  by (simp add: acc_mutations_fold default_accumulator_def count_table_def)

definition counters :: "tool_observation list \<Rightarrow> tool_metrics" where
  "counters obs = fold (\<lambda>ob m. accumulate_observation m ob) obs default_metrics"

lemma metrics_eq:
  "metrics obs =
    (case mutation_chain_fields (map snd (count_table (mutation_keys obs))) of (t, s, r) \<Rightarrow>
      (counters obs)\<lparr>m_mutation_targets := t, m_one_shot_mutations := s, m_retry_count := r\<rparr>)"
proof -
  have "acc_out (fold acc_push obs default_accumulator) = counters obs"
    by (simp add: acc_out_fold counters_def default_accumulator_def)
  then show ?thesis
    by (simp add: metrics_def acc_finish_def acc_fold_default)
qed

lemma counters_snoc: "counters (obs @ [ob]) = accumulate_observation (counters obs) ob"
  by (simp add: counters_def)

lemma counters_balanced: "metrics_balanced (counters obs)"
proof (induction obs rule: rev_induct)
  case Nil
  show ?case by (simp add: counters_def metrics_balanced_def default_metrics_def)
qed (simp add: counters_snoc accumulate_observation_balanced)

lemma counters_sel:
  "m_calls (counters obs) = of_nat (length obs)"
  "m_failures (counters obs) = of_nat (count_failures obs)"
  "m_mutations (counters obs) = of_nat (length (mutation_keys obs))"
  "m_output_bytes (counters obs) = (\<Sum>ob\<leftarrow>obs. o_output_bytes ob)"
  by (induction obs rule: rev_induct)
    (simp_all add: counters_snoc accumulate_observation_def count_sels mutation_keys_append
      mutation_keys_def count_failures_def, simp_all add: counters_def default_metrics_def)

lemma metrics_sel_chain:
  assumes "length (mutation_keys obs) < 2 ^ 64"
  shows "m_mutation_targets (metrics obs) = of_nat (card (set (mutation_keys obs)))"
    and "m_one_shot_mutations (metrics obs)
      = of_nat (card {k \<in> set (mutation_keys obs). count_list (mutation_keys obs) k = 1})"
    and "m_retry_count (metrics obs)
      = of_nat (length (mutation_keys obs) - card (set (mutation_keys obs)))"
  using assms by (simp_all add: metrics_eq chain_fields_count_table)

lemma metrics_sel_counters:
  "m_calls (metrics obs) = m_calls (counters obs)"
  "m_reads (metrics obs) = m_reads (counters obs)"
  "m_searches (metrics obs) = m_searches (counters obs)"
  "m_mutations (metrics obs) = m_mutations (counters obs)"
  "m_commands (metrics obs) = m_commands (counters obs)"
  "m_other (metrics obs) = m_other (counters obs)"
  "m_successes (metrics obs) = m_successes (counters obs)"
  "m_failures (metrics obs) = m_failures (counters obs)"
  "m_unknown (metrics obs) = m_unknown (counters obs)"
  "m_output_bytes (metrics obs) = m_output_bytes (counters obs)"
  "m_core_origin_calls (metrics obs) = m_core_origin_calls (counters obs)"
  "m_mcp_origin_calls (metrics obs) = m_mcp_origin_calls (counters obs)"
  "m_provider_origin_calls (metrics obs) = m_provider_origin_calls (counters obs)"
  "m_unknown_origin_calls (metrics obs) = m_unknown_origin_calls (counters obs)"
  by (simp_all add: metrics_eq split: prod.splits)

lemma metrics_balanced_metrics: "metrics_balanced (metrics obs)"
  using counters_balanced[of obs] unfolding metrics_balanced_def metrics_sel_counters .

section \<open>The split by model\<close>

definition with_model :: "string \<Rightarrow> tool_observation list \<Rightarrow> tool_observation list" where
  "with_model model obs = filter (\<lambda>ob. o_model ob = Some model) obs"

definition model_accumulators :: "tool_observation list \<Rightarrow> (string \<times> metrics_accumulator) list" where
  "model_accumulators obs =
     fold (\<lambda>ob. tm_entry (the (o_model ob)) default_accumulator (acc_push ob))
       (filter (\<lambda>ob. o_model ob \<noteq> None) obs) []"

lemma metrics_with_models_eq:
  "metrics_with_models obs =
    (metrics obs, map (\<lambda>(model, acc). (model, acc_finish acc)) (model_accumulators obs))"
proof -
  have "fold (\<lambda>item (all, by_model).
        (acc_push item all,
         (case o_model item of
            Some model \<Rightarrow> tm_entry model default_accumulator (acc_push item) by_model
          | None \<Rightarrow> by_model))) obs (a, m) =
     (fold acc_push obs a,
      fold (\<lambda>ob. tm_entry (the (o_model ob)) default_accumulator (acc_push ob))
        (filter (\<lambda>ob. o_model ob \<noteq> None) obs) m)" for a m
    by (induction obs arbitrary: a m) (auto split: option.splits)
  then show ?thesis
    by (simp add: metrics_with_models_def model_accumulators_def metrics_def)
qed

lemma model_accumulators_inv: "tm_inv (model_accumulators obs)"
  unfolding model_accumulators_def by (intro tm.fold_invar) (simp add: tm_inv_def)

lemma map_of_map_values: "map_of (map (\<lambda>(k, v). (k, g v)) m) k = map_option g (map_of m k)"
  by (induction m) auto

lemma metrics_by_model_lookup:
  "map_of (snd (metrics_with_models obs)) model =
    (if with_model model obs = [] then None else Some (metrics (with_model model obs)))"
proof -
  have "filter (\<lambda>ob. the (o_model ob) = model) (filter (\<lambda>ob. o_model ob \<noteq> None) obs)
      = with_model model obs"
    by (induction obs) (auto simp: with_model_def)
  then have "map_of (model_accumulators obs) model =
    (if with_model model obs = [] then None
     else Some (fold acc_push (with_model model obs) default_accumulator))"
    unfolding model_accumulators_def
    by (subst tm.fold_lookup) (auto simp: tm_inv_def with_model_def filter_empty_conv)
  then show ?thesis
    by (simp add: metrics_with_models_eq map_of_map_values metrics_def)
qed

lemma fst_metrics_with_models [simp]: "fst (metrics_with_models obs) = metrics obs"
  by (simp add: metrics_with_models_eq)

section \<open>Context sources partition the input\<close>

lemma context_source_breakdown_eq:
  "context_source_breakdown tokens =
    filter (\<lambda>(_, n). 0 < n)
      [(''conversation_cache'', cached_input_tokens tokens),
       (''newly_cached_context'', cache_creation_input_tokens tokens),
       (''unknown'',
        sat_sub (sat_sub (input_tokens tokens) (cached_input_tokens tokens))
          (cache_creation_input_tokens tokens))]"
  by (simp add: context_source_breakdown_def Let_def)

lemma context_source_breakdown_inv: "tm_inv (context_source_breakdown tokens)"
  by (simp add: context_source_breakdown_eq tm_inv_def)

lemma context_source_breakdown_sum:
  "(\<Sum>(_, n)\<leftarrow>context_source_breakdown tokens. unat n) =
    unat (cached_input_tokens tokens) + unat (cache_creation_input_tokens tokens)
    + (unat (input_tokens tokens) - unat (cached_input_tokens tokens)
       - unat (cache_creation_input_tokens tokens))"
proof -
  have z: "\<not> 0 < n \<Longrightarrow> unat n = 0" for n :: u64
    by (simp add: word_gt_0)
  show ?thesis
    by (auto simp: context_source_breakdown_eq unat_sat_sub dest!: z
        simp flip: unat_sat_sub)
qed

section \<open>Repeated reads are longest mutation-free runs\<close>

definition read_hit :: "string \<Rightarrow> tool_observation \<Rightarrow> bool" where
  "read_hit target ob \<longleftrightarrow>
     o_kind ob = KRead \<and> o_outcome ob = OutSuccess \<and> \<not> is_volatile_read (o_name ob)
     \<and> o_target ob = Some target"

definition mutation_free :: "tool_observation list \<Rightarrow> bool" where
  "mutation_free seg \<longleftrightarrow> (\<forall>ob\<in>set seg. o_kind ob \<noteq> KMutation)"

definition hits :: "string \<Rightarrow> tool_observation list \<Rightarrow> nat" where
  "hits target seg = length (filter (read_hit target) seg)"

definition run_step :: "string \<Rightarrow> tool_observation \<Rightarrow> nat \<times> nat \<Rightarrow> nat \<times> nat" where
  "run_step target ob = (\<lambda>(c, m).
     if read_hit target ob then (c + 1, max m (c + 1))
     else if o_kind ob = KMutation then (0, m) else (c, m))"

definition streak_view :: "(string \<times> read_streak) list \<Rightarrow> string \<Rightarrow> nat \<times> nat" where
  "streak_view streaks target =
     (case map_of streaks target of
        None \<Rightarrow> (0, 0) | Some streak \<Rightarrow> (rs_current streak, rs_max streak))"

lemma map_values_inv: "tm_inv (map (\<lambda>(k, v). (k, g v)) m) \<longleftrightarrow> tm_inv m"
  by (simp add: tm_inv_def comp_def split_def)

lemma streak_step_inv: "tm_inv m \<Longrightarrow> tm_inv (streak_step ob m)"
  by (auto simp: streak_step_def map_values_inv tm.entry_invar split: option.splits)

lemma streak_view_step:
  "tm_inv m \<Longrightarrow> streak_view (streak_step ob m) target = run_step target ob (streak_view m target)"
  by (auto simp: streak_view_def streak_step_def run_step_def read_hit_def streak_hit_def Let_def
      tm.entry_lookup map_of_map_values max_def split: option.splits)

lemma streak_view_fold:
  "tm_inv m \<Longrightarrow>
    streak_view (fold streak_step items m) target
      = fold (run_step target) items (streak_view m target)"
  by (induction items arbitrary: m) (auto simp: streak_step_inv streak_view_step)

lemma hits_append [simp]: "hits target (a @ b) = hits target a + hits target b"
  by (simp add: hits_def)

lemma mutation_free_append [simp]:
  "mutation_free (a @ b) \<longleftrightarrow> mutation_free a \<and> mutation_free b"
  by (auto simp: mutation_free_def)

text \<open>The numbers of hits over the mutation-free suffixes and segments of a list.\<close>

definition suffix_hits :: "string \<Rightarrow> tool_observation list \<Rightarrow> nat \<Rightarrow> bool" where
  "suffix_hits target items n \<longleftrightarrow>
     (\<exists>pre seg. items = pre @ seg \<and> mutation_free seg \<and> hits target seg = n)"

definition segment_hits :: "string \<Rightarrow> tool_observation list \<Rightarrow> nat \<Rightarrow> bool" where
  "segment_hits target items n \<longleftrightarrow>
     (\<exists>pre seg post. items = pre @ seg @ post \<and> mutation_free seg \<and> hits target seg = n)"

lemma suffix_hits_0: "suffix_hits target items 0"
  unfolding suffix_hits_def by (intro exI[of _ items] exI[of _ "[]"]) (simp add: mutation_free_def hits_def)

lemma suffix_segment: "suffix_hits target items n \<Longrightarrow> segment_hits target items n"
  unfolding suffix_hits_def segment_hits_def by (metis append_Nil2)

lemma suffix_hits_snoc:
  "suffix_hits target (items @ [ob]) n \<longleftrightarrow>
     n = 0 \<or> (o_kind ob \<noteq> KMutation
       \<and> (\<exists>k. suffix_hits target items k \<and> n = k + (if read_hit target ob then 1 else 0)))"
proof
  assume "suffix_hits target (items @ [ob]) n"
  then obtain pre seg where *: "items @ [ob] = pre @ seg" "mutation_free seg" "hits target seg = n"
    by (auto simp: suffix_hits_def)
  show "n = 0 \<or> (o_kind ob \<noteq> KMutation
       \<and> (\<exists>k. suffix_hits target items k \<and> n = k + (if read_hit target ob then 1 else 0)))"
  proof (cases seg rule: rev_cases)
    case Nil
    with * show ?thesis by (simp add: hits_def)
  next
    case (snoc seg' x)
    with * have "items = pre @ seg'" "x = ob" by auto
    with * snoc have "suffix_hits target items (hits target seg')" "o_kind ob \<noteq> KMutation"
        "n = hits target seg' + (if read_hit target ob then 1 else 0)"
      by (auto simp: suffix_hits_def mutation_free_def hits_def)
    then show ?thesis by blast
  qed
next
  assume "n = 0 \<or> (o_kind ob \<noteq> KMutation
       \<and> (\<exists>k. suffix_hits target items k \<and> n = k + (if read_hit target ob then 1 else 0)))"
  then consider "n = 0" | pre seg where "o_kind ob \<noteq> KMutation" "items = pre @ seg"
      "mutation_free seg" "n = hits target seg + (if read_hit target ob then 1 else 0)"
    by (auto simp: suffix_hits_def)
  then show "suffix_hits target (items @ [ob]) n"
  proof cases
    case 1
    then show ?thesis by (simp add: suffix_hits_0)
  next
    case 2
    then show ?thesis
      unfolding suffix_hits_def
      by (intro exI[of _ pre] exI[of _ "seg @ [ob]"]) (auto simp: mutation_free_def hits_def)
  qed
qed

lemma segment_hits_snoc:
  "segment_hits target (items @ [ob]) n \<longleftrightarrow>
     segment_hits target items n \<or> suffix_hits target (items @ [ob]) n"
proof
  assume "segment_hits target (items @ [ob]) n"
  then obtain pre seg post where *: "items @ [ob] = pre @ seg @ post" "mutation_free seg"
      "hits target seg = n"
    by (auto simp: segment_hits_def)
  show "segment_hits target items n \<or> suffix_hits target (items @ [ob]) n"
  proof (cases post rule: rev_cases)
    case Nil
    with * show ?thesis unfolding suffix_hits_def by auto
  next
    case (snoc post' x)
    with * have "items = pre @ seg @ post'" by auto
    with * show ?thesis by (auto simp: segment_hits_def)
  qed
next
  assume "segment_hits target items n \<or> suffix_hits target (items @ [ob]) n"
  then show "segment_hits target (items @ [ob]) n"
  proof
    assume "segment_hits target items n"
    then obtain pre seg post where "items = pre @ seg @ post" "mutation_free seg"
        "hits target seg = n"
      by (auto simp: segment_hits_def)
    then show ?thesis
      unfolding segment_hits_def by (intro exI[of _ pre] exI[of _ seg] exI[of _ "post @ [ob]"]) simp
  qed (rule suffix_segment)
qed

text \<open>The scan's counter is the largest number of hits over a mutation-free suffix, its maximum
  the largest over a mutation-free segment.\<close>

definition greatest :: "(nat \<Rightarrow> bool) \<Rightarrow> nat \<Rightarrow> bool" where
  "greatest P n \<longleftrightarrow> P n \<and> (\<forall>k. P k \<longrightarrow> k \<le> n)"

definition run_spec :: "string \<Rightarrow> tool_observation list \<Rightarrow> nat \<times> nat \<Rightarrow> bool" where
  "run_spec target items = (\<lambda>(c, m).
     greatest (suffix_hits target items) c \<and> greatest (segment_hits target items) m)"

lemma run_spec_snoc:
  assumes "run_spec target items (c, m)"
  shows "run_spec target (items @ [ob]) (run_step target ob (c, m))"
proof -
  have c: "suffix_hits target items c" "\<And>k. suffix_hits target items k \<Longrightarrow> k \<le> c"
    and m: "segment_hits target items m" "\<And>k. segment_hits target items k \<Longrightarrow> k \<le> m"
    using assms by (auto simp: run_spec_def greatest_def)
  have hit: "read_hit target ob \<Longrightarrow> o_kind ob \<noteq> KMutation"
    by (simp add: read_hit_def)
  define c' where "c' = fst (run_step target ob (c, m))"
  have m': "snd (run_step target ob (c, m)) = max m c'"
    using m(2)[OF suffix_segment[OF c(1)]] unfolding c'_def
    by (auto simp: run_step_def max_def)
  have suffix: "greatest (suffix_hits target (items @ [ob])) c'"
    using c hit unfolding c'_def greatest_def suffix_hits_snoc
    by (auto simp: run_step_def suffix_hits_0)
  have "greatest (segment_hits target (items @ [ob])) (max m c')"
    using suffix m unfolding greatest_def segment_hits_snoc by (auto simp: max_def dest: le_trans)
  with suffix show ?thesis
    unfolding run_spec_def by (simp add: m' c'_def split_def)
qed

lemma run_spec_fold: "run_spec target items (fold (run_step target) items (0, 0))"
proof (induction items rule: rev_induct)
  case Nil
  show ?case
    by (auto simp: run_spec_def greatest_def suffix_hits_def segment_hits_def hits_def
        mutation_free_def)
next
  case (snoc ob items)
  then show ?case
    using run_spec_snoc[of target items "fst (fold (run_step target) items (0, 0))"
        "snd (fold (run_step target) items (0, 0))" ob]
    by simp
qed

lemma read_streaks_inv: "tm_inv (read_streaks items)"
proof -
  have "tm_inv m \<Longrightarrow> tm_inv (fold streak_step xs m)" for xs m
    by (induction xs arbitrary: m) (auto simp: streak_step_inv)
  then show ?thesis unfolding read_streaks_def by (simp add: tm_inv_def)
qed

lemma read_streaks_greatest:
  "greatest (segment_hits target (sort_key o_timestamp items))
     (snd (streak_view (read_streaks items) target))"
proof -
  have "streak_view (read_streaks items) target
      = fold (run_step target) (sort_key o_timestamp items) (0, 0)"
    unfolding read_streaks_def by (subst streak_view_fold) (auto simp: tm_inv_def streak_view_def)
  then show ?thesis
    using run_spec_fold[of target "sort_key o_timestamp items"]
    by (cases "streak_view (read_streaks items) target") (auto simp: run_spec_def)
qed

section \<open>Category totals conserve the turns\<close>

text \<open>A bucket vector as an association list from (model, tier) to tokens.\<close>

definition bucket_pair :: "tier_bucket \<Rightarrow> (string \<times> string option) \<times> token_totals" where
  "bucket_pair b = ((b_model b, b_service_tier b), b_tokens b)"

definition bucket_map :: "tier_bucket list \<Rightarrow> ((string \<times> string option) \<times> token_totals) list" where
  "bucket_map bs = map bucket_pair bs"

lemma bucket_map_add:
  "bucket_map (bucket_add m t tok bs) = hm_entry (m, t) 0 (\<lambda>v. v + tok) (bucket_map bs)"
  by (induction bs) (auto simp: bucket_map_def bucket_pair_def)

lemma fold_plus: "fold (\<lambda>x v. v + f x) xs (a :: 'a::comm_monoid_add) = a + (\<Sum>x\<leftarrow>xs. f x)"
  by (induction xs arbitrary: a) (auto simp: ac_simps)

definition has_model :: "turn_info \<Rightarrow> bool" where
  "has_model turn \<longleftrightarrow> t_model turn \<noteq> None"

definition turn_key :: "turn_info \<Rightarrow> string \<times> string option" where
  "turn_key turn = (the (t_model turn), t_service_tier turn)"

lemma category_add_fold:
  "c_turns (fold category_add ts e) = c_turns e + of_nat (length ts)"
  "c_tokens (fold category_add ts e) = c_tokens e + (\<Sum>t\<leftarrow>ts. t_tokens t)"
  "c_tool_calls (fold category_add ts e) = c_tool_calls e + (\<Sum>t\<leftarrow>ts. m_calls (t_tool_metrics t))"
  "bucket_map (c_buckets (fold category_add ts e))
     = fold (\<lambda>t. hm_entry (turn_key t) 0 (\<lambda>v. v + t_tokens t)) (filter has_model ts)
         (bucket_map (c_buckets e))"
  by (induction ts arbitrary: e)
    (auto simp: category_add_def ac_simps bucket_map_add has_model_def turn_key_def
      split: option.splits)

lemma map_of_same_set:
  assumes "distinct (map fst m)" and "distinct (map fst m')" and "set m = set m'"
  shows "map_of m = map_of m'"
proof
  fix k
  have "map_of m k = Some v \<longleftrightarrow> map_of m' k = Some v" for v
    by (simp only: map_of_distinct_in[OF assms(1), symmetric]
        map_of_distinct_in[OF assms(2), symmetric] assms(3))
  then show "map_of m k = map_of m' k"
    by (metis not_Some_eq)
qed

lemma sort_buckets_lookup:
  assumes "distinct (map fst (bucket_map bs))"
  shows "map_of (bucket_map (sort_buckets bs)) = map_of (bucket_map bs)"
proof (rule map_of_same_set)
  have "mset (map fst (bucket_map (sort_buckets bs))) = mset (map fst (bucket_map bs))"
    by (simp add: bucket_map_def sort_buckets_def)
  with assms show "distinct (map fst (bucket_map (sort_buckets bs)))"
    using mset_eq_imp_distinct_iff by blast
qed (use assms in \<open>auto simp: bucket_map_def sort_buckets_def\<close>)

definition category_turns :: "task_category \<Rightarrow> turn_info list \<Rightarrow> turn_info list" where
  "category_turns c turns = filter (\<lambda>t. cl_category (t_classification t) = c) turns"

lemma category_totals_lookup:
  "map_of (category_totals turns) c =
    (if category_turns c turns = [] then None
     else Some (let e = fold category_add (category_turns c turns) default_category_metric
                in e\<lparr>c_buckets := sort_buckets (c_buckets e)\<rparr>))"
  unfolding category_totals_def Let_def map_of_map_values
  by (subst tm.fold_lookup)
    (auto simp: tm_inv_def category_turns_def filter_empty_conv)

lemma category_buckets_lookup:
  fixes ts
  defines "bs \<equiv> c_buckets (fold category_add ts default_category_metric)"
  shows "distinct (map fst (bucket_map bs))"
    and "map_of (bucket_map (sort_buckets bs)) k =
      (let sel = filter (\<lambda>t. has_model t \<and> turn_key t = k) ts in
       if sel = [] then None else Some (\<Sum>t\<leftarrow>sel. t_tokens t))"
proof -
  have e: "bucket_map bs
      = fold (\<lambda>t. hm_entry (turn_key t) 0 (\<lambda>v. v + t_tokens t)) (filter has_model ts) []"
    by (simp add: bs_def category_add_fold) (simp add: default_category_metric_def bucket_map_def)
  have inv: "hm_inv (bucket_map bs)"
    unfolding e by (intro hm.fold_invar) (simp add: hm_inv_def)
  then show d: "distinct (map fst (bucket_map bs))" by (simp add: hm_inv_def)
  have f: "filter (\<lambda>t. turn_key t = k) (filter has_model ts)
      = filter (\<lambda>t. has_model t \<and> turn_key t = k) ts"
    by (simp add: conj_commute)
  show "map_of (bucket_map (sort_buckets bs)) k =
      (let sel = filter (\<lambda>t. has_model t \<and> turn_key t = k) ts in
       if sel = [] then None else Some (\<Sum>t\<leftarrow>sel. t_tokens t))"
    unfolding sort_buckets_lookup[OF d] Let_def unfolding e
    by (subst hm.fold_lookup)
      (auto simp: hm_inv_def fold_plus filter_empty_conv f simp del: filter_filter)
qed

lemma category_totals_conserve_sums:
  "(\<Sum>(_, e)\<leftarrow>category_totals turns. c_turns e) = of_nat (length turns)"
  "(\<Sum>(_, e)\<leftarrow>category_totals turns. c_tokens e) = (\<Sum>t\<leftarrow>turns. t_tokens t)"
  "(\<Sum>(_, e)\<leftarrow>category_totals turns. c_tool_calls e)
     = (\<Sum>t\<leftarrow>turns. m_calls (t_tool_metrics t))"
proof -
  define step where "step = (\<lambda>t. tm_entry (cl_category (t_classification t))
    default_category_metric (category_add t))"
  have inv: "tm_inv m \<Longrightarrow> tm_inv (fold step ts m)" for ts m
    unfolding step_def by (rule tm.fold_invar)
  have sums: "(\<Sum>(_, e)\<leftarrow>category_totals turns. w e) = (\<Sum>t\<leftarrow>turns. c t)"
    if w: "\<And>e bs. w (e\<lparr>c_buckets := bs\<rparr>) = w e"
      and add: "\<And>t e. w (category_add t e) = w e + c t" and z: "w default_category_metric = 0"
    for w :: "category_metric \<Rightarrow> 'b::comm_monoid_add" and c
  proof -
    have "(\<Sum>(_, e)\<leftarrow>fold step turns m. w e) = (\<Sum>(_, e)\<leftarrow>m. w e) + (\<Sum>t\<leftarrow>turns. c t)"
      if "tm_inv m" for m
      using that
    proof (induction turns arbitrary: m)
      case (Cons t ts)
      have "tm_inv (step t m)" using Cons.prems by (simp add: step_def tm_entry_inv)
      then show ?case
        using Cons tm.entry_sum[OF Cons.prems, of w "category_add t" "c t"]
        by (simp add: step_def add z ac_simps)
    qed simp
    from this[of "[]"] show ?thesis
      by (simp add: category_totals_def Let_def step_def tm_inv_def comp_def split_def w)
  qed
  have one: "(\<Sum>t\<leftarrow>turns. 1) = (of_nat (length turns) :: u64)" by (induction turns) auto
  show "(\<Sum>(_, e)\<leftarrow>category_totals turns. c_turns e) = of_nat (length turns)"
    using sums[of c_turns "\<lambda>_. 1"] one by (simp add: category_add_def default_category_metric_def)
  show "(\<Sum>(_, e)\<leftarrow>category_totals turns. c_tokens e) = (\<Sum>t\<leftarrow>turns. t_tokens t)"
    by (rule sums) (simp_all add: category_add_def default_category_metric_def)
  show "(\<Sum>(_, e)\<leftarrow>category_totals turns. c_tool_calls e)
     = (\<Sum>t\<leftarrow>turns. m_calls (t_tool_metrics t))"
    by (rule sums) (simp_all add: category_add_def default_category_metric_def)
qed

section \<open>Refreshing is a function of the recorded facts\<close>

definition strip_turn :: "turn_info \<Rightarrow> turn_info" where
  "strip_turn t =
     t\<lparr>t_tool_metrics := default_metrics, t_classification := default_classification\<rparr>"

definition strip_derived :: "session \<Rightarrow> session" where
  "strip_derived s =
     s\<lparr>s_tool_metrics := default_metrics,
       s_tool_metrics_by_model := [],
       s_turns := map strip_turn (s_turns s),
       s_category_totals := [],
       s_optimization_findings := []\<rparr>"

lemma strip_turn_refresh [simp]: "strip_turn (refresh_turn m t) = strip_turn t"
  by (simp add: strip_turn_def refresh_turn_def Let_def)

lemma refresh_turn_strip [simp]: "refresh_turn m (strip_turn t) = refresh_turn m t"
  by (simp add: strip_turn_def refresh_turn_def Let_def turn_text_def)

lemma strip_turn_id [simp]: "t_turn_id (strip_turn t) = t_turn_id t"
  by (simp add: strip_turn_def)

lemma strip_refresh_turns: "map strip_turn (refresh_turns m ts) = map strip_turn ts"
  by (induction m ts rule: refresh_turns.induct) auto

lemma refresh_turns_strip: "refresh_turns m (map strip_turn ts) = refresh_turns m ts"
  by (induction m ts rule: refresh_turns.induct) auto

lemma strip_refresh_session: "strip_derived (refresh_session s) = strip_derived s"
  by (simp add: refresh_session_def Let_def strip_derived_def strip_refresh_turns
      split: prod.splits)

lemma refresh_strip_session: "refresh_session (strip_derived s) = refresh_session s"
  by (simp add: refresh_session_def Let_def strip_derived_def refresh_turns_strip
      split: prod.splits)

lemma refresh_session_idem: "refresh_session (refresh_session s) = refresh_session s"
  by (metis refresh_strip_session strip_refresh_session)

text \<open>With distinct turn ids a turn's metrics are those of its own observations.\<close>

definition of_turn :: "string \<Rightarrow> tool_observation list \<Rightarrow> tool_observation list" where
  "of_turn tid obs = filter (\<lambda>ob. o_turn_id ob = Some tid) obs"

lemma observations_by_turn_lookup:
  "map_of (observations_by_turn obs) tid =
    (if of_turn tid obs = [] then None
     else Some (fold acc_push (of_turn tid obs) default_accumulator))"
proof -
  have "fold (\<lambda>ob by_turn.
       case o_turn_id ob of
         Some turn_id \<Rightarrow> hm_entry turn_id default_accumulator (acc_push ob) by_turn
       | None \<Rightarrow> by_turn) obs m
    = fold (\<lambda>ob. hm_entry (the (o_turn_id ob)) default_accumulator (acc_push ob))
        (filter (\<lambda>ob. o_turn_id ob \<noteq> None) obs) m" for m
    by (induction obs arbitrary: m) (auto split: option.splits)
  then have e: "observations_by_turn obs =
      fold (\<lambda>ob. hm_entry (the (o_turn_id ob)) default_accumulator (acc_push ob))
        (filter (\<lambda>ob. o_turn_id ob \<noteq> None) obs) []"
    by (simp add: observations_by_turn_def)
  have f: "filter (\<lambda>ob. the (o_turn_id ob) = tid) (filter (\<lambda>ob. o_turn_id ob \<noteq> None) obs)
      = of_turn tid obs"
    by (induction obs) (auto simp: of_turn_def)
  show ?thesis
    unfolding e by (subst hm.fold_lookup)
      (auto simp: hm_inv_def f[unfolded of_turn_def] of_turn_def filter_empty_conv
        simp del: filter_filter not_None_eq)
qed

lemma refresh_turns_metrics:
  "distinct (map t_turn_id ts) \<Longrightarrow>
    map t_tool_metrics (refresh_turns m ts) =
      map (\<lambda>t. unwrap_or default_metrics (map_option acc_finish (map_of m (t_turn_id t)))) ts"
proof (induction m ts rule: refresh_turns.induct)
  case (2 m t ts)
  then have "\<forall>u\<in>set ts. t_turn_id u \<noteq> t_turn_id t"
    by (metis distinct.simps(2) image_eqI list.set_map list.simps(9))
  with 2 have "map t_tool_metrics (refresh_turns (hm_remove (t_turn_id t) m) ts)
    = map (\<lambda>t. unwrap_or default_metrics (map_option acc_finish (map_of m (t_turn_id t)))) ts"
    by (simp add: map_of_hm_remove)
  then show ?case by (simp add: refresh_turn_def Let_def)
qed simp

lemma metrics_Nil: "metrics [] = default_metrics"
  by (simp add: metrics_def acc_finish_def default_accumulator_def default_metrics_def
      mutation_chain_fields_def)

lemma refresh_session_turn_metrics:
  assumes "distinct (map t_turn_id (s_turns s))"
  shows "map t_tool_metrics (s_turns (refresh_session s))
    = map (\<lambda>t. metrics (of_turn (t_turn_id t) (s_tool_observations s))) (s_turns s)"
  using assms
  by (simp add: refresh_session_def Let_def refresh_turns_metrics observations_by_turn_lookup
      split: prod.splits) (simp add: metrics_def[symmetric] metrics_Nil)

section \<open>Properties\<close>

lemma unat_of_nat_small: "n < 2 ^ 64 \<Longrightarrow> unat (of_nat n :: u64) = n"
  by (simp add: unat_of_nat take_bit_nat_eq_self)

lemma card_set_bound: "card (set xs) \<le> length xs" and
  card_sub_bound: "card {x \<in> set xs. P x} \<le> length xs"
  using card_length[of xs] card_mono[of "set xs" "{x \<in> set xs. P x}"] by auto

lemma length_mutation_keys: "length (mutation_keys obs) \<le> length obs"
  by (simp add: mutation_keys_def)

text \<open>The metrics of fewer than \<open>2^64\<close> observations are exact counts: the kind counters, the
  outcome counters and the origin counters each add up to the number of calls, and the
  mutation-chain fields count the distinct (turn, target) pairs mutated, those mutated exactly
  once, and the further mutations of a pair already mutated.\<close>

theorem metrics_meaning:
  assumes "length obs < 2 ^ 64"
  shows "metrics_balanced (metrics obs)
    \<and> unat (m_calls (metrics obs)) = length obs
    \<and> unat (m_failures (metrics obs)) = count_failures obs
    \<and> unat (m_mutations (metrics obs)) = length (mutation_keys obs)
    \<and> unat (m_mutation_targets (metrics obs)) = card (set (mutation_keys obs))
    \<and> unat (m_one_shot_mutations (metrics obs))
        = card {k \<in> set (mutation_keys obs). count_list (mutation_keys obs) k = 1}
    \<and> unat (m_retry_count (metrics obs))
        = length (mutation_keys obs) - card (set (mutation_keys obs))"
proof -
  let ?ks = "mutation_keys obs"
  have ks: "length ?ks < 2 ^ 64" using assms length_mutation_keys[of obs] by simp
  have c: "card (set ?ks) < 2 ^ 64" "card {k \<in> set ?ks. count_list ?ks k = 1} < 2 ^ 64"
    using ks card_set_bound[of ?ks] card_sub_bound[of ?ks "\<lambda>k. count_list ?ks k = 1"] by auto
  have f: "count_failures obs < 2 ^ 64"
    using assms length_filter_le[of "\<lambda>item. o_outcome item = OutFailure" obs]
    unfolding count_failures_def by linarith
  from ks c f assms show ?thesis
    by (simp add: metrics_balanced_metrics metrics_sel_chain[OF ks] metrics_sel_counters
        counters_sel unat_of_nat_small)
qed

lemma model_calls_sum:
  "(\<Sum>(_, v)\<leftarrow>snd (metrics_with_models obs). m_calls v)
     = of_nat (length (filter (\<lambda>ob. o_model ob \<noteq> None) obs))"
proof -
  let ?step = "\<lambda>ob. tm_entry (the (o_model ob)) default_accumulator (acc_push ob)"
  have finish: "m_calls (acc_finish a) = m_calls (acc_out a)" for a
    by (simp add: acc_finish_def split: prod.splits)
  have "(\<Sum>(_, a)\<leftarrow>fold ?step xs m. m_calls (acc_out a))
      = (\<Sum>(_, a)\<leftarrow>m. m_calls (acc_out a)) + of_nat (length xs)" if "tm_inv m" for xs m
    using that
  proof (induction xs arbitrary: m)
    case (Cons x xs)
    have "(\<Sum>(_, a)\<leftarrow>?step x m. m_calls (acc_out a))
        = (\<Sum>(_, a)\<leftarrow>m. m_calls (acc_out a)) + 1"
      by (rule tm.entry_sum[OF Cons.prems])
        (simp_all add: acc_push_def Let_def accumulate_observation_sums default_accumulator_def
          default_metrics_def)
    with Cons show ?case by (simp add: tm_entry_inv)
  qed simp
  from this[of "[]" "filter (\<lambda>ob. o_model ob \<noteq> None) obs"] show ?thesis
    by (simp add: metrics_with_models_eq model_accumulators_def finish comp_def split_def
        tm_inv_def)
qed

text \<open>The per-model metrics partition the observations that name a model: a model has an
  entry exactly when some observation names it, the entry equals the metrics of its own
  observations alone (in particular its mutation chains are not mixed with another model's),
  the entries are in increasing key order, and their calls together with the calls that name
  no model are the calls of the whole list.\<close>

theorem metrics_split_by_model:
  "map_of (snd (metrics_with_models obs)) model =
      (if with_model model obs = [] then None else Some (metrics (with_model model obs)))
   \<and> sorted_wrt (<) (map fst (snd (metrics_with_models obs)))
   \<and> (\<Sum>(_, v)\<leftarrow>snd (metrics_with_models obs). m_calls v)
       + of_nat (length (filter (\<lambda>ob. o_model ob = None) obs))
     = m_calls (fst (metrics_with_models obs))"
proof -
  have "length (filter (\<lambda>ob. o_model ob \<noteq> None) obs)
      + length (filter (\<lambda>ob. o_model ob = None) obs) = length obs"
    using sum_length_filter_compl[of "\<lambda>ob. o_model ob \<noteq> None" obs] by simp
  then have "m_calls (metrics obs) = of_nat (length (filter (\<lambda>ob. o_model ob \<noteq> None) obs)
      + length (filter (\<lambda>ob. o_model ob = None) obs))"
    by (simp add: metrics_sel_counters counters_sel)
  moreover have "sorted_wrt (<) (map fst (snd (metrics_with_models obs)))"
    using model_accumulators_inv[of obs]
    by (simp add: metrics_with_models_eq tm_inv_def comp_def split_def)
  ultimately show ?thesis
    unfolding metrics_by_model_lookup model_calls_sum fst_metrics_with_models by simp
qed

text \<open>The context sources of a token total partition its input tokens: when the cached and
  newly cached parts do not exceed the input, the amounts of the breakdown add up to exactly
  the input tokens, and every source listed has a positive amount.\<close>

lemma context_sources_partition:
  assumes "unat (cached_input_tokens tokens) + unat (cache_creation_input_tokens tokens)
    \<le> unat (input_tokens tokens)"
  shows "(\<Sum>(_, n)\<leftarrow>context_source_breakdown tokens. unat n) = unat (input_tokens tokens)
    \<and> list_all (\<lambda>(_, n). 0 < n) (context_source_breakdown tokens)"
  using assms
  by (simp add: context_source_breakdown_sum)
    (simp add: context_source_breakdown_eq)

lemma greatest_unique: "greatest P m \<Longrightarrow> greatest P n \<Longrightarrow> m = n"
  by (auto simp: greatest_def intro: le_antisym)

lemma streak_max_eq:
  "snd (streak_view (read_streaks items) target) = n
    \<longleftrightarrow> greatest (segment_hits target (sort_key o_timestamp items)) n"
  using read_streaks_greatest greatest_unique by blast

text \<open>The targets of a group that the rule reports, with their run lengths.\<close>

definition long_runs :: "tool_observation list \<Rightarrow> (string \<times> nat) set" where
  "long_runs items =
     {(target, n). repeated_read_threshold \<le> n
        \<and> greatest (segment_hits target (sort_key o_timestamp items)) n}"

lemma long_runs_eq:
  "long_runs items = (\<lambda>(k, streak). (k, rs_max streak)) `
     {(k, streak) \<in> set (read_streaks items). repeated_read_threshold \<le> rs_max streak}"
  (is "_ = ?f ` ?S")
proof (intro set_eqI iffI)
  fix z assume "z \<in> long_runs items"
  then obtain k n where z: "z = (k, n)" "repeated_read_threshold \<le> n"
      "snd (streak_view (read_streaks items) k) = n"
    by (auto simp: long_runs_def streak_max_eq)
  then obtain streak where "map_of (read_streaks items) k = Some streak" "rs_max streak = n"
    by (auto simp: streak_view_def repeated_read_threshold_def split: option.splits)
  with z show "z \<in> ?f ` ?S" by (force dest: map_of_SomeD)
next
  fix z assume "z \<in> ?f ` ?S"
  then obtain k streak where "z = (k, rs_max streak)" "repeated_read_threshold \<le> rs_max streak"
      "map_of (read_streaks items) k = Some streak"
    using tm.invar_distinct[OF read_streaks_inv, of items] by auto
  then show "z \<in> long_runs items"
    by (auto simp: long_runs_def streak_view_def simp flip: streak_max_eq)
qed

lemma long_runs_mset:
  "mset_set (long_runs items)
    = {#(k, rs_max streak). (k, streak) \<in>#
         mset (filter (\<lambda>(_, streak). repeated_read_threshold \<le> rs_max streak)
           (read_streaks items))#}"
proof -
  let ?xs = "filter (\<lambda>(_, streak). repeated_read_threshold \<le> rs_max streak) (read_streaks items)"
  let ?f = "\<lambda>(k, streak). (k, rs_max streak)"
  have "distinct (map fst (read_streaks items))"
    by (rule tm.invar_distinct[OF read_streaks_inv])
  then have "distinct (map fst ?xs)" by (rule distinct_map_filter)
  then have "distinct (map fst (map ?f ?xs))" by (simp add: comp_def split_def)
  then have "distinct (map ?f ?xs)" by (simp only: distinct_map[of fst])
  moreover have "set (map ?f ?xs) = long_runs items"
    unfolding long_runs_eq by (auto simp: image_def)
  ultimately have "mset_set (long_runs items) = mset (map ?f ?xs)"
    by (metis mset_set_set)
  then show ?thesis by simp
qed

text \<open>C38: The repeated-read rule of a (turn, resource) group reports each target exactly once
  whose longest mutation-free run of successful, non-volatile reads, in time order, has at
  least three reads, and reports it with the length of that run as occurrences and one less
  as avoidable calls; no other finding is made.\<close>

theorem repeated_reads_are_longest_runs:
  "image_mset (\<lambda>f. (f_occurrences f, f_avoidable_calls f))
      (mset (repeated_read_findings ((turn, resource), items)))
    = image_mset (\<lambda>(target, n). (word_of_nat n, word_of_nat (n - 1)))
        (mset_set (long_runs items))"
  unfolding long_runs_mset repeated_read_findings_def
  by (simp add: image_mset.compositionality comp_def split_def)

text \<open>The category totals partition the turns. A category has an entry exactly when a turn
  is classified in it; the entry counts its turns, adds their tokens and tool calls, and holds,
  for each (model, tier) of its turns with a model, one bucket with the sum of their tokens;
  over all categories the turns, tokens and tool calls are those of the session.\<close>

lemma category_totals_partition:
  fixes turns c
  defines "sel \<equiv> category_turns c turns"
  shows "(case map_of (category_totals turns) c of
      None \<Rightarrow> sel = []
    | Some e \<Rightarrow> sel \<noteq> []
        \<and> c_turns e = of_nat (length sel)
        \<and> c_tokens e = (\<Sum>t\<leftarrow>sel. t_tokens t)
        \<and> c_tool_calls e = (\<Sum>t\<leftarrow>sel. m_calls (t_tool_metrics t))
        \<and> map_of (bucket_map (c_buckets e)) k =
            (let tier = filter (\<lambda>t. has_model t \<and> turn_key t = k) sel in
             if tier = [] then None else Some (\<Sum>t\<leftarrow>tier. t_tokens t)))
    \<and> (\<Sum>(_, e)\<leftarrow>category_totals turns. c_turns e) = of_nat (length turns)
    \<and> (\<Sum>(_, e)\<leftarrow>category_totals turns. c_tokens e) = (\<Sum>t\<leftarrow>turns. t_tokens t)
    \<and> (\<Sum>(_, e)\<leftarrow>category_totals turns. c_tool_calls e)
        = (\<Sum>t\<leftarrow>turns. m_calls (t_tool_metrics t))"
proof -
  have "map_of (bucket_map (sort_buckets (c_buckets (fold category_add sel
      default_category_metric)))) k =
      (let tier = filter (\<lambda>t. has_model t \<and> turn_key t = k) sel in
       if tier = [] then None else Some (\<Sum>t\<leftarrow>tier. t_tokens t))"
    by (rule category_buckets_lookup)
  then show ?thesis
    by (auto simp: category_totals_lookup category_totals_conserve_sums category_add_fold
        Let_def simp flip: sel_def) (simp_all add: default_category_metric_def)
qed

text \<open>Refreshing a session is idempotent, keeps every recorded (non-derived) field of the
  session and of its turns, and depends on nothing else: two sessions that differ only in
  derived fields refresh to the same session.\<close>

theorem refresh_session_derived:
  "refresh_session (refresh_session s) = refresh_session s
   \<and> strip_derived (refresh_session s) = strip_derived s
   \<and> (strip_derived s = strip_derived s' \<longrightarrow> refresh_session s = refresh_session s')"
  by (metis refresh_session_idem strip_refresh_session refresh_strip_session)

text \<open>C12: When the turn ids of a session are distinct, refreshing gives every turn exactly the
  metrics of the observations recorded under its id, in the turns' order.\<close>

theorem refresh_session_per_turn:
  assumes "distinct (map t_turn_id (s_turns s))"
  shows "map t_tool_metrics (s_turns (refresh_session s))
    = map (\<lambda>t. metrics (of_turn (t_turn_id t) (s_tool_observations s))) (s_turns s)"
  by (rule refresh_session_turn_metrics[OF assms])

datatype tool_event =
    Call tool_call_input
  | Result string tool_outcome "u64 option" "timestamp option" u64

fun observe_event :: "host \<Rightarrow> tool_event \<Rightarrow> tool_observation list \<Rightarrow> tool_observation list" where
  "observe_event hst (Call inp) obs = observe_call hst obs inp"
| "observe_event hst (Result call_id outcome duration completed bytes) obs =
     observe_result obs call_id outcome duration completed bytes"

lemma observe_event_redacted:
  assumes "list_all observation_redacted obs"
  shows "list_all observation_redacted (observe_event hst ev obs)"
proof (cases ev)
  case (Result cid oc du ca out)
  from assms show ?thesis
    unfolding Result observe_event.simps observe_result_def list_all_iff
    by (intro upd_last_ball) (auto simp: result_update_redacted)
qed (use assms observe_call_redacted in \<open>simp add: list_all_iff\<close>)

text \<open>C37: Whatever calls and results a transcript reports, the observations kept hold no raw
  argument text: targets and resources are stable hashes, provider and tool identifiers are
  bounded lists (16 of at most 64 bytes, 32 of at most 128 bytes) of distinct lower-case
  identifiers, shell families and languages come from the two fixed label sets, and no
  observation has an unknown origin.\<close>

theorem observations_redacted:
  "list_all observation_redacted (fold (observe_event hst) evs [])"
proof -
  have "list_all observation_redacted obs \<Longrightarrow>
      list_all observation_redacted (fold (observe_event hst) evs obs)" for obs
    by (induction evs arbitrary: obs) (simp_all add: observe_event_redacted)
  then show ?thesis by simp
qed

text \<open>A tool result settles exactly one observation, the latest call with its id: the
  observations before and after it are untouched, the settled one keeps its identity and gets
  the outcome, the larger of the two output sizes, and, when the result carries no duration,
  the elapsed time between call and completion; a result whose id was never called changes
  nothing.\<close>

theorem observe_result_settles_latest:
  assumes "o_call_id ob = call_id" and "\<forall>x\<in>set later. o_call_id x \<noteq> call_id"
    and "call_id \<noteq> other" and "\<forall>x\<in>set (earlier @ ob # later). o_call_id x \<noteq> other"
  shows "observe_result (earlier @ ob # later) call_id outcome duration completed bytes
      = earlier @ result_update outcome duration completed bytes ob # later
    \<and> o_outcome (result_update outcome duration completed bytes ob) = outcome
    \<and> o_output_bytes (result_update outcome duration completed bytes ob)
        = max (o_output_bytes ob) bytes
    \<and> (duration \<noteq> None \<longrightarrow>
        o_duration_ms (result_update outcome duration completed bytes ob) = duration)
    \<and> observe_result (earlier @ ob # later) other outcome duration completed bytes
        = earlier @ ob # later"
  using assms observe_result_split observe_result_none[OF assms(4)]
  by (auto simp: result_update_def Let_def)

section \<open>Witnesses\<close>

definition sample_observation :: tool_observation where
  "sample_observation =
     \<lparr>o_call_id = ''c1'', o_turn_id = Some ''t1'', o_harness = codex_provider_id,
      o_model = Some ''m'', o_timestamp = 5, o_kind = KMutation, o_name = ''apply_patch'',
      o_providers = [], o_effective_tools = [], o_target = Some ''mutation:x'',
      o_resource_id = None, o_origin = OrgCore, o_shell_family = None, o_language = None,
      o_outcome = OutFailure, o_duration_ms = None, o_output_bytes = 7\<rparr>"

lemma metrics_meaning_witness:
  "unat (m_retry_count (metrics [sample_observation, sample_observation])) = 1"
  using metrics_meaning[of "[sample_observation, sample_observation]"]
  by (simp add: mutation_keys_def mutation_key_def sample_observation_def)

definition sample_totals :: token_totals where
  "sample_totals =
     \<lparr>input_tokens = 100, cached_input_tokens = 60, cache_creation_input_tokens = 30,
      output_tokens = 5, reasoning_output_tokens = 0, total_tokens = 105\<rparr>"

lemma context_sources_partition_witness:
  "(\<Sum>(_, n)\<leftarrow>context_source_breakdown sample_totals. unat n) = 100"
  using context_sources_partition[of sample_totals] by (simp add: sample_totals_def)

definition sample_session :: session where
  "sample_session =
     \<lparr>s_id = ''a'', s_storage_id = ''codex:thread:a'', s_harness = codex_provider_id,
      s_thread_name = None, s_forked_from_id = None, s_parent_thread_id = None,
      s_agent_path = None, s_agent_nickname = None, s_file_path = ''f'',
      s_source_availability = AvailPresent, s_lifecycle = LifePresent,
      s_archived = False, s_started_at = 0, s_last_event_at = 0, s_working_directory = None,
      s_originator = None, s_source = None, s_subagent_id_is_path_fallback = False,
      s_history_mode = None, s_memory_mode = None, s_cli_version = None,
      s_model_provider = None, s_model = None, s_service_tier = None, s_plan_type = None,
      s_credits_unlimited = None, s_credits_balance = None, s_context_window = None,
      s_latest_context_tokens = None, s_total_turns = 1, s_first_user_message = None,
      s_tokens_total = default_totals, s_tokens_by_model = [], s_tokens_history = [],
      s_rate_limits_history = [],
      s_turns = [default_turn\<lparr>t_turn_id := ''t1''\<rparr>, default_turn\<lparr>t_turn_id := ''t2''\<rparr>],
      s_tool_observations = [sample_observation], s_tool_metrics = default_metrics,
      s_tool_metrics_by_model = [], s_category_totals = [], s_optimization_findings = [],
      s_project_key = None, s_project_label = None, s_project_provenance = None\<rparr>"

lemma refresh_session_derived_witness:
  "refresh_session (sample_session\<lparr>s_tool_metrics_by_model := [(''x'', default_metrics)]\<rparr>)
    = refresh_session sample_session"
proof -
  let ?s = "sample_session\<lparr>s_tool_metrics_by_model := [(''x'', default_metrics)]\<rparr>"
  have "strip_derived ?s = strip_derived sample_session"
    by (simp add: strip_derived_def)
  with refresh_session_derived[of ?s sample_session] show ?thesis by blast
qed

lemma refresh_session_per_turn_witness:
  "map (\<lambda>t. m_mutations (t_tool_metrics t)) (s_turns (refresh_session sample_session)) = [1, 0]"
proof -
  have "map t_tool_metrics (s_turns (refresh_session sample_session))
      = [metrics [sample_observation], metrics []]"
    by (subst refresh_session_per_turn)
      (simp_all add: sample_session_def default_turn_def of_turn_def sample_observation_def)
  then have "map m_mutations (map t_tool_metrics (s_turns (refresh_session sample_session)))
      = map m_mutations [metrics [sample_observation], metrics []]"
    by (simp only:)
  then show ?thesis
    by (simp add: comp_def metrics_sel_counters counters_sel mutation_keys_def
        sample_observation_def)
qed

lemma observe_result_settles_latest_witness:
  "observe_result [sample_observation\<lparr>o_name := ''old''\<rparr>, sample_observation] ''c1'' OutSuccess
      None None 3
    = [sample_observation\<lparr>o_name := ''old''\<rparr>, sample_observation\<lparr>o_outcome := OutSuccess\<rparr>]"
  using observe_result_settles_latest[of sample_observation "''c1''" "[]" "''zz''"
      "[sample_observation\<lparr>o_name := ''old''\<rparr>]" OutSuccess None None 3]
  by (simp add: sample_observation_def result_update_def Let_def)

end
