(* ===== verification/Range_Totals.thy ===== *)
theory Range_Totals
  imports Telemetry_Facts
begin

text \<open>
  The rollups of \<open>src-tauri/src/model.rs\<close>: the run-length collapse of rate-limit snapshots,
  the effective storage identity, the (model, tier) buckets, the windowed totals
  \<open>range_totals_multi\<close> with its two selection paths (binary partitioning of a chronological
  history, and the filter for any other), the session summary and the resident projection.
\<close>

section \<open>Rate-limit snapshots\<close>

definition window_eq :: "rate_limit_window \<Rightarrow> rate_limit_window \<Rightarrow> bool" where
  "window_eq a b \<longleftrightarrow>
     f64_eq (w_used_percent a) (w_used_percent b)
     \<and> w_window_minutes a = w_window_minutes b
     \<and> w_resets_at a = w_resets_at b"

definition opt_eq :: "('a \<Rightarrow> 'a \<Rightarrow> bool) \<Rightarrow> 'a option \<Rightarrow> 'a option \<Rightarrow> bool" where
  "opt_eq eq a b =
     (case (a, b) of (None, None) \<Rightarrow> True | (Some x, Some y) \<Rightarrow> eq x y | _ \<Rightarrow> False)"

definition run_started_at :: "rate_limit_snapshot_point \<Rightarrow> timestamp" where
  "run_started_at p = unwrap_or (p_timestamp p) (p_run_started_at p)"

definition same_run ::
    "rate_limit_snapshot_point \<Rightarrow> string option \<Rightarrow> string option \<Rightarrow> rate_limit_window option
      \<Rightarrow> rate_limit_window option \<Rightarrow> bool" where
  "same_run p turn_id limit_id primary secondary \<longleftrightarrow>
     p_turn_id p = turn_id \<and> p_limit_id p = limit_id
     \<and> opt_eq window_eq (p_primary p) primary \<and> opt_eq window_eq (p_secondary p) secondary"

definition extend_run :: "timestamp \<Rightarrow> rate_limit_snapshot_point \<Rightarrow> rate_limit_snapshot_point" where
  "extend_run timestamp p =
     p\<lparr>p_run_started_at :=
         (if p_run_started_at p = None then Some (p_timestamp p) else p_run_started_at p),
       p_timestamp := timestamp,
       p_observation_count := p_observation_count p + 1\<rparr>"

definition record_snapshot ::
    "rate_limit_snapshot_point list \<Rightarrow> timestamp \<Rightarrow> string option \<Rightarrow> string option
      \<Rightarrow> rate_limit_window option \<Rightarrow> rate_limit_window option
      \<Rightarrow> rate_limit_snapshot_point list" where
  "record_snapshot history timestamp turn_id limit_id primary secondary =
     (if history \<noteq> [] \<and> same_run (last history) turn_id limit_id primary secondary
      then butlast history @ [extend_run timestamp (last history)]
      else history @
        [\<lparr>p_timestamp = timestamp, p_turn_id = turn_id, p_limit_id = limit_id,
          p_primary = primary, p_secondary = secondary, p_run_started_at = None,
          p_observation_count = 1\<rparr>])"

definition collapse :: "rate_limit_snapshot_point list \<Rightarrow> rate_limit_snapshot_point list" where
  "collapse raw =
     fold (\<lambda>p collapsed. record_snapshot collapsed (p_timestamp p) (p_turn_id p) (p_limit_id p)
             (p_primary p) (p_secondary p)) raw []"

section \<open>Identity and buckets\<close>

definition effective_storage_id :: "session \<Rightarrow> string" where
  "effective_storage_id s =
     (if s_storage_id s \<noteq> [] then s_storage_id s
      else if s_harness s = claude_code_provider_id \<and> s_source s = Some ''subagent''
      then (case s_parent_thread_id s of
              Some parent_session_id \<Rightarrow> storage_id_for_claude_subagent parent_session_id (s_id s)
            | None \<Rightarrow> storage_id_for_session (s_harness s) (s_id s))
      else storage_id_for_session (s_harness s) (s_id s))"

definition bucket_history :: "token_history_point list \<Rightarrow> tier_bucket list" where
  "bucket_history events =
     map (\<lambda>((model, tier), tokens).
            \<lparr>b_model = model, b_service_tier = tier, b_tokens = tokens\<rparr>)
       (fold (\<lambda>ev m.
          case h_model ev of
            None \<Rightarrow> m
          | Some model \<Rightarrow>
              tm_entry (model, h_service_tier ev) default_totals
                (\<lambda>entry. add_totals entry (h_delta ev)) m) events [])"

definition tier_buckets :: "session \<Rightarrow> tier_bucket list" where
  "tier_buckets s =
     (if s_tokens_history s = []
      then sort_key b_model
        (map (\<lambda>(model, tokens). \<lparr>b_model = model, b_service_tier = None, b_tokens = tokens\<rparr>)
          (s_tokens_by_model s))
      else bucket_history (s_tokens_history s))"

section \<open>Windowed totals\<close>

type_synonym range_window = "timestamp option \<times> timestamp option"

record 'p range_totals_t =
  r_pricing :: "'p option"
  r_tokens :: token_totals
  r_buckets :: "tier_bucket list"
  r_tool_metrics :: tool_metrics
  r_tool_metrics_by_model :: "(string \<times> tool_metrics) list"
  r_optimization_findings_count :: u64
  r_optimization_summary :: optimization_summary
  r_tool_dimensions :: "(string \<times> (string \<times> dimension_metrics) list) list"

text \<open>The slice \<open>xs[start.min(end)..end]\<close> between the two partition points.\<close>

definition window_slice :: "('a \<Rightarrow> timestamp) \<Rightarrow> range_window \<Rightarrow> 'a list \<Rightarrow> 'a list" where
  "window_slice ts = (\<lambda>(from, to) xs.
     let start = (case from of None \<Rightarrow> 0
           | Some f \<Rightarrow> partition_point (\<lambda>x. timestamp_millis (ts x) < timestamp_millis f) xs);
         stop = (case to of None \<Rightarrow> length xs
           | Some t \<Rightarrow> partition_point (\<lambda>x. timestamp_millis (ts x) \<le> timestamp_millis t) xs)
     in drop (min start stop) (take stop xs))"

definition in_window :: "range_window \<Rightarrow> timestamp \<Rightarrow> bool" where
  "in_window = (\<lambda>(from, to) t.
     (case from of None \<Rightarrow> True | Some f \<Rightarrow> timestamp_millis f \<le> timestamp_millis t)
     \<and> (case to of None \<Rightarrow> True | Some u \<Rightarrow> timestamp_millis t \<le> timestamp_millis u))"

definition chronological :: "('a \<Rightarrow> timestamp) \<Rightarrow> 'a list \<Rightarrow> bool" where
  "chronological ts xs \<longleftrightarrow> all_pairs (\<lambda>x y. ts x \<le> ts y) xs"

definition select_window :: "('a \<Rightarrow> timestamp) \<Rightarrow> bool \<Rightarrow> range_window \<Rightarrow> 'a list \<Rightarrow> 'a list" where
  "select_window ts is_sorted w xs =
     (if is_sorted then window_slice ts w xs else filter (\<lambda>x. in_window w (ts x)) xs)"

definition add_event ::
    "token_history_point \<Rightarrow> token_totals \<times> tier_bucket list \<Rightarrow> token_totals \<times> tier_bucket list"
  where
  "add_event event = (\<lambda>(tokens, buckets).
     (add_totals tokens (h_delta event),
      (case h_model event of
         None \<Rightarrow> buckets
       | Some model \<Rightarrow> bucket_add model (h_service_tier event) (h_delta event) buckets)))"

definition finding_selected :: "range_window \<Rightarrow> optimization_finding \<Rightarrow> bool" where
  "finding_selected w f =
     (case f_timestamp f of
        Some t \<Rightarrow> in_window w t
      | None \<Rightarrow> fst w = None \<and> snd w = None)"

definition range_total ::
    "session \<Rightarrow> bool \<Rightarrow> bool \<Rightarrow> range_window \<Rightarrow> 'p range_totals_t" where
  "range_total s history_sorted observations_sorted w =
     (case fold add_event (select_window h_timestamp history_sorted w (s_tokens_history s))
             (default_totals, []) of
        (tokens, buckets) \<Rightarrow>
          let selected = select_window o_timestamp observations_sorted w (s_tool_observations s)
          in case metrics_with_models selected of
               (tool_ms, by_model) \<Rightarrow>
                 let selected_findings = filter (finding_selected w) (s_optimization_findings s)
                 in \<lparr>r_pricing = None,
                     r_tokens = tokens,
                     r_buckets = sort_buckets buckets,
                     r_tool_metrics = tool_ms,
                     r_tool_metrics_by_model = by_model,
                     r_optimization_findings_count = word_of_nat (length selected_findings),
                     r_optimization_summary =
                       optimization_summary_from_findings selected_findings,
                     r_tool_dimensions = dimension_totals selected tokens\<rparr>)"

definition range_totals_multi :: "session \<Rightarrow> range_window list \<Rightarrow> 'p range_totals_t list" where
  "range_totals_multi s ranges =
     (let history_sorted = chronological h_timestamp (s_tokens_history s);
          observations_sorted = chronological o_timestamp (s_tool_observations s)
      in map (range_total s history_sorted observations_sorted) ranges)"

definition range_totals :: "session \<Rightarrow> range_window \<Rightarrow> 'p range_totals_t" where
  "range_totals s w = last (range_totals_multi s [w])"

section \<open>Summaries\<close>

record session_summary =
  y_id :: string
  y_storage_id :: string
  y_harness :: provider_id
  y_thread_name :: "string option"
  y_forked_from_id :: "string option"
  y_parent_thread_id :: "string option"
  y_agent_path :: "string option"
  y_agent_nickname :: "string option"
  y_file_path :: string
  y_source_availability :: source_availability
  y_lifecycle :: session_lifecycle
  y_archived :: bool
  y_started_at :: timestamp
  y_last_event_at :: timestamp
  y_working_directory :: "string option"
  y_originator :: "string option"
  y_source :: "string option"
  y_cli_version :: "string option"
  y_model_provider :: "string option"
  y_model :: "string option"
  y_service_tier :: "string option"
  y_plan_type :: "string option"
  y_credits_unlimited :: "bool option"
  y_credits_balance :: "f64 option"
  y_context_window :: "u32 option"
  y_total_turns :: u32
  y_first_user_message :: "string option"
  y_tokens_total :: token_totals
  y_buckets :: "tier_bucket list"
  y_tool_metrics :: tool_metrics
  y_tool_metrics_by_model :: "(string \<times> tool_metrics) list"
  y_category_totals :: "(task_category \<times> category_metric) list"
  y_optimization_findings_count :: u64
  y_optimization_summary :: optimization_summary
  y_project_key :: "string option"
  y_project_label :: "string option"
  y_project_provenance :: "project_provenance option"

definition summary_of :: "session \<Rightarrow> session_summary" where
  "summary_of s =
     \<lparr>y_id = s_id s,
      y_storage_id = effective_storage_id s,
      y_harness = s_harness s,
      y_thread_name = map_option (take_chars 512) (s_thread_name s),
      y_forked_from_id = s_forked_from_id s,
      y_parent_thread_id = s_parent_thread_id s,
      y_agent_path = s_agent_path s,
      y_agent_nickname = s_agent_nickname s,
      y_file_path = s_file_path s,
      y_source_availability = s_source_availability s,
      y_lifecycle = s_lifecycle s,
      y_archived = s_archived s,
      y_started_at = s_started_at s,
      y_last_event_at = s_last_event_at s,
      y_working_directory = s_working_directory s,
      y_originator = s_originator s,
      y_source = s_source s,
      y_cli_version = s_cli_version s,
      y_model_provider = s_model_provider s,
      y_model = s_model s,
      y_service_tier = s_service_tier s,
      y_plan_type = s_plan_type s,
      y_credits_unlimited = s_credits_unlimited s,
      y_credits_balance = s_credits_balance s,
      y_context_window = s_context_window s,
      y_total_turns = s_total_turns s,
      y_first_user_message = map_option (take_chars 1024) (s_first_user_message s),
      y_tokens_total = s_tokens_total s,
      y_buckets = tier_buckets s,
      y_tool_metrics = s_tool_metrics s,
      y_tool_metrics_by_model = s_tool_metrics_by_model s,
      y_category_totals = s_category_totals s,
      y_optimization_findings_count = word_of_nat (length (s_optimization_findings s)),
      y_optimization_summary = optimization_summary_from_findings (s_optimization_findings s),
      y_project_key = s_project_key s,
      y_project_label = s_project_label s,
      y_project_provenance = s_project_provenance s\<rparr>"

text \<open>\<open>Iterator::max_by_key\<close>: the last of the elements with the greatest key.\<close>

fun max_by_key :: "('a \<Rightarrow> 'k::linorder) \<Rightarrow> 'a list \<Rightarrow> 'a option" where
  "max_by_key key [] = None"
| "max_by_key key (x # xs) = Some (fold (\<lambda>y m. if key m \<le> key y then y else m) xs x)"

record resident_session =
  rd_summary :: session_summary
  rd_newest_rate_limit_point :: "rate_limit_snapshot_point option"
  rd_rate_limits_history_len :: nat

definition resident_of :: "session \<Rightarrow> resident_session" where
  "resident_of s =
     \<lparr>rd_summary = summary_of s,
      rd_newest_rate_limit_point = max_by_key p_timestamp (s_rate_limits_history s),
      rd_rate_limits_history_len = length (s_rate_limits_history s)\<rparr>"

section \<open>Collapsing is run-length encoding\<close>

definition same_point :: "rate_limit_snapshot_point \<Rightarrow> rate_limit_snapshot_point \<Rightarrow> bool" where
  "same_point p q \<longleftrightarrow> same_run p (p_turn_id q) (p_limit_id q) (p_primary q) (p_secondary q)"

definition run_point :: "rate_limit_snapshot_point list \<Rightarrow> rate_limit_snapshot_point" where
  "run_point run =
     (hd run)\<lparr>p_timestamp := p_timestamp (last run),
             p_run_started_at :=
               (if length run = 1 then None else Some (p_timestamp (hd run))),
             p_observation_count := of_nat (length run)\<rparr>"

definition is_run :: "rate_limit_snapshot_point list \<Rightarrow> bool" where
  "is_run run \<longleftrightarrow> run \<noteq> [] \<and> list_all (same_point (hd run)) (tl run)"

definition maximal_runs :: "rate_limit_snapshot_point list list \<Rightarrow> bool" where
  "maximal_runs runs \<longleftrightarrow>
     list_all is_run runs \<and> all_pairs (\<lambda>r r'. \<not> same_point (hd r) (hd r')) runs"

definition record_point ::
    "rate_limit_snapshot_point \<Rightarrow> rate_limit_snapshot_point list \<Rightarrow> rate_limit_snapshot_point list"
  where
  "record_point p history = record_snapshot history (p_timestamp p) (p_turn_id p) (p_limit_id p)
     (p_primary p) (p_secondary p)"

lemma collapse_fold: "collapse raw = fold record_point raw []"
  by (simp add: collapse_def record_point_def[abs_def])

lemma same_point_run_point [simp]: "same_point (run_point run) q = same_point (hd run) q"
  by (simp add: same_point_def same_run_def run_point_def)

lemma all_pairs_snoc:
  "all_pairs r (xs @ [x]) \<longleftrightarrow> all_pairs r xs \<and> (xs = [] \<or> r (last xs) x)"
  by (induction r xs rule: all_pairs.induct) auto

lemma record_point_run:
  assumes "is_run run" and "same_point (hd run) p"
  shows "record_point p (ps @ [run_point run]) = ps @ [run_point (run @ [p])]"
proof -
  from assms(1) obtain q qs where run: "run = q # qs" by (cases run) (auto simp: is_run_def)
  have "same_point (run_point run) p" using assms(2) by simp
  then show ?thesis
    unfolding record_point_def record_snapshot_def same_point_def
    by (auto simp: run extend_run_def run_point_def)
qed

lemma collapse_runs:
  "\<exists>runs. concat runs = raw \<and> maximal_runs runs \<and> fold record_point raw [] = map run_point runs"
proof (induction raw rule: rev_induct)
  case Nil
  show ?case by (intro exI[of _ "[]"]) (simp add: maximal_runs_def)
next
  case (snoc p raw)
  then obtain runs where runs: "concat runs = raw" "maximal_runs runs"
      "fold record_point raw [] = map run_point runs"
    by blast
  show ?case
  proof (cases "runs \<noteq> [] \<and> same_point (hd (last runs)) p")
    case True
    then obtain rs run where rs: "runs = rs @ [run]" by (metis rev_exhaust)
    have run: "is_run run" "same_point (hd run) p"
      using runs True by (auto simp: rs maximal_runs_def)
    then have "is_run (run @ [p])" "hd (run @ [p]) = hd run"
      by (auto simp: is_run_def)
    moreover have "maximal_runs (rs @ [run])" using runs by (simp add: rs)
    ultimately have "maximal_runs (rs @ [run @ [p]])"
      by (simp add: maximal_runs_def all_pairs_snoc)
    then show ?thesis
      using runs record_point_run[OF run, of "map run_point rs"]
      by (intro exI[of _ "rs @ [run @ [p]]"]) (simp add: rs)
  next
    case False
    have "record_point p (map run_point runs) = map run_point (runs @ [[p]])"
    proof -
      have "\<not> (map run_point runs \<noteq> [] \<and> same_point (last (map run_point runs)) p)"
        using False by (cases runs rule: rev_cases) auto
      then show ?thesis
        unfolding record_point_def record_snapshot_def same_point_def
        by (auto simp: run_point_def)
    qed
    moreover have "maximal_runs (runs @ [[p]])"
      using runs False by (auto simp: maximal_runs_def all_pairs_snoc is_run_def)
    ultimately show ?thesis
      using runs by (intro exI[of _ "runs @ [[p]]"]) simp
  qed
qed

section \<open>The two selection paths agree\<close>

lemma partition_point_take:
  "partition_point P (take n xs) = min n (partition_point P xs)"
  unfolding partition_point_def
proof (induction xs arbitrary: n)
  case (Cons x xs)
  then show ?case by (cases n) auto
qed simp

lemma drop_min_take: "drop (min a b) (take b xs) = drop a (take b xs)"
  by (cases "a \<le> b") (auto simp: min_def)

lemma chronological_millis:
  "chronological ts xs \<Longrightarrow> sorted (map (\<lambda>x. timestamp_millis (ts x)) xs)"
  unfolding chronological_def all_pairs_sorted
  by (auto simp: sorted_map timestamp_millis_mono elim: sorted_wrt_mono_rel[rotated])

lemma window_slice_filter:
  assumes "chronological ts xs"
  shows "window_slice ts w xs = filter (\<lambda>x. in_window w (ts x)) xs"
proof -
  let ?g = "\<lambda>x. timestamp_millis (ts x)"
  obtain from' to' where w: "w = (from', to')" by (cases w)
  have sorted: "sorted (map ?g xs)" by (rule chronological_millis[OF assms])
  have low: "drop (partition_point (\<lambda>x. ?g x < f) ys) ys = filter (\<lambda>x. f \<le> ?g x) ys"
    if "sorted (map ?g ys)" for f ys
    using that by (rule drop_partition_filter)
  define ys where "ys = (case to' of None \<Rightarrow> xs | Some u \<Rightarrow>
    filter (\<lambda>x. ?g x \<le> timestamp_millis u) xs)"
  define stop where "stop = (case to' of None \<Rightarrow> length xs
    | Some u \<Rightarrow> partition_point (\<lambda>x. ?g x \<le> timestamp_millis u) xs)"
  have ys: "take stop xs = ys"
    using take_partition_filter[OF sorted] by (auto simp: ys_def stop_def split: option.splits)
  have sys: "sorted (map ?g ys)"
    using sorted by (auto simp: ys_def sorted_filter split: option.splits)
  show ?thesis
  proof (cases from')
    case None
    then show ?thesis
      using ys by (auto simp: w window_slice_def in_window_def stop_def ys_def
          split: option.splits)
  next
    case (Some f)
    let ?P = "\<lambda>x. ?g x < timestamp_millis f"
    have "drop (min (partition_point ?P xs) stop) (take stop xs)
        = drop (partition_point ?P (take stop xs)) (take stop xs)"
      by (simp add: partition_point_take min.commute)
    also have "\<dots> = filter (\<lambda>x. timestamp_millis f \<le> ?g x) ys"
      unfolding ys by (rule low[OF sys])
    finally show ?thesis
      using Some by (auto simp: w window_slice_def in_window_def stop_def ys_def Let_def
          conj_commute split: option.splits)
  qed
qed

lemma select_window_eq:
  "select_window ts (chronological ts xs) w xs = filter (\<lambda>x. in_window w (ts x)) xs"
  by (simp add: select_window_def window_slice_filter)

lemma range_totals_eq: "range_totals s w = range_total s False False w"
  unfolding range_totals_def range_totals_multi_def Let_def range_total_def list.map last.simps
  unfolding select_window_eq by (simp add: select_window_def)

section \<open>Buckets\<close>

definition modelled :: "token_history_point \<Rightarrow> bool" where
  "modelled ev \<longleftrightarrow> h_model ev \<noteq> None"

definition event_key :: "token_history_point \<Rightarrow> string \<times> string option" where
  "event_key ev = (the (h_model ev), h_service_tier ev)"

lemma add_event_fold:
  "fst (fold add_event evs z) = fst z + (\<Sum>ev\<leftarrow>evs. h_delta ev)"
  "bucket_map (snd (fold add_event evs z))
    = fold (\<lambda>ev. hm_entry (event_key ev) 0 (\<lambda>v. v + h_delta ev)) (filter modelled evs)
        (bucket_map (snd z))"
  by (induction evs arbitrary: z)
    (auto simp: add_event_def ac_simps bucket_map_add modelled_def event_key_def
      split: option.splits prod.splits)

lemma bucket_history_map:
  "bucket_map (bucket_history evs)
    = fold (\<lambda>ev. tm_entry (event_key ev) 0 (\<lambda>v. v + h_delta ev)) (filter modelled evs) []"
proof -
  have "fold (\<lambda>ev m.
          case h_model ev of
            None \<Rightarrow> m
          | Some model \<Rightarrow>
              tm_entry (model, h_service_tier ev) default_totals
                (\<lambda>entry. add_totals entry (h_delta ev)) m) evs m
    = fold (\<lambda>ev. tm_entry (event_key ev) 0 (\<lambda>v. v + h_delta ev)) (filter modelled evs) m" for m
    by (induction evs arbitrary: m) (auto simp: modelled_def event_key_def split: option.splits)
  moreover have "bucket_map (map (\<lambda>((model, tier), tokens).
      \<lparr>b_model = model, b_service_tier = tier, b_tokens = tokens\<rparr>) m) = m" for m
    by (induction m) (auto simp: bucket_map_def bucket_pair_def)
  ultimately show ?thesis by (simp add: bucket_history_def)
qed

lemma bucket_map_inj: "bucket_map a = bucket_map b \<Longrightarrow> a = b"
proof -
  have "inj bucket_pair"
    by (rule injI, rule tier_bucket.equality) (simp_all add: bucket_pair_def)
  then show "bucket_map a = bucket_map b \<Longrightarrow> a = b"
    by (simp add: bucket_map_def)
qed

lemma sort_buckets_inv:
  assumes "distinct (map fst (bucket_map bs))"
  shows "tm_inv (bucket_map (sort_buckets bs))"
proof -
  have k: "map fst (bucket_map xs) = map (\<lambda>b. (b_model b, b_service_tier b)) xs" for xs
    by (simp add: bucket_map_def bucket_pair_def comp_def)
  have "mset (map fst (bucket_map (sort_buckets bs))) = mset (map fst (bucket_map bs))"
    by (simp add: bucket_map_def sort_buckets_def)
  with assms have "distinct (map fst (bucket_map (sort_buckets bs)))"
    using mset_eq_imp_distinct_iff by blast
  moreover have "sorted (map fst (bucket_map (sort_buckets bs)))"
    unfolding k sort_buckets_def by simp
  ultimately show ?thesis
    unfolding tm_inv_def strict_sorted_iff by simp
qed

text \<open>The two ways of grouping events, the ordered map and the sorted find-or-push vector,
  produce the same buckets.\<close>

lemma event_buckets_inv: "distinct (map fst (bucket_map (snd (fold add_event evs (0, [])))))"
proof -
  have "hm_inv (bucket_map (snd (fold add_event evs (0, []))))"
    unfolding add_event_fold by (intro hm.fold_invar) (simp add: hm_inv_def bucket_map_def)
  then show ?thesis by (simp add: hm_inv_def)
qed

lemma event_buckets_lookup:
  "map_of (bucket_map (snd (fold add_event evs (0, [])))) k =
    (let sel = filter (\<lambda>ev. modelled ev \<and> event_key ev = k) evs in
     if sel = [] then None else Some (\<Sum>ev\<leftarrow>sel. h_delta ev))"
proof -
  have f: "filter (\<lambda>ev. event_key ev = k) (filter modelled evs)
      = filter (\<lambda>ev. modelled ev \<and> event_key ev = k) evs"
    by (simp add: conj_commute)
  show ?thesis
    unfolding add_event_fold
    by (subst hm.fold_lookup)
      (auto simp: hm_inv_def bucket_map_def fold_plus filter_empty_conv f Let_def
        simp del: filter_filter)
qed

lemma sorted_event_buckets: "sort_buckets (snd (fold add_event evs (0, []))) = bucket_history evs"
proof (rule bucket_map_inj, rule tm_unique)
  let ?b = "snd (fold add_event evs (0, []))"
  show "tm_inv (bucket_map (sort_buckets ?b))"
    by (rule sort_buckets_inv[OF event_buckets_inv])
  show "tm_inv (bucket_map (bucket_history evs))"
    unfolding bucket_history_map by (rule tm.fold_invar) (simp add: tm_inv_def)
  show "map_of (bucket_map (sort_buckets ?b)) = map_of (bucket_map (bucket_history evs))"
  proof
    fix k
    have "map_of (bucket_map ?b) k = map_of (bucket_map (bucket_history evs)) k"
      unfolding add_event_fold bucket_history_map
      by (simp add: hm.fold_lookup tm.fold_lookup hm_inv_def tm_inv_def bucket_map_def)
    then show "map_of (bucket_map (sort_buckets ?b)) k
        = map_of (bucket_map (bucket_history evs)) k"
      by (simp add: sort_buckets_lookup[OF event_buckets_inv])
  qed
qed

text \<open>Tokens in buckets and tokens without a model.\<close>

lemma bucket_sum:
  "(\<Sum>b\<leftarrow>bucket_history evs. b_tokens b) = (\<Sum>ev\<leftarrow>filter modelled evs. h_delta ev)"
proof -
  have "(\<Sum>(_, v)\<leftarrow>fold (\<lambda>ev. tm_entry (event_key ev) 0 (\<lambda>v. v + h_delta ev)) xs m. v)
      = (\<Sum>(_, v)\<leftarrow>m. v) + (\<Sum>ev\<leftarrow>xs. h_delta ev)"
    if "tm_inv m" for xs :: "token_history_point list" and m :: "((string \<times> string option) \<times> token_totals) list"
    using that
  proof (induction xs arbitrary: m)
    case (Cons x xs)
    then show ?case
      using tm.entry_sum[OF Cons.prems, of "\<lambda>v. v" "\<lambda>v. v + h_delta x" "h_delta x" 0]
      by (simp add: tm_entry_inv ac_simps)
  qed simp
  from this[of "[]" "filter modelled evs"]
  have "(\<Sum>(_, v)\<leftarrow>bucket_map (bucket_history evs). v) = (\<Sum>ev\<leftarrow>filter modelled evs. h_delta ev)"
    by (simp add: bucket_history_map tm_inv_def)
  then show ?thesis by (simp add: bucket_map_def bucket_pair_def comp_def)
qed

section \<open>Properties\<close>

lemma range_total_sel:
  fixes s w
  defines "evs \<equiv> filter (\<lambda>ev. in_window w (h_timestamp ev)) (s_tokens_history s)"
    and "obs \<equiv> filter (\<lambda>ob. in_window w (o_timestamp ob)) (s_tool_observations s)"
  shows "r_tokens (range_totals s w) = (\<Sum>ev\<leftarrow>evs. h_delta ev)"
    and "r_buckets (range_totals s w) = bucket_history evs"
    and "r_tool_metrics (range_totals s w) = metrics obs"
    and "r_tool_metrics_by_model (range_totals s w) = snd (metrics_with_models obs)"
    and "r_optimization_findings_count (range_totals s w)
      = word_of_nat (length (filter (finding_selected w) (s_optimization_findings s)))"
  using sorted_event_buckets[of evs] add_event_fold(1)[of evs "(0, [])"]
  unfolding range_totals_eq range_total_def select_window_def evs_def obs_def
  by (auto simp: Let_def split: prod.splits)
    (metis fst_conv fst_metrics_with_models)+

text \<open>C3: The rollup of a window does not depend on the selection path: whether or not the
  token history and the tool observations are chronological, and hence whether the code
  slices between two partition points or tests every element, the result is the rollup of
  exactly the events, observations and findings inside the window, for every window of a
  batch.\<close>

theorem range_paths_agree:
  "range_totals_multi s ranges = map (range_total s False False) ranges"
proof -
  have "range_totals_multi s ranges = map (range_totals s) ranges"
    by (simp add: range_totals_multi_def range_totals_def Let_def)
  then show ?thesis by (simp add: range_totals_eq[abs_def])
qed

text \<open>The rollup of the open window is the session's all-time view: its buckets are
  \<open>tier_buckets\<close>, its tokens the sum of all deltas, its tool metrics those of all observations,
  and it counts every finding.\<close>

theorem open_window_is_session:
  assumes "s_tokens_history s \<noteq> []"
  shows "r_buckets (range_totals s (None, None)) = tier_buckets s
    \<and> r_tokens (range_totals s (None, None)) = (\<Sum>ev\<leftarrow>s_tokens_history s. h_delta ev)
    \<and> r_tool_metrics (range_totals s (None, None)) = metrics (s_tool_observations s)
    \<and> r_optimization_findings_count (range_totals s (None, None))
        = word_of_nat (length (s_optimization_findings s))"
proof -
  have "in_window (None, None) t" for t by (simp add: in_window_def)
  moreover have "finding_selected (None, None) f" for f
    by (simp add: finding_selected_def in_window_def split: option.splits)
  ultimately show ?thesis
    using assms by (simp add: range_total_sel tier_buckets_def)
qed

text \<open>The buckets of a window group exactly its model-attributed usage: one bucket per
  (model, tier) with the sum of the deltas recorded for it, in increasing key order, and the
  buckets together with the unattributed deltas add up to the window's tokens.\<close>

theorem range_buckets_partition:
  fixes s w
  defines "evs \<equiv> filter (\<lambda>ev. in_window w (h_timestamp ev)) (s_tokens_history s)"
    and "r \<equiv> range_totals s w"
  shows "map_of (bucket_map (r_buckets r)) k =
      (let sel = filter (\<lambda>ev. modelled ev \<and> event_key ev = k) evs in
       if sel = [] then None else Some (\<Sum>ev\<leftarrow>sel. h_delta ev))
    \<and> sorted_wrt (<) (map fst (bucket_map (r_buckets r)))
    \<and> (\<Sum>b\<leftarrow>r_buckets r. b_tokens b) + (\<Sum>ev\<leftarrow>filter (\<lambda>ev. h_model ev = None) evs. h_delta ev)
        = r_tokens r"
proof -
  have r: "r_buckets r = sort_buckets (snd (fold add_event evs (0, [])))"
    and t: "r_tokens r = (\<Sum>ev\<leftarrow>evs. h_delta ev)"
    by (simp_all add: r_def evs_def range_total_sel sorted_event_buckets)
  have "(\<Sum>ev\<leftarrow>filter modelled evs. h_delta ev)
      + (\<Sum>ev\<leftarrow>filter (\<lambda>ev. h_model ev = None) evs. h_delta ev) = (\<Sum>ev\<leftarrow>evs. h_delta ev)"
    by (induction evs) (auto simp: modelled_def ac_simps)
  then have "(\<Sum>b\<leftarrow>r_buckets r. b_tokens b)
      + (\<Sum>ev\<leftarrow>filter (\<lambda>ev. h_model ev = None) evs. h_delta ev) = r_tokens r"
    by (simp add: r t sorted_event_buckets bucket_sum)
  moreover have "tm_inv (bucket_map (r_buckets r))"
    unfolding r by (rule sort_buckets_inv[OF event_buckets_inv])
  ultimately show ?thesis
    by (simp add: r sort_buckets_lookup[OF event_buckets_inv] event_buckets_lookup tm_inv_def)
qed

lemma sum_filter_or:
  fixes f :: "'a \<Rightarrow> 'b::comm_monoid_add"
  assumes "\<And>x. \<not> (P x \<and> Q x)"
  shows "(\<Sum>x\<leftarrow>filter (\<lambda>x. P x \<or> Q x) xs. f x)
    = (\<Sum>x\<leftarrow>filter P xs. f x) + (\<Sum>x\<leftarrow>filter Q xs. f x)"
  using assms by (induction xs) (auto simp: ac_simps)

text \<open>Windows compose: splitting a window at a millisecond boundary splits its tokens and
  its tool calls with nothing lost and nothing counted twice.\<close>

theorem range_totals_split:
  assumes boundary: "timestamp_millis m' = timestamp_millis m + 1"
    and low: "timestamp_millis f \<le> timestamp_millis m"
    and high: "timestamp_millis m \<le> timestamp_millis t"
  shows "r_tokens (range_totals s (Some f, Some t))
      = r_tokens (range_totals s (Some f, Some m)) + r_tokens (range_totals s (Some m', Some t))
    \<and> m_calls (r_tool_metrics (range_totals s (Some f, Some t)))
      = m_calls (r_tool_metrics (range_totals s (Some f, Some m)))
        + m_calls (r_tool_metrics (range_totals s (Some m', Some t)))"
proof -
  have split: "in_window (Some f, Some t) x
      \<longleftrightarrow> in_window (Some f, Some m) x \<or> in_window (Some m', Some t) x"
    and disj: "\<not> (in_window (Some f, Some m) x \<and> in_window (Some m', Some t) x)" for x
    using assms by (auto simp: in_window_def)
  have calls: "m_calls (metrics obs) = (\<Sum>ob\<leftarrow>obs. 1)" for obs
    by (simp add: metrics_sel_counters counters_sel) (induction obs, auto)
  show ?thesis
    unfolding range_total_sel calls split
    by (simp add: sum_filter_or[OF disj])
qed

text \<open>C36: Collapsing a raw sequence of rate-limit observations is its run-length encoding: the
  raw sequence is the concatenation of maximal runs of field-identical observations, and the
  collapsed history has one point per run that carries the run's fields, its first and last
  timestamp and its length.\<close>

theorem collapse_is_run_length_encoding:
  "\<exists>runs. concat runs = raw \<and> maximal_runs runs \<and> collapse raw = map run_point runs"
  unfolding collapse_fold by (rule collapse_runs)

lemma max_by_key_fold:
  fixes key :: "'a \<Rightarrow> 'k::linorder"
  shows "m = fold (\<lambda>y m. if key m \<le> key y then y else m) xs x \<Longrightarrow>
    m \<in> set (x # xs) \<and> (\<forall>y\<in>set (x # xs). key y \<le> key m)"
proof (induction xs arbitrary: x)
  case (Cons a xs)
  show ?case
  proof (cases "key x \<le> key a")
    case True
    from Cons.prems True have "m \<in> set (a # xs)" "\<forall>y\<in>set (a # xs). key y \<le> key m"
      using Cons.IH[of a] by auto
    with True show ?thesis using order_trans[OF True, of "key m"] by auto
  next
    case False
    with Cons.prems Cons.IH[of x] show ?thesis by auto
  qed
qed simp

lemma max_by_key_Some:
  "max_by_key key xs = Some m \<Longrightarrow> m \<in> set xs \<and> (\<forall>y\<in>set xs. key y \<le> key m)"
  using max_by_key_fold by (cases xs) fastforce+

text \<open>The resident projection keeps what its consumers need of the snapshot history, its
  newest point by timestamp (even when the history is out of order) and its length, and bounds
  the free text of the summary to 512 and 1024 characters; summarising the bounded texts again
  changes nothing.\<close>

lemma resident_projection:
  "(case rd_newest_rate_limit_point (resident_of s) of
      None \<Rightarrow> s_rate_limits_history s = []
    | Some p \<Rightarrow> p \<in> set (s_rate_limits_history s)
        \<and> list_all (\<lambda>q. p_timestamp q \<le> p_timestamp p) (s_rate_limits_history s))
   \<and> rd_rate_limits_history_len (resident_of s) = length (s_rate_limits_history s)
   \<and> (let y = rd_summary (resident_of s) in
        pred_option (\<lambda>t. char_count t \<le> 512) (y_thread_name y)
        \<and> pred_option (\<lambda>t. char_count t \<le> 1024) (y_first_user_message y)
        \<and> summary_of (s\<lparr>s_thread_name := y_thread_name y,
                          s_first_user_message := y_first_user_message y\<rparr>) = y)"
proof -
  have id: "effective_storage_id (s\<lparr>s_thread_name := a, s_first_user_message := b\<rparr>)
      = effective_storage_id s" for a b
    by (cases "s_parent_thread_id s") (simp_all add: effective_storage_id_def)
  have "summary_of (s\<lparr>s_thread_name := map_option (take_chars 512) (s_thread_name s),
      s_first_user_message := map_option (take_chars 1024) (s_first_user_message s)\<rparr>)
    = summary_of s"
    by (simp add: summary_of_def id tier_buckets_def
        option.map_comp comp_def take_chars_take_chars)
  moreover have "y_thread_name (summary_of s) = map_option (take_chars 512) (s_thread_name s)"
    and "y_first_user_message (summary_of s)
      = map_option (take_chars 1024) (s_first_user_message s)"
    by (simp_all add: summary_of_def)
  ultimately show ?thesis
    using max_by_key_Some[of p_timestamp "s_rate_limits_history s"]
    by (cases "s_rate_limits_history s")
      (auto simp: resident_of_def Let_def list_all_iff option.pred_map comp_def
        pred_option_def char_count_take_chars split: option.splits)
qed

section \<open>Witnesses\<close>

definition sample_history :: "token_history_point list" where
  "sample_history =
     [\<lparr>h_timestamp = 5000000, h_model = Some ''m'', h_service_tier = None,
       h_request_input_tokens = None, h_total_tokens = 105, h_delta = sample_totals\<rparr>,
      \<lparr>h_timestamp = 9000000, h_model = None, h_service_tier = None,
       h_request_input_tokens = None, h_total_tokens = 210, h_delta = sample_totals\<rparr>]"

lemma open_window_is_session_witness:
  "total_tokens (r_tokens (range_totals (sample_session\<lparr>s_tokens_history := sample_history\<rparr>)
     (None, None))) = 210"
  by (simp add: open_window_is_session sample_history_def sample_totals_def)

lemma range_totals_split_witness:
  "r_tokens (range_totals (sample_session\<lparr>s_tokens_history := sample_history\<rparr>)
      (Some 0, Some 10000000))
    = r_tokens (range_totals (sample_session\<lparr>s_tokens_history := sample_history\<rparr>)
        (Some 0, Some 6000000))
      + r_tokens (range_totals (sample_session\<lparr>s_tokens_history := sample_history\<rparr>)
        (Some 7000000, Some 10000000))"
  by (rule range_totals_split[THEN conjunct1]) (simp_all add: timestamp_millis_def)

end
