(* ===== verification/Line_Reader.thy ===== *)
theory Line_Reader
  imports Odo_Json Odo_Containers "HOL-Library.Sublist"
begin

text \<open>
  The loop shared by the three transcript parsers (\<open>parse_to_end\<close> of \<open>parser.rs\<close>,
  \<open>claude_parser.rs\<close> and \<open>gemini_parser.rs\<close>): read complete lines from the saved byte offset,
  skip lines that are not UTF-8 or blank, apply the rest, and remember the offset after the
  last complete line. A file's content is its byte string; \<open>read_until\<close> is the first line feed
  at or after the offset. A parser's state, its offset field and its line handler are
  parameters of the loop; \<open>clock\<close> gives the reading of \<open>Utc::now()\<close> while the line that starts
  at an offset is applied. The locale \<open>line_parser\<close> states what the loop needs of a parser and
  proves, once for all three, that parsing a growing file in pieces gives the state of parsing
  the final file in one pass.
\<close>

section \<open>The loop\<close>

definition newline :: char where "newline = CHR 0x0A"

text \<open>\<open>read_until(b'\n')\<close> when a terminated line remains.\<close>

definition next_line :: "string \<Rightarrow> string option" where
  "next_line rest =
     (if newline \<in> set rest then Some (takeWhile (\<lambda>c. c \<noteq> newline) rest @ [newline]) else None)"

lemma next_line_Some:
  assumes "next_line rest = Some line"
  shows "rest = line @ drop (length line) rest" and "0 < length line"
proof -
  let ?t = "takeWhile (\<lambda>c. c \<noteq> newline) rest" and ?d = "dropWhile (\<lambda>c. c \<noteq> newline) rest"
  from assms have nl: "newline \<in> set rest" and line: "line = ?t @ [newline]"
    by (auto simp: next_line_def split: if_splits)
  from nl have "?d \<noteq> []" by auto
  then have "?d = newline # tl ?d" using hd_dropWhile[of "\<lambda>c. c \<noteq> newline" rest]
    by (cases ?d) auto
  then have "rest = line @ tl ?d"
    by (metis line append.assoc append_Cons append_Nil takeWhile_dropWhile_id)
  then show "rest = line @ drop (length line) rest"
    by (metis append_eq_conv_conj)
  show "0 < length line" by (simp add: line)
qed

lemma next_line_length:
  assumes "next_line (drop off content) = Some line"
  shows "off + length line \<le> length content \<and> 0 < length line"
  using next_line_Some(2)[OF assms] arg_cong[OF next_line_Some(1)[OF assms], of length]
  unfolding length_append length_drop by arith

lemma next_line_decreases:
  "next_line (drop off content) = Some line \<Longrightarrow>
    length content - (off + length line) < length content - off"
  by (drule next_line_length) arith

function read_loop ::
    "(timestamp \<Rightarrow> string \<Rightarrow> 'p \<Rightarrow> 'p \<times> bool) \<Rightarrow> (nat \<Rightarrow> 'p \<Rightarrow> 'p) \<Rightarrow> (nat \<Rightarrow> timestamp) \<Rightarrow> string
      \<Rightarrow> nat \<Rightarrow> 'p \<Rightarrow> bool \<Rightarrow> 'p \<times> bool" where
  "read_loop apply_line set_offset clock content start p updated =
     (case next_line (drop start content) of
        None \<Rightarrow> (p, updated)
      | Some line \<Rightarrow>
          let after = start + length line;
              p = set_offset after p
          in if \<not> utf8_valid line
             then read_loop apply_line set_offset clock content after p updated
             else let trimmed = trim line
                  in if trimmed = []
                     then read_loop apply_line set_offset clock content after p updated
                     else case apply_line (clock start) trimmed p of
                            (p, ok) \<Rightarrow>
                              read_loop apply_line set_offset clock content after p
                                (updated \<or> ok))"
  by pat_completeness auto
termination
  by (relation "measure (\<lambda>(_, _, _, content, start, _). length content - start)")
    (auto dest!: next_line_decreases)

declare read_loop.simps [simp del]

text \<open>\<open>parse_to_end\<close>: reset when the file is shorter than the offset, read, refresh once.\<close>

definition parse_file_to_end ::
    "(timestamp \<Rightarrow> string \<Rightarrow> 'p \<Rightarrow> 'p \<times> bool) \<Rightarrow> ('p \<Rightarrow> nat) \<Rightarrow> (nat \<Rightarrow> 'p \<Rightarrow> 'p) \<Rightarrow> ('p \<Rightarrow> 'p)
      \<Rightarrow> ('p \<Rightarrow> 'p) \<Rightarrow> (nat \<Rightarrow> timestamp) \<Rightarrow> string \<Rightarrow> 'p \<Rightarrow> 'p \<times> bool" where
  "parse_file_to_end apply_line offset set_offset reset refresh clock content p =
     (let p = (if length content < offset p then reset p else p)
      in case read_loop apply_line set_offset clock content (offset p) p False of
           (p, updated) \<Rightarrow> (if updated then refresh p else p, updated))"

section \<open>The lines of a file\<close>

function line_starts :: "nat \<Rightarrow> string \<Rightarrow> (nat \<times> string) list" where
  "line_starts off rest =
     (case next_line rest of
        None \<Rightarrow> []
      | Some line \<Rightarrow> (off, line) # line_starts (off + length line) (drop (length line) rest))"
  by pat_completeness auto
termination
proof (relation "measure (\<lambda>(_, rest). length rest)")
  fix off :: nat and rest line
  assume "next_line rest = Some line"
  from next_line_Some[OF this] show
    "((off + length line, drop (length line) rest), off, rest) \<in> measure (\<lambda>(_, rest). length rest)"
    by (cases rest) auto
qed simp

declare line_starts.simps [simp del]

definition lines_end :: "nat \<Rightarrow> (nat \<times> string) list \<Rightarrow> nat" where
  "lines_end off ls = off + sum_list (map (\<lambda>(_, line). length line) ls)"

lemma lines_end_simps [simp]:
  "lines_end off [] = off"
  "lines_end off ((a, line) # ls) = lines_end (off + length line) ls"
  by (simp_all add: lines_end_def)

lemma next_line_append: "next_line a = Some line \<Longrightarrow> next_line (a @ b) = Some line"
  by (auto simp: next_line_def takeWhile_append1 split: if_splits)

text \<open>Appending to a file adds lines after the ones it already had.\<close>

lemma line_starts_append:
  "line_starts off (a @ b)
    = line_starts off a
      @ line_starts (lines_end off (line_starts off a))
          (drop (lines_end off (line_starts off a) - off) (a @ b))"
proof (induction off a rule: line_starts.induct)
  case (1 off a)
  show ?case
  proof (cases "next_line a")
    case None
    then show ?thesis by (simp add: line_starts.simps[of off a])
  next
    case (Some line)
    note len = next_line_Some[OF Some]
    let ?ls = "line_starts (off + length line) (drop (length line) a)"
    have ge: "off + length line \<le> lines_end (off + length line) ?ls"
      by (simp add: lines_end_def)
    have d: "drop (length line) (a @ b) = drop (length line) a @ b"
      using len(1) by (metis append_eq_append_conv2 append_eq_conv_conj)
    have "line_starts off (a @ b)
        = (off, line) # line_starts (off + length line) (drop (length line) a @ b)"
      by (simp only: line_starts.simps[of off "a @ b"] next_line_append[OF Some] d option.case)
    also have "drop (lines_end (off + length line) ?ls - (off + length line))
        (drop (length line) a @ b) = drop (lines_end (off + length line) ?ls - off) (a @ b)"
      unfolding d[symmetric] drop_drop using ge by (simp add: add.commute)
    then have "line_starts (off + length line) (drop (length line) a @ b)
      = ?ls @ line_starts (lines_end (off + length line) ?ls)
          (drop (lines_end (off + length line) ?ls - off) (a @ b))"
      using 1[OF Some] by simp
    finally show ?thesis
      by (simp add: line_starts.simps[of off a] Some)
  qed
qed

lemma lines_end_le: "lines_end off (line_starts off rest) \<le> off + length rest"
proof (induction off rest rule: line_starts.induct)
  case (1 off rest)
  show ?case
  proof (cases "next_line rest")
    case (Some line)
    from arg_cong[OF next_line_Some(1)[OF Some], of length]
    have "length line \<le> length rest" by simp
    with 1[OF Some] Some show ?thesis by (simp add: line_starts.simps[of off rest])
  qed (simp add: line_starts.simps[of off rest])
qed

definition line_step ::
    "(timestamp \<Rightarrow> string \<Rightarrow> 'p \<Rightarrow> 'p \<times> bool) \<Rightarrow> (nat \<Rightarrow> 'p \<Rightarrow> 'p) \<Rightarrow> (nat \<Rightarrow> timestamp)
      \<Rightarrow> nat \<times> string \<Rightarrow> 'p \<times> bool \<Rightarrow> 'p \<times> bool" where
  "line_step apply_line set_offset clock = (\<lambda>(start, line) (p, updated).
     let p = set_offset (start + length line) p
     in if \<not> utf8_valid line \<or> trim line = [] then (p, updated)
        else map_prod id (\<lambda>ok. updated \<or> ok) (apply_line (clock start) (trim line) p))"

lemma read_loop_fold:
  "read_loop apply_line set_offset clock content start p updated
    = fold (line_step apply_line set_offset clock) (line_starts start (drop start content))
        (p, updated)"
proof (induction apply_line set_offset clock content start p updated rule: read_loop.induct)
  case (1 apply_line set_offset clock content start p updated)
  show ?case
  proof (cases "next_line (drop start content)")
    case None
    then show ?thesis
      by (simp add: read_loop.simps[of _ _ _ content] line_starts.simps[of start])
  next
    case (Some line)
    have ls: "line_starts start (drop start content)
        = (start, line) # line_starts (start + length line) (drop (start + length line) content)"
      by (simp add: line_starts.simps[of start] Some add.commute)
    show ?thesis
      unfolding ls using 1[OF Some refl refl]
      by (subst read_loop.simps)
        (auto simp: Some Let_def line_step_def map_prod_def split: prod.splits)
  qed
qed

section \<open>What the loop needs of a parser\<close>

text \<open>
  \<open>strip\<close> forgets what \<open>refresh\<close> recomputes. The line handler neither reads nor moves the
  offset, does not look at derived fields, and leaves the state alone when it rejects a line.
\<close>

locale line_parser =
  fixes apply_line :: "timestamp \<Rightarrow> string \<Rightarrow> 'p \<Rightarrow> 'p \<times> bool"
    and offset :: "'p \<Rightarrow> nat"
    and set_offset :: "nat \<Rightarrow> 'p \<Rightarrow> 'p"
    and reset :: "'p \<Rightarrow> 'p"
    and refresh :: "'p \<Rightarrow> 'p"
    and strip :: "'p \<Rightarrow> 'p"
  assumes offset_set [simp]: "offset (set_offset n p) = n"
    and set_set [simp]: "set_offset m (set_offset n p) = set_offset m p"
    and set_get [simp]: "set_offset (offset p) p = p"
    and offset_reset [simp]: "offset (reset p) = 0"
    and refresh_offset [simp]: "refresh (set_offset n p) = set_offset n (refresh p)"
    and strip_offset [simp]: "strip (set_offset n p) = set_offset n (strip p)"
    and strip_refresh [simp]: "strip (refresh p) = strip p"
    and refresh_strip [simp]: "refresh (strip p) = refresh p"
    and apply_set: "apply_line now l (set_offset n p)
      = map_prod (set_offset n) id (apply_line now l p)"
    and apply_strip: "map_prod strip id (apply_line now l (strip p))
      = map_prod strip id (apply_line now l p)"
    and apply_rejects: "\<not> snd (apply_line now l p) \<Longrightarrow> fst (apply_line now l p) = p"
begin

abbreviation step :: "(nat \<Rightarrow> timestamp) \<Rightarrow> nat \<times> string \<Rightarrow> 'p \<times> bool \<Rightarrow> 'p \<times> bool" where
  "step clock \<equiv> line_step apply_line set_offset clock"

abbreviation parse :: "(nat \<Rightarrow> timestamp) \<Rightarrow> string \<Rightarrow> 'p \<Rightarrow> 'p \<times> bool" where
  "parse \<equiv> parse_file_to_end apply_line offset set_offset reset refresh"

lemma apply_offset [simp]: "offset (fst (apply_line now l p)) = offset p"
  by (metis apply_set fst_map_prod offset_set set_get)

lemma offset_refresh [simp]: "offset (refresh p) = offset p"
  using refresh_offset[of "offset p" p] by (metis offset_set set_get)

lemma offset_strip [simp]: "offset (strip p) = offset p"
  using strip_offset[of "offset p" p] by (metis offset_set set_get)

lemma strip_apply_cong:
  assumes "strip p = strip q"
  shows "strip (fst (apply_line now l p)) = strip (fst (apply_line now l q))
    \<and> snd (apply_line now l p) = snd (apply_line now l q)"
  using apply_strip[of now l p] apply_strip[of now l q] assms
  by (metis fst_map_prod snd_map_prod id_apply)

lemma step_flag:
  "step clock l (p, u) = (fst (step clock l (p, False)), u \<or> snd (step clock l (p, False)))"
  by (auto simp: line_step_def Let_def map_prod_def split: prod.splits)

lemma steps_flag:
  "fold (step clock) ls (p, u)
    = (fst (fold (step clock) ls (p, False)), u \<or> snd (fold (step clock) ls (p, False)))"
proof (induction ls arbitrary: p u)
  case (Cons l ls)
  have "fold (step clock) ls (q, v)
      = (fst (fold (step clock) ls (q, w)),
         v \<or> snd (fold (step clock) ls (q, False)))" for q v w
    using Cons[of q v] Cons[of q w] by simp
  from this[of "fst (step clock l (p, False))" "u \<or> snd (step clock l (p, False))"
      "snd (step clock l (p, False))"]
    Cons[of "fst (step clock l (p, False))" "snd (step clock l (p, False))"]
  show ?case
    by (simp add: step_flag[of clock l p u])
qed simp

lemma steps_strip:
  assumes "strip p = strip q"
  shows "strip (fst (fold (step clock) ls (p, u))) = strip (fst (fold (step clock) ls (q, u)))
    \<and> snd (fold (step clock) ls (p, u)) = snd (fold (step clock) ls (q, u))"
  using assms
proof (induction ls arbitrary: p q u)
  case (Cons l ls)
  obtain start line where l: "l = (start, line)" by (cases l)
  have c: "strip (fst (apply_line now k (set_offset n p)))
        = strip (fst (apply_line now k (set_offset n q)))
      \<and> snd (apply_line now k (set_offset n p)) = snd (apply_line now k (set_offset n q))"
    for n now k
    by (rule strip_apply_cong) (use Cons.prems in simp)
  obtain p' v q' w where pq: "step clock l (p, u) = (p', v)" "step clock l (q, u) = (q', w)"
    by (metis surj_pair)
  have "strip p' = strip q'" and "v = w"
    using c[of "clock start" "trim line" "start + length line"] Cons.prems pq
    by (auto simp: l line_step_def Let_def map_prod_def split_beta split: if_splits)
  then show ?case
    using Cons.IH[of p' q' v] by (simp add: pq)
qed simp

lemma steps_offset:
  "offset p = off \<Longrightarrow>
    offset (fst (fold (step clock) (line_starts off rest) (p, u)))
      = lines_end off (line_starts off rest)"
proof (induction off rest arbitrary: p u rule: line_starts.induct)
  case (1 off rest)
  show ?case
  proof (cases "next_line rest")
    case (Some line)
    obtain q v where q: "step clock (off, line) (p, u) = (q, v)" by fastforce
    then have "offset q = off + length line"
      by (auto simp: line_step_def Let_def split: if_splits)
        (metis apply_offset fst_conv fst_map_prod id_apply offset_set)
    with 1(1)[OF Some] q Some show ?thesis
      by (simp add: line_starts.simps[of off rest])
  qed (simp add: 1 line_starts.simps[of off rest])
qed

lemma steps_quiet:
  "\<not> snd (fold (step clock) ls (p, u)) \<Longrightarrow>
    \<exists>n. fst (fold (step clock) ls (p, u)) = set_offset n p"
proof (induction ls arbitrary: p u)
  case Nil
  show ?case by (rule exI[of _ "offset p"]) simp
next
  case (Cons l ls)
  obtain start line where l: "l = (start, line)" by (cases l)
  obtain q v where q: "step clock l (p, u) = (q, v)" by fastforce
  have quiet: "\<not> snd (fold (step clock) ls (q, v))" using Cons.prems q by simp
  then have "\<not> v" using steps_flag[of clock ls q v] by (metis snd_conv)
  with q have "q = set_offset (start + length line) p"
    using apply_rejects[of "clock start" "trim line" "set_offset (start + length line) p"]
    by (auto simp: l line_step_def Let_def map_prod_def split: if_splits prod.splits)
  with Cons.IH[OF quiet] q show ?case by auto
qed

lemma refresh_cong: "strip p = strip q \<Longrightarrow> refresh p = refresh q"
  by (metis refresh_strip)

lemma parse_offset:
  assumes "offset p \<le> length content"
  shows "offset (fst (parse clock content p)) \<le> length content"
proof -
  let ?ls = "line_starts (offset p) (drop (offset p) content)"
  have "offset (fst (fold (step clock) ?ls (p, False))) = lines_end (offset p) ?ls"
    by (rule steps_offset) simp
  moreover have "lines_end (offset p) ?ls \<le> length content"
    using lines_end_le[of "offset p" "drop (offset p) content"] assms by simp
  ultimately show ?thesis
    using assms by (auto simp: parse_file_to_end_def Let_def read_loop_fold split: prod.splits)
qed

text \<open>Resuming where a previous pass stopped gives the state of a single pass.\<close>

lemma parse_resume:
  assumes off: "offset p \<le> length a"
  shows "fst (parse clock (a @ b) (fst (parse clock a p))) = fst (parse clock (a @ b) p)"
proof -
  define ls where "ls = line_starts (offset p) (drop (offset p) a)"
  define e where "e = lines_end (offset p) ls"
  define ls' where "ls' = line_starts e (drop e (a @ b))"
  have e: "offset p \<le> e" "e \<le> length a"
    using lines_end_le[of "offset p" "drop (offset p) a"] off
    by (simp_all add: e_def ls_def lines_end_def)
  have "drop (offset p) (a @ b) = drop (offset p) a @ b" using off by simp
  moreover have "drop (e - offset p) (drop (offset p) (a @ b)) = drop e (a @ b)"
    unfolding drop_drop using e by simp
  ultimately have whole: "line_starts (offset p) (drop (offset p) (a @ b)) = ls @ ls'"
    using line_starts_append[of "offset p" "drop (offset p) a" b]
    by (simp add: ls_def e_def ls'_def)
  obtain p1 u1 where p1: "fold (step clock) ls (p, False) = (p1, u1)" by fastforce
  obtain p2 u2 where p2: "fold (step clock) ls' (p1, False) = (p2, u2)" by fastforce
  have p2': "fold (step clock) ls' (p1, u1) = (p2, u1 \<or> u2)"
    using steps_flag[of clock ls' p1 u1] p2 by simp
  define q1 where "q1 = (if u1 then refresh p1 else p1)"
  obtain q2 v2 where q2: "fold (step clock) ls' (q1, False) = (q2, v2)" by fastforce
  have s1: "strip q1 = strip p1" by (simp add: q1_def)
  have s2: "strip q2 = strip p2" and v2: "v2 = u2"
    using steps_strip[OF s1, of clock ls' False] p2 q2 by simp_all
  have o1: "offset p1 = e"
    using steps_offset[OF refl, of clock p "drop (offset p) a" False] p1
    by (simp add: e_def ls_def)
  then have oq1: "offset q1 = e" by (simp add: q1_def)
  have same: "offset q2 = offset p2"
    using steps_offset[OF o1, of clock "drop e (a @ b)" False]
      steps_offset[OF oq1, of clock "drop e (a @ b)" False] p2 q2
    by (simp add: ls'_def)
  have final: "(if u2 then refresh q2 else q2) = (if u1 \<or> u2 then refresh p2 else p2)"
  proof (cases u2)
    case True
    then show ?thesis using refresh_cong[OF s2] by simp
  next
    case False
    then obtain m n where "p2 = set_offset m p1" "q2 = set_offset n q1"
      using steps_quiet[of clock ls' p1 False] steps_quiet[of clock ls' q1 False] p2 q2 v2 by auto
    moreover with same have "m = n" by simp
    ultimately show ?thesis using False by (simp add: q1_def)
  qed
  have first: "fst (parse clock a p) = q1"
    using off p1 by (simp add: parse_file_to_end_def Let_def read_loop_fold ls_def q1_def)
  have second: "fst (parse clock (a @ b) q1) = (if u2 then refresh q2 else q2)"
    using e oq1 q2 v2
    by (simp add: parse_file_to_end_def Let_def read_loop_fold ls'_def)
  have "fst (parse clock (a @ b) p) = (if u1 \<or> u2 then refresh p2 else p2)"
    using off p1 p2'
    by (simp add: parse_file_to_end_def Let_def read_loop_fold whole del: drop_append)
  with first second final show ?thesis by simp
qed

lemma parse_growing:
  assumes "cs \<noteq> []" and "all_pairs prefix cs" and "offset p \<le> length (hd cs)"
  shows "fold (\<lambda>c p. fst (parse clock c p)) cs p = fst (parse clock (last cs) p)"
  using assms
proof (induction cs arbitrary: p rule: induct_list012)
  case (3 a b cs)
  have "prefix a (last (b # cs))"
  proof -
    have "all_pairs prefix (x # xs) \<Longrightarrow> prefix x (last (x # xs))" for x :: string and xs
      by (induction xs arbitrary: x) (auto intro: prefix_order.order_trans)
    from this[of b cs] 3(4) show ?thesis
      unfolding all_pairs.simps by (blast intro: prefix_order.order_trans)
  qed
  then obtain d where d: "last (b # cs) = a @ d" by (auto elim: prefixE)
  have "offset (fst (parse clock a p)) \<le> length b"
    using parse_offset[of p a clock] 3(4,5) by (fastforce dest: prefix_length_le)
  then have "fold (\<lambda>c p. fst (parse clock c p)) (b # cs) (fst (parse clock a p))
      = fst (parse clock (last (b # cs)) (fst (parse clock a p)))"
    using 3(2)[of "fst (parse clock a p)"] 3(4) by simp
  also have "\<dots> = fst (parse clock (last (b # cs)) p)"
    unfolding d by (rule parse_resume) (use 3(5) in simp)
  finally show ?case by simp
qed simp_all

text \<open>An invariant of the line handler holds after a pass.\<close>

lemma parse_invariant:
  assumes "I p" and set_offset: "\<And>n q. I q \<Longrightarrow> I (set_offset n q)"
    and line: "\<And>now l q. I q \<Longrightarrow> I (fst (apply_line now l q))"
    and refresh: "\<And>q. I q \<Longrightarrow> I (refresh q)"
    and reset: "\<And>q. I q \<Longrightarrow> I (reset q)"
  shows "I (fst (parse clock content p))"
proof -
  have step: "I q \<Longrightarrow> I (fst (step clock l (q, u)))" for l q u
    using set_offset line by (auto simp: line_step_def Let_def split: prod.splits)
  have steps: "I q \<Longrightarrow> I (fst (fold (step clock) ls (q, u)))" for ls q u
  proof (induction ls arbitrary: q u)
    case (Cons l ls)
    then show ?case
      using step[of q l u] by (metis fold_simps(2) prod.collapse)
  qed simp
  show ?thesis
    using assms(1) reset[of p] refresh steps
    by (auto simp: parse_file_to_end_def Let_def read_loop_fold split_beta)
qed

text \<open>A file that became shorter is parsed as if by a fresh parser.\<close>

lemma parse_replaced:
  "length content < offset p \<Longrightarrow> parse clock content p = parse clock content (reset p)"
  by (simp add: parse_file_to_end_def)

end

end
