(* ===== verification/Session_Updates.thy ===== *)
theory Session_Updates
  imports Telemetry_Facts Line_Reader
begin

text \<open>
  What the three transcript parsers do to a session: advance its last event, write through
  \<open>turns.iter_mut().find(..)\<close>, overwrite an optional field. Lemmas shared by the parsers:
  updates that commute with forgetting the derived fields (the obligation of \<open>line_parser\<close>),
  turns that only evolve, and sessions that only grow.
\<close>

section \<open>Writes\<close>

definition turn_message_limit :: nat where "turn_message_limit = 500"

definition touch :: "timestamp \<Rightarrow> session \<Rightarrow> session" where
  "touch t s = (if s_last_event_at s < t then s\<lparr>s_last_event_at := t\<rparr> else s)"

definition upd_turn :: "string \<Rightarrow> (turn_info \<Rightarrow> turn_info) \<Rightarrow> session \<Rightarrow> session" where
  "upd_turn tid f s = s\<lparr>s_turns := upd_first (\<lambda>t. t_turn_id t = tid) f (s_turns s)\<rparr>"

text \<open>\<open>if value.is_some() { field = value }\<close>.\<close>

definition set_some :: "'a option \<Rightarrow> 'a option \<Rightarrow> 'a option" where
  "set_some new old = (case new of Some v \<Rightarrow> Some v | None \<Rightarrow> old)"

section \<open>Turn bookkeeping of the Claude and Gemini parsers\<close>

text \<open>A prompt closes the previous turn and opens one.\<close>

definition abandon_turn :: "turn_info \<Rightarrow> turn_info" where
  "abandon_turn t = (if t_status t = InProgress then t\<lparr>t_status := Aborted\<rparr> else t)"

definition open_turn ::
    "string option \<Rightarrow> string \<Rightarrow> timestamp option \<Rightarrow> string \<Rightarrow> session \<Rightarrow> session" where
  "open_turn prev turn_id timestamp truncated s =
     (let s = (case prev of None \<Rightarrow> s | Some prev_id \<Rightarrow> upd_turn prev_id abandon_turn s);
          s = s\<lparr>s_first_user_message :=
                (if s_first_user_message s = None then Some (take_chars 200 truncated)
                 else s_first_user_message s)\<rparr>
      in s\<lparr>s_turns := s_turns s @
             [default_turn\<lparr>t_turn_id := turn_id,
                t_index := word_of_nat (length (s_turns s)) + 1,
                t_started_at := timestamp,
                t_user_message := Some truncated\<rparr>]\<rparr>)"

text \<open>The usage of one message, attributed to the session, its model and the current turn.\<close>

definition add_usage ::
    "token_totals \<Rightarrow> string option \<Rightarrow> string option \<Rightarrow> timestamp option \<Rightarrow> string option
      \<Rightarrow> session \<Rightarrow> session" where
  "add_usage delta model service_tier timestamp turn_id s =
     (let s = s\<lparr>s_tokens_total := add_totals (s_tokens_total s) delta,
                s_latest_context_tokens := Some (input_tokens delta + output_tokens delta),
                s_tokens_by_model :=
                  (case model of
                     None \<Rightarrow> s_tokens_by_model s
                   | Some model \<Rightarrow>
                       hm_entry model default_totals (\<lambda>entry. add_totals entry delta)
                         (s_tokens_by_model s))\<rparr>;
          s = (case timestamp of
                 None \<Rightarrow> s
               | Some ts \<Rightarrow> s\<lparr>s_tokens_history := s_tokens_history s @
                   [\<lparr>h_timestamp = ts, h_model = model, h_service_tier = service_tier,
                     h_request_input_tokens = Some (input_tokens delta),
                     h_total_tokens = total_tokens (s_tokens_total s), h_delta = delta\<rparr>]\<rparr>)
      in case turn_id of
           None \<Rightarrow> s
         | Some tid \<Rightarrow>
             upd_turn tid (\<lambda>t. t\<lparr>t_tokens := add_totals (t_tokens t) delta\<rparr>) s)"

definition settle_turn ::
    "string option \<Rightarrow> string option \<Rightarrow> timestamp option \<Rightarrow> string option \<Rightarrow> turn_info \<Rightarrow> turn_info"
  where
  "settle_turn model service_tier timestamp text t =
     t\<lparr>t_model := set_some model (t_model t),
       t_service_tier := set_some service_tier (t_service_tier t),
       t_status := (if t_status t = InProgress then Completed else t_status t),
       t_completed_at := set_some timestamp (t_completed_at t),
       t_duration_ms :=
         (case (timestamp, t_started_at t) of
            (Some ts, Some started) \<Rightarrow> u64_of_int (num_milliseconds (ts - started))
          | _ \<Rightarrow> t_duration_ms t),
       t_last_agent_message := set_some text (t_last_agent_message t)\<rparr>"

definition settle_current ::
    "string option \<Rightarrow> (turn_info \<Rightarrow> turn_info) \<Rightarrow> session \<Rightarrow> session" where
  "settle_current turn_id f s =
     (case turn_id of
        None \<Rightarrow> s
      | Some tid \<Rightarrow>
          (case find (\<lambda>t. t_turn_id t = tid) (s_turns s) of
             None \<Rightarrow> s
           | Some turn \<Rightarrow>
               (upd_turn tid f s)\<lparr>s_total_turns :=
                  (if t_status turn = InProgress then s_total_turns s + 1
                   else s_total_turns s)\<rparr>))"

section \<open>Updates that ignore derived fields\<close>

definition commutes :: "(session \<Rightarrow> session) \<Rightarrow> bool" where
  "commutes g \<longleftrightarrow> (\<forall>s. g (strip_derived s) = strip_derived (g s))"

definition turn_commutes :: "(turn_info \<Rightarrow> turn_info) \<Rightarrow> bool" where
  "turn_commutes f \<longleftrightarrow> (\<forall>t. f (strip_turn t) = strip_turn (f t))"

named_theorems commuting "session updates that commute with forgetting derived fields"

lemma strip_derived_fields [simp]:
  "s_id (strip_derived s) = s_id s"
  "s_last_event_at (strip_derived s) = s_last_event_at s"
  "s_model (strip_derived s) = s_model s"
  "s_service_tier (strip_derived s) = s_service_tier s"
  "s_context_window (strip_derived s) = s_context_window s"
  "s_latest_context_tokens (strip_derived s) = s_latest_context_tokens s"
  "s_tokens_total (strip_derived s) = s_tokens_total s"
  "s_tokens_by_model (strip_derived s) = s_tokens_by_model s"
  "s_tokens_history (strip_derived s) = s_tokens_history s"
  "s_rate_limits_history (strip_derived s) = s_rate_limits_history s"
  "s_tool_observations (strip_derived s) = s_tool_observations s"
  "s_first_user_message (strip_derived s) = s_first_user_message s"
  "s_total_turns (strip_derived s) = s_total_turns s"
  "s_plan_type (strip_derived s) = s_plan_type s"
  "s_credits_unlimited (strip_derived s) = s_credits_unlimited s"
  "s_credits_balance (strip_derived s) = s_credits_balance s"
  "s_thread_name (strip_derived s) = s_thread_name s"
  "s_forked_from_id (strip_derived s) = s_forked_from_id s"
  "s_parent_thread_id (strip_derived s) = s_parent_thread_id s"
  "s_agent_path (strip_derived s) = s_agent_path s"
  "s_agent_nickname (strip_derived s) = s_agent_nickname s"
  "s_source (strip_derived s) = s_source s"
  "s_history_mode (strip_derived s) = s_history_mode s"
  "s_memory_mode (strip_derived s) = s_memory_mode s"
  "s_working_directory (strip_derived s) = s_working_directory s"
  "s_originator (strip_derived s) = s_originator s"
  "s_cli_version (strip_derived s) = s_cli_version s"
  "s_turns (strip_derived s) = map strip_turn (s_turns s)"
  by (simp_all add: strip_derived_def)

lemma strip_derived_upd [simp]:
  "strip_derived (s\<lparr>s_thread_name := x0\<rparr>) = (strip_derived s)\<lparr>s_thread_name := x0\<rparr>"
  "strip_derived (s\<lparr>s_forked_from_id := x1\<rparr>) = (strip_derived s)\<lparr>s_forked_from_id := x1\<rparr>"
  "strip_derived (s\<lparr>s_parent_thread_id := x2\<rparr>) = (strip_derived s)\<lparr>s_parent_thread_id := x2\<rparr>"
  "strip_derived (s\<lparr>s_agent_path := x3\<rparr>) = (strip_derived s)\<lparr>s_agent_path := x3\<rparr>"
  "strip_derived (s\<lparr>s_agent_nickname := x4\<rparr>) = (strip_derived s)\<lparr>s_agent_nickname := x4\<rparr>"
  "strip_derived (s\<lparr>s_source := x5\<rparr>) = (strip_derived s)\<lparr>s_source := x5\<rparr>"
  "strip_derived (s\<lparr>s_history_mode := x6\<rparr>) = (strip_derived s)\<lparr>s_history_mode := x6\<rparr>"
  "strip_derived (s\<lparr>s_memory_mode := x7\<rparr>) = (strip_derived s)\<lparr>s_memory_mode := x7\<rparr>"
  "strip_derived (s\<lparr>s_last_event_at := x8\<rparr>) = (strip_derived s)\<lparr>s_last_event_at := x8\<rparr>"
  "strip_derived (s\<lparr>s_working_directory := x9\<rparr>) = (strip_derived s)\<lparr>s_working_directory := x9\<rparr>"
  "strip_derived (s\<lparr>s_originator := x10\<rparr>) = (strip_derived s)\<lparr>s_originator := x10\<rparr>"
  "strip_derived (s\<lparr>s_cli_version := x11\<rparr>) = (strip_derived s)\<lparr>s_cli_version := x11\<rparr>"
  "strip_derived (s\<lparr>s_model := x12\<rparr>) = (strip_derived s)\<lparr>s_model := x12\<rparr>"
  "strip_derived (s\<lparr>s_service_tier := x13\<rparr>) = (strip_derived s)\<lparr>s_service_tier := x13\<rparr>"
  "strip_derived (s\<lparr>s_context_window := x14\<rparr>) = (strip_derived s)\<lparr>s_context_window := x14\<rparr>"
  "strip_derived (s\<lparr>s_latest_context_tokens := x15\<rparr>) = (strip_derived s)\<lparr>s_latest_context_tokens := x15\<rparr>"
  "strip_derived (s\<lparr>s_tokens_total := x16\<rparr>) = (strip_derived s)\<lparr>s_tokens_total := x16\<rparr>"
  "strip_derived (s\<lparr>s_tokens_by_model := x17\<rparr>) = (strip_derived s)\<lparr>s_tokens_by_model := x17\<rparr>"
  "strip_derived (s\<lparr>s_tokens_history := x18\<rparr>) = (strip_derived s)\<lparr>s_tokens_history := x18\<rparr>"
  "strip_derived (s\<lparr>s_rate_limits_history := x19\<rparr>) = (strip_derived s)\<lparr>s_rate_limits_history := x19\<rparr>"
  "strip_derived (s\<lparr>s_tool_observations := x20\<rparr>) = (strip_derived s)\<lparr>s_tool_observations := x20\<rparr>"
  "strip_derived (s\<lparr>s_first_user_message := x21\<rparr>) = (strip_derived s)\<lparr>s_first_user_message := x21\<rparr>"
  "strip_derived (s\<lparr>s_total_turns := x22\<rparr>) = (strip_derived s)\<lparr>s_total_turns := x22\<rparr>"
  "strip_derived (s\<lparr>s_plan_type := x23\<rparr>) = (strip_derived s)\<lparr>s_plan_type := x23\<rparr>"
  "strip_derived (s\<lparr>s_credits_unlimited := x24\<rparr>) = (strip_derived s)\<lparr>s_credits_unlimited := x24\<rparr>"
  "strip_derived (s\<lparr>s_credits_balance := x25\<rparr>) = (strip_derived s)\<lparr>s_credits_balance := x25\<rparr>"
  "strip_derived (s\<lparr>s_turns := ts\<rparr>) = (strip_derived s)\<lparr>s_turns := map strip_turn ts\<rparr>"
  by (simp_all add: strip_derived_def)

lemma strip_turn_fields [simp]:
  "t_status (strip_turn t) = t_status t"
  "t_started_at (strip_turn t) = t_started_at t"
  by (simp_all add: strip_turn_def)

lemma strip_turn_idem [simp]: "strip_turn (strip_turn t) = strip_turn t"
  by (simp add: strip_turn_def)

lemma strip_derived_idem [simp]: "strip_derived (strip_derived s) = strip_derived s"
  by (simp add: strip_derived_def comp_def)

lemma commutesD: "commutes g \<Longrightarrow> g (strip_derived s) = strip_derived (g s)"
  by (simp add: commutes_def)

lemma commutes_strip: "commutes g \<Longrightarrow> strip_derived (g s) = g (strip_derived s)"
  by (simp add: commutes_def)

lemma commutes_comp: "commutes f \<Longrightarrow> commutes g \<Longrightarrow> commutes (\<lambda>s. f (g s))"
  by (simp add: commutes_def)

lemma commutes_touch: "commutes (touch t)"
  by (simp add: commutes_def touch_def)

lemma commutes_upd_turn:
  assumes "turn_commutes f"
  shows "commutes (upd_turn tid f)"
proof -
  have "map strip_turn (upd_first (\<lambda>t. t_turn_id t = tid) f ts)
      = upd_first (\<lambda>t. t_turn_id t = tid) f (map strip_turn ts)" for ts
    using assms by (intro map_upd_first_commute) (auto simp: turn_commutes_def)
  then show ?thesis
    by (simp add: commutes_def upd_turn_def)
qed

lemma strip_turn_status: "strip_turn (t\<lparr>t_status := x\<rparr>) = (strip_turn t)\<lparr>t_status := x\<rparr>"
  by (simp add: strip_turn_def)

lemma commutes_observations:
  "commutes (\<lambda>s. s\<lparr>s_tool_observations := g (s_tool_observations s)\<rparr>)"
  by (simp add: commutes_def)

lemma strip_turn_upd [commuting]:
  "strip_turn (t\<lparr>t_model := a\<rparr>) = (strip_turn t)\<lparr>t_model := a\<rparr>"
  "strip_turn (t\<lparr>t_reasoning_effort := b\<rparr>) = (strip_turn t)\<lparr>t_reasoning_effort := b\<rparr>"
  "strip_turn (t\<lparr>t_collaboration_mode := c\<rparr>) = (strip_turn t)\<lparr>t_collaboration_mode := c\<rparr>"
  "strip_turn (t\<lparr>t_service_tier := d\<rparr>) = (strip_turn t)\<lparr>t_service_tier := d\<rparr>"
  "strip_turn (t\<lparr>t_started_at := e\<rparr>) = (strip_turn t)\<lparr>t_started_at := e\<rparr>"
  "strip_turn (t\<lparr>t_completed_at := f\<rparr>) = (strip_turn t)\<lparr>t_completed_at := f\<rparr>"
  "strip_turn (t\<lparr>t_duration_ms := g\<rparr>) = (strip_turn t)\<lparr>t_duration_ms := g\<rparr>"
  "strip_turn (t\<lparr>t_time_to_first_token_ms := h\<rparr>) = (strip_turn t)\<lparr>t_time_to_first_token_ms := h\<rparr>"
  "strip_turn (t\<lparr>t_status := i\<rparr>) = (strip_turn t)\<lparr>t_status := i\<rparr>"
  "strip_turn (t\<lparr>t_abort_reason := j\<rparr>) = (strip_turn t)\<lparr>t_abort_reason := j\<rparr>"
  "strip_turn (t\<lparr>t_user_message := k\<rparr>) = (strip_turn t)\<lparr>t_user_message := k\<rparr>"
  "strip_turn (t\<lparr>t_last_agent_message := l\<rparr>) = (strip_turn t)\<lparr>t_last_agent_message := l\<rparr>"
  "strip_turn (t\<lparr>t_tokens := m\<rparr>) = (strip_turn t)\<lparr>t_tokens := m\<rparr>"
  by (simp_all add: strip_turn_def)

lemma strip_turn_sels [commuting]:
  "t_model (strip_turn t) = t_model t"
  "t_completed_at (strip_turn t) = t_completed_at t"
  "t_duration_ms (strip_turn t) = t_duration_ms t"
  "t_reasoning_effort (strip_turn t) = t_reasoning_effort t"
  "t_collaboration_mode (strip_turn t) = t_collaboration_mode t"
  "t_service_tier (strip_turn t) = t_service_tier t"
  "t_user_message (strip_turn t) = t_user_message t"
  "t_last_agent_message (strip_turn t) = t_last_agent_message t"
  "t_tokens (strip_turn t) = t_tokens t"
  by (simp_all add: strip_turn_def)

section \<open>Turns evolve, sessions grow\<close>

definition text_ok :: "turn_info \<Rightarrow> bool" where
  "text_ok t \<longleftrightarrow>
     pred_option (\<lambda>m. char_count m \<le> turn_message_limit) (t_user_message t)
     \<and> pred_option (\<lambda>m. char_count m \<le> turn_message_limit) (t_last_agent_message t)"

text \<open>A turn may change its content and settle, never its identity or back to in progress.\<close>

definition evolves :: "turn_info \<Rightarrow> turn_info \<Rightarrow> bool" where
  "evolves t t' \<longleftrightarrow>
     t_turn_id t' = t_turn_id t \<and> t_index t' = t_index t
     \<and> (t_status t' = InProgress \<longrightarrow> t_status t = InProgress)
     \<and> (text_ok t \<longrightarrow> text_ok t')"

lemma evolves_refl [simp]: "evolves t t"
  by (simp add: evolves_def)

lemma list_all2_upd_first:
  "(\<And>x. r x (f x)) \<Longrightarrow> (\<And>x. r x x) \<Longrightarrow> list_all2 r xs (upd_first p f xs)"
  by (induction xs) (auto simp: list_all2_refl)

lemma list_all2_evolves_ids:
  "list_all2 evolves ts ts' \<Longrightarrow> map t_turn_id ts' = map t_turn_id ts \<and> map t_index ts' = map t_index ts"
  by (induction rule: list_all2_induct) (auto simp: evolves_def)

definition grows :: "session \<Rightarrow> session \<Rightarrow> bool" where
  "grows s s' \<longleftrightarrow>
     s_id s' = s_id s \<and> s_storage_id s' = s_storage_id s \<and> s_harness s' = s_harness s
     \<and> s_file_path s' = s_file_path s \<and> s_archived s' = s_archived s
     \<and> s_started_at s' = s_started_at s
     \<and> s_last_event_at s \<le> s_last_event_at s'
     \<and> prefix (s_tokens_history s) (s_tokens_history s')
     \<and> prefix (map o_call_id (s_tool_observations s)) (map o_call_id (s_tool_observations s'))
     \<and> prefix (map t_turn_id (s_turns s)) (map t_turn_id (s_turns s'))"

lemma grows_refl [simp]: "grows s s"
  by (simp add: grows_def)

lemma grows_trans: "grows r s \<Longrightarrow> grows s t \<Longrightarrow> grows r t"
  unfolding grows_def by (auto intro: order_trans prefix_order.order_trans)

definition session_grows :: "session option \<Rightarrow> session option \<Rightarrow> bool" where
  "session_grows a b \<longleftrightarrow>
     (case a of None \<Rightarrow> True | Some s \<Rightarrow> (case b of None \<Rightarrow> False | Some s' \<Rightarrow> grows s s'))"

lemma session_grows_refl [simp]: "session_grows a a"
  by (simp add: session_grows_def split: option.splits)

lemma session_grows_trans: "session_grows a b \<Longrightarrow> session_grows b c \<Longrightarrow> session_grows a c"
  by (auto simp: session_grows_def intro: grows_trans split: option.splits)

lemma bounded_text [simp]:
  "pred_option (\<lambda>m. char_count m \<le> n) (map_option (\<lambda>m. take_chars n (g m)) x)"
  "pred_option (\<lambda>m. char_count m \<le> n) (map_option (take_chars n) x)"
  by (cases x; simp add: char_count_take_chars)+

lemma call_ids_observe_call:
  "map o_call_id (observe_call hst obs inp)
    = map o_call_id obs @ (if in_call_id inp = [] then [] else [in_call_id inp])"
  by (simp add: observe_call_def Let_def)

section \<open>Turn bookkeeping\<close>

lemma find_map_commute:
  "(\<And>x. p (h x) = p x) \<Longrightarrow> find p (map h xs) = map_option h (find p xs)"
  by (induction xs) auto

lemma commutes_abandon: "turn_commutes abandon_turn"
  by (simp add: turn_commutes_def abandon_turn_def commuting)

lemma strip_opened_turn:
  "strip_turn (default_turn\<lparr>t_turn_id := a, t_index := b, t_started_at := c, t_user_message := d\<rparr>)
    = default_turn\<lparr>t_turn_id := a, t_index := b, t_started_at := c, t_user_message := d\<rparr>"
  by (simp add: strip_turn_def default_turn_def)

lemma upd_turn_fields [simp]:
  "s_first_user_message (upd_turn tid f s) = s_first_user_message s"
  "length (s_turns (upd_turn tid f s)) = length (s_turns s)"
  "s_total_turns (upd_turn tid f s) = s_total_turns s"
  by (simp_all add: upd_turn_def)

lemma commutes_open_turn: "commutes (open_turn prev tid t msg)"
proof (cases prev)
  case None
  then show ?thesis
    by (simp add: commutes_def open_turn_def Let_def strip_opened_turn)
next
  case (Some i)
  have "map strip_turn (s_turns (upd_turn i abandon_turn s)) = s_turns (upd_turn i abandon_turn (strip_derived s))" for s
    using commutesD[OF commutes_upd_turn[OF commutes_abandon, of i], of s]
    by simp
  with Some show ?thesis
    by (simp add: commutes_def open_turn_def Let_def strip_opened_turn
        commutesD[OF commutes_upd_turn[OF commutes_abandon]])
qed

lemma add_usage_turn:
  "add_usage delta model tier t (Some i) =
    (\<lambda>s. upd_turn i (\<lambda>t. t\<lparr>t_tokens := add_totals (t_tokens t) delta\<rparr>)
      (add_usage delta model tier t None s))"
  by (simp add: add_usage_def Let_def fun_eq_iff)

lemma commutes_add_usage: "commutes (add_usage delta model tier t turn_id)"
proof -
  have turn: "turn_commutes (\<lambda>t. t\<lparr>t_tokens := add_totals (t_tokens t) delta\<rparr>)"
    by (simp add: turn_commutes_def commuting)
  have o: "commutes (add_usage delta model tier t None)"
    by (cases t; cases model) (simp_all add: commutes_def add_usage_def Let_def)
  have "commutes (add_usage delta model tier t (Some i))" for i
    unfolding add_usage_turn commutes_def
    by (simp only: commutesD[OF o] commutesD[OF commutes_upd_turn[OF turn]] simp_thms)
  with o show ?thesis by (cases turn_id) simp_all
qed

lemma commutes_settle_current:
  assumes "turn_commutes f"
  shows "commutes (settle_current turn_id f)"
proof (cases turn_id)
  case (Some i)
  have f: "find (\<lambda>t. t_turn_id t = i) (map strip_turn ts)
      = map_option strip_turn (find (\<lambda>t. t_turn_id t = i) ts)" for ts
    by (rule find_map_commute) simp
  show ?thesis
    unfolding commutes_def
  proof
    fix s
    show "settle_current turn_id f (strip_derived s) = strip_derived (settle_current turn_id f s)"
      using commutesD[OF commutes_upd_turn[OF assms], of i s]
      by (cases "find (\<lambda>t. t_turn_id t = i) (s_turns s)")
        (simp_all add: settle_current_def Some f)
  qed
qed (simp add: commutes_def settle_current_def)

lemma commutes_settle_turn: "turn_commutes (settle_turn model tier t msg)"
  by (simp add: turn_commutes_def settle_turn_def commuting cong: option.case_cong)

section \<open>Sessions stay bounded\<close>

definition session_bounded :: "session \<Rightarrow> bool" where
  "session_bounded s \<longleftrightarrow>
     list_all text_ok (s_turns s)
     \<and> map t_index (s_turns s) = map (\<lambda>i. word_of_nat (Suc i)) [0..<length (s_turns s)]
     \<and> pred_option (\<lambda>m. char_count m \<le> 200) (s_first_user_message s)
     \<and> list_all observation_redacted (s_tool_observations s)"

definition sound :: "(session \<Rightarrow> session) \<Rightarrow> bool" where
  "sound g \<longleftrightarrow> (\<forall>s. grows s (g s) \<and> (session_bounded s \<longrightarrow> session_bounded (g s)))"

lemma soundD: "sound g \<Longrightarrow> grows s (g s)" "sound g \<Longrightarrow> session_bounded s \<Longrightarrow> session_bounded (g s)"
  by (simp_all add: sound_def)

lemma sound_comp:
  assumes f: "sound f" and g: "sound g"
  shows "sound (\<lambda>s. f (g s))"
  unfolding sound_def
  using soundD[OF f] soundD[OF g] grows_trans[OF soundD(1)[OF g] soundD(1)[OF f]] by simp

lemma sound_id: "sound (\<lambda>s. s)"
  by (simp add: sound_def)

lemma sound_touch: "sound (touch t)"
  by (simp add: sound_def touch_def grows_def session_bounded_def)

lemma sound_upd_turn:
  assumes "\<And>t. evolves t (f t)"
  shows "sound (upd_turn tid f)"
proof -
  have e: "list_all2 evolves ts (upd_first (\<lambda>t. t_turn_id t = tid) f ts)" for ts
    by (rule list_all2_upd_first) (simp_all add: assms)
  have t: "list_all text_ok ts \<Longrightarrow> list_all text_ok (upd_first (\<lambda>t. t_turn_id t = tid) f ts)" for ts
    using e[of ts] by (auto simp: list_all2_conv_all_nth list_all_length evolves_def)
  show ?thesis
    using list_all2_evolves_ids[OF e] t
    by (simp add: sound_def upd_turn_def grows_def session_bounded_def)
qed

lemma sound_open_turn:
  assumes "char_count msg \<le> turn_message_limit"
  shows "sound (open_turn prev tid t msg)"
proof -
  have a: "evolves u (abandon_turn u)" for u
    by (simp add: evolves_def abandon_turn_def text_ok_def)
  have o: "sound (\<lambda>s. open_turn None tid t msg s)"
    using assms
    by (simp add: sound_def open_turn_def Let_def grows_def session_bounded_def text_ok_def
        default_turn_def char_count_take_chars)
  have "open_turn (Some i) tid t msg = (\<lambda>s. open_turn None tid t msg (upd_turn i abandon_turn s))" for i
    by (simp add: open_turn_def Let_def fun_eq_iff)
  with o sound_comp[OF o sound_upd_turn[OF a]] show ?thesis
    by (cases prev) simp_all
qed

lemma sound_add_usage: "sound (add_usage delta model tier t turn_id)"
proof -
  have e: "evolves u (u\<lparr>t_tokens := x\<rparr>)" for u x
    by (simp add: evolves_def text_ok_def)
  have o: "sound (add_usage delta model tier t None)"
    by (cases t) (simp_all add: sound_def add_usage_def Let_def grows_def session_bounded_def)
  have "sound (add_usage delta model tier t (Some i))" for i
    unfolding add_usage_turn by (rule sound_comp[OF sound_upd_turn[OF e] o])
  with o show ?thesis
    by (cases turn_id) simp_all
qed

lemma sound_settle_current:
  assumes "\<And>t. evolves t (f t)"
  shows "sound (settle_current turn_id f)"
proof -
  have "sound (\<lambda>s. s\<lparr>s_total_turns := n\<rparr>)" for n
    by (simp add: sound_def grows_def session_bounded_def)
  note s = sound_comp[OF this sound_upd_turn[OF assms]]
  show ?thesis
    unfolding sound_def
  proof
    fix s :: session
    show "grows s (settle_current turn_id f s)
        \<and> (session_bounded s \<longrightarrow> session_bounded (settle_current turn_id f s))"
      using soundD[OF s[of _ "the turn_id"], of s]
      by (auto simp: settle_current_def split: option.splits)
  qed
qed

lemma settle_turn_evolves:
  assumes "pred_option (\<lambda>m. char_count m \<le> turn_message_limit) msg"
  shows "evolves t (settle_turn model tier ts msg t)"
  using assms by (cases msg) (simp_all add: evolves_def settle_turn_def text_ok_def set_some_def)

text \<open>Calls and results keep the redaction and only append call ids.\<close>

definition obs_grow :: "tool_observation list \<Rightarrow> tool_observation list \<Rightarrow> bool" where
  "obs_grow obs obs' \<longleftrightarrow>
     (list_all observation_redacted obs \<longrightarrow> list_all observation_redacted obs')
     \<and> prefix (map o_call_id obs) (map o_call_id obs')"

lemma obs_grow_refl [simp]: "obs_grow obs obs"
  by (simp add: obs_grow_def)

lemma obs_grow_trans: "obs_grow a b \<Longrightarrow> obs_grow b c \<Longrightarrow> obs_grow a c"
  by (auto simp: obs_grow_def intro: prefix_order.order_trans)

lemma obs_grow_fold: "(\<And>x obs. obs_grow obs (f x obs)) \<Longrightarrow> obs_grow obs (fold f xs obs)"
  by (induction xs arbitrary: obs) (auto intro: obs_grow_trans)

lemma obs_grow_call: "obs_grow obs (observe_call hst obs inp)"
  using observe_call_redacted call_ids_observe_call[of hst obs inp]
  by (simp add: obs_grow_def list_all_iff)

lemma obs_grow_result: "obs_grow obs (observe_result obs cid oc du ca n)"
proof -
  have "map o_call_id (observe_result obs cid oc du ca n) = map o_call_id obs"
    by (rule observe_result_map) simp
  moreover have "list_all observation_redacted obs \<Longrightarrow>
      list_all observation_redacted (observe_result obs cid oc du ca n)"
    unfolding observe_result_def list_all_iff by (intro upd_last_ball) (auto simp: result_update_redacted)
  ultimately show ?thesis by (simp add: obs_grow_def)
qed

lemma sound_observations:
  "(\<And>obs. obs_grow obs (g obs)) \<Longrightarrow>
    sound (\<lambda>s. s\<lparr>s_tool_observations := g (s_tool_observations s)\<rparr>)"
  by (simp add: sound_def grows_def session_bounded_def obs_grow_def)

text \<open>Refreshing keeps a session bounded.\<close>

lemma refresh_turns_texts: "list_all2 evolves ts (refresh_turns m ts)"
  by (induction m ts rule: refresh_turns.induct)
    (auto simp: evolves_def refresh_turn_def Let_def text_ok_def)

lemma refresh_session_bounded: "session_bounded s \<Longrightarrow> session_bounded (refresh_session s)"
proof -
  have t: "list_all text_ok ts \<Longrightarrow> list_all text_ok (refresh_turns m ts)" for m ts
    using refresh_turns_texts[of ts m]
    by (auto simp: list_all2_conv_all_nth list_all_length evolves_def)
  have l: "length (refresh_turns m ts) = length ts" for m ts
    using refresh_turns_texts[of ts m] by (simp add: list_all2_lengthD)
  show "session_bounded s \<Longrightarrow> session_bounded (refresh_session s)"
    using t l list_all2_evolves_ids[OF refresh_turns_texts]
    by (simp add: session_bounded_def refresh_session_def Let_def split: prod.splits)
qed

end
