(* ===== verification/Codex_Parser.thy ===== *)
theory Codex_Parser
  imports Range_Totals Session_Updates
begin

text \<open>
  \<open>src-tauri/src/parser.rs\<close>: the incremental parser of Codex rollout files. \<open>SessionParser\<close> is
  the record \<open>codex_parser\<close>; each handler is a function from the payload and the parser to the
  parser. A handler that can fail returns the parser and whether it succeeded. \<open>now\<close> is the
  reading of \<open>Utc::now()\<close> that a line falls back to. Writes through \<open>session.as_mut()\<close> are
  \<open>with_session\<close>; \<open>s.turns[ensure_turn_index(s, id)]\<close> is the first turn with that id, so a
  write to it is \<open>upd_turn\<close>.
\<close>

section \<open>Parsing values\<close>

definition parse_token_totals :: "json \<Rightarrow> token_totals" where
  "parse_token_totals v =
     \<lparr>input_tokens = unwrap_or 0 (get_u64 ''input_tokens'' v),
      cached_input_tokens = unwrap_or 0 (get_u64 ''cached_input_tokens'' v),
      cache_creation_input_tokens = 0,
      output_tokens = unwrap_or 0 (get_u64 ''output_tokens'' v),
      reasoning_output_tokens = unwrap_or 0 (get_u64 ''reasoning_output_tokens'' v),
      total_tokens = unwrap_or 0 (get_u64 ''total_tokens'' v)\<rparr>"

definition sum_bucket_totals :: "(string \<times> token_totals) list \<Rightarrow> token_totals" where
  "sum_bucket_totals buckets = fold (\<lambda>t acc. add_totals acc t) (map snd buckets) default_totals"

definition subtract_totals_saturating :: "token_totals \<Rightarrow> token_totals \<Rightarrow> token_totals" where
  "subtract_totals_saturating a b =
     \<lparr>input_tokens = sat_sub (input_tokens a) (input_tokens b),
      cached_input_tokens = sat_sub (cached_input_tokens a) (cached_input_tokens b),
      cache_creation_input_tokens =
        sat_sub (cache_creation_input_tokens a) (cache_creation_input_tokens b),
      output_tokens = sat_sub (output_tokens a) (output_tokens b),
      reasoning_output_tokens = sat_sub (reasoning_output_tokens a) (reasoning_output_tokens b),
      total_tokens = sat_sub (total_tokens a) (total_tokens b)\<rparr>"

definition totals_any_positive :: "token_totals \<Rightarrow> bool" where
  "totals_any_positive t \<longleftrightarrow>
     input_tokens t > 0 \<or> cached_input_tokens t > 0 \<or> output_tokens t > 0
     \<or> reasoning_output_tokens t > 0 \<or> total_tokens t > 0"

definition parse_rate_limit_reset :: "host \<Rightarrow> json \<Rightarrow> timestamp option" where
  "parse_rate_limit_reset hst v =
     (case as_i64 v of
        Some seconds \<Rightarrow> host_from_epoch hst seconds
      | None \<Rightarrow> Option.bind (as_str v) (host_parse_time hst))"

definition parse_rate_limit_window :: "host \<Rightarrow> json \<Rightarrow> rate_limit_window option" where
  "parse_rate_limit_window hst v =
     (case Option.bind (get_first [''used_percent'', ''used_percentage'', ''usedPercent''] v)
             as_f64 of
        None \<Rightarrow> None
      | Some used_percent \<Rightarrow>
          if \<not> f64_is_finite used_percent then None
          else Some
            \<lparr>w_used_percent = used_percent,
             w_window_minutes =
               Option.bind
                 (get_first [''window_minutes'', ''window_duration_mins'',
                             ''windowDurationMins''] v) as_u64,
             w_resets_at =
               Option.bind (get_first [''resets_at'', ''resetsAt''] v)
                 (parse_rate_limit_reset hst)\<rparr>)"

definition timestamp_field :: "host \<Rightarrow> json \<Rightarrow> string \<Rightarrow> timestamp option" where
  "timestamp_field hst payload key = Option.bind (get_str key payload) (host_parse_time hst)"

definition parse_session_source :: "json \<Rightarrow> string option" where
  "parse_session_source payload =
     (case get ''source'' payload of
        Some (String source) \<Rightarrow> Some source
      | Some (Object source) \<Rightarrow>
          if map_of source ''subagent'' \<noteq> None then Some ''subagent''
          else get_str ''thread_source'' payload
      | _ \<Rightarrow> get_str ''thread_source'' payload)"

definition serialized_len :: "host \<Rightarrow> json \<Rightarrow> u64" where
  "serialized_len hst v =
     (case v of
        Null \<Rightarrow> 0
      | String text \<Rightarrow> word_of_nat (length text)
      | _ \<Rightarrow> unwrap_or 0 (map_option (\<lambda>bytes. word_of_nat (length bytes)) (host_to_string hst v)))"

definition text_failed :: "string \<Rightarrow> bool" where
  "text_failed text \<longleftrightarrow>
     (case Option.bind (find_map (strip_prefix ''Exit code: '') (lines text))
             (\<lambda>code. parse_i32 (trim code)) of
        Some code \<Rightarrow> code \<noteq> 0
      | None \<Rightarrow> False)
     \<or> starts_with ''Error:'' (trim_start text)"

lemma map_of_size: "map_of m k = Some v \<Longrightarrow> size v \<le> size_list (size_prod (\<lambda>x. 0) size) m"
  by (induction m) (auto split: if_splits)

function (sequential) tool_output_failed :: "json \<Rightarrow> bool" where
  "tool_output_failed (String text) = text_failed text"
| "tool_output_failed (Array items) = list_ex tool_output_failed items"
| "tool_output_failed (Object m) =
    (Option.bind (map_of m ''isError'') as_bool = Some True
     \<or> Option.bind (map_of m ''is_error'') as_bool = Some True
     \<or> (case map_of m ''text'' of Some v \<Rightarrow> tool_output_failed v | None \<Rightarrow> False))"
| "tool_output_failed _ = False"
  by pat_completeness auto
termination
  by (relation "measure size")
    (auto simp: less_Suc_eq_le intro: size_list_estimation' dest: map_of_size)

definition fast_skip_timestamp :: "string \<Rightarrow> string option" where
  "fast_skip_timestamp line =
     (if contains ''\"type\":\"function_call'' line \<or> contains ''\"type\":\"custom_tool_call'' line
      then None
      else case strip_prefix ''{\"timestamp\":\"'' line of
        None \<Rightarrow> None
      | Some rest \<Rightarrow>
          case split_at [CHR 0x22] rest of
            None \<Rightarrow> None
          | Some (ts, after_ts) \<Rightarrow>
              if CHR 0x5C \<in> set ts then None
              else case strip_prefix '',\"type\":\"'' after_ts of
                None \<Rightarrow> None
              | Some after_key \<Rightarrow>
                  case split_at [CHR 0x22] after_key of
                    None \<Rightarrow> None
                  | Some (ty, _) \<Rightarrow>
                      if ty = ''response_item'' \<or> ty = ''compacted'' then Some ts else None)"

section \<open>The parser\<close>

record codex_parser =
  cp_session :: "session option"
  cp_byte_offset :: nat
  cp_current_model :: "string option"
  cp_current_service_tier :: "string option"
  cp_current_turn_id :: "string option"
  cp_file_path :: string
  cp_archived :: bool
  cp_seen_tool_ids :: "string set"

definition codex_new :: "string \<Rightarrow> bool \<Rightarrow> codex_parser" where
  "codex_new file_path archived =
     \<lparr>cp_session = None, cp_byte_offset = 0, cp_current_model = None,
      cp_current_service_tier = None, cp_current_turn_id = None, cp_file_path = file_path,
      cp_archived = archived, cp_seen_tool_ids = {}\<rparr>"

definition codex_reset :: "codex_parser \<Rightarrow> codex_parser" where
  "codex_reset p =
     p\<lparr>cp_session := None, cp_byte_offset := 0, cp_current_model := None,
       cp_current_service_tier := None, cp_current_turn_id := None, cp_seen_tool_ids := {}\<rparr>"

definition with_session :: "(session \<Rightarrow> session) \<Rightarrow> codex_parser \<Rightarrow> codex_parser" where
  "with_session f p = p\<lparr>cp_session := map_option f (cp_session p)\<rparr>"

section \<open>Turns\<close>

definition abort_open :: "turn_info \<Rightarrow> turn_info" where
  "abort_open turn = (if t_status turn = InProgress then turn\<lparr>t_status := Aborted\<rparr> else turn)"

definition ensure_turn :: "string \<Rightarrow> session \<Rightarrow> session" where
  "ensure_turn tid s =
     (if \<exists>t\<in>set (s_turns s). t_turn_id t = tid then s
      else s\<lparr>s_turns := map abort_open (s_turns s)
               @ [default_turn\<lparr>t_turn_id := tid,
                               t_index := word_of_nat (length (s_turns s)) + 1\<rparr>]\<rparr>)"

text \<open>Write through the index that \<open>ensure_turn_index\<close> returns.\<close>

definition at_turn :: "string \<Rightarrow> (turn_info \<Rightarrow> turn_info) \<Rightarrow> session \<Rightarrow> session" where
  "at_turn tid f s = upd_turn tid f (ensure_turn tid s)"

fun roll_back :: "nat \<Rightarrow> turn_info list \<Rightarrow> turn_info list" where
  "roll_back n [] = []"
| "roll_back n (t # ts) =
    (if n = 0 then t # ts
     else if t_status t = RolledBack then t # roll_back n ts
     else t\<lparr>t_status := RolledBack\<rparr> # roll_back (n - 1) ts)"

section \<open>Response items\<close>

definition codex_call ::
    "host \<Rightarrow> json \<Rightarrow> string \<Rightarrow> timestamp \<Rightarrow> codex_parser \<Rightarrow> codex_parser" where
  "codex_call hst payload item_type timestamp p =
     (let call_id = unwrap_or [] (get_str ''call_id'' payload) in
      if call_id = [] \<or> call_id \<in> cp_seen_tool_ids p then p
      else
        let p = p\<lparr>cp_seen_tool_ids := insert call_id (cp_seen_tool_ids p)\<rparr>;
            name = unwrap_or ''unknown'' (get_str ''name'' payload);
            arguments =
              (if item_type = ''custom_tool_call'' then unwrap_or Null (get ''input'' payload)
               else unwrap_or Null
                      (Option.bind (get_str ''arguments'' payload) (host_from_str hst)))
        in with_session (\<lambda>s. s\<lparr>s_tool_observations :=
             observe_call hst (s_tool_observations s)
               \<lparr>in_call_id = call_id, in_turn_id = cp_current_turn_id p,
                in_harness = codex_provider_id, in_model = cp_current_model p,
                in_timestamp = timestamp, in_name = name, in_arguments = arguments\<rparr>\<rparr>) p)"

definition codex_call_output :: "host \<Rightarrow> json \<Rightarrow> timestamp \<Rightarrow> codex_parser \<Rightarrow> codex_parser" where
  "codex_call_output hst payload timestamp p =
     (let call_id = unwrap_or [] (get_str ''call_id'' payload);
          output = unwrap_or Null (get ''output'' payload);
          failed = (get_str ''status'' payload = Some ''failed'' \<or> tool_output_failed output)
      in with_session (\<lambda>s. s\<lparr>s_tool_observations :=
           observe_result (s_tool_observations s) call_id
             (if failed then OutFailure else OutSuccess) None (Some timestamp)
             (serialized_len hst output)\<rparr>) p)"

definition handle_response_item ::
    "host \<Rightarrow> json \<Rightarrow> timestamp \<Rightarrow> codex_parser \<Rightarrow> codex_parser" where
  "handle_response_item hst payload timestamp p =
     (let item_type = unwrap_or [] (get_str ''type'' payload) in
      if item_type = ''function_call'' \<or> item_type = ''custom_tool_call''
      then codex_call hst payload item_type timestamp p
      else if item_type = ''function_call_output'' \<or> item_type = ''custom_tool_call_output''
      then codex_call_output hst payload timestamp p
      else p)"

section \<open>Session metadata\<close>

definition refresh_meta :: "json \<Rightarrow> timestamp \<Rightarrow> session \<Rightarrow> session" where
  "refresh_meta payload last_event_at s =
     touch last_event_at
       (s\<lparr>s_thread_name := set_some (get_str ''thread_name'' payload) (s_thread_name s),
          s_cli_version := set_some (get_str ''cli_version'' payload) (s_cli_version s),
          s_forked_from_id := set_some (get_str ''forked_from_id'' payload) (s_forked_from_id s),
          s_parent_thread_id :=
            set_some (get_str ''parent_thread_id'' payload) (s_parent_thread_id s),
          s_agent_path := set_some (get_str ''agent_path'' payload) (s_agent_path s),
          s_agent_nickname := set_some (get_str ''agent_nickname'' payload) (s_agent_nickname s),
          s_source := set_some (parse_session_source payload) (s_source s),
          s_history_mode := set_some (get_str ''history_mode'' payload) (s_history_mode s),
          s_memory_mode := set_some (get_str ''memory_mode'' payload) (s_memory_mode s)\<rparr>)"

definition codex_session ::
    "json \<Rightarrow> string \<Rightarrow> bool \<Rightarrow> timestamp \<Rightarrow> timestamp \<Rightarrow> session" where
  "codex_session payload file_path archived started_at last_event_at =
     (let sid = unwrap_or [] (get_str ''id'' payload) in
      \<lparr>s_id = sid,
       s_storage_id = storage_id_for_session codex_provider_id sid,
       s_harness = codex_provider_id,
       s_thread_name = get_str ''thread_name'' payload,
       s_forked_from_id = get_str ''forked_from_id'' payload,
       s_parent_thread_id = get_str ''parent_thread_id'' payload,
       s_agent_path = get_str ''agent_path'' payload,
       s_agent_nickname = get_str ''agent_nickname'' payload,
       s_file_path = file_path,
       s_source_availability = AvailPresent,
       s_lifecycle = LifePresent,
       s_archived = archived,
       s_started_at = started_at,
       s_last_event_at = last_event_at,
       s_working_directory = get_str ''cwd'' payload,
       s_originator = get_str ''originator'' payload,
       s_source = parse_session_source payload,
       s_subagent_id_is_path_fallback = False,
       s_history_mode = get_str ''history_mode'' payload,
       s_memory_mode = get_str ''memory_mode'' payload,
       s_cli_version = get_str ''cli_version'' payload,
       s_model_provider = get_str ''model_provider'' payload,
       s_model = None, s_service_tier = None, s_plan_type = None, s_credits_unlimited = None,
       s_credits_balance = None, s_context_window = None, s_latest_context_tokens = None,
       s_total_turns = 0, s_first_user_message = None, s_tokens_total = default_totals,
       s_tokens_by_model = [], s_tokens_history = [], s_rate_limits_history = [],
       s_turns = [], s_tool_observations = [], s_tool_metrics = default_metrics,
       s_tool_metrics_by_model = [], s_category_totals = [], s_optimization_findings = [],
       s_project_key = None, s_project_label = None, s_project_provenance = None\<rparr>)"

definition handle_session_meta ::
    "host \<Rightarrow> json \<Rightarrow> timestamp \<Rightarrow> codex_parser \<Rightarrow> codex_parser \<times> bool" where
  "handle_session_meta hst payload last_event_at p =
     (case cp_session p of
        Some s \<Rightarrow> (p\<lparr>cp_session := Some (refresh_meta payload last_event_at s)\<rparr>, True)
      | None \<Rightarrow>
          (case Option.bind (get_str ''timestamp'' payload) (host_parse_time hst) of
             None \<Rightarrow> (p, False)
           | Some started_at \<Rightarrow>
               (p\<lparr>cp_session :=
                    Some (codex_session payload (cp_file_path p) (cp_archived p) started_at
                            last_event_at)\<rparr>, True)))"

section \<open>Turn context and thread settings\<close>

definition mode_field :: "string \<Rightarrow> json \<Rightarrow> string option" where
  "mode_field key payload =
     Option.bind (get key payload) (\<lambda>v. or_else (as_str v) (get_str ''mode'' v))"

definition handle_turn_context :: "json \<Rightarrow> codex_parser \<Rightarrow> codex_parser" where
  "handle_turn_context payload p =
     (let model = get_str ''model'' payload;
          turn_id = get_str ''turn_id'' payload;
          reasoning_effort = get_str ''effort'' payload;
          collaboration_mode = mode_field ''collaboration_mode'' payload;
          p = p\<lparr>cp_current_model := set_some model (cp_current_model p),
                cp_current_turn_id := set_some turn_id (cp_current_turn_id p),
                cp_current_service_tier :=
                  set_some (get_str ''service_tier'' payload) (cp_current_service_tier p)\<rparr>;
          service_tier = cp_current_service_tier p
      in with_session (\<lambda>s.
           let s = s\<lparr>s_model := set_some model (s_model s),
                     s_service_tier := set_some service_tier (s_service_tier s)\<rparr>
           in case turn_id of
                None \<Rightarrow> s
              | Some tid \<Rightarrow>
                  at_turn tid (\<lambda>t. t\<lparr>
                    t_model := set_some model (t_model t),
                    t_reasoning_effort := set_some reasoning_effort (t_reasoning_effort t),
                    t_collaboration_mode := set_some collaboration_mode (t_collaboration_mode t),
                    t_service_tier := set_some service_tier (t_service_tier t)\<rparr>) s) p)"

definition handle_thread_settings :: "json \<Rightarrow> codex_parser \<Rightarrow> codex_parser" where
  "handle_thread_settings payload p =
     (case get ''thread_settings'' payload of
        None \<Rightarrow> p
      | Some settings \<Rightarrow>
          let model = get_str ''model'' settings;
              service_tier = get_str ''service_tier'' settings;
              reasoning_effort = get_str ''reasoning_effort'' settings;
              collaboration_mode = mode_field ''collaboration_mode'' settings;
              p = p\<lparr>cp_current_model := set_some model (cp_current_model p),
                    cp_current_service_tier := service_tier\<rparr>
          in with_session (\<lambda>s.
               let s = s\<lparr>s_model := set_some model (s_model s), s_service_tier := service_tier\<rparr>
               in case cp_current_turn_id p of
                    None \<Rightarrow> s
                  | Some tid \<Rightarrow>
                      at_turn tid (\<lambda>t. t\<lparr>
                        t_service_tier := service_tier,
                        t_reasoning_effort := set_some reasoning_effort (t_reasoning_effort t),
                        t_collaboration_mode :=
                          set_some collaboration_mode (t_collaboration_mode t)\<rparr>) s) p)"

section \<open>Token counts\<close>

definition reconcile ::
    "string option \<Rightarrow> token_totals \<Rightarrow> session \<Rightarrow> session \<times> token_totals" where
  "reconcile model contribution s =
     (case model of
        None \<Rightarrow> (s, contribution)
      | Some model \<Rightarrow>
          let buckets = hm_entry model default_totals (\<lambda>entry. add_totals entry contribution)
                (s_tokens_by_model s);
              remainder = subtract_totals_saturating (s_tokens_total s) (sum_bucket_totals buckets)
          in if totals_any_positive remainder
             then (s\<lparr>s_tokens_by_model :=
                       hm_entry model default_totals (\<lambda>entry. add_totals entry remainder) buckets\<rparr>,
                   add_totals contribution remainder)
             else (s\<lparr>s_tokens_by_model := buckets\<rparr>, contribution))"

definition note_usage ::
    "token_totals option \<Rightarrow> token_totals option \<Rightarrow> u32 option \<Rightarrow> session \<Rightarrow> session" where
  "note_usage total_usage last_usage context_window s =
     s\<lparr>s_tokens_total := unwrap_or (s_tokens_total s) total_usage,
       s_context_window := set_some context_window (s_context_window s),
       s_latest_context_tokens :=
         set_some (map_option (\<lambda>l. input_tokens l + output_tokens l) last_usage)
           (s_latest_context_tokens s)\<rparr>"

definition attribute_usage ::
    "token_totals option \<Rightarrow> token_totals option \<Rightarrow> string option \<Rightarrow> string option
      \<Rightarrow> string option \<Rightarrow> timestamp \<Rightarrow> session \<times> token_totals \<Rightarrow> session" where
  "attribute_usage total_usage last_usage model service_tier turn_id event_ts =
     (\<lambda>(s, contribution).
       let s = (case total_usage of
             None \<Rightarrow> s
           | Some tot \<Rightarrow> s\<lparr>s_tokens_history := s_tokens_history s @
               [\<lparr>h_timestamp = event_ts, h_model = model, h_service_tier = service_tier,
                 h_request_input_tokens = map_option input_tokens last_usage,
                 h_total_tokens = total_tokens tot, h_delta = contribution\<rparr>]\<rparr>)
       in case turn_id of
            None \<Rightarrow> s
          | Some tid \<Rightarrow>
              upd_turn tid (\<lambda>t. t\<lparr>t_tokens := add_totals (t_tokens t) contribution,
                t_service_tier := set_some service_tier (t_service_tier t)\<rparr>) s)"

definition count_tokens ::
    "token_totals option \<Rightarrow> token_totals option \<Rightarrow> u32 option \<Rightarrow> string option \<Rightarrow> string option
      \<Rightarrow> string option \<Rightarrow> timestamp \<Rightarrow> session \<Rightarrow> session" where
  "count_tokens total_usage last_usage context_window model service_tier turn_id event_ts s =
     attribute_usage total_usage last_usage model service_tier turn_id event_ts
       (reconcile model (unwrap_or default_totals last_usage)
         (note_usage total_usage last_usage context_window s))"

definition credits_balance :: "json option \<Rightarrow> f64 option \<Rightarrow> f64 option" where
  "credits_balance reported old =
     (case reported of
        None \<Rightarrow> None
      | Some v \<Rightarrow> if is_null v then None else set_some (as_f64 v) old)"

definition count_rate_limits ::
    "host \<Rightarrow> json \<Rightarrow> string option \<Rightarrow> timestamp \<Rightarrow> session \<Rightarrow> session" where
  "count_rate_limits hst rate_limits turn_id event_ts s =
     (let s = s\<lparr>s_plan_type := set_some (get_str ''plan_type'' rate_limits) (s_plan_type s)\<rparr>;
          s = (case get ''credits'' rate_limits of
                 None \<Rightarrow> s
               | Some credits \<Rightarrow>
                   s\<lparr>s_credits_unlimited :=
                       set_some (get_bool ''unlimited'' credits) (s_credits_unlimited s),
                     s_credits_balance :=
                       credits_balance (get ''balance'' credits) (s_credits_balance s)\<rparr>);
          primary = Option.bind (get ''primary'' rate_limits) (parse_rate_limit_window hst);
          secondary = Option.bind (get ''secondary'' rate_limits) (parse_rate_limit_window hst)
      in if primary \<noteq> None \<or> secondary \<noteq> None
         then s\<lparr>s_rate_limits_history :=
                  record_snapshot (s_rate_limits_history s) event_ts turn_id
                    (get_str ''limit_id'' rate_limits) primary secondary\<rparr>
         else s)"

definition handle_token_count ::
    "host \<Rightarrow> json \<Rightarrow> timestamp \<Rightarrow> codex_parser \<Rightarrow> codex_parser" where
  "handle_token_count hst payload event_ts p =
     (let info = (case get ''info'' payload of
            Some v \<Rightarrow> if is_null v then None else Some v
          | None \<Rightarrow> None);
          total_usage = map_option parse_token_totals (Option.bind info (get ''total_token_usage''));
          last_usage = map_option parse_token_totals (Option.bind info (get ''last_token_usage''));
          context_window = map_option ucast (Option.bind info (get_u64 ''model_context_window''));
          p = with_session (count_tokens total_usage last_usage context_window
                (cp_current_model p) (cp_current_service_tier p) (cp_current_turn_id p) event_ts) p
      in case get ''rate_limits'' payload of
           None \<Rightarrow> p
         | Some rate_limits \<Rightarrow>
             with_session (count_rate_limits hst rate_limits (cp_current_turn_id p) event_ts) p)"

section \<open>Events\<close>

definition task_started :: "host \<Rightarrow> json \<Rightarrow> timestamp \<Rightarrow> codex_parser \<Rightarrow> codex_parser" where
  "task_started hst payload event_ts p =
     (let turn_id = get_str ''turn_id'' payload;
          p = p\<lparr>cp_current_turn_id := set_some turn_id (cp_current_turn_id p)\<rparr>;
          cw = get_u64 ''model_context_window'' payload;
          started_at = unwrap_or event_ts (timestamp_field hst payload ''started_at'');
          collaboration_mode = get_str ''collaboration_mode_kind'' payload
      in with_session (\<lambda>s.
           let s = s\<lparr>s_context_window := set_some (map_option ucast cw) (s_context_window s)\<rparr>
           in case turn_id of
                None \<Rightarrow> s
              | Some tid \<Rightarrow>
                  at_turn tid (\<lambda>t. t\<lparr>
                    t_started_at :=
                      (if t_started_at t = None then Some started_at else t_started_at t),
                    t_collaboration_mode :=
                      set_some collaboration_mode (t_collaboration_mode t)\<rparr>) s) p)"

definition user_message :: "json \<Rightarrow> codex_parser \<Rightarrow> codex_parser" where
  "user_message payload p =
     (let msg = map_option (\<lambda>m. take_chars turn_message_limit (trim_end m))
            (get_str ''message'' payload)
      in with_session (\<lambda>s.
           let s = s\<lparr>s_first_user_message :=
                 (if s_first_user_message s = None then map_option (take_chars 200) msg
                  else s_first_user_message s)\<rparr>
           in case cp_current_turn_id p of
                None \<Rightarrow> s
              | Some tid \<Rightarrow>
                  at_turn tid (\<lambda>t. t\<lparr>t_user_message :=
                    (if t_user_message t = None then msg else t_user_message t)\<rparr>) s) p)"

definition task_complete :: "host \<Rightarrow> json \<Rightarrow> timestamp \<Rightarrow> codex_parser \<Rightarrow> codex_parser" where
  "task_complete hst payload event_ts p =
     (let turn_id = or_else (get_str ''turn_id'' payload) (cp_current_turn_id p);
          duration_ms = get_u64 ''duration_ms'' payload;
          ttft = get_u64 ''time_to_first_token_ms'' payload;
          last_agent = map_option (\<lambda>m. take_chars turn_message_limit (trim m))
            (get_str ''last_agent_message'' payload);
          completed_at = unwrap_or event_ts (timestamp_field hst payload ''completed_at'');
          p = with_session (\<lambda>s.
            let s = s\<lparr>s_total_turns := s_total_turns s + 1\<rparr>
            in case turn_id of
                 None \<Rightarrow> s
               | Some tid \<Rightarrow>
                   at_turn tid (\<lambda>t. t\<lparr>
                     t_completed_at := Some completed_at,
                     t_duration_ms := duration_ms,
                     t_time_to_first_token_ms := ttft,
                     t_status := Completed,
                     t_last_agent_message :=
                       (if t_last_agent_message t = None then last_agent
                        else t_last_agent_message t)\<rparr>) s) p
      in p\<lparr>cp_current_turn_id := None\<rparr>)"

definition turn_aborted :: "host \<Rightarrow> json \<Rightarrow> timestamp \<Rightarrow> codex_parser \<Rightarrow> codex_parser" where
  "turn_aborted hst payload event_ts p =
     (let turn_id = or_else (get_str ''turn_id'' payload) (cp_current_turn_id p);
          completed_at = unwrap_or event_ts (timestamp_field hst payload ''completed_at'');
          duration_ms = get_u64 ''duration_ms'' payload;
          reason = get_str ''reason'' payload;
          p = (case turn_id of
                 None \<Rightarrow> p
               | Some tid \<Rightarrow>
                   with_session (at_turn tid (\<lambda>t. t\<lparr>
                     t_completed_at := Some completed_at,
                     t_duration_ms := duration_ms,
                     t_status := Aborted,
                     t_abort_reason := reason\<rparr>)) p)
      in p\<lparr>cp_current_turn_id := None\<rparr>)"

definition thread_rolled_back :: "json \<Rightarrow> codex_parser \<Rightarrow> codex_parser" where
  "thread_rolled_back payload p =
     (let n = unat (unwrap_or 0 (get_u64 ''num_turns'' payload))
      in with_session (\<lambda>s. s\<lparr>s_turns := rev (roll_back n (rev (s_turns s)))\<rparr>) p)"

definition exec_command_end :: "json \<Rightarrow> timestamp \<Rightarrow> codex_parser \<Rightarrow> codex_parser" where
  "exec_command_end payload event_ts p =
     (let call_id = unwrap_or [] (get_str ''call_id'' payload);
          failed =
            ((case Option.bind (get ''exit_code'' payload) as_i64 of
                Some code \<Rightarrow> code \<noteq> 0 | None \<Rightarrow> False)
             \<or> get_str ''status'' payload = Some ''failed'');
          duration_ms = map_option (\<lambda>duration.
            let secs = unwrap_or 0 (get_u64 ''secs'' duration);
                nanos = unwrap_or 0 (get_u64 ''nanos'' duration)
            in sat_add (sat_mul secs 1000) (nanos div 1000000)) (get ''duration'' payload);
          output_bytes =
            (case get_str ''aggregated_output'' payload of
               Some text \<Rightarrow> word_of_nat (length text)
             | None \<Rightarrow>
                 sum_list (map (\<lambda>text. word_of_nat (length text))
                   (filter_map (\<lambda>key. get_str key payload) [''stdout'', ''stderr''])))
      in with_session (\<lambda>s. s\<lparr>s_tool_observations :=
           observe_result (s_tool_observations s) call_id
             (if failed then OutFailure else OutSuccess) duration_ms (Some event_ts)
             output_bytes\<rparr>) p)"

definition handle_event_msg ::
    "host \<Rightarrow> json \<Rightarrow> timestamp \<Rightarrow> codex_parser \<Rightarrow> codex_parser" where
  "handle_event_msg hst payload event_ts p =
     (let msg_type = unwrap_or [] (get_str ''type'' payload) in
      if msg_type = ''task_started'' then task_started hst payload event_ts p
      else if msg_type = ''user_message'' then user_message payload p
      else if msg_type = ''token_count'' then handle_token_count hst payload event_ts p
      else if msg_type = ''thread_settings_applied'' then handle_thread_settings payload p
      else if msg_type = ''task_complete'' then task_complete hst payload event_ts p
      else if msg_type = ''turn_aborted'' then turn_aborted hst payload event_ts p
      else if msg_type = ''thread_rolled_back'' then thread_rolled_back payload p
      else if msg_type = ''exec_command_end'' then exec_command_end payload event_ts p
      else p)"

section \<open>Lines and files\<close>

definition codex_apply_record ::
    "host \<Rightarrow> json \<Rightarrow> timestamp \<Rightarrow> codex_parser \<Rightarrow> codex_parser \<times> bool" where
  "codex_apply_record hst root last_event_at p =
     (let event_type = unwrap_or [] (get_str ''type'' root);
          payload = unwrap_or Null (get ''payload'' root)
      in if event_type = ''response_item''
         then (handle_response_item hst payload last_event_at p, True)
         else if event_type = ''session_meta'' then handle_session_meta hst payload last_event_at p
         else if event_type = ''turn_context'' then (handle_turn_context payload p, True)
         else if event_type = ''event_msg''
         then (handle_event_msg hst payload last_event_at p, True)
         else (p, True))"

definition codex_apply_slow ::
    "host \<Rightarrow> timestamp \<Rightarrow> string \<Rightarrow> codex_parser \<Rightarrow> codex_parser \<times> bool" where
  "codex_apply_slow hst now line p =
     (case host_from_str hst line of
        None \<Rightarrow> (p, False)
      | Some root \<Rightarrow>
          let last_event_at =
            unwrap_or now (host_parse_time hst (unwrap_or [] (get_str ''timestamp'' root)))
          in codex_apply_record hst root last_event_at (with_session (touch last_event_at) p))"

definition codex_apply_line ::
    "host \<Rightarrow> timestamp \<Rightarrow> string \<Rightarrow> codex_parser \<Rightarrow> codex_parser \<times> bool" where
  "codex_apply_line hst now line p =
     (case fast_skip_timestamp line of
        Some ts \<Rightarrow>
          (with_session (touch (unwrap_or now (host_parse_time hst ts))) p, True)
      | None \<Rightarrow> codex_apply_slow hst now line p)"

definition codex_refresh :: "codex_parser \<Rightarrow> codex_parser" where
  "codex_refresh p = with_session refresh_session p"

text \<open>The public \<open>apply_line\<close>, which refreshes after every line.\<close>

definition codex_apply_and_refresh ::
    "host \<Rightarrow> timestamp \<Rightarrow> string \<Rightarrow> codex_parser \<Rightarrow> codex_parser \<times> bool" where
  "codex_apply_and_refresh hst now line p =
     (case codex_apply_line hst now line p of
        (p, ok) \<Rightarrow> if ok then (codex_refresh p, True) else (p, False))"

definition codex_parse_to_end ::
    "host \<Rightarrow> (nat \<Rightarrow> timestamp) \<Rightarrow> string \<Rightarrow> codex_parser \<Rightarrow> codex_parser \<times> bool" where
  "codex_parse_to_end hst =
     parse_file_to_end (codex_apply_line hst) cp_byte_offset (\<lambda>n p. p\<lparr>cp_byte_offset := n\<rparr>)
       codex_reset codex_refresh"

definition codex_parse_file ::
    "host \<Rightarrow> (nat \<Rightarrow> timestamp) \<Rightarrow> string \<Rightarrow> bool \<Rightarrow> string \<Rightarrow> session option" where
  "codex_parse_file hst clock path archived content =
     cp_session (fst (codex_parse_to_end hst clock content (codex_new path archived)))"

end
