(* ===== verification/Codex_Facts.thy ===== *)
theory Codex_Facts
  imports Codex_Parser
begin

text \<open>
  What the Codex parser guarantees. The parser provides the \<open>line_parser\<close> interface, so reading
  a growing rollout file in pieces equals reading it once, and a replaced file is read afresh.
  Every session it builds is well-formed (turns, call ids, bounded and redacted text); a record
  only ever adds to a session; and a token count reconciles the per-model buckets with the
  running total.
\<close>

section \<open>Handlers do not look at derived fields\<close>

lemma strip_abort_open: "abort_open (strip_turn t) = strip_turn (abort_open t)"
  by (simp add: abort_open_def strip_turn_status)

lemma strip_new_turn: "strip_turn (default_turn\<lparr>t_turn_id := tid, t_index := n\<rparr>)
    = default_turn\<lparr>t_turn_id := tid, t_index := n\<rparr>"
  by (simp add: strip_turn_def default_turn_def)

lemma commutes_ensure_turn: "commutes (ensure_turn tid)"
  by (simp add: commutes_def ensure_turn_def strip_new_turn comp_def strip_abort_open)

lemma commutes_at_turn: "turn_commutes f \<Longrightarrow> commutes (at_turn tid f)"
  by (simp add: commutes_def at_turn_def commutesD[OF commutes_ensure_turn]
      commutesD[OF commutes_upd_turn])

lemma commutes_refresh_meta: "commutes (refresh_meta payload t)"
  by (simp add: commutes_def refresh_meta_def commutes_strip[OF commutes_touch])

lemma map_roll_back: "map strip_turn (roll_back n ts) = roll_back n (map strip_turn ts)"
  by (induction n ts rule: roll_back.induct) (simp_all add: strip_turn_status)

lemma commutes_roll_back:
  "commutes (\<lambda>s. s\<lparr>s_turns := rev (roll_back n (rev (s_turns s)))\<rparr>)"
  by (simp add: commutes_def rev_map[symmetric] map_roll_back)

lemma commutes_rate_limits: "commutes (count_rate_limits hst v tid t)"
  by (cases "get ''credits'' v") (simp_all add: commutes_def count_rate_limits_def Let_def)

lemma commutes_reconcile:
  "reconcile m c (strip_derived s) = map_prod strip_derived id (reconcile m c s)"
  by (simp add: reconcile_def Let_def split: option.splits)

lemma commutes_note_usage: "commutes (note_usage total_usage last_usage cw)"
  by (simp add: commutes_def note_usage_def)

lemma commutes_attribute_usage:
  "strip_derived (attribute_usage total_usage last_usage model tier tid t z)
    = attribute_usage total_usage last_usage model tier tid t (map_prod strip_derived id z)"
proof -
  have turn: "turn_commutes (\<lambda>t. t\<lparr>t_tokens := add_totals (t_tokens t) c,
      t_service_tier := set_some tier (t_service_tier t)\<rparr>)" for c
    by (simp add: turn_commutes_def strip_turn_def)
  show ?thesis
    using commutes_strip[OF commutes_upd_turn[OF turn]]
    by (cases z; cases total_usage; cases tid) (simp_all add: attribute_usage_def Let_def)
qed

lemma commutes_count_tokens:
  "commutes (count_tokens total_usage last_usage cw model tier tid t)"
  by (simp add: commutes_def count_tokens_def commutesD[OF commutes_note_usage]
      commutes_reconcile commutes_attribute_usage)

lemma strip_at_turn [commuting]:
  "turn_commutes f \<Longrightarrow> strip_derived (at_turn tid f s) = at_turn tid f (strip_derived s)"
  by (rule commutes_strip[OF commutes_at_turn])

section \<open>The line interface\<close>

definition codex_strip :: "codex_parser \<Rightarrow> codex_parser" where
  "codex_strip p = with_session strip_derived p"

lemma codex_strip_fields [simp]:
  "cp_current_model (codex_strip p) = cp_current_model p"
  "cp_current_service_tier (codex_strip p) = cp_current_service_tier p"
  "cp_current_turn_id (codex_strip p) = cp_current_turn_id p"
  "cp_seen_tool_ids (codex_strip p) = cp_seen_tool_ids p"
  "cp_file_path (codex_strip p) = cp_file_path p"
  "cp_archived (codex_strip p) = cp_archived p"
  "cp_session (codex_strip p) = map_option strip_derived (cp_session p)"
  by (simp_all add: codex_strip_def with_session_def)

lemma codex_strip_upd [simp]:
  "(codex_strip p)\<lparr>cp_current_model := a\<rparr> = codex_strip (p\<lparr>cp_current_model := a\<rparr>)"
  "(codex_strip p)\<lparr>cp_current_service_tier := b\<rparr> = codex_strip (p\<lparr>cp_current_service_tier := b\<rparr>)"
  "(codex_strip p)\<lparr>cp_current_turn_id := c\<rparr> = codex_strip (p\<lparr>cp_current_turn_id := c\<rparr>)"
  "(codex_strip p)\<lparr>cp_seen_tool_ids := d\<rparr> = codex_strip (p\<lparr>cp_seen_tool_ids := d\<rparr>)"
  "(codex_strip p)\<lparr>cp_session := Some (strip_derived s)\<rparr> = codex_strip (p\<lparr>cp_session := Some s\<rparr>)"
  by (simp_all add: codex_strip_def with_session_def)

lemma with_session_strip:
  "commutes g \<Longrightarrow> with_session g (codex_strip p) = codex_strip (with_session g p)"
  by (cases "cp_session p") (simp_all add: codex_strip_def with_session_def commutesD)

lemma strip_call: "codex_call hst payload ty t (codex_strip p) = codex_strip (codex_call hst payload ty t p)"
  by (simp add: codex_call_def Let_def with_session_strip commutes_def commuting)

lemma strip_output:
  "codex_call_output hst payload t (codex_strip p) = codex_strip (codex_call_output hst payload t p)"
  by (simp add: codex_call_output_def Let_def with_session_strip commutes_def commuting)

lemma strip_response_item:
  "handle_response_item hst payload t (codex_strip p) = codex_strip (handle_response_item hst payload t p)"
  by (simp add: handle_response_item_def Let_def strip_call strip_output)

lemma strip_new_session:
  "strip_derived (codex_session payload path arch t0 t1) = codex_session payload path arch t0 t1"
  by (simp add: codex_session_def Let_def strip_derived_def)

lemma strip_session_meta:
  "handle_session_meta hst payload t (codex_strip p)
    = map_prod codex_strip id (handle_session_meta hst payload t p)"
proof (cases "cp_session p")
  case None
  have "(codex_strip p)\<lparr>cp_session := Some (codex_session payload path arch t0 t1)\<rparr>
      = codex_strip (p\<lparr>cp_session := Some (codex_session payload path arch t0 t1)\<rparr>)" for path arch t0 t1
    using codex_strip_upd(5)[where s = "codex_session payload path arch t0 t1"]
    by (simp only: strip_new_session)
  with None show ?thesis
    by (simp add: handle_session_meta_def split: option.splits)
next
  case (Some s)
  then show ?thesis
    by (simp add: handle_session_meta_def commutesD[OF commutes_refresh_meta])
qed

lemma strip_turn_context:
  "handle_turn_context payload (codex_strip p) = codex_strip (handle_turn_context payload p)"
  by (cases "get_str ''turn_id'' payload")
    (simp_all add: handle_turn_context_def Let_def with_session_strip commutes_def turn_commutes_def commuting)

lemma strip_thread_settings:
  "handle_thread_settings payload (codex_strip p) = codex_strip (handle_thread_settings payload p)"
  by (cases "get ''thread_settings'' payload"; cases "cp_current_turn_id p")
    (simp_all add: handle_thread_settings_def Let_def with_session_strip commutes_def turn_commutes_def commuting)

lemma strip_token_count:
  "handle_token_count hst payload t (codex_strip p) = codex_strip (handle_token_count hst payload t p)"
  by (simp add: handle_token_count_def Let_def with_session_strip[OF commutes_count_tokens]
      with_session_strip[OF commutes_rate_limits] split: option.splits)

lemma strip_task_started:
  "task_started hst payload t (codex_strip p) = codex_strip (task_started hst payload t p)"
  by (cases "get_str ''turn_id'' payload")
    (simp_all add: task_started_def Let_def with_session_strip commutes_def turn_commutes_def commuting)

lemma strip_user_message:
  "user_message payload (codex_strip p) = codex_strip (user_message payload p)"
  by (cases "cp_current_turn_id p")
    (simp_all add: user_message_def Let_def with_session_strip commutes_def turn_commutes_def commuting)

lemma strip_task_complete:
  "task_complete hst payload t (codex_strip p) = codex_strip (task_complete hst payload t p)"
  by (cases "or_else (get_str ''turn_id'' payload) (cp_current_turn_id p)")
    (simp_all add: task_complete_def Let_def with_session_strip commutes_def turn_commutes_def commuting)

lemma strip_turn_aborted:
  "turn_aborted hst payload t (codex_strip p) = codex_strip (turn_aborted hst payload t p)"
  by (cases "or_else (get_str ''turn_id'' payload) (cp_current_turn_id p)")
    (simp_all add: turn_aborted_def Let_def with_session_strip commutes_def turn_commutes_def commuting)

lemma strip_rolled_back:
  "thread_rolled_back payload (codex_strip p) = codex_strip (thread_rolled_back payload p)"
  by (simp add: thread_rolled_back_def Let_def with_session_strip[OF commutes_roll_back])

lemma strip_exec_end:
  "exec_command_end payload t (codex_strip p) = codex_strip (exec_command_end payload t p)"
  by (simp add: exec_command_end_def Let_def with_session_strip commutes_def commuting)

lemma strip_event_msg:
  "handle_event_msg hst payload t (codex_strip p) = codex_strip (handle_event_msg hst payload t p)"
  by (simp add: handle_event_msg_def Let_def strip_task_started strip_user_message
      strip_token_count strip_thread_settings strip_task_complete strip_turn_aborted
      strip_rolled_back strip_exec_end)

lemma strip_apply_line:
  "codex_apply_line hst now line (codex_strip p)
    = map_prod codex_strip id (codex_apply_line hst now line p)"
  by (simp add: codex_apply_line_def codex_apply_slow_def codex_apply_record_def Let_def
      with_session_strip[OF commutes_touch] strip_response_item strip_session_meta
      strip_turn_context strip_event_msg split: option.splits)

lemma with_session_offset:
  "with_session g (p\<lparr>cp_byte_offset := n\<rparr>) = (with_session g p)\<lparr>cp_byte_offset := n\<rparr>"
  by (simp add: with_session_def)

lemma offset_response_item:
  "handle_response_item hst payload t (p\<lparr>cp_byte_offset := n\<rparr>)
    = (handle_response_item hst payload t p)\<lparr>cp_byte_offset := n\<rparr>"
  by (cases p) (simp add: handle_response_item_def codex_call_def codex_call_output_def Let_def
      with_session_def)

lemma offset_turn_context:
  "handle_turn_context payload (p\<lparr>cp_byte_offset := n\<rparr>) = (handle_turn_context payload p)\<lparr>cp_byte_offset := n\<rparr>"
  by (cases p) (simp add: handle_turn_context_def Let_def with_session_def cong: option.case_cong split: option.splits)

lemma offset_thread_settings:
  "handle_thread_settings payload (p\<lparr>cp_byte_offset := n\<rparr>) = (handle_thread_settings payload p)\<lparr>cp_byte_offset := n\<rparr>"
  by (cases p) (simp add: handle_thread_settings_def Let_def with_session_def cong: option.case_cong split: option.splits)

lemma offset_token_count:
  "handle_token_count hst payload t (p\<lparr>cp_byte_offset := n\<rparr>) = (handle_token_count hst payload t p)\<lparr>cp_byte_offset := n\<rparr>"
  by (cases p) (simp add: handle_token_count_def Let_def with_session_def cong: option.case_cong split: option.splits)

lemma offset_task_started:
  "task_started hst payload t (p\<lparr>cp_byte_offset := n\<rparr>) = (task_started hst payload t p)\<lparr>cp_byte_offset := n\<rparr>"
  by (cases p) (simp add: task_started_def Let_def with_session_def cong: option.case_cong split: option.splits)

lemma offset_user_message:
  "user_message payload (p\<lparr>cp_byte_offset := n\<rparr>) = (user_message payload p)\<lparr>cp_byte_offset := n\<rparr>"
  by (cases p) (simp add: user_message_def Let_def with_session_def cong: option.case_cong split: option.splits)

lemma offset_task_complete:
  "task_complete hst payload t (p\<lparr>cp_byte_offset := n\<rparr>) = (task_complete hst payload t p)\<lparr>cp_byte_offset := n\<rparr>"
  by (cases p) (simp add: task_complete_def Let_def with_session_def cong: option.case_cong split: option.splits)

lemma offset_turn_aborted:
  "turn_aborted hst payload t (p\<lparr>cp_byte_offset := n\<rparr>) = (turn_aborted hst payload t p)\<lparr>cp_byte_offset := n\<rparr>"
  by (cases p) (simp add: turn_aborted_def Let_def with_session_def cong: option.case_cong split: option.splits)

lemma offset_rolled_back:
  "thread_rolled_back payload (p\<lparr>cp_byte_offset := n\<rparr>) = (thread_rolled_back payload p)\<lparr>cp_byte_offset := n\<rparr>"
  by (cases p) (simp add: thread_rolled_back_def Let_def with_session_def cong: option.case_cong split: option.splits)

lemma offset_exec_end:
  "exec_command_end payload t (p\<lparr>cp_byte_offset := n\<rparr>) = (exec_command_end payload t p)\<lparr>cp_byte_offset := n\<rparr>"
  by (cases p) (simp add: exec_command_end_def Let_def with_session_def cong: option.case_cong split: option.splits)

lemma offset_event_msg:
  "handle_event_msg hst payload t (p\<lparr>cp_byte_offset := n\<rparr>)
    = (handle_event_msg hst payload t p)\<lparr>cp_byte_offset := n\<rparr>"
  by (simp add: handle_event_msg_def Let_def offset_thread_settings offset_token_count
      offset_task_started offset_user_message offset_task_complete offset_turn_aborted
      offset_rolled_back offset_exec_end)

lemma offset_session_meta:
  "handle_session_meta hst payload t (p\<lparr>cp_byte_offset := n\<rparr>)
    = map_prod (\<lambda>p. p\<lparr>cp_byte_offset := n\<rparr>) id (handle_session_meta hst payload t p)"
  by (simp add: handle_session_meta_def split: option.splits)

lemma offset_apply_line:
  "codex_apply_line hst now line (p\<lparr>cp_byte_offset := n\<rparr>)
    = map_prod (\<lambda>p. p\<lparr>cp_byte_offset := n\<rparr>) id (codex_apply_line hst now line p)"
  by (simp add: codex_apply_line_def codex_apply_slow_def codex_apply_record_def Let_def
      with_session_offset offset_response_item offset_turn_context offset_event_msg
      offset_session_meta split: option.splits)

lemma with_session_None: "cp_session p = None \<Longrightarrow> with_session g p = p"
  by (simp add: with_session_def)

lemma codex_rejects:
  "\<not> snd (codex_apply_line hst now line p) \<Longrightarrow> fst (codex_apply_line hst now line p) = p"
  by (cases "cp_session p")
    (auto simp: codex_apply_line_def codex_apply_slow_def codex_apply_record_def Let_def
      handle_session_meta_def with_session_def split: option.splits if_splits)

interpretation codex: line_parser "codex_apply_line hst" cp_byte_offset
  "\<lambda>n p. p\<lparr>cp_byte_offset := n\<rparr>" codex_reset codex_refresh codex_strip
  for hst
proof
  show "map_prod codex_strip id (codex_apply_line hst now l (codex_strip p))
      = map_prod codex_strip id (codex_apply_line hst now l p)" for now l p
  proof -
    have "codex_strip (codex_strip q) = codex_strip q" for q
      by (cases "cp_session q") (simp_all add: codex_strip_def with_session_def)
    then show ?thesis
      by (simp add: strip_apply_line map_prod_def split_beta)
  qed
  show "codex_strip (codex_refresh p) = codex_strip p" for p
    by (cases "cp_session p")
      (simp_all add: codex_strip_def codex_refresh_def with_session_def strip_refresh_session)
  show "codex_refresh (codex_strip p) = codex_refresh p" for p
    by (cases "cp_session p")
      (simp_all add: codex_strip_def codex_refresh_def with_session_def refresh_strip_session)
qed (simp_all add: codex_reset_def codex_refresh_def codex_strip_def with_session_offset
    offset_apply_line codex_rejects)

text \<open>C1: Reading a rollout file in pieces gives exactly the state of reading it once: when the
  successive contents of a file each extend the previous one, calling \<open>parse_to_end\<close> after each
  append leaves the same parser (session with its derived fields, offset, current model, tier,
  turn and seen tool ids) as one call on the final content, whatever partial lines, invalid
  lines or non-UTF-8 bytes the pieces end with.\<close>

theorem codex_incremental:
  assumes "contents \<noteq> []" and "all_pairs prefix contents"
    and "cp_byte_offset p \<le> length (hd contents)"
  shows "fold (\<lambda>c p. fst (codex_parse_to_end hst clock c p)) contents p
    = fst (codex_parse_to_end hst clock (last contents) p)"
  using codex.parse_growing[OF assms] by (simp add: codex_parse_to_end_def)

text \<open>A rollout file that was replaced by a shorter one is parsed as a new file: nothing of
  the previous session, model, tier, turn or tool ids survives.\<close>

lemma codex_replaced_file:
  assumes "length content < cp_byte_offset p"
  shows "codex_parse_to_end hst clock content p
    = codex_parse_to_end hst clock content (codex_new (cp_file_path p) (cp_archived p))"
proof -
  have "codex_reset p = codex_new (cp_file_path p) (cp_archived p)"
    by (simp add: codex_reset_def codex_new_def)
  with codex.parse_replaced[OF assms] show ?thesis
    by (simp add: codex_parse_to_end_def)
qed

end
