(* ===== verification/Codex_Invariants.thy ===== *)
theory Codex_Invariants
  imports Codex_Facts
begin

text \<open>
  The invariants of the Codex parser. A session is well-formed: distinct turn ids numbered in
  order, no turn but the last in progress, distinct call ids, bounded text and redacted
  observations. A record only adds to a session: the histories, turns and calls it has are a
  prefix of those it has later. A token count makes the per-model buckets cover the running
  total.
\<close>

section \<open>Well-formed sessions\<close>

definition turns_ok :: "turn_info list \<Rightarrow> bool" where
  "turns_ok ts \<longleftrightarrow>
     distinct (map t_turn_id ts)
     \<and> map t_index ts = map (\<lambda>i. word_of_nat (Suc i)) [0..<length ts]
     \<and> list_all (\<lambda>t. t_status t \<noteq> InProgress) (butlast ts)
     \<and> list_all text_ok ts"

definition codex_session_ok :: "session \<Rightarrow> bool" where
  "codex_session_ok s \<longleftrightarrow>
     turns_ok (s_turns s)
     \<and> pred_option (\<lambda>m. char_count m \<le> 200) (s_first_user_message s)
     \<and> list_all observation_redacted (s_tool_observations s)
     \<and> distinct (map o_call_id (s_tool_observations s))"

lemma turns_ok_evolves:
  assumes "list_all2 evolves ts ts'" and "turns_ok ts"
  shows "turns_ok ts'"
proof -
  have len: "length ts' = length ts" using assms(1) by (simp add: list_all2_lengthD)
  have b: "list_all2 evolves (butlast ts) (butlast ts')"
    using list_all2_takeI[OF assms(1), of "length ts - 1"] by (simp add: butlast_conv_take len)
  from b assms(2) have "list_all (\<lambda>t. t_status t \<noteq> InProgress) (butlast ts')"
    by (auto simp: turns_ok_def list_all2_conv_all_nth list_all_length evolves_def)
  moreover from assms have "list_all text_ok ts'"
    by (auto simp: turns_ok_def list_all2_conv_all_nth list_all_length evolves_def)
  ultimately show ?thesis
    using assms(2) list_all2_evolves_ids[OF assms(1)] len by (simp add: turns_ok_def)
qed

lemma roll_back_evolves: "list_all2 evolves ts (roll_back n ts)"
  by (induction n ts rule: roll_back.induct)
    (auto simp: list_all2_refl evolves_def text_ok_def)

section \<open>A session only grows\<close>

text \<open>Updates that keep the call ids, grow the session and keep it well-formed.\<close>

definition good :: "(session \<Rightarrow> session) \<Rightarrow> bool" where
  "good g \<longleftrightarrow> (\<forall>s. grows s (g s) \<and> (codex_session_ok s \<longrightarrow> codex_session_ok (g s))
     \<and> map o_call_id (s_tool_observations (g s)) = map o_call_id (s_tool_observations s))"

lemma goodD:
  assumes "good g"
  shows "grows s (g s)" and "codex_session_ok s \<Longrightarrow> codex_session_ok (g s)"
    and "map o_call_id (s_tool_observations (g s)) = map o_call_id (s_tool_observations s)"
  using assms by (simp_all add: good_def)

lemma good_comp:
  assumes f: "good f" and g: "good g"
  shows "good (\<lambda>s. f (g s))"
  unfolding good_def
  using goodD[OF f] goodD[OF g] grows_trans[OF goodD(1)[OF g] goodD(1)[OF f]] by simp

lemma good_id: "good (\<lambda>s. s)"
  by (simp add: good_def)

lemma good_touch: "good (touch t)"
  by (simp add: good_def touch_def grows_def codex_session_ok_def)

lemma good_turns:
  assumes "\<And>ts. list_all2 evolves ts (g ts)"
  shows "good (\<lambda>s. s\<lparr>s_turns := g (s_turns s)\<rparr>)"
  using turns_ok_evolves[OF assms] list_all2_evolves_ids[OF assms]
  by (simp add: good_def grows_def codex_session_ok_def)

lemma good_upd_turn: "(\<And>t. evolves t (f t)) \<Longrightarrow> good (upd_turn tid f)"
  unfolding upd_turn_def by (rule good_turns) (simp add: list_all2_upd_first)

lemma good_ensure_turn: "good (ensure_turn tid)"
proof -
  have new: "turns_ok (map abort_open ts
      @ [default_turn\<lparr>t_turn_id := tid, t_index := word_of_nat (length ts) + 1\<rparr>])"
    if ok: "turns_ok ts" and fresh: "\<forall>t\<in>set ts. t_turn_id t \<noteq> tid" for ts
  proof -
    have "list_all2 evolves ts (map abort_open ts)"
      by (auto simp: list_all2_conv_all_nth abort_open_def evolves_def text_ok_def)
    from turns_ok_evolves[OF this ok] list_all2_evolves_ids[OF this] show ?thesis
      using fresh
      by (auto simp: turns_ok_def default_turn_def text_ok_def list_all_iff abort_open_def)
  qed
  have ids: "t_turn_id \<circ> abort_open = t_turn_id"
    by (rule ext) (simp add: abort_open_def)
  show ?thesis
    using new ids by (simp add: good_def ensure_turn_def grows_def codex_session_ok_def)
qed

lemma good_at_turn: "(\<And>t. evolves t (f t)) \<Longrightarrow> good (at_turn tid f)"
  unfolding at_turn_def[abs_def] by (rule good_comp[OF good_upd_turn good_ensure_turn])

lemma good_on_turn:
  "good g \<Longrightarrow> (\<And>t. evolves t (f t)) \<Longrightarrow>
    good (\<lambda>s. case v of None \<Rightarrow> g s | Some tid \<Rightarrow> at_turn tid f (g s))"
  by (cases v) (simp_all add: good_comp[OF good_at_turn])

lemma good_result:
  "good (\<lambda>s. s\<lparr>s_tool_observations :=
     observe_result (s_tool_observations s) cid oc du ca n\<rparr>)"
proof -
  have "map o_call_id (observe_result obs cid oc du ca n) = map o_call_id obs" for obs
    by (rule observe_result_map) simp
  moreover have "list_all observation_redacted obs \<Longrightarrow>
      list_all observation_redacted (observe_result obs cid oc du ca n)" for obs
    unfolding observe_result_def list_all_iff by (intro upd_last_ball) (auto simp: result_update_redacted)
  ultimately show ?thesis
    by (simp add: good_def grows_def codex_session_ok_def)
qed

lemma good_roll_back: "good (\<lambda>s. s\<lparr>s_turns := rev (roll_back n (rev (s_turns s)))\<rparr>)"
proof (rule good_turns)
  show "list_all2 evolves ts (rev (roll_back n (rev ts)))" for ts
    using roll_back_evolves[of "rev ts" n] by (metis list_all2_rev rev_rev_ident)
qed

lemma good_refresh_meta: "good (refresh_meta payload t)"
  unfolding refresh_meta_def[abs_def]
  by (rule good_comp[OF good_touch]) (simp add: good_def grows_def codex_session_ok_def)

lemma good_rate_limits: "good (count_rate_limits hst v tid t)"
  by (simp add: good_def count_rate_limits_def Let_def grows_def codex_session_ok_def
      split: option.splits)

lemma good_attribute: 
  "good (\<lambda>s. attribute_usage total_usage last_usage model tier tid t (s, c))"
proof -
  have "good (\<lambda>s. s\<lparr>s_tokens_history := s_tokens_history s @ ps\<rparr>)" for ps
    by (simp add: good_def grows_def codex_session_ok_def)
  moreover have "evolves t (t\<lparr>t_tokens := x, t_service_tier := y\<rparr>)" for t x y
    by (simp add: evolves_def text_ok_def)
  ultimately show ?thesis
    by (cases total_usage; cases tid)
      (auto simp: attribute_usage_def Let_def good_id intro!: good_upd_turn good_comp[OF good_upd_turn])
qed

lemma good_reconcile: "good (\<lambda>s. fst (reconcile m c s))"
  by (simp add: reconcile_def Let_def good_def grows_def codex_session_ok_def
      split: option.splits)

lemma good_count_tokens: "good (count_tokens total_usage last_usage cw model tier tid t)"
proof -
  have note_good: "good (note_usage total_usage last_usage cw)"
    by (simp add: note_usage_def good_def grows_def codex_session_ok_def)
  show ?thesis
    unfolding good_def
  proof
    fix s
    let ?n = "note_usage total_usage last_usage cw s"
    obtain r c where r: "reconcile model (unwrap_or default_totals last_usage) ?n = (r, c)"
      by fastforce
    have e: "count_tokens total_usage last_usage cw model tier tid t s
        = attribute_usage total_usage last_usage model tier tid t (r, c)"
      by (simp only: count_tokens_def r)
    have "r = fst (reconcile model (unwrap_or default_totals last_usage) ?n)"
      by (simp only: r fst_conv)
    then have nr: "good (\<lambda>s. fst (reconcile model (unwrap_or default_totals last_usage)
        (note_usage total_usage last_usage cw s)))"
      by (intro good_comp[OF good_reconcile note_good])
    have "good (\<lambda>s. attribute_usage total_usage last_usage model tier tid t
        (fst (reconcile model (unwrap_or default_totals last_usage)
          (note_usage total_usage last_usage cw s)), c))"
      by (rule good_comp[OF good_attribute nr])
    from goodD[OF this, of s] show "grows s (count_tokens total_usage last_usage cw model tier tid t s)
        \<and> (codex_session_ok s \<longrightarrow>
            codex_session_ok (count_tokens total_usage last_usage cw model tier tid t s))
        \<and> map o_call_id (s_tool_observations (count_tokens total_usage last_usage cw model tier tid t s))
          = map o_call_id (s_tool_observations s)"
      unfolding e r fst_conv by simp
  qed
qed

section \<open>The parser's transitions\<close>

definition parser_ok :: "codex_parser \<Rightarrow> bool" where
  "parser_ok p \<longleftrightarrow>
     (case cp_session p of
        None \<Rightarrow> True
      | Some s \<Rightarrow> codex_session_ok s
          \<and> set (map o_call_id (s_tool_observations s)) \<subseteq> cp_seen_tool_ids p)"

definition advances :: "codex_parser \<Rightarrow> codex_parser \<Rightarrow> bool" where
  "advances p p' \<longleftrightarrow>
     (parser_ok p \<longrightarrow> parser_ok p') \<and> session_grows (cp_session p) (cp_session p')"

lemma advances_trans: "advances p q \<Longrightarrow> advances q r \<Longrightarrow> advances p r"
  by (auto simp: advances_def intro: session_grows_trans)

lemma advances_fields:
  "cp_session q = cp_session p \<Longrightarrow> cp_seen_tool_ids p \<subseteq> cp_seen_tool_ids q \<Longrightarrow> advances p q"
  by (auto simp: advances_def parser_ok_def split: option.splits)

lemma advances_refl [simp]: "advances p p"
  by (rule advances_fields) simp_all

lemma advances_with_session: "good g \<Longrightarrow> advances p (with_session g p)"
  by (cases "cp_session p")
    (simp_all add: advances_def parser_ok_def session_grows_def with_session_def goodD
      del: set_map set_map flip: set_map)

lemma advances_then:
  assumes "advances p q" and "good g"
  shows "advances p (with_session g q)"
  by (rule advances_trans[OF assms(1) advances_with_session[OF assms(2)]])

lemma advances_call: "advances p (codex_call hst payload ty t p)"
proof (cases "cp_session p")
  case None
  then show ?thesis
    by (auto simp: codex_call_def Let_def with_session_def intro: advances_fields)
next
  case (Some s)
  let ?cid = "unwrap_or [] (get_str ''call_id'' payload)"
  show ?thesis
  proof (cases "?cid = [] \<or> ?cid \<in> cp_seen_tool_ids p")
    case False
    define inp where "inp = \<lparr>in_call_id = ?cid, in_turn_id = cp_current_turn_id p,
        in_harness = codex_provider_id, in_model = cp_current_model p, in_timestamp = t,
        in_name = unwrap_or ''unknown'' (get_str ''name'' payload),
        in_arguments =
          (if ty = ''custom_tool_call'' then unwrap_or Null (get ''input'' payload)
           else unwrap_or Null
             (Option.bind (get_str ''arguments'' payload) (host_from_str hst)))\<rparr>"
    then have inp: "in_call_id inp = ?cid" by simp
    have e: "codex_call hst payload ty t p =
        p\<lparr>cp_seen_tool_ids := insert ?cid (cp_seen_tool_ids p),
          cp_session := Some (s\<lparr>s_tool_observations :=
            observe_call hst (s_tool_observations s) inp\<rparr>)\<rparr>"
      using False Some
      by (simp add: codex_call_def Let_def with_session_def inp_def)
    have red: "list_all observation_redacted obs \<Longrightarrow>
        list_all observation_redacted (observe_call hst obs inp)" for obs
      using observe_call_redacted by (simp add: list_all_iff)
    show ?thesis
      using False Some red[of "s_tool_observations s"] call_ids_observe_call[of hst "s_tool_observations s" inp]
      unfolding e
      by (auto simp: advances_def parser_ok_def session_grows_def grows_def codex_session_ok_def inp
          simp del: set_map simp flip: set_map)
  qed (auto simp: codex_call_def Let_def)
qed

lemma advances_response_item: "advances p (handle_response_item hst payload t p)"
  by (simp add: handle_response_item_def Let_def advances_call codex_call_output_def
      advances_with_session[OF good_result])

lemma new_session_ok: "codex_session_ok (codex_session payload path arch t0 t1)"
  by (simp add: codex_session_ok_def codex_session_def Let_def turns_ok_def)

lemma advances_session_meta: "advances p (fst (handle_session_meta hst payload t p))"
proof (cases "cp_session p")
  case None
  then show ?thesis
    by (auto simp: handle_session_meta_def advances_def session_grows_def parser_ok_def
        new_session_ok split: option.splits)
      (simp add: codex_session_def Let_def)
next
  case (Some s)
  then have "fst (handle_session_meta hst payload t p) = with_session (refresh_meta payload t) p"
    by (simp add: handle_session_meta_def with_session_def)
  then show ?thesis by (simp add: advances_with_session[OF good_refresh_meta])
qed

lemma evolves_upd:
  "t_turn_id t' = t_turn_id t \<Longrightarrow> t_index t' = t_index t \<Longrightarrow>
    (t_status t' = InProgress \<Longrightarrow> t_status t = InProgress) \<Longrightarrow>
    (text_ok t \<Longrightarrow> text_ok t') \<Longrightarrow> evolves t t'"
  by (simp add: evolves_def)

lemma advances_turn_context: "advances p (handle_turn_context payload p)"
  unfolding handle_turn_context_def Let_def
  by (intro advances_then good_on_turn evolves_upd advances_fields)
    (simp_all add: text_ok_def good_def grows_def codex_session_ok_def)

lemma advances_thread_settings: "advances p (handle_thread_settings payload p)"
proof (cases "get ''thread_settings'' payload")
  case (Some v)
  then show ?thesis
    unfolding handle_thread_settings_def Let_def Some option.case
    by (intro advances_then good_on_turn evolves_upd advances_fields)
      (simp_all add: text_ok_def good_def grows_def codex_session_ok_def)
qed (simp add: handle_thread_settings_def)

lemma advances_token_count: "advances p (handle_token_count hst payload t p)"
  by (auto simp: handle_token_count_def Let_def split: option.splits
      intro!: advances_then good_count_tokens good_rate_limits)

lemma advances_task_started: "advances p (task_started hst payload t p)"
  unfolding task_started_def Let_def
  by (intro advances_then good_on_turn evolves_upd advances_fields)
    (simp_all add: text_ok_def good_def grows_def codex_session_ok_def)

lemma advances_user_message: "advances p (user_message payload p)"
  unfolding user_message_def Let_def
  by (intro advances_then good_on_turn evolves_upd advances_fields)
    (simp_all add: text_ok_def good_def grows_def codex_session_ok_def)

lemma advances_turn_cleared:
  "advances p q \<Longrightarrow> advances p (q\<lparr>cp_current_turn_id := None\<rparr>)"
  by (erule advances_trans) (simp add: advances_fields)

lemma advances_task_complete: "advances p (task_complete hst payload t p)"
  unfolding task_complete_def Let_def
  by (intro advances_turn_cleared advances_then good_on_turn evolves_upd advances_fields)
    (simp_all add: text_ok_def good_def grows_def codex_session_ok_def)

lemma advances_turn_aborted: "advances p (turn_aborted hst payload t p)"
  unfolding turn_aborted_def Let_def
  by (cases "or_else (get_str ''turn_id'' payload) (cp_current_turn_id p)")
    (auto intro!: advances_turn_cleared advances_with_session good_at_turn evolves_upd
      simp: text_ok_def)

lemma advances_event_msg: "advances p (handle_event_msg hst payload t p)"
  by (simp add: handle_event_msg_def Let_def advances_task_started advances_user_message
      advances_token_count advances_thread_settings advances_task_complete
      advances_turn_aborted thread_rolled_back_def advances_with_session[OF good_roll_back]
      exec_command_end_def advances_with_session[OF good_result])

lemma advances_apply_line: "advances p (fst (codex_apply_line hst now line p))"
proof -
  have t: "advances p (with_session (touch t) p)" for t
    by (rule advances_with_session[OF good_touch])
  have r: "advances q (fst (codex_apply_record hst root t q))" for root t q
    by (simp add: codex_apply_record_def Let_def advances_response_item advances_session_meta
        advances_turn_context advances_event_msg)
  show ?thesis
    by (auto simp: codex_apply_line_def codex_apply_slow_def Let_def t
        intro: advances_trans[OF t r] split: option.splits)
qed

section \<open>Properties\<close>

lemma refresh_session_ok: "codex_session_ok s \<Longrightarrow> codex_session_ok (refresh_session s)"
  using turns_ok_evolves[OF refresh_turns_texts]
  by (simp add: codex_session_ok_def refresh_session_def Let_def split: prod.splits)

lemma refresh_observations: "s_tool_observations (refresh_session s) = s_tool_observations s"
  by (simp add: refresh_session_def Let_def split: prod.splits)

lemma codex_parse_ok: "parser_ok p \<Longrightarrow> parser_ok (fst (codex_parse_to_end hst clock content p))"
  unfolding codex_parse_to_end_def
proof (erule codex.parse_invariant)
  show "parser_ok (q\<lparr>cp_byte_offset := n\<rparr>)" if "parser_ok q" for n q
    using that by (simp add: parser_ok_def split: option.splits)
  show "parser_ok (fst (codex_apply_line hst now l q))" if "parser_ok q" for now l q
    using that advances_apply_line[of q hst now l] by (simp add: advances_def)
  show "parser_ok (codex_refresh q)" if "parser_ok q" for q
    using that refresh_session_ok
    by (simp add: parser_ok_def codex_refresh_def with_session_def refresh_observations
        split: option.splits)
  show "parser_ok (codex_reset q)" for q
    by (simp add: parser_ok_def codex_reset_def)
qed

text \<open>C5: Every session parsed from a rollout file, whatever its bytes, is well-formed: its turns
  have distinct ids and are numbered 1, 2, \<dots> in order, no turn except the last is in progress,
  its tool calls have distinct call ids, the prompt and reply previews are cut to 500 characters
  and the first message to 200, and its observations are redacted.\<close>

theorem codex_session_well_formed:
  "pred_option codex_session_ok (codex_parse_file hst clock path archived content)"
proof -
  have "parser_ok (codex_new path archived)"
    by (simp add: parser_ok_def codex_new_def)
  from codex_parse_ok[OF this, of hst clock content] show ?thesis
    by (simp add: codex_parse_file_def parser_ok_def split: option.splits)
qed

text \<open>No record of a rollout file destroys what was parsed before it. Once a session exists,
  every further line, including a repeated \<open>session_meta\<close> and lines that fail to parse, leaves
  its identity and start time alone, never moves its last event back, and only appends to its
  token history, its turns and its tool calls.\<close>

theorem codex_line_only_adds:
  "session_grows (cp_session p) (cp_session (fst (codex_apply_line hst now line p)))"
  using advances_apply_line[of p hst now line] by (simp add: advances_def)

lemma sum_buckets_entry:
  "sum_bucket_totals (hm_entry k default_totals (\<lambda>e. add_totals e c) m) = sum_bucket_totals m + c"
proof -
  have e: "sum_bucket_totals m = (\<Sum>t\<leftarrow>map snd m. t)" for m
    using fold_plus[of "\<lambda>t. t" "map snd m" 0] by (simp add: sum_bucket_totals_def)
  show ?thesis
    unfolding e by (induction k "0::token_totals" "\<lambda>e. e + c" m rule: hm_entry.induct)
      (auto simp: ac_simps)
qed

definition totals_max :: "token_totals \<Rightarrow> token_totals \<Rightarrow> token_totals" where
  "totals_max a b =
     \<lparr>input_tokens = max (input_tokens a) (input_tokens b),
      cached_input_tokens = max (cached_input_tokens a) (cached_input_tokens b),
      cache_creation_input_tokens =
        max (cache_creation_input_tokens a) (cache_creation_input_tokens b),
      output_tokens = max (output_tokens a) (output_tokens b),
      reasoning_output_tokens = max (reasoning_output_tokens a) (reasoning_output_tokens b),
      total_tokens = max (total_tokens a) (total_tokens b)\<rparr>"

lemma add_sat_sub: "b + sat_sub a b = max a b" for a b :: "'a::len word"
  by (auto simp: sat_sub_def max_def)

lemma add_subtract_totals: "b + subtract_totals_saturating a b = totals_max a b"
  by (rule token_totals.equality)
    (simp_all add: subtract_totals_saturating_def totals_max_def add_sat_sub)

lemma no_remainder:
  assumes "\<not> totals_any_positive (subtract_totals_saturating a b)"
    and "cache_creation_input_tokens a = 0"
  shows "subtract_totals_saturating a b = 0"
  using assms
  by (intro token_totals.equality)
    (simp_all add: totals_any_positive_def subtract_totals_saturating_def word_gt_0 sat_sub_def)

lemma reconcile_sums:
  assumes "reconcile (Some model) c s = (s', c')" and "cache_creation_input_tokens (s_tokens_total s) = 0"
  shows "sum_bucket_totals (s_tokens_by_model s') = sum_bucket_totals (s_tokens_by_model s) + c'
    \<and> sum_bucket_totals (s_tokens_by_model s')
        = totals_max (s_tokens_total s) (sum_bucket_totals (s_tokens_by_model s) + c)
    \<and> s_tokens_history s' = s_tokens_history s \<and> s_turns s' = s_turns s
    \<and> s_tokens_total s' = s_tokens_total s"
proof -
  let ?b = "sum_bucket_totals (s_tokens_by_model s) + c"
  let ?r = "subtract_totals_saturating (s_tokens_total s) ?b"
  have "?b + (if totals_any_positive ?r then ?r else 0) = totals_max (s_tokens_total s) ?b"
    using add_subtract_totals[of ?b "s_tokens_total s"] no_remainder[OF _ assms(2), of ?b]
    by (metis add.right_neutral)
  with assms(1) show ?thesis
    by (auto simp: reconcile_def Let_def sum_buckets_entry[simplified] ac_simps split: if_splits)
qed

text \<open>Rate limits leave the tokens and the turns alone.\<close>

lemma count_rate_limits_keeps [simp]:
  "s_tokens_total (count_rate_limits hst limits tid ts s) = s_tokens_total s"
  "s_tokens_by_model (count_rate_limits hst limits tid ts s) = s_tokens_by_model s"
  "s_tokens_history (count_rate_limits hst limits tid ts s) = s_tokens_history s"
  "s_turns (count_rate_limits hst limits tid ts s) = s_turns s"
  by (simp_all add: count_rate_limits_def Let_def split: option.split)

lemma upd_first_distinct:
  "distinct (map k xs) \<Longrightarrow> upd_first (\<lambda>x. k x = i) f xs = map (\<lambda>x. if k x = i then f x else x) xs"
  by (induction xs) (auto intro!: map_idI[symmetric] simp: image_iff)

definition credited :: "string option \<Rightarrow> string option \<Rightarrow> token_totals \<Rightarrow> turn_info \<Rightarrow> turn_info" where
  "credited turn_id tier c t =
     (if turn_id = Some (t_turn_id t)
      then t\<lparr>t_tokens := t_tokens t + c, t_service_tier := set_some tier (t_service_tier t)\<rparr> else t)"

lemma credited_turns:
  assumes "distinct (map t_turn_id (s_turns s))"
  shows "s_turns (attribute_usage total_usage last_usage model tier turn_id ts (s, c))
    = map (credited turn_id tier c) (s_turns s)"
proof (cases turn_id)
  case None
  then have "credited turn_id tier c = id" by (simp add: credited_def fun_eq_iff)
  with None show ?thesis by (simp add: attribute_usage_def Let_def split: option.split)
next
  case (Some tid)
  with assms show ?thesis
    by (auto simp: attribute_usage_def Let_def upd_turn_def upd_first_distinct credited_def split: option.split)
qed

lemma attribute_usage_fields:
  "s_tokens_total (attribute_usage total_usage last_usage model tier turn_id ts (s, c)) = s_tokens_total s"
  "s_tokens_by_model (attribute_usage total_usage last_usage model tier turn_id ts (s, c)) = s_tokens_by_model s"
  "s_tokens_history (attribute_usage (Some tot) last_usage model tier turn_id ts (s, c)) = s_tokens_history s @
     [\<lparr>h_timestamp = ts, h_model = model, h_service_tier = tier,
       h_request_input_tokens = map_option input_tokens last_usage, h_total_tokens = total_tokens tot, h_delta = c\<rparr>]"
  by (simp_all add: attribute_usage_def Let_def upd_turn_def split: option.split)

lemma reconcile_buckets:
  assumes "reconcile (Some m) c s = (s', c')"
  shows "map_of (s_tokens_by_model s')
    = (map_of (s_tokens_by_model s))(m \<mapsto> unwrap_or 0 (map_of (s_tokens_by_model s) m) + c')"
  using assms
  by (auto simp: reconcile_def Let_def hm_entry_lookup unwrap_or_def fun_eq_iff ac_simps split: if_splits option.splits)

text \<open>C2: A token count event that reports a running total reconciles it, on a session whose turns have
  distinct ids (as those of parsed sessions have): there is one contribution that is the delta of one new
  history point, that the bucket of the current model gains and no other, and that the turn with the
  current id gains and no other. With a current model the sum of the buckets is then, field by field, the
  larger of the reported total and the previous sum plus the last call's usage (64-bit sums), so usage
  carried over from an earlier file or from before the model was known is never lost; without one the
  buckets stay and the contribution is the last call's usage.\<close>

theorem codex_token_count_reconciles:
  fixes info payload p s
  defines "last_usage \<equiv> map_option parse_token_totals (get ''last_token_usage'' info)"
    and "before \<equiv> sum_bucket_totals (s_tokens_by_model s)"
  assumes "cp_session p = Some s" and "distinct (map t_turn_id (s_turns s))"
    and "get ''info'' payload = Some info" and "get ''total_token_usage'' info = Some total_usage"
  shows "\<exists>s' c. cp_session (handle_token_count hst payload ts p) = Some s'
    \<and> s_tokens_total s' = parse_token_totals total_usage
    \<and> s_tokens_history s' = s_tokens_history s @
        [\<lparr>h_timestamp = ts, h_model = cp_current_model p, h_service_tier = cp_current_service_tier p,
          h_request_input_tokens = map_option input_tokens last_usage,
          h_total_tokens = total_tokens (parse_token_totals total_usage), h_delta = c\<rparr>]
    \<and> s_turns s' = map (\<lambda>t. if cp_current_turn_id p = Some (t_turn_id t)
        then t\<lparr>t_tokens := t_tokens t + c,
               t_service_tier := set_some (cp_current_service_tier p) (t_service_tier t)\<rparr> else t) (s_turns s)
    \<and> (case cp_current_model p of
          None \<Rightarrow> s_tokens_by_model s' = s_tokens_by_model s \<and> c = unwrap_or 0 last_usage
        | Some m \<Rightarrow>
            map_of (s_tokens_by_model s')
              = (map_of (s_tokens_by_model s))(m \<mapsto> unwrap_or 0 (map_of (s_tokens_by_model s) m) + c)
            \<and> sum_bucket_totals (s_tokens_by_model s') = before + c
            \<and> sum_bucket_totals (s_tokens_by_model s')
                = totals_max (parse_token_totals total_usage) (before + unwrap_or 0 last_usage))"
proof -
  let ?tot = "parse_token_totals total_usage"
  let ?n = "note_usage (Some ?tot) last_usage (map_option ucast (get_u64 ''model_context_window'' info)) s"
  obtain r c where r: "reconcile (cp_current_model p) (unwrap_or default_totals last_usage) ?n = (r, c)"
    by fastforce
  let ?s = "attribute_usage (Some ?tot) last_usage (cp_current_model p) (cp_current_service_tier p)
      (cp_current_turn_id p) ts (r, c)"
  have n: "s_tokens_total ?n = ?tot" "s_tokens_by_model ?n = s_tokens_by_model s"
      "s_tokens_history ?n = s_tokens_history s" "s_turns ?n = s_turns s"
    by (simp_all add: note_usage_def)
  have kept: "s_tokens_total r = ?tot" "s_tokens_history r = s_tokens_history s" "s_turns r = s_turns s"
    using r n by (auto simp: reconcile_def Let_def split: option.splits if_splits)
  have buckets: "case cp_current_model p of
        None \<Rightarrow> s_tokens_by_model r = s_tokens_by_model s \<and> c = unwrap_or 0 last_usage
      | Some m \<Rightarrow> map_of (s_tokens_by_model r)
            = (map_of (s_tokens_by_model s))(m \<mapsto> unwrap_or 0 (map_of (s_tokens_by_model s) m) + c)
          \<and> sum_bucket_totals (s_tokens_by_model r) = before + c
          \<and> sum_bucket_totals (s_tokens_by_model r) = totals_max ?tot (before + unwrap_or 0 last_usage)"
  proof (cases "cp_current_model p")
    case None
    with r n(2) show ?thesis by (auto simp: reconcile_def default_totals_eq)
  next
    case (Some m)
    have "cache_creation_input_tokens (s_tokens_total ?n) = 0"
      unfolding n(1) by (simp add: parse_token_totals_def)
    from reconcile_sums[OF r[unfolded Some] this] reconcile_buckets[OF r[unfolded Some]] show ?thesis
      unfolding Some n before_def default_totals_eq option.case by blast
  qed
  have "is_null info = False" using assms(6) by (cases info) (simp_all add: is_null_def)
  then have "\<exists>s'. cp_session (handle_token_count hst payload ts p) = Some s'
      \<and> s_tokens_total s' = s_tokens_total ?s \<and> s_tokens_by_model s' = s_tokens_by_model ?s
      \<and> s_tokens_history s' = s_tokens_history ?s \<and> s_turns s' = s_turns ?s"
    using assms(3,5,6) r
    by (simp add: handle_token_count_def Let_def with_session_def count_tokens_def last_usage_def split: option.split)
  then obtain s' where s': "cp_session (handle_token_count hst payload ts p) = Some s'"
      "s_tokens_total s' = ?tot" "s_tokens_by_model s' = s_tokens_by_model r"
      "s_tokens_history s' = s_tokens_history ?s" "s_turns s' = s_turns ?s"
    by (auto simp: attribute_usage_fields kept)
  have "s_turns s' = map (credited (cp_current_turn_id p) (cp_current_service_tier p) c) (s_turns s)"
    using credited_turns[of r] assms(4) by (simp add: s'(5) kept(3))
  from this[unfolded credited_def] s'(1,2) s'(4)[unfolded attribute_usage_fields kept] buckets[folded s'(3)]
  show ?thesis by blast
qed

text \<open>The first quote of a text that continues a quote-free prefix.\<close>

lemma split_at_char: "d \<notin> set a \<Longrightarrow> split_at [d] (a @ d # b) = Some (a, b)"
  by (induction a) auto

lemma starts_with_contains: "contains (a @ k) s \<Longrightarrow> contains a s"
  by (auto simp: contains_iff)

definition tool_item_types :: "string list" where
  "tool_item_types =
     [''function_call'', ''custom_tool_call'', ''function_call_output'',
      ''custom_tool_call_output'']"

lemma tool_item_prefix:
  assumes "k \<in> set tool_item_types" and "contains (''\"type\":\"'' @ k) body"
  shows "contains ''\"type\":\"function_call'' body \<or> contains ''\"type\":\"custom_tool_call'' body"
  using assms starts_with_contains[of "''\"type\":\"function_call''" "''_output''" body]
    starts_with_contains[of "''\"type\":\"custom_tool_call''" "''_output''" body]
  by (auto simp: tool_item_types_def)

lemma contains_append: "contains k body \<Longrightarrow> contains k (pre @ body @ post)"
  unfolding contains_iff by (metis append.assoc)

lemma no_tool_item:
  "unwrap_or [] (get_str ''type'' payload) \<notin> set tool_item_types \<Longrightarrow>
    handle_response_item hst payload t p = p"
  by (auto simp: handle_response_item_def Let_def tool_item_types_def)

text \<open>C39: The fast path that skips the JSON parse changes nothing. On a line with the envelope
  Codex writes, whose payload is rendered compactly (a payload with one of the four tool item
  types shows it as \<open>"type":"\<dots>\<close>), applying the line equals parsing it in full.\<close>

theorem codex_fast_path_agrees:
  assumes line: "line = ''{\"timestamp\":\"'' @ ts @ ''\",\"type\":\"'' @ ty
      @ ''\",\"payload\":'' @ body @ ''}''"
    and parsed: "host_from_str hst line
      = Some (Object [(''timestamp'', String ts), (''type'', String ty), (''payload'', payload)])"
    and quotes: "CHR 0x22 \<notin> set ts" "CHR 0x22 \<notin> set ty"
    and compact: "\<forall>k\<in>set tool_item_types.
      get_str ''type'' payload = Some k \<longrightarrow> contains (''\"type\":\"'' @ k) body"
  shows "codex_apply_line hst now line p = codex_apply_slow hst now line p"
proof (cases "fast_skip_timestamp line")
  case None
  then show ?thesis by (simp add: codex_apply_line_def)
next
  case (Some ts')
  have strip: "strip_prefix ''{\"timestamp\":\"'' line
      = Some (ts @ CHR 0x22 # '',\"type\":\"'' @ ty @ ''\",\"payload\":'' @ body @ ''}'')"
    by (simp add: line)
  have key: "strip_prefix '',\"type\":\"'' ('',\"type\":\"'' @ r) = Some r" for r
    by simp
  have ts': "ts' = ts" and ty: "ty = ''response_item'' \<or> ty = ''compacted''"
    and no: "\<not> contains ''\"type\":\"function_call'' line"
      "\<not> contains ''\"type\":\"custom_tool_call'' line"
    using Some split_at_char[OF quotes(1)]
      split_at_char[OF quotes(2), of "'',\"payload\":'' @ body @ ''}''"]
    by (auto simp: fast_skip_timestamp_def strip key simp del: split_at.simps split: if_splits)
  have "unwrap_or [] (get_str ''type'' payload) \<notin> set tool_item_types"
  proof
    assume *: "unwrap_or [] (get_str ''type'' payload) \<in> set tool_item_types"
    then obtain k where k: "get_str ''type'' payload = Some k" "k \<in> set tool_item_types"
      by (cases "get_str ''type'' payload") (auto simp: tool_item_types_def)
    with compact have "contains (''\"type\":\"'' @ k) body" by blast
    from tool_item_prefix[OF k(2) this] no show False
      using contains_append[of _ body "''{\"timestamp\":\"'' @ ts @ ''\",\"type\":\"'' @ ty
        @ ''\",\"payload\":''" "''}''"]
      by (auto simp: line)
  qed
  then show ?thesis
    using Some ty
    by (auto simp: codex_apply_line_def codex_apply_slow_def codex_apply_record_def parsed
        get_str_def Let_def no_tool_item ts')
qed

section \<open>Witnesses\<close>

definition sample_meta :: json where
  "sample_meta = Object [(''timestamp'', String ''t''), (''type'', String ''session_meta''),
     (''payload'', Object [(''id'', String ''s''), (''timestamp'', String ''t'')])]"

definition sample_usage :: json where
  "sample_usage = Object [(''input_tokens'', Number (PosInt 100)),
     (''output_tokens'', Number (PosInt 5)), (''total_tokens'', Number (PosInt 105))]"

definition sample_usage_event :: json where
  "sample_usage_event = Object [(''timestamp'', String ''t''), (''type'', String ''event_msg''),
     (''payload'', Object [(''type'', String ''token_count''),
       (''info'', Object [(''total_token_usage'', sample_usage),
                          (''last_token_usage'', sample_usage)])])]"

definition sample_host :: host where
  "sample_host =
     \<lparr>host_from_str = (\<lambda>l. if l = ''meta'' then Some sample_meta
                        else if l = ''count'' then Some sample_usage_event else None),
      host_to_string = (\<lambda>_. Some ''{}''),
      host_parse_time = (\<lambda>t. if t = ''t'' then Some 5 else None),
      host_from_epoch = (\<lambda>i. Some (1000000000 * i))\<rparr>"

definition sample_pieces :: "string list" where
  "sample_pieces = [''meta'' @ [newline], ''meta'' @ newline # ''cou'',
     ''meta'' @ newline # ''count'' @ [newline]]"

lemma codex_incremental_witness:
  "map_option (\<lambda>s. total_tokens (s_tokens_total s))
      (cp_session (fold (\<lambda>c p. fst (codex_parse_to_end sample_host (\<lambda>_. 0) c p)) sample_pieces
        (codex_new ''f'' False))) = Some 105"
proof -
  have "fold (\<lambda>c p. fst (codex_parse_to_end sample_host (\<lambda>_. 0) c p)) sample_pieces
      (codex_new ''f'' False)
    = fst (codex_parse_to_end sample_host (\<lambda>_. 0) (last sample_pieces) (codex_new ''f'' False))"
    by (rule codex_incremental) (simp_all add: sample_pieces_def codex_new_def newline_def)
  moreover have "map_option (\<lambda>s. total_tokens (s_tokens_total s))
      (cp_session (fst (codex_parse_to_end sample_host (\<lambda>_. 0) (last sample_pieces)
        (codex_new ''f'' False)))) = Some 105"
    by code_simp
  ultimately show ?thesis by simp
qed

lemma codex_replaced_file_witness:
  "cp_session (fst (codex_parse_to_end sample_host (\<lambda>_. 0) [newline]
      ((codex_new ''f'' False)\<lparr>cp_session := Some sample_session, cp_byte_offset := 99\<rparr>))) = None"
proof -
  have "codex_parse_to_end sample_host (\<lambda>_. 0) [newline]
      ((codex_new ''f'' False)\<lparr>cp_session := Some sample_session, cp_byte_offset := 99\<rparr>)
    = codex_parse_to_end sample_host (\<lambda>_. 0) [newline] (codex_new ''f'' False)"
    by (subst codex_replaced_file) (simp_all add: codex_new_def)
  moreover have "cp_session (fst (codex_parse_to_end sample_host (\<lambda>_. 0) [newline]
      (codex_new ''f'' False))) = None"
    by code_simp
  ultimately show ?thesis by simp
qed

definition sample_total_event :: json where
  "sample_total_event = Object [(''info'', Object
     [(''total_token_usage'', Object [(''input_tokens'', Number (PosInt 40)), (''total_tokens'', Number (PosInt 50))]),
      (''last_token_usage'', Object [(''input_tokens'', Number (PosInt 10)), (''total_tokens'', Number (PosInt 12))])])]"

definition sample_counter :: codex_parser where
  "sample_counter = (codex_new ''f'' False)\<lparr>cp_session := Some sample_session, cp_current_model := Some ''m'',
     cp_current_turn_id := Some ''t2''\<rparr>"

lemma codex_token_count_reconciles_witness:
  "\<exists>s'. cp_session (handle_token_count sample_host sample_total_event 7 sample_counter) = Some s'
    \<and> map (\<lambda>t. total_tokens (t_tokens t)) (s_turns s') = [0, 50]"
proof -
  let ?last = "\<lparr>input_tokens = 10, cached_input_tokens = 0, cache_creation_input_tokens = 0, output_tokens = 0,
    reasoning_output_tokens = 0, total_tokens = 12\<rparr> :: token_totals"
  have fields: "cp_session sample_counter = Some sample_session" "cp_current_model sample_counter = Some ''m''"
      "cp_current_turn_id sample_counter = Some ''t2''" "cp_current_service_tier sample_counter = None"
    by (simp_all add: sample_counter_def codex_new_def)
  have session: "distinct (map t_turn_id (s_turns sample_session))" "s_tokens_by_model sample_session = []"
      "s_turns sample_session = [default_turn\<lparr>t_turn_id := ''t1''\<rparr>, default_turn\<lparr>t_turn_id := ''t2''\<rparr>]"
    by (simp_all add: sample_session_def)
  obtain info total where info: "get ''info'' sample_total_event = Some info" "get ''total_token_usage'' info = Some total"
      "parse_token_totals total = \<lparr>input_tokens = 40, cached_input_tokens = 0, cache_creation_input_tokens = 0,
        output_tokens = 0, reasoning_output_tokens = 0, total_tokens = 50\<rparr>"
      "map_option parse_token_totals (get ''last_token_usage'' info) = Some ?last"
    by (simp add: sample_total_event_def parse_token_totals_def get_u64_def)
  from codex_token_count_reconciles[OF fields(1) session(1) info(1,2), of sample_host 7] obtain s' c where
    s': "cp_session (handle_token_count sample_host sample_total_event 7 sample_counter) = Some s'"
      "s_turns s' = map (\<lambda>t. if Some ''t2'' = Some (t_turn_id t)
        then t\<lparr>t_tokens := t_tokens t + c, t_service_tier := set_some None (t_service_tier t)\<rparr> else t) (s_turns sample_session)"
      "sum_bucket_totals (s_tokens_by_model s') = sum_bucket_totals [] + c"
      "sum_bucket_totals (s_tokens_by_model s') = totals_max (parse_token_totals total) (sum_bucket_totals [] + ?last)"
    unfolding fields info(4) session(2) option.case unwrap_or_simps by blast
  from s'(3,4) have "sum_bucket_totals [] + c = totals_max (parse_token_totals total) (sum_bucket_totals [] + ?last)"
    by (rule trans[OF sym])
  then have "total_tokens c = 50"
    by (simp add: sum_bucket_totals_def default_totals_eq info(3) totals_max_def)
  with s'(1,2) show ?thesis
    by (auto simp: session(3) default_turn_def default_totals_eq)
qed

definition sample_line :: string where
  "sample_line = ''{\"timestamp\":\"'' @ ''t'' @ ''\",\"type\":\"'' @ ''response_item''
     @ ''\",\"payload\":'' @ ''{\"type\":\"message\"}'' @ ''}''"

definition sample_message :: json where
  "sample_message = Object [(''type'', String ''message'')]"

definition sample_line_host :: host where
  "sample_line_host = sample_host\<lparr>host_from_str := (\<lambda>l. if l = sample_line
     then Some (Object [(''timestamp'', String ''t''), (''type'', String ''response_item''),
       (''payload'', sample_message)]) else None)\<rparr>"

lemma codex_fast_path_agrees_witness:
  "codex_apply_line sample_line_host 0 sample_line (codex_new ''f'' False)
      = codex_apply_slow sample_line_host 0 sample_line (codex_new ''f'' False)
    \<and> fast_skip_timestamp sample_line = Some ''t''"
proof
  show "codex_apply_line sample_line_host 0 sample_line (codex_new ''f'' False)
      = codex_apply_slow sample_line_host 0 sample_line (codex_new ''f'' False)"
    by (rule codex_fast_path_agrees[OF sample_line_def, where payload = sample_message])
      (simp_all add: sample_line_host_def sample_message_def get_str_def tool_item_types_def)
  show "fast_skip_timestamp sample_line = Some ''t''"
    by code_simp
qed

end
