(* ===== verification/Claude_Parser.thy ===== *)
theory Claude_Parser
  imports Session_Updates
begin

text \<open>
  \<open>src-tauri/src/claude_parser.rs\<close>: the incremental parser of Claude Code session files, with
  lazily created sessions, usage counted once per message id, subagent transcripts, and the
  prompt filter. Paths are Unix paths in UTF-8.
\<close>

section \<open>Paths\<close>

function path_pieces :: "string \<Rightarrow> string list" where
  "path_pieces s =
    (if CHR ''/'' \<in> set s
     then takeWhile (\<lambda>c. c \<noteq> CHR ''/'') s # path_pieces (tl (dropWhile (\<lambda>c. c \<noteq> CHR ''/'') s))
     else [s])"
  by pat_completeness auto
termination
proof (relation "measure length")
  fix s :: string
  assume "CHR ''/'' \<in> set s"
  then show "(tl (dropWhile (\<lambda>c. c \<noteq> CHR ''/'') s), s) \<in> measure length"
    using length_dropWhile_le[of "\<lambda>c. c \<noteq> CHR ''/''" s] by (cases s) auto
qed simp

declare path_pieces.simps [simp del]

definition path_components :: "string \<Rightarrow> string list" where
  "path_components path = filter (\<lambda>c. c \<noteq> [] \<and> c \<noteq> ''.'') (path_pieces path)"

definition file_name :: "string \<Rightarrow> string option" where
  "file_name path =
     (let cs = path_components path in
      if cs = [] \<or> last cs = ''..'' then None else Some (last cs))"

definition file_stem :: "string \<Rightarrow> string option" where
  "file_stem path =
     map_option (\<lambda>name. case rsplit_once CHR ''.'' name of
         None \<Rightarrow> name
       | Some (before, _) \<Rightarrow> if before = [] then name else before) (file_name path)"

section \<open>The parser\<close>

record claude_parser =
  ap_session :: "session option"
  ap_byte_offset :: nat
  ap_file_path :: string
  ap_is_subagent :: bool
  ap_seen_message_ids :: "string set"
  ap_seen_tool_ids :: "string set"
  ap_current_turn_id :: "string option"
  ap_pending_thread_name :: "string option"

definition claude_new :: "string \<Rightarrow> claude_parser" where
  "claude_new file_path =
     (let is_subagent =
        (''subagents'' \<in> set (path_components file_path)
         \<or> (case file_stem file_path of Some s \<Rightarrow> starts_with ''agent-'' s | None \<Rightarrow> False))
      in \<lparr>ap_session = None, ap_byte_offset = 0, ap_file_path = file_path,
          ap_is_subagent = is_subagent, ap_seen_message_ids = {}, ap_seen_tool_ids = {},
          ap_current_turn_id = None, ap_pending_thread_name = None\<rparr>)"

definition claude_reset :: "claude_parser \<Rightarrow> claude_parser" where
  "claude_reset p =
     p\<lparr>ap_session := None, ap_byte_offset := 0, ap_seen_message_ids := {},
       ap_seen_tool_ids := {}, ap_current_turn_id := None, ap_pending_thread_name := None\<rparr>"

definition on_session :: "(session \<Rightarrow> session) \<Rightarrow> claude_parser \<Rightarrow> claude_parser" where
  "on_session f p = p\<lparr>ap_session := map_option f (ap_session p)\<rparr>"

section \<open>Reading records\<close>

definition claude_serialized_len :: "host \<Rightarrow> json \<Rightarrow> u64" where
  "claude_serialized_len hst v =
     unwrap_or 0 (map_option (\<lambda>bytes. word_of_nat (length bytes)) (host_to_string hst v))"

definition noise_prefixes :: "string list" where
  "noise_prefixes = [''<command-'', ''<local-command'', ''[Request interrupted'', ''Caveat:'']"

definition prompt_content :: "json \<Rightarrow> string option" where
  "prompt_content content =
     (case content of
        String s \<Rightarrow> Some s
      | Array blocks \<Rightarrow>
          if \<exists>b\<in>set blocks. get_str ''type'' b = Some ''tool_result'' then None
          else Some (join [CHR 0x0A]
            (filter_map (get_str ''text'')
              (filter (\<lambda>b. get_str ''type'' b = Some ''text'') blocks)))
      | _ \<Rightarrow> None)"

definition extract_user_prompt :: "json \<Rightarrow> bool \<Rightarrow> string option" where
  "extract_user_prompt root allow_sidechain =
     (if \<not> allow_sidechain \<and> get_bool ''isSidechain'' root = Some True then None
      else if get_bool ''isMeta'' root = Some True then None
      else if (case get ''toolUseResult'' root of Some v \<Rightarrow> \<not> is_null v | None \<Rightarrow> False) then None
      else case Option.bind (Option.bind (get ''message'' root) (get ''content''))
             prompt_content of
        None \<Rightarrow> None
      | Some text \<Rightarrow>
          let trimmed = trim text
          in if trimmed = [] \<or> (\<exists>n\<in>set noise_prefixes. starts_with n trimmed) then None
             else Some text)"

definition last_text_block :: "json \<Rightarrow> string option" where
  "last_text_block message =
     (case Option.bind (get ''content'' message) as_array of
        None \<Rightarrow> None
      | Some blocks \<Rightarrow>
          map_option (\<lambda>t. take_chars turn_message_limit (trim t))
            (Option.bind (find (\<lambda>b. get_str ''type'' b = Some ''text'') (rev blocks))
              (get_str ''text'')))"

definition claude_usage_to_totals :: "json \<Rightarrow> token_totals" where
  "claude_usage_to_totals usage =
     (let field = (\<lambda>key. unwrap_or 0 (get_u64 key usage));
          uncached_input = field ''input_tokens'';
          cache_read = field ''cache_read_input_tokens'';
          cache_creation = field ''cache_creation_input_tokens'';
          out = field ''output_tokens'';
          inp = uncached_input + cache_read + cache_creation
      in \<lparr>input_tokens = inp,
          cached_input_tokens = cache_read,
          cache_creation_input_tokens = cache_creation,
          output_tokens = out,
          reasoning_output_tokens = 0,
          total_tokens = inp + out\<rparr>)"

definition claude_any_positive :: "token_totals \<Rightarrow> bool" where
  "claude_any_positive t \<longleftrightarrow>
     input_tokens t > 0 \<or> cached_input_tokens t > 0 \<or> cache_creation_input_tokens t > 0
     \<or> output_tokens t > 0 \<or> reasoning_output_tokens t > 0 \<or> total_tokens t > 0"

section \<open>Creating the session\<close>

definition metadata_from :: "json \<Rightarrow> session \<Rightarrow> session" where
  "metadata_from root s =
     s\<lparr>s_working_directory :=
         (if s_working_directory s = None
          then (case get_str ''cwd'' root of
                  Some v \<Rightarrow> if v = [] then None else Some v | None \<Rightarrow> None)
          else s_working_directory s),
       s_cli_version :=
         (if s_cli_version s = None then get_str ''version'' root else s_cli_version s),
       s_originator :=
         (if s_originator s = None then get_str ''entrypoint'' root else s_originator s)\<rparr>"

text \<open>(id, storage id, parent, source, whether the id is the file stem).\<close>

definition claude_identity ::
    "json \<Rightarrow> claude_parser \<Rightarrow> string \<times> string \<times> string option \<times> string option \<times> bool" where
  "claude_identity root p =
     (let record_session_id = get_str ''sessionId'' root;
          stem = unwrap_or [] (file_stem (ap_file_path p))
      in if ap_is_subagent p then
           let provider_agent_id =
                 (case get_str ''agentId'' root of
                    Some i \<Rightarrow> if i = [] then None else Some i | None \<Rightarrow> None);
               agent_id = unwrap_or stem provider_agent_id;
               storage_id =
                 (case record_session_id of
                    Some parent \<Rightarrow> storage_id_for_claude_subagent parent agent_id
                  | None \<Rightarrow> storage_id_for_session claude_code_provider_id agent_id)
           in (agent_id, storage_id, record_session_id, Some ''subagent'',
               provider_agent_id = None)
         else
           let sid = unwrap_or stem record_session_id
           in (sid, storage_id_for_session claude_code_provider_id sid, None, None, False))"

definition claude_session ::
    "string \<Rightarrow> string \<Rightarrow> string option \<Rightarrow> string option \<Rightarrow> bool \<Rightarrow> string option \<Rightarrow> string
      \<Rightarrow> timestamp \<Rightarrow> session" where
  "claude_session sid storage_id parent source fallback name file_path started_at =
     \<lparr>s_id = sid,
      s_storage_id = storage_id,
      s_harness = claude_code_provider_id,
      s_thread_name = name,
      s_forked_from_id = None,
      s_parent_thread_id = parent,
      s_agent_path = None,
      s_agent_nickname = None,
      s_file_path = file_path,
      s_source_availability = AvailPresent,
      s_lifecycle = LifePresent,
      s_archived = False,
      s_started_at = started_at,
      s_last_event_at = started_at,
      s_working_directory = None,
      s_originator = None,
      s_source = source,
      s_subagent_id_is_path_fallback = fallback,
      s_history_mode = None,
      s_memory_mode = None,
      s_cli_version = None,
      s_model_provider = Some ''anthropic'',
      s_model = None, s_service_tier = None, s_plan_type = None, s_credits_unlimited = None,
      s_credits_balance = None, s_context_window = None, s_latest_context_tokens = None,
      s_total_turns = 0, s_first_user_message = None, s_tokens_total = default_totals,
      s_tokens_by_model = [], s_tokens_history = [], s_rate_limits_history = [],
      s_turns = [], s_tool_observations = [], s_tool_metrics = default_metrics,
      s_tool_metrics_by_model = [], s_category_totals = [], s_optimization_findings = [],
      s_project_key = None, s_project_label = None, s_project_provenance = None\<rparr>"

definition claude_ensure_session :: "json \<Rightarrow> timestamp option \<Rightarrow> claude_parser \<Rightarrow> claude_parser"
  where
  "claude_ensure_session root timestamp p =
     (if ap_session p \<noteq> None then on_session (metadata_from root) p
      else case timestamp of
        None \<Rightarrow> p
      | Some started_at \<Rightarrow>
          (case claude_identity root p of
             (sid, storage_id, parent, source, fallback) \<Rightarrow>
               if sid = [] then p
               else on_session (metadata_from root)
                 (p\<lparr>ap_session := Some (claude_session sid storage_id parent source fallback
                        (ap_pending_thread_name p) (ap_file_path p) started_at),
                    ap_pending_thread_name := None\<rparr>)))"

section \<open>Prompts and tool results\<close>

definition claude_handle_user :: "json \<Rightarrow> timestamp option \<Rightarrow> claude_parser \<Rightarrow> claude_parser" where
  "claude_handle_user root timestamp p =
     (case extract_user_prompt root (ap_is_subagent p) of
        None \<Rightarrow> p
      | Some prompt \<Rightarrow>
          let turn_id = unwrap_or [] (get_str ''uuid'' root);
              truncated = take_chars turn_message_limit (trim_end prompt)
          in if turn_id = [] \<or> ap_session p = None then p
             else (on_session (open_turn (ap_current_turn_id p) turn_id timestamp truncated) p)
                    \<lparr>ap_current_turn_id := Some turn_id\<rparr>)"

definition settle_result ::
    "host \<Rightarrow> json \<Rightarrow> timestamp option \<Rightarrow> json \<Rightarrow> tool_observation list \<Rightarrow> tool_observation list"
  where
  "settle_result hst root timestamp block obs =
     (if get_str ''type'' block \<noteq> Some ''tool_result'' then obs
      else
        let call_id = unwrap_or [] (get_str ''tool_use_id'' block);
            failed = (unwrap_or False (get_bool ''is_error'' block)
              \<or> unwrap_or False
                   (Option.bind (get ''toolUseResult'' root) (get_bool ''is_error'')));
            output_bytes =
              (case get ''content'' block of
                 None \<Rightarrow> 0
               | Some v \<Rightarrow>
                   (case as_str v of
                      Some text \<Rightarrow> word_of_nat (length text)
                    | None \<Rightarrow> claude_serialized_len hst v))
        in observe_result obs call_id (if failed then OutFailure else OutSuccess) None timestamp
             output_bytes)"

definition claude_tool_results ::
    "host \<Rightarrow> json \<Rightarrow> timestamp option \<Rightarrow> claude_parser \<Rightarrow> claude_parser" where
  "claude_tool_results hst root timestamp p =
     (case Option.bind (Option.bind (get ''message'' root) (get ''content'')) as_array of
        None \<Rightarrow> p
      | Some blocks \<Rightarrow>
          on_session (\<lambda>s. s\<lparr>s_tool_observations :=
            fold (settle_result hst root timestamp) blocks (s_tool_observations s)\<rparr>) p)"

section \<open>Assistant messages\<close>

text \<open>New tool uses of a message: (call id, name, input), with the ids seen so far.\<close>

fun collect_tool_uses ::
    "json list \<Rightarrow> string set \<Rightarrow> string set \<times> (string \<times> string \<times> json) list" where
  "collect_tool_uses [] seen = (seen, [])"
| "collect_tool_uses (block # blocks) seen =
    (if get_str ''type'' block \<noteq> Some ''tool_use'' then collect_tool_uses blocks seen
     else case get_str ''id'' block of
       None \<Rightarrow> collect_tool_uses blocks seen
     | Some call_id \<Rightarrow>
         if call_id = [] \<or> call_id \<in> seen then collect_tool_uses blocks seen
         else
           let name = unwrap_or ''unknown'' (get_str ''name'' block);
               inp = unwrap_or Null (get ''input'' block)
           in case collect_tool_uses blocks (insert call_id seen) of
                (seen', calls) \<Rightarrow> (seen', (call_id, name, inp) # calls))"

definition observe_tool_use ::
    "host \<Rightarrow> string option \<Rightarrow> string option \<Rightarrow> timestamp \<Rightarrow> string \<times> string \<times> json
      \<Rightarrow> tool_observation list \<Rightarrow> tool_observation list" where
  "observe_tool_use hst turn_id model ts = (\<lambda>(call_id, name, inp) obs.
     observe_call hst obs
       \<lparr>in_call_id = call_id, in_turn_id = turn_id, in_harness = claude_code_provider_id,
        in_model = model, in_timestamp = ts, in_name = name, in_arguments = inp\<rparr>)"

definition usage_tier :: "json \<Rightarrow> string option" where
  "usage_tier u =
     (case get_str ''speed'' u of
        Some speed \<Rightarrow> if speed \<noteq> ''standard'' then Some speed else get_str ''service_tier'' u
      | None \<Rightarrow> get_str ''service_tier'' u)"

definition claude_assistant_session ::
    "host \<Rightarrow> bool \<Rightarrow> string option \<Rightarrow> json \<Rightarrow> json \<Rightarrow> timestamp option \<Rightarrow> bool
      \<Rightarrow> (string \<times> string \<times> json) list \<Rightarrow> session \<Rightarrow> session" where
  "claude_assistant_session hst is_subagent turn_id root message timestamp first_occurrence tool_calls s =
     (let model = get_str ''model'' message;
          is_sidechain = unwrap_or False (get_bool ''isSidechain'' root);
          usage = get ''usage'' message;
          service_tier = Option.bind usage usage_tier;
          delta = map_option claude_usage_to_totals usage;
          text = (if \<not> is_sidechain \<or> is_subagent then last_text_block message else None);
          s = s\<lparr>s_model := set_some model (s_model s),
                s_service_tier := set_some service_tier (s_service_tier s)\<rparr>;
          s = (case timestamp of
                 None \<Rightarrow> s
               | Some ts \<Rightarrow> s\<lparr>s_tool_observations :=
                   fold (observe_tool_use hst turn_id model ts) tool_calls
                     (s_tool_observations s)\<rparr>);
          s = (case delta of
                 None \<Rightarrow> s
               | Some delta \<Rightarrow>
                   if first_occurrence \<and> claude_any_positive delta
                   then add_usage delta model service_tier timestamp turn_id s
                   else s)
      in settle_current turn_id (settle_turn model service_tier timestamp text) s)"

definition claude_handle_assistant ::
    "host \<Rightarrow> json \<Rightarrow> timestamp option \<Rightarrow> claude_parser \<Rightarrow> claude_parser" where
  "claude_handle_assistant hst root timestamp p =
     (case get ''message'' root of
        None \<Rightarrow> p
      | Some message \<Rightarrow>
          if get_str ''model'' message = Some ''<synthetic>'' then p
          else
            let message_id = unwrap_or [] (get_str ''id'' message);
                first_occurrence = (message_id \<noteq> [] \<and> message_id \<notin> ap_seen_message_ids p);
                p = (if message_id \<noteq> []
                     then p\<lparr>ap_seen_message_ids := insert message_id (ap_seen_message_ids p)\<rparr>
                     else p);
                blocks =
                  (if timestamp \<noteq> None \<and> ap_session p \<noteq> None
                   then unwrap_or [] (Option.bind (get ''content'' message) as_array) else [])
            in case collect_tool_uses blocks (ap_seen_tool_ids p) of
                 (seen, tool_calls) \<Rightarrow>
                   let p = p\<lparr>ap_seen_tool_ids := seen\<rparr>
                   in on_session (claude_assistant_session hst (ap_is_subagent p)
                        (ap_current_turn_id p) root message timestamp first_occurrence
                        tool_calls) p)"

section \<open>Lines and files\<close>

definition claude_custom_title :: "string \<Rightarrow> claude_parser \<Rightarrow> claude_parser" where
  "claude_custom_title title p =
     (case ap_session p of
        Some s \<Rightarrow> p\<lparr>ap_session := Some (s\<lparr>s_thread_name := Some title\<rparr>)\<rparr>
      | None \<Rightarrow> p\<lparr>ap_pending_thread_name := Some title\<rparr>)"

definition claude_summary :: "string \<Rightarrow> claude_parser \<Rightarrow> claude_parser" where
  "claude_summary text p =
     (case ap_session p of
        Some s \<Rightarrow>
          p\<lparr>ap_session := Some (s\<lparr>s_thread_name :=
              (if s_thread_name s = None then Some text else s_thread_name s)\<rparr>)\<rparr>
      | None \<Rightarrow>
          p\<lparr>ap_pending_thread_name :=
              (if ap_pending_thread_name p = None then Some text else ap_pending_thread_name p)\<rparr>)"

definition claude_apply_record ::
    "host \<Rightarrow> json \<Rightarrow> timestamp option \<Rightarrow> claude_parser \<Rightarrow> claude_parser" where
  "claude_apply_record hst root timestamp p =
     (let record_type = unwrap_or [] (get_str ''type'' root) in
      if record_type = ''user''
      then claude_handle_user root timestamp (claude_tool_results hst root timestamp p)
      else if record_type = ''assistant'' then claude_handle_assistant hst root timestamp p
      else if record_type = ''custom-title''
      then (case get_str ''customTitle'' root of
              Some title \<Rightarrow> claude_custom_title title p | None \<Rightarrow> p)
      else if record_type = ''summary''
      then (case get_str ''summary'' root of Some text \<Rightarrow> claude_summary text p | None \<Rightarrow> p)
      else p)"

definition claude_apply_line ::
    "host \<Rightarrow> timestamp \<Rightarrow> string \<Rightarrow> claude_parser \<Rightarrow> claude_parser \<times> bool" where
  "claude_apply_line hst now line p =
     (case host_from_str hst line of
        None \<Rightarrow> (p, False)
      | Some root \<Rightarrow>
          let timestamp = Option.bind (get_str ''timestamp'' root) (host_parse_time hst);
              p = claude_ensure_session root timestamp p;
              p = (case timestamp of None \<Rightarrow> p | Some ts \<Rightarrow> on_session (touch ts) p)
          in (claude_apply_record hst root timestamp p, True))"

definition claude_refresh :: "claude_parser \<Rightarrow> claude_parser" where
  "claude_refresh p = on_session refresh_session p"

text \<open>The public \<open>apply_line\<close>, which refreshes after every line.\<close>

definition claude_apply_and_refresh ::
    "host \<Rightarrow> timestamp \<Rightarrow> string \<Rightarrow> claude_parser \<Rightarrow> claude_parser \<times> bool" where
  "claude_apply_and_refresh hst now line p =
     (case claude_apply_line hst now line p of
        (p, ok) \<Rightarrow> if ok then (claude_refresh p, True) else (p, False))"

definition claude_parse_to_end ::
    "host \<Rightarrow> (nat \<Rightarrow> timestamp) \<Rightarrow> string \<Rightarrow> claude_parser \<Rightarrow> claude_parser \<times> bool" where
  "claude_parse_to_end hst =
     parse_file_to_end (claude_apply_line hst) ap_byte_offset (\<lambda>n p. p\<lparr>ap_byte_offset := n\<rparr>)
       claude_reset claude_refresh"

definition claude_parse_file ::
    "host \<Rightarrow> (nat \<Rightarrow> timestamp) \<Rightarrow> string \<Rightarrow> string \<Rightarrow> session option" where
  "claude_parse_file hst clock path content =
     ap_session (fst (claude_parse_to_end hst clock content (claude_new path)))"

end
