(* ===== verification/Claude_Facts.thy ===== *)
theory Claude_Facts
  imports Claude_Parser
begin

text \<open>
  What the Claude Code parser guarantees: the \<open>line_parser\<close> interface (piecewise reading equals
  one pass), sessions that only grow and stay bounded, and usage counted once per message id in
  the convention that cached tokens are part of the input.
\<close>

section \<open>Handlers do not look at derived fields\<close>

definition claude_strip :: "claude_parser \<Rightarrow> claude_parser" where
  "claude_strip p = on_session strip_derived p"

lemma claude_strip_fields [simp]:
  "ap_byte_offset (claude_strip p) = ap_byte_offset p"
  "ap_file_path (claude_strip p) = ap_file_path p"
  "ap_is_subagent (claude_strip p) = ap_is_subagent p"
  "ap_seen_message_ids (claude_strip p) = ap_seen_message_ids p"
  "ap_seen_tool_ids (claude_strip p) = ap_seen_tool_ids p"
  "ap_current_turn_id (claude_strip p) = ap_current_turn_id p"
  "ap_pending_thread_name (claude_strip p) = ap_pending_thread_name p"
  "ap_session (claude_strip p) = map_option strip_derived (ap_session p)"
  by (simp_all add: claude_strip_def on_session_def)

lemma claude_strip_upd [simp]:
  "(claude_strip p)\<lparr>ap_seen_message_ids := a\<rparr> = claude_strip (p\<lparr>ap_seen_message_ids := a\<rparr>)"
  "(claude_strip p)\<lparr>ap_seen_tool_ids := b\<rparr> = claude_strip (p\<lparr>ap_seen_tool_ids := b\<rparr>)"
  "(claude_strip p)\<lparr>ap_current_turn_id := c\<rparr> = claude_strip (p\<lparr>ap_current_turn_id := c\<rparr>)"
  "(claude_strip p)\<lparr>ap_pending_thread_name := d\<rparr> = claude_strip (p\<lparr>ap_pending_thread_name := d\<rparr>)"
  by (simp_all add: claude_strip_def on_session_def)

lemma claude_strip_session:
  "claude_strip (p\<lparr>ap_session := Some s\<rparr>) = p\<lparr>ap_session := Some (strip_derived s)\<rparr>"
  "(claude_strip p)\<lparr>ap_session := z\<rparr> = p\<lparr>ap_session := z\<rparr>"
  by (simp_all add: claude_strip_def on_session_def)

lemma on_session_strip:
  "commutes g \<Longrightarrow> on_session g (claude_strip p) = claude_strip (on_session g p)"
  by (cases "ap_session p") (simp_all add: claude_strip_def on_session_def commutesD)

lemma commutes_metadata: "commutes (metadata_from root)"
  by (simp add: commutes_def metadata_from_def)

lemma strip_claude_session:
  "strip_derived (claude_session a b c d e f g h) = claude_session a b c d e f g h"
  by (simp add: claude_session_def strip_derived_def)

lemma strip_claude_ensure:
  "claude_ensure_session root t (claude_strip p) = claude_strip (claude_ensure_session root t p)"
proof (cases "ap_session p")
  case (Some s)
  then show ?thesis
    by (simp add: claude_ensure_session_def on_session_strip[OF commutes_metadata])
next
  case None
  then have "claude_strip p = p" by (simp add: claude_strip_def on_session_def)
  moreover have "claude_strip (claude_ensure_session root t p) = claude_ensure_session root t p"
    using None
    by (auto simp: claude_ensure_session_def claude_strip_def on_session_def
        commutes_strip[OF commutes_metadata] strip_claude_session split: option.splits prod.splits)
  ultimately show ?thesis by simp
qed

lemma strip_claude_user:
  "claude_handle_user root t (claude_strip p) = claude_strip (claude_handle_user root t p)"
  by (simp add: claude_handle_user_def Let_def on_session_strip[OF commutes_open_turn]
      split: option.splits)

lemma strip_claude_results:
  "claude_tool_results hst root t (claude_strip p) = claude_strip (claude_tool_results hst root t p)"
proof -
  have "commutes (\<lambda>s. s\<lparr>s_tool_observations := g (s_tool_observations s)\<rparr>)" for g
    by (rule commutes_observations)
  then show ?thesis
    by (simp add: claude_tool_results_def on_session_strip split: option.splits)
qed

definition observe_uses ::
    "host \<Rightarrow> string option \<Rightarrow> string option \<Rightarrow> timestamp option \<Rightarrow> (string \<times> string \<times> json) list
      \<Rightarrow> session \<Rightarrow> session" where
  "observe_uses hst turn_id model timestamp calls s =
     (case timestamp of
        None \<Rightarrow> s
      | Some ts \<Rightarrow> s\<lparr>s_tool_observations :=
          fold (observe_tool_use hst turn_id model ts) calls (s_tool_observations s)\<rparr>)"

lemma claude_assistant_parts:
  "claude_assistant_session hst is_sub turn_id root message timestamp first_occurrence tool_calls s =
    settle_current turn_id
      (settle_turn (get_str ''model'' message) (Option.bind (get ''usage'' message) usage_tier)
        timestamp
        (if \<not> unwrap_or False (get_bool ''isSidechain'' root) \<or> is_sub
         then last_text_block message else None))
      ((case map_option claude_usage_to_totals (get ''usage'' message) of
          None \<Rightarrow> (\<lambda>s. s)
        | Some delta \<Rightarrow>
            if first_occurrence \<and> claude_any_positive delta
            then add_usage delta (get_str ''model'' message)
              (Option.bind (get ''usage'' message) usage_tier) timestamp turn_id
            else (\<lambda>s. s))
        (observe_uses hst turn_id (get_str ''model'' message) timestamp tool_calls
          (s\<lparr>s_model := set_some (get_str ''model'' message) (s_model s),
             s_service_tier := set_some (Option.bind (get ''usage'' message) usage_tier)
               (s_service_tier s)\<rparr>)))"
  by (cases timestamp; cases "get ''usage'' message")
    (simp_all add: claude_assistant_session_def Let_def observe_uses_def)

lemma commutes_observe_uses: "commutes (observe_uses hst turn_id model timestamp calls)"
  by (cases timestamp) (simp_all add: commutes_def observe_uses_def)

lemma commutes_assistant:
  "commutes (claude_assistant_session hst is_sub turn_id root message timestamp first_occurrence tool_calls)"
proof -
  have models: "commutes (\<lambda>s. s\<lparr>s_model := f (s_model s), s_service_tier := g (s_service_tier s)\<rparr>)"
    for f g
    by (simp add: commutes_def)
  have "commutes (\<lambda>s. s)" by (simp add: commutes_def)
  then have usage: "commutes (case map_option claude_usage_to_totals (get ''usage'' message) of
          None \<Rightarrow> (\<lambda>s. s)
        | Some delta \<Rightarrow>
            if first_occurrence \<and> claude_any_positive delta
            then add_usage delta (get_str ''model'' message)
              (Option.bind (get ''usage'' message) usage_tier) timestamp turn_id
            else (\<lambda>s. s))"
    by (simp add: commutes_add_usage split: option.splits)
  show ?thesis
    unfolding claude_assistant_parts[abs_def]
    by (rule commutes_comp[OF commutes_settle_current[OF commutes_settle_turn]
        commutes_comp[OF usage commutes_comp[OF commutes_observe_uses models]]])
qed

lemma strip_claude_assistant:
  "claude_handle_assistant hst root t (claude_strip p) = claude_strip (claude_handle_assistant hst root t p)"
  by (auto simp: claude_handle_assistant_def Let_def
      on_session_strip[OF commutes_assistant] split: option.splits prod.splits)

lemma strip_claude_titles:
  "claude_custom_title a (claude_strip p) = claude_strip (claude_custom_title a p)"
  "claude_summary a (claude_strip p) = claude_strip (claude_summary a p)"
  by (cases "ap_session p";
      simp add: claude_custom_title_def claude_summary_def claude_strip_session)+

lemma strip_claude_line:
  "claude_apply_line hst now line (claude_strip p)
    = map_prod claude_strip id (claude_apply_line hst now line p)"
  by (auto simp: claude_apply_line_def claude_apply_record_def Let_def strip_claude_ensure
      on_session_strip[OF commutes_touch] strip_claude_results strip_claude_user
      strip_claude_assistant strip_claude_titles split: option.splits)

lemma offset_claude_line:
  "claude_apply_line hst now line (p\<lparr>ap_byte_offset := n\<rparr>)
    = map_prod (\<lambda>p. p\<lparr>ap_byte_offset := n\<rparr>) id (claude_apply_line hst now line p)"
proof -
  have e: "claude_ensure_session root t (q\<lparr>ap_byte_offset := n\<rparr>)
      = (claude_ensure_session root t q)\<lparr>ap_byte_offset := n\<rparr>" for root t q
    by (cases q) (auto simp: claude_ensure_session_def claude_identity_def on_session_def Let_def
        split: option.splits prod.splits)
  have s: "on_session g (q\<lparr>ap_byte_offset := n\<rparr>) = (on_session g q)\<lparr>ap_byte_offset := n\<rparr>" for g q
    by (simp add: on_session_def)
  have u: "claude_handle_user root t (q\<lparr>ap_byte_offset := n\<rparr>)
      = (claude_handle_user root t q)\<lparr>ap_byte_offset := n\<rparr>" for root t q
    by (cases q) (auto simp: claude_handle_user_def on_session_def Let_def split: option.splits)
  have r: "claude_tool_results hst root t (q\<lparr>ap_byte_offset := n\<rparr>)
      = (claude_tool_results hst root t q)\<lparr>ap_byte_offset := n\<rparr>" for root t q
    by (simp add: claude_tool_results_def s split: option.splits)
  have a: "claude_handle_assistant hst root t (q\<lparr>ap_byte_offset := n\<rparr>)
      = (claude_handle_assistant hst root t q)\<lparr>ap_byte_offset := n\<rparr>" for root t q
    by (auto simp: claude_handle_assistant_def Let_def on_session_def
        split: option.splits prod.splits)
  have t: "claude_custom_title x (q\<lparr>ap_byte_offset := n\<rparr>)
      = (claude_custom_title x q)\<lparr>ap_byte_offset := n\<rparr>"
    "claude_summary x (q\<lparr>ap_byte_offset := n\<rparr>) = (claude_summary x q)\<lparr>ap_byte_offset := n\<rparr>" for x q
    by (auto simp: claude_custom_title_def claude_summary_def split: option.splits)
  show ?thesis
    by (auto simp: claude_apply_line_def claude_apply_record_def Let_def e s u r a t
        split: option.splits)
qed

interpretation claude: line_parser "claude_apply_line hst" ap_byte_offset
  "\<lambda>n p. p\<lparr>ap_byte_offset := n\<rparr>" claude_reset claude_refresh claude_strip
  for hst
proof
  show "map_prod claude_strip id (claude_apply_line hst now l (claude_strip p))
      = map_prod claude_strip id (claude_apply_line hst now l p)" for now l p
  proof -
    have "claude_strip (claude_strip q) = claude_strip q" for q
      by (cases "ap_session q") (simp_all add: claude_strip_def on_session_def)
    then show ?thesis
      by (simp add: strip_claude_line map_prod_def split_beta)
  qed
  show "claude_strip (claude_refresh p) = claude_strip p" for p
    by (cases "ap_session p")
      (simp_all add: claude_strip_def claude_refresh_def on_session_def strip_refresh_session)
  show "claude_refresh (claude_strip p) = claude_refresh p" for p
    by (cases "ap_session p")
      (simp_all add: claude_strip_def claude_refresh_def on_session_def refresh_strip_session)
  show "\<not> snd (claude_apply_line hst now l p) \<Longrightarrow> fst (claude_apply_line hst now l p) = p" for now l p
    by (simp add: claude_apply_line_def Let_def split: option.splits)
qed (simp_all add: claude_reset_def claude_refresh_def claude_strip_def on_session_def
    offset_claude_line)

section \<open>Sessions only grow and stay bounded\<close>

definition claude_ok :: "claude_parser \<Rightarrow> bool" where
  "claude_ok p \<longleftrightarrow> pred_option session_bounded (ap_session p)"

definition claude_advances :: "claude_parser \<Rightarrow> claude_parser \<Rightarrow> bool" where
  "claude_advances p q \<longleftrightarrow>
     (claude_ok p \<longrightarrow> claude_ok q) \<and> session_grows (ap_session p) (ap_session q)"

lemma claude_advances_trans: "claude_advances p q \<Longrightarrow> claude_advances q r \<Longrightarrow> claude_advances p r"
  by (auto simp: claude_advances_def intro: session_grows_trans)

lemma claude_advances_session:
  "ap_session q = ap_session p \<Longrightarrow> claude_advances p q"
  by (simp add: claude_advances_def claude_ok_def)

lemma claude_advances_sound:
  assumes "sound g" and "ap_session q = map_option g (ap_session p)"
  shows "claude_advances p q"
  using assms(2) soundD[OF assms(1)]
  by (cases "ap_session p") (simp_all add: claude_advances_def claude_ok_def session_grows_def)

lemma claude_advances_on: "sound g \<Longrightarrow> claude_advances p (on_session g p)"
  by (rule claude_advances_sound) (simp_all add: on_session_def)

lemma sound_metadata: "sound (metadata_from root)"
  by (simp add: sound_def metadata_from_def grows_def session_bounded_def)

lemma claude_advances_ensure: "claude_advances p (claude_ensure_session root t p)"
proof (cases "ap_session p")
  case (Some s)
  then show ?thesis
    by (simp add: claude_ensure_session_def claude_advances_on[OF sound_metadata])
next
  case None
  have "session_bounded (claude_session a b c d e f g h)" for a b c d e f g h
    by (simp add: claude_session_def session_bounded_def)
  from soundD(2)[OF sound_metadata this] None show ?thesis
    by (auto simp: claude_ensure_session_def claude_advances_def claude_ok_def session_grows_def
        on_session_def split: option.splits prod.splits)
qed

lemma bounded_prompt: "char_count (take_chars turn_message_limit x) \<le> turn_message_limit"
  by (rule char_count_take_chars)

lemma claude_advances_user: "claude_advances p (claude_handle_user root t p)"
proof -
  have "claude_advances q (q\<lparr>ap_current_turn_id := x\<rparr>)" for q x
    by (simp add: claude_advances_session)
  from claude_advances_trans[OF claude_advances_on[OF sound_open_turn[OF bounded_prompt]] this]
  show ?thesis
    by (simp add: claude_handle_user_def Let_def claude_advances_session split: option.splits)
qed

lemma obs_grow_settle: "obs_grow obs (settle_result hst root t block obs)"
  by (simp add: settle_result_def Let_def obs_grow_result)

lemma claude_advances_results: "claude_advances p (claude_tool_results hst root t p)"
proof -
  have "claude_advances p (on_session (\<lambda>s. s\<lparr>s_tool_observations :=
      fold (settle_result hst root t) blocks (s_tool_observations s)\<rparr>) p)" for blocks
    by (rule claude_advances_on[OF sound_observations[OF obs_grow_fold[OF obs_grow_settle]]])
  then show ?thesis
    by (simp add: claude_tool_results_def claude_advances_session split: option.splits)
qed

lemma sound_observe_uses: "sound (observe_uses hst turn_id model timestamp calls)"
proof -
  have "obs_grow obs (observe_tool_use hst turn_id model ts c obs)" for ts c obs
    by (simp add: observe_tool_use_def obs_grow_call split: prod.splits)
  note o = sound_observations[OF obs_grow_fold[OF this]]
  show ?thesis
    by (cases timestamp) (auto simp: observe_uses_def[abs_def] sound_id intro!: o)
qed

lemma last_text_bounded: "pred_option (\<lambda>m. char_count m \<le> turn_message_limit) (last_text_block m)"
  by (auto simp: last_text_block_def split: option.splits)

lemma sound_assistant:
  "sound (claude_assistant_session hst is_sub turn_id root message timestamp first_occurrence tool_calls)"
proof -
  have msg: "pred_option (\<lambda>m. char_count m \<le> turn_message_limit)
      (if c then last_text_block message else None)" for c
    by (simp add: last_text_bounded)
  have models: "sound (\<lambda>s. s\<lparr>s_model := f (s_model s), s_service_tier := g (s_service_tier s)\<rparr>)"
    for f g
    by (simp add: sound_def grows_def session_bounded_def)
  have usage: "sound (case map_option claude_usage_to_totals (get ''usage'' message) of
          None \<Rightarrow> (\<lambda>s. s)
        | Some delta \<Rightarrow>
            if first_occurrence \<and> claude_any_positive delta
            then add_usage delta (get_str ''model'' message)
              (Option.bind (get ''usage'' message) usage_tier) timestamp turn_id
            else (\<lambda>s. s))"
    by (simp add: sound_id sound_add_usage split: option.splits)
  show ?thesis
    unfolding claude_assistant_parts[abs_def]
    by (rule sound_comp[OF sound_settle_current[OF settle_turn_evolves[OF msg]]
        sound_comp[OF usage sound_comp[OF sound_observe_uses models]]])
qed

lemma claude_advances_assistant: "claude_advances p (claude_handle_assistant hst root t p)"
  by (auto simp: claude_handle_assistant_def Let_def claude_advances_session
      split: option.splits prod.splits
      intro!: claude_advances_trans[OF claude_advances_session
        claude_advances_on[OF sound_assistant]])

lemma claude_advances_titles:
  "claude_advances p (claude_custom_title a p)" "claude_advances p (claude_summary a p)"
  by (cases "ap_session p";
      simp add: claude_custom_title_def claude_summary_def claude_advances_def claude_ok_def
        session_grows_def grows_def session_bounded_def)+

lemma claude_advances_line: "claude_advances p (fst (claude_apply_line hst now line p))"
proof -
  have t: "claude_advances q (on_session (touch ts) q)" for ts q
    by (rule claude_advances_sound[OF sound_touch]) (simp add: on_session_def)
  have r: "claude_advances q (claude_apply_record hst root ts q)" for root ts q
    using claude_advances_trans[OF claude_advances_results claude_advances_user]
    by (auto simp: claude_apply_record_def Let_def claude_advances_assistant claude_advances_titles
        claude_advances_session split: option.splits)
  show ?thesis
    by (auto simp: claude_apply_line_def Let_def claude_advances_session split: option.splits
        intro: claude_advances_trans[OF claude_advances_ensure]
          claude_advances_trans[OF claude_advances_trans[OF claude_advances_ensure t]] r)
qed

section \<open>Properties\<close>

text \<open>C8: Reading a Claude Code session file in pieces gives exactly the state of reading it once:
  session with its derived fields, offset, counted message ids, tool ids, current turn and
  pending name.\<close>

theorem claude_incremental:
  assumes "contents \<noteq> []" and "all_pairs prefix contents"
    and "ap_byte_offset p \<le> length (hd contents)"
  shows "fold (\<lambda>c p. fst (claude_parse_to_end hst clock c p)) contents p
    = fst (claude_parse_to_end hst clock (last contents) p)"
  using claude.parse_growing[OF assms] by (simp add: claude_parse_to_end_def)

text \<open>A session parsed from a Claude Code file keeps only bounded, redacted text whatever the
  file's bytes: prompt and reply previews of at most 500 characters, a first message of at most
  200, redacted observations, and turns numbered 1, 2, \<dots>; and no line of the file takes
  anything away from a session that exists: identity and start stay, the last event never moves
  back, history, turns and calls are only appended to.\<close>

theorem claude_session_bounded:
  "pred_option session_bounded (claude_parse_file hst clock path content)
   \<and> session_grows (ap_session p) (ap_session (fst (claude_apply_line hst now line p)))"
proof
  have "claude_ok (claude_new path)"
    by (simp add: claude_ok_def claude_new_def Let_def)
  then have "claude_ok (fst (claude_parse_to_end hst clock content (claude_new path)))"
    unfolding claude_parse_to_end_def
  proof (rule claude.parse_invariant)
    show "claude_ok (q\<lparr>ap_byte_offset := n\<rparr>)" if "claude_ok q" for n q
      using that by (simp add: claude_ok_def)
    show "claude_ok (fst (claude_apply_line hst now l q))" if "claude_ok q" for now l q
      using that claude_advances_line[of q hst now l] by (simp add: claude_advances_def)
    show "claude_ok (claude_refresh q)" if "claude_ok q" for q
      using that refresh_session_bounded
      by (cases "ap_session q") (simp_all add: claude_ok_def claude_refresh_def on_session_def)
    show "claude_ok (claude_reset q)" for q
      by (simp add: claude_ok_def claude_reset_def)
  qed
  then show "pred_option session_bounded (claude_parse_file hst clock path content)"
    by (simp add: claude_ok_def claude_parse_file_def)
  show "session_grows (ap_session p) (ap_session (fst (claude_apply_line hst now line p)))"
    using claude_advances_line[of p hst now line] by (simp add: claude_advances_def)
qed

definition usage_view ::
    "session \<Rightarrow> token_totals \<times> (string \<times> token_totals) list \<times> token_history_point list
      \<times> token_totals list" where
  "usage_view s = (s_tokens_total s, s_tokens_by_model s, s_tokens_history s,
     map t_tokens (s_turns s))"

lemma usage_view_settle:
  assumes "\<And>t. t_tokens (f t) = t_tokens t"
  shows "usage_view (settle_current turn_id f s) = usage_view s"
  using assms
  by (auto simp: settle_current_def usage_view_def upd_turn_def map_upd_first split: option.splits)

lemma usage_view_assistant:
  "usage_view (claude_assistant_session hst is_sub turn_id root message timestamp False calls s)
    = usage_view s"
proof -
  have o: "usage_view (observe_uses hst turn_id m timestamp calls s') = usage_view s'" for m s'
    by (cases timestamp) (simp_all add: observe_uses_def usage_view_def)
  have t: "t_tokens (settle_turn a b c d t) = t_tokens t" for a b c d t
    by (simp add: settle_turn_def)
  show ?thesis
    unfolding claude_assistant_parts usage_view_settle[OF t]
    by (simp add: o split: option.splits) (simp add: usage_view_def)
qed

text \<open>What the tokens of a parser say; without a session there are none.\<close>

definition parser_usage ::
    "claude_parser \<Rightarrow> token_totals \<times> (string \<times> token_totals) list \<times> token_history_point list
      \<times> token_totals list" where
  "parser_usage p = (case ap_session p of None \<Rightarrow> (0, [], [], []) | Some s \<Rightarrow> usage_view s)"

lemma parser_usage_on_session:
  assumes "\<And>s. usage_view (f s) = usage_view s"
  shows "parser_usage (on_session f p) = parser_usage p"
  using assms by (simp add: parser_usage_def on_session_def split: option.split)

lemma parser_total_on_session:
  assumes "\<And>s. s_tokens_total (f s) = s_tokens_total s"
  shows "fst (parser_usage (on_session f p)) = fst (parser_usage p)"
  using assms by (simp add: parser_usage_def on_session_def usage_view_def split: option.split)

lemma parser_usage_update [simp]:
  "parser_usage (p\<lparr>ap_seen_message_ids := a\<rparr>) = parser_usage p"
  "parser_usage (p\<lparr>ap_seen_tool_ids := b\<rparr>) = parser_usage p"
  "parser_usage (p\<lparr>ap_current_turn_id := c\<rparr>) = parser_usage p"
  "parser_usage (p\<lparr>ap_pending_thread_name := d\<rparr>) = parser_usage p"
  by (simp_all add: parser_usage_def)

lemma on_session_seen [simp]:
  "ap_seen_message_ids (on_session f p) = ap_seen_message_ids p" "ap_session (on_session f p) = map_option f (ap_session p)"
  by (simp_all add: on_session_def)

lemma usage_ensure:
  "parser_usage (claude_ensure_session root t p) = parser_usage p
    \<and> ap_seen_message_ids (claude_ensure_session root t p) = ap_seen_message_ids p"
proof -
  have m: "usage_view (metadata_from root s) = usage_view s" for s
    by (simp add: metadata_from_def usage_view_def)
  show ?thesis
    by (auto simp: claude_ensure_session_def parser_usage_on_session[OF m] split: option.split prod.split)
      (simp_all add: parser_usage_def on_session_def m, simp_all add: usage_view_def claude_session_def default_totals_eq)
qed

lemma usage_touch: "parser_usage (on_session (touch t) p) = parser_usage p"
  by (rule parser_usage_on_session) (simp add: touch_def usage_view_def)

lemma total_others:
  "fst (parser_usage (claude_handle_user root t p)) = fst (parser_usage p)"
  "fst (parser_usage (claude_tool_results hst root t p)) = fst (parser_usage p)"
  "fst (parser_usage (claude_custom_title n p)) = fst (parser_usage p)"
  "fst (parser_usage (claude_summary n p)) = fst (parser_usage p)"
proof -
  have "s_tokens_total (open_turn prev tid t msg s) = s_tokens_total s" for prev tid msg s
    by (simp add: open_turn_def Let_def upd_turn_def split: option.split)
  from parser_total_on_session[OF this]
  show "fst (parser_usage (claude_handle_user root t p)) = fst (parser_usage p)"
    by (simp add: claude_handle_user_def Let_def split: option.split)
  show "fst (parser_usage (claude_tool_results hst root t p)) = fst (parser_usage p)"
    by (simp add: claude_tool_results_def parser_total_on_session split: option.split)
qed (simp_all add: claude_custom_title_def claude_summary_def parser_usage_def usage_view_def split: option.split)

lemma seen_others:
  "ap_seen_message_ids (claude_handle_user root t p) = ap_seen_message_ids p"
  "ap_seen_message_ids (claude_tool_results hst root t p) = ap_seen_message_ids p"
  "ap_seen_message_ids (claude_custom_title n p) = ap_seen_message_ids p"
  "ap_seen_message_ids (claude_summary n p) = ap_seen_message_ids p"
  by (simp_all add: claude_handle_user_def claude_tool_results_def claude_custom_title_def claude_summary_def
      Let_def split: option.split)

text \<open>The id and the usage of the message of an assistant record; a synthetic message and one without an
  id have none.\<close>

definition message_usage :: "json \<Rightarrow> (string \<times> token_totals) option" where
  "message_usage root =
     (case get ''message'' root of
        None \<Rightarrow> None
      | Some m \<Rightarrow>
          if get_str ''model'' m = Some ''<synthetic>'' then None
          else
            (case get_str ''id'' m of
               None \<Rightarrow> None
             | Some i \<Rightarrow>
                 if i = [] then None
                 else Some (i, case get ''usage'' m of None \<Rightarrow> 0 | Some u \<Rightarrow> claude_usage_to_totals u)))"

lemma no_usage: "\<not> claude_any_positive t \<Longrightarrow> t = 0"
  by (intro token_totals.equality) (simp_all add: claude_any_positive_def word_gt_0)

lemma total_assistant:
  "s_tokens_total (claude_assistant_session hst is_sub turn_id root m t new calls s)
    = s_tokens_total s + (if new then case get ''usage'' m of None \<Rightarrow> 0 | Some u \<Rightarrow> claude_usage_to_totals u else 0)"
proof -
  have settle: "s_tokens_total (settle_current turn_id f s) = s_tokens_total s" for f s
    by (simp add: settle_current_def upd_turn_def split: option.split)
  have observe: "s_tokens_total (observe_uses hst turn_id a t b s) = s_tokens_total s" for a b s
    by (cases t) (simp_all add: observe_uses_def)
  have add: "s_tokens_total (add_usage d a b t turn_id s) = s_tokens_total s + d" for d a b s
    by (simp add: add_usage_def Let_def upd_turn_def split: option.split)
  show ?thesis
    unfolding claude_assistant_parts settle
    by (auto simp: observe add dest: no_usage split: option.split)
qed

lemma assistant_step:
  "ap_seen_message_ids (claude_handle_assistant hst root t p)
    = ap_seen_message_ids p \<union> set_option (map_option fst (message_usage root))"
  "fst (parser_usage (claude_handle_assistant hst root t p)) = fst (parser_usage p) +
    (case message_usage root of
       None \<Rightarrow> 0
     | Some (i, d) \<Rightarrow> if i \<notin> ap_seen_message_ids p \<and> ap_session p \<noteq> None then d else 0)"
  "message_usage root = Some (i, d) \<Longrightarrow> i \<in> ap_seen_message_ids p
    \<Longrightarrow> parser_usage (claude_handle_assistant hst root t p) = parser_usage p"
  "ap_session (claude_handle_assistant hst root t p) = None \<longleftrightarrow> ap_session p = None"
proof -
  show "ap_seen_message_ids (claude_handle_assistant hst root t p)
    = ap_seen_message_ids p \<union> set_option (map_option fst (message_usage root))"
    by (auto simp: claude_handle_assistant_def message_usage_def Let_def unwrap_or_def split: prod.split option.split)
  show "fst (parser_usage (claude_handle_assistant hst root t p)) = fst (parser_usage p) +
    (case message_usage root of
       None \<Rightarrow> 0
     | Some (i, d) \<Rightarrow> if i \<notin> ap_seen_message_ids p \<and> ap_session p \<noteq> None then d else 0)"
    by (auto simp: claude_handle_assistant_def message_usage_def Let_def unwrap_or_def parser_usage_def usage_view_def
        total_assistant split: prod.split option.split)
  show "parser_usage (claude_handle_assistant hst root t p) = parser_usage p"
    if "message_usage root = Some (i, d)" "i \<in> ap_seen_message_ids p"
    using that by (auto simp: claude_handle_assistant_def message_usage_def Let_def
        parser_usage_on_session[OF usage_view_assistant] split: prod.split option.splits if_splits)
  show "ap_session (claude_handle_assistant hst root t p) = None \<longleftrightarrow> ap_session p = None"
    by (simp add: claude_handle_assistant_def Let_def split: prod.split option.split)
qed

text \<open>Lines, and what the parser is after a number of them.\<close>

definition line_usage :: "host \<Rightarrow> string \<Rightarrow> (string \<times> token_totals) option" where
  "line_usage hst line =
     (case host_from_str hst line of
        None \<Rightarrow> None
      | Some root \<Rightarrow> if get_str ''type'' root = Some ''assistant'' then message_usage root else None)"

definition claude_run :: "host \<Rightarrow> (timestamp \<times> string) list \<Rightarrow> claude_parser \<Rightarrow> claude_parser" where
  "claude_run hst ls p = fold (\<lambda>(now, line) p. fst (claude_apply_line hst now line p)) ls p"

lemma record_step:
  assumes "x = (if get_str ''type'' root = Some ''assistant'' then message_usage root else None)"
  shows "ap_seen_message_ids (claude_apply_record hst root t p) = ap_seen_message_ids p \<union> set_option (map_option fst x)"
    and "fst (parser_usage (claude_apply_record hst root t p)) = fst (parser_usage p) +
      (case x of None \<Rightarrow> 0 | Some (i, d) \<Rightarrow>
        if i \<notin> ap_seen_message_ids p \<and> ap_session (claude_apply_record hst root t p) \<noteq> None then d else 0)"
    and "x = Some (i, d) \<Longrightarrow> i \<in> ap_seen_message_ids p \<Longrightarrow> parser_usage (claude_apply_record hst root t p) = parser_usage p"
proof -
  show "ap_seen_message_ids (claude_apply_record hst root t p) = ap_seen_message_ids p \<union> set_option (map_option fst x)"
    using assms by (cases "get_str ''type'' root")
      (auto simp: claude_apply_record_def Let_def seen_others assistant_step(1) split: option.split)
  show "fst (parser_usage (claude_apply_record hst root t p)) = fst (parser_usage p) +
      (case x of None \<Rightarrow> 0 | Some (i, d) \<Rightarrow>
        if i \<notin> ap_seen_message_ids p \<and> ap_session (claude_apply_record hst root t p) \<noteq> None then d else 0)"
    using assms by (cases "get_str ''type'' root")
      (auto simp: claude_apply_record_def Let_def total_others assistant_step(2,4) split: option.split)
  show "parser_usage (claude_apply_record hst root t p) = parser_usage p"
    if "x = Some (i, d)" "i \<in> ap_seen_message_ids p"
    using assms that assistant_step(3)[of root i d p hst t]
    by (cases "get_str ''type'' root = Some ''assistant''") (simp_all add: claude_apply_record_def)
qed

lemma line_step:
  "ap_seen_message_ids (fst (claude_apply_line hst now line p))
    = ap_seen_message_ids p \<union> set_option (map_option fst (line_usage hst line))"
  "fst (parser_usage (fst (claude_apply_line hst now line p))) = fst (parser_usage p) +
    (case line_usage hst line of None \<Rightarrow> 0 | Some (i, d) \<Rightarrow>
      if i \<notin> ap_seen_message_ids p \<and> ap_session (fst (claude_apply_line hst now line p)) \<noteq> None then d else 0)"
  "line_usage hst line = Some (i, d) \<Longrightarrow> i \<in> ap_seen_message_ids p
    \<Longrightarrow> parser_usage (fst (claude_apply_line hst now line p)) = parser_usage p"
proof -
  have "\<exists>root t q. fst (claude_apply_line hst now line p) = claude_apply_record hst root t q
      \<and> line_usage hst line = (if get_str ''type'' root = Some ''assistant'' then message_usage root else None)
      \<and> parser_usage q = parser_usage p \<and> ap_seen_message_ids q = ap_seen_message_ids p"
    if "host_from_str hst line = Some root" for root
  proof -
    define t where "t = Option.bind (get_str ''timestamp'' root) (host_parse_time hst)"
    define q where "q = (case t of None \<Rightarrow> claude_ensure_session root t p
      | Some ts \<Rightarrow> on_session (touch ts) (claude_ensure_session root t p))"
    have "parser_usage q = parser_usage p \<and> ap_seen_message_ids q = ap_seen_message_ids p"
      using usage_ensure[of root t p] by (cases t) (simp_all add: q_def usage_touch)
    moreover have "fst (claude_apply_line hst now line p) = claude_apply_record hst root t q"
      using that by (simp add: claude_apply_line_def Let_def t_def[symmetric] q_def)
    ultimately show ?thesis using that by (auto simp: line_usage_def)
  qed
  then consider
      (bad) "fst (claude_apply_line hst now line p) = p" "line_usage hst line = None"
    | (good) root t q where "fst (claude_apply_line hst now line p) = claude_apply_record hst root t q"
        "line_usage hst line = (if get_str ''type'' root = Some ''assistant'' then message_usage root else None)"
        "parser_usage q = parser_usage p" "ap_seen_message_ids q = ap_seen_message_ids p"
    by (cases "host_from_str hst line") (auto simp: claude_apply_line_def line_usage_def)
  note cases = this
  show "ap_seen_message_ids (fst (claude_apply_line hst now line p))
    = ap_seen_message_ids p \<union> set_option (map_option fst (line_usage hst line))"
    using cases by cases (simp, simp only: record_step(1))
  show "fst (parser_usage (fst (claude_apply_line hst now line p))) = fst (parser_usage p) +
    (case line_usage hst line of None \<Rightarrow> 0 | Some (i, d) \<Rightarrow>
      if i \<notin> ap_seen_message_ids p \<and> ap_session (fst (claude_apply_line hst now line p)) \<noteq> None then d else 0)"
    using cases
  proof cases
    case good
    show ?thesis unfolding good(1) record_step(2)[OF good(2)] good(3,4) by (rule refl)
  qed simp
  show "parser_usage (fst (claude_apply_line hst now line p)) = parser_usage p"
    if "line_usage hst line = Some (i, d)" "i \<in> ap_seen_message_ids p"
    using cases
  proof cases
    case good
    with that show ?thesis using record_step(3)[OF good(2)] by simp
  qed simp
qed

lemma run_snoc:
  "j < length ls \<Longrightarrow> claude_run hst (take (Suc j) ls) p
    = fst (claude_apply_line hst (fst (ls ! j)) (snd (ls ! j)) (claude_run hst (take j ls) p))"
  by (simp add: claude_run_def take_Suc_conv_app_nth case_prod_unfold)

lemma run_seen:
  assumes "ap_seen_message_ids p = {}" "k \<le> length ls"
  shows "ap_seen_message_ids (claude_run hst (take k ls) p)
    = {i. \<exists>j<k. map_option fst (line_usage hst (snd (ls ! j))) = Some i}"
  using assms(2)
proof (induction k)
  case 0
  then show ?case by (simp add: claude_run_def assms(1))
next
  case (Suc k)
  then show ?case
    by (auto simp: run_snoc line_step(1) less_Suc_eq elim!: option.set_cases)
qed

text \<open>C6: The usage of a message is counted once. After any lines of a file, the session's total is the sum
  of the usages of the messages at their first assistant record with their (non-empty) id, as far as the
  session existed by then; synthetic records and records without an id count nothing. Every later assistant
  record with an id seen before, however much comes in between, leaves the session's totals, per-model
  totals, token history and per-turn tokens as they are, whatever else it carries.\<close>

theorem claude_usage_counted_once:
  fixes hst path ls
  defines "state \<equiv> \<lambda>j. claude_run hst (take j ls) (claude_new path)"
    and "usage \<equiv> \<lambda>j. line_usage hst (snd (ls ! j))"
  defines "new_id \<equiv> \<lambda>j. usage j \<noteq> None \<and> (\<forall>i<j. map_option fst (usage i) \<noteq> map_option fst (usage j))"
  shows "fst (parser_usage (claude_run hst ls (claude_new path)))
      = (\<Sum>j\<leftarrow>filter (\<lambda>j. new_id j \<and> ap_session (state (Suc j)) \<noteq> None) [0..<length ls]. snd (the (usage j)))
    \<and> (\<forall>j<length ls. usage j \<noteq> None \<and> \<not> new_id j \<longrightarrow> parser_usage (state (Suc j)) = parser_usage (state j))"
proof
  have seen: "ap_seen_message_ids (state k) = {i. \<exists>j<k. map_option fst (usage j) = Some i}" if "k \<le> length ls" for k
    unfolding state_def usage_def
    by (rule run_seen[OF _ that]) (simp add: claude_new_def Let_def)
  have step: "state (Suc j) = fst (claude_apply_line hst (fst (ls ! j)) (snd (ls ! j)) (state j))"
    if "j < length ls" for j
    using that by (simp add: state_def run_snoc)
  have new: "new_id j \<longleftrightarrow> i \<notin> ap_seen_message_ids (state j)" if "j < length ls" "usage j = Some (i, d)" for i d j
    using that seen[of j] by (auto simp: new_id_def)
  have "fst (parser_usage (state k))
      = (\<Sum>j\<leftarrow>filter (\<lambda>j. new_id j \<and> ap_session (state (Suc j)) \<noteq> None) [0..<k]. snd (the (usage j)))"
    if "k \<le> length ls" for k
    using that
  proof (induction k)
    case 0
    then show ?case by (simp add: state_def claude_run_def parser_usage_def claude_new_def Let_def)
  next
    case (Suc k)
    then have k: "k < length ls" by simp
    have "fst (parser_usage (state (Suc k))) = fst (parser_usage (state k)) +
        (case usage k of None \<Rightarrow> 0 | Some (i, d) \<Rightarrow>
          if i \<notin> ap_seen_message_ids (state k) \<and> ap_session (state (Suc k)) \<noteq> None then d else 0)"
      unfolding step[OF k] usage_def by (rule line_step(2))
    with Suc show ?case
      using new[OF k] by (cases "usage k") (auto simp: new_id_def)
  qed
  from this[of "length ls"] show "fst (parser_usage (claude_run hst ls (claude_new path)))
      = (\<Sum>j\<leftarrow>filter (\<lambda>j. new_id j \<and> ap_session (state (Suc j)) \<noteq> None) [0..<length ls]. snd (the (usage j)))"
    by (simp add: state_def)
  show "\<forall>j<length ls. usage j \<noteq> None \<and> \<not> new_id j \<longrightarrow> parser_usage (state (Suc j)) = parser_usage (state j)"
  proof (intro allI impI)
    fix j
    assume j: "j < length ls" "usage j \<noteq> None \<and> \<not> new_id j"
    then obtain i d where u: "usage j = Some (i, d)" by auto
    with new[OF j(1) u] j(2) have "i \<in> ap_seen_message_ids (state j)" by simp
    with line_step(3) u show "parser_usage (state (Suc j)) = parser_usage (state j)"
      unfolding step[OF j(1)] usage_def by metis
  qed
qed

text \<open>Anthropic usage is mapped to totals in which cached and cache-creation tokens are
  disjoint parts of the input: without 64-bit overflow the input is exactly their sum with the
  uncached input, the total is input plus output, and the context-source breakdown of such a
  delta attributes exactly the uncached input to the unknown source.\<close>

theorem claude_usage_partition:
  fixes usage
  defines "field \<equiv> \<lambda>key. unat (unwrap_or 0 (get_u64 key usage))"
    and "totals \<equiv> claude_usage_to_totals usage"
  assumes "field ''input_tokens'' + field ''cache_read_input_tokens''
    + field ''cache_creation_input_tokens'' + field ''output_tokens'' < 2 ^ 64"
  shows "unat (input_tokens totals) = field ''input_tokens''
      + unat (cached_input_tokens totals) + unat (cache_creation_input_tokens totals)
    \<and> unat (total_tokens totals) = unat (input_tokens totals) + unat (output_tokens totals)
    \<and> (\<Sum>(_, n)\<leftarrow>context_source_breakdown totals. unat n) = unat (input_tokens totals)
    \<and> unat (sat_sub (sat_sub (input_tokens totals) (cached_input_tokens totals))
        (cache_creation_input_tokens totals)) = field ''input_tokens''"
proof -
  let ?i = "unwrap_or 0 (get_u64 ''input_tokens'' usage)"
  let ?r = "unwrap_or 0 (get_u64 ''cache_read_input_tokens'' usage)"
  let ?c = "unwrap_or 0 (get_u64 ''cache_creation_input_tokens'' usage)"
  let ?o = "unwrap_or 0 (get_u64 ''output_tokens'' usage)"
  have b: "unat ?i + unat ?r + unat ?c + unat ?o < 2 ^ LENGTH(64)"
    using assms(3) by (simp add: field_def)
  have ir: "unat (?i + ?r) = unat ?i + unat ?r"
    using b by (intro unat_add_bounded) linarith
  have irc: "unat (?i + ?r + ?c) = unat ?i + unat ?r + unat ?c"
    using b ir unat_add_bounded[of "?i + ?r" ?c] by linarith
  have tot: "unat (?i + ?r + ?c + ?o) = unat ?i + unat ?r + unat ?c + unat ?o"
    using b irc unat_add_bounded[of "?i + ?r + ?c" ?o] by linarith
  have sel: "input_tokens totals = ?i + ?r + ?c" "cached_input_tokens totals = ?r"
      "cache_creation_input_tokens totals = ?c" "output_tokens totals = ?o"
      "total_tokens totals = ?i + ?r + ?c + ?o"
    by (simp_all add: totals_def claude_usage_to_totals_def Let_def)
  show ?thesis
    unfolding sel field_def context_source_breakdown_sum unat_sat_sub irc tot by simp
qed

section \<open>Witnesses\<close>

definition sample_assistant :: json where
  "sample_assistant = Object [(''timestamp'', String ''t''), (''type'', String ''assistant''),
     (''sessionId'', String ''s''),
     (''message'', Object [(''id'', String ''m1''), (''model'', String ''opus''),
       (''usage'', Object [(''input_tokens'', Number (PosInt 3)),
         (''cache_read_input_tokens'', Number (PosInt 40)),
         (''cache_creation_input_tokens'', Number (PosInt 7)),
         (''output_tokens'', Number (PosInt 5))])])]"

definition claude_sample_host :: host where
  "claude_sample_host =
     \<lparr>host_from_str = (\<lambda>l. if l = ''assistant'' then Some sample_assistant else None),
      host_to_string = (\<lambda>_. Some ''{}''),
      host_parse_time = (\<lambda>t. if t = ''t'' then Some 5 else None),
      host_from_epoch = (\<lambda>i. Some (1000000000 * i))\<rparr>"

definition claude_pieces :: "string list" where
  "claude_pieces = [''assis'', ''assistant'' @ [newline],
     ''assistant'' @ newline # ''assistant'' @ [newline]]"

lemma claude_incremental_witness:
  "map_option (\<lambda>s. total_tokens (s_tokens_total s))
      (ap_session (fold (\<lambda>c p. fst (claude_parse_to_end claude_sample_host (\<lambda>_. 0) c p))
        claude_pieces (claude_new ''f.jsonl''))) = Some 55"
proof -
  have "fold (\<lambda>c p. fst (claude_parse_to_end claude_sample_host (\<lambda>_. 0) c p)) claude_pieces
      (claude_new ''f.jsonl'')
    = fst (claude_parse_to_end claude_sample_host (\<lambda>_. 0) (last claude_pieces)
        (claude_new ''f.jsonl''))"
    by (rule claude_incremental)
      (simp_all add: claude_pieces_def claude_new_def Let_def newline_def)
  moreover have "map_option (\<lambda>s. total_tokens (s_tokens_total s))
      (ap_session (fst (claude_parse_to_end claude_sample_host (\<lambda>_. 0) (last claude_pieces)
        (claude_new ''f.jsonl'')))) = Some 55"
    by code_simp
  ultimately show ?thesis by simp
qed

lemma claude_usage_counted_once_witness:
  "total_tokens (fst (parser_usage (claude_run claude_sample_host [(0, ''assistant''), (0, ''x''), (0, ''assistant'')]
      (claude_new ''f.jsonl'')))) = 55"
proof -
  let ?ls = "[(0::int, ''assistant''), (0, ''x''), (0, ''assistant'')]"
  have "map_option (\<lambda>(i, d). (i, total_tokens d)) (line_usage claude_sample_host ''assistant'') = Some (''m1'', 55)"
    by code_simp
  then obtain d where d: "line_usage claude_sample_host ''assistant'' = Some (''m1'', d)" "total_tokens d = 55"
    by auto
  have x: "line_usage claude_sample_host ''x'' = None"
    by code_simp
  have s: "ap_session (claude_run claude_sample_host [(0, ''assistant'')] (claude_new ''f.jsonl'')) \<noteq> None"
    by code_simp
  have u: "line_usage claude_sample_host (snd (?ls ! 0)) = Some (''m1'', d)"
      "line_usage claude_sample_host (snd (?ls ! 1)) = None"
      "line_usage claude_sample_host (snd (?ls ! 2)) = Some (''m1'', d)"
    using d(1) x by simp_all
  let ?p = "\<lambda>j. (line_usage claude_sample_host (snd (?ls ! j)) \<noteq> None
      \<and> (\<forall>i<j. map_option fst (line_usage claude_sample_host (snd (?ls ! i)))
          \<noteq> map_option fst (line_usage claude_sample_host (snd (?ls ! j)))))
      \<and> ap_session (claude_run claude_sample_host (take (Suc j) ?ls) (claude_new ''f.jsonl'')) \<noteq> None"
  have flt: "filter P [0..<length ?ls] = [0]" if "P 0" "\<not> P 1" "\<not> P 2" for P
    using that by (simp add: upt_rec numeral_2_eq_2)
  have "filter ?p [0..<length ?ls] = [0]"
  proof (rule flt)
    show "?p 0" using u(1) s by simp
    show "\<not> ?p 1" using u(2) by simp
    have "(0::nat) < 2" by simp
    then show "\<not> ?p 2" using u(1,3) by metis
  qed
  with claude_usage_counted_once[of claude_sample_host ?ls "''f.jsonl''"] d(2) u(1) show ?thesis
    by (simp only: list.map sum_list_simps snd_conv option.sel) simp
qed

lemma claude_usage_partition_witness:
  "unat (input_tokens (claude_usage_to_totals
      (Object [(''input_tokens'', Number (PosInt 3)),
               (''cache_read_input_tokens'', Number (PosInt 40))]))) = 43"
  using claude_usage_partition[of "Object [(''input_tokens'', Number (PosInt 3)),
      (''cache_read_input_tokens'', Number (PosInt 40))]"]
  by (simp add: claude_usage_to_totals_def get_u64_def)

end
