(* ===== verification/Gemini_Parser.thy ===== *)
theory Gemini_Parser
  imports Session_Updates
begin

text \<open>
  \<open>src-tauri/src/gemini_parser.rs\<close>: the incremental parser of Gemini CLI session logs. The
  session is created by the header line; every later record is a user prompt or a model reply
  that carries its usage and its already settled tool calls. The turn bookkeeping
  (\<open>open_turn\<close>, \<open>settle_turn\<close>, \<open>settle_current\<close>, \<open>add_usage\<close>) is the same code as in the Claude
  parser and stands in \<open>Session_Updates\<close>.
\<close>

record gemini_parser =
  gp_session :: "session option"
  gp_byte_offset :: nat
  gp_file_path :: string
  gp_seen_message_ids :: "string set"
  gp_seen_tool_ids :: "string set"
  gp_current_turn_id :: "string option"

definition gemini_new :: "string \<Rightarrow> gemini_parser" where
  "gemini_new file_path =
     \<lparr>gp_session = None, gp_byte_offset = 0, gp_file_path = file_path,
      gp_seen_message_ids = {}, gp_seen_tool_ids = {}, gp_current_turn_id = None\<rparr>"

definition gemini_reset :: "gemini_parser \<Rightarrow> gemini_parser" where
  "gemini_reset p =
     p\<lparr>gp_session := None, gp_byte_offset := 0, gp_seen_message_ids := {},
       gp_seen_tool_ids := {}, gp_current_turn_id := None\<rparr>"

definition in_session :: "(session \<Rightarrow> session) \<Rightarrow> gemini_parser \<Rightarrow> gemini_parser" where
  "in_session f p = p\<lparr>gp_session := map_option f (gp_session p)\<rparr>"

section \<open>Reading records\<close>

definition user_message_text :: "json \<Rightarrow> string option" where
  "user_message_text root =
     (case get ''content'' root of
        Some (String s) \<Rightarrow> if trim s \<noteq> [] then Some s else None
      | Some (Array parts) \<Rightarrow>
          let joined = join '' '' (filter_map (get_str ''text'') parts)
          in if trim joined \<noteq> [] then Some joined else None
      | _ \<Rightarrow> None)"

definition gemini_last_text :: "json \<Rightarrow> string option" where
  "gemini_last_text root =
     map_option (\<lambda>text. take_chars turn_message_limit (trim text)) (user_message_text root)"

definition tool_calls_of :: "json \<Rightarrow> (string \<times> string \<times> json \<times> string option) list" where
  "tool_calls_of root =
     filter_map (\<lambda>call.
        map_option (\<lambda>call_id.
          (call_id, unwrap_or ''unknown'' (get_str ''name'' call),
           unwrap_or Null (get ''args'' call), get_str ''status'' call))
          (get_str ''id'' call))
       (unwrap_or [] (Option.bind (get ''toolCalls'' root) as_array))"

definition outcome_from_status :: "string option \<Rightarrow> tool_outcome" where
  "outcome_from_status status =
     (case map_option to_ascii_lowercase status of
        None \<Rightarrow> OutUnknown
      | Some s \<Rightarrow>
          if contains ''error'' s \<or> contains ''fail'' s \<or> contains ''cancel'' s then OutFailure
          else OutSuccess)"

definition tokens_field :: "json \<Rightarrow> string \<Rightarrow> u64" where
  "tokens_field tokens key = unwrap_or 0 (get_u64 key tokens)"

definition tokens_any_positive :: "json \<Rightarrow> bool" where
  "tokens_any_positive root =
     (case get ''tokens'' root of
        None \<Rightarrow> False
      | Some tokens \<Rightarrow>
          tokens_field tokens ''input'' > 0 \<or> tokens_field tokens ''output'' > 0
          \<or> tokens_field tokens ''cached'' > 0 \<or> tokens_field tokens ''thoughts'' > 0)"

definition gemini_usage_to_totals :: "json \<Rightarrow> token_totals option" where
  "gemini_usage_to_totals root =
     map_option (\<lambda>tokens.
       let inp = tokens_field tokens ''input'';
           cached = tokens_field tokens ''cached'';
           thoughts = tokens_field tokens ''thoughts'';
           out = tokens_field tokens ''output'' + thoughts
       in \<lparr>input_tokens = inp,
           cached_input_tokens = cached,
           cache_creation_input_tokens = 0,
           output_tokens = out,
           reasoning_output_tokens = thoughts,
           total_tokens = inp + out\<rparr>) (get ''tokens'' root)"

section \<open>Records\<close>

definition gemini_session :: "string \<Rightarrow> string \<Rightarrow> timestamp \<Rightarrow> session" where
  "gemini_session sid file_path started_at =
     \<lparr>s_id = sid,
      s_storage_id = storage_id_for_session gemini_cli_provider_id sid,
      s_harness = gemini_cli_provider_id,
      s_thread_name = None,
      s_forked_from_id = None,
      s_parent_thread_id = None,
      s_agent_path = None,
      s_agent_nickname = None,
      s_file_path = file_path,
      s_source_availability = AvailPresent,
      s_lifecycle = LifePresent,
      s_archived = False,
      s_started_at = started_at,
      s_last_event_at = started_at,
      s_working_directory = None,
      s_originator = None,
      s_source = None,
      s_subagent_id_is_path_fallback = False,
      s_history_mode = None,
      s_memory_mode = None,
      s_cli_version = None,
      s_model_provider = Some ''google'',
      s_model = None, s_service_tier = None, s_plan_type = None, s_credits_unlimited = None,
      s_credits_balance = None, s_context_window = None, s_latest_context_tokens = None,
      s_total_turns = 0, s_first_user_message = None, s_tokens_total = default_totals,
      s_tokens_by_model = [], s_tokens_history = [], s_rate_limits_history = [],
      s_turns = [], s_tool_observations = [], s_tool_metrics = default_metrics,
      s_tool_metrics_by_model = [], s_category_totals = [], s_optimization_findings = [],
      s_project_key = None, s_project_label = None, s_project_provenance = None\<rparr>"

definition gemini_ensure_session :: "host \<Rightarrow> json \<Rightarrow> gemini_parser \<Rightarrow> gemini_parser" where
  "gemini_ensure_session hst header p =
     (case get_str ''sessionId'' header of
        None \<Rightarrow> p
      | Some session_id \<Rightarrow>
          if session_id = [] then p
          else case Option.bind (get_str ''startTime'' header) (host_parse_time hst) of
                 None \<Rightarrow> p
               | Some started_at \<Rightarrow>
                   p\<lparr>gp_session := Some (gemini_session session_id (gp_file_path p) started_at)\<rparr>)"

definition gemini_handle_user :: "json \<Rightarrow> timestamp option \<Rightarrow> gemini_parser \<Rightarrow> gemini_parser" where
  "gemini_handle_user root timestamp p =
     (case user_message_text root of
        None \<Rightarrow> p
      | Some prompt \<Rightarrow>
          let turn_id = unwrap_or [] (get_str ''id'' root);
              truncated = take_chars turn_message_limit (trim_end prompt)
          in if turn_id = [] \<or> gp_session p = None then p
             else (in_session (open_turn (gp_current_turn_id p) turn_id timestamp truncated) p)
                    \<lparr>gp_current_turn_id := Some turn_id\<rparr>)"

definition gemini_tool_call ::
    "host \<Rightarrow> string option \<Rightarrow> string option \<Rightarrow> timestamp
      \<Rightarrow> string \<times> string \<times> json \<times> string option
      \<Rightarrow> string set \<times> tool_observation list \<Rightarrow> string set \<times> tool_observation list" where
  "gemini_tool_call hst turn_id model ts = (\<lambda>(call_id, name, args, status) (seen, obs).
     if call_id = [] \<or> call_id \<in> seen then (seen, obs)
     else
       (insert call_id seen,
        observe_result
          (observe_call hst obs
            \<lparr>in_call_id = call_id, in_turn_id = turn_id, in_harness = gemini_cli_provider_id,
             in_model = model, in_timestamp = ts, in_name = name, in_arguments = args\<rparr>)
          call_id (outcome_from_status status) None (Some ts) 0))"

definition gemini_reply_session ::
    "json \<Rightarrow> string option \<Rightarrow> string option \<Rightarrow> timestamp option \<Rightarrow> bool
      \<Rightarrow> tool_observation list \<Rightarrow> session \<Rightarrow> session" where
  "gemini_reply_session root turn_id model timestamp first_occurrence obs s =
     (let s = s\<lparr>s_model := set_some model (s_model s), s_tool_observations := obs\<rparr>;
          s = (if first_occurrence \<and> tokens_any_positive root
               then case (gemini_usage_to_totals root, timestamp) of
                      (Some delta, Some ts) \<Rightarrow> add_usage delta model None (Some ts) turn_id s
                    | _ \<Rightarrow> s
               else s)
      in settle_current turn_id (settle_turn model None timestamp (gemini_last_text root)) s)"

definition gemini_handle_reply ::
    "host \<Rightarrow> json \<Rightarrow> timestamp option \<Rightarrow> gemini_parser \<Rightarrow> gemini_parser" where
  "gemini_handle_reply hst root timestamp p =
     (let model = get_str ''model'' root;
          message_id = unwrap_or [] (get_str ''id'' root);
          first_occurrence = (message_id \<noteq> [] \<and> message_id \<notin> gp_seen_message_ids p);
          p = (if message_id \<noteq> []
               then p\<lparr>gp_seen_message_ids := insert message_id (gp_seen_message_ids p)\<rparr> else p)
      in case gp_session p of
           None \<Rightarrow> p
         | Some s \<Rightarrow>
             (case (case timestamp of
                      None \<Rightarrow> (gp_seen_tool_ids p, s_tool_observations s)
                    | Some ts \<Rightarrow>
                        fold (gemini_tool_call hst (gp_current_turn_id p) model ts)
                          (tool_calls_of root) (gp_seen_tool_ids p, s_tool_observations s)) of
                (seen, obs) \<Rightarrow>
                  p\<lparr>gp_seen_tool_ids := seen,
                    gp_session := Some (gemini_reply_session root (gp_current_turn_id p) model
                      timestamp first_occurrence obs s)\<rparr>))"

section \<open>Lines and files\<close>

definition gemini_apply_record ::
    "host \<Rightarrow> json \<Rightarrow> string \<Rightarrow> gemini_parser \<Rightarrow> gemini_parser" where
  "gemini_apply_record hst root record_type p =
     (let timestamp = Option.bind (get_str ''timestamp'' root) (host_parse_time hst);
          p = (case timestamp of None \<Rightarrow> p | Some ts \<Rightarrow> in_session (touch ts) p)
      in if record_type = ''user'' then gemini_handle_user root timestamp p
         else if record_type = ''gemini'' then gemini_handle_reply hst root timestamp p
         else p)"

definition gemini_apply_line ::
    "host \<Rightarrow> timestamp \<Rightarrow> string \<Rightarrow> gemini_parser \<Rightarrow> gemini_parser \<times> bool" where
  "gemini_apply_line hst now line p =
     (case host_from_str hst line of
        None \<Rightarrow> (p, False)
      | Some root \<Rightarrow>
          let has_type = get_str ''type'' root;
              has_header_fields =
                (get_str ''sessionId'' root \<noteq> None \<and> get ''startTime'' root \<noteq> None)
          in if gp_session p = None
             then (if has_type = None \<and> has_header_fields then gemini_ensure_session hst root p
                   else p, True)
             else case has_type of
                    None \<Rightarrow> (p, True)
                  | Some record_type \<Rightarrow> (gemini_apply_record hst root record_type p, True))"

definition gemini_refresh :: "gemini_parser \<Rightarrow> gemini_parser" where
  "gemini_refresh p = in_session refresh_session p"

definition gemini_parse_to_end ::
    "host \<Rightarrow> (nat \<Rightarrow> timestamp) \<Rightarrow> string \<Rightarrow> gemini_parser \<Rightarrow> gemini_parser \<times> bool" where
  "gemini_parse_to_end hst =
     parse_file_to_end (gemini_apply_line hst) gp_byte_offset (\<lambda>n p. p\<lparr>gp_byte_offset := n\<rparr>)
       gemini_reset gemini_refresh"

definition gemini_parse_file ::
    "host \<Rightarrow> (nat \<Rightarrow> timestamp) \<Rightarrow> string \<Rightarrow> string \<Rightarrow> session option" where
  "gemini_parse_file hst clock path content =
     gp_session (fst (gemini_parse_to_end hst clock content (gemini_new path)))"

end
