(* ===== verification/Gemini_Facts.thy ===== *)
theory Gemini_Facts
  imports Gemini_Parser Range_Totals
begin

text \<open>
  What the Gemini CLI parser guarantees: the \<open>line_parser\<close> interface, bounded sessions that only
  grow, and conservation of tokens: the running total, the per-model buckets and the token
  history of a session always describe the same usage.
\<close>

section \<open>Handlers do not look at derived fields\<close>

definition gemini_strip :: "gemini_parser \<Rightarrow> gemini_parser" where
  "gemini_strip p = in_session strip_derived p"

lemma gemini_strip_fields [simp]:
  "gp_byte_offset (gemini_strip p) = gp_byte_offset p"
  "gp_file_path (gemini_strip p) = gp_file_path p"
  "gp_seen_message_ids (gemini_strip p) = gp_seen_message_ids p"
  "gp_seen_tool_ids (gemini_strip p) = gp_seen_tool_ids p"
  "gp_current_turn_id (gemini_strip p) = gp_current_turn_id p"
  "gp_session (gemini_strip p) = map_option strip_derived (gp_session p)"
  by (simp_all add: gemini_strip_def in_session_def)

lemma gemini_strip_upd [simp]:
  "(gemini_strip p)\<lparr>gp_seen_message_ids := a\<rparr> = gemini_strip (p\<lparr>gp_seen_message_ids := a\<rparr>)"
  "(gemini_strip p)\<lparr>gp_current_turn_id := c\<rparr> = gemini_strip (p\<lparr>gp_current_turn_id := c\<rparr>)"
  by (simp_all add: gemini_strip_def in_session_def)

lemma in_session_strip:
  "commutes g \<Longrightarrow> in_session g (gemini_strip p) = gemini_strip (in_session g p)"
  by (cases "gp_session p") (simp_all add: gemini_strip_def in_session_def commutesD)

lemma strip_gemini_user:
  "gemini_handle_user root t (gemini_strip p) = gemini_strip (gemini_handle_user root t p)"
  by (simp add: gemini_handle_user_def Let_def in_session_strip[OF commutes_open_turn]
      split: option.splits)

definition gemini_usage ::
    "json \<Rightarrow> string option \<Rightarrow> string option \<Rightarrow> timestamp option \<Rightarrow> bool \<Rightarrow> session \<Rightarrow> session" where
  "gemini_usage root turn_id model timestamp first_occurrence s =
     (if first_occurrence \<and> tokens_any_positive root
      then case (gemini_usage_to_totals root, timestamp) of
             (Some delta, Some ts) \<Rightarrow> add_usage delta model None (Some ts) turn_id s
           | _ \<Rightarrow> s
      else s)"

lemma gemini_reply_parts:
  "gemini_reply_session root turn_id model timestamp first_occurrence obs s =
    settle_current turn_id (settle_turn model None timestamp (gemini_last_text root))
      (gemini_usage root turn_id model timestamp first_occurrence
        (s\<lparr>s_model := set_some model (s_model s), s_tool_observations := obs\<rparr>))"
  by (simp add: gemini_reply_session_def gemini_usage_def Let_def)

lemma gemini_usage_cases:
  "gemini_usage root turn_id model timestamp first_occurrence = (\<lambda>s. s)
    \<or> (\<exists>delta ts. gemini_usage root turn_id model timestamp first_occurrence
        = add_usage delta model None (Some ts) turn_id)"
proof (cases "first_occurrence \<and> tokens_any_positive root
    \<and> gemini_usage_to_totals root \<noteq> None \<and> timestamp \<noteq> None")
  case True
  then obtain delta ts where "gemini_usage_to_totals root = Some delta" "timestamp = Some ts"
    by auto
  with True have "gemini_usage root turn_id model timestamp first_occurrence
      = add_usage delta model None (Some ts) turn_id"
    by (simp add: gemini_usage_def fun_eq_iff)
  then show ?thesis by blast
qed (auto simp: gemini_usage_def fun_eq_iff split: option.splits)

lemma commutes_gemini_usage:
  "commutes (gemini_usage root turn_id model timestamp first_occurrence)"
proof -
  have "commutes (\<lambda>s. s)" by (simp add: commutes_def)
  then show ?thesis
    using gemini_usage_cases[of root turn_id model timestamp first_occurrence]
      commutes_add_usage by auto
qed

lemma commutes_gemini_reply:
  "commutes (gemini_reply_session root turn_id model timestamp first_occurrence obs)"
proof -
  have models: "commutes (\<lambda>s. s\<lparr>s_model := f (s_model s), s_tool_observations := obs\<rparr>)" for f
    by (simp add: commutes_def)
  show ?thesis
    unfolding gemini_reply_parts[abs_def]
    by (rule commutes_comp[OF commutes_settle_current[OF commutes_settle_turn]
        commutes_comp[OF commutes_gemini_usage models]])
qed

lemma strip_gemini_reply:
  "gemini_handle_reply hst root t (gemini_strip p) = gemini_strip (gemini_handle_reply hst root t p)"
  by (cases p; cases "gp_session p"; cases t)
    (auto simp: gemini_handle_reply_def Let_def gemini_strip_def in_session_def
      commutesD[OF commutes_gemini_reply] split: prod.splits)

lemma strip_gemini_line:
  "gemini_apply_line hst now line (gemini_strip p)
    = map_prod gemini_strip id (gemini_apply_line hst now line p)"
proof (cases "gp_session p")
  case None
  then have p: "gemini_strip p = p" by (simp add: gemini_strip_def in_session_def)
  have "strip_derived (gemini_session a b c) = gemini_session a b c" for a b c
    by (simp add: gemini_session_def strip_derived_def)
  then have "gemini_strip (gemini_ensure_session hst root p) = gemini_ensure_session hst root p" for root
    using None by (simp add: gemini_ensure_session_def gemini_strip_def in_session_def split: option.splits)
  then show ?thesis
    unfolding p using None p by (simp add: gemini_apply_line_def Let_def split: option.splits)
next
  case (Some s)
  then show ?thesis
    by (simp add: gemini_apply_line_def gemini_apply_record_def Let_def
        in_session_strip[OF commutes_touch] strip_gemini_user strip_gemini_reply
        split: option.splits)
qed

lemma offset_gemini_line:
  "gemini_apply_line hst now line (p\<lparr>gp_byte_offset := n\<rparr>)
    = map_prod (\<lambda>p. p\<lparr>gp_byte_offset := n\<rparr>) id (gemini_apply_line hst now line p)"
proof -
  have e: "gemini_ensure_session hst root (q\<lparr>gp_byte_offset := n\<rparr>)
      = (gemini_ensure_session hst root q)\<lparr>gp_byte_offset := n\<rparr>" for root q
    by (simp add: gemini_ensure_session_def split: option.splits)
  have s: "in_session g (q\<lparr>gp_byte_offset := n\<rparr>) = (in_session g q)\<lparr>gp_byte_offset := n\<rparr>" for g q
    by (simp add: in_session_def)
  have u: "gemini_handle_user root t (q\<lparr>gp_byte_offset := n\<rparr>)
      = (gemini_handle_user root t q)\<lparr>gp_byte_offset := n\<rparr>" for root t q
    by (cases q) (auto simp: gemini_handle_user_def in_session_def Let_def split: option.splits)
  have r: "gemini_handle_reply hst root t (q\<lparr>gp_byte_offset := n\<rparr>)
      = (gemini_handle_reply hst root t q)\<lparr>gp_byte_offset := n\<rparr>" for root t q
    by (cases q; cases t) (auto simp: gemini_handle_reply_def Let_def split: option.splits prod.splits)
  show ?thesis
    by (auto simp: gemini_apply_line_def gemini_apply_record_def Let_def e s u r
        split: option.splits)
qed

interpretation gemini: line_parser "gemini_apply_line hst" gp_byte_offset
  "\<lambda>n p. p\<lparr>gp_byte_offset := n\<rparr>" gemini_reset gemini_refresh gemini_strip
  for hst
proof
  show "map_prod gemini_strip id (gemini_apply_line hst now l (gemini_strip p))
      = map_prod gemini_strip id (gemini_apply_line hst now l p)" for now l p
  proof -
    have "gemini_strip (gemini_strip q) = gemini_strip q" for q
      by (cases "gp_session q") (simp_all add: gemini_strip_def in_session_def)
    then show ?thesis
      by (simp add: strip_gemini_line map_prod_def split_beta)
  qed
  show "gemini_strip (gemini_refresh p) = gemini_strip p" for p
    by (cases "gp_session p")
      (simp_all add: gemini_strip_def gemini_refresh_def in_session_def strip_refresh_session)
  show "gemini_refresh (gemini_strip p) = gemini_refresh p" for p
    by (cases "gp_session p")
      (simp_all add: gemini_strip_def gemini_refresh_def in_session_def refresh_strip_session)
  show "\<not> snd (gemini_apply_line hst now l p) \<Longrightarrow> fst (gemini_apply_line hst now l p) = p" for now l p
    by (simp add: gemini_apply_line_def Let_def split: option.splits if_splits)
qed (simp_all add: gemini_reset_def gemini_refresh_def gemini_strip_def in_session_def
    offset_gemini_line)

section \<open>Sessions grow, stay bounded and conserve tokens\<close>

text \<open>Total, per-model totals and history describe the same usage.\<close>

definition conserved :: "session \<Rightarrow> bool" where
  "conserved s \<longleftrightarrow>
     s_tokens_total s = (\<Sum>ev\<leftarrow>s_tokens_history s. h_delta ev)
     \<and> (\<Sum>t\<leftarrow>map snd (s_tokens_by_model s). t)
         = (\<Sum>ev\<leftarrow>filter modelled (s_tokens_history s). h_delta ev)
     \<and> (s_tokens_history s \<noteq> [] \<longrightarrow>
         h_total_tokens (last (s_tokens_history s)) = total_tokens (s_tokens_total s))"

definition gemini_good :: "session \<Rightarrow> bool" where
  "gemini_good s \<longleftrightarrow> session_bounded s \<and> conserved s"

definition gemini_ok :: "gemini_parser \<Rightarrow> bool" where
  "gemini_ok p \<longleftrightarrow> pred_option gemini_good (gp_session p)"

definition gemini_advances :: "gemini_parser \<Rightarrow> gemini_parser \<Rightarrow> bool" where
  "gemini_advances p q \<longleftrightarrow>
     (gemini_ok p \<longrightarrow> gemini_ok q) \<and> session_grows (gp_session p) (gp_session q)"

lemma gemini_advances_trans: "gemini_advances p q \<Longrightarrow> gemini_advances q r \<Longrightarrow> gemini_advances p r"
  by (auto simp: gemini_advances_def intro: session_grows_trans)

lemma gemini_advances_session:
  "gp_session q = gp_session p \<Longrightarrow> gemini_advances p q"
  by (simp add: gemini_advances_def gemini_ok_def)

lemma gemini_advances_update:
  assumes "sound g" and "\<And>s. conserved s \<Longrightarrow> conserved (g s)"
    and "gp_session q = map_option g (gp_session p)"
  shows "gemini_advances p q"
  using assms(2,3) soundD[OF assms(1)]
  by (cases "gp_session p")
    (simp_all add: gemini_advances_def gemini_ok_def gemini_good_def session_grows_def)

lemma sum_hm_entry:
  "(\<Sum>t\<leftarrow>map snd (hm_entry k 0 (\<lambda>e. e + c) m). t) = (\<Sum>t\<leftarrow>map snd m. t) + (c :: token_totals)"
  by (induction k "0::token_totals" "\<lambda>e. e + c" m rule: hm_entry.induct) (auto simp: ac_simps)

lemma conserved_same_usage:
  "s_tokens_total t = s_tokens_total s \<Longrightarrow> s_tokens_by_model t = s_tokens_by_model s \<Longrightarrow>
    s_tokens_history t = s_tokens_history s \<Longrightarrow> conserved t = conserved s"
  by (simp add: conserved_def)

lemma conserved_add_usage:
  "conserved s \<Longrightarrow> conserved (add_usage delta model tier (Some ts) turn_id s)"
  using sum_hm_entry[of "the model" delta "s_tokens_by_model s"]
  by (cases model; cases turn_id)
    (simp_all add: conserved_def add_usage_def Let_def modelled_def upd_turn_def ac_simps)

lemma conserved_gemini_usage:
  "conserved s \<Longrightarrow> conserved (gemini_usage root turn_id model timestamp first_occurrence s)"
  using gemini_usage_cases[of root turn_id model timestamp first_occurrence] conserved_add_usage
  by auto

lemma conserved_settle: "conserved (settle_current turn_id f s) = conserved s"
  by (rule conserved_same_usage)
    (simp_all add: settle_current_def upd_turn_def split: option.splits)

lemma conserved_reply:
  "conserved s \<Longrightarrow>
    conserved (gemini_reply_session root turn_id model timestamp first_occurrence obs s)"
  unfolding gemini_reply_parts conserved_settle
  by (rule conserved_gemini_usage) (simp add: conserved_def)

lemma gemini_text_bounded:
  "pred_option (\<lambda>m. char_count m \<le> turn_message_limit) (gemini_last_text root)"
  by (simp add: gemini_last_text_def)

lemma obs_grow_gemini_call:
  "obs_grow (snd z) (snd (gemini_tool_call hst turn_id model ts c z))"
  by (auto simp: gemini_tool_call_def intro: obs_grow_trans[OF obs_grow_call obs_grow_result]
      split: prod.splits)

lemma obs_grow_gemini_calls:
  "obs_grow (snd z) (snd (fold (gemini_tool_call hst turn_id model ts) cs z))"
proof (induction cs arbitrary: z)
  case (Cons c cs)
  from obs_grow_trans[OF obs_grow_gemini_call Cons] show ?case by simp
qed simp

lemma gemini_reply_advances:
  fixes root turn_id model timestamp first_occurrence obs s
  assumes grow: "obs_grow (s_tool_observations s) obs"
  defines "s' \<equiv> gemini_reply_session root turn_id model timestamp first_occurrence obs s"
  shows "grows s s' \<and> (gemini_good s \<longrightarrow> gemini_good s')"
proof -
  have usage: "sound (gemini_usage root turn_id model timestamp first_occurrence)"
    using gemini_usage_cases[of root turn_id model timestamp first_occurrence] sound_add_usage
      sound_id by auto
  have g: "sound (\<lambda>s. settle_current turn_id
      (settle_turn model None timestamp (gemini_last_text root))
      (gemini_usage root turn_id model timestamp first_occurrence s))"
    by (rule sound_comp[OF sound_settle_current[OF settle_turn_evolves[OF gemini_text_bounded]]
        usage])
  let ?s = "s\<lparr>s_model := set_some model (s_model s), s_tool_observations := obs\<rparr>"
  have "grows s ?s \<and> (session_bounded s \<longrightarrow> session_bounded ?s)"
    using grow by (simp add: grows_def session_bounded_def obs_grow_def)
  moreover have "grows ?s s' \<and> (session_bounded ?s \<longrightarrow> session_bounded s')"
    unfolding s'_def gemini_reply_parts using soundD[OF g, of ?s] by blast
  ultimately show ?thesis
    using conserved_reply[of s] grows_trans unfolding gemini_good_def s'_def by blast
qed

lemma gemini_advances_reply: "gemini_advances p (gemini_handle_reply hst root t p)"
proof (cases "gp_session p")
  case (Some s)
  obtain seen obs where so: "(case t of
        None \<Rightarrow> (gp_seen_tool_ids p, s_tool_observations s)
      | Some ts \<Rightarrow>
          fold (gemini_tool_call hst (gp_current_turn_id p) (get_str ''model'' root) ts)
            (tool_calls_of root) (gp_seen_tool_ids p, s_tool_observations s)) = (seen, obs)"
    by fastforce
  have "obs_grow (s_tool_observations s) obs"
    using so obs_grow_gemini_calls[of "(gp_seen_tool_ids p, s_tool_observations s)" hst
        "gp_current_turn_id p" "get_str ''model'' root" "the t" "tool_calls_of root"]
    by (cases t) auto
  note adv = gemini_reply_advances[OF this]
  have "\<exists>first. gp_session (gemini_handle_reply hst root t p)
      = Some (gemini_reply_session root (gp_current_turn_id p) (get_str ''model'' root) t first obs s)"
    using so by (cases t) (auto simp: gemini_handle_reply_def Let_def Some)
  then obtain first where "gp_session (gemini_handle_reply hst root t p)
      = Some (gemini_reply_session root (gp_current_turn_id p) (get_str ''model'' root) t first obs s)"
    by blast
  with Some adv show ?thesis
    by (simp add: gemini_advances_def gemini_ok_def session_grows_def)
qed (simp add: gemini_handle_reply_def Let_def gemini_advances_session)

lemma conserved_open_turn: "conserved (open_turn prev tid t msg s) = conserved s"
  by (rule conserved_same_usage)
    (simp_all add: open_turn_def Let_def upd_turn_def split: option.splits)

lemma gemini_advances_user: "gemini_advances p (gemini_handle_user root t p)"
proof -
  have "gemini_advances p (in_session (open_turn prev tid t (take_chars turn_message_limit x)) p)"
    for prev tid x
    by (rule gemini_advances_update[OF sound_open_turn[OF char_count_take_chars]])
      (simp_all add: conserved_open_turn in_session_def)
  moreover have "gemini_advances q (q\<lparr>gp_current_turn_id := x\<rparr>)" for q x
    by (simp add: gemini_advances_session)
  ultimately have "gemini_advances p ((in_session (open_turn prev tid t
      (take_chars turn_message_limit x)) p)\<lparr>gp_current_turn_id := y\<rparr>)" for prev tid x y
    by (rule gemini_advances_trans)
  then show ?thesis
    by (simp add: gemini_handle_user_def Let_def gemini_advances_session split: option.splits)
qed

lemma gemini_advances_line: "gemini_advances p (fst (gemini_apply_line hst now line p))"
proof -
  have t: "gemini_advances q (in_session (touch ts) q)" for ts q
    by (rule gemini_advances_update[OF sound_touch])
      (simp_all add: in_session_def touch_def conserved_def)
  have new: "gemini_good (gemini_session a b c)" for a b c
    by (simp add: gemini_good_def session_bounded_def conserved_def gemini_session_def)
  have e: "gp_session q = None \<Longrightarrow> gemini_advances q (gemini_ensure_session hst root q)" for root q
    using new by (auto simp: gemini_ensure_session_def gemini_advances_def gemini_ok_def
        session_grows_def split: option.splits)
  have tu: "gemini_advances q (gemini_handle_user root x (in_session (touch ts) q))" for root x ts q
    by (rule gemini_advances_trans[OF t gemini_advances_user])
  have tr: "gemini_advances q (gemini_handle_reply hst root x (in_session (touch ts) q))"
    for root x ts q
    by (rule gemini_advances_trans[OF t gemini_advances_reply])
  have r: "gemini_advances q (gemini_apply_record hst root ty q)" for root ty q
    by (cases "Option.bind (get_str ''timestamp'' root) (host_parse_time hst)")
      (simp_all add: gemini_apply_record_def Let_def gemini_advances_session t tu tr
        gemini_advances_user gemini_advances_reply)
  show ?thesis
    by (auto simp: gemini_apply_line_def Let_def gemini_advances_session e r split: option.splits)
qed

section \<open>Properties\<close>

text \<open>Reading a Gemini CLI session log in pieces gives exactly the state of reading it once.\<close>

theorem gemini_incremental:
  assumes "contents \<noteq> []" and "all_pairs prefix contents"
    and "gp_byte_offset p \<le> length (hd contents)"
  shows "fold (\<lambda>c p. fst (gemini_parse_to_end hst clock c p)) contents p
    = fst (gemini_parse_to_end hst clock (last contents) p)"
  using gemini.parse_growing[OF assms] by (simp add: gemini_parse_to_end_def)

lemma conserved_refresh: "conserved (refresh_session s) = conserved s"
  by (rule conserved_same_usage)
    (simp_all add: refresh_session_def Let_def split: prod.splits)

lemma gemini_refresh_good: "gemini_good s \<Longrightarrow> gemini_good (refresh_session s)"
  using refresh_session_bounded by (simp add: gemini_good_def conserved_refresh)

lemma gemini_parse_good: "pred_option gemini_good (gemini_parse_file hst clock path content)"
proof -
  have "gemini_ok (gemini_new path)"
    by (simp add: gemini_ok_def gemini_new_def)
  then have "gemini_ok (fst (gemini_parse_to_end hst clock content (gemini_new path)))"
    unfolding gemini_parse_to_end_def
  proof (rule gemini.parse_invariant)
    show "gemini_ok (q\<lparr>gp_byte_offset := n\<rparr>)" if "gemini_ok q" for n q
      using that by (simp add: gemini_ok_def)
    show "gemini_ok (fst (gemini_apply_line hst now l q))" if "gemini_ok q" for now l q
      using that gemini_advances_line[of q hst now l] by (simp add: gemini_advances_def)
    show "gemini_ok (gemini_refresh q)" if "gemini_ok q" for q
      using that gemini_refresh_good
      by (cases "gp_session q") (simp_all add: gemini_ok_def gemini_refresh_def in_session_def)
    show "gemini_ok (gemini_reset q)" for q
      by (simp add: gemini_ok_def gemini_reset_def)
  qed
  then show ?thesis by (simp add: gemini_ok_def gemini_parse_file_def)
qed

text \<open>C7: A parsed Gemini session conserves tokens: its running total is the sum of its history's
  deltas, its per-model totals add up to the deltas attributed to a model, and therefore the
  rollup over the open window reports exactly the session's total.\<close>

theorem gemini_tokens_conserved:
  "pred_option (\<lambda>s.
      s_tokens_total s = (\<Sum>ev\<leftarrow>s_tokens_history s. h_delta ev)
      \<and> (\<Sum>t\<leftarrow>map snd (s_tokens_by_model s). t)
          = (\<Sum>ev\<leftarrow>filter modelled (s_tokens_history s). h_delta ev)
      \<and> r_tokens (range_totals s (None, None)) = s_tokens_total s)
    (gemini_parse_file hst clock path content)"
proof -
  have "r_tokens (range_totals s (None, None)) = (\<Sum>ev\<leftarrow>s_tokens_history s. h_delta ev)" for s
    by (simp add: range_total_sel in_window_def)
  then show ?thesis
    using gemini_parse_good[of hst clock path content]
    by (cases "gemini_parse_file hst clock path content")
      (simp_all add: gemini_good_def conserved_def)
qed

text \<open>A Gemini session keeps only bounded, redacted text whatever the file's bytes, and no line
  takes anything away from a session that exists.\<close>

lemma gemini_session_bounded:
  "pred_option session_bounded (gemini_parse_file hst clock path content)
   \<and> session_grows (gp_session p) (gp_session (fst (gemini_apply_line hst now line p)))"
  using gemini_parse_good[of hst clock path content] gemini_advances_line[of p hst now line]
  by (cases "gemini_parse_file hst clock path content")
    (simp_all add: gemini_good_def gemini_advances_def)

section \<open>Witness\<close>

definition gemini_header :: json where
  "gemini_header = Object [(''sessionId'', String ''s''), (''startTime'', String ''t'')]"

definition gemini_message :: json where
  "gemini_message = Object [(''id'', String ''m1''), (''type'', String ''gemini''),
     (''timestamp'', String ''t''), (''model'', String ''pro''),
     (''tokens'', Object [(''input'', Number (PosInt 100)), (''cached'', Number (PosInt 60)),
       (''output'', Number (PosInt 5)), (''thoughts'', Number (PosInt 2))])]"

definition gemini_sample_host :: host where
  "gemini_sample_host =
     \<lparr>host_from_str = (\<lambda>l. if l = ''header'' then Some gemini_header
                        else if l = ''reply'' then Some gemini_message else None),
      host_to_string = (\<lambda>_. Some ''{}''),
      host_parse_time = (\<lambda>t. if t = ''t'' then Some 5 else None),
      host_from_epoch = (\<lambda>i. Some (1000000000 * i))\<rparr>"

definition gemini_pieces :: "string list" where
  "gemini_pieces = [''header'' @ newline # ''re'', ''header'' @ newline # ''reply'' @ [newline]]"

lemma gemini_incremental_witness:
  "map_option (\<lambda>s. total_tokens (s_tokens_total s))
      (gp_session (fold (\<lambda>c p. fst (gemini_parse_to_end gemini_sample_host (\<lambda>_. 0) c p))
        gemini_pieces (gemini_new ''f''))) = Some 107"
proof -
  have "fold (\<lambda>c p. fst (gemini_parse_to_end gemini_sample_host (\<lambda>_. 0) c p)) gemini_pieces
      (gemini_new ''f'')
    = fst (gemini_parse_to_end gemini_sample_host (\<lambda>_. 0) (last gemini_pieces)
        (gemini_new ''f''))"
    by (rule gemini_incremental)
      (simp_all add: gemini_pieces_def gemini_new_def newline_def)
  moreover have "map_option (\<lambda>s. total_tokens (s_tokens_total s))
      (gp_session (fst (gemini_parse_to_end gemini_sample_host (\<lambda>_. 0) (last gemini_pieces)
        (gemini_new ''f'')))) = Some 107"
    by code_simp
  ultimately show ?thesis by simp
qed

end
