(* ===== verification/Provider_Sources.thy ===== *)
theory Provider_Sources
  imports Codex_Invariants Claude_Facts Gemini_Facts "HOL-Library.Sublist"
begin

text \<open>
  \<open>src-tauri/src/provider.rs\<close>: provider ids, the registry of adapters, and the validated set of
  source roots. A root is owned by a provider and a kind (live or archived); the set is built once
  and every scanned or watched path is resolved to its owner through it. Paths are Unix paths
  (byte strings); their components, extension and stem follow \<open>std::path\<close>.
\<close>

section \<open>Paths\<close>

datatype component = RootDir | CurDir | ParentDir | Normal string

definition components_of :: "string \<Rightarrow> component list" where
  "components_of path =
     (let pieces = path_pieces path;
          body = map (\<lambda>p. if p = ''..'' then ParentDir else Normal p)
                   (filter (\<lambda>p. p \<noteq> [] \<and> p \<noteq> ''.'') pieces)
      in if starts_with ''/'' path then RootDir # body
         else if hd pieces = ''.'' then CurDir # body
         else body)"

text \<open>\<open>Path::starts_with\<close> compares components.\<close>

definition path_starts_with :: "string \<Rightarrow> string \<Rightarrow> bool" where
  "path_starts_with path base \<longleftrightarrow> prefix (components_of base) (components_of path)"

definition component_name :: "component list \<Rightarrow> string option" where
  "component_name cs =
     (if cs = [] then None else case last cs of Normal n \<Rightarrow> Some n | _ \<Rightarrow> None)"

text \<open>The name of the parent directory: \<open>path.parent().and_then(Path::file_name)\<close>.\<close>

definition parent_name :: "string \<Rightarrow> string option" where
  "parent_name path =
     (let cs = components_of path in
      if cs = [] \<or> last cs = RootDir then None else component_name (butlast cs))"

definition path_extension :: "string \<Rightarrow> string option" where
  "path_extension path =
     Option.bind (file_name path) (\<lambda>name.
       case rsplit_once CHR ''.'' name of
         None \<Rightarrow> None
       | Some (before, after) \<Rightarrow> if before = [] then None else Some after)"

text \<open>\<open>OsStr::to_str\<close>.\<close>

definition to_str :: "string \<Rightarrow> string option" where
  "to_str s = (if utf8_valid s then Some s else None)"

text \<open>\<open>paths.rs\<close>: a Windows verbatim prefix is stripped; its UNC form goes back to the plain one.\<close>

definition backslash :: char where "backslash = CHR 0x5C"

definition verbatim :: string where
  "verbatim = [backslash, backslash, CHR ''?'', backslash]"

definition strip_verbatim_prefix :: "string \<Rightarrow> string" where
  "strip_verbatim_prefix path =
     (case to_str path of
        None \<Rightarrow> path
      | Some txt \<Rightarrow>
          (case strip_prefix (verbatim @ ''UNC'' @ [backslash]) txt of
             Some stripped \<Rightarrow> [backslash, backslash] @ stripped
           | None \<Rightarrow> (case strip_prefix verbatim txt of Some stripped \<Rightarrow> stripped | None \<Rightarrow> path)))"

text \<open>The identity key of a path; on Unix the case is kept.\<close>

definition normalized_path_key :: "string \<Rightarrow> bool \<Rightarrow> string" where
  "normalized_path_key path trim_trailing =
     (let normalized = map (\<lambda>c. if c = backslash then CHR ''/'' else c) (strip_verbatim_prefix path)
      in if trim_trailing then rev (dropWhile (\<lambda>c. c = CHR ''/'') (rev normalized)) else normalized)"

section \<open>Provider ids and adapters\<close>

definition ascii_lowercase_char :: "string \<Rightarrow> bool" where
  "ascii_lowercase_char c \<longleftrightarrow> (case c of [b] \<Rightarrow> byte CHR ''a'' \<le> byte b \<and> byte b \<le> byte CHR ''z'' | _ \<Rightarrow> False)"

definition ascii_digit_char :: "string \<Rightarrow> bool" where
  "ascii_digit_char c \<longleftrightarrow> (case c of [b] \<Rightarrow> byte CHR ''0'' \<le> byte b \<and> byte b \<le> byte CHR ''9'' | _ \<Rightarrow> False)"

datatype provider_error =
    InvalidProviderId
  | EmptyRoot
  | UnknownProvider provider_id
  | ArchivedUnsupported provider_id
  | AmbiguousRoots string string

definition provider_id_new :: "string \<Rightarrow> provider_error + provider_id" where
  "provider_id_new v =
     (case chars v of
        [] \<Rightarrow> Inl InvalidProviderId
      | first # rest \<Rightarrow>
          if ascii_lowercase_char first
             \<and> list_all (\<lambda>c. ascii_lowercase_char c \<or> ascii_digit_char c \<or> c = ''_'' \<or> c = ''-'') rest
          then Inr v else Inl InvalidProviderId)"

record provider_capabilities =
  cap_archived_sources :: bool
  cap_session_index :: bool
  cap_currency :: string
  cap_deep_link :: bool
  cap_quota_source :: bool
  cap_mcp_dimension :: bool
  cap_shell_dimension :: bool
  cap_language_dimension :: bool
  cap_context_dimension :: bool

record provider_descriptor =
  pd_id :: provider_id
  pd_display_name :: string
  pd_capabilities :: provider_capabilities

definition codex_descriptor :: provider_descriptor where
  "codex_descriptor =
     \<lparr>pd_id = codex_provider_id, pd_display_name = ''Codex'',
      pd_capabilities =
        \<lparr>cap_archived_sources = True, cap_session_index = True, cap_currency = ''credits'',
         cap_deep_link = True, cap_quota_source = True, cap_mcp_dimension = True,
         cap_shell_dimension = True, cap_language_dimension = True, cap_context_dimension = True\<rparr>\<rparr>"

definition claude_code_descriptor :: provider_descriptor where
  "claude_code_descriptor =
     \<lparr>pd_id = claude_code_provider_id, pd_display_name = ''Claude Code'',
      pd_capabilities =
        \<lparr>cap_archived_sources = False, cap_session_index = False, cap_currency = ''USD'',
         cap_deep_link = False, cap_quota_source = False, cap_mcp_dimension = True,
         cap_shell_dimension = True, cap_language_dimension = True, cap_context_dimension = True\<rparr>\<rparr>"

definition gemini_cli_descriptor :: provider_descriptor where
  "gemini_cli_descriptor =
     \<lparr>pd_id = gemini_cli_provider_id, pd_display_name = ''Gemini CLI'',
      pd_capabilities =
        \<lparr>cap_archived_sources = False, cap_session_index = False, cap_currency = ''USD'',
         cap_deep_link = False, cap_quota_source = False, cap_mcp_dimension = False,
         cap_shell_dimension = False, cap_language_dimension = True, cap_context_dimension = True\<rparr>\<rparr>"

datatype adapter = CodexAdapter | ClaudeCodeAdapter | GeminiCliAdapter

definition descriptor :: "adapter \<Rightarrow> provider_descriptor" where
  "descriptor a =
     (case a of CodexAdapter \<Rightarrow> codex_descriptor | ClaudeCodeAdapter \<Rightarrow> claude_code_descriptor
      | GeminiCliAdapter \<Rightarrow> gemini_cli_descriptor)"

definition builtin_adapters :: "adapter list" where
  "builtin_adapters = [CodexAdapter, ClaudeCodeAdapter, GeminiCliAdapter]"

definition find_adapter :: "provider_id \<Rightarrow> adapter option" where
  "find_adapter pid = List.find (\<lambda>a. pd_id (descriptor a) = pid) builtin_adapters"

datatype source_kind = Live | Archived

definition kind_is_archived :: "source_kind \<Rightarrow> bool" where
  "kind_is_archived kind \<longleftrightarrow> kind = Archived"

definition is_jsonl :: "string \<Rightarrow> bool" where
  "is_jsonl path \<longleftrightarrow> Option.bind (path_extension path) to_str = Some ''jsonl''"

definition is_gemini_session_jsonl :: "string \<Rightarrow> bool" where
  "is_gemini_session_jsonl path \<longleftrightarrow>
     is_jsonl path
     \<and> (case Option.bind (file_stem path) to_str of
          None \<Rightarrow> False | Some stem \<Rightarrow> starts_with ''session-'' stem)
     \<and> Option.bind (parent_name path) to_str = Some ''chats''"

definition accepts_path :: "adapter \<Rightarrow> string \<Rightarrow> bool" where
  "accepts_path a path \<longleftrightarrow>
     (case a of GeminiCliAdapter \<Rightarrow> is_gemini_session_jsonl path | _ \<Rightarrow> is_jsonl path)"

definition accepts_cached_session :: "adapter \<Rightarrow> session \<Rightarrow> source_kind \<Rightarrow> bool" where
  "accepts_cached_session a s kind \<longleftrightarrow>
     (case a of
        CodexAdapter \<Rightarrow> s_harness s = codex_provider_id \<and> s_archived s = kind_is_archived kind
      | ClaudeCodeAdapter \<Rightarrow>
          s_harness s = claude_code_provider_id \<and> \<not> kind_is_archived kind \<and> \<not> s_archived s
      | GeminiCliAdapter \<Rightarrow>
          s_harness s = gemini_cli_provider_id \<and> \<not> kind_is_archived kind \<and> \<not> s_archived s)"

definition ensure_live_only :: "provider_descriptor \<Rightarrow> source_kind \<Rightarrow> provider_error + unit" where
  "ensure_live_only d kind =
     (if kind_is_archived kind \<and> \<not> cap_archived_sources (pd_capabilities d)
      then Inl (ArchivedUnsupported (pd_id d)) else Inr ())"

definition adapter_parse_file ::
    "host \<Rightarrow> (nat \<Rightarrow> timestamp) \<Rightarrow> adapter \<Rightarrow> string \<Rightarrow> source_kind \<Rightarrow> string
     \<Rightarrow> provider_error + session option" where
  "adapter_parse_file hst clock a path kind content =
     (case a of
        CodexAdapter \<Rightarrow> Inr (codex_parse_file hst clock path (kind_is_archived kind) content)
      | ClaudeCodeAdapter \<Rightarrow>
          map_sum id (\<lambda>_. claude_parse_file hst clock path content)
            (ensure_live_only (descriptor a) kind)
      | GeminiCliAdapter \<Rightarrow>
          map_sum id (\<lambda>_. gemini_parse_file hst clock path content)
            (ensure_live_only (descriptor a) kind))"

section \<open>The source set\<close>

record provider_source =
  ps_provider_id :: provider_id
  ps_root :: string
  ps_kind :: source_kind

definition same_owner :: "provider_source \<Rightarrow> provider_source \<Rightarrow> bool" where
  "same_owner l r \<longleftrightarrow> ps_provider_id l = ps_provider_id r \<and> ps_kind l = ps_kind r"

definition roots_overlap :: "string \<Rightarrow> string \<Rightarrow> bool" where
  "roots_overlap l r =
     (let l = strip_verbatim_prefix l; r = strip_verbatim_prefix r
      in path_starts_with l r \<or> path_starts_with r l)"

definition root_contains :: "string \<Rightarrow> string \<Rightarrow> bool" where
  "root_contains parent child =
     path_starts_with (strip_verbatim_prefix child) (strip_verbatim_prefix parent)"

definition source_acceptable :: "provider_source \<Rightarrow> provider_error + unit" where
  "source_acceptable src =
     (if ps_root src = [] then Inl EmptyRoot
      else case find_adapter (ps_provider_id src) of
          None \<Rightarrow> Inl (UnknownProvider (ps_provider_id src))
        | Some a \<Rightarrow> ensure_live_only (descriptor a) (ps_kind src))"

text \<open>The body of the first loop of \<open>try_new\<close>: the new vector of unique sources.\<close>

definition add_source ::
    "provider_source list \<Rightarrow> provider_source \<Rightarrow> provider_error + provider_source list" where
  "add_source unique src =
     (case source_acceptable src of
        Inl e \<Rightarrow> Inl e
      | Inr _ \<Rightarrow>
          (case List.find (\<lambda>x. roots_overlap (ps_root x) (ps_root src) \<and> \<not> same_owner x src) unique of
             Some x \<Rightarrow> Inl (AmbiguousRoots (ps_root x) (ps_root src))
           | None \<Rightarrow>
               if list_ex (\<lambda>x. same_owner x src \<and> root_contains (ps_root x) (ps_root src)) unique
               then Inr unique
               else Inr (filter (\<lambda>x. \<not> (same_owner x src \<and> root_contains (ps_root src) (ps_root x)))
                           unique @ [src])))"

fun add_sources ::
    "provider_source list \<Rightarrow> provider_source list \<Rightarrow> provider_error + provider_source list" where
  "add_sources unique [] = Inr unique"
| "add_sources unique (src # srcs) =
    (case add_source unique src of Inl e \<Rightarrow> Inl e | Inr u \<Rightarrow> add_sources u srcs)"

text \<open>The second loop: the first ambiguous pair, left before right.\<close>

fun ambiguous_pair :: "provider_source list \<Rightarrow> provider_error option" where
  "ambiguous_pair [] = None"
| "ambiguous_pair (l # rest) =
    (case List.find (\<lambda>r. roots_overlap (ps_root l) (ps_root r) \<and> \<not> same_owner l r) rest of
       Some r \<Rightarrow> Some (AmbiguousRoots (ps_root l) (ps_root r))
     | None \<Rightarrow> ambiguous_pair rest)"

definition source_set_try_new :: "provider_source list \<Rightarrow> provider_error + provider_source list" where
  "source_set_try_new srcs =
     (case add_sources [] srcs of
        Inl e \<Rightarrow> Inl e
      | Inr unique \<Rightarrow> (case ambiguous_pair unique of Some e \<Rightarrow> Inl e | None \<Rightarrow> Inr unique))"

text \<open>\<open>max_by_key\<close> keeps the last of equal maxima.\<close>

definition resolve_source :: "provider_source list \<Rightarrow> string \<Rightarrow> provider_source option" where
  "resolve_source srcs path =
     map_option fst
       (max_by_key snd
         (filter_map (\<lambda>src.
            let root = strip_verbatim_prefix (ps_root src) in
            if path_starts_with (strip_verbatim_prefix path) root
            then Some (src, length (components_of root)) else None) srcs))"

section \<open>Containment of roots\<close>

text \<open>What the set relies on: containment is a preorder in which the ancestors of one path are
  comparable.\<close>

locale forest_order =
  fixes holds_in :: "'r \<Rightarrow> 'r \<Rightarrow> bool"
  assumes holds_refl: "holds_in a a"
    and holds_trans: "holds_in a b \<Longrightarrow> holds_in b c \<Longrightarrow> holds_in a c"
    and holds_comparable: "holds_in a c \<Longrightarrow> holds_in b c \<Longrightarrow> holds_in a b \<or> holds_in b a"
begin

lemma comparable_above:
  "holds_in c d \<Longrightarrow> holds_in d n \<or> holds_in n d \<Longrightarrow> holds_in c n \<or> holds_in n c"
  using holds_trans holds_comparable by blast

end

interpretation root: forest_order root_contains
  by unfold_locales
    (auto simp: root_contains_def path_starts_with_def intro: prefix_order.trans
      dest: prefix_same_cases)

lemma roots_overlap_iff: "roots_overlap a b \<longleftrightarrow> root_contains a b \<or> root_contains b a"
  by (auto simp: roots_overlap_def root_contains_def Let_def)

lemma same_owner_equiv:
  "same_owner x x" "same_owner x y \<Longrightarrow> same_owner y x"
  "same_owner x y \<Longrightarrow> same_owner y z \<Longrightarrow> same_owner x z"
  by (simp_all add: same_owner_def)

lemma find_none: "List.find P xs = None \<longleftrightarrow> (\<forall>x\<in>set xs. \<not> P x)"
  by (induction xs) auto

section \<open>The set while it is built\<close>

definition covers :: "provider_source \<Rightarrow> provider_source \<Rightarrow> bool" where
  "covers x y \<longleftrightarrow> same_owner x y \<and> root_contains (ps_root x) (ps_root y)"

definition apart :: "provider_source \<Rightarrow> provider_source \<Rightarrow> bool" where
  "apart x y \<longleftrightarrow> \<not> roots_overlap (ps_root x) (ps_root y)"

definition compatible :: "provider_source \<Rightarrow> provider_source \<Rightarrow> bool" where
  "compatible x y \<longleftrightarrow> apart x y \<or> same_owner x y"

text \<open>\<open>unique\<close> is what the first loop keeps of the sources it has seen.\<close>

definition keeps :: "provider_source list \<Rightarrow> provider_source list \<Rightarrow> bool" where
  "keeps unique seen \<longleftrightarrow>
     set unique \<subseteq> set seen \<and> sorted_wrt apart unique
     \<and> (\<forall>x\<in>set seen. \<exists>y\<in>set unique. covers y x)"

lemma covers_trans: "covers x y \<Longrightarrow> covers y z \<Longrightarrow> covers x z"
  using root.holds_trans by (auto simp: covers_def intro: same_owner_equiv)

lemma covers_refl [simp]: "covers x x"
  by (simp add: covers_def root.holds_refl same_owner_equiv)

lemma apart_or_covers: "compatible x y \<Longrightarrow> \<not> covers x y \<Longrightarrow> \<not> covers y x \<Longrightarrow> apart x y"
  by (auto simp: compatible_def apart_def covers_def roots_overlap_iff same_owner_def)

lemma compatible_covered: "covers x y \<Longrightarrow> compatible x z \<Longrightarrow> compatible y z"
  using root.comparable_above[of "ps_root x" "ps_root y" "ps_root z"]
  by (auto simp: compatible_def apart_def covers_def roots_overlap_iff same_owner_def)

lemma compatible_all: "keeps u seen \<Longrightarrow> (\<forall>x\<in>set u. compatible x z) \<longleftrightarrow> (\<forall>x\<in>set seen. compatible x z)"
  unfolding keeps_def by (meson compatible_covered subset_eq)

lemma find_some: "List.find P xs = Some x \<Longrightarrow> x \<in> set xs \<and> P x"
  by (induction xs) (auto split: if_splits)

lemma add_source_compatible:
  "add_source u src =
     (case source_acceptable src of
        Inl e \<Rightarrow> Inl e
      | Inr _ \<Rightarrow>
          (case List.find (\<lambda>x. \<not> compatible x src) u of
             Some x \<Rightarrow> Inl (AmbiguousRoots (ps_root x) (ps_root src))
           | None \<Rightarrow> if \<exists>x\<in>set u. covers x src then Inr u
               else Inr (filter (\<lambda>x. \<not> covers src x) u @ [src])))"
proof -
  have "(\<lambda>x. roots_overlap (ps_root x) (ps_root src) \<and> \<not> same_owner x src)
      = (\<lambda>x. \<not> compatible x src)"
    by (auto simp: compatible_def apart_def)
  moreover have "(\<lambda>x. \<not> (same_owner x src \<and> root_contains (ps_root src) (ps_root x)))
      = (\<lambda>x. \<not> covers src x)"
    by (auto simp: covers_def same_owner_def)
  moreover have "list_ex (\<lambda>x. same_owner x src \<and> root_contains (ps_root x) (ps_root src)) u
      = (\<exists>x\<in>set u. covers x src)"
    by (simp add: list_ex_iff covers_def)
  ultimately show ?thesis unfolding add_source_def by (simp only:)
qed

lemma add_source_iff:
  "add_source u src = Inr u' \<longleftrightarrow>
    source_acceptable src = Inr () \<and> (\<forall>x\<in>set u. compatible x src)
    \<and> u' = (if \<exists>x\<in>set u. covers x src then u else filter (\<lambda>x. \<not> covers src x) u @ [src])"
proof (cases "List.find (\<lambda>x. \<not> compatible x src) u")
  case None
  then have "\<forall>x\<in>set u. compatible x src" by (simp add: find_none)
  with None show ?thesis
    by (cases "source_acceptable src") (auto simp: add_source_compatible)
next
  case (Some x)
  with find_some[OF Some] show ?thesis
    by (cases "source_acceptable src") (auto simp: add_source_compatible)
qed

lemma keeps_add:
  assumes "keeps u seen" and "add_source u src = Inr u'"
  shows "keeps u' (seen @ [src])"
proof (cases "\<exists>x\<in>set u. covers x src")
  case True
  with assms show ?thesis by (auto simp: add_source_iff keeps_def)
next
  case False
  with assms have u': "u' = filter (\<lambda>x. \<not> covers src x) u @ [src]"
    and c: "\<forall>x\<in>set u. compatible x src" by (auto simp: add_source_iff)
  have "\<exists>y\<in>set u'. covers y x" if x: "x \<in> set seen" for x
  proof -
    obtain y where "y \<in> set u" "covers y x" using assms(1) x by (auto simp: keeps_def)
    then show ?thesis
      using covers_trans[of src y x] by (cases "covers src y") (auto simp: u')
  qed
  moreover have "sorted_wrt apart u'"
    using assms(1) c False apart_or_covers
    by (auto simp: u' keeps_def sorted_wrt_append sorted_wrt_filter)
  ultimately show ?thesis using assms(1) by (auto simp: keeps_def u')
qed

lemma add_sources_keeps:
  "keeps u seen \<Longrightarrow> add_sources u srcs = Inr u' \<Longrightarrow> keeps u' (seen @ srcs)"
proof (induction srcs arbitrary: u seen)
  case (Cons a srcs)
  from Cons.prems(2) obtain v where "add_source u a = Inr v" "add_sources v srcs = Inr u'"
    by (auto split: sum.splits)
  with Cons.IH[OF keeps_add[OF Cons.prems(1)]] show ?case by simp
qed simp

lemma add_sources_accepts:
  "keeps u seen \<Longrightarrow>
    (\<exists>u'. add_sources u srcs = Inr u') \<longleftrightarrow>
    (\<forall>x\<in>set srcs. source_acceptable x = Inr ())
    \<and> (\<forall>x\<in>set seen. \<forall>y\<in>set srcs. compatible x y) \<and> sorted_wrt compatible srcs"
proof (induction srcs arbitrary: u seen)
  case (Cons a srcs)
  show ?case
  proof (cases "source_acceptable a = Inr () \<and> (\<forall>x\<in>set seen. compatible x a)")
    case True
    then obtain v where v: "add_source u a = Inr v"
      using compatible_all[OF Cons.prems] by (auto simp: add_source_iff)
    from Cons.IH[OF keeps_add[OF Cons.prems v]] True show ?thesis by (auto simp: v)
  next
    case False
    then have "add_source u a \<noteq> Inr v" for v
      using compatible_all[OF Cons.prems] by (auto simp: add_source_iff)
    then have "\<not> (\<exists>u'. add_sources u (a # srcs) = Inr u')"
      by (cases "add_source u a") auto
    with False show ?thesis by auto
  qed
qed simp

text \<open>The second loop never finds a pair: the first one already has.\<close>

lemma ambiguous_pair_none: "sorted_wrt apart u \<Longrightarrow> ambiguous_pair u = None"
  by (induction u) (auto simp: find_none apart_def split: option.splits)

lemma keeps_Nil [simp]: "keeps [] []"
  by (simp add: keeps_def)

lemma try_new_keeps: "source_set_try_new srcs = Inr u \<Longrightarrow> keeps u srcs"
  using add_sources_keeps[OF keeps_Nil] by (force simp: source_set_try_new_def split: sum.splits option.splits)

lemma try_new_add_sources: "source_set_try_new srcs = add_sources [] srcs"
  using add_sources_keeps[OF keeps_Nil, of srcs]
  by (auto simp: source_set_try_new_def keeps_def ambiguous_pair_none split: sum.splits)

section \<open>Properties of the source set\<close>

lemma find_adapter_known:
  "find_adapter p =
    (if p = codex_provider_id then Some CodexAdapter
     else if p = claude_code_provider_id then Some ClaudeCodeAdapter
     else if p = gemini_cli_provider_id then Some GeminiCliAdapter else None)"
  by (auto simp: find_adapter_def builtin_adapters_def descriptor_def codex_descriptor_def
      claude_code_descriptor_def gemini_cli_descriptor_def)

lemma source_acceptable_iff:
  "source_acceptable x = Inr () \<longleftrightarrow>
     ps_root x \<noteq> []
     \<and> ps_provider_id x \<in> {codex_provider_id, claude_code_provider_id, gemini_cli_provider_id}
     \<and> (ps_kind x = Archived \<longrightarrow> ps_provider_id x = codex_provider_id)"
  by (auto simp: source_acceptable_def find_adapter_known ensure_live_only_def descriptor_def
      codex_descriptor_def claude_code_descriptor_def gemini_cli_descriptor_def
      kind_is_archived_def)

lemma compatible_sym: "compatible x y \<longleftrightarrow> compatible y x"
  by (auto simp: compatible_def apart_def roots_overlap_iff same_owner_def)

lemma sorted_wrt_compatible:
  "sorted_wrt compatible srcs \<longleftrightarrow> (\<forall>x\<in>set srcs. \<forall>y\<in>set srcs. compatible x y)"
  using compatible_sym same_owner_equiv(1) by (induction srcs) (auto simp: compatible_def)

text \<open>C20: \<open>ProviderSourceSet::try_new\<close> accepts a list of sources exactly when every root is
  non-empty, every provider is one of the three built in, only Codex has archived roots, and
  any two roots that overlap have the same owner. Dropping a root that an ancestor covers never
  hides an ambiguity from the sources after it.\<close>

theorem source_set_accepts:
  "(\<exists>u. source_set_try_new srcs = Inr u) \<longleftrightarrow>
     (\<forall>x\<in>set srcs. ps_root x \<noteq> []
        \<and> ps_provider_id x \<in> {codex_provider_id, claude_code_provider_id, gemini_cli_provider_id}
        \<and> (ps_kind x = Archived \<longrightarrow> ps_provider_id x = codex_provider_id))
     \<and> (\<forall>x\<in>set srcs. \<forall>y\<in>set srcs.
          roots_overlap (ps_root x) (ps_root y) \<longrightarrow> same_owner x y)"
  using add_sources_accepts[OF keeps_Nil, of srcs]
  unfolding try_new_add_sources sorted_wrt_compatible source_acceptable_iff
  by (auto simp: compatible_def apart_def)

definition covers_path :: "provider_source \<Rightarrow> string \<Rightarrow> bool" where
  "covers_path x path = root_contains (ps_root x) path"

lemma in_filter_map: "y \<in> set (filter_map f xs) \<longleftrightarrow> (\<exists>x\<in>set xs. f x = Some y)"
  by (induction xs) (auto split: option.splits)

lemma max_by_key_in:
  fixes key :: "'a \<Rightarrow> 'k::linorder"
  shows "(max_by_key key xs = None \<longleftrightarrow> xs = []) \<and> (max_by_key key xs = Some m \<longrightarrow> m \<in> set xs)"
  using max_by_key_fold[of m key] by (cases xs) auto

lemma resolve_source_Some: "resolve_source u path = Some x \<Longrightarrow> x \<in> set u \<and> covers_path x path"
  by (auto simp: resolve_source_def covers_path_def root_contains_def Let_def in_filter_map
      split: if_splits dest!: conjunct2[OF max_by_key_in, rule_format])

lemma resolve_source_None: "resolve_source u path = None \<longleftrightarrow> \<not> (\<exists>x\<in>set u. covers_path x path)"
proof -
  have "filter_map f u = [] \<longleftrightarrow> (\<forall>x\<in>set u. f x = None)"
    for f :: "provider_source \<Rightarrow> (provider_source \<times> nat) option"
    by (induction u) (auto split: option.splits)
  then show ?thesis
    by (simp add: resolve_source_def conjunct1[OF max_by_key_in] covers_path_def
        root_contains_def Let_def)
qed

lemma apart_cover_unique:
  "sorted_wrt apart u \<Longrightarrow> x \<in> set u \<Longrightarrow> y \<in> set u \<Longrightarrow> covers_path x path \<Longrightarrow> covers_path y path
    \<Longrightarrow> x = y"
  using root.holds_comparable
  by (induction u) (auto simp: covers_path_def apart_def roots_overlap_iff)

text \<open>In an accepted set every path has at most one owner. \<open>resolve\<close> returns the source that
  covers the path, of which there is only one; and a path is covered by some configured source of
  a given provider and kind exactly when it resolves to that provider and kind, so merging nested
  roots neither loses nor reassigns a path.\<close>

theorem source_set_resolves:
  assumes "source_set_try_new srcs = Inr u"
  shows "(resolve_source u path = Some x) = (x \<in> set u \<and> root_contains (ps_root x) path)
    \<and> (\<exists>y\<in>set srcs. root_contains (ps_root y) path \<and> ps_provider_id y = p \<and> ps_kind y = k)
      = (\<exists>y. resolve_source u path = Some y \<and> ps_provider_id y = p \<and> ps_kind y = k)"
proof -
  have k: "keeps u srcs" by (rule try_new_keeps[OF assms])
  have res: "resolve_source u path = Some y \<longleftrightarrow> y \<in> set u \<and> covers_path y path" for y
    using k resolve_source_Some[of u path] resolve_source_None[of u path]
    by (cases "resolve_source u path") (auto simp: keeps_def dest: apart_cover_unique)
  have "\<exists>z\<in>set u. covers_path z path \<and> same_owner z y"
    if "y \<in> set srcs" "covers_path y path" for y
    using k that root.holds_trans by (fastforce simp: keeps_def covers_def covers_path_def)
  then have "(\<exists>y\<in>set srcs. covers_path y path \<and> ps_provider_id y = p \<and> ps_kind y = k)
      \<longleftrightarrow> (\<exists>y\<in>set u. covers_path y path \<and> ps_provider_id y = p \<and> ps_kind y = k)"
    using k unfolding keeps_def same_owner_def by blast
  with res show ?thesis by (auto simp: covers_path_def)
qed

section \<open>Parsed sessions and the cache\<close>

definition owned_by :: "provider_id \<Rightarrow> bool \<Rightarrow> session option \<Rightarrow> bool" where
  "owned_by h archived so \<longleftrightarrow> pred_option (\<lambda>s. s_harness s = h \<and> s_archived s = archived) so"

lemma owned_grows: "owned_by h a (Some s) \<Longrightarrow> session_grows (Some s) so \<Longrightarrow> owned_by h a so"
  by (cases so) (simp_all add: owned_by_def session_grows_def grows_def)

lemma owned_refresh: "s_harness (refresh_session s) = s_harness s \<and> s_archived (refresh_session s) = s_archived s"
  by (simp add: refresh_session_def Let_def split: prod.splits)

lemma owned_map_refresh [simp]: "owned_by h a (map_option refresh_session so) = owned_by h a so"
  by (cases so) (simp_all add: owned_by_def owned_refresh)

lemma codex_archived_frame:
  "cp_archived (with_session f p) = cp_archived p"
  "cp_archived (handle_response_item hst payload t p) = cp_archived p"
  "cp_archived (fst (handle_session_meta hst payload t p)) = cp_archived p"
  "cp_archived (handle_turn_context payload p) = cp_archived p"
  "cp_archived (handle_thread_settings payload p) = cp_archived p"
  "cp_archived (handle_token_count hst payload t p) = cp_archived p"
  "cp_archived (task_started hst payload t p) = cp_archived p"
  "cp_archived (task_complete hst payload t p) = cp_archived p"
  "cp_archived (turn_aborted hst payload t p) = cp_archived p"
  "cp_archived (user_message payload p) = cp_archived p"
  by (simp_all add: with_session_def handle_response_item_def codex_call_def codex_call_output_def
      handle_session_meta_def handle_turn_context_def handle_thread_settings_def
      handle_token_count_def task_started_def task_complete_def turn_aborted_def user_message_def
      Let_def split: option.splits)

lemma codex_none_frame:
  assumes "cp_session p = None"
  shows "cp_session (with_session f p) = None"
  "cp_session (handle_response_item hst payload t p) = None"
  "cp_session (handle_turn_context payload p) = None"
  "cp_session (handle_thread_settings payload p) = None"
  "cp_session (handle_token_count hst payload t p) = None"
  "cp_session (task_started hst payload t p) = None"
  "cp_session (task_complete hst payload t p) = None"
  "cp_session (turn_aborted hst payload t p) = None"
  "cp_session (user_message payload p) = None"
  using assms
  by (simp_all add: with_session_def handle_response_item_def codex_call_def codex_call_output_def
      handle_turn_context_def handle_thread_settings_def
      handle_token_count_def task_started_def task_complete_def turn_aborted_def user_message_def
      Let_def split: option.splits)

lemma codex_line_owned:
  assumes "cp_archived p = a" "owned_by codex_provider_id a (cp_session p)"
  shows "cp_archived (fst (codex_apply_line hst now line p)) = a
    \<and> owned_by codex_provider_id a (cp_session (fst (codex_apply_line hst now line p)))"
proof
  let ?p = "fst (codex_apply_line hst now line p)"
  have "cp_archived (fst (codex_apply_record hst root t q)) = cp_archived q" for root t q
    by (simp add: codex_apply_record_def handle_event_msg_def thread_rolled_back_def
        exec_command_end_def Let_def codex_archived_frame)
  then show "cp_archived ?p = a"
    using assms(1) by (simp add: codex_apply_line_def codex_apply_slow_def Let_def
        codex_archived_frame split: option.splits)
  show "owned_by codex_provider_id a (cp_session ?p)"
  proof (cases "cp_session p")
    case (Some s)
    with assms(2) advances_apply_line[of p hst now line] show ?thesis
      by (auto simp: advances_def intro: owned_grows)
  next
    case None
    have new: "owned_by codex_provider_id (cp_archived q) (cp_session (fst (handle_session_meta hst payload t q)))"
      if "cp_session q = None" for q payload t
      using that by (simp add: handle_session_meta_def owned_by_def codex_session_def Let_def
          split: option.splits)
    have "owned_by codex_provider_id (cp_archived q) (cp_session (fst (codex_apply_record hst root t q)))"
      if "cp_session q = None" for root t q
      using that new[OF that]
      by (simp add: codex_apply_record_def handle_event_msg_def thread_rolled_back_def
          exec_command_end_def Let_def codex_none_frame owned_by_def)
    from this[OF codex_none_frame(1)[OF None]] show ?thesis
      using assms(1) None
      by (simp add: codex_apply_line_def codex_apply_slow_def Let_def owned_by_def
        codex_archived_frame codex_none_frame split: option.splits)
  qed
qed

lemma codex_file_owned: "owned_by codex_provider_id a (codex_parse_file hst clock path a content)"
proof -
  let ?I = "\<lambda>p. cp_archived p = a \<and> owned_by codex_provider_id a (cp_session p)"
  have "?I (codex_new path a)" by (simp add: codex_new_def owned_by_def)
  then have "?I (fst (codex_parse_to_end hst clock content (codex_new path a)))"
    unfolding codex_parse_to_end_def
  proof (rule codex.parse_invariant)
    show "?I (fst (codex_apply_line hst now l q))" if "?I q" for now l q
      using that codex_line_owned by blast
  qed (simp_all add: codex_refresh_def with_session_def codex_reset_def owned_by_def
      option.pred_map comp_def owned_refresh)
  then show ?thesis by (simp add: codex_parse_file_def)
qed

lemma claude_none_frame:
  assumes "ap_session p = None"
  shows "ap_session (on_session f p) = None"
  "ap_session (claude_apply_record hst root t p) = None"
  using assms
  by (simp_all add: on_session_def claude_apply_record_def claude_handle_user_def
      claude_tool_results_def claude_handle_assistant_def claude_custom_title_def
      claude_summary_def Let_def split: option.splits prod.splits)

lemma claude_ensure_owned:
  "ap_session p = None \<Longrightarrow>
    owned_by claude_code_provider_id False (ap_session (claude_ensure_session root t p))"
  by (simp add: claude_ensure_session_def on_session_def owned_by_def claude_session_def
      metadata_from_def split: option.splits prod.splits)

lemma owned_advance:
  "owned_by h a so \<Longrightarrow> session_grows so so' \<Longrightarrow> (so = None \<Longrightarrow> owned_by h a so') \<Longrightarrow> owned_by h a so'"
  by (cases so) (auto intro: owned_grows)

lemma owned_none [simp]: "owned_by h a None"
  by (simp add: owned_by_def)

lemma claude_line_owned:
  assumes "owned_by claude_code_provider_id False (ap_session p)"
  shows "owned_by claude_code_provider_id False (ap_session (fst (claude_apply_line hst now line p)))"
proof -
  have ens: "owned_by claude_code_provider_id False (ap_session (claude_ensure_session root t p))" for root t
    by (rule owned_advance[OF assms])
      (use claude_advances_ensure in \<open>auto simp: claude_advances_def intro: claude_ensure_owned\<close>)
  have touched: "owned_by h a (ap_session (on_session (touch ts) q))"
    if "owned_by h a (ap_session q)" for h a ts q
    using that by (cases "ap_session q") (simp_all add: owned_by_def on_session_def touch_def)
  have rec: "owned_by h a (ap_session (claude_apply_record hst root t q))"
    if "owned_by h a (ap_session q)" for h a root t q
  proof (rule owned_advance[OF that])
    have "claude_advances q (claude_apply_record hst root t q)"
      using claude_advances_trans[OF claude_advances_results claude_advances_user]
      by (auto simp: claude_apply_record_def Let_def claude_advances_assistant claude_advances_titles
          claude_advances_session split: option.splits)
    then show "session_grows (ap_session q) (ap_session (claude_apply_record hst root t q))"
      by (simp add: claude_advances_def)
  qed (simp add: claude_none_frame)
  show ?thesis
    by (auto simp: claude_apply_line_def Let_def assms split: option.splits
        intro!: rec touched ens)
qed

lemma claude_file_owned:
  "owned_by claude_code_provider_id False (claude_parse_file hst clock path content)"
proof -
  let ?I = "\<lambda>p. owned_by claude_code_provider_id False (ap_session p)"
  have "?I (claude_new path)" by (simp add: claude_new_def Let_def)
  then have "?I (fst (claude_parse_to_end hst clock content (claude_new path)))"
    unfolding claude_parse_to_end_def
  proof (rule claude.parse_invariant)
    show "?I (fst (claude_apply_line hst now l q))" if "?I q" for now l q
      by (rule claude_line_owned[OF that])
  qed (simp_all add: claude_refresh_def on_session_def claude_reset_def owned_by_def
      option.pred_map comp_def owned_refresh)
  then show ?thesis by (simp add: claude_parse_file_def)
qed

lemma gemini_line_owned:
  assumes "owned_by gemini_cli_provider_id False (gp_session p)"
  shows "owned_by gemini_cli_provider_id False (gp_session (fst (gemini_apply_line hst now line p)))"
proof (rule owned_advance[OF assms])
  show "session_grows (gp_session p) (gp_session (fst (gemini_apply_line hst now line p)))"
    using gemini_advances_line[of p hst now line] by (simp add: gemini_advances_def)
next
  assume "gp_session p = None"
  then show "owned_by gemini_cli_provider_id False (gp_session (fst (gemini_apply_line hst now line p)))"
    by (simp add: gemini_apply_line_def gemini_ensure_session_def Let_def owned_by_def
        gemini_session_def split: option.splits)
qed

lemma gemini_file_owned:
  "owned_by gemini_cli_provider_id False (gemini_parse_file hst clock path content)"
proof -
  let ?I = "\<lambda>p. owned_by gemini_cli_provider_id False (gp_session p)"
  have "?I (gemini_new path)" by (simp add: gemini_new_def)
  then have "?I (fst (gemini_parse_to_end hst clock content (gemini_new path)))"
    unfolding gemini_parse_to_end_def
  proof (rule gemini.parse_invariant)
    show "?I (fst (gemini_apply_line hst now l q))" if "?I q" for now l q
      by (rule gemini_line_owned[OF that])
  qed (simp_all add: gemini_refresh_def in_session_def gemini_reset_def owned_by_def
      option.pred_map comp_def owned_refresh)
  then show ?thesis by (simp add: gemini_parse_file_def)
qed

text \<open>C21: The guard of the scan cache agrees with the parsers. Whatever the bytes of the file, a
  session parsed by a provider's adapter for a kind of source is one the same adapter accepts
  from the cache for that kind, and one that no other adapter and no other kind accepts; and
  only Codex parses archived sources.\<close>

theorem parsed_session_cached:
  "(case adapter_parse_file hst clock a path kind content of
      Inl e \<Rightarrow> a \<noteq> CodexAdapter \<and> kind = Archived \<and> e = ArchivedUnsupported (pd_id (descriptor a))
    | Inr None \<Rightarrow> a = CodexAdapter \<or> kind = Live
    | Inr (Some s) \<Rightarrow>
        \<forall>a' kind'. accepts_cached_session a' s kind' = (a' = a \<and> kind' = kind))"
proof -
  have ids: "codex_provider_id \<noteq> claude_code_provider_id" "codex_provider_id \<noteq> gemini_cli_provider_id"
    "claude_code_provider_id \<noteq> gemini_cli_provider_id"
    by (simp_all add: codex_provider_id_def claude_code_provider_id_def gemini_cli_provider_id_def)
  note facts = codex_file_owned[of "kind_is_archived kind" hst clock path content]
    claude_file_owned[of hst clock path content] gemini_file_owned[of hst clock path content]
  have all: "(\<forall>x :: adapter. P x) \<longleftrightarrow> P CodexAdapter \<and> P ClaudeCodeAdapter \<and> P GeminiCliAdapter" for P
    by (metis adapter.exhaust)
  have kinds: "(\<forall>k :: source_kind. P k) \<longleftrightarrow> P Live \<and> P Archived" for P
    by (metis source_kind.exhaust)
  show ?thesis
    using facts ids ids[symmetric]
    by (cases a; cases kind)
      (auto simp: adapter_parse_file_def ensure_live_only_def kind_is_archived_def descriptor_def
        codex_descriptor_def claude_code_descriptor_def gemini_cli_descriptor_def owned_by_def
        accepts_cached_session_def all kinds split: option.splits)
qed

section \<open>Witnesses\<close>

definition sample_sources :: "provider_source list" where
  "sample_sources =
     [\<lparr>ps_provider_id = codex_provider_id, ps_root = ''/h/s/2'', ps_kind = Live\<rparr>,
      \<lparr>ps_provider_id = claude_code_provider_id, ps_root = ''/h/c'', ps_kind = Live\<rparr>,
      \<lparr>ps_provider_id = codex_provider_id, ps_root = ''/h/s'', ps_kind = Live\<rparr>]"

lemma sample_components:
  "components_of (strip_verbatim_prefix ''/h/s/2'') = [RootDir, Normal ''h'', Normal ''s'', Normal ''2'']"
  "components_of (strip_verbatim_prefix ''/h/s'') = [RootDir, Normal ''h'', Normal ''s'']"
  "components_of (strip_verbatim_prefix ''/h/c'') = [RootDir, Normal ''h'', Normal ''c'']"
  by code_simp+

lemma source_set_accepts_witness:
  "\<exists>u. source_set_try_new sample_sources = Inr u"
  unfolding source_set_accepts
  by (simp add: sample_sources_def roots_overlap_def Let_def path_starts_with_def
      sample_components same_owner_def)

lemma sample_source_set:
  "source_set_try_new sample_sources
    = Inr [\<lparr>ps_provider_id = claude_code_provider_id, ps_root = ''/h/c'', ps_kind = Live\<rparr>,
           \<lparr>ps_provider_id = codex_provider_id, ps_root = ''/h/s'', ps_kind = Live\<rparr>]"
  by code_simp

lemma source_set_resolves_witness:
  "\<exists>y. resolve_source [\<lparr>ps_provider_id = claude_code_provider_id, ps_root = ''/h/c'', ps_kind = Live\<rparr>,
           \<lparr>ps_provider_id = codex_provider_id, ps_root = ''/h/s'', ps_kind = Live\<rparr>] ''/h/s/2'' = Some y
     \<and> ps_provider_id y = codex_provider_id \<and> ps_kind y = Live"
  using source_set_resolves[OF sample_source_set, of "''/h/s/2''" undefined codex_provider_id Live]
  by (simp add: sample_sources_def root_contains_def path_starts_with_def sample_components)

end
