(* ===== verification/Correlation.thy ===== *)
theory Correlation
  imports Range_Totals Stable_Hash
begin

text \<open>
  \<open>src-tauri/src/correlation.rs\<close>: usage before and after external events. For each event the
  code accumulates, over the sessions in the event's scope, the rollups of the window before it
  and of the window after it. Two optimisations are verified: one traversal per session serves
  the windows of all events (\<open>correlate_per_event\<close>), and sessions are dropped on their
  summaries before their content is loaded (\<open>correlation_prefilter_sound\<close>).
  Timestamps and \<open>chrono\<close> durations are integers of nanoseconds; \<open>Duration::days\<close> and the
  subtraction of a duration are exact on the range of dates the code accepts.
\<close>

section \<open>Data\<close>

record external_event =
  e_id :: string
  e_timestamp :: timestamp
  e_scope :: "string option"
  e_source :: string
  e_kind :: string
  e_metadata :: "(string \<times> string) list"

record correlation_query =
  q_events :: "external_event list"
  q_before_days :: int
  q_after_days :: int
  q_exclude_confounded :: bool
  q_include_subagents :: bool

record 'p correlation_observation =
  co_session_count :: u64
  co_turn_count :: u64
  co_session_duration_ms :: u64
  co_tokens :: token_totals
  co_buckets_by_harness :: "(provider_id \<times> tier_bucket list) list"
  co_pricing_by_harness :: "(provider_id \<times> 'p) list"
  co_tool_metrics :: tool_metrics

definition no_observation :: "'p correlation_observation" where
  "no_observation =
     \<lparr>co_session_count = 0, co_turn_count = 0, co_session_duration_ms = 0,
      co_tokens = default_totals, co_buckets_by_harness = [], co_pricing_by_harness = [],
      co_tool_metrics = default_metrics\<rparr>"

record 'p event_correlation =
  ec_event :: external_event
  ec_before :: "'p correlation_observation"
  ec_after :: "'p correlation_observation"
  ec_after_window_end :: timestamp
  ec_after_window_complete :: bool
  ec_minimum_session_count :: u64
  ec_sample_ready :: bool
  ec_token_delta :: int
  ec_session_delta :: int
  ec_confounding_event_ids :: "string list"
  ec_warnings :: "string list"

definition minimum_session_count :: u64 where "minimum_session_count = 3"

section \<open>Scopes\<close>

text \<open>The trait \<open>SessionScope\<close>: what its five methods return for a session or a summary.\<close>

record session_scope =
  sc_harness :: provider_id
  sc_working_directory :: "string option"
  sc_parent_thread_id :: "string option"
  sc_agent_path :: "string option"
  sc_source :: "string option"

definition scope_of_session :: "session \<Rightarrow> session_scope" where
  "scope_of_session s =
     \<lparr>sc_harness = s_harness s, sc_working_directory = s_working_directory s,
      sc_parent_thread_id = s_parent_thread_id s, sc_agent_path = s_agent_path s,
      sc_source = s_source s\<rparr>"

definition scope_of_summary :: "session_summary \<Rightarrow> session_scope" where
  "scope_of_summary y =
     \<lparr>sc_harness = y_harness y, sc_working_directory = y_working_directory y,
      sc_parent_thread_id = y_parent_thread_id y, sc_agent_path = y_agent_path y,
      sc_source = y_source y\<rparr>"

definition is_subagent :: "session_scope \<Rightarrow> bool" where
  "is_subagent sc \<longleftrightarrow>
     sc_parent_thread_id sc \<noteq> None \<or> sc_agent_path sc \<noteq> None \<or> sc_source sc = Some ''subagent''"

definition normalized_scope :: "string \<Rightarrow> string" where
  "normalized_scope v =
     to_ascii_lowercase
       (rev (dropWhile (\<lambda>c. c = CHR ''/'')
         (rev (map (\<lambda>c. if c = CHR 0x5C then CHR ''/'' else c) v))))"

definition project_scope_identity :: "string \<Rightarrow> string" where
  "project_scope_identity v = ''project:'' @ stable_hash (normalized_scope v)"

function redacted_candidates_match :: "string \<Rightarrow> string \<Rightarrow> bool" where
  "redacted_candidates_match candidate event_scope =
     (project_scope_identity candidate = event_scope
      \<or> (case rsplit_once CHR ''/'' candidate of
           None \<Rightarrow> False
         | Some (parent, _) \<Rightarrow> redacted_candidates_match parent event_scope))"
  by pat_completeness auto
termination
proof (relation "measure (\<lambda>(candidate, _). length candidate)")
  fix candidate event_scope :: string and x :: "string \<times> string" and parent piece
  assume s: "rsplit_once CHR ''/'' candidate = Some x" "(parent, piece) = x"
  then have "CHR ''/'' \<in> set (rev candidate)" by (auto simp: rsplit_once_def split: if_splits)
  then have "dropWhile (\<lambda>c. c \<noteq> CHR ''/'') (rev candidate) \<noteq> []" by auto
  with s length_dropWhile_le[of "\<lambda>c. c \<noteq> CHR ''/''" "rev candidate"]
  show "((parent, event_scope), candidate, event_scope)
      \<in> measure (\<lambda>(candidate, _). length candidate)"
    by (cases "dropWhile (\<lambda>c. c \<noteq> CHR ''/'') (rev candidate)")
      (auto simp: rsplit_once_def split: if_splits)
qed simp

declare redacted_candidates_match.simps [simp del]

definition redacted_scope_matches :: "string \<Rightarrow> string \<Rightarrow> bool" where
  "redacted_scope_matches cwd event_scope =
     redacted_candidates_match (normalized_scope cwd) event_scope"

definition scope_matches :: "session_scope \<Rightarrow> external_event \<Rightarrow> bool" where
  "scope_matches sc ev =
     (if (case map_of (e_metadata ev) ''harness'' of
            Some harness \<Rightarrow> harness \<noteq> sc_harness sc | None \<Rightarrow> False) then False
      else case e_scope ev of
        None \<Rightarrow> True
      | Some event_scope \<Rightarrow>
          (case sc_working_directory sc of
             None \<Rightarrow> False
           | Some cwd \<Rightarrow>
               if starts_with ''project:'' event_scope then redacted_scope_matches cwd event_scope
               else let event_scope = normalized_scope event_scope;
                        cwd = normalized_scope cwd
                    in cwd = event_scope
                       \<or> starts_with (event_scope @ ''/'') cwd
                       \<or> starts_with (cwd @ ''/'') event_scope))"

section \<open>Windows\<close>

definition interval_overlaps :: "timestamp \<Rightarrow> timestamp \<Rightarrow> range_window \<Rightarrow> bool" where
  "interval_overlaps start stop w \<longleftrightarrow>
     (case fst w of None \<Rightarrow> True | Some from \<Rightarrow> from \<le> stop)
     \<and> (case snd w of None \<Rightarrow> True | Some to \<Rightarrow> start \<le> to)"

definition overlap_duration_ms :: "timestamp \<Rightarrow> timestamp \<Rightarrow> range_window \<Rightarrow> u64" where
  "overlap_duration_ms start stop w =
     (let start = (case fst w of None \<Rightarrow> start | Some from \<Rightarrow> max start from);
          stop = (case snd w of None \<Rightarrow> stop | Some to \<Rightarrow> min stop to)
      in word_of_int (max 0 (num_milliseconds (stop - start))))"

definition day :: int where "day = 86400000000000"

definition event_windows :: "correlation_query \<Rightarrow> (range_window \<times> range_window) list" where
  "event_windows q =
     map (\<lambda>ev.
       ((Some (e_timestamp ev - max 0 (q_before_days q) * day), Some (e_timestamp ev - 1000000)),
        (Some (e_timestamp ev), Some (e_timestamp ev + max 0 (q_after_days q) * day))))
       (q_events q)"

definition confounding_ids ::
    "correlation_query \<Rightarrow> external_event \<Rightarrow> range_window \<times> range_window \<Rightarrow> string list" where
  "confounding_ids q ev = (\<lambda>(before, after).
     map e_id (filter (\<lambda>other.
       e_id other \<noteq> e_id ev
       \<and> the (fst before) \<le> e_timestamp other \<and> e_timestamp other \<le> the (snd after)
       \<and> (e_scope ev = None \<or> e_scope other = None \<or> e_scope other = e_scope ev)) (q_events q)))"

definition event_exclusions ::
    "correlation_query \<Rightarrow> (range_window \<times> range_window) list \<Rightarrow> string list list \<times> bool list" where
  "event_exclusions q windows =
     (let confounds = map (\<lambda>(ev, w). confounding_ids q ev w) (zip (q_events q) windows)
      in (confounds, map (\<lambda>items. q_exclude_confounded q \<and> items \<noteq> []) confounds))"

section \<open>Accumulation\<close>

definition add_bucket :: "tier_bucket \<Rightarrow> tier_bucket list \<Rightarrow> tier_bucket list" where
  "add_bucket v target = bucket_add (b_model v) (b_service_tier v) (b_tokens v) target"

definition turns_in_window :: "session \<Rightarrow> range_window \<Rightarrow> turn_info list" where
  "turns_in_window s w =
     filter (\<lambda>t. interval_overlaps (unwrap_or (s_started_at s) (t_started_at t))
       (unwrap_or (s_last_event_at s) (t_completed_at t)) w) (s_turns s)"

definition add_range ::
    "session \<Rightarrow> range_window \<Rightarrow> 'p range_totals_t \<Rightarrow> 'p correlation_observation
      \<Rightarrow> 'p correlation_observation" where
  "add_range s w roll out =
     (if total_tokens (r_tokens roll) = 0 \<and> m_calls (r_tool_metrics roll) = 0 then out
      else out\<lparr>
        co_session_count := co_session_count out + 1,
        co_turn_count := co_turn_count out + word_of_nat (length (turns_in_window s w)),
        co_session_duration_ms := co_session_duration_ms out
          + overlap_duration_ms (s_started_at s) (s_last_event_at s) w,
        co_tokens := add_totals (co_tokens out) (r_tokens roll),
        co_buckets_by_harness :=
          tm_entry (s_harness s) [] (fold add_bucket (r_buckets roll))
            (co_buckets_by_harness out),
        co_tool_metrics := metrics_add_assign (co_tool_metrics out) (r_tool_metrics roll)\<rparr>)"

definition candidate_session_keys ::
    "(string \<times> session_summary) list \<Rightarrow> correlation_query \<Rightarrow> string list" where
  "candidate_session_keys summaries q =
     (let windows = event_windows q;
          excluded = snd (event_exclusions q windows)
      in map fst (filter (\<lambda>(_, y). \<exists>i\<in>set [0..<length (q_events q)].
             \<not> excluded ! i \<and> scope_matches (scope_of_summary y) (q_events q ! i)
             \<and> (interval_overlaps (y_started_at y) (y_last_event_at y) (fst (windows ! i))
                \<or> interval_overlaps (y_started_at y) (y_last_event_at y) (snd (windows ! i))))
           (filter (\<lambda>(_, y). q_include_subagents q \<or> \<not> is_subagent (scope_of_summary y))
             summaries)))"

section \<open>Correlation\<close>

fun chunks2 :: "'a list \<Rightarrow> ('a \<times> 'a) list" where
  "chunks2 (x # y # zs) = (x, y) # chunks2 zs"
| "chunks2 _ = []"

definition correlate_session ::
    "correlation_query \<Rightarrow> (range_window \<times> range_window) list \<Rightarrow> bool list \<Rightarrow> session
      \<Rightarrow> ('p correlation_observation \<times> 'p correlation_observation) list
      \<Rightarrow> ('p correlation_observation \<times> 'p correlation_observation) list" where
  "correlate_session q windows excluded s observations =
     (if \<not> q_include_subagents q \<and> is_subagent (scope_of_session s) then observations
      else
        let matched = filter (\<lambda>i. \<not> excluded ! i
              \<and> scope_matches (scope_of_session s) (q_events q ! i)) [0..<length (q_events q)];
            requested = concat (map (\<lambda>i. [fst (windows ! i), snd (windows ! i)]) matched);
            totals = range_totals_multi s requested
        in fold (\<lambda>(i, before, after) observations. observations[i :=
             (add_range s (fst (windows ! i)) before (fst (observations ! i)),
              add_range s (snd (windows ! i)) after (snd (observations ! i)))])
             (zip matched (chunks2 totals)) observations)"

definition sort_harness_buckets :: "'p correlation_observation \<Rightarrow> 'p correlation_observation" where
  "sort_harness_buckets ob =
     ob\<lparr>co_buckets_by_harness :=
          map (\<lambda>(harness, buckets). (harness, sort_buckets buckets)) (co_buckets_by_harness ob)\<rparr>"

text \<open>The comparison of one event; the differences are taken in \<open>i64\<close>.\<close>

definition event_result ::
    "correlation_query \<Rightarrow> timestamp \<Rightarrow> external_event \<Rightarrow> range_window \<times> range_window \<Rightarrow> string list
      \<Rightarrow> bool \<Rightarrow> 'p correlation_observation \<times> 'p correlation_observation \<Rightarrow> 'p event_correlation"
  where
  "event_result q now ev windows confounds excluded = (\<lambda>(before, after).
     let before = sort_harness_buckets before;
         after = sort_harness_buckets after;
         after_window_end = the (snd (snd windows));
         sample_ready = (minimum_session_count \<le> co_session_count before
           \<and> minimum_session_count \<le> co_session_count after)
     in \<lparr>ec_event = ev,
         ec_before = before,
         ec_after = after,
         ec_after_window_end = after_window_end,
         ec_after_window_complete = (after_window_end \<le> now),
         ec_minimum_session_count = minimum_session_count,
         ec_sample_ready = sample_ready,
         ec_token_delta = sint (total_tokens (co_tokens after) - total_tokens (co_tokens before)),
         ec_session_delta = sint (co_session_count after - co_session_count before),
         ec_confounding_event_ids = confounds,
         ec_warnings =
           (if excluded then [''sample excluded because another event overlaps the window'']
            else [])
           @ (if \<not> sample_ready
              then [''low sample size; do not interpret the delta as causal''] else [])
           @ (if confounds \<noteq> [] \<and> \<not> q_exclude_confounded q
              then [''overlapping events may confound this comparison''] else [])\<rparr>)"

definition correlate_at ::
    "session list \<Rightarrow> correlation_query \<Rightarrow> timestamp \<Rightarrow> 'p event_correlation list" where
  "correlate_at sessions q now =
     (let windows = event_windows q;
          (confounds, excluded) = event_exclusions q windows;
          observations =
            fold (correlate_session q windows excluded) sessions
              (replicate (length (q_events q)) (no_observation, no_observation))
      in map (\<lambda>i. event_result q now (q_events q ! i) (windows ! i) (confounds ! i) (excluded ! i)
             (observations ! i)) [0..<length (q_events q)])"

section \<open>One traversal serves every event\<close>

definition contributes :: "correlation_query \<Rightarrow> external_event \<Rightarrow> bool \<Rightarrow> session \<Rightarrow> bool" where
  "contributes q ev excluded s \<longleftrightarrow>
     (q_include_subagents q \<or> \<not> is_subagent (scope_of_session s))
     \<and> \<not> excluded \<and> scope_matches (scope_of_session s) ev"

text \<open>The reference: what one window of one event observes, on its own.\<close>

definition observe_window ::
    "correlation_query \<Rightarrow> external_event \<Rightarrow> bool \<Rightarrow> range_window \<Rightarrow> session list
      \<Rightarrow> 'p correlation_observation" where
  "observe_window q ev excluded w sessions =
     fold (\<lambda>s. add_range s w (range_totals s w)) (filter (contributes q ev excluded) sessions)
       no_observation"

lemma range_totals_multi_map: "range_totals_multi s ws = map (range_totals s) ws"
  by (simp add: range_totals_multi_def range_totals_def Let_def)

lemma chunks2_pairs: "chunks2 (concat (map (\<lambda>i. [f i, g i]) is)) = map (\<lambda>i. (f i, g i)) is"
  by (induction "is") simp_all

lemma length_fold_update: "length (fold (\<lambda>i xs. xs[i := f i (xs ! i)]) is xs) = length xs"
  by (induction "is" arbitrary: xs) simp_all

lemma nth_fold_update:
  assumes "distinct is" and "j < length xs"
  shows "fold (\<lambda>i xs. xs[i := f i (xs ! i)]) is xs ! j = (if j \<in> set is then f j (xs ! j) else xs ! j)"
  using assms
proof (induction "is" arbitrary: xs)
  case (Cons i "is")
  then show ?case by (cases "i = j") auto
qed simp

lemma zip_map_self: "zip is (map f is) = map (\<lambda>i. (i, f i)) is"
  by (induction "is") simp_all

definition session_step ::
    "correlation_query \<Rightarrow> external_event \<Rightarrow> bool \<Rightarrow> range_window \<times> range_window \<Rightarrow> session
      \<Rightarrow> 'p correlation_observation \<times> 'p correlation_observation
      \<Rightarrow> 'p correlation_observation \<times> 'p correlation_observation" where
  "session_step q ev excluded windows s ob =
     (if contributes q ev excluded s
      then (add_range s (fst windows) (range_totals s (fst windows)) (fst ob),
            add_range s (snd windows) (range_totals s (snd windows)) (snd ob))
      else ob)"

lemma correlate_session_update:
  "correlate_session q windows excluded s obs =
     fold (\<lambda>i obs. obs[i := session_step q (q_events q ! i) (excluded ! i) (windows ! i) s (obs ! i)])
       (filter (\<lambda>i. contributes q (q_events q ! i) (excluded ! i) s) [0..<length (q_events q)]) obs"
proof -
  have "fold (\<lambda>i obs. obs[i := (add_range s (fst (windows ! i)) (range_totals s (fst (windows ! i))) (fst (obs ! i)),
            add_range s (snd (windows ! i)) (range_totals s (snd (windows ! i))) (snd (obs ! i)))]) is obs
      = fold (\<lambda>i obs. obs[i := session_step q (q_events q ! i) (excluded ! i) (windows ! i) s (obs ! i)]) is obs"
    if "\<forall>i\<in>set is. contributes q (q_events q ! i) (excluded ! i) s" for "is"
    using that by (induction "is" arbitrary: obs) (simp_all add: session_step_def)
  then show ?thesis
    by (simp add: correlate_session_def contributes_def range_totals_multi_map map_concat comp_def
        chunks2_pairs zip_map_self fold_map Let_def)
qed

lemma nth_correlate_session:
  assumes "length obs = length (q_events q)" and "j < length (q_events q)"
  shows "correlate_session q windows excluded s obs ! j
    = session_step q (q_events q ! j) (excluded ! j) (windows ! j) s (obs ! j)"
  using assms unfolding correlate_session_update
  by (subst nth_fold_update[where f = "\<lambda>i. session_step q (q_events q ! i) (excluded ! i) (windows ! i) s"])
    (auto simp: session_step_def)

lemma length_correlate_session [simp]:
  "length (correlate_session q windows excluded s obs) = length obs"
  unfolding correlate_session_update
  by (rule length_fold_update[where f = "\<lambda>i. session_step q (q_events q ! i) (excluded ! i) (windows ! i) s"])

lemma nth_correlate_sessions:
  assumes "length obs = length (q_events q)" and "j < length (q_events q)"
  shows "fold (correlate_session q windows excluded) sessions obs ! j
    = fold (session_step q (q_events q ! j) (excluded ! j) (windows ! j)) sessions (obs ! j)"
  using assms by (induction sessions arbitrary: obs) (simp_all add: nth_correlate_session)

lemma fold_session_step:
  "fold (session_step q ev excluded windows) sessions ob =
     (fold (\<lambda>s. add_range s (fst windows) (range_totals s (fst windows)))
        (filter (contributes q ev excluded) sessions) (fst ob),
      fold (\<lambda>s. add_range s (snd windows) (range_totals s (snd windows)))
        (filter (contributes q ev excluded) sessions) (snd ob))"
  by (induction sessions arbitrary: ob) (simp_all add: session_step_def)

lemma observed_tokens:
  fixes ob :: "'p correlation_observation"
  shows "total_tokens (co_tokens (fold (\<lambda>s. add_range s w (range_totals s w)) ss ob))
    = total_tokens (co_tokens ob) + (\<Sum>s\<leftarrow>ss. total_tokens (r_tokens (range_totals s w :: 'p range_totals_t)))"
  by (induction ss arbitrary: ob) (simp_all add: add_range_def add_totals_def)

lemma observed_calls:
  fixes ob :: "'p correlation_observation"
  shows "m_calls (co_tool_metrics (fold (\<lambda>s. add_range s w (range_totals s w)) ss ob))
    = m_calls (co_tool_metrics ob) + (\<Sum>s\<leftarrow>ss. m_calls (r_tool_metrics (range_totals s w :: 'p range_totals_t)))"
  by (induction ss arbitrary: ob) (simp_all add: add_range_def metrics_add_assign_def)

section \<open>The filter on summaries\<close>

definition within_span :: "session \<Rightarrow> bool" where
  "within_span s \<longleftrightarrow>
     list_all (\<lambda>ev. s_started_at s \<le> h_timestamp ev \<and> h_timestamp ev \<le> s_last_event_at s)
       (s_tokens_history s)
     \<and> list_all (\<lambda>ob. s_started_at s \<le> o_timestamp ob \<and> o_timestamp ob \<le> s_last_event_at s)
       (s_tool_observations s)"

definition whole_millis :: "timestamp \<Rightarrow> bool" where
  "whole_millis t \<longleftrightarrow> t mod 1000000 = 0"

lemma before_window:
  assumes "whole_millis f" and "t < f"
  shows "timestamp_millis t < timestamp_millis f"
proof -
  have "f = 1000000 * (f div 1000000)"
    using assms(1) by (simp add: whole_millis_def mod_eq_0_iff_dvd)
  with assms(2) show ?thesis unfolding timestamp_millis_def by linarith
qed

lemma outside_window:
  assumes "\<not> interval_overlaps start stop (Some f, Some u)" and "whole_millis f"
    and "whole_millis start" and "start \<le> t" and "t \<le> stop"
  shows "\<not> in_window (Some f, Some u) t"
proof -
  consider "t < f" | "u < start" using assms(1,5) by (force simp: interval_overlaps_def)
  then show ?thesis
  proof cases
    case 1
    then show ?thesis using before_window[OF assms(2)] by (force simp: in_window_def)
  next
    case 2
    then show ?thesis
      using before_window[OF assms(3), of u] timestamp_millis_mono[OF assms(4)]
      by (force simp: in_window_def)
  qed
qed

lemma add_range_idle:
  assumes "within_span s" and "whole_millis (s_started_at s)" and "whole_millis f"
    and "\<not> interval_overlaps (s_started_at s) (s_last_event_at s) (Some f, Some u)"
  shows "add_range s w (range_totals s (Some f, Some u)) = (id :: 'p correlation_observation \<Rightarrow> _)"
proof -
  have none: "filter (\<lambda>ev. in_window (Some f, Some u) (h_timestamp ev)) (s_tokens_history s) = []"
    "filter (\<lambda>ob. in_window (Some f, Some u) (o_timestamp ob)) (s_tool_observations s) = []"
    using assms(1) outside_window[OF assms(4,3,2)]
    by (auto simp: filter_empty_conv within_span_def list_all_iff)
  then have "r_tokens (range_totals s (Some f, Some u) :: 'p range_totals_t) = 0"
    and "r_tool_metrics (range_totals s (Some f, Some u) :: 'p range_totals_t) = metrics []"
    by (simp_all add: range_total_sel)
  then show ?thesis
    by (auto simp: add_range_def metrics_def acc_finish_def default_accumulator_def
        default_metrics_def mutation_chain_fields_def)
qed

lemma correlate_at_windows:
  "correlate_at sessions q now =
     (let windows = event_windows q; exclusions = event_exclusions q windows in
      map (\<lambda>i. event_result q now (q_events q ! i) (windows ! i) (fst exclusions ! i)
          (snd exclusions ! i)
          (observe_window q (q_events q ! i) (snd exclusions ! i) (fst (windows ! i)) sessions,
           observe_window q (q_events q ! i) (snd exclusions ! i) (snd (windows ! i)) sessions))
        [0..<length (q_events q)])"
  by (auto simp: correlate_at_def Let_def nth_correlate_sessions fold_session_step
      observe_window_def split: prod.splits)

lemma fold_filter_id: "(\<And>x. x \<in> set xs \<Longrightarrow> \<not> P x \<Longrightarrow> f x = id) \<Longrightarrow> fold f (filter P xs) = fold f xs"
  by (induction xs) auto

lemma scope_of_summary [simp]: "scope_of_summary (summary_of s) = scope_of_session s"
  by (simp add: scope_of_summary_def scope_of_session_def summary_of_def)

lemma whole_millis_days:
  assumes "whole_millis t" shows "whole_millis (t - d * day)"
proof -
  have "1000000 dvd day" by (simp add: day_def)
  with assms show ?thesis by (simp add: whole_millis_def mod_eq_0_iff_dvd)
qed

lemma observe_window_filtered:
  fixes q keyed i
  defines "windows \<equiv> event_windows q"
    and "excluded \<equiv> snd (event_exclusions q (event_windows q))"
    and "keys \<equiv> candidate_session_keys (map (\<lambda>(k, s). (k, summary_of s)) keyed) q"
  assumes spans: "\<And>k s. (k, s) \<in> set keyed \<Longrightarrow> within_span s \<and> whole_millis (s_started_at s)"
    and aligned: "\<And>ev. ev \<in> set (q_events q) \<Longrightarrow> whole_millis (e_timestamp ev)"
    and i: "i < length (q_events q)" and w: "w = fst (windows ! i) \<or> w = snd (windows ! i)"
  shows "observe_window q (q_events q ! i) (excluded ! i) w
      (map snd (filter (\<lambda>(k, s). k \<in> set keys) keyed))
    = (observe_window q (q_events q ! i) (excluded ! i) w (map snd keyed)
        :: 'p correlation_observation)"
proof -
  let ?C = "contributes q (q_events q ! i) (excluded ! i)"
  let ?f = "(\<lambda>s. add_range s w (range_totals s w)) :: session \<Rightarrow> 'p correlation_observation \<Rightarrow> _"
  have idle: "?f (snd x) = id"
    if x: "x \<in> set (filter (\<lambda>x. ?C (snd x)) keyed)" and out: "fst x \<notin> set keys" for x
  proof -
    obtain k s where ks: "x = (k, s)" by (cases x)
    with x have mem: "(k, s) \<in> set keyed" and C: "?C s" by auto
    have "\<not> (interval_overlaps (s_started_at s) (s_last_event_at s) (fst (windows ! i))
        \<or> interval_overlaps (s_started_at s) (s_last_event_at s) (snd (windows ! i)))"
      using out ks mem C i
      by (force simp: keys_def candidate_session_keys_def Let_def contributes_def windows_def
          excluded_def image_iff summary_of_def scope_of_summary[symmetric])
    then have no: "\<not> interval_overlaps (s_started_at s) (s_last_event_at s) w" using w by auto
    obtain f u where fu: "w = (Some f, Some u)" and f: "whole_millis f"
      using w i aligned[OF nth_mem[OF i]] whole_millis_days
      by (auto simp: windows_def event_windows_def)
    show ?thesis
      using add_range_idle[OF _ _ f no[unfolded fu]] spans[OF mem] by (simp add: ks fu)
  qed
  have "fold (\<lambda>x. ?f (snd x)) (filter (\<lambda>x. fst x \<in> set keys) (filter (\<lambda>x. ?C (snd x)) keyed))
      = fold (\<lambda>x. ?f (snd x)) (filter (\<lambda>x. ?C (snd x)) keyed)"
    by (rule fold_filter_id) (use idle in blast)
  then show ?thesis
    by (simp add: observe_window_def filter_map fold_map comp_def filter_filter conj_commute
        case_prod_beta cong: conj_cong)
qed

text \<open>C13: One traversal per session serves the windows of all events. The correlation the code
  computes by asking each session once for all the windows it matters to, and distributing the
  rollups by position, is for every event the comparison of its two windows observed on their
  own; and the tokens and tool calls a window reports are the sums over the contributing
  sessions, although sessions without activity in it are skipped.\<close>

theorem correlate_per_event:
  fixes q sessions w ev ex
  defines "windows \<equiv> event_windows q"
    and "confounds \<equiv> fst (event_exclusions q (event_windows q))"
    and "excluded \<equiv> snd (event_exclusions q (event_windows q))"
    and "observe \<equiv> \<lambda>i w. observe_window q (q_events q ! i) (snd (event_exclusions q (event_windows q)) ! i) w sessions"
  shows "correlate_at sessions q now =
      map (\<lambda>i. event_result q now (q_events q ! i) (windows ! i) (confounds ! i) (excluded ! i)
          (observe i (fst (windows ! i)), observe i (snd (windows ! i)))) [0..<length (q_events q)]
    \<and> total_tokens (co_tokens (observe_window q ev ex w sessions :: 'p correlation_observation))
      = (\<Sum>s\<leftarrow>filter (contributes q ev ex) sessions. total_tokens (r_tokens (range_totals s w :: 'p range_totals_t)))
    \<and> m_calls (co_tool_metrics (observe_window q ev ex w sessions :: 'p correlation_observation))
      = (\<Sum>s\<leftarrow>filter (contributes q ev ex) sessions. m_calls (r_tool_metrics (range_totals s w :: 'p range_totals_t)))"
proof (intro conjI)
  show "correlate_at sessions q now =
      map (\<lambda>i. event_result q now (q_events q ! i) (windows ! i) (confounds ! i) (excluded ! i)
          (observe i (fst (windows ! i)), observe i (snd (windows ! i)))) [0..<length (q_events q)]"
    by (simp add: correlate_at_windows Let_def assms)
  show "total_tokens (co_tokens (observe_window q ev ex w sessions :: 'p correlation_observation))
      = (\<Sum>s\<leftarrow>filter (contributes q ev ex) sessions. total_tokens (r_tokens (range_totals s w :: 'p range_totals_t)))"
    unfolding observe_window_def by (subst observed_tokens) (simp add: no_observation_def)
  show "m_calls (co_tool_metrics (observe_window q ev ex w sessions :: 'p correlation_observation))
      = (\<Sum>s\<leftarrow>filter (contributes q ev ex) sessions. m_calls (r_tool_metrics (range_totals s w :: 'p range_totals_t)))"
    unfolding observe_window_def
    by (subst observed_calls) (simp add: no_observation_def default_metrics_def)
qed

text \<open>C14: Dropping sessions on their summaries before their content is loaded does not change
  the correlation: when the events of every session lie between its start and its last event,
  and the starts and the external events fall on whole milliseconds (the rollup compares
  milliseconds, the filter compares exact times), correlating only the sessions whose keys the
  filter returns gives the result of correlating all of them.\<close>

theorem correlation_prefilter_sound:
  fixes keyed q
  defines "keys \<equiv> candidate_session_keys (map (\<lambda>(k, s). (k, summary_of s)) keyed) q"
  assumes "\<And>k s. (k, s) \<in> set keyed \<Longrightarrow> within_span s \<and> whole_millis (s_started_at s)"
    and "\<And>ev. ev \<in> set (q_events q) \<Longrightarrow> whole_millis (e_timestamp ev)"
  shows "correlate_at (map snd (filter (\<lambda>(k, s). k \<in> set keys) keyed)) q now
    = correlate_at (map snd keyed) q now"
  unfolding correlate_at_windows Let_def keys_def
  by (auto intro!: map_cong simp: observe_window_filtered[OF assms(2,3)])

section \<open>Examples\<close>

definition sample_event :: "timestamp \<Rightarrow> external_event" where
  "sample_event t = \<lparr>e_id = ''e'', e_timestamp = t, e_scope = None, e_source = ''git'',
     e_kind = ''commit'', e_metadata = []\<rparr>"

definition sample_query :: "timestamp \<Rightarrow> correlation_query" where
  "sample_query t = \<lparr>q_events = [sample_event t], q_before_days = 1, q_after_days = 1,
     q_exclude_confounded = False, q_include_subagents = True\<rparr>"

definition session_at :: "timestamp \<Rightarrow> session" where
  "session_at t = sample_session\<lparr>s_started_at := t, s_last_event_at := t,
     s_tool_observations := [],
     s_tokens_history := [\<lparr>h_timestamp = t, h_model = None, h_service_tier = None,
       h_request_input_tokens = None, h_total_tokens = 7,
       h_delta = default_totals\<lparr>total_tokens := 7\<rparr>\<rparr>]\<rparr>"

lemma sample_keys:
  "candidate_session_keys (map (\<lambda>(k, s). (k, summary_of s))
     [(''a'', session_at 5000000), (''b'', session_at 900000000000000)]) (sample_query 4000000) = [''a'']"
  by code_simp

lemma correlation_prefilter_sound_witness:
  "correlate_at [session_at 5000000] (sample_query 4000000) 0
    = (correlate_at [session_at 5000000, session_at 900000000000000] (sample_query 4000000) 0
        :: unit event_correlation list)"
proof -
  let ?keyed = "[(''a'', session_at 5000000), (''b'', session_at 900000000000000)]"
  have "correlate_at (map snd (filter (\<lambda>(k, s). k \<in> set [''a'']) ?keyed)) (sample_query 4000000) 0
      = (correlate_at (map snd ?keyed) (sample_query 4000000) 0 :: unit event_correlation list)"
    unfolding sample_keys[symmetric]
    by (rule correlation_prefilter_sound)
      (auto simp: within_span_def whole_millis_def session_at_def sample_session_def
        sample_query_def sample_event_def)
  then show ?thesis by simp
qed

text \<open>The alignment is needed: a session that ends inside the millisecond in which the window
  starts is dropped by the filter although the rollup counts its event.\<close>

lemma prefilter_within_millisecond:
  "candidate_session_keys [(''a'', summary_of (session_at 1000500))] (sample_query 1000900) = []"
  "map (co_session_count \<circ> ec_after)
     (correlate_at [session_at 1000500] (sample_query 1000900) 0 :: unit event_correlation list) = [1]"
  by code_simp+

end
