(* ===== verification/Tool_Impact.thy ===== *)
theory Tool_Impact
  imports Range_Totals "HOL-Library.Sublist"
begin

text \<open>
  \<open>src-tauri/src/tool_impact.rs\<close>: the comparison of turns that used a tool or provider with
  turns that did not. Turns become samples; every sample with the target is paired, in time
  order, with the closest unused sample without it that has the same harness, model and
  category. The lemmas show that the pairing is one-to-one within a key, that it is as large as
  it can be, that the chosen sample is closest in time, and that the filter on session summaries
  loses nothing.
\<close>

section \<open>Data\<close>

datatype impact_target_kind = TargetProvider | TargetTool

instantiation impact_target_kind :: linorder
begin

definition "a \<le> b \<longleftrightarrow> a = TargetProvider \<or> b = TargetTool" for a b :: impact_target_kind

definition "a < b \<longleftrightarrow> a = TargetProvider \<and> b = TargetTool" for a b :: impact_target_kind

instance
proof
  fix a b c :: impact_target_kind
  show "(a < b) = (a \<le> b \<and> \<not> b \<le> a)" and "a \<le> a" and "a \<le> b \<or> b \<le> a"
    by (cases a; cases b; simp add: less_eq_impact_target_kind_def less_impact_target_kind_def)+
  show "a \<le> b \<Longrightarrow> b \<le> c \<Longrightarrow> a \<le> c" and "a \<le> b \<Longrightarrow> b \<le> a \<Longrightarrow> a = b"
    by (auto simp: less_eq_impact_target_kind_def)
qed

end

record impact_target =
  it_kind :: impact_target_kind
  it_key :: string
  it_label :: string
  it_turn_count :: u64
  it_call_count :: u64

record impact_cohort =
  ic_turn_count :: u64
  ic_session_count :: u64
  ic_completed_turn_count :: u64
  ic_duration_sample_count :: u64
  ic_total_duration_ms :: u64
  ic_ttft_sample_count :: u64
  ic_total_ttft_ms :: u64
  ic_tokens :: token_totals
  ic_buckets :: "tier_bucket list"
  ic_tool_metrics :: tool_metrics

definition default_cohort :: impact_cohort where
  "default_cohort =
     \<lparr>ic_turn_count = 0, ic_session_count = 0, ic_completed_turn_count = 0,
      ic_duration_sample_count = 0, ic_total_duration_ms = 0, ic_ttft_sample_count = 0,
      ic_total_ttft_ms = 0, ic_tokens = default_totals, ic_buckets = [],
      ic_tool_metrics = default_metrics\<rparr>"

record impact_result =
  ir_target_kind :: impact_target_kind
  ir_target_key :: string
  ir_observed :: impact_cohort
  ir_baseline :: impact_cohort
  ir_matched_observed :: impact_cohort
  ir_matched_baseline :: impact_cohort
  ir_matched_pairs :: u64
  ir_warnings :: "string list"

text \<open>\<open>MatchKey\<close>, ordered by its fields in turn: (harness, model, category).\<close>

type_synonym match_key = "provider_id \<times> string \<times> task_category"

record turn_sample =
  ts_session_id :: string
  ts_timestamp :: timestamp
  ts_key :: match_key
  ts_service_tier :: "string option"
  ts_completed :: bool
  ts_duration_ms :: "u64 option"
  ts_ttft_ms :: "u64 option"
  ts_tokens :: token_totals
  ts_tools :: tool_metrics
  ts_target_used :: bool

section \<open>Cohorts\<close>

record cohort_accumulator =
  ca_cohort :: impact_cohort
  ca_session_ids :: "string list"
  ca_buckets :: "((string \<times> string option) \<times> token_totals) list"

text \<open>Adding an optional measurement to a pair of count and sum.\<close>

definition add_sample_time :: "u64 option \<Rightarrow> u64 \<times> u64 \<Rightarrow> u64 \<times> u64" where
  "add_sample_time measured = (\<lambda>(count, sum).
     case measured of None \<Rightarrow> (count, sum) | Some v \<Rightarrow> (count + 1, sum + v))"

definition cohort_push :: "turn_sample \<Rightarrow> cohort_accumulator \<Rightarrow> cohort_accumulator" where
  "cohort_push sample acc =
     (let c = ca_cohort acc;
          duration = add_sample_time (ts_duration_ms sample)
            (ic_duration_sample_count c, ic_total_duration_ms c);
          ttft = add_sample_time (ts_ttft_ms sample) (ic_ttft_sample_count c, ic_total_ttft_ms c)
      in \<lparr>ca_cohort = c\<lparr>
            ic_turn_count := ic_turn_count c + 1,
            ic_completed_turn_count :=
              (if ts_completed sample then ic_completed_turn_count c + 1
               else ic_completed_turn_count c),
            ic_duration_sample_count := fst duration,
            ic_total_duration_ms := snd duration,
            ic_ttft_sample_count := fst ttft,
            ic_total_ttft_ms := snd ttft,
            ic_tokens := add_totals (ic_tokens c) (ts_tokens sample),
            ic_tool_metrics := metrics_add_assign (ic_tool_metrics c) (ts_tools sample)\<rparr>,
          ca_session_ids = insort_insert (ts_session_id sample) (ca_session_ids acc),
          ca_buckets =
            (case ts_key sample of (_, model, _) \<Rightarrow>
               if total_tokens (ts_tokens sample) > 0 \<and> model \<noteq> ''unknown''
               then tm_entry (model, ts_service_tier sample) default_totals
                      (\<lambda>t. add_totals t (ts_tokens sample)) (ca_buckets acc)
               else ca_buckets acc)\<rparr>)"

definition cohort_finish :: "cohort_accumulator \<Rightarrow> impact_cohort" where
  "cohort_finish acc =
     (ca_cohort acc)\<lparr>
       ic_session_count := word_of_nat (length (ca_session_ids acc)),
       ic_buckets := map (\<lambda>((model, tier), tokens).
         \<lparr>b_model = model, b_service_tier = tier, b_tokens = tokens\<rparr>) (ca_buckets acc)\<rparr>"

definition aggregate :: "turn_sample list \<Rightarrow> impact_cohort" where
  "aggregate samples =
     cohort_finish (fold cohort_push samples
       \<lparr>ca_cohort = default_cohort, ca_session_ids = [], ca_buckets = []\<rparr>)"

section \<open>Samples\<close>

definition turn_start :: "session \<Rightarrow> turn_info \<Rightarrow> timestamp" where
  "turn_start s turn = unwrap_or (s_started_at s) (t_started_at turn)"

definition turn_overlaps :: "session \<Rightarrow> turn_info \<Rightarrow> range_window \<Rightarrow> bool" where
  "turn_overlaps s turn = (\<lambda>(from, to).
     let start = turn_start s turn;
         stop = max (unwrap_or (s_last_event_at s) (t_completed_at turn)) start
     in (case from of None \<Rightarrow> True | Some f \<Rightarrow> f \<le> stop)
        \<and> (case to of None \<Rightarrow> True | Some t \<Rightarrow> start \<le> t))"

definition turn_has_comparison_data :: "turn_info \<Rightarrow> bool" where
  "turn_has_comparison_data turn \<longleftrightarrow>
     total_tokens (t_tokens turn) > 0 \<or> m_calls (t_tool_metrics turn) > 0
     \<or> t_duration_ms turn \<noteq> None"

definition eq_ignore_ascii_case :: "string \<Rightarrow> string \<Rightarrow> bool" where
  "eq_ignore_ascii_case a b \<longleftrightarrow> to_ascii_lowercase a = to_ascii_lowercase b"

definition observed_tools :: "tool_observation \<Rightarrow> string list" where
  "observed_tools ob =
     (if o_effective_tools ob = [] then [o_name ob] else o_effective_tools ob)"

definition observation_matches_target ::
    "tool_observation \<Rightarrow> impact_target_kind \<Rightarrow> string \<Rightarrow> bool" where
  "observation_matches_target ob kind key =
     (case kind of
        TargetProvider \<Rightarrow>
          list_ex (\<lambda>v. eq_ignore_ascii_case v key) (o_providers ob)
          \<or> list_ex (\<lambda>v. eq_ignore_ascii_case v key) (tool_providers (o_name ob) Null)
      | TargetTool \<Rightarrow> list_ex (\<lambda>v. eq_ignore_ascii_case v key) (observed_tools ob))"

definition eligible_turns :: "session \<Rightarrow> range_window \<Rightarrow> turn_info list" where
  "eligible_turns s w =
     filter turn_has_comparison_data (filter (\<lambda>t. turn_overlaps s t w) (s_turns s))"

definition samples_for_session ::
    "impact_target_kind \<Rightarrow> string \<Rightarrow> range_window \<Rightarrow> session \<Rightarrow> turn_sample list" where
  "samples_for_session kind key w s =
     (let observed_turns = filter_map o_turn_id
            (filter (\<lambda>ob. observation_matches_target ob kind key) (s_tool_observations s))
      in map (\<lambda>turn.
           \<lparr>ts_session_id = effective_storage_id s,
            ts_timestamp = turn_start s turn,
            ts_key = (s_harness s,
              unwrap_or ''unknown'' (or_else (t_model turn) (s_model s)),
              cl_category (t_classification turn)),
            ts_service_tier = or_else (t_service_tier turn) (s_service_tier s),
            ts_completed = (t_status turn = Completed),
            ts_duration_ms = t_duration_ms turn,
            ts_ttft_ms = t_time_to_first_token_ms turn,
            ts_tokens = t_tokens turn,
            ts_tools = t_tool_metrics turn,
            ts_target_used = (t_turn_id turn \<in> set observed_turns)\<rparr>) (eligible_turns s w))"

definition impact_session_keys ::
    "(string \<times> session_summary) list \<Rightarrow> range_window \<Rightarrow> string list" where
  "impact_session_keys summaries = (\<lambda>(from, to).
     map fst (filter (\<lambda>(_, y).
       (case from of None \<Rightarrow> True | Some f \<Rightarrow> f \<le> y_last_event_at y)
       \<and> (case to of None \<Rightarrow> True | Some t \<Rightarrow> y_started_at y \<le> t)) summaries))"

section \<open>Targets\<close>

definition observation_targets :: "tool_observation \<Rightarrow> (impact_target_kind \<times> string) list" where
  "observation_targets ob =
     remdups
       (map (\<lambda>p. (TargetProvider, to_ascii_lowercase p)) (o_providers ob)
        @ (if o_providers ob = []
           then map (\<lambda>p. (TargetProvider, p)) (tool_providers (o_name ob) Null) else [])
        @ map (\<lambda>t. (TargetTool, to_ascii_lowercase t)) (observed_tools ob))"

record target_count =
  tc_turns :: "(string \<times> string) list"
  tc_calls :: u64

definition count_target :: "string \<times> string \<Rightarrow> target_count \<Rightarrow> target_count" where
  "count_target turn_identity tally =
     \<lparr>tc_turns = insort_insert turn_identity (tc_turns tally), tc_calls = tc_calls tally + 1\<rparr>"

definition count_session_targets ::
    "range_window \<Rightarrow> session \<Rightarrow> ((impact_target_kind \<times> string) \<times> target_count) list
      \<Rightarrow> ((impact_target_kind \<times> string) \<times> target_count) list" where
  "count_session_targets w s counts =
     (let turns = map t_turn_id (eligible_turns s w) in
      fold (\<lambda>ob counts.
        case o_turn_id ob of
          None \<Rightarrow> counts
        | Some turn_id \<Rightarrow>
            if turn_id \<notin> set turns then counts
            else fold (\<lambda>target.
                   tm_entry target \<lparr>tc_turns = [], tc_calls = 0\<rparr>
                     (count_target (effective_storage_id s, turn_id)))
                   (observation_targets ob) counts)
        (s_tool_observations s) counts)"

definition list_targets :: "session list \<Rightarrow> range_window \<Rightarrow> impact_target list" where
  "list_targets sessions w =
     sort_key (\<lambda>t. (it_kind t, - uint (it_turn_count t), it_label t))
       (map (\<lambda>((kind, key), count).
          \<lparr>it_kind = kind, it_key = key, it_label = key,
           it_turn_count = word_of_nat (length (tc_turns count)),
           it_call_count = tc_calls count\<rparr>)
        (fold (count_session_targets w) sessions []))"

section \<open>Matching\<close>

text \<open>A pool: the baseline samples of one key by the millisecond of their start.\<close>

type_synonym sample_pool = "(int \<times> turn_sample list) list"

definition i64_sat_sub :: "int \<Rightarrow> int \<Rightarrow> int" where
  "i64_sat_sub a b = max (- (2 ^ 63)) (min (2 ^ 63 - 1) (a - b))"

definition closest_key :: "sample_pool \<Rightarrow> int \<Rightarrow> int option" where
  "closest_key pool target =
     (let below = filter (\<lambda>k. k \<le> target) (map fst pool);
          above = filter (\<lambda>k. target \<le> k) (map fst pool)
      in case (if below = [] then None else Some (last below),
               if above = [] then None else Some (hd above)) of
           (Some b, Some a) \<Rightarrow>
             Some (if i64_sat_sub target b \<le> i64_sat_sub a target then b else a)
         | (Some b, None) \<Rightarrow> Some b
         | (None, Some a) \<Rightarrow> Some a
         | (None, None) \<Rightarrow> None)"

definition take_closest :: "sample_pool \<Rightarrow> int \<Rightarrow> turn_sample option \<times> sample_pool" where
  "take_closest pool target =
     (case closest_key pool target of
        None \<Rightarrow> (None, pool)
      | Some key \<Rightarrow>
          let samples = unwrap_or [] (map_of pool key);
              rest = butlast samples
          in (if samples = [] then None else Some (last samples),
              if rest = [] then filter (\<lambda>(k, _). k \<noteq> key) pool
              else map (\<lambda>(k, v). (k, if k = key then rest else v)) pool))"

definition baseline_pools :: "turn_sample list \<Rightarrow> (match_key \<times> sample_pool) list" where
  "baseline_pools baseline =
     fold (\<lambda>sample. tm_entry (ts_key sample) []
       (tm_entry (timestamp_millis (ts_timestamp sample)) [] (\<lambda>v. v @ [sample]))) baseline []"

definition match_sample ::
    "turn_sample \<Rightarrow> (match_key \<times> sample_pool) list \<times> turn_sample list \<times> turn_sample list
      \<Rightarrow> (match_key \<times> sample_pool) list \<times> turn_sample list \<times> turn_sample list" where
  "match_sample sample = (\<lambda>(pools, matched_observed, matched_baseline).
     case map_of pools (ts_key sample) of
       None \<Rightarrow> (pools, matched_observed, matched_baseline)
     | Some pool \<Rightarrow>
         (case take_closest pool (timestamp_millis (ts_timestamp sample)) of
            (candidate, pool) \<Rightarrow>
              let pools = map (\<lambda>(k, v). (k, if k = ts_key sample then pool else v)) pools
              in case candidate of
                   None \<Rightarrow> (pools, matched_observed, matched_baseline)
                 | Some candidate \<Rightarrow>
                     (pools, matched_observed @ [sample], matched_baseline @ [candidate])))"

definition match_samples :: "turn_sample list \<Rightarrow> turn_sample list \<times> turn_sample list" where
  "match_samples samples =
     snd (fold match_sample
       (sort_key ts_timestamp (filter ts_target_used samples))
       (baseline_pools (filter (\<lambda>s. \<not> ts_target_used s) samples), [], []))"

definition impact_warnings ::
    "impact_target_kind \<Rightarrow> impact_cohort \<Rightarrow> impact_cohort \<Rightarrow> nat \<Rightarrow> string list" where
  "impact_warnings kind observed baseline pairs =
     (let label = (case kind of TargetProvider \<Rightarrow> ''provider'' | TargetTool \<Rightarrow> ''tool'') in
      [''Transcripts prove observed '' @ label
         @ '' use, not whether it was installed or available.'']
      @ (if ic_turn_count observed = 0
         then [''No turns using the selected '' @ label @ '' were found in this view.''] else [])
      @ (if ic_turn_count baseline = 0
         then [''No turns without the selected '' @ label @ '' were found for a baseline.'']
         else [])
      @ (if 0 < pairs \<and> pairs < 3
         then [''Fewer than three same-harness, same-model, same-category pairs were available.'']
         else [])
      @ (if ic_duration_sample_count observed < ic_turn_count observed
            \<or> ic_duration_sample_count baseline < ic_turn_count baseline
         then [''Elapsed-time averages exclude turns without duration data.''] else []))"

definition compare_impact ::
    "session list \<Rightarrow> impact_target_kind \<Rightarrow> string \<Rightarrow> range_window \<Rightarrow> impact_result" where
  "compare_impact sessions target_kind target_key w =
     (let target_key = to_ascii_lowercase (trim target_key);
          samples = concat (map (samples_for_session target_kind target_key w) sessions);
          observed = aggregate (filter ts_target_used samples);
          baseline = aggregate (filter (\<lambda>s. \<not> ts_target_used s) samples)
      in case match_samples samples of
           (matched_observed, matched_baseline) \<Rightarrow>
             \<lparr>ir_target_kind = target_kind,
              ir_target_key = target_key,
              ir_observed = observed,
              ir_baseline = baseline,
              ir_matched_observed = aggregate matched_observed,
              ir_matched_baseline = aggregate matched_baseline,
              ir_matched_pairs = word_of_nat (length matched_observed),
              ir_warnings =
                impact_warnings target_kind observed baseline (length matched_observed)\<rparr>)"

section \<open>Pools\<close>

definition sample_millis :: "turn_sample \<Rightarrow> int" where
  "sample_millis s = timestamp_millis (ts_timestamp s)"

definition pool_mset :: "sample_pool \<Rightarrow> turn_sample multiset" where
  "pool_mset pool = (\<Sum>(_, v)\<leftarrow>pool. mset v)"

definition pool_ok :: "sample_pool \<Rightarrow> bool" where
  "pool_ok pool \<longleftrightarrow>
     tm_inv pool \<and> (\<forall>(k, v)\<in>set pool. v \<noteq> [] \<and> (\<forall>s\<in>set v. sample_millis s = k))"

lemma pool_mset_Nil [simp]: "pool_mset [] = {#}"
  by (simp add: pool_mset_def)

lemma pool_mset_append [simp]: "pool_mset (a @ b) = pool_mset a + pool_mset b"
  by (simp add: pool_mset_def)

lemma pool_mset_Cons [simp]: "pool_mset ((k, v) # b) = mset v + pool_mset b"
  by (simp add: pool_mset_def)

lemma in_pool_mset: "x \<in># pool_mset pool \<longleftrightarrow> (\<exists>(k, v)\<in>set pool. x \<in> set v)"
  by (induction pool) auto

lemma pool_insert:
  fixes s pool
  assumes "pool_ok pool"
  defines "pool' \<equiv> tm_entry (sample_millis s) [] (\<lambda>v. v @ [s]) pool"
  shows "pool_ok pool' \<and> pool_mset pool' = add_mset s (pool_mset pool)"
proof
  from assms(1) have inv: "tm_inv pool" by (simp add: pool_ok_def)
  then have inv': "tm_inv pool'" by (simp add: pool'_def tm_entry_inv)
  have "v \<noteq> [] \<and> (\<forall>x\<in>set v. sample_millis x = k)" if "(k, v) \<in> set pool'" for k v
  proof -
    have d: "distinct (map fst pool')" "distinct (map fst pool)"
      using tm.invar_distinct[OF inv'] tm.invar_distinct[OF inv] by blast+
    from that have "map_of pool' k = Some v" using map_of_distinct_in[OF d(1)] by blast
    then have "(if k = sample_millis s
        then Some (unwrap_or [] (map_of pool k) @ [s]) else map_of pool k) = Some v"
      by (simp add: pool'_def tm.entry_lookup[OF inv] unwrap_or_def split: if_splits option.splits)
    then show ?thesis
      using assms(1) by (fastforce simp: pool_ok_def unwrap_or_def dest!: map_of_SomeD
          split: if_splits option.splits)
  qed
  with inv' show "pool_ok pool'" by (auto simp: pool_ok_def)
  show "pool_mset pool' = add_mset s (pool_mset pool)"
    using tm.entry_sum[OF inv, where w = mset and d = "[]" and c = "{#s#}" and f = "\<lambda>v. v @ [s]"]
    by (simp add: pool_mset_def pool'_def)
qed

lemma map_of_split:
  assumes "distinct (map fst m)" and "map_of m k = Some v"
  obtains a b where "m = a @ (k, v) # b" and "k \<notin> fst ` set a" and "k \<notin> fst ` set b"
proof -
  from assms(2) have "(k, v) \<in> set m" by (rule map_of_SomeD)
  then obtain a b where "m = a @ (k, v) # b" by (meson split_list)
  with assms(1) that show thesis by auto
qed

lemma map_other_key:
  "k \<notin> fst ` set m \<Longrightarrow> map (\<lambda>(k', v). (k', if k' = k then r else v)) m = m"
  by (induction m) auto

lemma filter_other_key: "k \<notin> fst ` set m \<Longrightarrow> filter (\<lambda>(k', _). k' \<noteq> k) m = m"
  by (induction m) auto

lemma closest_key_in:
  "closest_key pool t = Some k \<Longrightarrow> k \<in> fst ` set pool"
  using last_in_set[of "filter (\<lambda>k. k \<le> t) (map fst pool)"]
    hd_in_set[of "filter (\<lambda>k. t \<le> k) (map fst pool)"]
  by (auto simp: closest_key_def Let_def filter_empty_conv split: if_splits)

lemma closest_key_None: "closest_key pool t = None \<longleftrightarrow> pool = []"
  by (cases pool) (auto simp: closest_key_def Let_def split: if_splits)

text \<open>Taking removes one sample, of the chosen key.\<close>

lemma take_closest_some:
  assumes ok: "pool_ok pool" and k: "closest_key pool t = Some k"
  obtains x rest where "take_closest pool t = (Some x, rest)" and "pool_ok rest"
    and "pool_mset pool = add_mset x (pool_mset rest)" and "sample_millis x = k"
proof -
  have d: "distinct (map fst pool)" using ok tm.invar_distinct by (auto simp: pool_ok_def)
  obtain v where v: "map_of pool k = Some v"
    using closest_key_in[OF k] by (metis map_of_eq_None_iff not_Some_eq)
  obtain a b where ab: "pool = a @ (k, v) # b" "k \<notin> fst ` set a" "k \<notin> fst ` set b"
    using map_of_split[OF d v] .
  have v_ok: "v \<noteq> []" "\<forall>s\<in>set v. sample_millis s = k"
    using ok ab(1) by (auto simp: pool_ok_def)
  let ?rest = "if butlast v = [] then a @ b else a @ (k, butlast v) # b"
  have "take_closest pool t = (Some (last v), ?rest)"
    using k v v_ok(1) ab
    by (simp add: take_closest_def Let_def unwrap_or_def filter_other_key map_other_key)
  moreover have "pool_ok ?rest"
    using ok ab(1) v_ok by (auto simp: pool_ok_def tm_inv_def sorted_wrt_append
        dest: in_set_butlastD)
  moreover have "mset v = add_mset (last v) (mset (butlast v))"
    using arg_cong[OF append_butlast_last_id[OF v_ok(1)], of mset] by simp
  then have "pool_mset pool = add_mset (last v) (pool_mset ?rest)"
    by (simp add: ab(1))
  moreover have "sample_millis (last v) = k" using v_ok by simp
  ultimately show thesis by (rule that)
qed

section \<open>The pairing\<close>

definition content :: "(match_key \<times> sample_pool) list \<Rightarrow> match_key \<Rightarrow> turn_sample multiset" where
  "content pools k = (case map_of pools k of None \<Rightarrow> {#} | Some pool \<Rightarrow> pool_mset pool)"

definition pools_ok :: "(match_key \<times> sample_pool) list \<Rightarrow> bool" where
  "pools_ok pools \<longleftrightarrow> (\<forall>k pool. map_of pools k = Some pool \<longrightarrow>
     pool_ok pool \<and> (\<forall>c\<in>#pool_mset pool. ts_key c = k))"

lemma map_of_replace:
  "map_of (map (\<lambda>(k', v). (k', if k' = k then r else v)) m)
    = (if k \<in> fst ` set m then (map_of m)(k \<mapsto> r) else map_of m)"
  by (induction m) (auto simp: fun_eq_iff)

lemma match_sample_cases:
  assumes "pools_ok P"
  obtains
    (skip) P' where "match_sample s (P, mo, mb) = (P', mo, mb)" and "pools_ok P'"
      and "content P' = content P" and "content P (ts_key s) = {#}"
  | (pair) P' c where "match_sample s (P, mo, mb) = (P', mo @ [s], mb @ [c])" and "pools_ok P'"
      and "ts_key c = ts_key s"
      and "content P = (content P')(ts_key s := add_mset c (content P' (ts_key s)))"
proof (cases "map_of P (ts_key s)")
  case None
  then show thesis using assms by (intro skip[of P]) (simp_all add: match_sample_def content_def)
next
  case (Some pool)
  let ?k = "ts_key s" and ?t = "timestamp_millis (ts_timestamp s)"
  have ok: "pool_ok pool" and keys: "\<And>c. c \<in># pool_mset pool \<Longrightarrow> ts_key c = ?k"
    using assms Some unfolding pools_ok_def by blast+
  have mem: "?k \<in> fst ` set P" using Some by (force dest: map_of_SomeD)
  let ?P = "\<lambda>r. map (\<lambda>(k', v). (k', if k' = ?k then r else v)) P"
  have content: "content (?P r) = (content P)(?k := pool_mset r)" for r
    using mem by (auto simp: content_def map_of_replace fun_eq_iff)
  have pools: "pools_ok (?P r)" if "pool_ok r" "\<And>c. c \<in># pool_mset r \<Longrightarrow> ts_key c = ?k" for r
    using assms that mem by (auto simp: pools_ok_def map_of_replace)
  show thesis
  proof (cases "closest_key pool ?t")
    case None
    then have none: "take_closest pool ?t = (None, pool)" by (simp add: take_closest_def)
    have empty: "pool = []" using None closest_key_None by blast
    have same: "content (?P pool) = content P" and nil: "content P ?k = {#}"
      using Some empty by (auto simp: content content_def fun_eq_iff)
    show thesis
      by (rule skip[OF _ pools[OF ok keys] same nil])
        (simp_all add: match_sample_def Some none)
  next
    case (Some k)
    obtain x rest where x: "take_closest pool ?t = (Some x, rest)" "pool_ok rest"
        "pool_mset pool = add_mset x (pool_mset rest)"
      using take_closest_some[OF ok Some] by blast
    show thesis
    proof (rule pair[of "?P rest" x])
      show "match_sample s (P, mo, mb) = (?P rest, mo @ [s], mb @ [x])"
        using \<open>map_of P ?k = Some pool\<close> x(1) by (simp add: match_sample_def)
      show "pools_ok (?P rest)" using pools[OF x(2)] keys x(3) by simp
      show "ts_key x = ?k" using keys x(3) by simp
      show "content P = (content (?P rest))(?k := add_mset x (content (?P rest) ?k))"
        using \<open>map_of P ?k = Some pool\<close> x(3) by (auto simp: content content_def)
    qed
  qed
qed

lemma match_fold:
  assumes "pools_ok P"
  shows "\<exists>P' mo' mb'. fold match_sample xs (P, mo, mb) = (P', mo @ mo', mb @ mb')
    \<and> list_all2 (\<lambda>a b. ts_key a = ts_key b) mo' mb'
    \<and> subseq mo' xs
    \<and> (\<forall>k. content P k = {#b \<in># mset mb'. ts_key b = k#} + content P' k
         \<and> length (filter (\<lambda>a. ts_key a = k) mo')
             = min (length (filter (\<lambda>a. ts_key a = k) xs)) (size (content P k)))"
  using assms
proof (induction xs arbitrary: P mo mb)
  case Nil
  then show ?case by (intro exI[of _ P]) (simp add: exI[of _ "[]"])
next
  case (Cons s xs)
  show ?case
  proof (cases rule: match_sample_cases[OF Cons.prems, of s mo mb, case_names skip pair])
    case (skip P')
    from Cons.IH[OF skip(2), of mo mb] obtain P'' mo' mb' where
      "fold match_sample xs (P', mo, mb) = (P'', mo @ mo', mb @ mb')"
      "list_all2 (\<lambda>a b. ts_key a = ts_key b) mo' mb'" "subseq mo' xs"
      "\<And>k. content P' k = {#b \<in># mset mb'. ts_key b = k#} + content P'' k
         \<and> length (filter (\<lambda>a. ts_key a = k) mo')
             = min (length (filter (\<lambda>a. ts_key a = k) xs)) (size (content P' k))"
      by metis
    note IH = this
    show ?thesis
    proof (rule exI[of _ P''], rule exI[of _ mo'], rule exI[of _ mb'], intro conjI allI)
      fix k
      show "content P k = {#b \<in># mset mb'. ts_key b = k#} + content P'' k"
        using IH(4)[of k] skip(3) by simp
      show "length (filter (\<lambda>a. ts_key a = k) mo')
          = min (length (filter (\<lambda>a. ts_key a = k) (s # xs))) (size (content P k))"
        using IH(4)[of k] skip(3,4) by (cases "k = ts_key s") auto
    qed (use IH skip(1) in auto)
  next
    case (pair P' c)
    from Cons.IH[OF pair(2), of "mo @ [s]" "mb @ [c]"] obtain P'' mo' mb' where
      "fold match_sample xs (P', mo @ [s], mb @ [c]) = (P'', mo @ s # mo', mb @ c # mb')"
      "list_all2 (\<lambda>a b. ts_key a = ts_key b) mo' mb'" "subseq mo' xs"
      "\<And>k. content P' k = {#b \<in># mset mb'. ts_key b = k#} + content P'' k
         \<and> length (filter (\<lambda>a. ts_key a = k) mo')
             = min (length (filter (\<lambda>a. ts_key a = k) xs)) (size (content P' k))"
      by (metis append.assoc append_Cons append_Nil)
    note IH = this
    show ?thesis
    proof (rule exI[of _ P''], rule exI[of _ "s # mo'"], rule exI[of _ "c # mb'"],
        intro conjI allI)
      fix k
      show "content P k = {#b \<in># mset (c # mb'). ts_key b = k#} + content P'' k"
        using IH(4)[of k] pair(3,4) by (cases "k = ts_key s") auto
      show "length (filter (\<lambda>a. ts_key a = k) (s # mo'))
          = min (length (filter (\<lambda>a. ts_key a = k) (s # xs))) (size (content P k))"
        using IH(4)[of k] pair(4) by (cases "k = ts_key s") auto
    qed (use IH pair(1,3) in auto)
  qed
qed

lemma pool_fold:
  fixes p xs
  assumes "pool_ok p"
  defines "r \<equiv> fold (\<lambda>s. tm_entry (sample_millis s) [] (\<lambda>v. v @ [s])) xs p"
  shows "pool_ok r \<and> pool_mset r = pool_mset p + mset xs"
  using assms(1) unfolding r_def
proof (induction xs arbitrary: p)
  case (Cons s xs)
  then show ?case using pool_insert[OF Cons.prems, of s] by simp
qed simp

lemma baseline_pools_content:
  "pools_ok (baseline_pools base)
    \<and> content (baseline_pools base) k = mset (filter (\<lambda>b. ts_key b = k) base)"
proof -
  let ?upd = "\<lambda>s. tm_entry (sample_millis s) [] (\<lambda>v. v @ [s])"
  have lookup: "map_of (baseline_pools base) k =
      (if \<exists>b\<in>set base. ts_key b = k then Some (fold ?upd (filter (\<lambda>b. ts_key b = k) base) [])
       else None)" for k
    using tm.fold_lookup[OF tm.invar_empty, of ts_key "[]" ?upd base k]
    by (simp add: baseline_pools_def sample_millis_def)
  have "pool_ok []" by (simp add: pool_ok_def tm_inv_def)
  note pool = pool_fold[OF this]
  have "pool_ok p \<and> pool_mset p = mset (filter (\<lambda>b. ts_key b = k) base)"
    if "map_of (baseline_pools base) k = Some p" for k p
    using that pool[of "filter (\<lambda>b. ts_key b = k) base"] by (auto simp: lookup split: if_splits)
  then have "pools_ok (baseline_pools base)" unfolding pools_ok_def by auto
  moreover have "content (baseline_pools base) k = mset (filter (\<lambda>b. ts_key b = k) base)"
    using pool[of "filter (\<lambda>b. ts_key b = k) base"]
    by (cases "\<exists>b\<in>set base. ts_key b = k")
      (auto simp: content_def lookup filter_empty_conv simp del: mset_filter)
  ultimately show ?thesis by blast
qed

lemma size_filter_key: "size {#b \<in># mset bs. ts_key b = k#} = length (filter (\<lambda>b. ts_key b = k) bs)"
  by (simp flip: mset_filter)

lemma filter_keys_subset:
  assumes "\<And>k. {#b \<in># A. f b = k#} \<subseteq># {#b \<in># B. f b = k#}"
  shows "A \<subseteq># B"
proof (rule mset_subset_eqI)
  fix x
  show "count A x \<le> count B x"
    using mset_subset_eq_count[OF assms[of "f x"], of x] by simp
qed

section \<open>Properties\<close>

text \<open>The comparison pairs turns one to one. Every matched turn that used the target is paired
  with a turn that did not and has the same harness, model and category; the matched turns are a
  subsequence of the observed ones in time order, no baseline turn is used twice, and for every
  key the number of pairs is the smaller of the two counts, so no possible pair is missed. The
  reported cohorts are the aggregates of exactly these turns.\<close>

theorem impact_matching:
  fixes sessions kind key w
  defines "samples \<equiv>
      concat (map (samples_for_session kind (to_ascii_lowercase (trim key)) w) sessions)"
    and "mo \<equiv> fst (match_samples (concat (map
      (samples_for_session kind (to_ascii_lowercase (trim key)) w) sessions)))"
    and "mb \<equiv> snd (match_samples (concat (map
      (samples_for_session kind (to_ascii_lowercase (trim key)) w) sessions)))"
    and "result \<equiv> compare_impact sessions kind key w"
  shows "list_all2 (\<lambda>a b. ts_key a = ts_key b) mo mb
    \<and> subseq mo (sort_key ts_timestamp (filter ts_target_used samples))
    \<and> mset mb \<subseteq># mset (filter (\<lambda>s. \<not> ts_target_used s) samples)
    \<and> length (filter (\<lambda>a. ts_key a = k) mo)
      = min (length (filter (\<lambda>a. ts_key a = k) (filter ts_target_used samples)))
            (length (filter (\<lambda>b. ts_key b = k) (filter (\<lambda>s. \<not> ts_target_used s) samples)))
    \<and> ir_matched_observed result = aggregate mo \<and> ir_matched_baseline result = aggregate mb
    \<and> ir_matched_pairs result = word_of_nat (length mo)"
proof -
  let ?obs = "sort_key ts_timestamp (filter ts_target_used samples)"
  let ?base = "filter (\<lambda>s. \<not> ts_target_used s) samples"
  note pools = baseline_pools_content[of ?base]
  obtain P' where fold: "fold match_sample ?obs (baseline_pools ?base, [], []) = (P', mo, mb)"
    and keys: "list_all2 (\<lambda>a b. ts_key a = ts_key b) mo mb" and sub: "subseq mo ?obs"
    and per_key: "\<And>k. content (baseline_pools ?base) k
        = {#b \<in># mset mb. ts_key b = k#} + content P' k
      \<and> length (filter (\<lambda>a. ts_key a = k) mo)
        = min (length (filter (\<lambda>a. ts_key a = k) ?obs)) (size (content (baseline_pools ?base) k))"
    using match_fold[of "baseline_pools ?base" ?obs "[]" "[]"] pools
    by (auto simp: mo_def mb_def match_samples_def samples_def)
  have "mset mb \<subseteq># mset ?base"
    by (rule filter_keys_subset[of ts_key])
      (use per_key pools in \<open>auto simp flip: mset_filter intro: mset_subset_eq_add_left\<close>)
  moreover have "length (filter (\<lambda>a. ts_key a = k) ?obs)
      = length (filter (\<lambda>a. ts_key a = k) (filter ts_target_used samples))"
    by (metis mset_filter mset_sort size_mset)
  then have "length (filter (\<lambda>a. ts_key a = k) mo)
      = min (length (filter (\<lambda>a. ts_key a = k) (filter ts_target_used samples)))
            (length (filter (\<lambda>b. ts_key b = k) ?base))"
    using per_key[of k] pools[of k, THEN conjunct2, THEN arg_cong[of _ _ size]] by (simp only: size_mset)
  moreover have "ir_matched_observed result = aggregate mo
      \<and> ir_matched_baseline result = aggregate mb \<and> ir_matched_pairs result = word_of_nat (length mo)"
    by (simp add: result_def compare_impact_def Let_def mo_def mb_def case_prod_beta)
  ultimately show ?thesis using keys sub by blast
qed

lemma le_last_sorted: "sorted xs \<Longrightarrow> x \<in> set xs \<Longrightarrow> x \<le> last xs"
  by (cases xs rule: rev_cases) (auto simp: sorted_append)

lemma hd_le_sorted: "sorted xs \<Longrightarrow> x \<in> set xs \<Longrightarrow> hd xs \<le> x"
  by (cases xs) auto

lemma closest_key_min:
  assumes inv: "tm_inv pool" and k: "closest_key pool t = Some k" and k': "k' \<in> fst ` set pool"
    and bounds: "\<And>k. k \<in> fst ` set pool \<Longrightarrow> \<bar>k\<bar> < 2 ^ 62" "\<bar>t\<bar> < 2 ^ 62"
  shows "\<bar>t - k\<bar> \<le> \<bar>t - k'\<bar>"
proof -
  let ?b = "filter (\<lambda>k. k \<le> t) (map fst pool)" and ?a = "filter (\<lambda>k. t \<le> k) (map fst pool)"
  have sorted: "sorted ?b" "sorted ?a"
    using inv by (auto simp: tm_inv_def strict_sorted_iff intro!: sorted_wrt_filter)
  have below: "k' \<le> last ?b" if "k' \<le> t"
    using le_last_sorted[OF sorted(1)] that k' by simp
  have above: "hd ?a \<le> k'" if "t \<le> k'"
    using hd_le_sorted[OF sorted(2)] that k' by simp
  have sat: "i64_sat_sub x y = x - y" if "\<bar>x\<bar> < 2 ^ 62" "\<bar>y\<bar> < 2 ^ 62" for x y
    using that by (auto simp: i64_sat_sub_def)
  have b: "last ?b \<le> t \<and> \<bar>last ?b\<bar> < 2 ^ 62" if "?b \<noteq> []"
    using last_in_set[OF that] bounds(1) by auto
  have a: "t \<le> hd ?a \<and> \<bar>hd ?a\<bar> < 2 ^ 62" if "?a \<noteq> []"
    using hd_in_set[OF that] bounds(1) by auto
  have ne: "k' \<le> t \<Longrightarrow> ?b \<noteq> []" "t \<le> k' \<Longrightarrow> ?a \<noteq> []"
    using k' by (auto simp: filter_empty_conv)
  show ?thesis
  proof (cases "?b = []"; cases "?a = []")
    assume "?b \<noteq> []" and "?a \<noteq> []"
    with k a b sat[OF bounds(2)] sat[OF _ bounds(2)]
    have "k = (if t - last ?b \<le> hd ?a - t then last ?b else hd ?a)"
      by (simp add: closest_key_def Let_def)
    moreover have "k' \<le> last ?b \<or> hd ?a \<le> k'" using below above by linarith
    ultimately show ?thesis using a[OF \<open>?a \<noteq> []\<close>] b[OF \<open>?b \<noteq> []\<close>] by (auto split: if_splits)
  next
    assume empty: "?b = []" "?a \<noteq> []"
    with ne(1) have "t \<le> k'" by fastforce
    moreover from empty k have "k = hd ?a" by (simp add: closest_key_def Let_def)
    ultimately show ?thesis using above a[OF empty(2)] by linarith
  next
    assume empty: "?b \<noteq> []" "?a = []"
    with ne(2) have "k' \<le> t" by fastforce
    moreover from empty k have "k = last ?b" by (simp add: closest_key_def Let_def)
    ultimately show ?thesis using below b[OF empty(1)] by linarith
  next
    assume "?b = []" "?a = []"
    with ne show ?thesis by linarith
  qed
qed

text \<open>The partner taken from a pool is a closest one: for timestamps of less than \<open>2^62\<close>
  milliseconds, where the saturating subtraction is exact, taking from a pool that is not empty
  returns a sample whose distance in time from the target is least among all samples of the pool,
  and removes that sample and no other.\<close>

theorem impact_closest:
  assumes "pool_ok pool" and "pool \<noteq> []"
    and "\<And>x. x \<in># pool_mset pool \<Longrightarrow> \<bar>sample_millis x\<bar> < 2 ^ 62" and "\<bar>target\<bar> < 2 ^ 62"
  shows "\<exists>x rest. take_closest pool target = (Some x, rest)
    \<and> pool_ok rest \<and> pool_mset pool = add_mset x (pool_mset rest)
    \<and> Multiset.Ball (pool_mset pool) (\<lambda>y. \<bar>target - sample_millis x\<bar> \<le> \<bar>target - sample_millis y\<bar>)"
proof -
  have keys: "k \<in> fst ` set pool \<longleftrightarrow> (\<exists>x\<in>#pool_mset pool. sample_millis x = k)" for k
  proof
    assume "k \<in> fst ` set pool"
    then obtain v where "(k, v) \<in> set pool" by auto
    moreover from this have "hd v \<in> set v" "sample_millis (hd v) = k"
      using assms(1) by (auto simp: pool_ok_def)
    ultimately have "hd v \<in># pool_mset pool" by (force simp: in_pool_mset)
    then show "\<exists>x\<in>#pool_mset pool. sample_millis x = k"
      using \<open>sample_millis (hd v) = k\<close> by blast
  next
    assume "\<exists>x\<in>#pool_mset pool. sample_millis x = k"
    then obtain x where "x \<in># pool_mset pool" and millis: "sample_millis x = k" by blast
    then obtain k' v where "(k', v) \<in> set pool" "x \<in> set v" "sample_millis x = k"
      unfolding in_pool_mset by blast
    then show "k \<in> fst ` set pool" using assms(1) by (force simp: pool_ok_def)
  qed
  obtain k where k: "closest_key pool target = Some k"
    using assms(2) closest_key_None by blast
  obtain x rest where x: "take_closest pool target = (Some x, rest)" "pool_ok rest"
      "pool_mset pool = add_mset x (pool_mset rest)" "sample_millis x = k"
    using take_closest_some[OF assms(1) k] .
  have "\<bar>target - sample_millis x\<bar> \<le> \<bar>target - sample_millis y\<bar>" if "y \<in># pool_mset pool" for y
    unfolding x(4)
  proof (rule closest_key_min[OF _ k _ _ assms(4)])
    show "tm_inv pool" using assms(1) by (simp add: pool_ok_def)
    show "sample_millis y \<in> fst ` set pool" using that keys by blast
    show "\<bar>k'\<bar> < 2 ^ 62" if "k' \<in> fst ` set pool" for k'
    proof -
      from that obtain z where "z \<in># pool_mset pool" "sample_millis z = k'"
        unfolding keys by blast
      with assms(3)[of z] show ?thesis by simp
    qed
  qed
  with x(1-3) show ?thesis by blast
qed

lemma aggregate_fold:
  "ic_turn_count (ca_cohort (fold cohort_push xs acc)) = ic_turn_count (ca_cohort acc) + word_of_nat (length xs)"
  "ic_tokens (ca_cohort (fold cohort_push xs acc)) = ic_tokens (ca_cohort acc) + (\<Sum>x\<leftarrow>xs. ts_tokens x)"
  "m_calls (ic_tool_metrics (ca_cohort (fold cohort_push xs acc)))
    = m_calls (ic_tool_metrics (ca_cohort acc)) + (\<Sum>x\<leftarrow>xs. m_calls (ts_tools x))"
  "set (ca_session_ids (fold cohort_push xs acc)) = set (ca_session_ids acc) \<union> ts_session_id ` set xs"
  "distinct (ca_session_ids acc) \<Longrightarrow> distinct (ca_session_ids (fold cohort_push xs acc))"
  by (induction xs arbitrary: acc)
    (auto simp: cohort_push_def Let_def metrics_add_assign_def set_insort_insert
      distinct_insort_insert algebra_simps)

lemma aggregate_sel:
  "ic_turn_count (aggregate xs) = word_of_nat (length xs)"
  "ic_tokens (aggregate xs) = (\<Sum>x\<leftarrow>xs. ts_tokens x)"
  "m_calls (ic_tool_metrics (aggregate xs)) = (\<Sum>x\<leftarrow>xs. m_calls (ts_tools x))"
  "ic_session_count (aggregate xs) = word_of_nat (card (ts_session_id ` set xs))"
proof -
  let ?acc = "\<lparr>ca_cohort = default_cohort, ca_session_ids = [], ca_buckets = []\<rparr>"
  show "ic_turn_count (aggregate xs) = word_of_nat (length xs)"
    and "ic_tokens (aggregate xs) = (\<Sum>x\<leftarrow>xs. ts_tokens x)"
    and "m_calls (ic_tool_metrics (aggregate xs)) = (\<Sum>x\<leftarrow>xs. m_calls (ts_tools x))"
    by (simp_all add: aggregate_def cohort_finish_def aggregate_fold default_cohort_def
        default_metrics_def)
  show "ic_session_count (aggregate xs) = word_of_nat (card (ts_session_id ` set xs))"
    using distinct_card[OF aggregate_fold(5)[of ?acc xs]] aggregate_fold(4)[of xs ?acc]
    by (simp add: aggregate_def cohort_finish_def)
qed

lemma sum_list_filter_split:
  fixes f :: "'a \<Rightarrow> 'b::comm_monoid_add"
  shows "(\<Sum>x\<leftarrow>filter P xs. f x) + (\<Sum>x\<leftarrow>filter (\<lambda>x. \<not> P x) xs. f x) = (\<Sum>x\<leftarrow>xs. f x)"
  by (induction xs) (simp_all add: ac_simps)

lemma samples_of_turns:
  "length (samples_for_session kind key w s) = length (eligible_turns s w)"
  "map ts_tokens (samples_for_session kind key w s) = map t_tokens (eligible_turns s w)"
  "map (\<lambda>x. m_calls (ts_tools x)) (samples_for_session kind key w s)
    = map (\<lambda>t. m_calls (t_tool_metrics t)) (eligible_turns s w)"
  by (simp_all add: samples_for_session_def Let_def)

lemma sum_concat: "(\<Sum>x\<leftarrow>concat xss. f x) = (\<Sum>xs\<leftarrow>xss. \<Sum>x\<leftarrow>xs. (f x :: 'a::comm_monoid_add))"
  by (induction xss) simp_all

text \<open>The observed and the baseline cohort partition the turns of the view: every eligible turn
  of every session counts in exactly one of them, with its tokens and its tool calls, whichever
  target is chosen; and each cohort counts the distinct sessions of its turns.\<close>

theorem impact_cohorts_partition:
  fixes sessions kind key w
  defines "result \<equiv> compare_impact sessions kind key w"
    and "turns \<equiv> concat (map (\<lambda>s. eligible_turns s w) sessions)"
    and "used \<equiv> filter ts_target_used (concat (map
      (samples_for_session kind (to_ascii_lowercase (trim key)) w) sessions))"
  shows "ic_turn_count (ir_observed result) + ic_turn_count (ir_baseline result)
      = word_of_nat (length turns)
    \<and> ic_tokens (ir_observed result) + ic_tokens (ir_baseline result) = (\<Sum>t\<leftarrow>turns. t_tokens t)
    \<and> m_calls (ic_tool_metrics (ir_observed result))
        + m_calls (ic_tool_metrics (ir_baseline result)) = (\<Sum>t\<leftarrow>turns. m_calls (t_tool_metrics t))
    \<and> ic_session_count (ir_observed result) = word_of_nat (card (ts_session_id ` set used))"
proof -
  let ?s = "samples_for_session kind (to_ascii_lowercase (trim key)) w"
  let ?samples = "concat (map ?s sessions)"
  have result: "ir_observed result = aggregate (filter ts_target_used ?samples)"
    "ir_baseline result = aggregate (filter (\<lambda>s. \<not> ts_target_used s) ?samples)"
    by (simp_all add: result_def compare_impact_def Let_def case_prod_beta)
  have len: "length ?samples = length turns"
    by (simp add: turns_def length_concat comp_def samples_of_turns)
  have tokens: "(\<Sum>x\<leftarrow>?samples. ts_tokens x) = (\<Sum>t\<leftarrow>turns. t_tokens t)"
    by (simp add: turns_def sum_concat comp_def samples_of_turns)
  have calls: "(\<Sum>x\<leftarrow>?samples. m_calls (ts_tools x)) = (\<Sum>t\<leftarrow>turns. m_calls (t_tool_metrics t))"
    by (simp add: turns_def sum_concat comp_def samples_of_turns)
  have "length (filter ts_target_used ?samples) + length (filter (\<lambda>s. \<not> ts_target_used s) ?samples)
      = length turns"
    using sum_length_filter_compl[of ts_target_used ?samples] len by simp
  then have count: "word_of_nat (length (filter ts_target_used ?samples))
      + word_of_nat (length (filter (\<lambda>s. \<not> ts_target_used s) ?samples))
      = (word_of_nat (length turns) :: u64)"
    by (metis of_nat_add)
  show ?thesis
    using count sum_list_filter_split[where f = ts_tokens and P = ts_target_used and xs = ?samples]
      sum_list_filter_split[where f = "\<lambda>x. m_calls (ts_tools x)" and P = ts_target_used
        and xs = ?samples]
    by (simp only: result aggregate_sel tokens calls used_def)
qed

definition turns_within_span :: "session \<Rightarrow> bool" where
  "turns_within_span s \<longleftrightarrow> s_started_at s \<le> s_last_event_at s
     \<and> list_all (\<lambda>t. s_started_at s \<le> turn_start s t \<and> turn_start s t \<le> s_last_event_at s
         \<and> unwrap_or (s_last_event_at s) (t_completed_at t) \<le> s_last_event_at s) (s_turns s)"

lemma summary_span [simp]:
  "y_started_at (summary_of s) = s_started_at s" "y_last_event_at (summary_of s) = s_last_event_at s"
  by (simp_all add: summary_of_def)

lemma no_samples_outside:
  assumes span: "turns_within_span s"
    and key: "(k, summary_of s) \<in> set summaries" "k \<notin> set (impact_session_keys summaries w)"
  shows "eligible_turns s w = []"
proof -
  obtain lo hi where w: "w = (lo, hi)" by (cases w)
  have out: "\<not> ((case lo of None \<Rightarrow> True | Some f \<Rightarrow> f \<le> s_last_event_at s)
      \<and> (case hi of None \<Rightarrow> True | Some t \<Rightarrow> s_started_at s \<le> t))"
  proof
    assume "(case lo of None \<Rightarrow> True | Some f \<Rightarrow> f \<le> s_last_event_at s)
      \<and> (case hi of None \<Rightarrow> True | Some t \<Rightarrow> s_started_at s \<le> t)"
    with key(1) have "k \<in> set (impact_session_keys summaries w)"
      unfolding impact_session_keys_def w set_map case_prod_conv
      by (intro rev_image_eqI[of "(k, summary_of s)"]) (simp_all cong: option.case_cong)
    with key(2) show False ..
  qed
  have "\<not> turn_overlaps s t w" if "t \<in> set (s_turns s)" for t
  proof -
    have "s_started_at s \<le> turn_start s t" "turn_start s t \<le> s_last_event_at s"
      "unwrap_or (s_last_event_at s) (t_completed_at t) \<le> s_last_event_at s"
      using span that by (auto simp: turns_within_span_def list_all_iff)
    with out show ?thesis
      by (cases lo; cases hi) (auto simp: turn_overlaps_def Let_def w)
  qed
  then show ?thesis by (simp add: eligible_turns_def filter_empty_conv)
qed

lemma concat_filter_empty:
  "(\<And>x. x \<in> set xs \<Longrightarrow> \<not> P x \<Longrightarrow> f x = []) \<Longrightarrow> concat (map f (filter P xs)) = concat (map f xs)"
  by (induction xs) auto

text \<open>C40: Dropping sessions on their summaries does not change the comparison: when every turn of a
  session starts and completes between the session's start and its last event, comparing only the
  sessions whose keys the filter returns for the window gives the result of comparing all.\<close>

theorem impact_prefilter_sound:
  fixes keyed w
  defines "keys \<equiv> impact_session_keys (map (\<lambda>(k, s). (k, summary_of s)) keyed) w"
  assumes "\<And>k s. (k, s) \<in> set keyed \<Longrightarrow> turns_within_span s"
  shows "compare_impact (map snd (filter (\<lambda>(k, s). k \<in> set keys) keyed)) kind key w
    = compare_impact (map snd keyed) kind key w"
proof -
  have "samples_for_session kind key' w s = []"
    if "(k, s) \<in> set keyed" and "k \<notin> set keys" for k s key'
    using no_samples_outside[OF assms(2)[OF that(1)], of k "map (\<lambda>(k, s). (k, summary_of s)) keyed" w]
      that by (force simp: keys_def samples_for_session_def Let_def)
  then have "concat (map (samples_for_session kind key' w)
        (map snd (filter (\<lambda>(k, s). k \<in> set keys) keyed)))
      = concat (map (samples_for_session kind key' w) (map snd keyed))" for key'
    unfolding map_map by (intro concat_filter_empty) auto
  then show ?thesis unfolding compare_impact_def Let_def by (simp only:)
qed

section \<open>Witnesses\<close>

definition sample_turn :: "timestamp \<Rightarrow> turn_sample" where
  "sample_turn t =
     \<lparr>ts_session_id = ''s'', ts_timestamp = t, ts_key = (''codex'', ''m'', CatCoding),
      ts_service_tier = None, ts_completed = True, ts_duration_ms = None, ts_ttft_ms = None,
      ts_tokens = default_totals, ts_tools = default_metrics, ts_target_used = False\<rparr>"

lemma impact_closest_witness:
  "\<exists>x rest. take_closest [(5, [sample_turn 5000000]), (9, [sample_turn 9000000])] 6 = (Some x, rest)
    \<and> \<bar>6 - sample_millis x\<bar> \<le> 1"
proof -
  let ?pool = "[(5, [sample_turn 5000000]), (9, [sample_turn 9000000])]"
  have "\<exists>x rest. take_closest ?pool 6 = (Some x, rest)
      \<and> pool_ok rest \<and> pool_mset ?pool = add_mset x (pool_mset rest)
      \<and> Multiset.Ball (pool_mset ?pool) (\<lambda>y. \<bar>6 - sample_millis x\<bar> \<le> \<bar>6 - sample_millis y\<bar>)"
    by (rule impact_closest)
      (auto simp: pool_ok_def tm_inv_def sample_millis_def sample_turn_def timestamp_millis_def)
  then obtain x rest where taken: "take_closest ?pool 6 = (Some x, rest)"
    and least: "Multiset.Ball (pool_mset ?pool) (\<lambda>y. \<bar>6 - sample_millis x\<bar> \<le> \<bar>6 - sample_millis y\<bar>)"
    by blast
  have "sample_turn 5000000 \<in># pool_mset ?pool" by simp
  then have "\<bar>6 - sample_millis x\<bar> \<le> \<bar>6 - sample_millis (sample_turn 5000000)\<bar>" using least by blast
  also have "\<dots> = 1" by (simp add: sample_millis_def sample_turn_def timestamp_millis_def)
  finally show ?thesis using taken by blast
qed

definition session_span :: "timestamp \<Rightarrow> session" where
  "session_span t = sample_session\<lparr>s_started_at := t, s_last_event_at := t\<rparr>"

lemma impact_prefilter_sound_witness:
  "compare_impact [session_span 5] TargetTool ''shell'' (Some 0, Some 10)
    = compare_impact [session_span 5, session_span 20] TargetTool ''shell'' (Some 0, Some 10)"
proof -
  let ?keyed = "[(''a'', session_span 5), (''b'', session_span 20)]"
  have keys: "impact_session_keys (map (\<lambda>(k, s). (k, summary_of s)) ?keyed) (Some 0, Some 10) = [''a'']"
    by (simp add: impact_session_keys_def session_span_def)
  have "compare_impact (map snd (filter (\<lambda>(k, s). k \<in> set [''a'']) ?keyed)) TargetTool ''shell''
        (Some 0, Some 10)
      = compare_impact (map snd ?keyed) TargetTool ''shell'' (Some 0, Some 10)"
    unfolding keys[symmetric]
    by (rule impact_prefilter_sound)
      (auto simp: turns_within_span_def session_span_def sample_session_def turn_start_def
        default_turn_def unwrap_or_def)
  then show ?thesis by simp
qed

end
