(* ===== verification/Odo_Floats.thy ===== *)
theory Odo_Floats
  imports Odo_Json
begin

text \<open>
  The \<open>f64\<close> of the Rust sources: IEEE-754 binary64 numbers as their 64-bit patterns, with the
  operations the code uses. A finite number is plus or minus its mantissa times two to its
  exponent; an operation computes the exact result as a quotient of integers and rounds it once, to
  the nearest number, ties to the even pattern. Every NaN that an operation makes is the same
  quiet one.
\<close>

section \<open>Classification\<close>

definition f64_negative :: "f64 \<Rightarrow> bool" where
  "f64_negative x \<longleftrightarrow> bit x 63"

definition f64_is_zero :: "f64 \<Rightarrow> bool" where
  "f64_is_zero x \<longleftrightarrow> f64_magnitude x = 0"

text \<open>Evaluation on words.\<close>

lemma f64_words [code]:
  "f64_is_finite x \<longleftrightarrow> take_bit 63 x < 0x7FF0000000000000"
  "f64_is_nan x \<longleftrightarrow> 0x7FF0000000000000 < take_bit 63 x"
  "f64_is_zero x \<longleftrightarrow> take_bit 63 x = 0"
proof -
  have "f64_magnitude x = unat (take_bit 63 x)"
    by (simp add: f64_magnitude_def take_bit_eq_mod unat_mod)
  then show "f64_is_finite x \<longleftrightarrow> take_bit 63 x < 0x7FF0000000000000"
    "f64_is_nan x \<longleftrightarrow> 0x7FF0000000000000 < take_bit 63 x"
    "f64_is_zero x \<longleftrightarrow> take_bit 63 x = 0"
    by (simp_all add: f64_is_finite_def f64_is_nan_def f64_is_zero_def word_less_nat_alt
        unat_eq_0)
qed

text \<open>The comparisons \<open>x >= 0.0\<close> and \<open>x <= 0.0\<close>: false on a NaN, true on both zeros.\<close>

definition f64_ge_zero :: "f64 \<Rightarrow> bool" where
  "f64_ge_zero x \<longleftrightarrow> \<not> f64_is_nan x \<and> (\<not> f64_negative x \<or> f64_is_zero x)"

definition f64_le_zero :: "f64 \<Rightarrow> bool" where
  "f64_le_zero x \<longleftrightarrow> \<not> f64_is_nan x \<and> (f64_negative x \<or> f64_is_zero x)"

definition f64_positive :: "f64 \<Rightarrow> bool" where
  "f64_positive x \<longleftrightarrow> f64_is_finite x \<and> \<not> f64_le_zero x"

section \<open>Order\<close>

text \<open>The order of the numbers is the order of sign and magnitude read as an integer.\<close>

definition f64_rank :: "f64 \<Rightarrow> int" where
  "f64_rank x = (if f64_negative x then - uint (take_bit 63 x) else uint (take_bit 63 x))"

definition f64_lt :: "f64 \<Rightarrow> f64 \<Rightarrow> bool" where
  "f64_lt x y \<longleftrightarrow> \<not> f64_is_nan x \<and> \<not> f64_is_nan y \<and> f64_rank x < f64_rank y"

definition f64_le :: "f64 \<Rightarrow> f64 \<Rightarrow> bool" where
  "f64_le x y \<longleftrightarrow> \<not> f64_is_nan x \<and> \<not> f64_is_nan y \<and> f64_rank x \<le> f64_rank y"

text \<open>\<open>f64::max\<close> ignores a NaN, \<open>f64::clamp\<close> keeps it.\<close>

definition f64_max :: "f64 \<Rightarrow> f64 \<Rightarrow> f64" where
  "f64_max x y = (if f64_is_nan x \<or> f64_lt x y then y else x)"

definition f64_clamp :: "f64 \<Rightarrow> f64 \<Rightarrow> f64 \<Rightarrow> f64" where
  "f64_clamp x lo hi = (if f64_lt x lo then lo else if f64_lt hi x then hi else x)"

section \<open>Rounding\<close>

definition f64_nan :: f64 where "f64_nan = 0x7FF8000000000000"

definition f64_sign_bit :: "bool \<Rightarrow> f64" where
  "f64_sign_bit neg = (if neg then 0x8000000000000000 else 0)"

definition f64_infinity :: "bool \<Rightarrow> f64" where
  "f64_infinity neg = f64_sign_bit neg + 0x7FF0000000000000"

function int_log2 :: "int \<Rightarrow> int" where
  "int_log2 n = (if n \<le> 1 then 0 else 1 + int_log2 (n div 2))"
  by auto
termination by (relation "measure nat") auto

declare int_log2.simps [simp del]

definition int_round_half_even :: "int \<Rightarrow> int \<Rightarrow> int" where
  "int_round_half_even n d =
     (let q = n div d; r = n mod d in
      if 2 * r < d \<or> 2 * r = d \<and> even q then q else q + 1)"

text \<open>The quotient \<open>n / d\<close> divided by a power of two, as numerator and denominator.\<close>

definition int_scale :: "int \<Rightarrow> int \<Rightarrow> int \<Rightarrow> int \<times> int" where
  "int_scale n d e = (if 0 \<le> e then (n, d * 2 ^ nat e) else (n * 2 ^ nat (- e), d))"

text \<open>The number nearest to plus or minus \<open>n / d\<close>, for \<open>n\<close> at least zero and \<open>d\<close> positive. With the
  exponent \<open>e\<close> the rounded mantissa \<open>m\<close> has 53 bits, or fewer when \<open>e\<close> is the least exponent; the
  pattern is then \<open>(e + 1074) * 2 ^ 52 + m\<close> for normal and subnormal numbers alike, and a carry of the
  mantissa moves into the exponent.\<close>

definition f64_of_ratio :: "bool \<Rightarrow> int \<Rightarrow> int \<Rightarrow> f64" where
  "f64_of_ratio neg n d =
     (if n \<le> 0 then f64_sign_bit neg
      else
        let k = int_log2 n - int_log2 d;
            (a, b) = int_scale n d k;
            e = max (- 1074) ((if b \<le> a then k else k - 1) - 52);
            (a, b) = int_scale n d e;
            bits = (e + 1074) * 2 ^ 52 + int_round_half_even a b
        in if 2047 * 2 ^ 52 \<le> bits then f64_infinity neg
           else f64_sign_bit neg + word_of_int bits)"

definition f64_mantissa :: "f64 \<Rightarrow> int" where
  "f64_mantissa x =
     (let b = uint (take_bit 63 x) in
      if b div 2 ^ 52 = 0 then b else 2 ^ 52 + b mod 2 ^ 52)"

definition f64_exponent :: "f64 \<Rightarrow> int" where
  "f64_exponent x = max 1 (uint (take_bit 63 x) div 2 ^ 52) - 1075"

definition f64_signed_mantissa :: "f64 \<Rightarrow> int" where
  "f64_signed_mantissa x = (if f64_negative x then - f64_mantissa x else f64_mantissa x)"

text \<open>Plus or minus \<open>n * 2 ^ e\<close>.\<close>

definition f64_of_scaled :: "bool \<Rightarrow> int \<Rightarrow> int \<Rightarrow> f64" where
  "f64_of_scaled neg n e =
     (if 0 \<le> e then f64_of_ratio neg (n * 2 ^ nat e) 1 else f64_of_ratio neg n (2 ^ nat (- e)))"

section \<open>Arithmetic\<close>

definition f64_neg :: "f64 \<Rightarrow> f64" where
  "f64_neg x = x + 0x8000000000000000"

definition f64_add :: "f64 \<Rightarrow> f64 \<Rightarrow> f64" where
  "f64_add x y =
     (if f64_is_nan x \<or> f64_is_nan y then f64_nan
      else if \<not> f64_is_finite x then
        (if \<not> f64_is_finite y \<and> f64_negative x \<noteq> f64_negative y then f64_nan else x)
      else if \<not> f64_is_finite y then y
      else
        let e = min (f64_exponent x) (f64_exponent y);
            n = f64_signed_mantissa x * 2 ^ nat (f64_exponent x - e)
              + f64_signed_mantissa y * 2 ^ nat (f64_exponent y - e)
        in if n = 0 then f64_sign_bit (f64_negative x \<and> f64_negative y)
           else f64_of_scaled (n < 0) \<bar>n\<bar> e)"

definition f64_sub :: "f64 \<Rightarrow> f64 \<Rightarrow> f64" where
  "f64_sub x y = f64_add x (f64_neg y)"

definition f64_mul :: "f64 \<Rightarrow> f64 \<Rightarrow> f64" where
  "f64_mul x y =
     (let neg = (f64_negative x \<noteq> f64_negative y) in
      if f64_is_nan x \<or> f64_is_nan y then f64_nan
      else if \<not> f64_is_finite x \<or> \<not> f64_is_finite y then
        (if f64_is_zero x \<or> f64_is_zero y then f64_nan else f64_infinity neg)
      else f64_of_scaled neg (f64_mantissa x * f64_mantissa y) (f64_exponent x + f64_exponent y))"

definition f64_div :: "f64 \<Rightarrow> f64 \<Rightarrow> f64" where
  "f64_div x y =
     (let neg = (f64_negative x \<noteq> f64_negative y); e = f64_exponent x - f64_exponent y in
      if f64_is_nan x \<or> f64_is_nan y then f64_nan
      else if \<not> f64_is_finite x then (if f64_is_finite y then f64_infinity neg else f64_nan)
      else if \<not> f64_is_finite y then f64_sign_bit neg
      else if f64_is_zero y then (if f64_is_zero x then f64_nan else f64_infinity neg)
      else if 0 \<le> e then f64_of_ratio neg (f64_mantissa x * 2 ^ nat e) (f64_mantissa y)
      else f64_of_ratio neg (f64_mantissa x) (f64_mantissa y * 2 ^ nat (- e)))"

section \<open>Conversions\<close>

text \<open>\<open>i as f64\<close> for an integer type.\<close>

definition f64_of_int :: "int \<Rightarrow> f64" where
  "f64_of_int i = f64_of_ratio (i < 0) \<bar>i\<bar> 1"

text \<open>\<open>f64::round\<close>: half away from zero.\<close>

definition f64_round :: "f64 \<Rightarrow> f64" where
  "f64_round x =
     (if \<not> f64_is_finite x \<or> 0 \<le> f64_exponent x then x
      else
        let d = 2 ^ nat (- f64_exponent x)
        in f64_of_ratio (f64_negative x) ((2 * f64_mantissa x + d) div (2 * d)) 1)"

text \<open>\<open>x as i64\<close>: towards zero, saturating, a NaN is zero.\<close>

definition f64_to_i64 :: "f64 \<Rightarrow> int" where
  "f64_to_i64 x =
     (if f64_is_nan x then 0
      else
        let e = f64_exponent x;
            m = (if 0 \<le> e then f64_mantissa x * 2 ^ nat e else f64_mantissa x div 2 ^ nat (- e))
        in if f64_negative x then max (- m) (- (2 ^ 63)) else min m (2 ^ 63 - 1))"

section \<open>Signs\<close>

definition f64_nonneg :: "f64 \<Rightarrow> bool" where
  "f64_nonneg x \<longleftrightarrow> f64_is_nan x \<or> f64_ge_zero x"

lemma f64_take_bit: "f64_magnitude x = unat (take_bit 63 x)"
  by (simp add: f64_magnitude_def take_bit_eq_mod unat_mod)

lemma sign_magnitude:
  assumes "0 \<le> bits" "bits < 2 ^ 63"
  shows "f64_negative (f64_sign_bit neg + word_of_int bits) = neg"
    and "uint (take_bit 63 (f64_sign_bit neg + word_of_int bits)) = bits"
proof -
  have u: "uint (word_of_int bits :: f64) = bits"
    using assms by (simp add: uint_word_of_int)
  have v: "uint (f64_sign_bit neg + word_of_int bits) = (if neg then 2 ^ 63 + bits else bits)"
    using assms by (simp add: f64_sign_bit_def uint_word_of_int uint_plus_if' u)
  have "f64_negative (f64_sign_bit neg + word_of_int bits) \<longleftrightarrow> odd (uint (f64_sign_bit neg + word_of_int bits) div 2 ^ 63)"
    unfolding f64_negative_def bit_iff_odd[of "uint _", symmetric] by (simp add: bit_uint_iff)
  also have "\<dots> = neg"
    using assms div_add_self1[of "2 ^ 63" bits] unfolding v by simp
  finally show "f64_negative (f64_sign_bit neg + word_of_int bits) = neg" .
  have "uint (take_bit 63 (f64_sign_bit neg + word_of_int bits))
      = uint (f64_sign_bit neg + word_of_int bits) mod 2 ^ 63"
    by (simp only: unsigned_take_bit_eq) (simp only: take_bit_eq_mod)
  also have "\<dots> = bits" using assms unfolding v by simp
  finally show "uint (take_bit 63 (f64_sign_bit neg + word_of_int bits)) = bits" .
qed

lemma f64_classify:
  assumes "uint (take_bit 63 x) = bits"
  shows "f64_is_nan x \<longleftrightarrow> 2047 * 2 ^ 52 < bits" "f64_is_finite x \<longleftrightarrow> bits < 2047 * 2 ^ 52"
    "f64_is_zero x \<longleftrightarrow> bits = 0"
  using assms by (auto simp: f64_words word_less_def word_uint_eq_iff)

lemma f64_mantissa_nonneg: "0 \<le> f64_mantissa x"
  by (simp add: f64_mantissa_def Let_def)

lemma f64_mantissa_zero: "f64_mantissa x = 0 \<longleftrightarrow> f64_is_zero x"
proof -
  have "uint (take_bit 63 x) < 2 ^ 63"
    by (simp only: unsigned_take_bit_eq take_bit_int_less_exp)
  then show ?thesis
    using uint_ge_0[of "take_bit 63 x"]
    by (auto simp: f64_mantissa_def Let_def f64_classify[OF refl] dest: add_nonneg_eq_0_iff)
qed

lemma int_round_nonneg: "0 \<le> n \<Longrightarrow> 0 < d \<Longrightarrow> 0 \<le> int_round_half_even n d"
  by (simp add: int_round_half_even_def Let_def pos_imp_zdiv_nonneg_iff)

lemma int_scale_nonneg:
  "int_scale n d e = (a, b) \<Longrightarrow> 0 \<le> n \<Longrightarrow> 0 < d \<Longrightarrow> 0 \<le> a \<and> 0 < b"
  by (auto simp: int_scale_def split: if_splits)

text \<open>A rounded quotient has the sign it was given and is a number.\<close>

lemma f64_of_ratio_sign:
  assumes "0 < d"
  shows "f64_negative (f64_of_ratio neg n d) = neg \<and> \<not> f64_is_nan (f64_of_ratio neg n d)"
proof -
  have shape: "f64_negative (f64_sign_bit neg + word_of_int bits) = neg
      \<and> \<not> f64_is_nan (f64_sign_bit neg + word_of_int bits)"
    if "0 \<le> bits" "bits \<le> 2047 * 2 ^ 52" for bits
    using sign_magnitude[of bits neg] that f64_classify(1)[of "f64_sign_bit neg + word_of_int bits" bits]
    by simp
  show ?thesis
  proof (cases "n \<le> 0")
    case True
    with shape[of 0] show ?thesis by (simp add: f64_of_ratio_def)
  next
    case False
    define k where "k = int_log2 n - int_log2 d"
    obtain a b where ab: "int_scale n d k = (a, b)" by fastforce
    define e where "e = max (- 1074) ((if b \<le> a then k else k - 1) - 52)"
    obtain a' b' where ab': "int_scale n d e = (a', b')" by fastforce
    define bits where "bits = (e + 1074) * 2 ^ 52 + int_round_half_even a' b'"
    from int_scale_nonneg[OF ab'] False assms have "0 \<le> int_round_half_even a' b'"
      by (intro int_round_nonneg) auto
    moreover have "0 \<le> e + 1074" by (simp add: e_def)
    ultimately have "0 \<le> bits" by (simp add: bits_def)
    moreover have "f64_of_ratio neg n d = (if 2047 * 2 ^ 52 \<le> bits then f64_infinity neg
        else f64_sign_bit neg + word_of_int bits)"
      using False
      by (simp only: f64_of_ratio_def Let_def k_def[symmetric] ab prod.case e_def[symmetric] ab'
          bits_def[symmetric] if_False)
    moreover have "f64_infinity neg = f64_sign_bit neg + word_of_int (2047 * 2 ^ 52)"
      by (simp add: f64_infinity_def)
    ultimately show ?thesis using shape[of bits] shape[of "2047 * 2 ^ 52"] by (cases "2047 * 2 ^ 52 \<le> bits") simp_all
  qed
qed

lemma f64_zero_facts [simp]:
  "f64_is_zero 0" "\<not> f64_negative 0" "\<not> f64_is_nan 0" "f64_is_finite 0" "f64_rank 0 = 0"
  by (simp_all add: f64_classify[OF refl] f64_negative_def f64_rank_def)

lemma f64_sign_bit_zero: "f64_is_zero (f64_sign_bit neg) \<and> \<not> f64_is_nan (f64_sign_bit neg)"
proof -
  have "uint (take_bit 63 (f64_sign_bit neg)) = 0"
    using sign_magnitude(2)[of 0 neg] by simp
  then show ?thesis by (simp add: f64_classify[OF refl])
qed

lemma f64_infinity_sign: "f64_negative (f64_infinity neg) = neg"
  using sign_magnitude(1)[of "2047 * 2 ^ 52" neg] by (simp add: f64_infinity_def)

lemma f64_of_ratio_nonneg: "0 < d \<Longrightarrow> \<not> neg \<or> n \<le> 0 \<Longrightarrow> f64_nonneg (f64_of_ratio neg n d)"
  using f64_of_ratio_sign[of d neg n] f64_sign_bit_zero[of neg]
  by (cases "n \<le> 0") (auto simp: f64_nonneg_def f64_ge_zero_def f64_of_ratio_def)

lemma f64_of_scaled_nonneg: "\<not> neg \<or> n \<le> 0 \<Longrightarrow> f64_nonneg (f64_of_scaled neg n e)"
  unfolding f64_of_scaled_def
  by (auto intro!: f64_of_ratio_nonneg simp: mult_le_0_iff)

lemma f64_nan_is_nan: "f64_is_nan f64_nan"
proof -
  have "uint (take_bit 63 f64_nan) = 0x7FF8000000000000"
    by (simp add: f64_nan_def unsigned_take_bit_eq)
  then show ?thesis by (simp add: f64_classify)
qed

lemma f64_nan_nonneg: "f64_nonneg f64_nan"
  by (simp add: f64_nonneg_def f64_nan_is_nan)

lemma f64_negative_uint: "f64_negative x \<longleftrightarrow> 2 ^ 63 \<le> uint x"
proof -
  have "f64_negative x \<longleftrightarrow> odd (uint x div 2 ^ 63)"
    unfolding f64_negative_def bit_iff_odd[of "uint _", symmetric] by (simp add: bit_uint_iff)
  moreover have "uint x < 2 * 2 ^ 63" "0 \<le> uint x"
    using uint_lt2p[of x] by simp_all
  then have "uint x div 2 ^ 63 = (if 2 ^ 63 \<le> uint x then 1 else 0)"
    by (auto simp: div_pos_pos_trivial intro: int_div_pos_eq[of _ _ _ "uint x - 2 ^ 63"])
  ultimately show ?thesis by simp
qed

lemma f64_neg_facts:
  "f64_negative (f64_neg x) \<longleftrightarrow> \<not> f64_negative x" "take_bit 63 (f64_neg x) = take_bit 63 x"
proof -
  show "f64_negative (f64_neg x) \<longleftrightarrow> \<not> f64_negative x"
    using uint_lt2p[of x] by (auto simp: f64_negative_uint f64_neg_def uint_plus_if')
  have m: "uint (take_bit 63 v) = uint v mod 2 ^ 63" for v :: f64
    by (simp only: unsigned_take_bit_eq) (simp only: take_bit_eq_mod)
  have "uint (f64_neg x) = uint x + 2 ^ 63 \<or> uint (f64_neg x) + 2 ^ 63 = uint x"
    by (auto simp: f64_neg_def uint_plus_if')
  then have "uint (f64_neg x) mod 2 ^ 63 = uint x mod 2 ^ 63"
    by (metis mod_add_self2)
  then show "take_bit 63 (f64_neg x) = take_bit 63 x"
    unfolding word_uint_eq_iff m .
qed

lemma f64_sub_self: "f64_sub x x \<in> {f64_nan, f64_sign_bit True, f64_sign_bit False}"
proof -
  have "f64_is_nan (f64_neg x) = f64_is_nan x" "f64_is_finite (f64_neg x) = f64_is_finite x"
      "f64_exponent (f64_neg x) = f64_exponent x"
      "f64_signed_mantissa (f64_neg x) = - f64_signed_mantissa x"
    by (simp_all add: f64_words f64_neg_facts f64_exponent_def f64_signed_mantissa_def f64_mantissa_def)
  then show ?thesis
    by (simp add: f64_sub_def f64_add_def f64_neg_facts Let_def)
qed

lemma f64_of_int_nonneg: "0 \<le> i \<Longrightarrow> f64_nonneg (f64_of_int i)"
  by (simp add: f64_of_int_def f64_of_ratio_nonneg)

lemma f64_lt_zero: "f64_lt 0 x \<Longrightarrow> \<not> f64_is_nan x \<and> \<not> f64_negative x \<and> \<not> f64_is_zero x"
  by (auto simp: f64_lt_def f64_rank_def f64_classify[OF refl] split: if_splits)

lemma f64_not_negative: "\<not> f64_lt x 0 \<Longrightarrow> f64_nonneg x"
  by (auto simp: f64_lt_def f64_nonneg_def f64_ge_zero_def f64_rank_def f64_classify[OF refl]
      not_less split: if_splits)

lemma f64_max_zero: "f64_nonneg (f64_max x 0)"
proof -
  have "f64_nonneg 0" by (simp add: f64_nonneg_def f64_ge_zero_def)
  then show ?thesis by (auto simp: f64_max_def intro: f64_not_negative)
qed

lemma f64_div_nonneg:
  assumes "f64_nonneg x" "f64_nonneg y" "\<not> f64_is_zero y"
  shows "f64_nonneg (f64_div x y)"
proof -
  have "f64_nonneg (f64_sign_bit neg)" for neg
    using f64_sign_bit_zero[of neg] by (simp add: f64_nonneg_def f64_ge_zero_def)
  moreover have "f64_nonneg (f64_infinity False)"
    using f64_infinity_sign[of False] by (simp add: f64_nonneg_def f64_ge_zero_def)
  moreover have "0 < f64_mantissa y"
    using assms(3) f64_mantissa_nonneg[of y] f64_mantissa_zero[of y] by linarith
  moreover have "f64_is_zero x \<Longrightarrow> f64_mantissa x = 0"
    by (simp add: f64_mantissa_zero)
  moreover have "\<not> f64_is_finite x \<Longrightarrow> \<not> f64_is_zero x"
    by (simp add: f64_classify[OF refl])
  ultimately show ?thesis
    using assms f64_nan_nonneg
    by (auto simp: f64_div_def Let_def f64_nonneg_def[of x] f64_nonneg_def[of y] f64_ge_zero_def
        intro!: f64_of_ratio_nonneg)
qed

lemma f64_mul_nonneg:
  assumes "f64_nonneg x" "f64_nonneg y"
  shows "f64_nonneg (f64_mul x y)"
proof -
  have "f64_nonneg (f64_infinity False)"
    using f64_infinity_sign[of False] by (simp add: f64_nonneg_def f64_ge_zero_def)
  then show ?thesis
    using assms f64_nan_nonneg f64_mantissa_zero[of x] f64_mantissa_zero[of y]
    by (auto simp: f64_mul_def Let_def f64_nonneg_def[of x] f64_nonneg_def[of y] f64_ge_zero_def
        intro!: f64_of_scaled_nonneg)
qed

lemma f64_round_nonneg: "f64_nonneg x \<Longrightarrow> f64_nonneg (f64_round x)"
  using f64_mantissa_zero[of x] f64_finite_not_nan[of x]
  by (auto simp: f64_round_def Let_def f64_nonneg_def[of x] f64_ge_zero_def
      intro!: f64_of_ratio_nonneg)

lemma f64_to_i64_nonneg: "f64_nonneg x \<Longrightarrow> 0 \<le> f64_to_i64 x"
  using f64_mantissa_nonneg[of x] f64_mantissa_zero[of x]
  by (auto simp: f64_to_i64_def Let_def f64_nonneg_def f64_ge_zero_def pos_imp_zdiv_nonneg_iff)

lemma f64_clamp_bounds:
  "\<not> f64_is_nan x \<Longrightarrow> f64_le lo hi \<Longrightarrow> f64_le lo (f64_clamp x lo hi) \<and> f64_le (f64_clamp x lo hi) hi"
  by (auto simp: f64_clamp_def f64_lt_def f64_le_def)

section \<open>Evaluation\<close>

text \<open>With these facts \<open>simp\<close> computes on numerals.\<close>

lemma int_log2_numeral:
  "int_log2 1 = 0" "int_log2 0 = 0" "int_log2 (numeral (Num.Bit0 k)) = 1 + int_log2 (numeral k)"
  "int_log2 (numeral (Num.Bit1 k)) = 1 + int_log2 (numeral k)"
  by (subst int_log2.simps; simp)+

lemmas f64_eval =
  int_log2_numeral Let_def f64_of_int_def f64_of_ratio_def f64_sign_bit_def int_scale_def
  int_round_half_even_def f64_classify[OF refl] f64_negative_uint f64_mantissa_def f64_exponent_def
  f64_signed_mantissa_def f64_of_scaled_def f64_add_def f64_sub_def f64_neg_def f64_mul_def
  f64_div_def f64_round_def f64_to_i64_def f64_le_def f64_lt_def f64_rank_def f64_max_def
  f64_clamp_def f64_nan_def f64_infinity_def f64_le_zero_def unsigned_take_bit_eq

end
