(* ===== verification/Pricing_Catalog.thy ===== *)
theory Pricing_Catalog
  imports Model_Types Odo_Floats
begin

text \<open>
  \<open>src-tauri/src/rates.rs\<close>: the rate card, its dated pricing catalog, alias resolution, and the
  replacement of a card by a refreshed candidate. A floating-point number is its 64-bit pattern;
  the code only classifies and compares prices here (the one multiplication, of a currency
  conversion, is an argument). Dates are day numbers, times integers of nanoseconds.
\<close>

section \<open>Rates and rules\<close>

record model_rate =
  mr_input :: f64
  mr_cached_input :: f64
  mr_cache_creation_input :: "f64 option"
  mr_output :: f64
  mr_reasoning :: f64

definition rate_dimensions :: "model_rate \<Rightarrow> f64 list" where
  "rate_dimensions r =
     [mr_input r, mr_cached_input r, mr_output r, mr_reasoning r]
     @ (case mr_cache_creation_input r of None \<Rightarrow> [] | Some v \<Rightarrow> [v])"

definition is_usable :: "model_rate \<Rightarrow> bool" where
  "is_usable r \<longleftrightarrow> list_all (\<lambda>v. f64_is_finite v \<and> f64_ge_zero v) (rate_dimensions r)"

definition cache_creation_rate :: "model_rate \<Rightarrow> f64" where
  "cache_creation_rate r = unwrap_or (mr_input r) (mr_cache_creation_input r)"

definition cache_creation_rate_is_fallback :: "model_rate \<Rightarrow> bool" where
  "cache_creation_rate_is_fallback r \<longleftrightarrow> mr_cache_creation_input r = None"

datatype pricing_surface =
  CodexPlanCredits | CodexPurchasedCredits | CodexIncludedAllowance
  | OpenaiApiUsd | AnthropicApiUsd | GeminiApiUsd

record pricing_provenance =
  pv_evidence :: string
  pv_source_url :: string
  pv_verified_at :: timestamp
  pv_note :: "string option"

record effective_rate_period =
  ep_id :: string
  ep_surface :: pricing_surface
  ep_model :: string
  ep_from :: timestamp
  ep_to :: "timestamp option"
  ep_rate :: model_rate
  ep_cache_write_input_multiplier :: "f64 option"
  ep_provenance :: pricing_provenance
  ep_label :: string

datatype pricing_condition = RequestInputTokenThreshold u64 | ServiceTier string

record rate_multipliers =
  mul_input :: f64
  mul_output :: f64

record conditional_rate_modifier =
  cm_id :: string
  cm_surface :: pricing_surface
  cm_model :: string
  cm_from :: timestamp
  cm_to :: "timestamp option"
  cm_condition :: pricing_condition
  cm_multipliers :: rate_multipliers
  cm_provenance :: pricing_provenance
  cm_label :: string

record pricing_catalog =
  pc_rate_periods :: "effective_rate_period list"
  pc_conditional_modifiers :: "conditional_rate_modifier list"
  pc_notes :: "string list"

definition catalog_is_empty :: "pricing_catalog \<Rightarrow> bool" where
  "catalog_is_empty c \<longleftrightarrow>
     pc_rate_periods c = [] \<and> pc_conditional_modifiers c = [] \<and> pc_notes c = []"

definition interval_contains :: "timestamp \<Rightarrow> timestamp option \<Rightarrow> timestamp \<Rightarrow> bool" where
  "interval_contains from_t to_t at_t \<longleftrightarrow>
     from_t \<le> at_t \<and> (case to_t of None \<Rightarrow> True | Some e \<Rightarrow> at_t < e)"

definition intervals_overlap ::
    "timestamp \<Rightarrow> timestamp option \<Rightarrow> timestamp \<Rightarrow> timestamp option \<Rightarrow> bool" where
  "intervals_overlap first_from first_to second_from second_to \<longleftrightarrow>
     (case first_to of None \<Rightarrow> True | Some e \<Rightarrow> second_from < e)
     \<and> (case second_to of None \<Rightarrow> True | Some e \<Rightarrow> first_from < e)"

definition rate_at ::
    "pricing_catalog \<Rightarrow> pricing_surface \<Rightarrow> string \<Rightarrow> timestamp \<Rightarrow> effective_rate_period option" where
  "rate_at c surface model at_t =
     List.find (\<lambda>p. ep_surface p = surface \<and> ep_model p = model
       \<and> interval_contains (ep_from p) (ep_to p) at_t) (pc_rate_periods c)"

definition modifiers_for_request ::
    "pricing_catalog \<Rightarrow> pricing_surface \<Rightarrow> string \<Rightarrow> timestamp \<Rightarrow> u64
     \<Rightarrow> conditional_rate_modifier list" where
  "modifiers_for_request c surface model at_t request_input_tokens =
     filter (\<lambda>m. cm_surface m = surface \<and> cm_model m = model
       \<and> interval_contains (cm_from m) (cm_to m) at_t
       \<and> (case cm_condition m of
            RequestInputTokenThreshold greater_than \<Rightarrow> greater_than < request_input_tokens
          | ServiceTier _ \<Rightarrow> False)) (pc_conditional_modifiers c)"

definition modifier_for_tier ::
    "pricing_catalog \<Rightarrow> pricing_surface \<Rightarrow> string \<Rightarrow> timestamp \<Rightarrow> string
     \<Rightarrow> conditional_rate_modifier option" where
  "modifier_for_tier c surface model at_t tier =
     List.find (\<lambda>m. cm_surface m = surface \<and> cm_model m = model
       \<and> interval_contains (cm_from m) (cm_to m) at_t
       \<and> cm_condition m = ServiceTier tier) (pc_conditional_modifiers c)"

section \<open>Validation of a catalog\<close>

datatype rate_error =
    UnusableRate | EmptyRuleId | DuplicateRuleId string | MissingModelOrLabel | MissingEvidence
  | EmptyInterval | BadCacheWriteMultiplier | UnsupportedTier | ZeroThreshold
  | UnequalTierMultipliers | ThresholdOnCreditSurface | BadMultiplier
  | OverlappingPeriods | OverlappingModifiers | BadCacheAge | BadConversion

definition validate_rule_id :: "string \<Rightarrow> string set \<Rightarrow> rate_error + string set" where
  "validate_rule_id rule_id ids =
     (if trim rule_id = [] then Inl EmptyRuleId
      else if rule_id \<in> ids then Inl (DuplicateRuleId rule_id)
      else Inr (insert rule_id ids))"

definition validate_rule_scope ::
    "string \<Rightarrow> timestamp \<Rightarrow> timestamp option \<Rightarrow> string \<Rightarrow> pricing_provenance \<Rightarrow> rate_error + unit"
  where
  "validate_rule_scope model from_t to_t label provenance =
     (if trim model = [] \<or> trim label = [] then Inl MissingModelOrLabel
      else if trim (pv_evidence provenance) = [] \<or> trim (pv_source_url provenance) = []
      then Inl MissingEvidence
      else if (case to_t of None \<Rightarrow> False | Some e \<Rightarrow> e \<le> from_t) then Inl EmptyInterval
      else Inr ())"

text \<open>\<open>?\<close> on a result.\<close>

definition or_return :: "'e + 'a \<Rightarrow> ('a \<Rightarrow> 'e + 'b) \<Rightarrow> 'e + 'b" where
  "or_return r f = (case r of Inl e \<Rightarrow> Inl e | Inr x \<Rightarrow> f x)"

definition validate_period :: "effective_rate_period \<Rightarrow> string set \<Rightarrow> rate_error + string set" where
  "validate_period p ids =
     (if \<not> is_usable (ep_rate p) then Inl UnusableRate
      else or_return (validate_rule_id (ep_id p) ids) (\<lambda>ids.
           or_return (validate_rule_scope (ep_model p) (ep_from p) (ep_to p) (ep_label p)
             (ep_provenance p)) (\<lambda>_.
           if (case ep_cache_write_input_multiplier p of None \<Rightarrow> False
               | Some v \<Rightarrow> \<not> f64_is_finite v \<or> f64_le_zero v)
           then Inl BadCacheWriteMultiplier else Inr ids)))"

definition supported_tiers :: "string list" where
  "supported_tiers = [''standard'', ''fast'', ''ultrafast'']"

definition validate_condition :: "pricing_condition \<Rightarrow> rate_error + unit" where
  "validate_condition cond =
     (case cond of
        RequestInputTokenThreshold greater_than \<Rightarrow>
          if 0 < greater_than then Inr () else Inl ZeroThreshold
      | ServiceTier tier \<Rightarrow> if tier \<in> set supported_tiers then Inr () else Inl UnsupportedTier)"

definition is_service_tier :: "pricing_condition \<Rightarrow> bool" where
  "is_service_tier cond \<longleftrightarrow> (case cond of ServiceTier _ \<Rightarrow> True | _ \<Rightarrow> False)"

definition validate_multipliers :: "conditional_rate_modifier \<Rightarrow> rate_error + unit" where
  "validate_multipliers m =
     (let inp = mul_input (cm_multipliers m); out = mul_output (cm_multipliers m) in
      if is_service_tier (cm_condition m) \<and> \<not> f64_eq inp out then Inl UnequalTierMultipliers
      else if \<not> is_service_tier (cm_condition m)
        \<and> cm_surface m \<in> {CodexPurchasedCredits, CodexIncludedAllowance}
      then Inl ThresholdOnCreditSurface
      else if \<not> f64_is_finite inp \<or> \<not> f64_is_finite out \<or> f64_le_zero inp \<or> f64_le_zero out
      then Inl BadMultiplier
      else Inr ())"

definition validate_modifier ::
    "conditional_rate_modifier \<Rightarrow> string set \<Rightarrow> rate_error + string set" where
  "validate_modifier m ids =
     or_return (validate_rule_id (cm_id m) ids) (\<lambda>ids.
     or_return (validate_rule_scope (cm_model m) (cm_from m) (cm_to m) (cm_label m)
       (cm_provenance m)) (\<lambda>_.
     or_return (validate_condition (cm_condition m)) (\<lambda>_.
     or_return (validate_multipliers m) (\<lambda>_. Inr ids))))"

fun try_fold :: "('x \<Rightarrow> 's \<Rightarrow> 'e + 's) \<Rightarrow> 'x list \<Rightarrow> 's \<Rightarrow> 'e + 's" where
  "try_fold f [] s = Inr s"
| "try_fold f (x # xs) s = or_return (f x s) (try_fold f xs)"

definition periods_overlap :: "effective_rate_period \<Rightarrow> effective_rate_period \<Rightarrow> bool" where
  "periods_overlap p q \<longleftrightarrow> intervals_overlap (ep_from p) (ep_to p) (ep_from q) (ep_to q)"

text \<open>Periods are grouped by surface and model, each group is sorted by its start, and neighbours
  are compared. The message names the overlapping rules; which one of several comes first depends
  on the iteration order of the map and is not modelled.\<close>

definition group_periods ::
    "effective_rate_period list
     \<Rightarrow> ((pricing_surface \<times> string) \<times> effective_rate_period list) list" where
  "group_periods periods =
     fold (\<lambda>p. hm_entry (ep_surface p, ep_model p) [] (\<lambda>v. v @ [p])) periods []"

definition validate_periods_apart :: "effective_rate_period list \<Rightarrow> rate_error + unit" where
  "validate_periods_apart periods =
     (if list_all (\<lambda>(_, ps). all_pairs (\<lambda>p q. \<not> periods_overlap p q) (sort_key ep_from ps))
           (group_periods periods)
      then Inr () else Inl OverlappingPeriods)"

definition modifiers_clash :: "conditional_rate_modifier \<Rightarrow> conditional_rate_modifier \<Rightarrow> bool" where
  "modifiers_clash m n \<longleftrightarrow>
     cm_surface m = cm_surface n \<and> cm_model m = cm_model n \<and> cm_condition m = cm_condition n
     \<and> intervals_overlap (cm_from m) (cm_to m) (cm_from n) (cm_to n)"

fun validate_modifiers_apart :: "conditional_rate_modifier list \<Rightarrow> rate_error + unit" where
  "validate_modifiers_apart [] = Inr ()"
| "validate_modifiers_apart (m # ms) =
    (if list_ex (modifiers_clash m) ms then Inl OverlappingModifiers
     else validate_modifiers_apart ms)"

definition catalog_validate :: "pricing_catalog \<Rightarrow> rate_error + unit" where
  "catalog_validate c =
     or_return (try_fold validate_period (pc_rate_periods c) {}) (\<lambda>ids.
     or_return (try_fold validate_modifier (pc_conditional_modifiers c) ids) (\<lambda>_.
     or_return (validate_periods_apart (pc_rate_periods c)) (\<lambda>_.
     validate_modifiers_apart (pc_conditional_modifiers c))))"

section \<open>The rate card\<close>

datatype pricing_basis =
  Direct | Aliased | FloatingAliasBasis | FallbackBasis | Estimated | FreeLocal | Subscription
  | StaleBasis | Unavailable

record priced_model_resolution =
  pr_fallback_used :: bool
  pr_resolved_model :: string
  pr_basis :: pricing_basis

text \<open>The bounded loop \<open>for _ in 0..=aliases.len()\<close>.\<close>

fun alias_loop ::
    "nat \<Rightarrow> (string \<times> string) list \<Rightarrow> string \<Rightarrow> string set \<Rightarrow> bool \<Rightarrow> string \<times> bool" where
  "alias_loop 0 aliases current seen hopped = (current, hopped)"
| "alias_loop (Suc n) aliases current seen hopped =
    (case map_of aliases current of
       None \<Rightarrow> (current, hopped)
     | Some nxt \<Rightarrow>
         if current \<in> seen then (current, hopped)
         else alias_loop n aliases nxt (insert current seen) True)"

definition resolve_alias :: "string \<Rightarrow> (string \<times> string) list \<Rightarrow> string \<times> bool" where
  "resolve_alias model aliases = alias_loop (Suc (length aliases)) aliases model {} False"

record subscription_plan =
  sp_name :: string
  sp_monthly_price :: "f64 option"
  sp_currency :: "string option"
  sp_notes :: "string option"
  sp_local_baseline_savings :: "f64 option"

record currency_conversion =
  cc_from_currency :: "string option"
  cc_target_currency :: string
  cc_rate :: f64
  cc_as_of :: timestamp
  cc_source :: string

definition fx_currencies :: "string list" where
  "fx_currencies =
     [''USD'', ''EUR'', ''GBP'', ''CAD'', ''AUD'', ''JPY'', ''CHF'', ''NZD'', ''CNY'', ''INR'',
      ''BRL'', ''MXN'', ''SGD'', ''HKD'', ''KRW'', ''SEK'', ''NOK'', ''DKK'', ''PLN'', ''CZK'',
      ''ZAR'']"

definition is_fx_currency :: "string \<Rightarrow> bool" where
  "is_fx_currency v \<longleftrightarrow> v \<in> set fx_currencies"

definition conversion_validate :: "currency_conversion \<Rightarrow> rate_error + unit" where
  "conversion_validate c =
     (if (case cc_from_currency c of None \<Rightarrow> False | Some v \<Rightarrow> \<not> is_fx_currency v)
         \<or> \<not> is_fx_currency (cc_target_currency c)
         \<or> \<not> f64_is_finite (cc_rate c) \<or> f64_le_zero (cc_rate c)
         \<or> trim (cc_source c) = [] \<or> 256 < length (cc_source c)
      then Inl BadConversion else Inr ())"

text \<open>\<open>mul\<close> is the machine's multiplication. \<open>amount < 0.0\<close> of a finite amount is the negation
  of \<open>amount >= 0.0\<close>.\<close>

definition convert :: "(f64 \<Rightarrow> f64 \<Rightarrow> f64) \<Rightarrow> currency_conversion \<Rightarrow> f64 \<Rightarrow> f64 option" where
  "convert mul c amount =
     (if \<not> f64_is_finite (cc_rate c) \<or> f64_le_zero (cc_rate c)
         \<or> \<not> f64_is_finite amount \<or> \<not> f64_ge_zero amount
      then None
      else let converted = mul amount (cc_rate c)
           in if f64_is_finite converted then Some converted else None)"

datatype rate_freshness = Fresh | StaleRates | UnknownFreshness

record rate_refresh_state =
  rf_last_success_at :: "timestamp option"
  rf_last_attempt_at :: "timestamp option"
  rf_last_failure_reason :: "string option"
  rf_max_cache_age_secs :: int

definition default_max_cache_age_secs :: int where
  "default_max_cache_age_secs = 7 * 24 * 60 * 60"

definition default_refresh :: rate_refresh_state where
  "default_refresh =
     \<lparr>rf_last_success_at = None, rf_last_attempt_at = None, rf_last_failure_reason = None,
      rf_max_cache_age_secs = default_max_cache_age_secs\<rparr>"

text \<open>\<open>Duration::num_seconds\<close> truncates toward zero.\<close>

definition num_seconds :: "int \<Rightarrow> int" where
  "num_seconds d = (if 0 \<le> d then d div 1000000000 else - ((- d) div 1000000000))"

definition freshness :: "rate_refresh_state \<Rightarrow> timestamp \<Rightarrow> rate_freshness" where
  "freshness r now =
     (case rf_last_success_at r of
        None \<Rightarrow> UnknownFreshness
      | Some t \<Rightarrow> if num_seconds (now - t) \<le> rf_max_cache_age_secs r then Fresh else StaleRates)"

record floating_alias =
  fa_target :: string
  fa_expires_at :: int
  fa_source_url :: string

record rate_delivery =
  rl_source :: string
  rl_app_version :: string
  rl_card_version :: u32
  rl_last_failure_reason :: "string option"

record rate_card =
  rc_version :: u32
  rc_currency :: string
  rc_unit :: string
  rc_source_url :: string
  rc_fetched_at :: "string option"
  rc_models :: "(string \<times> model_rate) list"
  rc_fallback_model :: string
  rc_currencies :: "(string \<times> string) list"
  rc_fallback_models :: "(string \<times> string) list"
  rc_api_models :: "(string \<times> model_rate) list"
  rc_unpriced_models :: "string list"
  rc_pricing_catalog :: pricing_catalog
  rc_model_aliases :: "(string \<times> string) list"
  rc_floating_model_aliases :: "(string \<times> floating_alias) list"
  rc_free_local_models :: "string list"
  rc_subscription_plans :: "(string \<times> subscription_plan) list"
  rc_display_currency :: "currency_conversion option"
  rc_refresh :: rate_refresh_state
  rc_delivery :: "rate_delivery option"
  rc_rate_provenance :: "(string \<times> pricing_provenance) list"
  rc_upgrade_review :: "string list"
  rc_flat_rate_expires_at :: "(string \<times> int) list"

definition contains_key :: "(string \<times> 'v) list \<Rightarrow> string \<Rightarrow> bool" where
  "contains_key m k \<longleftrightarrow> map_of m k \<noteq> None"

definition any_unusable :: "rate_card \<Rightarrow> bool" where
  "any_unusable c \<longleftrightarrow> list_ex (\<lambda>r. \<not> is_usable r) (map snd (rc_models c) @ map snd (rc_api_models c))"

definition card_validate :: "rate_card \<Rightarrow> rate_error + unit" where
  "card_validate c =
     or_return (catalog_validate (rc_pricing_catalog c)) (\<lambda>_.
       if any_unusable c then Inl UnusableRate
       else if rf_max_cache_age_secs (rc_refresh c) \<le> 0 then Inl BadCacheAge
       else case rc_display_currency c of
           None \<Rightarrow> Inr ()
         | Some conversion \<Rightarrow> conversion_validate conversion)"

definition with_delivery :: "string \<Rightarrow> string \<Rightarrow> string option \<Rightarrow> rate_card \<Rightarrow> rate_card" where
  "with_delivery app_version source failure c =
     c\<lparr>rc_delivery := Some \<lparr>rl_source = source, rl_app_version = app_version,
        rl_card_version = rc_version c, rl_last_failure_reason = failure\<rparr>\<rparr>"

definition is_ok :: "'e + 'a \<Rightarrow> bool" where
  "is_ok r \<longleftrightarrow> (case r of Inl _ \<Rightarrow> False | Inr _ \<Rightarrow> True)"

definition dropped :: "(string \<times> model_rate) list \<Rightarrow> (string \<times> model_rate) list \<Rightarrow> string list \<Rightarrow> bool"
  where
  "dropped previous refreshed unpriced \<longleftrightarrow>
     list_ex (\<lambda>model. \<not> contains_key refreshed model \<and> model \<notin> set unpriced) (map fst previous)"

definition apply_refresh_candidate :: "rate_card \<Rightarrow> rate_card \<Rightarrow> timestamp \<Rightarrow> rate_card" where
  "apply_refresh_candidate previous candidate now =
     (let structurally_valid = is_ok (catalog_validate (rc_pricing_catalog candidate));
          metadata_valid = is_ok (card_validate candidate);
          dropped_models =
            dropped (rc_models previous) (rc_models candidate) (rc_unpriced_models candidate);
          dropped_api_models =
            dropped (rc_api_models previous) (rc_api_models candidate) (rc_unpriced_models candidate);
          unusable_rate = any_unusable candidate
      in if structurally_valid \<and> metadata_valid \<and> \<not> dropped_models \<and> \<not> dropped_api_models
            \<and> \<not> unusable_rate
         then candidate\<lparr>rc_refresh := (rc_refresh candidate)\<lparr>
           rf_last_success_at := Some now, rf_last_attempt_at := Some now,
           rf_last_failure_reason := None\<rparr>\<rparr>
         else previous\<lparr>rc_refresh := (rc_refresh previous)\<lparr>
           rf_last_attempt_at := Some now,
           rf_last_failure_reason := Some
             (if \<not> structurally_valid then ''candidate pricing catalog failed validation''
              else if unusable_rate then ''candidate contained a negative or non-finite rate''
              else if \<not> metadata_valid
              then ''candidate FX or cache-age metadata failed validation''
              else ''candidate price tables were empty or partial'')\<rparr>\<rparr>)"

section \<open>Resolving a model to a price\<close>

definition date_naive :: "timestamp \<Rightarrow> int" where
  "date_naive t = t div 86400000000000"

definition flat_rate_expired :: "rate_card \<Rightarrow> timestamp \<Rightarrow> string \<Rightarrow> bool" where
  "flat_rate_expired c now model \<longleftrightarrow>
     (case map_of (rc_flat_rate_expires_at c) model of
        None \<Rightarrow> False | Some e \<Rightarrow> e \<le> date_naive now)"

definition resolution_basis ::
    "rate_card \<Rightarrow> timestamp \<Rightarrow> string \<Rightarrow> pricing_basis \<Rightarrow> pricing_basis" where
  "resolution_basis c now resolved direct_basis =
     (if resolved \<in> set (rc_unpriced_models c) \<or> flat_rate_expired c now resolved then Unavailable
      else if freshness (rc_refresh c) now = StaleRates then StaleBasis
      else direct_basis)"

definition resolve_model_pricing ::
    "rate_card \<Rightarrow> string \<Rightarrow> provider_id \<Rightarrow> (string \<times> model_rate) list \<Rightarrow> timestamp
     \<Rightarrow> priced_model_resolution" where
  "resolve_model_pricing c model harness tbl now =
     (let resolved = \<lambda>fb m b. \<lparr>pr_fallback_used = fb, pr_resolved_model = m, pr_basis = b\<rparr>;
          basis = resolution_basis c now
      in if model \<in> set (rc_free_local_models c) then resolved False model FreeLocal
         else if model \<in> set (rc_unpriced_models c) then resolved False model Unavailable
         else if flat_rate_expired c now model then resolved False model Unavailable
         else if contains_key tbl model then resolved False model (basis model Direct)
         else case (case map_of (rc_floating_model_aliases c) model of
               None \<Rightarrow> None
             | Some fa \<Rightarrow>
                 if date_naive now \<le> fa_expires_at fa \<and> contains_key tbl (fa_target fa)
                 then Some (fa_target fa) else None) of
             Some target \<Rightarrow> resolved False target (basis target FloatingAliasBasis)
           | None \<Rightarrow>
               (case resolve_alias model (rc_model_aliases c) of
                  (target, hopped) \<Rightarrow>
                    if hopped \<and> contains_key tbl target
                    then resolved False target (basis target Aliased)
                    else
                      let fallback_model =
                        unwrap_or (rc_fallback_model c) (map_of (rc_fallback_models c) harness)
                      in if contains_key tbl fallback_model
                         then resolved True fallback_model (basis fallback_model FallbackBasis)
                         else resolved False model Unavailable))"

definition downgrade_for_cache_creation_fallback ::
    "pricing_basis \<Rightarrow> model_rate \<Rightarrow> u64 \<Rightarrow> pricing_basis" where
  "downgrade_for_cache_creation_fallback basis rate cache_creation_tokens =
     (if basis \<in> {Direct, Aliased, FloatingAliasBasis} \<and> 0 < cache_creation_tokens
         \<and> cache_creation_rate_is_fallback rate
      then Estimated else basis)"

section \<open>What a valid catalog is\<close>

lemma or_return_Inr: "or_return r f = Inr y \<longleftrightarrow> (\<exists>x. r = Inr x \<and> f x = Inr y)"
  by (cases r) (simp_all add: or_return_def)

definition scope_ok ::
    "string \<Rightarrow> timestamp \<Rightarrow> timestamp option \<Rightarrow> string \<Rightarrow> pricing_provenance \<Rightarrow> bool" where
  "scope_ok model from_t to_t label provenance \<longleftrightarrow>
     trim model \<noteq> [] \<and> trim label \<noteq> []
     \<and> trim (pv_evidence provenance) \<noteq> [] \<and> trim (pv_source_url provenance) \<noteq> []
     \<and> pred_option (\<lambda>e. from_t < e) to_t"

definition period_ok :: "effective_rate_period \<Rightarrow> bool" where
  "period_ok p \<longleftrightarrow>
     is_usable (ep_rate p) \<and> trim (ep_id p) \<noteq> []
     \<and> scope_ok (ep_model p) (ep_from p) (ep_to p) (ep_label p) (ep_provenance p)
     \<and> pred_option f64_positive (ep_cache_write_input_multiplier p)"

definition modifier_ok :: "conditional_rate_modifier \<Rightarrow> bool" where
  "modifier_ok m \<longleftrightarrow>
     trim (cm_id m) \<noteq> []
     \<and> scope_ok (cm_model m) (cm_from m) (cm_to m) (cm_label m) (cm_provenance m)
     \<and> f64_positive (mul_input (cm_multipliers m)) \<and> f64_positive (mul_output (cm_multipliers m))
     \<and> (case cm_condition m of
          RequestInputTokenThreshold n \<Rightarrow>
            0 < n \<and> cm_surface m \<notin> {CodexPurchasedCredits, CodexIncludedAllowance}
        | ServiceTier tier \<Rightarrow>
            tier \<in> set supported_tiers
            \<and> f64_eq (mul_input (cm_multipliers m)) (mul_output (cm_multipliers m)))"

definition same_group :: "effective_rate_period \<Rightarrow> effective_rate_period \<Rightarrow> bool" where
  "same_group p q \<longleftrightarrow> ep_surface p = ep_surface q \<and> ep_model p = ep_model q"

definition catalog_ok :: "pricing_catalog \<Rightarrow> bool" where
  "catalog_ok c \<longleftrightarrow>
     list_all period_ok (pc_rate_periods c)
     \<and> list_all modifier_ok (pc_conditional_modifiers c)
     \<and> distinct (map ep_id (pc_rate_periods c) @ map cm_id (pc_conditional_modifiers c))
     \<and> sorted_wrt (\<lambda>p q. \<not> (same_group p q \<and> periods_overlap p q)) (pc_rate_periods c)
     \<and> sorted_wrt (\<lambda>m n. \<not> modifiers_clash m n) (pc_conditional_modifiers c)"

lemma validate_rule_id_Inr:
  "validate_rule_id i ids = Inr ids' \<longleftrightarrow> trim i \<noteq> [] \<and> i \<notin> ids \<and> ids' = insert i ids"
  by (auto simp: validate_rule_id_def)

lemma validate_rule_scope_Inr:
  "validate_rule_scope model f t label pv = Inr u \<longleftrightarrow> scope_ok model f t label pv"
  by (auto simp: validate_rule_scope_def scope_ok_def split: option.splits)

lemma validate_period_Inr:
  "validate_period p ids = Inr ids' \<longleftrightarrow> period_ok p \<and> ep_id p \<notin> ids \<and> ids' = insert (ep_id p) ids"
  by (auto simp: validate_period_def or_return_Inr validate_rule_id_Inr validate_rule_scope_Inr
      period_ok_def f64_positive_def split: option.splits if_splits)

lemma validate_modifier_Inr:
  "validate_modifier m ids = Inr ids' \<longleftrightarrow>
    modifier_ok m \<and> cm_id m \<notin> ids \<and> ids' = insert (cm_id m) ids"
  by (cases "cm_condition m")
    (auto simp: validate_modifier_def or_return_Inr validate_rule_id_Inr validate_rule_scope_Inr
      validate_condition_def validate_multipliers_def is_service_tier_def Let_def
      modifier_ok_def f64_positive_def split: if_splits)

lemma try_fold_ids:
  assumes "\<And>x ids ids'. f x ids = Inr ids' \<longleftrightarrow> ok x \<and> i x \<notin> ids \<and> ids' = insert (i x) ids"
  shows "try_fold f xs ids = Inr ids' \<longleftrightarrow>
    list_all ok xs \<and> distinct (map i xs) \<and> i ` set xs \<inter> ids = {} \<and> ids' = ids \<union> i ` set xs"
  by (induction xs arbitrary: ids) (auto simp: or_return_Inr assms)

section \<open>Neighbours suffice\<close>

lemma all_pairs_transp:
  assumes "\<And>x y z. x \<in> set xs \<Longrightarrow> y \<in> set xs \<Longrightarrow> z \<in> set xs \<Longrightarrow> r x y \<Longrightarrow> r y z \<Longrightarrow> r x z"
  shows "all_pairs r xs \<longleftrightarrow> sorted_wrt r xs"
  using assms
proof (induction r xs rule: all_pairs.induct)
  case (1 r x y zs)
  then have IH: "all_pairs r (y # zs) \<longleftrightarrow> sorted_wrt r (y # zs)" by (meson list.set_intros(2))
  have "r x z" if "r x y" "r y z" "z \<in> set zs" for z
    using "1.prems"[of x y z] that by simp
  with IH show ?case by auto
qed simp_all

lemma sorted_wrt_insort:
  assumes "\<And>x y. r x y \<longleftrightarrow> r y x"
  shows "sorted_wrt r (insort_key f x xs) \<longleftrightarrow> (\<forall>y\<in>set xs. r x y) \<and> sorted_wrt r xs"
  using assms by (induction xs) (auto simp: set_insort_key)

lemma sorted_wrt_sort_key:
  assumes "\<And>x y. r x y \<longleftrightarrow> r y x"
  shows "sorted_wrt r (sort_key f xs) \<longleftrightarrow> sorted_wrt r xs"
  by (induction xs) (auto simp: sorted_wrt_insort[OF assms])

lemma sorted_wrt_group:
  "(\<forall>k. sorted_wrt r (filter (\<lambda>x. g x = k) xs)) \<longleftrightarrow> sorted_wrt (\<lambda>x y. g x = g y \<longrightarrow> r x y) xs"
  by (induction xs) (auto split: if_splits)

text \<open>Of two non-empty intervals in order of their starts, disjoint means that the first ends
  before the second starts; that relation is transitive.\<close>

lemma overlap_sorted:
  assumes "period_ok p" "period_ok q" "ep_from p \<le> ep_from q"
  shows "\<not> periods_overlap p q \<longleftrightarrow> (\<exists>e. ep_to p = Some e \<and> e \<le> ep_from q)"
  using assms by (cases "ep_to p"; cases "ep_to q")
    (auto simp: periods_overlap_def intervals_overlap_def period_ok_def scope_ok_def)

lemma periods_overlap_sym: "periods_overlap p q \<longleftrightarrow> periods_overlap q p"
  by (auto simp: periods_overlap_def intervals_overlap_def)

lemma neighbours_suffice:
  assumes "list_all period_ok ps"
  shows "all_pairs (\<lambda>p q. \<not> periods_overlap p q) (sort_key ep_from ps)
    \<longleftrightarrow> sorted_wrt (\<lambda>p q. \<not> periods_overlap p q) ps"
proof -
  let ?ps = "sort_key ep_from ps"
  let ?r = "\<lambda>p q. ep_from p \<le> ep_from q \<and> \<not> periods_overlap p q"
  have ok: "period_ok p" if "p \<in> set ?ps" for p using that assms by (simp add: list_all_iff)
  have srt: "all_pairs (\<lambda>p q. ep_from p \<le> ep_from q) ?ps"
    unfolding all_pairs_sorted by simp
  have conj: "all_pairs (\<lambda>p q. a p q \<and> b p q) xs \<longleftrightarrow> all_pairs a xs \<and> all_pairs b xs" for a b xs
    by (induction a xs rule: all_pairs.induct) auto
  have wrt: "sorted_wrt (\<lambda>p q. a p q \<and> b p q) xs \<longleftrightarrow> sorted_wrt a xs \<and> sorted_wrt b xs" for a b xs
    by (induction xs) auto
  have "all_pairs (\<lambda>p q. \<not> periods_overlap p q) ?ps \<longleftrightarrow> all_pairs ?r ?ps"
    using srt by (simp add: conj)
  also have "\<dots> \<longleftrightarrow> sorted_wrt ?r ?ps"
  proof (rule all_pairs_transp)
    fix x y z assume "x \<in> set ?ps" "y \<in> set ?ps" "z \<in> set ?ps" "?r x y" "?r y z"
    then show "?r x z"
      using overlap_sorted[OF ok ok, of x y] overlap_sorted[OF ok ok, of x z]
      by (meson order_trans)
  qed
  also have "\<dots> \<longleftrightarrow> sorted_wrt (\<lambda>p q. \<not> periods_overlap p q) ?ps"
  proof -
    have "sorted_wrt (\<lambda>p q. ep_from p \<le> ep_from q) ?ps"
      using sorted_sort_key[of ep_from ps] by (simp add: sorted_map)
    then show ?thesis by (simp add: wrt)
  qed
  also have "\<dots> \<longleftrightarrow> sorted_wrt (\<lambda>p q. \<not> periods_overlap p q) ps"
    using periods_overlap_sym by (intro sorted_wrt_sort_key) blast
  finally show ?thesis .
qed

lemma fold_snoc: "fold (\<lambda>p v. v @ [p]) ps vs = vs @ ps"
  by (induction ps arbitrary: vs) simp_all

lemma group_periods_mem:
  "(k, ps) \<in> set (group_periods periods) \<longleftrightarrow>
    ps \<noteq> [] \<and> ps = filter (\<lambda>p. (ep_surface p, ep_model p) = k) periods"
proof -
  have inv: "hm_inv (group_periods periods)"
    unfolding group_periods_def by (rule hm.fold_invar) (rule hm.invar_empty)
  have "map_of (group_periods periods) k =
      (if \<exists>p\<in>set periods. (ep_surface p, ep_model p) = k
       then Some (filter (\<lambda>p. (ep_surface p, ep_model p) = k) periods) else None)"
    unfolding group_periods_def
    by (subst hm.fold_lookup[OF hm.invar_empty]) (simp add: fold_snoc)
  then show ?thesis
    using map_of_distinct_in[OF hm.invar_distinct[OF inv], of k ps]
    by (auto simp: filter_empty_conv)
qed

lemma validate_periods_apart_Inr:
  assumes "list_all period_ok ps"
  shows "validate_periods_apart ps = Inr u \<longleftrightarrow>
    sorted_wrt (\<lambda>p q. \<not> (same_group p q \<and> periods_overlap p q)) ps"
proof -
  let ?g = "\<lambda>p. (ep_surface p, ep_model p)"
  let ?f = "\<lambda>k. filter (\<lambda>p. ?g p = k) ps"
  have n: "all_pairs (\<lambda>p q. \<not> periods_overlap p q) (sort_key ep_from (?f k))
      \<longleftrightarrow> sorted_wrt (\<lambda>p q. \<not> periods_overlap p q) (?f k)" for k
    using assms by (intro neighbours_suffice) (auto simp: list_all_iff)
  have nonempty: "(v \<noteq> [] \<longrightarrow> sorted_wrt r v) \<longleftrightarrow> sorted_wrt r v"
    for r and v :: "effective_rate_period list"
    by (cases v) auto
  let ?q = "\<lambda>v. all_pairs (\<lambda>p q. \<not> periods_overlap p q) (sort_key ep_from v)"
  have "validate_periods_apart ps = Inr u \<longleftrightarrow> list_all (\<lambda>(_, v). ?q v) (group_periods ps)"
    by (simp add: validate_periods_apart_def)
  also have "\<dots> \<longleftrightarrow> (\<forall>k v. (k, v) \<in> set (group_periods ps) \<longrightarrow> ?q v)"
    by (auto simp: list_all_iff)
  also have "\<dots> \<longleftrightarrow> (\<forall>k. ?f k \<noteq> [] \<longrightarrow> ?q (?f k))"
    unfolding group_periods_mem by blast
  also have "\<dots> \<longleftrightarrow> (\<forall>k. ?f k \<noteq> [] \<longrightarrow> sorted_wrt (\<lambda>p q. \<not> periods_overlap p q) (?f k))"
    unfolding n ..
  also have "\<dots> \<longleftrightarrow> (\<forall>k. sorted_wrt (\<lambda>p q. \<not> periods_overlap p q) (?f k))"
    by (simp only: nonempty)
  also have "\<dots> \<longleftrightarrow> sorted_wrt (\<lambda>p q. ?g p = ?g q \<longrightarrow> \<not> periods_overlap p q) ps"
    by (rule sorted_wrt_group)
  also have "(\<lambda>p q. ?g p = ?g q \<longrightarrow> \<not> periods_overlap p q)
      = (\<lambda>p q. \<not> (same_group p q \<and> periods_overlap p q))"
    by (auto simp: same_group_def fun_eq_iff)
  finally show ?thesis .
qed

lemma validate_modifiers_apart_Inr:
  "validate_modifiers_apart ms = Inr u \<longleftrightarrow> sorted_wrt (\<lambda>m n. \<not> modifiers_clash m n) ms"
  by (induction ms) (auto simp: list_ex_iff)

text \<open>C15: \<open>PricingCatalog::validate\<close> accepts exactly the catalogs whose rules are well formed,
  whose rule ids are distinct across periods and modifiers, and in which no two periods of a
  surface and model, and no two modifiers with the same condition, overlap. Comparing neighbours
  after sorting each group by its start misses no overlap.\<close>

theorem catalog_validate_iff:
  "catalog_validate c = Inr () \<longleftrightarrow> catalog_ok c"
  by (auto simp: catalog_validate_def catalog_ok_def or_return_Inr
      try_fold_ids[of validate_period, OF validate_period_Inr]
      try_fold_ids[of validate_modifier, OF validate_modifier_Inr]
      validate_periods_apart_Inr validate_modifiers_apart_Inr)

lemma sorted_wrt_unique:
  "sorted_wrt r xs \<Longrightarrow> x \<in> set xs \<Longrightarrow> y \<in> set xs \<Longrightarrow> \<not> r x y \<Longrightarrow> \<not> r y x \<Longrightarrow> x = y"
  by (induction xs) auto

lemma contains_overlap:
  "interval_contains a b t \<Longrightarrow> interval_contains c d t \<Longrightarrow> intervals_overlap a b c d"
  by (auto simp: interval_contains_def intervals_overlap_def split: option.splits)

lemma find_unique:
  assumes "\<And>x y. x \<in> set xs \<Longrightarrow> y \<in> set xs \<Longrightarrow> P x \<Longrightarrow> P y \<Longrightarrow> x = y"
  shows "List.find P xs = Some x \<longleftrightarrow> x \<in> set xs \<and> P x"
  using assms
proof (induction xs)
  case (Cons a xs)
  then show ?case by (cases "P a") force+
qed simp

text \<open>C16: With a valid catalog every lookup has one answer. The period \<open>rate_at\<close> returns is the
  only period of the surface and model in effect at that time and its rate can be priced with;
  the modifier found for a tier is the only one in effect; and a request meets at most one
  modifier per threshold. The order of the catalog's rules does not matter.\<close>

theorem catalog_lookup_unique:
  assumes "catalog_validate c = Inr ()"
  shows "(rate_at c surface model t = Some p) =
      (p \<in> set (pc_rate_periods c) \<and> ep_surface p = surface \<and> ep_model p = model
       \<and> interval_contains (ep_from p) (ep_to p) t \<and> is_usable (ep_rate p))
    \<and> (modifier_for_tier c surface model t tier = Some m) =
      (m \<in> set (pc_conditional_modifiers c) \<and> cm_surface m = surface \<and> cm_model m = model
       \<and> interval_contains (cm_from m) (cm_to m) t \<and> cm_condition m = ServiceTier tier)
    \<and> inj_on cm_condition (set (modifiers_for_request c surface model t n))"
proof -
  from assms have ok: "catalog_ok c" by (simp add: catalog_validate_iff)
  then have periods: "p = q"
    if "p \<in> set (pc_rate_periods c)" "q \<in> set (pc_rate_periods c)" "same_group p q"
      "interval_contains (ep_from p) (ep_to p) t" "interval_contains (ep_from q) (ep_to q) t" for p q
    using sorted_wrt_unique[of _ "pc_rate_periods c" p q] that contains_overlap
      by (force simp: catalog_ok_def same_group_def periods_overlap_def)
  have modifiers: "m = n"
    if "m \<in> set (pc_conditional_modifiers c)" "n \<in> set (pc_conditional_modifiers c)"
      "cm_surface m = cm_surface n" "cm_model m = cm_model n" "cm_condition m = cm_condition n"
      "interval_contains (cm_from m) (cm_to m) t" "interval_contains (cm_from n) (cm_to n) t" for m n
    using sorted_wrt_unique[of _ "pc_conditional_modifiers c" m n] that contains_overlap ok
      by (force simp: catalog_ok_def modifiers_clash_def)
  have usable: "is_usable (ep_rate p)" if "p \<in> set (pc_rate_periods c)" for p
    using ok that by (auto simp: catalog_ok_def list_all_iff period_ok_def)
  have "(rate_at c surface model t = Some p) =
      (p \<in> set (pc_rate_periods c) \<and> ep_surface p = surface \<and> ep_model p = model
       \<and> interval_contains (ep_from p) (ep_to p) t \<and> is_usable (ep_rate p))"
    using periods usable unfolding rate_at_def by (subst find_unique) (auto simp: same_group_def)
  moreover have "(modifier_for_tier c surface model t tier = Some m) =
      (m \<in> set (pc_conditional_modifiers c) \<and> cm_surface m = surface \<and> cm_model m = model
       \<and> interval_contains (cm_from m) (cm_to m) t \<and> cm_condition m = ServiceTier tier)"
    using modifiers unfolding modifier_for_tier_def by (subst find_unique) auto
  moreover have "inj_on cm_condition (set (modifiers_for_request c surface model t n))"
    using modifiers by (auto simp: modifiers_for_request_def inj_on_def)
  ultimately show ?thesis by blast
qed

section \<open>Alias chains\<close>

definition alias_step :: "(string \<times> string) list \<Rightarrow> (string \<times> string) set" where
  "alias_step aliases = {(a, b). map_of aliases a = Some b}"

lemma alias_step_det: "(a, b) \<in> alias_step A \<Longrightarrow> (a, c) \<in> alias_step A \<Longrightarrow> b = c"
  by (simp add: alias_step_def)

lemma alias_loop_spec:
  assumes "alias_loop n A current seen hopped = (r, h)"
    and "finite seen" and "seen \<subseteq> dom (map_of A)" and "length A < n + card seen"
    and "\<forall>x\<in>seen. (x, current) \<in> (alias_step A)\<^sup>+"
  shows "(current, r) \<in> (alias_step A)\<^sup>* \<and> (map_of A r = None \<or> (r, r) \<in> (alias_step A)\<^sup>+)"
  using assms
proof (induction n A current seen hopped rule: alias_loop.induct)
  case (1 A current seen hopped)
  have "card seen \<le> card (dom (map_of A))"
    using "1.prems" by (intro card_mono) (simp_all add: finite_dom_map_of)
  also have "\<dots> \<le> length A"
    by (metis dom_map_of_conv_image_fst card_length length_map list.set_map)
  finally show ?case using "1.prems" by simp
next
  case (2 n A current seen hopped)
  show ?case
  proof (cases "map_of A current")
    case None
    with "2.prems"(1) show ?thesis by auto
  next
    case (Some nxt)
    show ?thesis
    proof (cases "current \<in> seen")
      case True
      with "2.prems"(1,5) Some show ?thesis by auto
    next
      case False
      have step: "(current, nxt) \<in> alias_step A" using Some by (simp add: alias_step_def)
      have "(nxt, r) \<in> (alias_step A)\<^sup>* \<and> (map_of A r = None \<or> (r, r) \<in> (alias_step A)\<^sup>+)"
      proof (rule "2.IH"[OF Some False])
        show "alias_loop n A nxt (insert current seen) True = (r, h)"
          using "2.prems"(1) Some False by simp
        show "\<forall>x\<in>insert current seen. (x, nxt) \<in> (alias_step A)\<^sup>+"
          using "2.prems"(5) step by (auto intro: trancl_into_trancl)
      qed (use "2.prems" Some False in auto)
      then show ?thesis using step by (auto intro: converse_rtrancl_into_rtrancl)
    qed
  qed
qed

lemma alias_loop_hopped:
  "snd (alias_loop n A current seen hopped) \<longleftrightarrow>
    hopped \<or> (n \<noteq> 0 \<and> map_of A current \<noteq> None \<and> current \<notin> seen)"
  by (induction n A current seen hopped rule: alias_loop.induct) (auto split: option.splits)

text \<open>A key on a cycle only reaches keys on the cycle, so it reaches no end of a chain.\<close>

lemma cycle_no_end:
  assumes "(r, r) \<in> (alias_step A)\<^sup>+" and "(r, e) \<in> (alias_step A)\<^sup>*"
  shows "map_of A e \<noteq> None"
proof -
  have "(e, e) \<in> (alias_step A)\<^sup>+"
    using assms(2,1)
  proof (induction rule: rtrancl_induct)
    case (step y z)
    from step.IH[OF step.prems] obtain w where "(y, w) \<in> alias_step A" "(w, y) \<in> (alias_step A)\<^sup>*"
      by (meson tranclD)
    with alias_step_det[OF this(1) step.hyps(2)] step.hyps(2) show ?case
      by (simp add: rtrancl_into_trancl1)
  qed
  then show ?thesis by (auto dest: tranclD simp: alias_step_def)
qed

lemma end_stuck: "(e, x) \<in> (alias_step A)\<^sup>* \<Longrightarrow> map_of A e = None \<Longrightarrow> x = e"
  by (erule converse_rtranclE) (simp_all add: alias_step_def)

lemma end_reached:
  assumes "(m, e) \<in> (alias_step A)\<^sup>*" and "map_of A e = None" and "(m, r) \<in> (alias_step A)\<^sup>*"
  shows "(r, e) \<in> (alias_step A)\<^sup>*"
  using assms(3)
proof (induction rule: rtrancl_induct)
  case base
  then show ?case by (rule assms(1))
next
  case (step y z)
  from step.IH show ?case
  proof (cases rule: converse_rtranclE)
    case base
    with step.hyps(2) assms(2) show ?thesis by (simp add: alias_step_def)
  next
    case (step w)
    with alias_step_det[OF this(1) step.hyps(2)] show ?thesis by simp
  qed
qed

text \<open>The keys that the loop visits before its result, in order.\<close>

lemma alias_loop_path:
  assumes "alias_loop n A current seen hopped = (r, h)"
    and "finite seen" and "seen \<subseteq> dom (map_of A)" and "length A < n + card seen"
  shows "\<exists>visited. hd (visited @ [r]) = current \<and> successively (\<lambda>x y. map_of A x = Some y) (visited @ [r])
    \<and> distinct visited \<and> set visited \<inter> seen = {} \<and> (map_of A r = None \<or> r \<in> seen \<union> set visited)"
  using assms
proof (induction n A current seen hopped rule: alias_loop.induct)
  case (1 A current seen hopped)
  have "card seen \<le> card (dom (map_of A))"
    using "1.prems" by (intro card_mono) (simp_all add: finite_dom_map_of)
  also have "\<dots> \<le> length A"
    by (metis dom_map_of_conv_image_fst card_length length_map list.set_map)
  finally show ?case using "1.prems" by simp
next
  case (2 n A current seen hopped)
  show ?case
  proof (cases "map_of A current = None \<or> current \<in> seen")
    case True
    with "2.prems"(1) have "r = current" by (auto split: option.splits if_splits)
    with True show ?thesis by (intro exI[of _ "[]"]) simp
  next
    case False
    then obtain nxt where nxt: "map_of A current = Some nxt" "current \<notin> seen" by auto
    have "\<exists>visited. hd (visited @ [r]) = nxt \<and> successively (\<lambda>x y. map_of A x = Some y) (visited @ [r])
      \<and> distinct visited \<and> set visited \<inter> insert current seen = {}
      \<and> (map_of A r = None \<or> r \<in> insert current seen \<union> set visited)"
      by (rule "2.IH"[OF nxt]) (use "2.prems" nxt in auto)
    then obtain visited where v: "hd (visited @ [r]) = nxt"
        "successively (\<lambda>x y. map_of A x = Some y) (visited @ [r])" "distinct visited"
        "set visited \<inter> insert current seen = {}" "map_of A r = None \<or> r \<in> insert current seen \<union> set visited"
      by blast
    have "successively (\<lambda>x y. map_of A x = Some y) (current # (visited @ [r]))"
      using v(1,2) nxt(1) by (simp add: successively_Cons)
    with v nxt(2) show ?thesis by (intro exI[of _ "current # visited"]) auto
  qed
qed

text \<open>C19: \<open>resolve_alias\<close> always ends, and its bound of one more step than the table has entries is
  enough: it follows the aliases from the model through keys that are all different and returns the
  first key that has no alias or was already visited, so the end of the chain, or, exactly when the
  chain has no end, the first key on the way that lies on a cycle. A hop is reported exactly when the
  model has an alias.\<close>

theorem alias_chain_resolved:
  fixes model aliases
  defines "r \<equiv> fst (resolve_alias model aliases)"
  shows "(\<exists>visited. hd (visited @ [r]) = model
        \<and> successively (\<lambda>x y. map_of aliases x = Some y) (visited @ [r]) \<and> distinct visited
        \<and> (map_of aliases r = None \<or> r \<in> set visited))
    \<and> (map_of aliases r = None \<or> (r, r) \<in> (alias_step aliases)\<^sup>+)
    \<and> (map_of aliases r = None) = (\<exists>e. (model, e) \<in> (alias_step aliases)\<^sup>* \<and> map_of aliases e = None)
    \<and> {e. (model, e) \<in> (alias_step aliases)\<^sup>* \<and> map_of aliases e = None} \<subseteq> {r}
    \<and> snd (resolve_alias model aliases) = (map_of aliases model \<noteq> None)"
proof -
  have loop: "alias_loop (Suc (length aliases)) aliases model {} False = (r, snd (resolve_alias model aliases))"
    by (simp add: r_def resolve_alias_def del: alias_loop.simps)
  from alias_loop_spec[OF loop] have spec: "(model, r) \<in> (alias_step aliases)\<^sup>*"
      "map_of aliases r = None \<or> (r, r) \<in> (alias_step aliases)\<^sup>+"
    by simp_all
  from alias_loop_path[OF loop] have path: "\<exists>visited. hd (visited @ [r]) = model
      \<and> successively (\<lambda>x y. map_of aliases x = Some y) (visited @ [r]) \<and> distinct visited
      \<and> (map_of aliases r = None \<or> r \<in> set visited)"
    by auto
  have "e = r" if "(model, e) \<in> (alias_step aliases)\<^sup>*" "map_of aliases e = None" for e
  proof -
    have re: "(r, e) \<in> (alias_step aliases)\<^sup>*" by (rule end_reached[OF that spec(1)])
    with spec(2) that(2) cycle_no_end have "map_of aliases r = None" by blast
    with end_stuck[OF re] show ?thesis by simp
  qed
  moreover have "snd (resolve_alias model aliases) = (map_of aliases model \<noteq> None)"
    unfolding resolve_alias_def alias_loop_hopped by simp
  ultimately show ?thesis using spec path by blast
qed

section \<open>Refreshing a card\<close>

definition priced_or_declared :: "(string \<times> model_rate) list \<Rightarrow> rate_card \<Rightarrow> string \<Rightarrow> bool" where
  "priced_or_declared rates c model \<longleftrightarrow>
     contains_key rates model \<or> model \<in> set (rc_unpriced_models c)"

lemma dropped_iff:
  "\<not> dropped previous refreshed unpriced \<longleftrightarrow>
    (\<forall>m. contains_key previous m \<longrightarrow> contains_key refreshed m \<or> m \<in> set unpriced)"
  by (auto simp: dropped_def list_ex_iff contains_key_def map_of_eq_None_iff)

lemma card_validate_refresh:
  "rf_max_cache_age_secs r = rf_max_cache_age_secs (rc_refresh c) \<Longrightarrow>
    card_validate (c\<lparr>rc_refresh := r\<rparr>) = card_validate c"
  by (simp add: card_validate_def any_unusable_def)

lemma is_ok_iff: "is_ok r \<longleftrightarrow> (\<exists>x. r = Inr x)"
  by (cases r) (simp_all add: is_ok_def)

lemma card_valid_parts:
  "card_validate c = Inr () \<Longrightarrow> is_ok (catalog_validate (rc_pricing_catalog c)) \<and> \<not> any_unusable c"
  by (auto simp: card_validate_def or_return_Inr is_ok_iff split: if_splits)

text \<open>C17: A refresh fails closed. From a valid card, \<open>apply_refresh_candidate\<close> gives a valid card
  that has not lost a model: each plan and API model that was priced is still priced or is
  declared to have no price. A failure reason is recorded exactly when the candidate was refused,
  and then every field but the refresh record is that of the old card; otherwise every field
  but the refresh record is that of the candidate.\<close>

theorem refresh_fails_closed:
  fixes previous candidate now
  defines "refreshed \<equiv> apply_refresh_candidate previous candidate now"
  assumes "card_validate previous = Inr ()"
  shows "card_validate refreshed = Inr ()
    \<and> (\<forall>m. contains_key (rc_models previous) m
          \<longrightarrow> priced_or_declared (rc_models refreshed) refreshed m)
    \<and> (\<forall>m. contains_key (rc_api_models previous) m
          \<longrightarrow> priced_or_declared (rc_api_models refreshed) refreshed m)
    \<and> rf_last_attempt_at (rc_refresh refreshed) = Some now
    \<and> refreshed\<lparr>rc_refresh := default_refresh\<rparr>
        = (if rf_last_failure_reason (rc_refresh refreshed) = None then candidate else previous)
            \<lparr>rc_refresh := default_refresh\<rparr>"
proof (cases "card_validate candidate = Inr ()
    \<and> \<not> dropped (rc_models previous) (rc_models candidate) (rc_unpriced_models candidate)
    \<and> \<not> dropped (rc_api_models previous) (rc_api_models candidate) (rc_unpriced_models candidate)")
  case True
  with card_valid_parts[of candidate]
  have "refreshed = candidate\<lparr>rc_refresh := (rc_refresh candidate)\<lparr>
      rf_last_success_at := Some now, rf_last_attempt_at := Some now,
      rf_last_failure_reason := None\<rparr>\<rparr>"
    by (simp add: refreshed_def apply_refresh_candidate_def is_ok_iff)
  with True show ?thesis
    by (simp add: card_validate_refresh dropped_iff priced_or_declared_def)
next
  case False
  have "\<not> is_ok (card_validate candidate) \<longleftrightarrow> card_validate candidate \<noteq> Inr ()"
    by (cases "card_validate candidate") (simp_all add: is_ok_def)
  with False have refused: "\<not> (is_ok (catalog_validate (rc_pricing_catalog candidate))
      \<and> is_ok (card_validate candidate)
      \<and> \<not> dropped (rc_models previous) (rc_models candidate) (rc_unpriced_models candidate)
      \<and> \<not> dropped (rc_api_models previous) (rc_api_models candidate) (rc_unpriced_models candidate)
      \<and> \<not> any_unusable candidate)"
    by blast
  have "\<exists>reason. refreshed = previous\<lparr>rc_refresh := (rc_refresh previous)\<lparr>
      rf_last_attempt_at := Some now, rf_last_failure_reason := Some reason\<rparr>\<rparr>"
    unfolding refreshed_def apply_refresh_candidate_def Let_def
    by (rule exI, rule if_not_P[OF refused])
  with assms(2) show ?thesis
    by (auto simp: card_validate_refresh priced_or_declared_def contains_key_def)
qed

section \<open>What a resolved price rests on\<close>

definition withdrawn :: "rate_card \<Rightarrow> timestamp \<Rightarrow> string \<Rightarrow> bool" where
  "withdrawn c now model \<longleftrightarrow>
     model \<in> set (rc_unpriced_models c) \<or> flat_rate_expired c now model"

definition floating_target :: "rate_card \<Rightarrow> timestamp \<Rightarrow> string \<Rightarrow> string option" where
  "floating_target c now model =
     (case map_of (rc_floating_model_aliases c) model of
        None \<Rightarrow> None
      | Some fa \<Rightarrow> if date_naive now \<le> fa_expires_at fa then Some (fa_target fa) else None)"

text \<open>The source of the price, stated on its own: the first of the model itself, its unexpired
  floating alias, the end of its alias chain and the harness's fallback that the table prices.\<close>

definition price_source :: "rate_card \<Rightarrow> string \<Rightarrow> provider_id \<Rightarrow> (string \<times> model_rate) list
    \<Rightarrow> timestamp \<Rightarrow> (string \<times> pricing_basis) option" where
  "price_source c model harness tbl now =
     List.find (\<lambda>(m, _). contains_key tbl m)
       ([(model, Direct)]
        @ (case floating_target c now model of None \<Rightarrow> [] | Some t \<Rightarrow> [(t, FloatingAliasBasis)])
        @ (if map_of (rc_model_aliases c) model = None then []
           else [(fst (resolve_alias model (rc_model_aliases c)), Aliased)])
        @ [(unwrap_or (rc_fallback_model c) (map_of (rc_fallback_models c) harness), FallbackBasis)])"

lemma resolve_alias_hopped: "snd (resolve_alias m A) = (map_of A m \<noteq> None)"
  unfolding resolve_alias_def alias_loop_hopped by simp

text \<open>C18: \<open>resolve_model_pricing\<close> never presents a withdrawn price. A model that is free, declared
  unpriced or past the date of its flat rate is answered from that declaration alone. Every other
  model takes the first source the table prices; its basis is kept only when the card is not
  stale, a withdrawn source is unavailable, and the fallback flag says whether the fallback was
  used even when the basis has become stale.\<close>

theorem resolution_meaning:
  "resolve_model_pricing c model harness tbl now =
     (if model \<in> set (rc_free_local_models c)
      then \<lparr>pr_fallback_used = False, pr_resolved_model = model, pr_basis = FreeLocal\<rparr>
      else if withdrawn c now model
      then \<lparr>pr_fallback_used = False, pr_resolved_model = model, pr_basis = Unavailable\<rparr>
      else case price_source c model harness tbl now of
          None \<Rightarrow> \<lparr>pr_fallback_used = False, pr_resolved_model = model, pr_basis = Unavailable\<rparr>
        | Some (m, basis) \<Rightarrow>
            \<lparr>pr_fallback_used = (basis = FallbackBasis), pr_resolved_model = m,
             pr_basis = (if withdrawn c now m then Unavailable
               else if freshness (rc_refresh c) now = StaleRates then StaleBasis else basis)\<rparr>)"
proof -
  obtain r h where a: "resolve_alias model (rc_model_aliases c) = (r, h)" by fastforce
  then have h: "h = (map_of (rc_model_aliases c) model \<noteq> None)"
    using resolve_alias_hopped[of model "rc_model_aliases c"] by simp
  show ?thesis
    by (cases "map_of (rc_floating_model_aliases c) model")
      (auto simp: resolve_model_pricing_def price_source_def floating_target_def withdrawn_def
        resolution_basis_def Let_def a h)
qed

section \<open>Witnesses\<close>

definition sample_rate :: model_rate where
  "sample_rate =
     \<lparr>mr_input = 0x3FF0000000000000, mr_cached_input = 0x3FE0000000000000,
      mr_cache_creation_input = None, mr_output = 0x4000000000000000,
      mr_reasoning = 0x4000000000000000\<rparr>"

definition sample_period :: "string \<Rightarrow> timestamp \<Rightarrow> timestamp option \<Rightarrow> effective_rate_period" where
  "sample_period rule_id f t =
     \<lparr>ep_id = rule_id, ep_surface = AnthropicApiUsd, ep_model = ''m'', ep_from = f, ep_to = t,
      ep_rate = sample_rate, ep_cache_write_input_multiplier = None,
      ep_provenance = \<lparr>pv_evidence = ''p'', pv_source_url = ''u'', pv_verified_at = 0,
        pv_note = None\<rparr>, ep_label = ''l''\<rparr>"

definition sample_catalog :: pricing_catalog where
  "sample_catalog =
     \<lparr>pc_rate_periods = [sample_period ''b'' 10 None, sample_period ''a'' 0 (Some 10)],
      pc_conditional_modifiers = [], pc_notes = []\<rparr>"

lemma sample_usable: "is_usable sample_rate"
  by code_simp

lemma sample_trims: "trim ''a'' \<noteq> []" "trim ''b'' \<noteq> []" "trim ''m'' \<noteq> []" "trim ''l'' \<noteq> []"
    "trim ''p'' \<noteq> []" "trim ''u'' \<noteq> []"
  by code_simp+

lemma sample_catalog_valid: "catalog_validate sample_catalog = Inr ()"
  unfolding catalog_validate_iff catalog_ok_def sample_catalog_def
  by (simp add: sample_period_def period_ok_def scope_ok_def sample_usable sample_trims
      same_group_def periods_overlap_def intervals_overlap_def)

lemma catalog_lookup_unique_witness:
  "rate_at sample_catalog AnthropicApiUsd ''m'' 10 = Some (sample_period ''b'' 10 None)
   \<and> is_usable sample_rate"
proof -
  have "sample_period ''b'' 10 None \<in> set (pc_rate_periods sample_catalog)"
    by (simp add: sample_catalog_def)
  then show ?thesis
    using sample_usable catalog_lookup_unique[OF sample_catalog_valid, of AnthropicApiUsd "''m''" 10
        "sample_period ''b'' 10 None"]
    by (simp add: sample_period_def interval_contains_def)
qed

definition sample_card :: "(string \<times> model_rate) list \<Rightarrow> rate_card" where
  "sample_card models =
     \<lparr>rc_version = 1, rc_currency = ''USD'', rc_unit = ''per_1m_tokens'', rc_source_url = ''url'',
      rc_fetched_at = None, rc_models = models, rc_fallback_model = ''m'', rc_currencies = [],
      rc_fallback_models = [], rc_api_models = [], rc_unpriced_models = [],
      rc_pricing_catalog = sample_catalog, rc_model_aliases = [], rc_floating_model_aliases = [],
      rc_free_local_models = [], rc_subscription_plans = [], rc_display_currency = None,
      rc_refresh = default_refresh, rc_delivery = None, rc_rate_provenance = [],
      rc_upgrade_review = [], rc_flat_rate_expires_at = []\<rparr>"

lemma refresh_fails_closed_witness:
  "rc_models (apply_refresh_candidate (sample_card [(''m'', sample_rate)]) (sample_card []) 5)
    = [(''m'', sample_rate)]"
proof -
  let ?old = "sample_card [(''m'', sample_rate)]" and ?new = "sample_card []"
  let ?r = "apply_refresh_candidate ?old ?new 5"
  have "card_validate ?old = Inr ()"
    by (simp add: card_validate_def sample_card_def sample_catalog_valid or_return_def
        any_unusable_def sample_usable default_refresh_def default_max_cache_age_secs_def)
  note closed = refresh_fails_closed[OF this, of ?new 5]
  have "contains_key (rc_models ?old) ''m''" by (simp add: sample_card_def contains_key_def)
  then have kept: "priced_or_declared (rc_models ?r) ?r ''m''"
    by (rule closed[THEN conjunct2, THEN conjunct1, rule_format])
  have proj: "rc_models a = rc_models b \<and> rc_unpriced_models a = rc_unpriced_models b"
    if "a\<lparr>rc_refresh := default_refresh\<rparr> = b\<lparr>rc_refresh := default_refresh\<rparr>" for a b :: rate_card
    using arg_cong[OF that, of rc_models] arg_cong[OF that, of rc_unpriced_models] by simp
  let ?b = "if rf_last_failure_reason (rc_refresh ?r) = None then ?new else ?old"
  have "rc_models ?r = rc_models ?b \<and> rc_unpriced_models ?r = rc_unpriced_models ?b"
    by (rule proj[OF closed[THEN conjunct2, THEN conjunct2, THEN conjunct2, THEN conjunct2]])
  with kept show ?thesis
    by (cases "rf_last_failure_reason (rc_refresh ?r) = None")
      (simp_all add: priced_or_declared_def contains_key_def sample_card_def)
qed

end
