(* ===== verification/Finding_Lifecycle.thy ===== *)
theory Finding_Lifecycle
  imports Model_Types Stable_Hash
begin

text \<open>
  \<open>src-tauri/src/workflow_lifecycle.rs\<close> and the transactions of \<open>history_workflow.rs\<close> around it: the
  lifecycle of workflow findings. The table \<open>workflow_finding_lifecycle\<close> is an association list
  from its primary key to the other columns; a transaction that fails rolls back, so it returns an
  error and no table. Revisions make suppression edits conditional. The conversion of milliseconds
  to a date, which can fail, is the argument \<open>from_millis\<close>, and the check of the report's serialised
  size the argument \<open>fits\<close>.
\<close>

section \<open>Data\<close>

datatype finding_state = NewFinding | Persistent | Improving | Resolved | Suppressed | NotApplicable

definition state_text :: "finding_state \<Rightarrow> string" where
  "state_text st =
     (case st of NewFinding \<Rightarrow> ''new'' | Persistent \<Rightarrow> ''persistent'' | Improving \<Rightarrow> ''improving''
      | Resolved \<Rightarrow> ''resolved'' | Suppressed \<Rightarrow> ''suppressed'' | NotApplicable \<Rightarrow> ''not_applicable'')"

definition all_states :: "finding_state list" where
  "all_states = [NewFinding, Persistent, Improving, Resolved, Suppressed, NotApplicable]"

text \<open>The derived deserialiser, with variant names in snake case.\<close>

definition parse_state :: "string \<Rightarrow> finding_state option" where
  "parse_state txt = List.find (\<lambda>st. state_text st = txt) all_states"

text \<open>The identity of a finding hashes its length-prefixed parts.\<close>

definition le_bytes :: "u64 \<Rightarrow> string" where
  "le_bytes w = map (\<lambda>i. char_of (unat (drop_bit (8 * i) w) mod 256)) [0..<8]"

definition identity_bytes :: "string list \<Rightarrow> string" where
  "identity_bytes parts = concat (map (\<lambda>p. le_bytes (word_of_nat (length p)) @ p) parts)"

definition finding_identity :: "string \<Rightarrow> string \<Rightarrow> string \<Rightarrow> string" where
  "finding_identity provider project rule_id =
     ''finding:'' @ hex16 (fnv1a64 (identity_bytes [''workflow-finding-v1'', provider, project, rule_id]))"

record finding_lifecycle =
  fl_first_observed_at :: timestamp
  fl_last_observed_at :: timestamp
  fl_state :: finding_state
  fl_suppressed :: bool
  fl_revision :: int
  fl_analyzer_changed :: bool

record suppression_edit =
  se_provider :: string
  se_project_id :: "string option"
  se_rule_id :: string
  se_expected_revision :: int
  se_suppressed :: bool

record observation =
  ob_provider :: string
  ob_project :: "string option"
  ob_rule :: string
  ob_measured_at_ms :: int
  ob_analyzer_version :: u32
  ob_comparison_version :: u32
  ob_state :: finding_state

type_synonym lifecycle_key = "string \<times> string \<times> string"

record lifecycle_row =
  lr_first_observed_ms :: int
  lr_last_observed_ms :: int
  lr_analyzer_version :: u32
  lr_comparison_version :: u32
  lr_state :: string
  lr_suppressed :: bool
  lr_revision :: int

type_synonym lifecycle_table = "(lifecycle_key \<times> lifecycle_row) list"

datatype lifecycle_error =
    NewerMeasurement | RevisionExhausted | InvalidTime | InvalidState | InvalidScope
  | FindingChanged | TooManyFindings | HistoryFull | HistoryTooLong | ReportTooLarge

definition row_key :: "string \<Rightarrow> string option \<Rightarrow> string \<Rightarrow> lifecycle_key" where
  "row_key provider project rule_id = (provider, unwrap_or [] project, rule_id)"

definition max_revision :: int where "max_revision = 9007199254740991"

section \<open>Rows\<close>

definition read_row ::
    "(int \<Rightarrow> timestamp option) \<Rightarrow> lifecycle_row \<Rightarrow> u32 \<Rightarrow> u32 \<Rightarrow> lifecycle_error + finding_lifecycle"
  where
  "read_row from_millis row analyzer comparison =
     (case (from_millis (lr_first_observed_ms row), from_millis (lr_last_observed_ms row)) of
        (Some first_at, Some last_at) \<Rightarrow>
          (case parse_state (lr_state row) of
             None \<Rightarrow> Inl InvalidState
           | Some st \<Rightarrow> Inr
               \<lparr>fl_first_observed_at = first_at, fl_last_observed_at = last_at, fl_state = st,
                fl_suppressed = lr_suppressed row, fl_revision = lr_revision row,
                fl_analyzer_changed =
                  (lr_analyzer_version row \<noteq> analyzer \<or> lr_comparison_version row \<noteq> comparison)\<rparr>)
      | _ \<Rightarrow> Inl InvalidTime)"

definition read_lifecycle ::
    "(int \<Rightarrow> timestamp option) \<Rightarrow> lifecycle_table \<Rightarrow> string \<Rightarrow> string option \<Rightarrow> string
     \<Rightarrow> u32 \<Rightarrow> u32 \<Rightarrow> lifecycle_error + finding_lifecycle option" where
  "read_lifecycle from_millis tbl provider project rule_id analyzer comparison =
     (case map_of tbl (row_key provider project rule_id) of
        None \<Rightarrow> Inr None
      | Some row \<Rightarrow> map_sum id Some (read_row from_millis row analyzer comparison))"

text \<open>\<open>checked_add(1)\<close> on \<open>i64\<close>, then the bound of the exactly representable numbers.\<close>

definition next_revision :: "lifecycle_row option \<Rightarrow> int option" where
  "next_revision previous =
     (let rev = (case previous of
          None \<Rightarrow> Some 1
        | Some row \<Rightarrow> if lr_revision row + 1 < 2 ^ 63 then Some (lr_revision row + 1) else None)
      in case rev of
           None \<Rightarrow> None
         | Some r \<Rightarrow> if 0 < r \<and> r \<le> max_revision then Some r else None)"

text \<open>\<open>INSERT ... ON CONFLICT DO UPDATE\<close>: an existing row keeps its first observation and its
  suppression.\<close>

definition upsert_row :: "lifecycle_key \<Rightarrow> lifecycle_row \<Rightarrow> lifecycle_table \<Rightarrow> lifecycle_table" where
  "upsert_row key row tbl =
     hm_entry key row (\<lambda>old. old\<lparr>lr_last_observed_ms := lr_last_observed_ms row,
       lr_analyzer_version := lr_analyzer_version row,
       lr_comparison_version := lr_comparison_version row,
       lr_state := lr_state row, lr_revision := lr_revision row\<rparr>) tbl"

definition versions_differ :: "observation \<Rightarrow> lifecycle_row \<Rightarrow> bool" where
  "versions_differ obs row \<longleftrightarrow>
     lr_analyzer_version row \<noteq> ob_analyzer_version obs
     \<or> lr_comparison_version row \<noteq> ob_comparison_version obs"

definition observe ::
    "(int \<Rightarrow> timestamp option) \<Rightarrow> lifecycle_table \<Rightarrow> observation
     \<Rightarrow> lifecycle_error + lifecycle_table \<times> finding_lifecycle" where
  "observe from_millis tbl obs =
     (let key = row_key (ob_provider obs) (ob_project obs) (ob_rule obs);
          previous = map_of tbl key;
          measured = ob_measured_at_ms obs
      in if (case previous of None \<Rightarrow> False | Some row \<Rightarrow> measured < lr_last_observed_ms row)
         then Inl NewerMeasurement
         else
           let first = (case previous of None \<Rightarrow> measured | Some row \<Rightarrow> lr_first_observed_ms row);
               changed = (case previous of None \<Rightarrow> False | Some row \<Rightarrow> versions_differ obs row);
               suppressed = (case previous of None \<Rightarrow> False | Some row \<Rightarrow> lr_suppressed row)
           in case next_revision previous of
                None \<Rightarrow> Inl RevisionExhausted
              | Some revision \<Rightarrow>
                  let state = (if suppressed then Suppressed else if changed then NotApplicable
                               else ob_state obs);
                      tbl = upsert_row key
                        \<lparr>lr_first_observed_ms = first, lr_last_observed_ms = measured,
                         lr_analyzer_version = ob_analyzer_version obs,
                         lr_comparison_version = ob_comparison_version obs,
                         lr_state = state_text state, lr_suppressed = suppressed,
                         lr_revision = revision\<rparr> tbl
                  in case (from_millis first, from_millis measured) of
                       (Some first_at, Some last_at) \<Rightarrow>
                         Inr (tbl, \<lparr>fl_first_observed_at = first_at, fl_last_observed_at = last_at,
                           fl_state = state, fl_suppressed = suppressed, fl_revision = revision,
                           fl_analyzer_changed = changed\<rparr>)
                     | _ \<Rightarrow> Inl InvalidTime)"

definition edit_scope_valid :: "suppression_edit \<Rightarrow> bool" where
  "edit_scope_valid e \<longleftrightarrow>
     \<not> (se_provider e = [] \<or> se_expected_revision e < 1 \<or> max_revision \<le> se_expected_revision e
        \<or> 64 < length (se_provider e) \<or> se_rule_id e = [] \<or> 128 < length (se_rule_id e)
        \<or> (case se_project_id e of None \<Rightarrow> False | Some v \<Rightarrow> v = [] \<or> 1024 < length v))"

definition suppress_row :: "bool \<Rightarrow> lifecycle_row \<Rightarrow> lifecycle_row" where
  "suppress_row suppressed row =
     row\<lparr>lr_suppressed := suppressed,
         lr_state := (if suppressed then ''suppressed'' else ''not_applicable''),
         lr_revision := lr_revision row + 1\<rparr>"

definition edit_key :: "suppression_edit \<Rightarrow> lifecycle_key" where
  "edit_key e = row_key (se_provider e) (se_project_id e) (se_rule_id e)"

definition suppress :: "lifecycle_table \<Rightarrow> suppression_edit \<Rightarrow> lifecycle_error + lifecycle_table" where
  "suppress tbl e =
     (if \<not> edit_scope_valid e then Inl InvalidScope
      else
        let hit = (\<lambda>(k, row). k = edit_key e \<and> lr_revision row = se_expected_revision e) in
        if length (filter hit tbl) \<noteq> 1 then Inl FindingChanged
        else Inr (map (\<lambda>(k, row).
               if hit (k, row) then (k, suppress_row (se_suppressed e) row) else (k, row)) tbl))"

definition invalidate_row :: "u32 \<Rightarrow> u32 \<Rightarrow> lifecycle_row \<Rightarrow> lifecycle_row" where
  "invalidate_row analyzer comparison row =
     (if (lr_analyzer_version row \<noteq> analyzer \<or> lr_comparison_version row \<noteq> comparison)
         \<and> lr_state row \<notin> {''not_applicable'', ''suppressed''}
      then row\<lparr>lr_state := (if lr_suppressed row then ''suppressed'' else ''not_applicable''),
               lr_revision := lr_revision row + 1\<rparr>
      else row)"

definition invalidate_older_analyzers :: "u32 \<Rightarrow> u32 \<Rightarrow> lifecycle_table \<Rightarrow> lifecycle_table" where
  "invalidate_older_analyzers analyzer comparison tbl =
     map (\<lambda>(k, row). (k, invalidate_row analyzer comparison row)) tbl"

section \<open>Transactions\<close>

text \<open>A finding of a report: its scope and the state its comparison shows.\<close>

record workflow_finding =
  wf_provider :: string
  wf_project_id :: "string option"
  wf_rule_id :: string
  wf_state :: finding_state
  wf_comparable :: bool
  wf_lifecycle :: "finding_lifecycle option"

definition finding_row_key :: "workflow_finding \<Rightarrow> lifecycle_key" where
  "finding_row_key f = row_key (wf_provider f) (wf_project_id f) (wf_rule_id f)"

text \<open>How reading the table changes the state a finding shows, and how recording does.\<close>

definition loaded_finding :: "finding_lifecycle option \<Rightarrow> workflow_finding \<Rightarrow> workflow_finding" where
  "loaded_finding lifecycle f =
     (let f = (case lifecycle of
          None \<Rightarrow> f
        | Some l \<Rightarrow>
            if fl_suppressed l then f\<lparr>wf_state := Suppressed\<rparr>
            else if fl_analyzer_changed l then f\<lparr>wf_state := NotApplicable, wf_comparable := False\<rparr>
            else f)
      in f\<lparr>wf_lifecycle := lifecycle\<rparr>)"

definition recorded_finding :: "finding_lifecycle \<Rightarrow> workflow_finding \<Rightarrow> workflow_finding" where
  "recorded_finding l f =
     (let f = (if fl_analyzer_changed l then f\<lparr>wf_state := NotApplicable, wf_comparable := False\<rparr>
               else if fl_suppressed l then f\<lparr>wf_state := Suppressed\<rparr>
               else f)
      in f\<lparr>wf_lifecycle := Some l\<rparr>)"

fun record_findings ::
    "(int \<Rightarrow> timestamp option) \<Rightarrow> int \<Rightarrow> u32 \<Rightarrow> u32 \<Rightarrow> workflow_finding list \<Rightarrow> lifecycle_table
     \<Rightarrow> lifecycle_error + lifecycle_table \<times> workflow_finding list" where
  "record_findings from_millis generated_ms analyzer version [] tbl = Inr (tbl, [])"
| "record_findings from_millis generated_ms analyzer version (f # fs) tbl =
    (case observe from_millis tbl
        \<lparr>ob_provider = wf_provider f, ob_project = wf_project_id f, ob_rule = wf_rule_id f,
         ob_measured_at_ms = generated_ms, ob_analyzer_version = analyzer,
         ob_comparison_version = version, ob_state = wf_state f\<rparr> of
       Inl e \<Rightarrow> Inl e
     | Inr (tbl, l) \<Rightarrow>
         (case record_findings from_millis generated_ms analyzer version fs tbl of
            Inl e \<Rightarrow> Inl e
          | Inr (tbl, done_fs) \<Rightarrow> Inr (tbl, recorded_finding l f # done_fs)))"

definition record_workflow_measurement ::
    "(int \<Rightarrow> timestamp option) \<Rightarrow> (workflow_finding list \<Rightarrow> bool) \<Rightarrow> int \<Rightarrow> u32 \<Rightarrow> u32
     \<Rightarrow> workflow_finding list \<Rightarrow> lifecycle_table
     \<Rightarrow> lifecycle_error + lifecycle_table \<times> workflow_finding list" where
  "record_workflow_measurement from_millis fits generated_ms analyzer version fs tbl =
     (if 1000 < length fs then Inl TooManyFindings
      else
        let new = length (filter (\<lambda>f. map_of tbl (finding_row_key f) = None) fs) in
        if 1000 < length tbl + new then Inl HistoryFull
        else
          case record_findings from_millis generated_ms analyzer version fs
            (invalidate_older_analyzers analyzer version tbl) of
            Inl e \<Rightarrow> Inl e
          | Inr (tbl, fs) \<Rightarrow> if \<not> fits fs then Inl ReportTooLarge else Inr (tbl, fs))"

fun load_findings ::
    "(int \<Rightarrow> timestamp option) \<Rightarrow> u32 \<Rightarrow> u32 \<Rightarrow> lifecycle_table \<Rightarrow> workflow_finding list
     \<Rightarrow> lifecycle_error + workflow_finding list" where
  "load_findings from_millis analyzer version tbl [] = Inr []"
| "load_findings from_millis analyzer version tbl (f # fs) =
    (case read_lifecycle from_millis tbl (wf_provider f) (wf_project_id f) (wf_rule_id f)
        analyzer version of
       Inl e \<Rightarrow> Inl e
     | Inr l \<Rightarrow>
         (case load_findings from_millis analyzer version tbl fs of
            Inl e \<Rightarrow> Inl e | Inr done_fs \<Rightarrow> Inr (loaded_finding l f # done_fs)))"

text \<open>Rows of findings that the current report does not have, newest first, at most 1000.\<close>

definition history_order :: "lifecycle_table \<Rightarrow> lifecycle_table" where
  "history_order tbl =
     sort_key (\<lambda>(_, row). - lr_last_observed_ms row)
       (sort_key (\<lambda>((provider, _, _), _). provider)
         (sort_key (\<lambda>((_, project, _), _). project)
           (sort_key (\<lambda>((_, _, rule_id), _). rule_id) tbl)))"

definition key_identity :: "lifecycle_key \<Rightarrow> string" where
  "key_identity key = (case key of (provider, project, rule_id) \<Rightarrow> finding_identity provider project rule_id)"

fun load_history ::
    "(int \<Rightarrow> timestamp option) \<Rightarrow> u32 \<Rightarrow> u32 \<Rightarrow> string set \<Rightarrow> nat \<Rightarrow> lifecycle_table
     \<Rightarrow> lifecycle_error + (lifecycle_key \<times> finding_lifecycle) list" where
  "load_history from_millis analyzer version current left [] = Inr []"
| "load_history from_millis analyzer version current 0 (kr # rows) = Inl HistoryTooLong"
| "load_history from_millis analyzer version current (Suc left) ((key, row) # rows) =
    (if key_identity key \<in> current
     then load_history from_millis analyzer version current left rows
     else case read_row from_millis row analyzer version of
         Inl e \<Rightarrow> Inl e
       | Inr l \<Rightarrow>
           (case load_history from_millis analyzer version current left rows of
              Inl e \<Rightarrow> Inl e
            | Inr done_rows \<Rightarrow>
                Inr ((key, if fl_suppressed l then l else l\<lparr>fl_state := NotApplicable\<rparr>) # done_rows)))"

definition load_workflow_lifecycle ::
    "(int \<Rightarrow> timestamp option) \<Rightarrow> u32 \<Rightarrow> u32 \<Rightarrow> lifecycle_table \<Rightarrow> workflow_finding list
     \<Rightarrow> lifecycle_error + workflow_finding list \<times> (lifecycle_key \<times> finding_lifecycle) list" where
  "load_workflow_lifecycle from_millis analyzer version tbl fs =
     (case load_findings from_millis analyzer version tbl fs of
        Inl e \<Rightarrow> Inl e
      | Inr done_fs \<Rightarrow>
          map_sum id (Pair done_fs)
            (load_history from_millis analyzer version (key_identity ` finding_row_key ` set fs) 1000
              (history_order tbl)))"

section \<open>Lookups after an operation\<close>

lemma parse_state_text [simp]: "parse_state (state_text st) = Some st"
  by (cases st) (simp_all add: parse_state_def all_states_def state_text_def)

lemma map_of_map_keyed:
  "map_of (map (\<lambda>(k, r). (k, g k r)) tbl) key = map_option (g key) (map_of tbl key)"
  by (induction tbl) auto

lemma upsert_lookup:
  assumes "hm_inv tbl"
  shows "map_of (upsert_row key row tbl) = (map_of tbl)(key \<mapsto>
    (case map_of tbl key of None \<Rightarrow> row
     | Some old \<Rightarrow> row\<lparr>lr_first_observed_ms := lr_first_observed_ms old,
         lr_suppressed := lr_suppressed old\<rparr>))"
  unfolding upsert_row_def hm.entry_lookup[OF assms] by (auto split: option.splits)

lemma upsert_inv: "hm_inv tbl \<Longrightarrow> hm_inv (upsert_row key row tbl)"
  unfolding upsert_row_def by (rule hm.entry_invar)

lemma upsert_length:
  "length (upsert_row key row tbl) = length tbl + (if map_of tbl key = None then 1 else 0)"
proof -
  have "length (hm_entry key d g m) = length m + (if map_of m key = None then 1 else 0)"
    for d g and m :: lifecycle_table
    by (induction key d g m rule: hm_entry.induct) auto
  then show ?thesis by (simp add: upsert_row_def)
qed

lemma invalidate_lookup:
  "map_of (invalidate_older_analyzers a c tbl) key = map_option (invalidate_row a c) (map_of tbl key)"
  by (simp add: invalidate_older_analyzers_def map_of_map_keyed)

lemma invalidate_inv: "hm_inv (invalidate_older_analyzers a c tbl) = hm_inv tbl"
  by (simp add: hm_inv_def invalidate_older_analyzers_def comp_def case_prod_beta)

lemma filter_key:
  "distinct (map fst tbl) \<Longrightarrow> filter (\<lambda>(k, r). k = key \<and> P r) tbl =
    (case map_of tbl key of None \<Rightarrow> [] | Some r \<Rightarrow> if P r then [(key, r)] else [])"
proof (induction tbl)
  case (Cons kr tbl)
  obtain k r where kr: "kr = (k, r)" by (cases kr)
  have "filter (\<lambda>(k, r). k = key \<and> P r) tbl = []" if "key \<notin> fst ` set tbl"
    using that by (force simp: filter_empty_conv)
  with Cons show ?case by (cases "k = key") (simp_all add: kr)
qed simp

lemma suppress_Inr:
  assumes "hm_inv tbl"
  shows "suppress tbl e = Inr tbl' \<longleftrightarrow>
    edit_scope_valid e
    \<and> (\<exists>row. map_of tbl (edit_key e) = Some row \<and> lr_revision row = se_expected_revision e)
    \<and> tbl' = map (\<lambda>(k, row). (k, if k = edit_key e \<and> lr_revision row = se_expected_revision e
        then suppress_row (se_suppressed e) row else row)) tbl"
proof -
  let ?hit = "\<lambda>(k, row). k = edit_key e \<and> lr_revision row = se_expected_revision e"
  have "length (filter ?hit tbl) = 1 \<longleftrightarrow>
      (\<exists>row. map_of tbl (edit_key e) = Some row \<and> lr_revision row = se_expected_revision e)"
    using filter_key[of tbl "edit_key e" "\<lambda>row. lr_revision row = se_expected_revision e"]
      hm.invar_distinct[OF assms] by (cases "map_of tbl (edit_key e)") simp_all
  moreover have "map (\<lambda>(k, row).
        if ?hit (k, row) then (k, suppress_row (se_suppressed e) row) else (k, row)) tbl
      = map (\<lambda>(k, row). (k, if k = edit_key e \<and> lr_revision row = se_expected_revision e
        then suppress_row (se_suppressed e) row else row)) tbl"
    by auto
  ultimately show ?thesis unfolding suppress_def Let_def by auto
qed

lemma suppress_lookup:
  assumes "hm_inv tbl" "suppress tbl e = Inr tbl'"
  shows "\<exists>row. map_of tbl (edit_key e) = Some row \<and> lr_revision row = se_expected_revision e
    \<and> map_of tbl' = (map_of tbl)(edit_key e \<mapsto> suppress_row (se_suppressed e) row)"
proof -
  from assms obtain row where row: "map_of tbl (edit_key e) = Some row"
      "lr_revision row = se_expected_revision e"
    and tbl': "tbl' = map (\<lambda>(k, row). (k, if k = edit_key e \<and> lr_revision row = se_expected_revision e
        then suppress_row (se_suppressed e) row else row)) tbl"
    unfolding suppress_Inr[OF assms(1)] by blast
  have "map_of tbl' k = ((map_of tbl)(edit_key e \<mapsto> suppress_row (se_suppressed e) row)) k" for k
    unfolding tbl' map_of_map_keyed using row by (cases "k = edit_key e") (simp_all add: option.map_ident)
  with row show ?thesis by (simp add: fun_eq_iff)
qed

text \<open>What a successful observation writes over the previous row.\<close>

definition writes ::
    "(int \<Rightarrow> timestamp option) \<Rightarrow> lifecycle_row option \<Rightarrow> observation \<Rightarrow> finding_lifecycle
     \<Rightarrow> lifecycle_row \<Rightarrow> bool" where
  "writes from_millis previous obs l row \<longleftrightarrow>
     next_revision previous = Some (lr_revision row)
     \<and> lr_last_observed_ms row = ob_measured_at_ms obs
     \<and> lr_analyzer_version row = ob_analyzer_version obs
     \<and> lr_comparison_version row = ob_comparison_version obs
     \<and> lr_state row = state_text (fl_state l)
     \<and> (lr_suppressed row \<longrightarrow> fl_state l = Suppressed)
     \<and> (case previous of
          None \<Rightarrow> lr_first_observed_ms row = ob_measured_at_ms obs \<and> \<not> lr_suppressed row
        | Some old \<Rightarrow> lr_first_observed_ms row = lr_first_observed_ms old
            \<and> lr_suppressed row = lr_suppressed old
            \<and> lr_last_observed_ms old \<le> ob_measured_at_ms obs)
     \<and> from_millis (lr_first_observed_ms row) = Some (fl_first_observed_at l)
     \<and> from_millis (lr_last_observed_ms row) = Some (fl_last_observed_at l)
     \<and> fl_suppressed l = lr_suppressed row \<and> fl_revision l = lr_revision row"

definition observed_key :: "observation \<Rightarrow> lifecycle_key" where
  "observed_key obs = row_key (ob_provider obs) (ob_project obs) (ob_rule obs)"

lemma observe_row:
  assumes "hm_inv tbl" "observe from_millis tbl obs = Inr (tbl', l)"
  shows "\<exists>row. map_of tbl' = (map_of tbl)(observed_key obs \<mapsto> row) \<and> hm_inv tbl'
    \<and> length tbl' = length tbl + (if map_of tbl (observed_key obs) = None then 1 else 0)
    \<and> writes from_millis (map_of tbl (observed_key obs)) obs l row"
proof -
  obtain revision where rev: "next_revision (map_of tbl (observed_key obs)) = Some revision"
    using assms(2) by (auto simp: observe_def Let_def observed_key_def split: option.splits if_splits)
  show ?thesis
  proof (cases "map_of tbl (observed_key obs)")
    case None
    with assms(1,2) rev show ?thesis
      by (auto simp: observe_def Let_def upsert_lookup upsert_inv upsert_length writes_def
          observed_key_def[symmetric] split: option.splits)
  next
    case (Some old)
    with assms(1,2) rev show ?thesis
      by (auto simp: observe_def Let_def upsert_lookup upsert_inv upsert_length writes_def
          observed_key_def[symmetric] split: option.splits if_splits)
  qed
qed

section \<open>Steps and reachable tables\<close>

inductive lifecycle_step ::
    "(int \<Rightarrow> timestamp option) \<Rightarrow> lifecycle_table \<Rightarrow> lifecycle_table \<Rightarrow> bool" for from_millis where
  record_step:
    "record_workflow_measurement from_millis fits generated_ms analyzer version fs tbl = Inr (tbl', fs')
      \<Longrightarrow> lifecycle_step from_millis tbl tbl'"
| suppress_step: "suppress tbl e = Inr tbl' \<Longrightarrow> lifecycle_step from_millis tbl tbl'"

inductive reachable_table :: "(int \<Rightarrow> timestamp option) \<Rightarrow> lifecycle_table \<Rightarrow> bool"
  for from_millis where
  empty_table: "reachable_table from_millis []"
| next_table: "reachable_table from_millis tbl \<Longrightarrow> lifecycle_step from_millis tbl tbl'
    \<Longrightarrow> reachable_table from_millis tbl'"

definition row_ok :: "(int \<Rightarrow> timestamp option) \<Rightarrow> lifecycle_row \<Rightarrow> bool" where
  "row_ok from_millis row \<longleftrightarrow>
     1 \<le> lr_revision row
     \<and> (lr_revision row \<le> max_revision
        \<or> lr_revision row = max_revision + 1 \<and> lr_state row \<in> {''not_applicable'', ''suppressed''})
     \<and> lr_first_observed_ms row \<le> lr_last_observed_ms row
     \<and> from_millis (lr_first_observed_ms row) \<noteq> None
     \<and> from_millis (lr_last_observed_ms row) \<noteq> None
     \<and> parse_state (lr_state row) \<noteq> None
     \<and> (lr_suppressed row \<longrightarrow> lr_state row = ''suppressed'')"

definition rows_ok :: "(int \<Rightarrow> timestamp option) \<Rightarrow> lifecycle_table \<Rightarrow> bool" where
  "rows_ok from_millis tbl \<longleftrightarrow>
     hm_inv tbl \<and> (\<forall>key row. map_of tbl key = Some row \<longrightarrow> row_ok from_millis row)"

lemma rows_okD: "rows_ok fm tbl \<Longrightarrow> map_of tbl key = Some row \<Longrightarrow> row_ok fm row"
  unfolding rows_ok_def by blast

text \<open>A row is left alone, or its revision grows; its first observation never changes.\<close>

definition row_grows :: "lifecycle_row \<Rightarrow> lifecycle_row \<Rightarrow> bool" where
  "row_grows row row' \<longleftrightarrow>
     row' = row
     \<or> lr_revision row < lr_revision row' \<and> lr_first_observed_ms row' = lr_first_observed_ms row
       \<and> lr_last_observed_ms row \<le> lr_last_observed_ms row'"

definition table_grows :: "lifecycle_table \<Rightarrow> lifecycle_table \<Rightarrow> bool" where
  "table_grows tbl tbl' \<longleftrightarrow>
     (\<forall>key row. map_of tbl key = Some row \<longrightarrow> (\<exists>row'. map_of tbl' key = Some row' \<and> row_grows row row'))"

lemma row_grows_trans: "row_grows a b \<Longrightarrow> row_grows b c \<Longrightarrow> row_grows a c"
  by (auto simp: row_grows_def)

lemma table_grows_trans: "table_grows a b \<Longrightarrow> table_grows b c \<Longrightarrow> table_grows a c"
  unfolding table_grows_def by (meson row_grows_trans)

lemma table_grows_refl [simp]: "table_grows a a"
  by (simp add: table_grows_def row_grows_def)

lemma table_grows_upd:
  "map_of tbl' = (map_of tbl)(key \<mapsto> row') \<Longrightarrow>
    (\<And>row. map_of tbl key = Some row \<Longrightarrow> row_grows row row') \<Longrightarrow> table_grows tbl tbl'"
  by (auto simp: table_grows_def row_grows_def)

lemma rows_ok_upd:
  "rows_ok fm tbl \<Longrightarrow> hm_inv tbl' \<Longrightarrow> map_of tbl' = (map_of tbl)(key \<mapsto> row') \<Longrightarrow> row_ok fm row' \<Longrightarrow>
    rows_ok fm tbl'"
  by (auto simp: rows_ok_def)

lemma next_revision_some:
  "next_revision previous = Some n \<Longrightarrow>
    1 \<le> n \<and> n \<le> max_revision \<and> (\<forall>row. previous = Some row \<longrightarrow> n = lr_revision row + 1)"
  by (auto simp: next_revision_def Let_def split: option.splits if_splits)

lemma suppressed_text [simp]: "state_text Suppressed = ''suppressed''"
  "state_text NotApplicable = ''not_applicable''"
  by (simp_all add: state_text_def)

lemma parse_fixed [simp]:
  "parse_state ''suppressed'' = Some Suppressed" "parse_state ''not_applicable'' = Some NotApplicable"
  using parse_state_text[of Suppressed] parse_state_text[of NotApplicable] by simp_all

lemma writes_ok:
  "writes fm previous obs l row \<Longrightarrow> pred_option (row_ok fm) previous \<Longrightarrow>
    row_ok fm row \<and> pred_option (\<lambda>old. row_grows old row) previous"
  by (cases previous) (auto simp: writes_def row_ok_def row_grows_def dest!: next_revision_some)

lemma observe_step:
  assumes "rows_ok fm tbl" "observe fm tbl obs = Inr (tbl', l)"
  shows "rows_ok fm tbl' \<and> table_grows tbl tbl'
    \<and> length tbl' = length tbl + (if map_of tbl (observed_key obs) = None then 1 else 0)
    \<and> dom (map_of tbl') = insert (observed_key obs) (dom (map_of tbl))"
proof -
  from assms(1) have "hm_inv tbl" by (simp add: rows_ok_def)
  from observe_row[OF this assms(2)] obtain row where row:
    "map_of tbl' = (map_of tbl)(observed_key obs \<mapsto> row)" "hm_inv tbl'"
    "length tbl' = length tbl + (if map_of tbl (observed_key obs) = None then 1 else 0)"
    "writes fm (map_of tbl (observed_key obs)) obs l row" by blast
  have ok: "row_ok fm row \<and> pred_option (\<lambda>old. row_grows old row) (map_of tbl (observed_key obs))"
    using rows_okD[OF assms(1)]
    by (intro writes_ok[OF row(4)]) (cases "map_of tbl (observed_key obs)"; simp)
  have "rows_ok fm tbl'" using rows_ok_upd[OF assms(1) row(2,1)] ok by blast
  moreover have "table_grows tbl tbl'" using ok by (intro table_grows_upd[OF row(1)]) simp
  ultimately show ?thesis using row(1,3) by simp
qed

lemma record_findings_step:
  assumes "rows_ok fm tbl" "record_findings fm ms a v fs tbl = Inr (tbl', fs')"
  shows "rows_ok fm tbl' \<and> table_grows tbl tbl'
    \<and> length tbl' \<le> length tbl + length (filter (\<lambda>f. map_of tbl (finding_row_key f) = None) fs)"
  using assms
proof (induction fs arbitrary: tbl fs')
  case (Cons f fs)
  let ?obs = "\<lparr>ob_provider = wf_provider f, ob_project = wf_project_id f, ob_rule = wf_rule_id f,
         ob_measured_at_ms = ms, ob_analyzer_version = a, ob_comparison_version = v,
         ob_state = wf_state f\<rparr>"
  have key: "observed_key ?obs = finding_row_key f" by (simp add: observed_key_def finding_row_key_def)
  from Cons.prems(2) obtain t l rest where o: "observe fm tbl ?obs = Inr (t, l)"
    and r: "record_findings fm ms a v fs t = Inr (tbl', rest)"
    by (auto split: sum.splits prod.splits)
  note one = observe_step[OF Cons.prems(1) o, unfolded key]
  note rest = Cons.IH[OF conjunct1[OF one] r]
  have "length (filter (\<lambda>f. map_of t (finding_row_key f) = None) fs)
      \<le> length (filter (\<lambda>f. map_of tbl (finding_row_key f) = None) fs)"
  proof -
    have "map_of t k = None \<Longrightarrow> map_of tbl k = None" for k
      using one by (metis domIff insertCI)
    then show ?thesis by (induction fs) auto
  qed
  with one rest show ?case by (auto intro: table_grows_trans)
qed simp

lemma invalidate_step:
  assumes "rows_ok fm tbl"
  shows "rows_ok fm (invalidate_older_analyzers a v tbl)
    \<and> table_grows tbl (invalidate_older_analyzers a v tbl)"
proof -
  have "row_ok fm (invalidate_row a v row) \<and> row_grows row (invalidate_row a v row)"
    if "row_ok fm row" for row
    using that by (auto simp: invalidate_row_def row_ok_def row_grows_def)
  then show ?thesis
    using assms by (auto simp: rows_ok_def table_grows_def invalidate_lookup invalidate_inv)
qed

lemma suppress_step_ok:
  assumes "rows_ok fm tbl" "suppress tbl e = Inr tbl'"
  shows "rows_ok fm tbl' \<and> table_grows tbl tbl' \<and> length tbl' = length tbl"
proof -
  have inv: "hm_inv tbl" using assms(1) by (simp add: rows_ok_def)
  from suppress_lookup[OF inv assms(2)] obtain row where row:
    "map_of tbl (edit_key e) = Some row" "lr_revision row = se_expected_revision e"
    "map_of tbl' = (map_of tbl)(edit_key e \<mapsto> suppress_row (se_suppressed e) row)" by blast
  from assms(2) inv have valid: "edit_scope_valid e" by (simp add: suppress_Inr)
  have inv': "hm_inv tbl'" "length tbl' = length tbl"
    using assms(2) inv by (auto simp: suppress_Inr hm_inv_def comp_def case_prod_beta)
  have "row_ok fm row" by (rule rows_okD[OF assms(1) row(1)])
  then have "row_ok fm (suppress_row (se_suppressed e) row)"
    using valid row(2) by (auto simp: row_ok_def suppress_row_def edit_scope_valid_def)
  with rows_ok_upd[OF assms(1) inv'(1) row(3)] have "rows_ok fm tbl'" by blast
  moreover have "table_grows tbl tbl'"
    using row(1) by (intro table_grows_upd[OF row(3)]) (simp add: row_grows_def suppress_row_def)
  ultimately show ?thesis using inv' by blast
qed

lemma lifecycle_step_ok:
  assumes "lifecycle_step fm tbl tbl'" "rows_ok fm tbl" "length tbl \<le> 1000"
  shows "rows_ok fm tbl' \<and> table_grows tbl tbl' \<and> length tbl' \<le> 1000"
  using assms(1)
proof cases
  case (record_step fits ms a v fs fs')
  let ?t = "invalidate_older_analyzers a v tbl"
  from record_step have r: "record_findings fm ms a v fs ?t = Inr (tbl', fs')"
    and room: "length tbl + length (filter (\<lambda>f. map_of tbl (finding_row_key f) = None) fs) \<le> 1000"
    by (auto simp: record_workflow_measurement_def Let_def split: sum.splits if_splits)
  note inv = invalidate_step[OF assms(2), of a v]
  have "length ?t = length tbl" "map_of ?t k = None \<longleftrightarrow> map_of tbl k = None" for k
    by (simp_all add: invalidate_older_analyzers_def map_of_map_keyed)
  with record_findings_step[OF conjunct1[OF inv] r] inv room show ?thesis
    by (auto intro: table_grows_trans)
next
  case (suppress_step e)
  from suppress_step_ok[OF assms(2) this] assms(3) show ?thesis by simp
qed

lemma reachable_ok: "reachable_table fm tbl \<Longrightarrow> rows_ok fm tbl \<and> length tbl \<le> 1000"
proof (induction rule: reachable_table.induct)
  case empty_table
  then show ?case by (simp add: rows_ok_def hm.invar_empty)
qed (use lifecycle_step_ok in blast)

lemma steps_grow:
  assumes "(lifecycle_step fm)\<^sup>*\<^sup>* tbl tbl'" "reachable_table fm tbl"
  shows "reachable_table fm tbl' \<and> table_grows tbl tbl'"
  using assms(1)
proof (induction rule: rtranclp_induct)
  case base
  then show ?case using assms(2) by simp
next
  case (step y z)
  then show ?case
    using lifecycle_step_ok[OF step.hyps(2)] reachable_ok next_table table_grows_trans by blast
qed

section \<open>Properties\<close>

lemma read_row_ok:
  "row_ok fm row \<Longrightarrow> \<exists>l. read_row fm row a v = Inr l \<and> fl_revision l = lr_revision row
    \<and> fl_suppressed l = lr_suppressed row"
  by (auto simp: row_ok_def read_row_def split: option.splits)

lemma load_findings_ok:
  assumes "rows_ok fm tbl"
  shows "\<exists>fs'. load_findings fm a v tbl fs = Inr fs'"
proof (induction fs)
  case (Cons f fs)
  have "\<exists>l. read_lifecycle fm tbl (wf_provider f) (wf_project_id f) (wf_rule_id f) a v = Inr l"
  proof (cases "map_of tbl (finding_row_key f)")
    case (Some row)
    with read_row_ok[OF rows_okD[OF assms Some], of a v] show ?thesis
      by (auto simp: read_lifecycle_def finding_row_key_def)
  qed (simp add: read_lifecycle_def finding_row_key_def)
  with Cons show ?case by auto
qed simp

lemma load_history_ok:
  "list_all (\<lambda>(k, row). row_ok fm row) rows \<Longrightarrow> length rows \<le> n \<Longrightarrow>
    \<exists>hs. load_history fm a v current n rows = Inr hs"
proof (induction fm a v current n rows rule: load_history.induct)
  case (3 fm a v current n key row rows)
  then obtain l where "read_row fm row a v = Inr l"
    using read_row_ok[of fm row a v] by auto
  with 3 show ?case by (cases "key_identity key \<in> current") auto
qed auto

lemma history_order_set: "set (history_order tbl) = set tbl" "length (history_order tbl) = length tbl"
  by (simp_all add: history_order_def)

text \<open>C23: Whatever measurements and suppression edits are committed, in any order, the table stays
  sound: keys are unique, there are at most 1000 rows, every row has a positive revision at most one
  past the largest exactly representable number, an observation period that does not run backwards
  and a state that can be read, and a suppressed row is in the suppressed state. Hence loading
  the lifecycle of a report never fails: neither a time, a state nor the reader's limit of 1000
  rows is ever in the way.\<close>

theorem lifecycle_table_sound:
  assumes "reachable_table from_millis tbl"
  shows "distinct (map fst tbl) \<and> length tbl \<le> 1000
    \<and> list_all (\<lambda>(_, row). row_ok from_millis row) tbl
    \<and> (\<exists>r. load_workflow_lifecycle from_millis analyzer version tbl fs = Inr r)"
proof -
  from reachable_ok[OF assms] have ok: "rows_ok from_millis tbl" and len: "length tbl \<le> 1000" by auto
  then have d: "distinct (map fst tbl)" using hm.invar_distinct by (auto simp: rows_ok_def)
  have rows: "list_all (\<lambda>(_, row). row_ok from_millis row) tbl"
    using rows_okD[OF ok] map_of_distinct_in[OF d] unfolding list_all_iff by blast
  then have "list_all (\<lambda>(_, row). row_ok from_millis row) (history_order tbl)"
    by (simp add: list_all_iff history_order_set)
  from load_history_ok[OF this, of 1000 analyzer version "key_identity ` finding_row_key ` set fs"] len
  obtain hs where "load_history from_millis analyzer version (key_identity ` finding_row_key ` set fs) 1000
      (history_order tbl) = Inr hs"
    by (auto simp: history_order_set)
  with load_findings_ok[OF ok, of analyzer version fs]
  have "\<exists>r. load_workflow_lifecycle from_millis analyzer version tbl fs = Inr r"
    by (auto simp: load_workflow_lifecycle_def)
  with d len rows show ?thesis by blast
qed

lemma grown_same_revision:
  "row_grows row row' \<Longrightarrow> lr_revision row' = lr_revision row \<Longrightarrow> row' = row"
  by (auto simp: row_grows_def)

text \<open>C22: No suppression edit overwrites a change its author has not seen. After a lifecycle has been
  read, and any number of committed measurements and edits, an edit that carries the revision it
  read is applied exactly when the row is still the one that was read and the edit's scope is
  well formed; it then changes that row alone. In particular, of two edits made on the same reading
  at most one is applied.\<close>

theorem suppression_no_lost_update:
  assumes "reachable_table from_millis tbl"
    and "read_lifecycle from_millis tbl (se_provider e) (se_project_id e) (se_rule_id e) a v
      = Inr (Some l)"
    and "se_expected_revision e = fl_revision l"
    and "(lifecycle_step from_millis)\<^sup>*\<^sup>* tbl tbl'"
  shows "(\<exists>tbl''. suppress tbl' e = Inr tbl'') =
      (edit_scope_valid e \<and> map_of tbl' (edit_key e) = map_of tbl (edit_key e))
    \<and> (\<forall>tbl''. suppress tbl' e = Inr tbl'' \<longrightarrow>
        map_of tbl'' = (map_of tbl')(edit_key e \<mapsto>
          suppress_row (se_suppressed e) (the (map_of tbl (edit_key e)))))"
proof -
  from assms(2) obtain row where row: "map_of tbl (edit_key e) = Some row"
      "read_row from_millis row a v = Inr l"
  proof (cases "map_of tbl (edit_key e)")
    case None
    with assms(2) show thesis by (simp add: read_lifecycle_def edit_key_def)
  next
    case (Some row)
    with assms(2) that show thesis
      by (cases "read_row from_millis row a v") (simp_all add: read_lifecycle_def edit_key_def)
  qed
  then have rev: "se_expected_revision e = lr_revision row"
    using assms(3) by (auto simp: read_row_def split: option.splits)
  from steps_grow[OF assms(4,1)] obtain row' where row': "map_of tbl' (edit_key e) = Some row'"
      "row_grows row row'" and inv: "hm_inv tbl'"
    using row(1) reachable_ok unfolding table_grows_def rows_ok_def by blast
  have "(\<exists>tbl''. suppress tbl' e = Inr tbl'') \<longleftrightarrow> edit_scope_valid e \<and> row' = row"
    using row' rev grown_same_revision by (auto simp: suppress_Inr[OF inv])
  moreover have "map_of tbl'' = (map_of tbl')(edit_key e \<mapsto> suppress_row (se_suppressed e) row)"
    if "suppress tbl' e = Inr tbl''" for tbl''
    using suppress_lookup[OF inv that] row' rev grown_same_revision by auto
  ultimately show ?thesis using row row' by auto
qed

text \<open>C24: What \<open>observe\<close> reports is what is stored. After a successful observation, reading the
  finding gives the lifecycle \<open>observe\<close> returned, with \<open>analyzer_changed\<close> judged against the reader's
  versions instead; every state survives its text form; and no other row has changed.\<close>

theorem observe_then_read:
  assumes "reachable_table from_millis tbl" and "observe from_millis tbl obs = Inr (tbl', l)"
  shows "read_lifecycle from_millis tbl' (ob_provider obs) (ob_project obs) (ob_rule obs) a v
      = Inr (Some (l\<lparr>fl_analyzer_changed :=
          (ob_analyzer_version obs \<noteq> a \<or> ob_comparison_version obs \<noteq> v)\<rparr>))
    \<and> map_of tbl' |` (- {row_key (ob_provider obs) (ob_project obs) (ob_rule obs)})
      = map_of tbl |` (- {row_key (ob_provider obs) (ob_project obs) (ob_rule obs)})"
proof -
  from reachable_ok[OF assms(1)] have "hm_inv tbl" by (simp add: rows_ok_def)
  from observe_row[OF this assms(2)] obtain row where
    t: "map_of tbl' = (map_of tbl)(observed_key obs \<mapsto> row)"
    and w: "writes from_millis (map_of tbl (observed_key obs)) obs l row" by blast
  from w have "read_row from_millis row a v = Inr (l\<lparr>fl_analyzer_changed :=
      (ob_analyzer_version obs \<noteq> a \<or> ob_comparison_version obs \<noteq> v)\<rparr>)"
    by (auto simp: writes_def read_row_def)
  with t show ?thesis
    by (auto simp: read_lifecycle_def observed_key_def)
qed

text \<open>A suppressed finding measured by a new analyzer is shown as suppressed when the report is loaded
  and as not applicable when the same measurement is recorded: the two transactions test the
  conditions in opposite orders.\<close>

lemma suppressed_shown:
  assumes "fl_suppressed l"
  shows "wf_state (loaded_finding (Some l) f) = Suppressed"
    and "wf_state (recorded_finding l f) = (if fl_analyzer_changed l then NotApplicable else Suppressed)"
  using assms by (simp_all add: loaded_finding_def recorded_finding_def Let_def)

section \<open>Witnesses\<close>

definition sample_finding :: workflow_finding where
  "sample_finding =
     \<lparr>wf_provider = ''codex'', wf_project_id = Some ''p'', wf_rule_id = ''repeated-read'',
      wf_state = NewFinding, wf_comparable = True, wf_lifecycle = None\<rparr>"

definition sample_table :: lifecycle_table where
  "sample_table =
     [((''codex'', ''p'', ''repeated-read''),
       \<lparr>lr_first_observed_ms = 1000, lr_last_observed_ms = 1000, lr_analyzer_version = 3,
        lr_comparison_version = 1, lr_state = ''new'', lr_suppressed = False, lr_revision = 1\<rparr>)]"

lemma sample_recorded:
  "\<exists>fs. record_workflow_measurement Some (\<lambda>_. True) 1000 3 1 [sample_finding] [] = Inr (sample_table, fs)"
  by (rule exI[of _ "[sample_finding\<lparr>wf_lifecycle := Some
      \<lparr>fl_first_observed_at = 1000, fl_last_observed_at = 1000, fl_state = NewFinding,
       fl_suppressed = False, fl_revision = 1, fl_analyzer_changed = False\<rparr>\<rparr>]"]) code_simp

lemma sample_reachable: "reachable_table Some sample_table"
  using sample_recorded empty_table next_table record_step by blast

lemma lifecycle_table_sound_witness:
  "\<exists>r. load_workflow_lifecycle Some 3 1 sample_table [sample_finding] = Inr r"
  using lifecycle_table_sound[OF sample_reachable] by blast

definition sample_edit :: suppression_edit where
  "sample_edit =
     \<lparr>se_provider = ''codex'', se_project_id = Some ''p'', se_rule_id = ''repeated-read'',
      se_expected_revision = 1, se_suppressed = True\<rparr>"

lemma suppression_no_lost_update_witness:
  "\<exists>tbl. suppress sample_table sample_edit = Inr tbl"
proof -
  have "read_lifecycle Some sample_table (se_provider sample_edit) (se_project_id sample_edit)
      (se_rule_id sample_edit) 3 1
    = Inr (Some \<lparr>fl_first_observed_at = 1000, fl_last_observed_at = 1000, fl_state = NewFinding,
       fl_suppressed = False, fl_revision = 1, fl_analyzer_changed = False\<rparr>)"
    by code_simp
  moreover have "edit_scope_valid sample_edit" by code_simp
  ultimately show ?thesis
    using suppression_no_lost_update[OF sample_reachable _ _ rtranclp.rtrancl_refl,
        of sample_edit 3 1]
    by (simp add: sample_edit_def)
qed

definition sample_measurement :: observation where
  "sample_measurement =
     \<lparr>ob_provider = ''codex'', ob_project = Some ''p'', ob_rule = ''repeated-read'',
      ob_measured_at_ms = 2000, ob_analyzer_version = 4, ob_comparison_version = 1,
      ob_state = Resolved\<rparr>"

lemma observe_then_read_witness:
  "\<exists>tbl l. observe Some sample_table sample_measurement = Inr (tbl, l)
    \<and> read_lifecycle Some tbl ''codex'' (Some ''p'') ''repeated-read'' 4 1
      = Inr (Some (l\<lparr>fl_analyzer_changed := False\<rparr>))"
proof -
  have "case observe Some sample_table sample_measurement of Inl _ \<Rightarrow> False | Inr _ \<Rightarrow> True"
    by code_simp
  then obtain tbl l where "observe Some sample_table sample_measurement = Inr (tbl, l)"
    by (auto split: sum.splits)
  with observe_then_read[OF sample_reachable this, of 4 1] show ?thesis
    by (auto simp: sample_measurement_def)
qed

end
