(* ===== verification/Attention.thy ===== *)
theory Attention
  imports Provider_Sources Range_Totals Stable_Hash
begin

text \<open>
  \<open>src-tauri/src/attention.rs\<close>: observations and alerts about sessions that may need attention.
  Every running process holds a service in memory; the processes share one store file, which a
  publication reads, checks and rewrites under a lock. The file is \<open>NoFile\<close>, a store, or
  \<open>BadFile\<close> (unreadable, too large or not a store). Taking the lock and writing the file may fail;
  the flags \<open>io_locks\<close> and \<open>io_writes\<close> say whether they succeed (a write fails when the encoded store
  is too large). Writing is atomic. How times are printed and which times \<open>chrono\<close> can represent are
  arguments.
\<close>

section \<open>Data\<close>

datatype event_kind =
  TurnStarted | InputRequested | ToolCompleted | ToolFailed | TurnCompleted | TurnInterrupted

definition event_rank :: "event_kind \<Rightarrow> nat" where
  "event_rank k =
     (case k of TurnStarted \<Rightarrow> 0 | InputRequested \<Rightarrow> 1 | ToolCompleted \<Rightarrow> 2 | ToolFailed \<Rightarrow> 3
      | TurnCompleted \<Rightarrow> 4 | TurnInterrupted \<Rightarrow> 5)"

lemma event_rank_inj: "event_rank a = event_rank b \<longleftrightarrow> a = b"
  by (cases a; cases b) (simp_all add: event_rank_def)

instantiation event_kind :: linorder
begin

definition "a \<le> b \<longleftrightarrow> event_rank a \<le> event_rank b" for a b :: event_kind

definition "a < b \<longleftrightarrow> event_rank a < event_rank b" for a b :: event_kind

instance
  by standard (auto simp: less_eq_event_kind_def less_event_kind_def event_rank_inj)

end

definition event_name :: "event_kind \<Rightarrow> string" where
  "event_name k =
     (case k of TurnStarted \<Rightarrow> ''TurnStarted'' | InputRequested \<Rightarrow> ''InputRequested''
      | ToolCompleted \<Rightarrow> ''ToolCompleted'' | ToolFailed \<Rightarrow> ''ToolFailed''
      | TurnCompleted \<Rightarrow> ''TurnCompleted'' | TurnInterrupted \<Rightarrow> ''TurnInterrupted'')"

record attention_preferences =
  pf_revision :: u64
  pf_categories :: "event_kind list"
  pf_providers :: "provider_id list"
  pf_tool_kind :: "tool_kind option"
  pf_stale_after_seconds :: u32

definition default_preferences :: attention_preferences where
  "default_preferences =
     \<lparr>pf_revision = 0, pf_categories = [], pf_providers = [], pf_tool_kind = None,
      pf_stale_after_seconds = 300\<rparr>"

record attention_store =
  st_version :: u32
  st_preferences :: attention_preferences
  st_seen :: "string list"
  st_watermarks :: "(string \<times> timestamp) list"
  st_last_alert :: "timestamp option"

definition default_store :: attention_store where
  "default_store =
     \<lparr>st_version = 1, st_preferences = default_preferences, st_seen = [], st_watermarks = [],
      st_last_alert = None\<rparr>"

datatype attention_state = Working | Waiting | Idle | ErrorState | UnknownState

record attention_observation =
  ao_session_ref :: string
  ao_provider :: provider_id
  ao_state :: attention_state
  ao_observed_state :: attention_state
  ao_observed_at :: timestamp
  ao_source :: string
  ao_stale :: bool
  ao_partial :: bool

record alert =
  al_id :: string
  al_session_ref :: string
  al_provider_label :: string
  al_category :: event_kind
  al_observed_at :: timestamp
  al_source :: string

record attention_snapshot =
  sn_preferences :: attention_preferences
  sn_available :: bool
  sn_observations :: "attention_observation list"
  sn_alerts :: "alert list"

record signal =
  sg_id :: string
  sg_at :: timestamp
  sg_category :: event_kind
  sg_state :: attention_state
  sg_source :: string
  sg_tool_kind :: "tool_kind option"

record attention_inner =
  in_store :: attention_store
  in_available :: bool
  in_armed_at :: timestamp
  in_observations :: "(string \<times> attention_observation) list"
  in_alerts :: "alert list"

datatype attention_error = StoreUnavailable | InvalidPreferences | PreferencesChanged

datatype store_file = NoFile | StoreFile attention_store | BadFile

record attention_io =
  io_locks :: bool
  io_writes :: bool

record attention_host =
  ah_show_time :: "timestamp \<Rightarrow> string"
  ah_in_range :: "timestamp \<Rightarrow> bool"

definition max_seen :: nat where "max_seen = 512"
definition max_sessions :: nat where "max_sessions = 100"
definition max_alerts :: nat where "max_alerts = 20"

definition second :: int where "second = 1000000000"

section \<open>The store\<close>

definition preferences_validate :: "attention_preferences \<Rightarrow> attention_error + unit" where
  "preferences_validate p =
     (if 6 < length (pf_categories p) \<or> 16 < length (pf_providers p)
         \<or> list_ex (\<lambda>v. 64 < length v \<or> find_adapter v = None) (pf_providers p)
         \<or> \<not> (30 \<le> pf_stale_after_seconds p \<and> pf_stale_after_seconds p \<le> 3600)
      then Inl InvalidPreferences else Inr ())"

definition digest :: "string \<Rightarrow> string" where
  "digest v = hex16 (fnv1a64 v)"

definition is_hexdigit :: "char \<Rightarrow> bool" where
  "is_hexdigit c \<longleftrightarrow>
     byte CHR ''0'' \<le> byte c \<and> byte c \<le> byte CHR ''9''
     \<or> byte CHR ''a'' \<le> byte c \<and> byte c \<le> byte CHR ''f''
     \<or> byte CHR ''A'' \<le> byte c \<and> byte c \<le> byte CHR ''F''"

definition load_store :: "store_file \<Rightarrow> timestamp \<Rightarrow> attention_error + attention_store" where
  "load_store file now =
     (case file of
        NoFile \<Rightarrow> Inr default_store
      | BadFile \<Rightarrow> Inl StoreUnavailable
      | StoreFile s \<Rightarrow>
          if st_version s \<noteq> 1 \<or> max_seen < length (st_seen s)
             \<or> max_sessions < length (st_watermarks s)
             \<or> list_ex (\<lambda>i. length i \<noteq> 16 \<or> \<not> list_all is_hexdigit i)
                 (st_seen s @ map fst (st_watermarks s))
          then Inl StoreUnavailable
          else case preferences_validate (st_preferences s) of
              Inl e \<Rightarrow> Inl e
            | Inr _ \<Rightarrow>
                if (case st_last_alert s of None \<Rightarrow> False | Some t \<Rightarrow> now < t)
                   \<or> list_ex (\<lambda>(_, t). now < t) (st_watermarks s)
                then Inl StoreUnavailable else Inr s)"

section \<open>Signals of a session\<close>

definition turn_signals :: "attention_host \<Rightarrow> session \<Rightarrow> turn_info \<Rightarrow> signal list" where
  "turn_signals h s t =
     (if t_status t = RolledBack
      then [\<lparr>sg_id = ''turn:'' @ t_turn_id t @ '':rollback:'' @ ah_show_time h (s_last_event_at s),
             sg_at = s_last_event_at s, sg_category = TurnInterrupted, sg_state = UnknownState,
             sg_source = ''retained rolled-back turn'', sg_tool_kind = None\<rparr>]
      else
        (case t_started_at t of
           None \<Rightarrow> []
         | Some at_t \<Rightarrow>
             [\<lparr>sg_id = ''turn:'' @ t_turn_id t @ '':started:'' @ ah_show_time h at_t, sg_at = at_t,
               sg_category = TurnStarted, sg_state = Working, sg_source = ''retained turn start'',
               sg_tool_kind = None\<rparr>])
        @ (case t_completed_at t of
             None \<Rightarrow> []
           | Some at_t \<Rightarrow>
               (case (case t_status t of
                        Completed \<Rightarrow> Some (TurnCompleted, Idle)
                      | Aborted \<Rightarrow> Some (TurnInterrupted, UnknownState)
                      | _ \<Rightarrow> None) of
                  None \<Rightarrow> []
                | Some (category, state) \<Rightarrow>
                    [\<lparr>sg_id = ''turn:'' @ t_turn_id t @ '':'' @ event_name category @ '':''
                        @ ah_show_time h at_t,
                      sg_at = at_t, sg_category = category, sg_state = state,
                      sg_source = ''retained turn completion'', sg_tool_kind = None\<rparr>])))"

definition input_tools :: "string list" where
  "input_tools = [''request_user_input'', ''functions.request_user_input'', ''AskUserQuestion'']"

definition tool_completed_at :: "attention_host \<Rightarrow> tool_observation \<Rightarrow> timestamp" where
  "tool_completed_at h tool =
     (case o_duration_ms tool of
        None \<Rightarrow> o_timestamp tool
      | Some d \<Rightarrow>
          let t = o_timestamp tool + int (unat d) * 1000000
          in if unat d < 2 ^ 63 \<and> ah_in_range h t then t else o_timestamp tool)"

definition tool_signals :: "attention_host \<Rightarrow> tool_observation \<Rightarrow> signal list" where
  "tool_signals h tool =
     (case (case o_outcome tool of
              OutFailure \<Rightarrow> Some (ToolFailed, ErrorState)
            | OutSuccess \<Rightarrow> Some (ToolCompleted, Working)
            | OutPending \<Rightarrow>
                if o_name tool \<in> set input_tools then Some (InputRequested, Waiting) else None
            | OutUnknown \<Rightarrow> None) of
        None \<Rightarrow> []
      | Some (category, state) \<Rightarrow>
          let at_t = tool_completed_at h tool
          in [\<lparr>sg_id = ''tool:'' @ o_call_id tool @ '':'' @ event_name category @ '':''
                 @ ah_show_time h at_t,
               sg_at = at_t, sg_category = category, sg_state = state,
               sg_source = ''retained tool observation'', sg_tool_kind = Some (o_kind tool)\<rparr>])"

definition signal_key :: "signal \<Rightarrow> timestamp \<times> event_kind" where
  "signal_key sg = (sg_at sg, sg_category sg)"

definition signals :: "attention_host \<Rightarrow> session \<Rightarrow> signal list" where
  "signals h s =
     sort_key signal_key
       (concat (map (turn_signals h s) (take 50 (rev (s_turns s))))
        @ concat (map (tool_signals h) (take 200 (rev (s_tool_observations s)))))"

section \<open>The service\<close>

definition service_open :: "store_file option \<Rightarrow> timestamp \<Rightarrow> attention_inner" where
  "service_open file now =
     (let loaded = (case file of None \<Rightarrow> Inr default_store | Some f \<Rightarrow> load_store f now)
      in \<lparr>in_store = (case loaded of Inl _ \<Rightarrow> default_store | Inr s \<Rightarrow> s),
          in_available = (case loaded of Inl _ \<Rightarrow> False | Inr _ \<Rightarrow> True),
          in_armed_at = now, in_observations = [], in_alerts = []\<rparr>)"

text \<open>Saving preferences. The file is \<open>None\<close> when the configuration directory is unknown.\<close>

definition save_preferences ::
    "attention_io \<Rightarrow> attention_preferences \<Rightarrow> timestamp \<Rightarrow> store_file option \<Rightarrow> attention_inner
     \<Rightarrow> attention_error + attention_preferences \<times> store_file option \<times> attention_inner" where
  "save_preferences io update now file inner =
     (case preferences_validate update of
        Inl e \<Rightarrow> Inl e
      | Inr _ \<Rightarrow>
          let update = update\<lparr>pf_categories := remdups_adj (sort (pf_categories update)),
                             pf_providers := remdups_adj (sort (pf_providers update))\<rparr>
          in case file of
               None \<Rightarrow> Inl StoreUnavailable
             | Some f \<Rightarrow>
                 if \<not> io_locks io then Inl StoreUnavailable
                 else case load_store f now of
                     Inl e \<Rightarrow> Inl e
                   | Inr s \<Rightarrow>
                       if pf_revision update \<noteq> pf_revision (st_preferences s)
                       then Inl PreferencesChanged
                       else if pf_revision update = - 1 then Inl StoreUnavailable
                       else
                         let update = update\<lparr>pf_revision := pf_revision update + 1\<rparr>;
                             s = s\<lparr>st_preferences := update\<rparr>
                         in if \<not> io_writes io then Inl StoreUnavailable
                            else Inr (update, Some (StoreFile s),
                              inner\<lparr>in_store := s, in_available := True, in_armed_at := now,
                                    in_observations := [], in_alerts := []\<rparr>))"

definition provider_label :: "provider_id \<Rightarrow> string" where
  "provider_label p =
     (if p = ''codex'' then ''Codex'' else if p = ''claude_code'' then ''Claude Code''
      else if p = ''gemini_cli'' then ''Gemini CLI'' else ''Other provider'')"

text \<open>One candidate of a batch: the store and the alert of the batch, if there is one already.\<close>

definition publish_candidate ::
    "timestamp \<Rightarrow> string \<Rightarrow> provider_id \<Rightarrow> timestamp option \<Rightarrow> signal
     \<Rightarrow> attention_store \<times> alert option \<Rightarrow> attention_store \<times> alert option" where
  "publish_candidate now storage_id provider watermark sg = (\<lambda>(s, alert).
     if (case watermark of None \<Rightarrow> False | Some w \<Rightarrow> sg_at sg \<le> w) then (s, alert)
     else
       let sid = digest (storage_id @ [CHR 0x00] @ sg_id sg) in
       if sid \<in> set (st_seen s) then (s, alert)
       else
         let s = s\<lparr>st_seen := st_seen s @ [sid],
                   st_watermarks := tm_entry (digest storage_id) (sg_at sg) (\<lambda>_. sg_at sg)
                     (st_watermarks s)\<rparr>
         in if alert = None
               \<and> (case st_last_alert s of None \<Rightarrow> True | Some t \<Rightarrow> 30 * second \<le> now - t)
            then (s\<lparr>st_last_alert := Some now\<rparr>,
                  Some \<lparr>al_id = sid, al_session_ref = digest storage_id,
                        al_provider_label = provider_label provider,
                        al_category = sg_category sg, al_observed_at = sg_at sg,
                        al_source = sg_source sg\<rparr>)
            else (s, alert))"

definition push_alert :: "alert option \<Rightarrow> alert list \<Rightarrow> alert list" where
  "push_alert a alerts =
     (case a of
        None \<Rightarrow> alerts
      | Some x \<Rightarrow>
          let alerts = alerts @ [x]
          in if max_alerts < length alerts then tl alerts else alerts)"

definition retained_watermarks :: "timestamp \<Rightarrow> attention_store \<Rightarrow> (string \<times> timestamp) list" where
  "retained_watermarks now s = filter (\<lambda>(_, t). now - t \<le> 3600 * second) (st_watermarks s)"

text \<open>What a batch does to the loaded store; nothing at all when the table of watermarks is full.\<close>

definition publish_plan ::
    "timestamp \<Rightarrow> string \<Rightarrow> provider_id \<Rightarrow> signal list \<Rightarrow> attention_store
     \<Rightarrow> (attention_store \<times> alert option) option" where
  "publish_plan now storage_id provider candidates s =
     (let s = s\<lparr>st_watermarks := retained_watermarks now s\<rparr>;
          watermark = map_of (st_watermarks s) (digest storage_id)
      in if watermark = None \<and> max_sessions \<le> length (st_watermarks s) then None
         else case fold (publish_candidate now storage_id provider watermark) candidates (s, None) of
             (s, alert) \<Rightarrow>
               Some (if max_seen < length (st_seen s)
                     then s\<lparr>st_seen := drop (length (st_seen s) - max_seen) (st_seen s)\<rparr> else s,
                     alert))"

definition publish ::
    "attention_io \<Rightarrow> string \<Rightarrow> provider_id \<Rightarrow> signal list \<Rightarrow> timestamp
     \<Rightarrow> store_file option \<Rightarrow> attention_inner
     \<Rightarrow> attention_error + store_file option \<times> attention_inner" where
  "publish io storage_id provider candidates now file inner =
     (case file of
        None \<Rightarrow> Inl StoreUnavailable
      | Some f \<Rightarrow>
          if \<not> io_locks io then Inl StoreUnavailable
          else case load_store f now of
              Inl e \<Rightarrow> Inl e
            | Inr old \<Rightarrow>
                if st_preferences old \<noteq> st_preferences (in_store inner) then Inl StoreUnavailable
                else case publish_plan now storage_id provider candidates old of
                    None \<Rightarrow> Inr (file, inner)
                  | Some (s, alert) \<Rightarrow>
                      if st_seen s \<noteq> st_seen old \<and> \<not> io_writes io then Inl StoreUnavailable
                      else Inr (if st_seen s \<noteq> st_seen old then Some (StoreFile s) else file,
                        inner\<lparr>in_store := s, in_alerts := push_alert alert (in_alerts inner)\<rparr>))"

definition stale_window :: "attention_preferences \<Rightarrow> int" where
  "stale_window p = int (unat (pf_stale_after_seconds p)) * second"

definition candidate :: "attention_inner \<Rightarrow> timestamp \<Rightarrow> signal \<Rightarrow> bool" where
  "candidate inner now sg \<longleftrightarrow>
     (let prefs = st_preferences (in_store inner) in
      in_armed_at inner \<le> sg_at sg \<and> sg_at sg \<le> now
      \<and> now - sg_at sg \<le> stale_window prefs
      \<and> sg_category sg \<in> set (pf_categories prefs)
      \<and> (sg_tool_kind sg = None \<or> pf_tool_kind prefs = None \<or> pf_tool_kind prefs = sg_tool_kind sg))"

text \<open>\<open>min_by_key\<close> returns the first of the elements with the least key.\<close>

fun min_by_key :: "('a \<Rightarrow> 'k::linorder) \<Rightarrow> 'a list \<Rightarrow> 'a option" where
  "min_by_key key [] = None"
| "min_by_key key (x # xs) = Some (fold (\<lambda>y m. if key y < key m then y else m) xs x)"

definition remember_observation ::
    "string \<Rightarrow> attention_observation \<Rightarrow> (string \<times> attention_observation) list
     \<Rightarrow> (string \<times> attention_observation) list" where
  "remember_observation storage_id ob obs =
     (let obs = (if (case map_of obs storage_id of None \<Rightarrow> True
                     | Some old \<Rightarrow> ao_observed_at old \<le> ao_observed_at ob)
                 then tm_entry storage_id ob (\<lambda>_. ob) obs else obs)
      in if max_sessions < length obs
         then (case min_by_key (ao_observed_at \<circ> snd) obs of
                 None \<Rightarrow> obs | Some (key, _) \<Rightarrow> hm_remove key obs)
         else obs)"

definition watches :: "attention_inner \<Rightarrow> session \<Rightarrow> bool" where
  "watches inner s \<longleftrightarrow>
     (let prefs = st_preferences (in_store inner) in
      in_available inner \<and> pf_categories prefs \<noteq> [] \<and> \<not> s_archived s
      \<and> s_source_availability s = AvailPresent
      \<and> (pf_providers prefs = [] \<or> s_harness s \<in> set (pf_providers prefs)))"

definition observe_session ::
    "attention_host \<Rightarrow> attention_io \<Rightarrow> session \<Rightarrow> timestamp \<Rightarrow> bool
     \<Rightarrow> store_file option \<Rightarrow> attention_inner \<Rightarrow> store_file option \<times> attention_inner" where
  "observe_session h io s now live_append file inner =
     (if \<not> watches inner s then (file, inner)
      else
        let storage_id = effective_storage_id s; sgs = signals h s in
        case max_by_key signal_key (filter (\<lambda>sg. sg_at sg \<le> now) sgs) of
          None \<Rightarrow> (file, inner)
        | Some latest \<Rightarrow>
            let ob = \<lparr>ao_session_ref = digest storage_id, ao_provider = s_harness s,
                  ao_state = sg_state latest, ao_observed_state = sg_state latest,
                  ao_observed_at = sg_at latest, ao_source = sg_source latest, ao_stale = False,
                  ao_partial = (50 < length (s_turns s) \<or> 200 < length (s_tool_observations s))\<rparr>;
                inner = inner\<lparr>in_observations :=
                  remember_observation storage_id ob (in_observations inner)\<rparr>;
                candidates = filter (candidate inner now) sgs
            in if \<not> live_append \<or> candidates = [] then (file, inner)
               else case publish io storage_id (s_harness s) candidates now file inner of
                   Inl _ \<Rightarrow> (file, inner\<lparr>in_available := False, in_alerts := []\<rparr>)
                 | Inr r \<Rightarrow> r)"

definition sync_snapshot :: "timestamp \<Rightarrow> store_file option \<Rightarrow> attention_inner \<Rightarrow> attention_inner" where
  "sync_snapshot now file inner =
     (case file of
        None \<Rightarrow> inner
      | Some f \<Rightarrow>
          (case load_store f now of
             Inr s \<Rightarrow>
               (if st_preferences s \<noteq> st_preferences (in_store inner)
                then inner\<lparr>in_observations := [], in_alerts := [], in_armed_at := now\<rparr>
                else inner)\<lparr>in_store := s\<rparr>
           | Inl _ \<Rightarrow> inner\<lparr>in_available := False, in_alerts := []\<rparr>))"

definition shown_observation ::
    "attention_inner \<Rightarrow> timestamp \<Rightarrow> attention_observation \<Rightarrow> attention_observation" where
  "shown_observation inner now ob =
     (let stale = (now < ao_observed_at ob
            \<or> stale_window (st_preferences (in_store inner)) < now - ao_observed_at ob);
          ob = ob\<lparr>ao_stale := stale\<rparr>
      in if stale \<or> \<not> in_available inner then ob\<lparr>ao_state := UnknownState\<rparr> else ob)"

definition take_snapshot ::
    "timestamp \<Rightarrow> (string \<Rightarrow> bool) \<Rightarrow> store_file option \<Rightarrow> attention_inner
     \<Rightarrow> attention_inner \<times> attention_snapshot" where
  "take_snapshot now valid file inner =
     (let inner = sync_snapshot now file inner;
          valid_refs = map (ao_session_ref \<circ> snd) (filter (\<lambda>(sid, _). valid sid) (in_observations inner));
          prefs = st_preferences (in_store inner)
      in (inner,
          \<lparr>sn_preferences = prefs, sn_available = in_available inner,
           sn_observations = map (shown_observation inner now)
             (filter (\<lambda>ob. ao_session_ref ob \<in> set valid_refs) (map snd (in_observations inner))),
           sn_alerts = (if in_available inner
             then filter (\<lambda>a. al_session_ref a \<in> set valid_refs \<and> al_observed_at a \<le> now
                \<and> now - al_observed_at a \<le> stale_window prefs) (in_alerts inner)
             else [])\<rparr>))"

section \<open>Valid stores\<close>

definition preferences_valid :: "attention_preferences \<Rightarrow> bool" where
  "preferences_valid p \<longleftrightarrow> preferences_validate p = Inr ()"

definition id_valid :: "string \<Rightarrow> bool" where
  "id_valid i \<longleftrightarrow> length i = 16 \<and> list_all is_hexdigit i"

definition store_valid :: "timestamp \<Rightarrow> attention_store \<Rightarrow> bool" where
  "store_valid now s \<longleftrightarrow>
     st_version s = 1 \<and> length (st_seen s) \<le> max_seen \<and> length (st_watermarks s) \<le> max_sessions
     \<and> list_all id_valid (st_seen s) \<and> list_all id_valid (map fst (st_watermarks s))
     \<and> preferences_valid (st_preferences s)
     \<and> pred_option (\<lambda>t. t \<le> now) (st_last_alert s)
     \<and> list_all (\<lambda>(_, t). t \<le> now) (st_watermarks s)"

lemma not_list_all: "list_ex P xs \<longleftrightarrow> \<not> list_all (\<lambda>x. \<not> P x) xs"
  by (simp add: list_ex_iff list_all_iff)

lemma id_valid_eq: "id_valid = (\<lambda>i. length i = 16 \<and> list_all is_hexdigit i)"
  by (simp add: id_valid_def fun_eq_iff)

lemma load_StoreFile: "load_store (StoreFile s) now = Inr r \<longleftrightarrow> store_valid now s \<and> r = s"
  by (cases "st_last_alert s")
    (auto simp: load_store_def store_valid_def preferences_valid_def id_valid_eq not_list_all
      case_prod_unfold not_less list.pred_map comp_def split: sum.splits)

lemma store_valid_later: "store_valid now s \<Longrightarrow> now \<le> later \<Longrightarrow> store_valid later s"
  by (cases "st_last_alert s") (auto simp: store_valid_def list_all_iff)

lemma default_store_valid: "store_valid now default_store"
  by (simp add: store_valid_def default_store_def preferences_valid_def preferences_validate_def
      default_preferences_def)

lemma stale_window_bound: "preferences_valid p \<Longrightarrow> stale_window p \<le> 3600 * second"
proof -
  assume "preferences_valid p"
  then have "pf_stale_after_seconds p \<le> 3600"
    by (auto simp: preferences_valid_def preferences_validate_def split: if_splits)
  then have "uint (pf_stale_after_seconds p) \<le> uint (3600 :: u32)"
    by (simp only: word_le_def)
  then show ?thesis
    by (simp add: stale_window_def second_def)
qed

lemma digit_hex: "d < 16 \<Longrightarrow> is_hexdigit (digit d)"
proof -
  assume "d < 16"
  then have "d \<in> {0..<16}" by simp
  moreover have "list_all (\<lambda>d. is_hexdigit (digit d)) [0..<16]" by code_simp
  ultimately show ?thesis unfolding list_all_iff by simp
qed

lemma digest_valid: "id_valid (digest v)"
proof -
  have "is_hexdigit (digit (x mod 16))" for x by (rule digit_hex) simp
  then show ?thesis
    by (simp add: id_valid_def digest_def) (auto simp: hex16_def list_all_iff)
qed

section \<open>A batch\<close>

lemma tm_set_lookup:
  "tm_inv m \<Longrightarrow> map_of (tm_entry k v (\<lambda>_. v) m) = (map_of m)(k \<mapsto> v)"
  by (simp add: tm.entry_lookup)

text \<open>The invariant of the loop over the candidates of one batch, against the store \<open>s0\<close> it began
  with and the candidates that are left.\<close>

definition batch_inv ::
    "timestamp \<Rightarrow> string \<Rightarrow> timestamp option \<Rightarrow> attention_store \<Rightarrow> signal list \<Rightarrow> signal list
     \<Rightarrow> attention_store \<times> alert option \<Rightarrow> bool" where
  "batch_inv now ref watermark s0 all left = (\<lambda>(s, al).
     st_version s = st_version s0 \<and> st_preferences s = st_preferences s0
     \<and> tm_inv (st_watermarks s)
     \<and> (\<forall>k. k \<noteq> ref \<longrightarrow> map_of (st_watermarks s) k = map_of (st_watermarks s0) k)
     \<and> (\<forall>w. map_of (st_watermarks s) ref = Some w \<longrightarrow>
          watermark = Some w \<or> w \<le> now \<and> (\<forall>c\<in>set left. w \<le> sg_at c))
     \<and> (\<forall>w0. watermark = Some w0 \<longrightarrow> (\<exists>w. map_of (st_watermarks s) ref = Some w \<and> w0 \<le> w))
     \<and> (\<forall>a. al = Some a \<longrightarrow> al_session_ref a = ref
          \<and> (\<exists>c\<in>set all. al_observed_at a = sg_at c \<and> al_category a = sg_category c)
          \<and> (\<exists>w. map_of (st_watermarks s) ref = Some w \<and> al_observed_at a \<le> w)
          \<and> (\<forall>w0. watermark = Some w0 \<longrightarrow> w0 < al_observed_at a))
     \<and> st_last_alert s = (if al = None then st_last_alert s0 else Some now)
     \<and> (al \<noteq> None \<longrightarrow> pred_option (\<lambda>t. 30 * second \<le> now - t) (st_last_alert s0))
     \<and> (s = s0 \<and> al = None \<or> st_seen s \<noteq> [] \<and> last (st_seen s) \<notin> set (st_seen s0))
     \<and> set (st_seen s0) \<subseteq> set (st_seen s)
     \<and> (list_all id_valid (st_seen s0) \<longrightarrow> list_all id_valid (st_seen s))
     \<and> fst ` set (st_watermarks s) \<subseteq> insert ref (fst ` set (st_watermarks s0)))"

lemma batch_step:
  assumes inv: "batch_inv now (digest sid) watermark s0 all (c # left) (s, al)"
    and c: "c \<in> set all" "sg_at c \<le> now" "\<forall>d\<in>set left. sg_at c \<le> sg_at d"
  shows "batch_inv now (digest sid) watermark s0 all left
    (publish_candidate now sid provider watermark c (s, al))"
proof -
  let ?ref = "digest sid" and ?id = "digest (sid @ [CHR 0x00] @ sg_id c)"
  show ?thesis
  proof (cases "(case watermark of None \<Rightarrow> False | Some w \<Rightarrow> sg_at c \<le> w) \<or> ?id \<in> set (st_seen s)")
    case True
    then have "publish_candidate now sid provider watermark c (s, al) = (s, al)"
      by (auto simp: publish_candidate_def Let_def)
    with inv show ?thesis by (auto simp: batch_inv_def)
  next
    case False
    let ?s = "s\<lparr>st_seen := st_seen s @ [?id],
        st_watermarks := tm_entry ?ref (sg_at c) (\<lambda>_. sg_at c) (st_watermarks s)\<rparr>"
    from inv have tm: "tm_inv (st_watermarks s)" by (simp add: batch_inv_def)
    have wm: "map_of (st_watermarks ?s) = (map_of (st_watermarks s))(?ref \<mapsto> sg_at c)"
      by (simp add: tm_set_lookup[OF tm])
    have above: "w \<le> sg_at c" if "map_of (st_watermarks s) ?ref = Some w" for w
      using inv that False by (fastforce simp: batch_inv_def)
    have new: "?id \<notin> set (st_seen s0)" using inv False by (auto simp: batch_inv_def)
    have tm': "tm_inv (st_watermarks ?s)" using tm by (simp add: tm.entry_invar)
    have keys: "fst ` set (st_watermarks ?s) = insert ?ref (fst ` set (st_watermarks s))"
      by (simp add: tm_entry_keys)
    have grow: "fst ` set (st_watermarks ?s) \<subseteq> insert ?ref (fst ` set (st_watermarks s0))"
      using inv unfolding keys batch_inv_def by blast
    have over: "w0 < sg_at c" if "watermark = Some w0" for w0
      using False that by simp
    have base: "st_version ?s = st_version s0 \<and> st_preferences ?s = st_preferences s0"
      using inv by (simp add: batch_inv_def)
    have others: "\<forall>k. k \<noteq> ?ref \<longrightarrow> map_of (st_watermarks ?s) k = map_of (st_watermarks s0) k"
      using inv unfolding wm batch_inv_def by auto
    have seen: "st_seen ?s \<noteq> [] \<and> last (st_seen ?s) \<notin> set (st_seen s0)
        \<and> set (st_seen s0) \<subseteq> set (st_seen ?s)
        \<and> (list_all id_valid (st_seen s0) \<longrightarrow> list_all id_valid (st_seen ?s))"
      using inv new digest_valid by (auto simp: batch_inv_def)
    show ?thesis
    proof (cases "al = None \<and> pred_option (\<lambda>t. 30 * second \<le> now - t) (st_last_alert s)")
      case True
      then have none: "al = None" and rate: "pred_option (\<lambda>t. 30 * second \<le> now - t) (st_last_alert s0)"
        using inv by (auto simp: batch_inv_def)
      let ?a = "\<lparr>al_id = ?id, al_session_ref = ?ref, al_provider_label = provider_label provider,
          al_category = sg_category c, al_observed_at = sg_at c, al_source = sg_source c\<rparr>"
      have "publish_candidate now sid provider watermark c (s, al) = (?s\<lparr>st_last_alert := Some now\<rparr>, Some ?a)"
        using False True by (cases "st_last_alert s") (auto simp: publish_candidate_def Let_def)
      then show ?thesis
        using base others seen tm' grow over rate c wm
        by (auto simp: batch_inv_def intro: less_imp_le)
    next
      case unset: False
      have "publish_candidate now sid provider watermark c (s, al) = (?s, al)"
        using False unset by (cases "st_last_alert s") (auto simp: publish_candidate_def Let_def)
      moreover have "\<exists>w. map_of (st_watermarks ?s) ?ref = Some w \<and> al_observed_at a \<le> w"
        if "al = Some a" for a
        using inv that above unfolding wm batch_inv_def by fastforce
      ultimately show ?thesis
        using inv base others seen tm' grow over c wm
        by (auto simp: batch_inv_def intro: less_imp_le)
    qed
  qed
qed

lemma batch_fold:
  assumes "batch_inv now (digest sid) watermark s0 all left (s, al)"
    and "set left \<subseteq> set all" "sorted (map sg_at left)" "\<forall>c\<in>set left. sg_at c \<le> now"
  shows "batch_inv now (digest sid) watermark s0 all []
    (fold (publish_candidate now sid provider watermark) left (s, al))"
  using assms
proof (induction left arbitrary: s al)
  case (Cons c left)
  obtain s' al' where p: "publish_candidate now sid provider watermark c (s, al) = (s', al')"
    by fastforce
  have "batch_inv now (digest sid) watermark s0 all left (s', al')"
    using batch_step[OF Cons.prems(1), of provider] Cons.prems(2-) by (simp add: p)
  with Cons show ?case by (simp add: p)
qed simp

lemma retained_lookup:
  assumes "tm_inv (st_watermarks s)"
  shows "tm_inv (retained_watermarks now s)
    \<and> (map_of (retained_watermarks now s) k = Some w
        \<longleftrightarrow> map_of (st_watermarks s) k = Some w \<and> now - w \<le> 3600 * second)"
proof -
  have "sorted_wrt (<) (map fst (filter P m))" if "sorted_wrt (<) (map fst m)" for P and m :: "(string \<times> timestamp) list"
    using that by (induction m) auto
  then have inv: "tm_inv (retained_watermarks now s)"
    using assms by (simp add: tm_inv_def retained_watermarks_def)
  then show ?thesis
    using map_of_distinct_in[OF tm.invar_distinct[OF inv], of k w]
      map_of_distinct_in[OF tm.invar_distinct[OF assms], of k w]
    by (auto simp: retained_watermarks_def)
qed

text \<open>A published batch.\<close>

definition plan_sound ::
    "timestamp \<Rightarrow> string \<Rightarrow> signal list \<Rightarrow> attention_store \<Rightarrow> attention_store \<times> alert option
     \<Rightarrow> bool" where
  "plan_sound now ref cs s0 = (\<lambda>(s, al).
     store_valid now s \<and> tm_inv (st_watermarks s)
     \<and> (\<forall>k w. map_of (st_watermarks s0) k = Some w \<longrightarrow>
          3600 * second < now - w \<or> (\<exists>w'. map_of (st_watermarks s) k = Some w' \<and> w \<le> w'))
     \<and> st_last_alert s = (if al = None then st_last_alert s0 else Some now)
     \<and> (\<forall>a. al = Some a \<longrightarrow>
          st_seen s \<noteq> st_seen s0
          \<and> pred_option (\<lambda>t. 30 * second \<le> now - t) (st_last_alert s0)
          \<and> al_session_ref a = ref
          \<and> (\<exists>c\<in>set cs. al_observed_at a = sg_at c \<and> al_category a = sg_category c)
          \<and> (\<exists>w. map_of (st_watermarks s) ref = Some w \<and> al_observed_at a \<le> w)
          \<and> (\<forall>w. map_of (st_watermarks s0) ref = Some w \<longrightarrow>
                3600 * second < now - w \<or> w < al_observed_at a)))"

lemma tm_length: "tm_inv m \<Longrightarrow> length m = card (fst ` set m)"
  using tm.invar_distinct[of m] distinct_card[of "map fst m"] by simp

lemma watermarks_bounded:
  assumes "tm_inv m" "tm_inv m'" "fst ` set m' \<subseteq> insert k (fst ` set m)"
    and "length m \<le> n" "map_of m k = None \<Longrightarrow> length m < n"
  shows "length m' \<le> n"
proof -
  have "length m' \<le> card (insert k (fst ` set m))"
    unfolding tm_length[OF assms(2)] using assms(3) by (intro card_mono) auto
  also have "\<dots> \<le> n"
    using assms(4,5) by (auto simp: tm_length[OF assms(1)] card_insert_if map_of_eq_None_iff)
  finally show ?thesis .
qed

lemma last_drop_outside:
  assumes "xs \<noteq> []" "last xs \<notin> set ys" "n < length xs"
  shows "drop n xs \<noteq> ys"
  using assms last_in_set[of "drop n xs"] by (metis drop_eq_Nil last_drop not_less)

lemma plan_watermarks:
  assumes "store_valid now s0" "tm_inv (st_watermarks s0)" "tm_inv m"
    and "fst ` set m \<subseteq> insert ref (fst ` set (retained_watermarks now s0))" "id_valid ref"
    and "\<forall>k. k \<noteq> ref \<longrightarrow> map_of m k = map_of (retained_watermarks now s0) k"
    and "\<forall>w. map_of m ref = Some w \<longrightarrow> w \<le> now"
    and "map_of (retained_watermarks now s0) ref = None \<Longrightarrow>
      length (retained_watermarks now s0) < max_sessions"
  shows "length m \<le> max_sessions \<and> list_all id_valid (map fst m) \<and> list_all (\<lambda>(_, t). t \<le> now) m"
proof (intro conjI)
  have sub: "set (retained_watermarks now s0) \<subseteq> set (st_watermarks s0)"
    by (auto simp: retained_watermarks_def)
  have "length (retained_watermarks now s0) \<le> length (st_watermarks s0)"
    by (simp add: retained_watermarks_def)
  with assms(1) have len: "length (retained_watermarks now s0) \<le> max_sessions"
    by (simp add: store_valid_def)
  have inv: "tm_inv (retained_watermarks now s0)" using retained_lookup[OF assms(2)] by blast
  show "length m \<le> max_sessions"
    using watermarks_bounded[OF inv assms(3,4) len] assms(8) by blast
  have "id_valid k" if "k \<in> fst ` set (retained_watermarks now s0)" for k
    using that sub assms(1) by (auto simp: store_valid_def list_all_iff)
  then have "\<forall>k\<in>fst ` set m. id_valid k"
    using assms(4,5) by blast
  then show "list_all id_valid (map fst m)"
    by (simp add: list_all_iff)
  have "t \<le> now" if "(k, t) \<in> set m" for k t
  proof (cases "k = ref")
    case True
    with that assms(3,7) show ?thesis by (metis map_of_is_SomeI tm.invar_distinct)
  next
    case False
    with that assms(3,6) have "map_of (retained_watermarks now s0) k = Some t"
      by (metis map_of_is_SomeI tm.invar_distinct)
    with sub assms(1) show ?thesis
      by (fastforce dest: map_of_SomeD simp: store_valid_def list_all_iff)
  qed
  then show "list_all (\<lambda>(_, t). t \<le> now) m" by (auto simp: list_all_iff)
qed

lemma plan_batch:
  assumes "store_valid now s0" "tm_inv (st_watermarks s0)"
    and "publish_plan now sid provider cs s0 = Some (s, al)"
    and "sorted (map sg_at cs)" "\<forall>c\<in>set cs. sg_at c \<le> now"
  obtains s1 where
    "batch_inv now (digest sid) (map_of (retained_watermarks now s0) (digest sid))
      (s0\<lparr>st_watermarks := retained_watermarks now s0\<rparr>) cs [] (s1, al)"
    "s = (if max_seen < length (st_seen s1)
       then s1\<lparr>st_seen := drop (length (st_seen s1) - max_seen) (st_seen s1)\<rparr> else s1)"
    "map_of (retained_watermarks now s0) (digest sid) = None \<Longrightarrow>
      length (retained_watermarks now s0) < max_sessions"
proof -
  let ?s = "s0\<lparr>st_watermarks := retained_watermarks now s0\<rparr>"
  let ?m = "map_of (retained_watermarks now s0) (digest sid)"
  have "tm_inv (retained_watermarks now s0)" using retained_lookup[OF assms(2)] by blast
  then have start: "batch_inv now (digest sid) ?m ?s cs cs (?s, None)"
    by (auto simp: batch_inv_def)
  obtain s1 al1 where f: "fold (publish_candidate now sid provider ?m) cs (?s, None) = (s1, al1)"
    by fastforce
  from assms(3) have "al1 = al" and "s = (if max_seen < length (st_seen s1)
       then s1\<lparr>st_seen := drop (length (st_seen s1) - max_seen) (st_seen s1)\<rparr> else s1)"
    and "?m = None \<Longrightarrow> length (retained_watermarks now s0) < max_sessions"
    by (simp_all add: publish_plan_def Let_def f split: if_splits)
  moreover have "batch_inv now (digest sid) ?m ?s cs [] (s1, al1)"
    using batch_fold[OF start order_refl assms(4,5), of provider] unfolding f .
  ultimately show thesis using that by simp
qed

lemma publish_plan_sound:
  assumes "store_valid now s0" "tm_inv (st_watermarks s0)"
    and "publish_plan now sid provider cs s0 = Some (s, al)"
    and "sorted (map sg_at cs)" "\<forall>c\<in>set cs. sg_at c \<le> now"
  shows "plan_sound now (digest sid) cs s0 (s, al)"
proof -
  let ?r = "retained_watermarks now s0" and ?ref = "digest sid"
  from plan_batch[OF assms] obtain s1 where
    b: "batch_inv now ?ref (map_of ?r ?ref) (s0\<lparr>st_watermarks := ?r\<rparr>) cs [] (s1, al)"
    and s: "s = (if max_seen < length (st_seen s1)
       then s1\<lparr>st_seen := drop (length (st_seen s1) - max_seen) (st_seen s1)\<rparr> else s1)"
    and room: "map_of ?r ?ref = None \<Longrightarrow> length ?r < max_sessions" by blast
  have same: "st_version s = st_version s1" "st_preferences s = st_preferences s1"
      "st_watermarks s = st_watermarks s1" "st_last_alert s = st_last_alert s1"
    by (simp_all add: s)
  have keep: "map_of ?r k = Some w \<longleftrightarrow> map_of (st_watermarks s0) k = Some w \<and> now - w \<le> 3600 * second" for k w
    using retained_lookup[OF assms(2)] by blast
  have old: "w \<le> now" if "map_of (st_watermarks s0) k = Some w" for k w
    using map_of_SomeD[OF that] assms(1) by (auto simp: store_valid_def list_all_iff)
  have new: "w \<le> now" if "map_of (st_watermarks s) ?ref = Some w" for w
    using b that old keep unfolding same batch_inv_def by fastforce
  have tm: "tm_inv (st_watermarks s)" using b by (simp add: same batch_inv_def)
  have grow: "fst ` set (st_watermarks s) \<subseteq> insert ?ref (fst ` set ?r)"
    using b by (simp add: same batch_inv_def)
  have others: "\<forall>k. k \<noteq> ?ref \<longrightarrow> map_of (st_watermarks s) k = map_of ?r k"
    using b by (simp add: same batch_inv_def)
  have alert: "st_last_alert s = (if al = None then st_last_alert s0 else Some now)"
    using b by (simp add: same batch_inv_def)
  have "length (st_watermarks s) \<le> max_sessions \<and> list_all id_valid (map fst (st_watermarks s))
      \<and> list_all (\<lambda>(_, t). t \<le> now) (st_watermarks s)"
    using plan_watermarks[OF assms(1,2) tm grow digest_valid others] new room by blast
  moreover have "length (st_seen s) \<le> max_seen" by (simp add: s)
  moreover have "list_all id_valid (st_seen s1)"
    using b assms(1) by (simp add: batch_inv_def store_valid_def)
  then have "list_all id_valid (st_seen s)"
    by (auto simp: s list_all_iff dest: in_set_dropD)
  ultimately have valid: "store_valid now s"
    using assms(1) b alert by (auto simp: store_valid_def same batch_inv_def)
  have marks: "3600 * second < now - w \<or> (\<exists>w'. map_of (st_watermarks s) k = Some w' \<and> w \<le> w')"
    if "map_of (st_watermarks s0) k = Some w" for k w
  proof (cases "now - w \<le> 3600 * second")
    case True
    with that keep have r: "map_of ?r k = Some w" by blast
    show ?thesis
    proof (cases "k = ?ref")
      case True
      with r b show ?thesis unfolding same batch_inv_def by blast
    next
      case False
      with r others show ?thesis by auto
    qed
  qed simp
  have raised: "st_seen s \<noteq> st_seen s0 \<and> pred_option (\<lambda>t. 30 * second \<le> now - t) (st_last_alert s0)
      \<and> al_session_ref a = ?ref
      \<and> (\<exists>c\<in>set cs. al_observed_at a = sg_at c \<and> al_category a = sg_category c)
      \<and> (\<exists>w. map_of (st_watermarks s) ?ref = Some w \<and> al_observed_at a \<le> w)" if "al = Some a" for a
  proof -
    from b that have "st_seen s1 \<noteq> []" "last (st_seen s1) \<notin> set (st_seen s0)"
      by (auto simp: batch_inv_def)
    then have "st_seen s \<noteq> st_seen s0"
      using last_drop_outside[of "st_seen s1" "st_seen s0" "length (st_seen s1) - max_seen"] last_in_set
      by (auto simp: s max_seen_def)
    with b that show ?thesis unfolding same by (simp add: batch_inv_def)
  qed
  have later: "3600 * second < now - w \<or> w < al_observed_at a"
    if "al = Some a" "map_of (st_watermarks s0) ?ref = Some w" for a w
    using b that keep[of ?ref w] by (auto simp: batch_inv_def)
  show ?thesis
    unfolding plan_sound_def using valid tm marks alert raised later by blast
qed

end
