(* ===== verification/Attention_Runs.thy ===== *)
theory Attention_Runs
  imports Attention
begin

text \<open>
  Several processes of \<open>src-tauri/src/attention.rs\<close> sharing one store file. A world holds the file, the
  services that are open, the time of the last step and the alerts raised so far, newest first. In
  each step some process opens a service, observes a session, saves preferences or takes a
  snapshot, at a time that is not before the previous step; taking the lock and writing may fail in
  every step.
\<close>

section \<open>Runs\<close>

text \<open>The alert an observation raises, if any.\<close>

definition raised_alert ::
    "attention_host \<Rightarrow> attention_io \<Rightarrow> session \<Rightarrow> timestamp \<Rightarrow> bool
     \<Rightarrow> store_file option \<Rightarrow> attention_inner \<Rightarrow> alert option" where
  "raised_alert h io s now live_append file inner =
     (let sid = effective_storage_id s; cs = filter (candidate inner now) (signals h s) in
      if \<not> watches inner s \<or> \<not> live_append \<or> cs = [] then None
      else case publish io sid (s_harness s) cs now file inner of
          Inl _ \<Rightarrow> None
        | Inr _ \<Rightarrow>
            (case load_store (the file) now of
               Inl _ \<Rightarrow> None
             | Inr old \<Rightarrow>
                 (case publish_plan now sid (s_harness s) cs old of
                    None \<Rightarrow> None
                  | Some (_, al) \<Rightarrow> al)))"

record attention_world =
  aw_file :: store_file
  aw_services :: "nat \<Rightarrow> attention_inner option"
  aw_clock :: timestamp
  aw_log :: "(timestamp \<times> alert) list"

definition log_alert :: "timestamp \<Rightarrow> alert option \<Rightarrow> (timestamp \<times> alert) list \<Rightarrow> (timestamp \<times> alert) list" where
  "log_alert now al log = (case al of None \<Rightarrow> log | Some a \<Rightarrow> (now, a) # log)"

inductive attention_reachable :: "attention_host \<Rightarrow> attention_world \<Rightarrow> bool" for h where
  start: "attention_reachable h
    \<lparr>aw_file = NoFile, aw_services = (\<lambda>_. None), aw_clock = now, aw_log = []\<rparr>"
| opened: "attention_reachable h w \<Longrightarrow> aw_clock w \<le> now \<Longrightarrow>
    attention_reachable h (w\<lparr>aw_clock := now,
      aw_services := (aw_services w)(p \<mapsto> service_open (Some (aw_file w)) now)\<rparr>)"
| observed: "attention_reachable h w \<Longrightarrow> aw_clock w \<le> now \<Longrightarrow> aw_services w p = Some inner \<Longrightarrow>
    observe_session h io s now live (Some (aw_file w)) inner = (Some file', inner') \<Longrightarrow>
    attention_reachable h (w\<lparr>aw_clock := now, aw_file := file',
      aw_services := (aw_services w)(p \<mapsto> inner'),
      aw_log := log_alert now (raised_alert h io s now live (Some (aw_file w)) inner) (aw_log w)\<rparr>)"
| saved: "attention_reachable h w \<Longrightarrow> aw_clock w \<le> now \<Longrightarrow> aw_services w p = Some inner \<Longrightarrow>
    save_preferences io update now (Some (aw_file w)) inner = Inr (prefs, Some file', inner') \<Longrightarrow>
    attention_reachable h (w\<lparr>aw_clock := now, aw_file := file',
      aw_services := (aw_services w)(p \<mapsto> inner')\<rparr>)"
| snapshot: "attention_reachable h w \<Longrightarrow> aw_clock w \<le> now \<Longrightarrow> aw_services w p = Some inner \<Longrightarrow>
    take_snapshot now valid (Some (aw_file w)) inner = (inner', shown) \<Longrightarrow>
    attention_reachable h (w\<lparr>aw_clock := now, aw_services := (aw_services w)(p \<mapsto> inner')\<rparr>)"

section \<open>The invariant\<close>

definition spaced :: "timestamp \<times> alert \<Rightarrow> timestamp \<times> alert \<Rightarrow> bool" where
  "spaced newer older \<longleftrightarrow>
     fst older + 30 * second \<le> fst newer
     \<and> (al_session_ref (snd newer) = al_session_ref (snd older) \<longrightarrow>
          al_observed_at (snd older) < al_observed_at (snd newer))"

definition log_matches :: "timestamp \<Rightarrow> attention_store \<Rightarrow> (timestamp \<times> alert) list \<Rightarrow> bool" where
  "log_matches now s log \<longleftrightarrow>
     tm_inv (st_watermarks s)
     \<and> (\<forall>e\<in>set log. 3600 * second < now - al_observed_at (snd e)
          \<or> (\<exists>w. map_of (st_watermarks s) (al_session_ref (snd e)) = Some w
               \<and> al_observed_at (snd e) \<le> w))
     \<and> (\<forall>e rest. log = e # rest \<longrightarrow> st_last_alert s = Some (fst e))
     \<and> sorted_wrt spaced log"

definition service_ok :: "(timestamp \<times> alert) list \<Rightarrow> attention_inner \<Rightarrow> bool" where
  "service_ok log inner \<longleftrightarrow>
     length (in_alerts inner) \<le> max_alerts \<and> length (in_observations inner) \<le> max_sessions
     \<and> tm_inv (in_observations inner) \<and> set (in_alerts inner) \<subseteq> snd ` set log"

definition attention_inv :: "attention_world \<Rightarrow> bool" where
  "attention_inv w \<longleftrightarrow>
     (\<exists>s. load_store (aw_file w) (aw_clock w) = Inr s \<and> log_matches (aw_clock w) s (aw_log w))
     \<and> (\<forall>p inner. aw_services w p = Some inner \<longrightarrow> service_ok (aw_log w) inner)"

lemma load_valid: "load_store f now = Inr s \<Longrightarrow> store_valid now s"
  by (cases f) (auto simp: load_StoreFile default_store_valid, auto simp: load_store_def default_store_valid)

lemma load_later: "load_store f now = Inr s \<Longrightarrow> now \<le> later \<Longrightarrow> load_store f later = Inr s"
  by (cases f) (auto simp: load_StoreFile store_valid_later, auto simp: load_store_def)

lemma log_matches_later: "log_matches now s log \<Longrightarrow> now \<le> later \<Longrightarrow> log_matches later s log"
  unfolding log_matches_def by fastforce

lemma log_matches_prefs: "log_matches now (s\<lparr>st_preferences := p\<rparr>) log = log_matches now s log"
  by (simp add: log_matches_def)

lemma log_newest:
  assumes "log_matches now s log" "e \<in> set log"
  shows "\<exists>t. st_last_alert s = Some t \<and> fst e \<le> t"
proof (cases log)
  case (Cons n rest)
  with assms show ?thesis
    by (auto simp: log_matches_def spaced_def second_def)
qed (use assms in simp)

lemma log_published:
  assumes "store_valid now s0" "log_matches now s0 log"
    and sound: "plan_sound now ref cs s0 (s, al)"
    and recent: "\<forall>c\<in>set cs. now - sg_at c \<le> 3600 * second"
  shows "log_matches now s (log_alert now al log)"
proof -
  have old: "3600 * second < now - al_observed_at (snd e)
      \<or> (\<exists>w. map_of (st_watermarks s) (al_session_ref (snd e)) = Some w \<and> al_observed_at (snd e) \<le> w)"
    if "e \<in> set log" for e
  proof -
    from assms(2) that consider "3600 * second < now - al_observed_at (snd e)"
      | w where "map_of (st_watermarks s0) (al_session_ref (snd e)) = Some w" "al_observed_at (snd e) \<le> w"
      unfolding log_matches_def by blast
    then show ?thesis
    proof cases
      case 2
      with sound have "3600 * second < now - w
          \<or> (\<exists>w'. map_of (st_watermarks s) (al_session_ref (snd e)) = Some w' \<and> w \<le> w')"
        unfolding plan_sound_def by blast
      with 2(2) show ?thesis by force
    qed simp
  qed
  show ?thesis
  proof (cases al)
    case None
    with assms(2) sound old show ?thesis
      by (simp add: log_matches_def log_alert_def plan_sound_def)
  next
    case (Some a)
    have "spaced (now, a) e" if e: "e \<in> set log" for e
    proof -
      from log_newest[OF assms(2) e] sound Some have "fst e + 30 * second \<le> now"
        by (auto simp: plan_sound_def)
      moreover have "al_observed_at (snd e) < al_observed_at a" if "al_session_ref a = al_session_ref (snd e)"
      proof -
        from sound Some have ref: "al_session_ref a = ref" by (simp add: plan_sound_def)
        from sound Some recent have near: "now - al_observed_at a \<le> 3600 * second"
          by (auto simp: plan_sound_def)
        from assms(2) e that ref consider "3600 * second < now - al_observed_at (snd e)"
          | w where "map_of (st_watermarks s0) ref = Some w" "al_observed_at (snd e) \<le> w"
          unfolding log_matches_def by auto
        then show ?thesis
        proof cases
          case 2
          with sound Some have "3600 * second < now - w \<or> w < al_observed_at a"
            by (simp add: plan_sound_def)
          with 2 near show ?thesis by linarith
        qed (use near in linarith)
      qed
      ultimately show ?thesis by (simp add: spaced_def)
    qed
    with assms(2) sound old Some show ?thesis
      by (auto simp: log_matches_def log_alert_def plan_sound_def)
  qed
qed

section \<open>Steps\<close>

lemma candidate_observations [simp]:
  "candidate (inner\<lparr>in_observations := obs\<rparr>) = candidate inner"
  by (simp add: candidate_def fun_eq_iff)

lemma signals_sorted: "sorted (map sg_at (filter P (signals h s)))"
proof -
  have "sorted_wrt (\<lambda>x y. sg_at x \<le> sg_at y) (signals h s)"
    unfolding signals_def
    by (rule sorted_wrt_mono_rel[OF _ sorted_sort_key[unfolded sorted_map]])
      (auto simp: signal_key_def)
  then show ?thesis
    unfolding sorted_map by (rule sorted_wrt_filter)
qed

text \<open>What an observation publishes, when it publishes anything.\<close>

lemma publish_cases:
  assumes "publish io sid provider cs now (Some f) inner = Inr (file', inner')"
  obtains (full) s0 where "load_store f now = Inr s0"
      "publish_plan now sid provider cs s0 = None" "file' = Some f" "inner' = inner"
  | (batch) s0 s al where "load_store f now = Inr s0" "st_preferences s0 = st_preferences (in_store inner)"
      "publish_plan now sid provider cs s0 = Some (s, al)"
      "file' = (if st_seen s = st_seen s0 then Some f else Some (StoreFile s))"
      "inner' = inner\<lparr>in_store := s, in_alerts := push_alert al (in_alerts inner)\<rparr>"
proof -
  from assms obtain s0 where s0: "load_store f now = Inr s0"
    and prefs: "st_preferences s0 = st_preferences (in_store inner)"
    by (auto simp: publish_def split: if_splits sum.splits)
  show thesis
  proof (cases "publish_plan now sid provider cs s0")
    case None
    with assms s0 prefs full show thesis by (simp add: publish_def split: if_splits)
  next
    case (Some sa)
    obtain s al where "sa = (s, al)" by (cases sa)
    with assms s0 prefs Some batch show thesis
      by (simp add: publish_def split: if_splits)
  qed
qed

lemma raised_published:
  assumes "watches inner s" "live" "filter (candidate inner now) (signals h s) \<noteq> []"
    and "publish io (effective_storage_id s) (s_harness s) (filter (candidate inner now) (signals h s))
      now (Some f) inner = Inr r"
    and "load_store f now = Inr s0"
  shows "raised_alert h io s now live (Some f) inner =
    (case publish_plan now (effective_storage_id s) (s_harness s)
        (filter (candidate inner now) (signals h s)) s0 of None \<Rightarrow> None | Some (_, al) \<Rightarrow> al)"
  using assms by (simp add: raised_alert_def Let_def)

lemma publish_observations:
  "publish io sid provider cs now file (inner\<lparr>in_observations := obs\<rparr>)
    = map_sum id (map_prod id (in_observations_update (\<lambda>_. obs))) (publish io sid provider cs now file inner)"
  by (auto simp: publish_def split: sum.splits option.splits)

text \<open>An observation leaves the file and the alerts alone, loses its alerts, or publishes a batch.\<close>

definition observe_outcome ::
    "attention_host \<Rightarrow> attention_io \<Rightarrow> session \<Rightarrow> timestamp \<Rightarrow> bool \<Rightarrow> store_file
     \<Rightarrow> attention_inner \<Rightarrow> store_file option \<times> attention_inner \<Rightarrow> bool" where
  "observe_outcome h io s now live f inner = (\<lambda>(file', inner').
     let sid = effective_storage_id s; cs = filter (candidate inner now) (signals h s);
         al = raised_alert h io s now live (Some f) inner in
     file' = Some f \<and> al = None \<and> in_alerts inner' \<in> {in_alerts inner, []}
     \<or> watches inner s \<and> live \<and> (\<exists>s0 s'. load_store f now = Inr s0
          \<and> st_preferences s0 = st_preferences (in_store inner)
          \<and> publish_plan now sid (s_harness s) cs s0 = Some (s', al)
          \<and> file' = (if st_seen s' = st_seen s0 then Some f else Some (StoreFile s'))
          \<and> in_alerts inner' = push_alert al (in_alerts inner)))"

lemma observe_session_outcome:
  assumes "observe_session h io s now live (Some f) inner = (file', inner')"
  shows "observe_outcome h io s now live f inner (file', inner')"
proof -
  let ?sid = "effective_storage_id s" and ?cs = "filter (candidate inner now) (signals h s)"
  let ?latest = "max_by_key signal_key (filter (\<lambda>sg. sg_at sg \<le> now) (signals h s))"
  show ?thesis
  proof (cases "watches inner s \<and> live \<and> ?cs \<noteq> []")
    case False
    then have "raised_alert h io s now live (Some f) inner = None"
      by (auto simp: raised_alert_def Let_def)
    with assms False show ?thesis
      by (auto simp: observe_session_def observe_outcome_def Let_def split: if_splits option.splits)
  next
    case True
    then have "filter (\<lambda>sg. sg_at sg \<le> now) (signals h s) \<noteq> []"
      by (auto simp: candidate_def Let_def filter_empty_conv)
    then obtain latest where l: "?latest = Some latest"
      by (cases "filter (\<lambda>sg. sg_at sg \<le> now) (signals h s)") simp_all
    show ?thesis
    proof (cases "publish io ?sid (s_harness s) ?cs now (Some f) inner")
      case (Inl e)
      then have "raised_alert h io s now live (Some f) inner = None"
        by (simp add: raised_alert_def Let_def)
      with assms True l Inl show ?thesis
        by (auto simp: observe_session_def observe_outcome_def Let_def publish_observations)
    next
      case (Inr r)
      obtain file1 inner1 where r: "r = (file1, inner1)" by (cases r)
      from assms True l Inr have out: "file' = file1" "in_alerts inner' = in_alerts inner1"
        by (auto simp: observe_session_def Let_def publish_observations r)
      have w: "watches inner s" "live" "?cs \<noteq> []" using True by simp_all
      from Inr[unfolded r] show ?thesis
      proof (cases rule: publish_cases)
        case (full s0)
        with raised_published[OF w Inr full(1)] out show ?thesis
          by (simp add: observe_outcome_def)
      next
        case (batch s0 s' al)
        with raised_published[OF w Inr batch(1)] out w show ?thesis
          by (simp add: observe_outcome_def)
      qed
    qed
  qed
qed

lemma min_by_key_in: "min_by_key key xs = Some m \<Longrightarrow> m \<in> set xs"
proof (cases xs)
  case (Cons x ys)
  have "fold (\<lambda>y m. if key y < key m then y else m) ys x \<in> insert x (set ys)"
    by (induction ys arbitrary: x) fastforce+
  with Cons show "min_by_key key xs = Some m \<Longrightarrow> m \<in> set xs" by auto
qed simp

lemma tm_remove: "tm_inv m \<Longrightarrow> tm_inv (hm_remove k m)"
  by (induction m) (auto simp: tm_inv_def hm_remove_def)

lemma tm_entry_length:
  assumes "tm_inv m"
  shows "length (tm_entry k d f m) \<le> Suc (length m)"
  by (rule watermarks_bounded[OF assms tm_entry_inv[OF assms], where k = k])
    (simp_all add: tm_entry_keys)

lemma hm_remove_shorter: "k \<in> fst ` set m \<Longrightarrow> length (hm_remove k m) < length m"
  by (auto simp: hm_remove_def intro: length_filter_less)

lemma remember_bounded:
  assumes "tm_inv obs" "length obs \<le> max_sessions"
  shows "tm_inv (remember_observation k ob obs) \<and> length (remember_observation k ob obs) \<le> max_sessions"
proof -
  let ?obs = "if (case map_of obs k of None \<Rightarrow> True | Some old \<Rightarrow> ao_observed_at old \<le> ao_observed_at ob)
      then tm_entry k ob (\<lambda>_. ob) obs else obs"
  have inv: "tm_inv ?obs" using assms(1) by (simp add: tm_entry_inv)
  have len: "length ?obs \<le> Suc max_sessions"
    using assms(2) tm_entry_length[OF assms(1), of k ob "\<lambda>_. ob"] by auto
  show ?thesis
  proof (cases "max_sessions < length ?obs")
    case False
    then show ?thesis using inv by (simp add: remember_observation_def Let_def)
  next
    case True
    then obtain e where e: "min_by_key (ao_observed_at \<circ> snd) ?obs = Some e"
      by (cases ?obs) auto
    obtain key v where kv: "e = (key, v)" by (cases e)
    from min_by_key_in[OF e] kv have "key \<in> fst ` set ?obs" by force
    from hm_remove_shorter[OF this] len have "length (hm_remove key ?obs) \<le> max_sessions" by linarith
    moreover have "remember_observation k ob obs = hm_remove key ?obs"
      using True e by (simp add: remember_observation_def kv)
    ultimately show ?thesis using tm_remove[OF inv] by simp
  qed
qed

lemma observe_observations:
  assumes "observe_session h io s now live file inner = (file', inner')"
  shows "in_observations inner' = in_observations inner
    \<or> (\<exists>k ob. in_observations inner' = remember_observation k ob (in_observations inner))"
proof (cases "in_observations inner' = in_observations inner")
  case False
  have same: "in_observations i = in_observations inner0"
    if "publish io sid provider cs now file inner0 = Inr (f, i)" for sid provider cs f i inner0
    using that by (auto simp: publish_def split: if_splits sum.splits option.splits)
  from assms False show ?thesis
    unfolding observe_session_def Let_def
    by (force dest: same split: if_splits option.splits sum.splits)
qed simp

lemma push_alert_bounded:
  assumes "length alerts \<le> max_alerts"
  shows "length (push_alert al alerts) \<le> max_alerts
    \<and> set (push_alert al alerts) \<subseteq> set alerts \<union> set_option al"
proof -
  have "set (tl (alerts @ [x])) \<subseteq> insert x (set alerts)" for x
    by (cases alerts) auto
  with assms show ?thesis
    by (auto simp: push_alert_def Let_def split: option.splits)
qed

lemma service_ok_log: "service_ok log inner \<Longrightarrow> service_ok (log_alert now al log) inner"
  by (auto simp: service_ok_def log_alert_def split: option.splits)

lemma observe_service_ok:
  assumes "observe_session h io s now live (Some f) inner = (file', inner')" "service_ok log inner"
  shows "service_ok (log_alert now (raised_alert h io s now live (Some f) inner) log) inner'"
proof -
  let ?al = "raised_alert h io s now live (Some f) inner"
  from assms(2) have len: "length (in_alerts inner) \<le> max_alerts"
    and known: "set (in_alerts inner) \<subseteq> snd ` set log" by (simp_all add: service_ok_def)
  have obs: "tm_inv (in_observations inner') \<and> length (in_observations inner') \<le> max_sessions"
    using observe_observations[OF assms(1)] assms(2) remember_bounded by (auto simp: service_ok_def)
  have "in_alerts inner' \<in> {in_alerts inner, [], push_alert ?al (in_alerts inner)}"
    using observe_session_outcome[OF assms(1)] by (auto simp: observe_outcome_def Let_def)
  then have "length (in_alerts inner') \<le> max_alerts
      \<and> set (in_alerts inner') \<subseteq> set (in_alerts inner) \<union> set_option ?al"
    using push_alert_bounded[OF len, of ?al] len by auto
  moreover have "snd ` set (log_alert now ?al log) = snd ` set log \<union> set_option ?al"
    by (auto simp: log_alert_def split: option.splits)
  ultimately show ?thesis using obs known by (auto simp: service_ok_def)
qed

lemma observe_log:
  assumes "observe_session h io s now live (Some f) inner = (Some file', inner')"
    and "load_store f now = Inr s0" "log_matches now s0 log"
  shows "\<exists>s1. load_store file' now = Inr s1
    \<and> log_matches now s1 (log_alert now (raised_alert h io s now live (Some f) inner) log)"
proof -
  let ?al = "raised_alert h io s now live (Some f) inner"
  let ?sid = "effective_storage_id s" and ?cs = "filter (candidate inner now) (signals h s)"
  have valid: "store_valid now s0" by (rule load_valid[OF assms(2)])
  from observe_session_outcome[OF assms(1)]
  consider "file' = f" "?al = None"
    | s' where "st_preferences s0 = st_preferences (in_store inner)"
      "publish_plan now ?sid (s_harness s) ?cs s0 = Some (s', ?al)"
      "file' = (if st_seen s' = st_seen s0 then f else StoreFile s')"
    using assms(2) by (auto simp: observe_outcome_def Let_def split: if_splits)
  then show ?thesis
  proof cases
    case 1
    with assms show ?thesis by (simp add: log_alert_def)
  next
    case 2
    have "preferences_valid (st_preferences (in_store inner))"
      using valid by (simp add: store_valid_def 2(1))
    from stale_window_bound[OF this]
    have cs: "\<forall>c\<in>set ?cs. sg_at c \<le> now" "\<forall>c\<in>set ?cs. now - sg_at c \<le> 3600 * second"
      by (auto simp: candidate_def Let_def)
    have "tm_inv (st_watermarks s0)" using assms(3) by (simp add: log_matches_def)
    from publish_plan_sound[OF valid this 2(2) signals_sorted cs(1)]
    have sound: "plan_sound now (digest ?sid) ?cs s0 (s', ?al)" .
    from log_published[OF valid assms(3) this cs(2)]
    have log: "log_matches now s' (log_alert now ?al log)" .
    show ?thesis
    proof (cases "st_seen s' = st_seen s0")
      case True
      with sound have "?al = None" by (auto simp: plan_sound_def)
      with True 2(3) assms(2,3) show ?thesis by (simp add: log_alert_def)
    next
      case False
      with sound log 2(3) show ?thesis by (auto simp: load_StoreFile plan_sound_def)
    qed
  qed
qed

lemma save_log:
  assumes "save_preferences io update now (Some f) inner = Inr (prefs, Some file', inner')"
    and "load_store f now = Inr s0" "log_matches now s0 log"
  shows "(\<exists>s1. load_store file' now = Inr s1 \<and> log_matches now s1 log)
    \<and> in_observations inner' = [] \<and> in_alerts inner' = []"
proof -
  let ?update = "update\<lparr>pf_categories := remdups_adj (sort (pf_categories update)),
      pf_providers := remdups_adj (sort (pf_providers update))\<rparr>"
  let ?s = "s0\<lparr>st_preferences := ?update\<lparr>pf_revision := pf_revision update + 1\<rparr>\<rparr>"
  from assms(1,2) have p: "preferences_validate update = Inr ()" and stored: "file' = StoreFile ?s"
    and inner: "in_observations inner' = [] \<and> in_alerts inner' = []"
    by (auto simp: save_preferences_def Let_def split: sum.splits if_splits)
  from p have limits: "length (pf_categories update) \<le> 6" "length (pf_providers update) \<le> 16"
      "\<forall>v\<in>set (pf_providers update). length v \<le> 64 \<and> find_adapter v \<noteq> None"
      "30 \<le> pf_stale_after_seconds update" "pf_stale_after_seconds update \<le> 3600"
    by (auto simp: preferences_validate_def list_ex_iff split: if_splits)
  have "length (remdups_adj (sort xs)) \<le> length xs" for xs :: "'a::linorder list"
    using remdups_adj_length[of "sort xs"] by simp
  from order_trans[OF this limits(1)] order_trans[OF this limits(2)] limits(3-5)
  have "preferences_valid (st_preferences ?s)"
    by (auto simp: preferences_valid_def preferences_validate_def list_ex_iff)
  then have "store_valid now ?s"
    using load_valid[OF assms(2)] by (simp add: store_valid_def)
  with stored assms(3) inner show ?thesis
    by (simp add: load_StoreFile log_matches_prefs)
qed

lemma snapshot_service_ok:
  assumes "take_snapshot now valid (Some f) inner = (inner', shown)" "service_ok log inner"
  shows "service_ok log inner'"
proof -
  have "inner' = sync_snapshot now (Some f) inner"
    using assms(1) by (simp add: take_snapshot_def Let_def)
  with assms(2) show ?thesis
    by (cases "load_store f now") (auto simp: sync_snapshot_def service_ok_def tm_inv_def)
qed

lemma reachable_inv: "attention_reachable h w \<Longrightarrow> attention_inv w"
proof (induction rule: attention_reachable.induct)
  case (start now)
  have "load_store NoFile now = Inr default_store \<and> log_matches now default_store []"
    by (simp add: load_store_def log_matches_def default_store_def tm_inv_def)
  then show ?case by (auto simp: attention_inv_def)
next
  case (opened w now p)
  have "service_ok (aw_log w) (service_open (Some (aw_file w)) now)"
    by (simp add: service_ok_def service_open_def Let_def tm_inv_def)
  with opened show ?case
    by (auto simp: attention_inv_def intro: load_later log_matches_later)
next
  case (observed w now p inner io s live file' inner')
  from observed.IH observed.hyps(2) obtain s0 where
    s0: "load_store (aw_file w) now = Inr s0" "log_matches now s0 (aw_log w)"
    by (auto simp: attention_inv_def dest: load_later log_matches_later)
  from observed.IH have ok: "service_ok (aw_log w) i" if "aw_services w q = Some i" for q i
    using that by (simp add: attention_inv_def)
  from observe_log[OF observed.hyps(4) s0] observe_service_ok[OF observed.hyps(4) ok[OF observed.hyps(3)]]
    service_ok_log[OF ok]
  show ?case by (simp add: attention_inv_def)
next
  case (saved w now p inner io update prefs file' inner')
  from saved.IH saved.hyps(2) obtain s0 where
    s0: "load_store (aw_file w) now = Inr s0" "log_matches now s0 (aw_log w)"
    by (auto simp: attention_inv_def dest: load_later log_matches_later)
  from save_log[OF saved.hyps(4) s0] saved.IH show ?case
    by (auto simp: attention_inv_def service_ok_def tm_inv_def[of "[]"])
next
  case (snapshot w now p inner valid inner' shown)
  then have "service_ok (aw_log w) inner"
    by (simp add: attention_inv_def)
  from snapshot_service_ok[OF snapshot.hyps(4) this] snapshot.IH snapshot.hyps(2) show ?case
    by (auto simp: attention_inv_def intro: load_later log_matches_later)
qed

section \<open>Properties\<close>

text \<open>C34: However many processes share the store, and whatever fails when, no signal is announced
  twice and alerts are never closer than thirty seconds: of any two alerts of a run the later one
  comes at least thirty seconds after the earlier, and if both are about one session it reports a
  strictly later event. This rests on the watermarks, which an alert outlives only once every
  candidate is newer than it, not on the bounded list of hashes.\<close>

theorem attention_no_replay:
  assumes "attention_reachable h w"
  shows "sorted_wrt (\<lambda>(raised', a') (raised, a).
      raised + 30 * second \<le> raised'
      \<and> (al_session_ref a' = al_session_ref a \<longrightarrow> al_observed_at a < al_observed_at a'))
    (aw_log w)"
proof -
  have "sorted_wrt spaced (aw_log w)"
    using reachable_inv[OF assms] by (auto simp: attention_inv_def log_matches_def)
  then show ?thesis
    by (rule sorted_wrt_mono_rel[rotated]) (auto simp: spaced_def)
qed

text \<open>Nothing the processes do makes the store unreadable: at any later time it still loads. And
  what a service keeps in memory is bounded: at most 20 alerts, all of them alerts of this run, and
  at most 100 observations.\<close>

theorem attention_bounded:
  assumes "attention_reachable h w" "aw_clock w \<le> now"
  shows "(\<exists>s. load_store (aw_file w) now = Inr s)
    \<and> (\<forall>p inner. aw_services w p = Some inner \<longrightarrow>
        length (in_alerts inner) \<le> max_alerts \<and> length (in_observations inner) \<le> max_sessions
        \<and> set (in_alerts inner) \<subseteq> snd ` set (aw_log w))"
  using reachable_inv[OF assms(1)] load_later[OF _ assms(2)]
  by (fastforce simp: attention_inv_def service_ok_def)

text \<open>C35: Alerts are opt-in. An observation adds an alert only for a live append to a session that is
  present and not archived, from a provider the preferences admit; the alert reports a signal of
  that session whose category the preferences list and which is neither older than the arming of
  the service nor than the staleness limit; and the preferences the service holds are the ones
  saved in the file.\<close>

theorem alert_requires_opt_in:
  assumes "attention_reachable h w" "aw_services w p = Some inner" "aw_clock w \<le> now"
    and "observe_session h io s now live (Some (aw_file w)) inner = (file', inner')"
    and "a \<in> set (in_alerts inner') - set (in_alerts inner)"
  shows "live \<and> \<not> s_archived s \<and> s_source_availability s = AvailPresent
    \<and> (let prefs = st_preferences (in_store inner) in
        (pf_providers prefs = [] \<or> s_harness s \<in> set (pf_providers prefs))
        \<and> al_category a \<in> set (pf_categories prefs)
        \<and> (\<exists>saved. load_store (aw_file w) now = Inr saved \<and> st_preferences saved = prefs)
        \<and> (\<exists>sg\<in>set (signals h s). al_observed_at a = sg_at sg \<and> al_category a = sg_category sg
            \<and> in_armed_at inner \<le> sg_at sg \<and> sg_at sg \<le> now
            \<and> now - sg_at sg \<le> int (unat (pf_stale_after_seconds prefs)) * second))
    \<and> al_session_ref a = digest (effective_storage_id s)"
proof -
  let ?cs = "filter (candidate inner now) (signals h s)"
  from observe_session_outcome[OF assms(4)] assms(5)
  obtain s0 s' al where o: "watches inner s" "live" "load_store (aw_file w) now = Inr s0"
      "st_preferences s0 = st_preferences (in_store inner)"
      "publish_plan now (effective_storage_id s) (s_harness s) ?cs s0 = Some (s', al)"
      "in_alerts inner' = push_alert al (in_alerts inner)"
    by (auto simp: observe_outcome_def Let_def)
  have "set (push_alert al (in_alerts inner)) \<subseteq> set (in_alerts inner) \<union> set_option al"
    by (cases al; cases "in_alerts inner") (auto simp: push_alert_def Let_def)
  with o(6) assms(5) have al: "al = Some a" by auto
  from reachable_inv[OF assms(1)] load_later[OF _ assms(3)] o(3)
  have tm: "tm_inv (st_watermarks s0)"
    by (fastforce simp: attention_inv_def log_matches_def)
  have "\<forall>c\<in>set ?cs. sg_at c \<le> now" by (simp add: candidate_def Let_def)
  from publish_plan_sound[OF load_valid[OF o(3)] tm o(5) signals_sorted this] al
  obtain c where "c \<in> set ?cs" "al_observed_at a = sg_at c" "al_category a = sg_category c"
    and "al_session_ref a = digest (effective_storage_id s)"
    by (auto simp: plan_sound_def)
  with o show ?thesis
    by (auto simp: watches_def candidate_def stale_window_def Let_def)
qed

section \<open>Witnesses\<close>

definition sample_attention_host :: attention_host where
  "sample_attention_host = \<lparr>ah_show_time = (\<lambda>_. ''t''), ah_in_range = (\<lambda>_. True)\<rparr>"

definition working_io :: attention_io where
  "working_io = \<lparr>io_locks = True, io_writes = True\<rparr>"

definition finished_turn :: "string \<Rightarrow> timestamp \<Rightarrow> session" where
  "finished_turn i t = sample_session\<lparr>s_turns :=
     [default_turn\<lparr>t_turn_id := i, t_status := Completed, t_completed_at := Some t\<rparr>],
     s_tool_observations := []\<rparr>"

text \<open>A single candidate that is new is announced.\<close>

definition announced :: "string \<Rightarrow> provider_id \<Rightarrow> signal \<Rightarrow> alert" where
  "announced sid provider c =
     \<lparr>al_id = digest (sid @ [CHR 0x00] @ sg_id c), al_session_ref = digest sid,
      al_provider_label = provider_label provider, al_category = sg_category c,
      al_observed_at = sg_at c, al_source = sg_source c\<rparr>"

definition announcing :: "timestamp \<Rightarrow> string \<Rightarrow> signal \<Rightarrow> attention_store \<Rightarrow> attention_store" where
  "announcing now sid c s =
     s\<lparr>st_seen := st_seen s @ [digest (sid @ [CHR 0x00] @ sg_id c)],
       st_watermarks := tm_entry (digest sid) (sg_at c) (\<lambda>_. sg_at c) (retained_watermarks now s),
       st_last_alert := Some now\<rparr>"

lemma plan_announces:
  assumes "length (retained_watermarks now s) < max_sessions" "length (st_seen s) < max_seen"
    and "pred_option (\<lambda>w. w < sg_at c) (map_of (retained_watermarks now s) (digest sid))"
    and "digest (sid @ [CHR 0x00] @ sg_id c) \<notin> set (st_seen s)"
    and "pred_option (\<lambda>t. 30 * second \<le> now - t) (st_last_alert s)"
  shows "publish_plan now sid provider [c] s
    = Some (announcing now sid c s, Some (announced sid provider c))"
  using assms
  by (cases "map_of (retained_watermarks now s) (digest sid)"; cases "st_last_alert s")
    (simp_all add: publish_plan_def publish_candidate_def announced_def announcing_def Let_def)

lemma observe_announces:
  assumes "watches inner s" "filter (candidate inner now) (signals h s) = [c]"
    and "load_store f now = Inr s0" "st_preferences s0 = st_preferences (in_store inner)"
    and "publish_plan now (effective_storage_id s) (s_harness s) [c] s0
      = Some (announcing now (effective_storage_id s) c s0, Some a)"
  shows "\<exists>obs. observe_session h working_io s now True (Some f) inner
      = (Some (StoreFile (announcing now (effective_storage_id s) c s0)),
         inner\<lparr>in_observations := obs, in_store := announcing now (effective_storage_id s) c s0,
               in_alerts := push_alert (Some a) (in_alerts inner)\<rparr>)
    \<and> raised_alert h working_io s now True (Some f) inner = Some a"
proof -
  have "c \<in> set (filter (\<lambda>sg. sg_at sg \<le> now) (signals h s))"
    using arg_cong[where f = set, OF assms(2)] by (auto simp: candidate_def Let_def)
  then obtain latest where
    l: "max_by_key signal_key (filter (\<lambda>sg. sg_at sg \<le> now) (signals h s)) = Some latest"
    by (cases "filter (\<lambda>sg. sg_at sg \<le> now) (signals h s)") simp_all
  have "st_seen (announcing now (effective_storage_id s) c s0) \<noteq> st_seen s0"
    by (simp add: announcing_def)
  with assms l show ?thesis
    by (auto simp: observe_session_def raised_alert_def publish_def working_io_def Let_def)
qed

definition armed_preferences :: attention_preferences where
  "armed_preferences = default_preferences\<lparr>pf_revision := 1, pf_categories := [TurnCompleted]\<rparr>"

definition armed_service :: attention_inner where
  "armed_service =
     \<lparr>in_store = default_store\<lparr>st_preferences := armed_preferences\<rparr>, in_available = True,
      in_armed_at = 0, in_observations = [], in_alerts = []\<rparr>"

lemma armed_saved:
  "save_preferences working_io (default_preferences\<lparr>pf_categories := [TurnCompleted]\<rparr>) 0
      (Some NoFile) (service_open (Some NoFile) 0)
    = Inr (armed_preferences, Some (StoreFile (in_store armed_service)), armed_service)"
  by code_simp

definition finished_signal :: "string \<Rightarrow> timestamp \<Rightarrow> signal" where
  "finished_signal i t =
     \<lparr>sg_id = ''turn:'' @ i @ '':TurnCompleted:t'', sg_at = t, sg_category = TurnCompleted,
      sg_state = Idle, sg_source = ''retained turn completion'', sg_tool_kind = None\<rparr>"

lemma finished_candidate:
  assumes "st_preferences (in_store inner) = armed_preferences" "in_armed_at inner \<le> t" "t \<le> now"
    and "now - t \<le> 300 * second"
  shows "filter (candidate inner now) (signals sample_attention_host (finished_turn i t))
    = [finished_signal i t]"
  using assms
  by (simp add: signals_def finished_turn_def turn_signals_def sample_attention_host_def
      finished_signal_def candidate_def default_turn_def armed_preferences_def stale_window_def
      default_preferences_def event_name_def)

lemma finished_watched:
  "in_available inner \<Longrightarrow> st_preferences (in_store inner) = armed_preferences \<Longrightarrow>
    watches inner (finished_turn i t)"
  by (simp add: watches_def armed_preferences_def default_preferences_def finished_turn_def
      sample_session_def)

lemma finished_id: "effective_storage_id (finished_turn i t) = ''codex:thread:a''"
  by (simp add: effective_storage_id_def finished_turn_def sample_session_def)

definition first_store :: attention_store where
  "first_store = announcing (10 * second) ''codex:thread:a'' (finished_signal ''a'' (5 * second))
     (in_store armed_service)"

lemma armed_store_simps:
  "st_version (in_store armed_service) = 1" "st_seen (in_store armed_service) = []"
  "st_watermarks (in_store armed_service) = []" "st_last_alert (in_store armed_service) = None"
  "st_preferences (in_store armed_service) = armed_preferences"
  by (simp_all add: armed_service_def default_store_def)

lemma armed_preferences_valid: "preferences_valid armed_preferences"
  by (simp add: preferences_valid_def preferences_validate_def armed_preferences_def
      default_preferences_def)

lemma first_store_simps:
  "st_version first_store = 1" "st_preferences first_store = armed_preferences"
  "st_seen first_store = [digest (''codex:thread:a'' @ [CHR 0x00] @ ''turn:a:TurnCompleted:t'')]"
  "st_watermarks first_store = [(digest ''codex:thread:a'', 5 * second)]"
  "st_last_alert first_store = Some (10 * second)"
  by (simp_all add: first_store_def announcing_def armed_store_simps retained_watermarks_def
      finished_signal_def)

lemma stores_load:
  "load_store (StoreFile (in_store armed_service)) (10 * second) = Inr (in_store armed_service)"
  "load_store (StoreFile first_store) (50 * second) = Inr first_store"
  by (simp_all add: load_StoreFile store_valid_def armed_store_simps first_store_simps
      armed_preferences_valid digest_valid max_seen_def max_sessions_def second_def)

lemma second_id_new:
  "digest (''codex:thread:a'' @ [CHR 0x00] @ ''turn:b:TurnCompleted:t'') \<notin> set (st_seen first_store)"
proof -
  have "fnv1a64 ((''codex:thread:a'' @ [CHR 0x00] @ ''turn:'') @ CHR ''b'' # '':TurnCompleted:t'')
      \<noteq> fnv1a64 ((''codex:thread:a'' @ [CHR 0x00] @ ''turn:'') @ CHR ''a'' # '':TurnCompleted:t'')"
    unfolding fnv1a64_one_byte_iff by simp
  then have "stable_hash (''codex:thread:a'' @ [CHR 0x00] @ ''turn:b:TurnCompleted:t'')
      \<noteq> stable_hash (''codex:thread:a'' @ [CHR 0x00] @ ''turn:a:TurnCompleted:t'')"
    unfolding stable_hash_eq_iff by simp
  then show ?thesis by (simp add: first_store_simps digest_def stable_hash_def)
qed

lemma sample_observed_first:
  "\<exists>obs a. observe_session sample_attention_host working_io (finished_turn ''a'' (5 * second)) (10 * second)
      True (Some (StoreFile (in_store armed_service))) armed_service
      = (Some (StoreFile first_store), armed_service\<lparr>in_observations := obs, in_store := first_store,
          in_alerts := [a]\<rparr>)
    \<and> raised_alert sample_attention_host working_io (finished_turn ''a'' (5 * second)) (10 * second) True
      (Some (StoreFile (in_store armed_service))) armed_service = Some a"
proof -
  let ?c = "finished_signal ''a'' (5 * second)"
  have c: "filter (candidate armed_service (10 * second))
      (signals sample_attention_host (finished_turn ''a'' (5 * second))) = [?c]"
    by (rule finished_candidate) (simp_all add: armed_store_simps armed_service_def second_def)
  have w: "watches armed_service (finished_turn ''a'' (5 * second))"
    by (rule finished_watched) (simp_all add: armed_store_simps, simp add: armed_service_def)
  have "publish_plan (10 * second) ''codex:thread:a'' p [?c] (in_store armed_service)
      = Some (announcing (10 * second) ''codex:thread:a'' ?c (in_store armed_service),
        Some (announced ''codex:thread:a'' p ?c))" for p
    by (rule plan_announces)
      (simp_all add: armed_store_simps retained_watermarks_def max_sessions_def max_seen_def)
  from observe_announces[OF w c stores_load(1) refl, unfolded finished_id, OF this] show ?thesis
    by (auto simp: first_store_def push_alert_def armed_service_def max_alerts_def)
qed

lemma sample_observed_second:
  assumes "in_store inner = first_store" "in_available inner" "in_armed_at inner = 0"
  shows "\<exists>obs b. observe_session sample_attention_host working_io (finished_turn ''b'' (45 * second)) (50 * second)
      True (Some (StoreFile first_store)) inner
      = (Some (StoreFile (announcing (50 * second) ''codex:thread:a'' (finished_signal ''b'' (45 * second)) first_store)),
        inner\<lparr>in_observations := obs,
          in_store := announcing (50 * second) ''codex:thread:a'' (finished_signal ''b'' (45 * second)) first_store,
          in_alerts := push_alert (Some b) (in_alerts inner)\<rparr>)
    \<and> raised_alert sample_attention_host working_io (finished_turn ''b'' (45 * second)) (50 * second) True
      (Some (StoreFile first_store)) inner = Some b"
proof -
  let ?c = "finished_signal ''b'' (45 * second)"
  have c: "filter (candidate inner (50 * second))
      (signals sample_attention_host (finished_turn ''b'' (45 * second))) = [?c]"
    by (rule finished_candidate) (simp_all add: assms first_store_simps second_def)
  have w: "watches inner (finished_turn ''b'' (45 * second))"
    by (rule finished_watched) (simp_all add: assms first_store_simps)
  have "publish_plan (50 * second) ''codex:thread:a'' p [?c] first_store
      = Some (announcing (50 * second) ''codex:thread:a'' ?c first_store,
        Some (announced ''codex:thread:a'' p ?c))" for p
    using second_id_new
    by (intro plan_announces)
      (simp_all add: first_store_simps retained_watermarks_def max_sessions_def max_seen_def
        second_def finished_signal_def)
  moreover have "st_preferences first_store = st_preferences (in_store inner)"
    by (simp add: assms)
  ultimately show ?thesis
    using observe_announces[OF w c stores_load(2), unfolded finished_id] by blast
qed

text \<open>The run: armed at 0 s, one alert at 10 s, another at 50 s.\<close>

definition armed_world :: attention_world where
  "armed_world =
     \<lparr>aw_file = StoreFile (in_store armed_service), aw_services = [0 \<mapsto> armed_service],
      aw_clock = 0, aw_log = []\<rparr>"

lemma armed_reachable: "attention_reachable sample_attention_host armed_world"
proof -
  let ?R = "attention_reachable sample_attention_host"
  have "?R \<lparr>aw_file = NoFile, aw_services = (\<lambda>_. None), aw_clock = 0, aw_log = []\<rparr>"
    by (rule start)
  from opened[OF this, of 0 0]
  have "?R \<lparr>aw_file = NoFile, aw_services = [0 \<mapsto> service_open (Some NoFile) 0], aw_clock = 0, aw_log = []\<rparr>"
    by simp
  from saved[OF this _ _, of 0 0, simplified, OF refl armed_saved] show ?thesis
    by (simp add: armed_world_def)
qed

lemma sample_run:
  "\<exists>w inner. attention_reachable sample_attention_host w \<and> aw_clock w = 10 * second
    \<and> aw_file w = StoreFile first_store \<and> aw_services w 0 = Some inner
    \<and> length (aw_log w) = 1 \<and> length (in_alerts inner) = 1
    \<and> in_store inner = first_store \<and> in_available inner \<and> in_armed_at inner = 0"
proof -
  let ?R = "attention_reachable sample_attention_host"
  from sample_observed_first obtain obs a where
    o: "observe_session sample_attention_host working_io (finished_turn ''a'' (5 * second)) (10 * second)
      True (Some (StoreFile (in_store armed_service))) armed_service
      = (Some (StoreFile first_store), armed_service\<lparr>in_observations := obs, in_store := first_store,
          in_alerts := [a]\<rparr>)"
      "raised_alert sample_attention_host working_io (finished_turn ''a'' (5 * second)) (10 * second) True
      (Some (StoreFile (in_store armed_service))) armed_service = Some a" by blast
  let ?inner = "armed_service\<lparr>in_observations := obs, in_store := first_store, in_alerts := [a]\<rparr>"
  let ?w = "\<lparr>aw_file = StoreFile first_store, aw_services = [0 \<mapsto> ?inner],
      aw_clock = 10 * second, aw_log = [(10 * second, a)]\<rparr>"
  have "?R ?w"
    using observed[OF armed_reachable, where p = 0 and now = "10 * second", unfolded armed_world_def,
        simplified, OF _ refl o(1)]
    by (simp add: o(2)[unfolded second_def, simplified] log_alert_def second_def)
  then show ?thesis
    by (intro exI[of _ ?w] exI[of _ ?inner]) (simp add: armed_service_def)
qed

lemma attention_no_replay_witness:
  "\<exists>w. attention_reachable sample_attention_host w \<and> length (aw_log w) = 2
    \<and> fst (aw_log w ! 1) + 30 * second \<le> fst (aw_log w ! 0)"
proof -
  from sample_run obtain w inner where w: "attention_reachable sample_attention_host w"
      "aw_clock w = 10 * second" "aw_file w = StoreFile first_store" "aw_services w 0 = Some inner"
      "length (aw_log w) = 1" "in_store inner = first_store" "in_available inner" "in_armed_at inner = 0"
    by blast
  from sample_observed_second[OF w(6-8)] obtain file' inner' b where
    o: "observe_session sample_attention_host working_io (finished_turn ''b'' (45 * second)) (50 * second)
      True (Some (aw_file w)) inner = (Some file', inner')"
      "raised_alert sample_attention_host working_io (finished_turn ''b'' (45 * second)) (50 * second) True
      (Some (aw_file w)) inner = Some b"
    unfolding w(3) by blast
  have "aw_clock w \<le> 50 * second" by (simp add: w(2) second_def)
  from observed[OF w(1) this w(4) o(1)]
  obtain w' where w': "attention_reachable sample_attention_host w'"
      "aw_log w' = (50 * second, b) # aw_log w"
    by (auto simp: o(2) log_alert_def)
  from w(5) obtain e where e: "aw_log w = [e]" by (cases "aw_log w") auto
  show ?thesis
    using attention_no_replay[OF w'(1)] w' e by (intro exI[of _ w']) (auto simp: case_prod_unfold)
qed

lemma attention_bounded_witness:
  "\<exists>w inner. attention_reachable sample_attention_host w \<and> aw_services w 0 = Some inner
    \<and> length (in_alerts inner) = 1 \<and> set (in_alerts inner) \<subseteq> snd ` set (aw_log w)"
  using sample_run attention_bounded[OF _ order_refl] by metis

lemma alert_requires_opt_in_witness:
  "\<exists>inner' a. snd (observe_session sample_attention_host working_io (finished_turn ''a'' (5 * second))
      (10 * second) True (Some (aw_file armed_world)) armed_service) = inner'
    \<and> a \<in> set (in_alerts inner') \<and> al_category a \<in> set [TurnCompleted]"
proof -
  have clock: "aw_clock armed_world \<le> 10 * second" and serv: "aw_services armed_world 0 = Some armed_service"
    by (simp_all add: armed_world_def second_def)
  from sample_observed_first obtain file' inner' a where
    o: "observe_session sample_attention_host working_io (finished_turn ''a'' (5 * second)) (10 * second)
      True (Some (aw_file armed_world)) armed_service = (file', inner')" "in_alerts inner' = [a]"
    by (fastforce simp: armed_world_def)
  have "a \<in> set (in_alerts inner') - set (in_alerts armed_service)"
    by (simp add: o(2) armed_service_def)
  from alert_requires_opt_in[OF armed_reachable serv clock o(1) this]
  have "al_category a \<in> set (pf_categories armed_preferences)"
    by (simp add: armed_store_simps Let_def)
  with o show ?thesis by (simp add: armed_preferences_def)
qed

end
