(* ===== verification/Quota_Windows.thy ===== *)
theory Quota_Windows
  imports Provider_Sources Range_Totals Odo_Floats
begin

text \<open>
  The quota windows of \<open>src-tauri/src/quota.rs\<close>: from a provider's rate-limit readings to its
  snapshot, with pace, projected exhaustion and the honesty rules of the module. Durations are
  integers of nanoseconds, like times. The constructors and operators of \<open>chrono\<close> panic outside their
  range; what that range is is the argument \<open>host\<close>, and a panic is a left value.
\<close>

section \<open>Kinds of windows\<close>

definition rollover_drop_threshold_percent :: f64 where
  "rollover_drop_threshold_percent = f64_of_int 15"

definition min_evidence_points :: nat where "min_evidence_points = 5"

definition min_evidence_span_fraction :: f64 where
  "min_evidence_span_fraction = f64_of_ratio False 1 10"

datatype quota_window_kind = Burst | Daily | Weekly | Monthly | CreditBalance | OtherWindow

definition window_kind_str :: "quota_window_kind \<Rightarrow> string" where
  "window_kind_str k =
     (case k of Burst \<Rightarrow> ''burst'' | Daily \<Rightarrow> ''daily'' | Weekly \<Rightarrow> ''weekly''
      | Monthly \<Rightarrow> ''monthly'' | CreditBalance \<Rightarrow> ''credit_balance'' | OtherWindow \<Rightarrow> ''other'')"

text \<open>\<open>minutes as i64\<close>, the difference and \<open>abs\<close> wrap.\<close>

definition i64_distance :: "u64 \<Rightarrow> u64 \<Rightarrow> int" where
  "i64_distance a b = (let d = a - b in sint (if sint d < 0 then - d else d))"

definition classify_window_kind :: "u64 option \<Rightarrow> quota_window_kind" where
  "classify_window_kind window_minutes =
     (case window_minutes of
        None \<Rightarrow> OtherWindow
      | Some minutes \<Rightarrow>
          if i64_distance minutes 10080 \<le> 30 then Weekly
          else if i64_distance minutes 43200 \<le> 120 then Monthly
          else if i64_distance minutes 1440 \<le> 15 then Daily
          else Burst)"

datatype quota_unit = PercentUnit | CreditUnit

datatype quota_provenance = TranscriptDerived | LiveProvider

datatype quota_confidence = HighConfidence | MediumConfidence | LowConfidence

definition confidence_rank :: "quota_confidence \<Rightarrow> nat" where
  "confidence_rank c = (case c of HighConfidence \<Rightarrow> 2 | MediumConfidence \<Rightarrow> 1 | LowConfidence \<Rightarrow> 0)"

definition downgrade :: "quota_confidence \<Rightarrow> quota_confidence \<Rightarrow> quota_confidence" where
  "downgrade current cap = (if confidence_rank cap < confidence_rank current then cap else current)"

datatype quota_unavailable_reason =
  NoQuotaSource | NoObservation | ClockSkew | ProviderOutage | AuthExpired | RateLimited | Offline

record quota_forecast =
  fc_pace_per_hour :: f64
  fc_projected_exhaustion_at :: "timestamp option"
  fc_reserve_deficit_percent :: f64
  fc_evidence_points :: nat

datatype quota_window_start_basis = UnknownStart | CounterDecrease | ResetScheduleEstimate

record quota_window =
  qw_kind :: quota_window_kind
  qw_unit :: quota_unit
  qw_window_minutes :: "u64 option"
  qw_used :: "f64 option"
  qw_remaining :: "f64 option"
  qw_limit :: "f64 option"
  qw_unlimited :: bool
  qw_resets_at :: "timestamp option"
  qw_window_started_at :: "timestamp option"
  qw_window_started_at_estimated :: bool
  qw_window_start_basis :: quota_window_start_basis
  qw_observed_at :: timestamp
  qw_confidence :: quota_confidence
  qw_stale :: bool
  qw_unavailable :: "quota_unavailable_reason option"
  qw_forecast :: "quota_forecast option"

record quota_snapshot =
  qs_provider :: provider_id
  qs_provenance :: quota_provenance
  qs_windows :: "quota_window list"
  qs_unavailable :: "quota_unavailable_reason option"

record quota_account_info =
  qa_credits_unlimited :: "bool option"
  qa_credits_balance :: "f64 option"
  qa_observed_at :: "timestamp option"

definition default_account :: quota_account_info where
  "default_account = \<lparr>qa_credits_unlimited = None, qa_credits_balance = None, qa_observed_at = None\<rparr>"

section \<open>Series\<close>

record window_observation =
  wo_run_started_at :: timestamp
  wo_timestamp :: timestamp
  wo_window :: rate_limit_window
  wo_observation_count :: u32

definition observation_of :: "rate_limit_snapshot_point \<Rightarrow> rate_limit_window \<Rightarrow> window_observation" where
  "observation_of p window =
     \<lparr>wo_run_started_at = run_started_at p, wo_timestamp = p_timestamp p, wo_window = window,
      wo_observation_count = p_observation_count p\<rparr>"

definition window_series ::
    "rate_limit_snapshot_point list \<Rightarrow> (rate_limit_snapshot_point \<Rightarrow> rate_limit_window option)
     \<Rightarrow> window_observation list" where
  "window_series points pick =
     List.map_filter (\<lambda>p. map_option (observation_of p) (pick p)) points"

definition used_percent :: "window_observation \<Rightarrow> f64" where
  "used_percent o1 = w_used_percent (wo_window o1)"

definition dropped_to :: "window_observation \<Rightarrow> window_observation \<Rightarrow> bool" where
  "dropped_to prev cur \<longleftrightarrow>
     f64_le rollover_drop_threshold_percent (f64_sub (used_percent prev) (used_percent cur))"

definition detect_counter_decrease :: "window_observation list \<Rightarrow> timestamp option" where
  "detect_counter_decrease series =
     map_option (wo_run_started_at \<circ> snd)
       (List.find (\<lambda>(prev, cur). dropped_to prev cur) (rev (zip series (tl series))))"

section \<open>Forecast\<close>

record chrono_host =
  ch_in_range :: "timestamp \<Rightarrow> bool"
  ch_minutes_in_range :: "int \<Rightarrow> bool"

datatype quota_panic = DurationOutOfRange | TimeOutOfRange

definition nanos_per_second :: int where "nanos_per_second = 1000000000"

definition num_seconds :: "int \<Rightarrow> int" where
  "num_seconds d = (if 0 \<le> d then d div nanos_per_second else - (- d div nanos_per_second))"

definition seconds_f64 :: "int \<Rightarrow> f64" where
  "seconds_f64 d = f64_of_int (num_seconds d)"

definition evidence_of :: "window_observation list \<Rightarrow> nat" where
  "evidence_of obs = (\<Sum>o1\<leftarrow>obs. unat (wo_observation_count o1))"

definition projected_exhaustion ::
    "chrono_host \<Rightarrow> f64 \<Rightarrow> f64 \<Rightarrow> timestamp option \<Rightarrow> timestamp \<Rightarrow> quota_panic + timestamp option" where
  "projected_exhaustion host pace_per_hour used resets_at now =
     (if f64_lt 0 pace_per_hour then
        let remaining = f64_max (f64_sub (f64_of_int 100) used) 0;
            hours_to_exhaustion = f64_div remaining pace_per_hour;
            candidate = now
              + f64_to_i64 (f64_round (f64_mul hours_to_exhaustion (f64_of_int 3600000))) * 1000000
        in if \<not> ch_in_range host candidate then Inl TimeOutOfRange
           else Inr (case resets_at of
               Some r \<Rightarrow> if r \<le> candidate then None else Some candidate
             | None \<Rightarrow> Some candidate)
      else Inr None)"

definition in_window_evidence ::
    "window_observation list \<Rightarrow> timestamp \<Rightarrow> timestamp \<Rightarrow> window_observation list" where
  "in_window_evidence series started now =
     filter (\<lambda>p. started \<le> wo_timestamp p \<and> wo_timestamp p \<le> now) series"

definition forecast_from_series ::
    "chrono_host \<Rightarrow> window_observation list \<Rightarrow> timestamp \<Rightarrow> u64 option \<Rightarrow> timestamp option
     \<Rightarrow> timestamp \<Rightarrow> quota_panic + quota_forecast option" where
  "forecast_from_series host series window_started_at window_minutes resets_at now =
     (case window_minutes of
        None \<Rightarrow> Inr None
      | Some m \<Rightarrow>
          let minutes = f64_of_int (uint m); evidence = in_window_evidence series window_started_at now in
          if f64_le_zero minutes then Inr None
          else if evidence_of evidence < min_evidence_points then Inr None
          else
            let earliest = hd evidence; latest = last evidence;
                earliest_ts = max (wo_run_started_at earliest) window_started_at;
                span_minutes = f64_div (seconds_f64 (wo_timestamp latest - earliest_ts)) (f64_of_int 60)
            in if f64_lt (f64_div span_minutes minutes) min_evidence_span_fraction then Inr None
               else
                 let elapsed_hours = f64_div span_minutes (f64_of_int 60);
                     used_delta = f64_sub (used_percent latest) (used_percent earliest)
                 in if f64_le_zero elapsed_hours then Inr None
                    else if f64_lt used_delta 0 then Inr None
                    else
                      let pace_per_hour = f64_div used_delta elapsed_hours in
                      (case projected_exhaustion host pace_per_hour (used_percent latest) resets_at now of
                        Inl e \<Rightarrow> Inl e
                      | Inr projected \<Rightarrow>
                          let elapsed_fraction = f64_clamp
                                (f64_div (seconds_f64 (now - window_started_at))
                                  (f64_mul minutes (f64_of_int 60))) 0 (f64_of_int 1);
                              even_pace_used = f64_mul elapsed_fraction (f64_of_int 100)
                          in Inr (Some
                               \<lparr>fc_pace_per_hour = pace_per_hour,
                                fc_projected_exhaustion_at = projected,
                                fc_reserve_deficit_percent =
                                  f64_sub (used_percent latest) even_pace_used,
                                fc_evidence_points = evidence_of evidence\<rparr>)))"

section \<open>Windows\<close>

definition blank_percent_window :: "window_observation \<Rightarrow> quota_window" where
  "blank_percent_window latest =
     \<lparr>qw_kind = classify_window_kind (w_window_minutes (wo_window latest)), qw_unit = PercentUnit,
      qw_window_minutes = w_window_minutes (wo_window latest), qw_used = None, qw_remaining = None,
      qw_limit = Some (f64_of_int 100), qw_unlimited = False,
      qw_resets_at = w_resets_at (wo_window latest), qw_window_started_at = None,
      qw_window_started_at_estimated = False, qw_window_start_basis = UnknownStart,
      qw_observed_at = wo_timestamp latest, qw_confidence = HighConfidence, qw_stale = False,
      qw_unavailable = None, qw_forecast = None\<rparr>"

text \<open>Where the window is taken to have begun.\<close>

definition window_start ::
    "chrono_host \<Rightarrow> window_observation list \<Rightarrow> rate_limit_window
     \<Rightarrow> quota_panic + (timestamp \<times> quota_window_start_basis) option" where
  "window_start host series latest =
     (case detect_counter_decrease series of
        Some rollover_at \<Rightarrow> Inr (Some (rollover_at, CounterDecrease))
      | None \<Rightarrow>
          (case (w_resets_at latest, w_window_minutes latest) of
             (Some r, Some m) \<Rightarrow>
               if \<not> ch_minutes_in_range host (sint m) then Inl DurationOutOfRange
               else if \<not> ch_in_range host (r - sint m * 60 * nanos_per_second) then Inl TimeOutOfRange
               else Inr (Some (r - sint m * 60 * nanos_per_second, ResetScheduleEstimate))
           | _ \<Rightarrow> Inr None))"

definition is_stale :: "timestamp \<Rightarrow> int \<Rightarrow> quota_window \<Rightarrow> bool" where
  "is_stale now max_cache_age w \<longleftrightarrow>
     max_cache_age < now - qw_observed_at w
     \<or> (case qw_resets_at w of None \<Rightarrow> False | Some r \<Rightarrow> r \<le> now)"

text \<open>The window with its readings and its age, before its start is known.\<close>

definition measured_window :: "window_observation \<Rightarrow> timestamp \<Rightarrow> int \<Rightarrow> quota_window" where
  "measured_window latest now max_cache_age =
     (let window = blank_percent_window latest; stale = is_stale now max_cache_age window
      in window\<lparr>qw_stale := stale,
           qw_confidence := (if stale then downgrade (qw_confidence window) LowConfidence
             else qw_confidence window),
           qw_used := Some (f64_clamp (used_percent latest) 0 (f64_of_int 100)),
           qw_remaining := Some (f64_clamp (f64_sub (f64_of_int 100) (used_percent latest)) 0
             (f64_of_int 100))\<rparr>)"

definition started_window ::
    "quota_window \<Rightarrow> timestamp \<Rightarrow> quota_window_start_basis \<Rightarrow> quota_window" where
  "started_window window started basis =
     window\<lparr>qw_window_started_at := Some started, qw_window_started_at_estimated := True,
       qw_window_start_basis := basis,
       qw_confidence := downgrade (qw_confidence window) MediumConfidence\<rparr>"

definition build_percent_window ::
    "chrono_host \<Rightarrow> window_observation list \<Rightarrow> timestamp \<Rightarrow> int \<Rightarrow> quota_panic + quota_window option" where
  "build_percent_window host series now max_cache_age =
     (if series = [] then Inr None
      else
        let latest = last series in
        if now < wo_timestamp latest then
          Inr (Some ((blank_percent_window latest)\<lparr>qw_unavailable := Some ClockSkew,
            qw_confidence := LowConfidence\<rparr>))
        else
          let window = measured_window latest now max_cache_age
          in (case window_start host series (wo_window latest) of
               Inl e \<Rightarrow> Inl e
             | Inr None \<Rightarrow> Inr (Some window)
             | Inr (Some (started, basis)) \<Rightarrow>
                 let window = started_window window started basis
                 in if qw_stale window then Inr (Some window)
                    else (case forecast_from_series host series started (qw_window_minutes window)
                        (qw_resets_at window) now of
                      Inl e \<Rightarrow> Inl e
                    | Inr f \<Rightarrow> Inr (Some (window\<lparr>qw_forecast := f\<rparr>)))))"

definition build_credit_window ::
    "quota_account_info \<Rightarrow> timestamp \<Rightarrow> int \<Rightarrow> quota_window option" where
  "build_credit_window account now max_cache_age =
     (let unlimited = unwrap_or False (qa_credits_unlimited account) in
      if \<not> unlimited \<and> qa_credits_balance account = None then None
      else
        let observed_at = unwrap_or now (qa_observed_at account);
            window =
              \<lparr>qw_kind = CreditBalance, qw_unit = CreditUnit, qw_window_minutes = None, qw_used = None,
               qw_remaining = (if unlimited then None else qa_credits_balance account),
               qw_limit = None, qw_unlimited = unlimited, qw_resets_at = None,
               qw_window_started_at = None, qw_window_started_at_estimated = False,
               qw_window_start_basis = UnknownStart, qw_observed_at = observed_at,
               qw_confidence = HighConfidence, qw_stale = False, qw_unavailable = None,
               qw_forecast = None\<rparr>
        in if now < observed_at then
             Some (window\<lparr>qw_remaining := None, qw_unlimited := False,
               qw_unavailable := Some ClockSkew, qw_confidence := LowConfidence\<rparr>)
           else
             let stale = max_cache_age < now - observed_at
             in Some (window\<lparr>qw_stale := stale,
                  qw_confidence := (if stale then downgrade (qw_confidence window) LowConfidence
                    else qw_confidence window)\<rparr>))"

section \<open>Snapshots\<close>

record live_quota_window =
  lw_used_percent :: f64
  lw_window_minutes :: "u64 option"
  lw_resets_at :: "timestamp option"

record live_quota_credits =
  lc_has_credits :: bool
  lc_unlimited :: bool
  lc_balance :: "f64 option"

record live_quota_bucket =
  lb_limit_id :: string
  lb_limit_name :: "string option"
  lb_spend_control_reached :: "bool option"
  lb_primary :: "live_quota_window option"
  lb_secondary :: "live_quota_window option"
  lb_credits :: "live_quota_credits option"

definition snapshot_of :: "provider_id \<Rightarrow> quota_provenance \<Rightarrow> quota_window list \<Rightarrow> quota_snapshot" where
  "snapshot_of provider provenance windows =
     \<lparr>qs_provider = provider, qs_provenance = provenance, qs_windows = windows,
      qs_unavailable = (if windows = [] then Some NoObservation else None)\<rparr>"

definition ten_minutes :: int where "ten_minutes = 600 * nanos_per_second"

definition live_percent_window ::
    "chrono_host \<Rightarrow> timestamp \<Rightarrow> timestamp \<Rightarrow> live_quota_window option
     \<Rightarrow> quota_panic + quota_window option" where
  "live_percent_window host observed_at now v =
     (case v of
        None \<Rightarrow> Inr None
      | Some lw \<Rightarrow>
          (case build_percent_window host
             [\<lparr>wo_run_started_at = observed_at, wo_timestamp = observed_at,
               wo_window = \<lparr>w_used_percent = lw_used_percent lw,
                 w_window_minutes = lw_window_minutes lw, w_resets_at = lw_resets_at lw\<rparr>,
               wo_observation_count = 1\<rparr>] now ten_minutes of
             Inl e \<Rightarrow> Inl e
           | Inr w \<Rightarrow> Inr (map_option (\<lambda>w. w\<lparr>qw_window_started_at := None,
               qw_window_started_at_estimated := False, qw_window_start_basis := UnknownStart\<rparr>) w)))"

definition option_list :: "'a option \<Rightarrow> 'a list" where
  "option_list x = (case x of None \<Rightarrow> [] | Some v \<Rightarrow> [v])"

definition live_bucket_snapshot ::
    "chrono_host \<Rightarrow> live_quota_bucket \<Rightarrow> timestamp \<Rightarrow> timestamp \<Rightarrow> quota_panic + quota_snapshot" where
  "live_bucket_snapshot host bucket observed_at now =
     (case live_percent_window host observed_at now (lb_primary bucket) of
        Inl e \<Rightarrow> Inl e
      | Inr primary \<Rightarrow>
          (case live_percent_window host observed_at now (lb_secondary bucket) of
             Inl e \<Rightarrow> Inl e
           | Inr secondary \<Rightarrow>
               let credits = Option.bind (lb_credits bucket) (\<lambda>c. build_credit_window
                     \<lparr>qa_credits_unlimited = Some (lc_unlimited c), qa_credits_balance = lc_balance c,
                      qa_observed_at = Some observed_at\<rparr> now ten_minutes)
               in Inr (snapshot_of codex_provider_id LiveProvider
                    (option_list primary @ option_list secondary @ option_list credits))))"

definition build_quota_snapshot ::
    "chrono_host \<Rightarrow> provider_id \<Rightarrow> bool \<Rightarrow> rate_limit_snapshot_point list \<Rightarrow> quota_account_info
     \<Rightarrow> timestamp \<Rightarrow> int \<Rightarrow> quota_panic + quota_snapshot" where
  "build_quota_snapshot host provider source_supported points account now max_cache_age =
     (if \<not> source_supported then
        Inr \<lparr>qs_provider = provider, qs_provenance = TranscriptDerived, qs_windows = [],
             qs_unavailable = Some NoQuotaSource\<rparr>
      else
        case build_percent_window host (window_series points p_primary) now max_cache_age of
          Inl e \<Rightarrow> Inl e
        | Inr primary \<Rightarrow>
            (case build_percent_window host (window_series points p_secondary) now max_cache_age of
               Inl e \<Rightarrow> Inl e
             | Inr secondary \<Rightarrow>
                 Inr (snapshot_of provider TranscriptDerived
                   (option_list primary @ option_list secondary
                    @ option_list (build_credit_window account now max_cache_age)))))"

end
