(* ===== verification/Quota_Index.thy ===== *)
theory Quota_Index
  imports Quota_Windows
begin

text \<open>
  The two ways \<open>src-tauri/src/quota.rs\<close> gets from sessions to quota snapshots: the walk over the whole
  corpus (\<open>quota_snapshots_from_sessions\<close>) and the index that is maintained session by session and
  keeps a bounded number of points per provider (\<open>QuotaPointsIndex\<close>). A \<open>HashMap\<close> that is only looked up is
  a function to options, a \<open>BTreeMap\<close> a strictly sorted association list.
\<close>

section \<open>From the corpus\<close>

definition max_points_per_provider :: nat where "max_points_per_provider = 2000"
definition retained_points_per_provider :: nat where "retained_points_per_provider = 4 * max_points_per_provider"

fun collect_results :: "('e + 'a) list \<Rightarrow> 'e + 'a list" where
  "collect_results [] = Inr []"
| "collect_results (Inl e # rs) = Inl e"
| "collect_results (Inr x # rs) = (case collect_results rs of Inl e \<Rightarrow> Inl e | Inr xs \<Rightarrow> Inr (x # xs))"

definition has_credits :: "session \<Rightarrow> bool" where
  "has_credits s \<longleftrightarrow> s_credits_unlimited s \<noteq> None \<or> s_credits_balance s \<noteq> None"

definition account_of :: "session \<Rightarrow> quota_account_info" where
  "account_of s =
     \<lparr>qa_credits_unlimited = s_credits_unlimited s, qa_credits_balance = s_credits_balance s,
      qa_observed_at = Some (s_last_event_at s)\<rparr>"

text \<open>One session of the walk: the points and the account of its provider.\<close>

definition gather_points ::
    "session \<Rightarrow> (provider_id \<Rightarrow> rate_limit_snapshot_point list) \<Rightarrow> provider_id
     \<Rightarrow> rate_limit_snapshot_point list" where
  "gather_points s points = points(s_harness s := points (s_harness s) @ s_rate_limits_history s)"

definition newer_account :: "quota_account_info \<Rightarrow> quota_account_info \<Rightarrow> bool" where
  "newer_account candidate existing \<longleftrightarrow>
     (case qa_observed_at existing of
        None \<Rightarrow> True
      | Some e \<Rightarrow> (case qa_observed_at candidate of None \<Rightarrow> False | Some c \<Rightarrow> e < c))"

definition gather_account ::
    "session \<Rightarrow> (provider_id \<Rightarrow> quota_account_info option) \<Rightarrow> provider_id \<Rightarrow> quota_account_info option" where
  "gather_account s accounts =
     (if has_credits s then
        (case accounts (s_harness s) of
           None \<Rightarrow> accounts(s_harness s \<mapsto> account_of s)
         | Some existing \<Rightarrow>
             if newer_account (account_of s) existing then accounts(s_harness s \<mapsto> account_of s)
             else accounts)
      else accounts)"

definition newest_points :: "'a list \<Rightarrow> 'a list" where
  "newest_points points =
     (if max_points_per_provider < length points
      then drop (length points - max_points_per_provider) points else points)"

definition quota_snapshots_from_sessions ::
    "chrono_host \<Rightarrow> session list \<Rightarrow> timestamp \<Rightarrow> int \<Rightarrow> quota_panic + quota_snapshot list" where
  "quota_snapshots_from_sessions host sessions now max_cache_age =
     (let points = fold gather_points sessions (\<lambda>_. []);
          accounts = fold gather_account sessions (\<lambda>_. None)
      in collect_results (map (\<lambda>a. let d = descriptor a in
           build_quota_snapshot host (pd_id d) (cap_quota_source (pd_capabilities d))
             (newest_points (sort_key p_timestamp (points (pd_id d))))
             (unwrap_or default_account (accounts (pd_id d))) now max_cache_age) builtin_adapters))"

section \<open>The index\<close>

type_synonym point_key = "timestamp \<times> string \<times> u32"

definition key_session :: "point_key \<Rightarrow> string" where
  "key_session k = fst (snd k)"

record session_contribution =
  sc_provider :: provider_id
  sc_point_keys :: "point_key list"
  sc_account_key :: "(timestamp \<times> string) option"

record points_index =
  ix_points :: "provider_id \<Rightarrow> (point_key \<times> rate_limit_snapshot_point) list option"
  ix_accounts :: "provider_id \<Rightarrow> ((timestamp \<times> string) \<times> quota_account_info) list option"
  ix_contributions :: "string \<Rightarrow> session_contribution option"

definition empty_index :: points_index where
  "empty_index = \<lparr>ix_points = (\<lambda>_. None), ix_accounts = (\<lambda>_. None), ix_contributions = (\<lambda>_. None)\<rparr>"

definition map_bucket :: "('v \<Rightarrow> 'v) \<Rightarrow> 'k \<Rightarrow> ('k \<Rightarrow> 'v option) \<Rightarrow> 'k \<Rightarrow> 'v option" where
  "map_bucket f k m = (case m k of None \<Rightarrow> m | Some v \<Rightarrow> m(k \<mapsto> f v))"

definition retract_session :: "string \<Rightarrow> points_index \<Rightarrow> points_index" where
  "retract_session session_key ix =
     (case ix_contributions ix session_key of
        None \<Rightarrow> ix
      | Some c \<Rightarrow>
          ix\<lparr>ix_points := map_bucket (fold hm_remove (sc_point_keys c)) (sc_provider c) (ix_points ix),
             ix_accounts := (case sc_account_key c of
                 None \<Rightarrow> ix_accounts ix
               | Some k \<Rightarrow> map_bucket (hm_remove k) (sc_provider c) (ix_accounts ix)),
             ix_contributions := (ix_contributions ix)(session_key := None)\<rparr>)"

definition session_entries :: "string \<Rightarrow> session \<Rightarrow> (point_key \<times> rate_limit_snapshot_point) list" where
  "session_entries session_key s =
     map (\<lambda>(seq, p). ((p_timestamp p, session_key, of_nat seq), p)) (enumerate 0 (s_rate_limits_history s))"

definition insert_points ::
    "(point_key \<times> rate_limit_snapshot_point) list \<Rightarrow> (point_key \<times> rate_limit_snapshot_point) list
     \<Rightarrow> (point_key \<times> rate_limit_snapshot_point) list" where
  "insert_points entries bucket = fold (\<lambda>(k, p). tm_entry k p (\<lambda>_. p)) entries bucket"

text \<open>Eviction of the oldest points of a provider, from whichever session they came; the keys that are
  not yet stored are trimmed with those of the other sessions.\<close>

definition drop_keys :: "point_key list \<Rightarrow> point_key list \<Rightarrow> point_key list" where
  "drop_keys evicted keys = filter (\<lambda>k. k \<notin> set evicted) keys"

definition evict_excess ::
    "provider_id \<Rightarrow> string \<Rightarrow> points_index \<Rightarrow> point_key list \<Rightarrow> points_index \<times> point_key list" where
  "evict_excess provider session_key ix point_keys =
     (case ix_points ix provider of
        None \<Rightarrow> (ix, point_keys)
      | Some bucket \<Rightarrow>
          if length bucket \<le> retained_points_per_provider then (ix, point_keys)
          else
            let excess = length bucket - retained_points_per_provider;
                evicted = map fst (take excess bucket);
                owned = (\<lambda>owner. filter (\<lambda>k. key_session k = owner) evicted)
            in (ix\<lparr>ix_points := (ix_points ix)(provider \<mapsto> drop excess bucket),
                   ix_contributions := (\<lambda>owner.
                     if owner = session_key \<or> owned owner = [] then ix_contributions ix owner
                     else map_option (\<lambda>c. c\<lparr>sc_point_keys := drop_keys (owned owner) (sc_point_keys c)\<rparr>)
                       (ix_contributions ix owner))\<rparr>,
                drop_keys (owned session_key) point_keys))"

definition place_points :: "string \<Rightarrow> session \<Rightarrow> points_index \<Rightarrow> points_index \<times> point_key list" where
  "place_points session_key s ix =
     (if s_rate_limits_history s = [] then (ix, [])
      else
        let entries = session_entries session_key s;
            bucket = insert_points entries (unwrap_or [] (ix_points ix (s_harness s)))
        in evict_excess (s_harness s) session_key
             (ix\<lparr>ix_points := (ix_points ix)(s_harness s \<mapsto> bucket)\<rparr>) (map fst entries))"

definition update_session :: "string \<Rightarrow> session \<Rightarrow> points_index \<Rightarrow> points_index" where
  "update_session session_key s ix =
     (let provider = s_harness s;
          (ix, point_keys) = place_points session_key s (retract_session session_key ix);
          account_key = (if has_credits s then Some (s_last_event_at s, session_key) else None);
          ix = (case account_key of
                  None \<Rightarrow> ix
                | Some k \<Rightarrow> ix\<lparr>ix_accounts := (ix_accounts ix)(provider \<mapsto>
                    tm_entry k (account_of s) (\<lambda>_. account_of s) (unwrap_or [] (ix_accounts ix provider)))\<rparr>)
      in if point_keys = [] \<and> account_key = None
         then ix\<lparr>ix_contributions := (ix_contributions ix)(session_key := None)\<rparr>
         else ix\<lparr>ix_contributions := (ix_contributions ix)(session_key \<mapsto>
           \<lparr>sc_provider = provider, sc_point_keys = point_keys, sc_account_key = account_key\<rparr>)\<rparr>)"

definition provider_points :: "points_index \<Rightarrow> provider_id \<Rightarrow> rate_limit_snapshot_point list" where
  "provider_points ix provider =
     (case ix_points ix provider of
        None \<Rightarrow> []
      | Some bucket \<Rightarrow>
          if length bucket \<le> max_points_per_provider then map snd bucket
          else rev (take max_points_per_provider (rev (map snd bucket))))"

definition provider_account :: "points_index \<Rightarrow> provider_id \<Rightarrow> quota_account_info" where
  "provider_account ix provider =
     (case ix_accounts ix provider of
        None \<Rightarrow> default_account
      | Some bucket \<Rightarrow> if bucket = [] then default_account else snd (last bucket))"

definition index_snapshots ::
    "chrono_host \<Rightarrow> points_index \<Rightarrow> timestamp \<Rightarrow> int \<Rightarrow> quota_panic + quota_snapshot list" where
  "index_snapshots host ix now max_cache_age =
     collect_results (map (\<lambda>a. let d = descriptor a in
       build_quota_snapshot host (pd_id d) (cap_quota_source (pd_capabilities d))
         (provider_points ix (pd_id d)) (provider_account ix (pd_id d)) now max_cache_age)
       builtin_adapters)"

section \<open>Histories of updates\<close>

text \<open>The corpus after the same operations.\<close>

datatype index_operation = UpdateSession string session | RemoveSession string

fun apply_operation :: "index_operation \<Rightarrow> points_index \<Rightarrow> points_index" where
  "apply_operation (UpdateSession k s) ix = update_session k s ix"
| "apply_operation (RemoveSession k) ix = retract_session k ix"

fun corpus_operation :: "index_operation \<Rightarrow> (string \<Rightarrow> session option) \<Rightarrow> string \<Rightarrow> session option" where
  "corpus_operation (UpdateSession k s) corpus = corpus(k \<mapsto> s)"
| "corpus_operation (RemoveSession k) corpus = corpus(k := None)"

definition index_after :: "index_operation list \<Rightarrow> points_index" where
  "index_after ops = fold apply_operation ops empty_index"

definition corpus_after :: "index_operation list \<Rightarrow> string \<Rightarrow> session option" where
  "corpus_after ops = fold corpus_operation ops (\<lambda>_. None)"

definition short_history :: "index_operation \<Rightarrow> bool" where
  "short_history oper =
     (case oper of UpdateSession _ s \<Rightarrow> length (s_rate_limits_history s) < 2 ^ 32 | RemoveSession _ \<Rightarrow> True)"

end
