(* ===== verification/Quota_Facts.thy ===== *)
theory Quota_Facts
  imports Quota_Windows
begin

text \<open>
  What the windows of \<open>Quota_Windows\<close> promise: no number where there is none, readings in range,
  forecasts only on enough evidence and never into the past, and the same answer on a collapsed
  history as on the raw one.
\<close>

section \<open>Honesty\<close>

definition window_honest :: "timestamp \<Rightarrow> int \<Rightarrow> quota_window \<Rightarrow> bool" where
  "window_honest now max_cache_age w \<longleftrightarrow>
     (if qw_unavailable w \<noteq> None then
        qw_unavailable w = Some ClockSkew \<and> now < qw_observed_at w
        \<and> qw_used w = None \<and> qw_remaining w = None \<and> \<not> qw_unlimited w \<and> qw_forecast w = None
        \<and> qw_confidence w = LowConfidence
      else
        qw_observed_at w \<le> now
        \<and> qw_stale w = is_stale now max_cache_age w
        \<and> (qw_stale w \<longrightarrow> qw_forecast w = None \<and> qw_confidence w = LowConfidence)
        \<and> (qw_forecast w \<noteq> None \<longrightarrow> qw_window_started_at w \<noteq> None)
        \<and> (qw_window_started_at w = None) = (qw_window_start_basis w = UnknownStart)
        \<and> (qw_window_started_at w \<noteq> None \<longrightarrow> qw_confidence w \<noteq> HighConfidence)
        \<and> (case qw_unit w of
             PercentUnit \<Rightarrow>
               (\<exists>u r. qw_used w = Some u \<and> f64_le 0 u \<and> f64_le u (f64_of_int 100)
                  \<and> qw_remaining w = Some r
                  \<and> (\<not> f64_is_nan r \<longrightarrow> f64_le 0 r \<and> f64_le r (f64_of_int 100)))
           | CreditUnit \<Rightarrow> qw_used w = None \<and> (qw_remaining w = None) = qw_unlimited w))"

lemma f64_hundred: "f64_le 0 (f64_of_int 100)"
  by code_simp

lemma downgrade_simps [simp]:
  "downgrade c LowConfidence = LowConfidence" "downgrade c MediumConfidence \<noteq> HighConfidence"
  "downgrade LowConfidence c = LowConfidence"
  by (cases c; simp add: downgrade_def confidence_rank_def)+

lemma clamped:
  "\<not> f64_is_nan x \<Longrightarrow> f64_le 0 (f64_clamp x 0 (f64_of_int 100)) \<and> f64_le (f64_clamp x 0 (f64_of_int 100)) (f64_of_int 100)"
  using f64_clamp_bounds f64_hundred by blast

lemma clamp_nan: "\<not> f64_is_nan (f64_clamp x 0 (f64_of_int 100)) \<Longrightarrow> \<not> f64_is_nan x"
  by (auto simp: f64_clamp_def f64_lt_def)

lemma window_start_basis:
  "window_start host series latest = Inr (Some (t, basis)) \<Longrightarrow> basis \<noteq> UnknownStart"
  by (auto simp: window_start_def split: option.splits if_splits)

text \<open>The windows \<open>build_percent_window\<close> returns.\<close>

lemma build_percent_cases:
  assumes "build_percent_window host series now max_cache_age = Inr (Some w)"
  obtains (skewed) "series \<noteq> []" "now < wo_timestamp (last series)"
      "w = (blank_percent_window (last series))\<lparr>qw_unavailable := Some ClockSkew,
        qw_confidence := LowConfidence\<rparr>"
  | (unknown_start) "series \<noteq> []" "wo_timestamp (last series) \<le> now"
      "window_start host series (wo_window (last series)) = Inr None"
      "w = measured_window (last series) now max_cache_age"
  | (started) start basis f where "series \<noteq> []" "wo_timestamp (last series) \<le> now"
      "window_start host series (wo_window (last series)) = Inr (Some (start, basis))"
      "w = (started_window (measured_window (last series) now max_cache_age) start basis)\<lparr>qw_forecast := f\<rparr>"
      "if qw_stale w then f = None
       else forecast_from_series host series start (w_window_minutes (wo_window (last series)))
         (w_resets_at (wo_window (last series))) now = Inr f"
proof (cases "now < wo_timestamp (last series)")
  case True
  with assms skewed show thesis
    by (auto simp: build_percent_window_def split: if_splits)
next
  case False
  let ?m = "measured_window (last series) now max_cache_age"
  have fields: "qw_window_minutes ?m = w_window_minutes (wo_window (last series))"
      "qw_resets_at ?m = w_resets_at (wo_window (last series))" "qw_forecast ?m = None"
    by (simp_all add: measured_window_def blank_percent_window_def Let_def)
  from assms have ne: "series \<noteq> []" by (auto simp: build_percent_window_def)
  from assms False ne obtain s where s: "window_start host series (wo_window (last series)) = Inr s"
    by (cases "window_start host series (wo_window (last series))")
      (auto simp: build_percent_window_def Let_def)
  show thesis
  proof (cases s)
    case None
    with assms False ne s unknown_start show thesis
      by (simp add: build_percent_window_def Let_def)
  next
    case (Some sb)
    obtain start basis where sb: "sb = (start, basis)" by (cases sb)
    let ?w = "started_window ?m start basis"
    have w: "(if qw_stale ?w then Inr (Some ?w)
        else case forecast_from_series host series start (qw_window_minutes ?w) (qw_resets_at ?w) now of
          Inl e \<Rightarrow> Inl e | Inr f \<Rightarrow> Inr (Some (?w\<lparr>qw_forecast := f\<rparr>))) = Inr (Some w)"
      using assms False ne s by (simp add: build_percent_window_def Let_def Some sb)
    have same: "qw_window_minutes ?w = w_window_minutes (wo_window (last series))"
        "qw_resets_at ?w = w_resets_at (wo_window (last series))" "?w\<lparr>qw_forecast := None\<rparr> = ?w"
      using fields by (simp_all add: started_window_def)
    have start: "window_start host series (wo_window (last series)) = Inr (Some (start, basis))"
      by (simp add: s Some sb)
    have t: "wo_timestamp (last series) \<le> now" using False by simp
    show thesis
    proof (cases "qw_stale ?w")
      case True
      with w have "w = ?w" by (simp only: if_True sum.inject option.inject)
      then have e: "w = ?w\<lparr>qw_forecast := None\<rparr>" by (simp only: same(3))
      show thesis
        by (rule started[OF ne t start e]) (simp only: \<open>w = ?w\<close> True if_True)
    next
      case fresh: False
      with w same obtain f where f: "forecast_from_series host series start
            (w_window_minutes (wo_window (last series))) (w_resets_at (wo_window (last series))) now = Inr f"
          "w = ?w\<lparr>qw_forecast := f\<rparr>"
      proof (cases "forecast_from_series host series start
            (w_window_minutes (wo_window (last series))) (w_resets_at (wo_window (last series))) now")
        case (Inl e)
        with w fresh show thesis by (simp only: same if_False sum.case sum.distinct)
      next
        case (Inr f)
        with w fresh that show thesis
          by (simp only: same if_False sum.case sum.inject option.inject)
      qed
      have "qw_stale w = qw_stale ?w" by (simp add: f(2))
      with fresh show thesis
        by (intro started[OF ne t start f(2)]) (simp only: f(1) if_False)
    qed
  qed
qed

lemma measured_honest:
  assumes "wo_timestamp latest \<le> now" "\<not> f64_is_nan (used_percent latest)"
  shows "window_honest now max_cache_age (measured_window latest now max_cache_age)"
  using assms clamped[OF assms(2)] clamped clamp_nan
  by (auto simp: window_honest_def measured_window_def blank_percent_window_def is_stale_def Let_def)

lemma build_percent_honest:
  assumes "build_percent_window host series now max_cache_age = Inr (Some w)"
    and "\<not> f64_is_nan (used_percent (last series))"
  shows "window_honest now max_cache_age w \<and> qw_unit w = PercentUnit"
  using assms(1)
proof (cases rule: build_percent_cases)
  case skewed
  then show ?thesis by (simp add: window_honest_def blank_percent_window_def)
next
  case unknown_start
  with assms(2) measured_honest[of "last series" now max_cache_age] show ?thesis
    by (simp add: measured_window_def blank_percent_window_def Let_def)
next
  case (started start basis f)
  let ?m = "measured_window (last series) now max_cache_age"
  have "window_honest now max_cache_age ?m" "qw_unit ?m = PercentUnit" "qw_unavailable ?m = None"
    using measured_honest[OF started(2) assms(2)]
    by (simp_all add: measured_window_def blank_percent_window_def Let_def)
  with started window_start_basis[OF started(3)] show ?thesis
    by (auto simp: window_honest_def started_window_def is_stale_def)
qed

lemma build_credit_honest:
  assumes "build_credit_window account now max_cache_age = Some w"
  shows "window_honest now max_cache_age w \<and> qw_unit w = CreditUnit"
  using assms
  by (auto simp: build_credit_window_def window_honest_def is_stale_def Let_def split: if_splits)

definition reading_of :: "(rate_limit_snapshot_point \<Rightarrow> rate_limit_window option)
    \<Rightarrow> rate_limit_snapshot_point \<Rightarrow> bool" where
  "reading_of pick p \<longleftrightarrow> pred_option (\<lambda>w. \<not> f64_is_nan (w_used_percent w)) (pick p)"

lemma window_series_member:
  "o1 \<in> set (window_series points pick) \<longleftrightarrow>
    (\<exists>p\<in>set points. \<exists>w. pick p = Some w \<and> o1 = observation_of p w)"
  by (auto simp: window_series_def map_filter_def image_iff) force+

lemma series_numbers:
  assumes "list_all (reading_of pick) points" "window_series points pick \<noteq> []"
  shows "\<not> f64_is_nan (used_percent (last (window_series points pick)))"
  using last_in_set[OF assms(2)] assms(1)
  by (auto simp: window_series_member list_all_iff reading_of_def used_percent_def observation_of_def)

lemma build_percent_some: "build_percent_window host series now age = Inr (Some w) \<Longrightarrow> series \<noteq> []"
  by (auto simp: build_percent_window_def)

lemma set_option_list: "set (option_list x) = set_option x"
  by (cases x) (simp_all add: option_list_def)

text \<open>C27: A quota snapshot never invents a number. When the readings of the points are numbers (no NaN,
  which JSON cannot hold), every window either says that its observation lies in
  the future, and then has neither numbers nor forecast nor confidence, or rests on an observation of
  the past: a percentage window then has what is used and, if it is a number, what remains, both between 0 and 100, a
  credit window has a balance unless the plan is unlimited; it is marked stale exactly when the
  observation is older than the limit or the window has been reset since, and a stale window has low
  confidence and no forecast. A provider is unavailable exactly when it has no window.\<close>

theorem quota_snapshot_honest:
  assumes "build_quota_snapshot host provider supported points account now max_cache_age = Inr s"
    and "list_all (\<lambda>p. reading_of p_primary p \<and> reading_of p_secondary p) points"
  shows "(\<forall>w\<in>set (qs_windows s). window_honest now max_cache_age w)
    \<and> (qs_unavailable s \<noteq> None \<longleftrightarrow> qs_windows s = [])
    \<and> (qs_unavailable s = Some NoQuotaSource \<longleftrightarrow> \<not> supported)"
proof -
  have n: "list_all (reading_of p_primary) points" "list_all (reading_of p_secondary) points"
    using assms(2) by (simp_all add: list_all_iff)
  have honest: "window_honest now max_cache_age w"
    if "build_percent_window host (window_series points pick) now max_cache_age = Inr (Some w)"
      "list_all (reading_of pick) points" for pick w
    using build_percent_honest[OF that(1) series_numbers[OF that(2) build_percent_some[OF that(1)]]]
    by blast
  show ?thesis
    using assms(1) honest n build_credit_honest
    by (auto simp: build_quota_snapshot_def snapshot_of_def set_option_list split: if_splits sum.splits)
qed

section \<open>Forecasts\<close>

lemma projected_sound:
  assumes "projected_exhaustion host pace used resets_at now = Inr (Some t)"
  shows "now \<le> t \<and> ch_in_range host t \<and> (\<forall>r. resets_at = Some r \<longrightarrow> t < r) \<and> f64_lt 0 pace"
proof -
  let ?x = "f64_round (f64_mul (f64_div (f64_max (f64_sub (f64_of_int 100) used) 0) pace)
      (f64_of_int 3600000))"
  have pace: "f64_lt 0 pace" using assms by (auto simp: projected_exhaustion_def split: if_splits)
  from f64_lt_zero[OF this] have "f64_nonneg pace" "\<not> f64_is_zero pace"
    by (simp_all add: f64_nonneg_def f64_ge_zero_def)
  then have "f64_nonneg ?x"
    by (intro f64_round_nonneg f64_mul_nonneg f64_div_nonneg f64_max_zero f64_of_int_nonneg) simp_all
  from f64_to_i64_nonneg[OF this] assms pace show ?thesis
    by (auto simp: projected_exhaustion_def Let_def split: if_splits option.splits)
qed

text \<open>C28: A forecast is made only on evidence and never into the past. It rests on at least five
  observations inside the window; from the start of the first of them (or the start of the window, if
  that is later) to the last they span a positive time of at least a tenth of the window, as quotients
  of \<open>f64\<close>; the pace is the difference of their readings over that span and not negative; and the
  projected exhaustion, when there is one, lies neither before now nor at or after the window's own
  reset, and there is none without a positive pace.\<close>

theorem forecast_sound:
  fixes series started now
  defines "evidence \<equiv> filter (\<lambda>p. started \<le> wo_timestamp p \<and> wo_timestamp p \<le> now) series"
  defines "span_minutes \<equiv> f64_div (seconds_f64 (wo_timestamp (last evidence)
      - max (wo_run_started_at (hd evidence)) started)) (f64_of_int 60)"
  assumes "forecast_from_series host series started window_minutes resets_at now = Inr (Some f)"
  shows "\<exists>m. window_minutes = Some m \<and> m \<noteq> 0
    \<and> 5 \<le> (\<Sum>o1\<leftarrow>evidence. unat (wo_observation_count o1))
    \<and> fc_evidence_points f = (\<Sum>o1\<leftarrow>evidence. unat (wo_observation_count o1))
    \<and> \<not> f64_lt (f64_div span_minutes (f64_of_int (uint m))) (f64_of_ratio False 1 10)
    \<and> \<not> f64_le_zero (f64_div span_minutes (f64_of_int 60))
    \<and> fc_pace_per_hour f = f64_div (f64_sub (used_percent (last evidence)) (used_percent (hd evidence)))
        (f64_div span_minutes (f64_of_int 60))
    \<and> f64_nonneg (fc_pace_per_hour f)
    \<and> (\<forall>t. fc_projected_exhaustion_at f = Some t \<longrightarrow>
        now \<le> t \<and> pred_option (\<lambda>r. t < r) resets_at \<and> f64_lt 0 (fc_pace_per_hour f))"
proof -
  have evidence: "in_window_evidence series started now = evidence"
    by (simp add: evidence_def in_window_evidence_def)
  from assms(3) obtain m where m: "window_minutes = Some m"
    by (auto simp: forecast_from_series_def split: option.splits)
  define minutes where "minutes = f64_of_int (uint m)"
  define hours where "hours = f64_div span_minutes (f64_of_int 60)"
  define delta where "delta = f64_sub (used_percent (last evidence)) (used_percent (hd evidence))"
  note steps = forecast_from_series_def evidence minutes_def[symmetric] span_minutes_def[symmetric]
    hours_def[symmetric] delta_def[symmetric]
  from assms(3) have enough: "\<not> f64_le_zero minutes" "min_evidence_points \<le> evidence_of evidence"
      "\<not> f64_lt (f64_div span_minutes minutes) min_evidence_span_fraction"
      "\<not> f64_le_zero hours" "\<not> f64_lt delta 0"
    by (auto simp: steps m Let_def split: if_splits)
  from assms(3) enough obtain projected where
    p: "projected_exhaustion host (f64_div delta hours) (used_percent (last evidence)) resets_at now
        = Inr projected" "fc_projected_exhaustion_at f = projected" "fc_pace_per_hour f = f64_div delta hours"
      "fc_evidence_points f = evidence_of evidence"
    by (auto simp: steps m Let_def split: if_splits sum.splits)
  have "m \<noteq> 0"
  proof
    assume "m = 0"
    then have "f64_le_zero minutes"
      by (simp add: minutes_def f64_of_int_def f64_of_ratio_def f64_sign_bit_def f64_le_zero_def)
    with enough(1) show False by simp
  qed
  moreover have "f64_nonneg (f64_div delta hours)"
    using f64_not_negative[OF enough(5)] enough(4)
    by (intro f64_div_nonneg)
      (auto simp: f64_le_zero_def f64_nonneg_def f64_ge_zero_def f64_classify[OF refl])
  ultimately show ?thesis
    using m enough(2-4) p projected_sound[of host "f64_div delta hours" "used_percent (last evidence)" resets_at now]
    by (cases resets_at)
      (auto simp: evidence_of_def min_evidence_points_def min_evidence_span_fraction_def minutes_def hours_def delta_def)
qed

section \<open>Collapsed histories\<close>

text \<open>A run of raw observations and the collapsed observation that stands for it.\<close>

definition run_of :: "window_observation list \<Rightarrow> window_observation \<Rightarrow> bool" where
  "run_of run o1 \<longleftrightarrow>
     run \<noteq> [] \<and> (\<forall>r\<in>set run. wo_window r = wo_window o1 \<and> wo_run_started_at r = wo_timestamp r
        \<and> wo_observation_count r = 1)
     \<and> wo_run_started_at o1 = wo_timestamp (hd run) \<and> wo_timestamp o1 = wo_timestamp (last run)
     \<and> unat (wo_observation_count o1) = length run"

text \<open>No run straddles the bound \<open>t\<close>.\<close>

definition unsplit :: "timestamp \<Rightarrow> window_observation list \<Rightarrow> bool" where
  "unsplit t run \<longleftrightarrow> (\<forall>r\<in>set run. t \<le> wo_timestamp r) \<or> (\<forall>r\<in>set run. wo_timestamp r < t)"

lemma run_of_window: "run_of run o1 \<Longrightarrow> wo_window (hd run) = wo_window o1 \<and> wo_window (last run) = wo_window o1"
  by (simp add: run_of_def)

lemma runs_last:
  assumes "list_all2 run_of runs series" "series \<noteq> []"
  shows "concat runs \<noteq> [] \<and> wo_window (last (concat runs)) = wo_window (last series)
    \<and> wo_timestamp (last (concat runs)) = wo_timestamp (last series)"
  using assms
proof (induction rule: list_all2_induct)
  case (Cons run runs o1 series)
  then have "run \<noteq> []" by (simp add: run_of_def)
  show ?case
  proof (cases "series = []")
    case True
    with Cons show ?thesis by (auto simp: run_of_def)
  next
    case False
    with Cons \<open>run \<noteq> []\<close> show ?thesis by simp
  qed
qed simp

lemma runs_hd:
  assumes "list_all2 run_of runs series" "series \<noteq> []"
  shows "wo_window (hd (concat runs)) = wo_window (hd series)
    \<and> wo_run_started_at (hd (concat runs)) = wo_run_started_at (hd series)"
  using assms by (cases runs; cases series) (auto simp: run_of_def)

lemma runs_evidence: "list_all2 run_of runs series \<Longrightarrow> evidence_of (concat runs) = evidence_of series"
proof (induction rule: list_all2_induct)
  case (Cons run runs o1 series)
  have "(\<Sum>o1\<leftarrow>run. unat (wo_observation_count o1)) = length run"
    if "\<forall>r\<in>set run. wo_observation_count r = 1" using that by (induction run) simp_all
  with Cons show ?case by (auto simp: evidence_of_def run_of_def)
qed (simp add: evidence_of_def)

lemma runs_in_window:
  assumes "list_all2 run_of runs series" "list_all (unsplit t) runs" "\<forall>o1\<in>set (concat runs). wo_timestamp o1 \<le> now"
  shows "\<exists>runs'. list_all2 run_of runs' (in_window_evidence series t now)
    \<and> in_window_evidence (concat runs) t now = concat runs'"
  using assms
proof (induction rule: list_all2_induct)
  case (Cons run runs o1 series)
  then obtain runs' where r: "list_all2 run_of runs' (in_window_evidence series t now)"
      "in_window_evidence (concat runs) t now = concat runs'" by auto
  have last: "wo_timestamp o1 = wo_timestamp (last run)" "last run \<in> set run"
    using Cons(1) by (simp_all add: run_of_def)
  from Cons.prems(1) consider "\<forall>r\<in>set run. t \<le> wo_timestamp r" | "\<forall>r\<in>set run. wo_timestamp r < t"
    by (auto simp: unsplit_def)
  then show ?case
  proof cases
    case 1
    with Cons.prems last have "t \<le> wo_timestamp o1 \<and> wo_timestamp o1 \<le> now" by auto
    moreover have "filter (\<lambda>p. t \<le> wo_timestamp p \<and> wo_timestamp p \<le> now) run = run"
      using 1 Cons.prems by (simp add: filter_id_conv)
    ultimately show ?thesis
      using r Cons(1) by (intro exI[of _ "run # runs'"]) (simp add: in_window_evidence_def)
  next
    case 2
    with last have "wo_timestamp o1 < t" by auto
    moreover have "filter (\<lambda>p. t \<le> wo_timestamp p \<and> wo_timestamp p \<le> now) run = []"
      using 2 by (force simp: filter_empty_conv)
    ultimately show ?thesis
      using r by (intro exI[of _ runs']) (simp add: in_window_evidence_def)
  qed
qed (simp add: in_window_evidence_def)

lemma runs_forecast:
  assumes "list_all2 run_of runs series" "list_all (unsplit t) runs" "\<forall>o1\<in>set (concat runs). wo_timestamp o1 \<le> now"
  shows "forecast_from_series host (concat runs) t minutes resets_at now
    = forecast_from_series host series t minutes resets_at now"
proof -
  from runs_in_window[OF assms] obtain runs' where
    r: "list_all2 run_of runs' (in_window_evidence series t now)"
      "in_window_evidence (concat runs) t now = concat runs'" by blast
  show ?thesis
  proof (cases "in_window_evidence series t now = []")
    case True
    with r have "concat runs' = []" by simp
    with True r show ?thesis
      by (simp add: forecast_from_series_def Let_def evidence_of_def min_evidence_points_def split: option.split)
  next
    case False
    note facts = runs_evidence[OF r(1)] runs_last[OF r(1) False] runs_hd[OF r(1) False]
    show ?thesis
      unfolding forecast_from_series_def Let_def r(2) used_percent_def facts(1)
        facts(2)[THEN conjunct2, THEN conjunct1] facts(2)[THEN conjunct2, THEN conjunct2]
        facts(3)[THEN conjunct1] facts(3)[THEN conjunct2] ..
  qed
qed

lemma find_append: "List.find P (xs @ ys) = (case List.find P xs of None \<Rightarrow> List.find P ys | Some x \<Rightarrow> Some x)"
  by (induction xs) auto

lemma detect_simps:
  "detect_counter_decrease [] = None" "detect_counter_decrease [x] = None"
  "detect_counter_decrease (x # y # zs) =
     (case detect_counter_decrease (y # zs) of
        None \<Rightarrow> if dropped_to x y then Some (wo_run_started_at y) else None
      | Some t \<Rightarrow> Some t)"
  by (auto simp: detect_counter_decrease_def find_append split: option.splits)

lemma no_drop_same: "wo_window x = wo_window y \<Longrightarrow> \<not> dropped_to x y"
proof -
  have "\<not> f64_le rollover_drop_threshold_percent (f64_sign_bit neg)" for neg
    by (cases neg) (simp_all add: f64_sign_bit_def rollover_drop_threshold_percent_def, code_simp+)
  moreover have "\<not> f64_le rollover_drop_threshold_percent f64_nan"
    by (simp add: f64_le_def f64_nan_is_nan)
  ultimately show "wo_window x = wo_window y \<Longrightarrow> \<not> dropped_to x y"
    using f64_sub_self[of "used_percent y"] by (auto simp: dropped_to_def used_percent_def)
qed

lemma detect_run:
  assumes "run \<noteq> []" "\<forall>r\<in>set run. wo_window r = w" "rest \<noteq> []"
  shows "detect_counter_decrease (run @ rest) =
     (case detect_counter_decrease rest of
        None \<Rightarrow> if dropped_to (last run) (hd rest) then Some (wo_run_started_at (hd rest)) else None
      | Some t \<Rightarrow> Some t)"
  using assms
proof (induction run)
  case (Cons x run)
  show ?case
  proof (cases run)
    case Nil
    with Cons.prems show ?thesis
      by (cases rest) (auto simp: detect_simps split: option.splits)
  next
    case (Cons y ys)
    with Cons.prems no_drop_same[of x y] Cons.IH show ?thesis
      by (auto simp: detect_simps split: option.splits if_splits)
  qed
qed simp

lemma detect_single_run: "\<forall>r\<in>set run. wo_window r = w \<Longrightarrow> detect_counter_decrease run = None"
proof (induction run rule: induct_list012)
  case (3 x y zs)
  then show ?case using no_drop_same[of x y] by (simp add: detect_simps)
qed (simp_all add: detect_simps)

lemma runs_detect:
  "list_all2 run_of runs series \<Longrightarrow> detect_counter_decrease (concat runs) = detect_counter_decrease series"
proof (induction rule: list_all2_induct)
  case (Cons run runs o1 series)
  have run: "run \<noteq> []" "\<forall>r\<in>set run. wo_window r = wo_window o1"
    using Cons(1) by (auto simp: run_of_def)
  show ?case
  proof (cases series)
    case Nil
    with Cons detect_single_run[OF run(2)] show ?thesis by (simp add: detect_simps)
  next
    case (Cons o2 series')
    then have ne: "series \<noteq> []" by simp
    note rest = runs_last[OF Cons.hyps(2) ne] runs_hd[OF Cons.hyps(2) ne]
    have "dropped_to (last run) (hd (concat runs)) = dropped_to o1 o2"
      using rest run Cons by (simp add: dropped_to_def used_percent_def)
    with detect_run[OF run, of "concat runs"] rest Cons.IH Cons show ?thesis
      by (auto simp: detect_simps split: option.splits)
  qed
qed (simp add: detect_simps)

lemma detect_start: "detect_counter_decrease series = Some t \<Longrightarrow> \<exists>o1\<in>set series. wo_run_started_at o1 = t"
proof (induction series rule: induct_list012)
  case (3 x y zs)
  then show ?case by (cases "detect_counter_decrease (y # zs)") (auto simp: detect_simps split: if_splits)
qed (simp_all add: detect_simps)

lemma increasing_last: "sorted_wrt (<) (map f xs) \<Longrightarrow> x \<in> set xs \<Longrightarrow> f x \<le> f (last xs)"
  for f :: "'a \<Rightarrow> int"
  by (induction xs rule: rev_induct) (auto simp: sorted_wrt_append)

text \<open>The start of a run splits no run when the times increase.\<close>

lemma run_start_unsplit:
  assumes "list_all2 run_of runs series" "sorted_wrt (<) (map wo_timestamp (concat runs))"
    and "o1 \<in> set series"
  shows "list_all (unsplit (wo_run_started_at o1)) runs"
  using assms
proof (induction rule: list_all2_induct)
  case (Cons run runs o2 series)
  have run: "run \<noteq> []" "wo_run_started_at o2 = wo_timestamp (hd run)"
    using Cons(1) by (simp_all add: run_of_def)
  have inc: "sorted_wrt (<) (map wo_timestamp run)" "sorted_wrt (<) (map wo_timestamp (concat runs))"
    and across: "\<forall>x\<in>set run. \<forall>y\<in>set (concat runs). wo_timestamp x < wo_timestamp y"
    using Cons.prems(1) by (auto simp: sorted_wrt_append)
  have least: "\<forall>x\<in>set run. wo_timestamp (hd run) \<le> wo_timestamp x"
    using inc(1) run(1) by (cases run) (auto intro: less_imp_le)
  show ?case
  proof (cases "o1 = o2")
    case True
    have "\<forall>y\<in>set (concat runs). wo_timestamp (hd run) \<le> wo_timestamp y"
      using across run(1) by (auto intro: less_imp_le)
    then have "list_all (unsplit (wo_timestamp (hd run))) runs"
      by (auto simp: list_all_iff unsplit_def)
    with least run True show ?thesis by (simp add: unsplit_def[of _ run])
  next
    case False
    with Cons.prems have o1: "o1 \<in> set series" by simp
    with Cons.hyps(2) obtain r where r: "r \<in> set runs" "run_of r o1"
      by (metis list_all2_conv_all_nth in_set_conv_nth)
    then have "wo_run_started_at o1 = wo_timestamp (hd r)" "hd r \<in> set r" "r \<in> set runs"
      by (auto simp: run_of_def)
    then have "wo_run_started_at o1 = wo_timestamp (hd r)" "hd r \<in> set (concat runs)"
      by auto
    with across have "\<forall>x\<in>set run. wo_timestamp x < wo_run_started_at o1" by metis
    with Cons.IH[OF inc(2) o1] show ?thesis by (simp add: unsplit_def[of _ run])
  qed
qed simp

lemma same_reading_window:
  assumes "wo_window x = wo_window y" "wo_timestamp x = wo_timestamp y"
  shows "blank_percent_window x = blank_percent_window y"
    and "measured_window x now age = measured_window y now age"
  using assms by (simp_all add: measured_window_def blank_percent_window_def used_percent_def)

lemma runs_build_percent:
  assumes runs: "list_all2 run_of runs series"
    and inc: "sorted_wrt (<) (map wo_timestamp (concat runs))"
    and unsplit: "\<And>t. series \<noteq> [] \<Longrightarrow> window_start host series (wo_window (last series)) = Inr (Some (t, ResetScheduleEstimate))
      \<Longrightarrow> list_all (unsplit t) runs"
  shows "build_percent_window host (concat runs) now max_cache_age
    = build_percent_window host series now max_cache_age"
proof (cases "series = []")
  case True
  with runs show ?thesis by simp
next
  case False
  note last = runs_last[OF runs False]
  have start: "window_start host (concat runs) w = window_start host series w" for w
    by (simp add: window_start_def runs_detect[OF runs])
  show ?thesis
  proof (cases "now < wo_timestamp (last series)")
    case True
    with False last same_reading_window[of "last (concat runs)" "last series"] show ?thesis
      by (simp add: build_percent_window_def Let_def)
  next
    case now: False
    have seen: "\<forall>o1\<in>set (concat runs). wo_timestamp o1 \<le> now"
    proof
      fix o1 assume "o1 \<in> set (concat runs)"
      from increasing_last[OF inc this] have "wo_timestamp o1 \<le> wo_timestamp (last (concat runs))" .
      with last now show "wo_timestamp o1 \<le> now" by simp
    qed
    have f: "forecast_from_series host (concat runs) t minutes resets_at now
        = forecast_from_series host series t minutes resets_at now"
      if "window_start host series (wo_window (last series)) = Inr (Some (t, basis))" for t basis minutes resets_at
    proof (rule runs_forecast[OF runs _ seen])
      show "list_all (unsplit t) runs"
      proof (cases "detect_counter_decrease series")
        case None
        with that have "basis = ResetScheduleEstimate"
          by (auto simp: window_start_def split: option.splits if_splits)
        with that unsplit False show ?thesis by blast
      next
        case (Some t')
        with that have "t' = t" by (simp add: window_start_def)
        with Some detect_start run_start_unsplit[OF runs inc] show ?thesis by blast
      qed
    qed
    show ?thesis
      using False now last f same_reading_window[of "last (concat runs)" "last series"]
      by (simp add: build_percent_window_def start Let_def split: sum.split option.split)
  qed
qed

text \<open>From points to observations.\<close>

definition raw_point :: "rate_limit_snapshot_point \<Rightarrow> bool" where
  "raw_point p \<longleftrightarrow>
     p_run_started_at p = None \<and> p_observation_count p = 1
     \<and> (\<forall>w. p_primary p = Some w \<or> p_secondary p = Some w \<longrightarrow> w_used_percent w \<noteq> f64_sign_bit True)"

lemma zero_patterns: "f64_magnitude x = 0 \<Longrightarrow> x = 0 \<or> x = f64_sign_bit True"
proof -
  assume "f64_magnitude x = 0"
  then have "unat x mod 2 ^ 63 = 0" by (simp add: f64_magnitude_def)
  then obtain k where k: "unat x = 2 ^ 63 * k" by blast
  have "unat x < 2 ^ 64" by (rule order_less_le_trans[OF unsigned_less]) simp
  then have "2 ^ 63 * k < 2 ^ 63 * 2" using k by simp
  then have "k = 0 \<or> k = 1" by auto
  with k show ?thesis by (auto simp: word_unat_eq_iff f64_sign_bit_def)
qed

lemma equal_windows:
  assumes "window_eq a b" "w_used_percent a \<noteq> f64_sign_bit True" "w_used_percent b \<noteq> f64_sign_bit True"
  shows "a = b"
proof -
  from assms have "w_used_percent a = w_used_percent b"
    using zero_patterns[of "w_used_percent a"] zero_patterns[of "w_used_percent b"]
    by (auto simp: window_eq_def f64_eq_def)
  with assms(1) show ?thesis by (simp add: window_eq_def)
qed

lemma equal_readings:
  assumes "opt_eq window_eq x y"
    and "\<forall>w. x = Some w \<or> y = Some w \<longrightarrow> w_used_percent w \<noteq> f64_sign_bit True"
  shows "x = y"
  using assms by (cases x; cases y) (auto simp: opt_eq_def intro: equal_windows)

lemma run_fields:
  assumes "is_run run" "list_all raw_point run" "q \<in> set run"
  shows "p_primary q = p_primary (hd run) \<and> p_secondary q = p_secondary (hd run)
    \<and> p_turn_id q = p_turn_id (hd run) \<and> p_limit_id q = p_limit_id (hd run)"
proof (cases "q = hd run")
  case False
  with assms have q: "same_point (hd run) q" "raw_point q" "raw_point (hd run)"
    by (cases run; auto simp: is_run_def list_all_iff)+
  then show ?thesis
    using equal_readings[of "p_primary (hd run)" "p_primary q"]
      equal_readings[of "p_secondary (hd run)" "p_secondary q"]
    by (auto simp: same_point_def same_run_def raw_point_def)
qed simp

lemma map_filter_append: "List.map_filter f (xs @ ys) = List.map_filter f xs @ List.map_filter f ys"
  by (simp add: map_filter_def)

lemma window_series_simps:
  "window_series [] pick = []"
  "window_series (p # ps) pick = option_list (map_option (observation_of p) (pick p)) @ window_series ps pick"
  "window_series (ps @ qs) pick = window_series ps pick @ window_series qs pick"
  by (simp_all add: window_series_def map_filter_append option_list_def map_filter_simps split: option.split)

lemma window_series_constant:
  "\<forall>q\<in>set run. pick q = v \<Longrightarrow> window_series run pick =
    (case v of None \<Rightarrow> [] | Some w \<Rightarrow> map (\<lambda>q. observation_of q w) run)"
  by (induction run) (auto simp: window_series_simps option_list_def split: option.split)

lemma collapsed_runs:
  assumes "list_all is_run runs" "list_all raw_point (concat runs)" "length (concat runs) < 2 ^ 32"
    and pick: "pick = p_primary \<or> pick = p_secondary"
  shows "list_all2 run_of (filter (\<lambda>r. r \<noteq> []) (map (\<lambda>run. window_series run pick) runs))
      (window_series (map run_point runs) pick)
    \<and> window_series (concat runs) pick = concat (filter (\<lambda>r. r \<noteq> []) (map (\<lambda>run. window_series run pick) runs))"
  using assms(1-3)
proof (induction runs)
  case (Cons run runs)
  have run: "is_run run" "list_all raw_point run" "run \<noteq> []" "length run < 2 ^ 32"
    using Cons.prems by (auto simp: is_run_def)
  have same: "\<forall>q\<in>set run. pick q = pick (hd run)"
    using run_fields[OF run(1,2)] pick by auto
  have pt: "pick (run_point run) = pick (hd run)"
    using pick by (auto simp: run_point_def)
  have IH: "list_all2 run_of (filter (\<lambda>r. r \<noteq> []) (map (\<lambda>run. window_series run pick) runs))
      (window_series (map run_point runs) pick)"
      "window_series (concat runs) pick = concat (filter (\<lambda>r. r \<noteq> []) (map (\<lambda>run. window_series run pick) runs))"
    using Cons by simp_all
  show ?case
  proof (cases "pick (hd run)")
    case None
    with IH same pt window_series_constant[of run pick None] show ?thesis
      by (simp add: window_series_simps option_list_def)
  next
    case (Some w)
    let ?obs = "map (\<lambda>q. observation_of q w) run"
    have series: "window_series run pick = ?obs"
      using window_series_constant[of run pick "Some w"] same Some by simp
    have raw: "\<forall>q\<in>set run. run_started_at q = p_timestamp q \<and> p_observation_count q = 1"
      using run(2) by (simp add: list_all_iff raw_point_def run_started_at_def)
    have "length run = 1 \<Longrightarrow> last run = hd run" by (cases run) simp_all
    then have "run_started_at (run_point run) = p_timestamp (hd run)"
      by (simp add: run_started_at_def run_point_def)
    moreover have "unat (of_nat (length run) :: u32) = length run"
      using run(4) by (simp add: unat_of_nat)
    ultimately have "run_of ?obs (observation_of (run_point run) w)"
      using run(3) raw
      by (simp add: run_of_def observation_of_def hd_map last_map) (simp add: run_point_def)
    have head: "window_series (map run_point (run # runs)) pick
        = observation_of (run_point run) w # window_series (map run_point runs) pick"
      unfolding list.map window_series_simps(2) pt Some by (simp add: option_list_def)
    have "?obs \<noteq> []" using run(3) by simp
    then have f: "filter (\<lambda>r. r \<noteq> []) (map (\<lambda>run. window_series run pick) (run # runs))
        = ?obs # filter (\<lambda>r. r \<noteq> []) (map (\<lambda>run. window_series run pick) runs)"
      unfolding list.map filter.simps series by (simp only: if_True not_False_eq_True)
    have c: "window_series (run @ concat runs) pick = ?obs @ window_series (concat runs) pick"
      unfolding window_series_simps(3) series ..
    show ?thesis
      unfolding head f concat.simps c IH(2)
      using \<open>run_of ?obs _\<close> IH(1) by (simp only: list_all2_Cons simp_thms)
  qed
qed (simp add: window_series_simps)

lemma run_sides:
  assumes "sorted_wrt (<) (map p_timestamp run)" "is_run run"
    and "\<And>as p q bs. run = as @ p # q # bs \<Longrightarrow> \<not> (p_timestamp p < t \<and> t \<le> p_timestamp q)"
  shows "(\<forall>p\<in>set run. t \<le> p_timestamp p) \<or> (\<forall>p\<in>set run. p_timestamp p < t)"
proof (rule ccontr)
  let ?P = "\<lambda>p. p_timestamp p < t"
  assume "\<not> ?thesis"
  then obtain x y where x: "x \<in> set run" "\<not> t \<le> p_timestamp x" and y: "y \<in> set run" "\<not> ?P y"
    by blast
  have "dropWhile ?P run \<noteq> []" using y by auto
  then obtain q bs where q: "dropWhile ?P run = q # bs" by (meson list.exhaust)
  have "run \<noteq> []" using x(1) by auto
  then have "p_timestamp (hd run) \<le> p_timestamp x"
    using assms(1) x(1) by (cases run) (auto intro: less_imp_le)
  with x(2) have "?P (hd run)" by simp
  then have "takeWhile ?P run \<noteq> []" using \<open>run \<noteq> []\<close> by (cases run) simp_all
  then obtain as p where p: "takeWhile ?P run = as @ [p]" by (metis rev_exhaust)
  have "run = as @ p # q # bs"
    using takeWhile_dropWhile_id[of ?P run] by (simp add: p q)
  moreover have "?P p" using p set_takeWhileD[of p ?P run] by simp
  moreover have "\<not> ?P q" using q hd_dropWhile[of ?P run] by simp
  ultimately show False using assms(3) by fastforce
qed

text \<open>No two neighbouring observations that repeat a reading lie on the two sides of \<open>t\<close>.\<close>

definition repeats_unsplit :: "timestamp \<Rightarrow> rate_limit_snapshot_point list \<Rightarrow> bool" where
  "repeats_unsplit t raw \<longleftrightarrow>
     (\<forall>as p q bs. raw = as @ p # q # bs \<and> same_point p q \<longrightarrow>
        \<not> (p_timestamp p < t \<and> t \<le> p_timestamp q))"

lemma run_repeats:
  assumes "is_run run" "list_all raw_point run" "run = as @ p # q # bs"
  shows "same_point p q"
proof -
  have q: "q \<noteq> hd run \<or> q = hd run" by simp
  have "q \<in> set (tl run)" using assms(3) by (cases as) auto
  then have "same_point (hd run) q" using assms(1) by (simp add: is_run_def list_all_iff)
  moreover have "p_primary p = p_primary (hd run) \<and> p_secondary p = p_secondary (hd run)
      \<and> p_turn_id p = p_turn_id (hd run) \<and> p_limit_id p = p_limit_id (hd run)"
    by (rule run_fields[OF assms(1,2)]) (simp add: assms(3))
  ultimately show ?thesis by (simp add: same_point_def same_run_def)
qed

lemma series_unsplit:
  assumes "list_all is_run runs" "list_all raw_point (concat runs)"
    and "sorted_wrt (<) (map p_timestamp (concat runs))" "repeats_unsplit t (concat runs)"
  shows "list_all (unsplit t) (filter (\<lambda>r. r \<noteq> []) (map (\<lambda>run. window_series run pick) runs))"
proof -
  have "unsplit t (window_series run pick)" if run: "run \<in> set runs" for run
  proof -
    from run obtain as bs where split: "runs = as @ run # bs" by (meson split_list)
    have r: "is_run run" "list_all raw_point run" "sorted_wrt (<) (map p_timestamp run)"
      using assms(1-3) by (simp_all add: split sorted_wrt_append)
    have "\<not> (p_timestamp p < t \<and> t \<le> p_timestamp q)" if "run = xs @ p # q # ys" for xs p q ys
    proof -
      have "concat runs = (concat as @ xs) @ p # q # (ys @ concat bs)"
        by (simp add: split that)
      with assms(4) run_repeats[OF r(1,2) that] show ?thesis
        unfolding repeats_unsplit_def by blast
    qed
    then have "(\<forall>p\<in>set run. t \<le> p_timestamp p) \<or> (\<forall>p\<in>set run. p_timestamp p < t)"
      by (intro run_sides[OF r(3,1)]) blast
    then show ?thesis
      by (auto simp: unsplit_def window_series_member observation_of_def)
  qed
  then show ?thesis by (auto simp: list_all_iff)
qed

lemma series_increasing:
  "sorted_wrt (<) (map p_timestamp ps) \<Longrightarrow> sorted_wrt (<) (map wo_timestamp (window_series ps pick))"
  by (induction ps) (auto simp: window_series_simps option_list_def window_series_member observation_of_def
      split: option.split)

lemma collapsed_percent_window:
  assumes "list_all raw_point raw" "length raw < 2 ^ 32" "sorted_wrt (<) (map p_timestamp raw)"
    and pick: "pick = p_primary \<or> pick = p_secondary"
    and split: "\<And>t. window_series raw pick \<noteq> [] \<Longrightarrow> window_start host (window_series raw pick) (wo_window (last (window_series raw pick)))
      = Inr (Some (t, ResetScheduleEstimate)) \<Longrightarrow> repeats_unsplit t raw"
  shows "build_percent_window host (window_series (collapse raw) pick) now max_cache_age
    = build_percent_window host (window_series raw pick) now max_cache_age"
proof -
  from collapse_runs[of raw] obtain runs where
    r: "concat runs = raw" "list_all is_run runs" "collapse raw = map run_point runs"
    by (auto simp: collapse_fold maximal_runs_def)
  let ?rs = "filter (\<lambda>r. r \<noteq> []) (map (\<lambda>run. window_series run pick) runs)"
  from collapsed_runs[OF r(2) _ _ pick] assms(1,2)
  have c: "list_all2 run_of ?rs (window_series (collapse raw) pick)" "window_series raw pick = concat ?rs"
    by (simp_all add: r(1,3))
  have inc: "sorted_wrt (<) (map wo_timestamp (concat ?rs))"
    using series_increasing[OF assms(3), of pick] unfolding c(2) .
  show ?thesis
    unfolding c(2)
  proof (rule runs_build_percent[OF c(1) inc, symmetric])
    fix t assume ne: "window_series (collapse raw) pick \<noteq> []" and t: "window_start host (window_series (collapse raw) pick)
        (wo_window (last (window_series (collapse raw) pick))) = Inr (Some (t, ResetScheduleEstimate))"
    from t runs_last[OF c(1) ne] have "window_start host (concat ?rs) (wo_window (last (concat ?rs)))
        = Inr (Some (t, ResetScheduleEstimate))"
      by (simp add: window_start_def runs_detect[OF c(1)])
    moreover have "concat ?rs \<noteq> []" using runs_last[OF c(1) ne] by blast
    ultimately have "repeats_unsplit t raw" using split unfolding c(2) by blast
    with series_unsplit[OF r(2)] assms(1,3) show "list_all (unsplit t) ?rs"
      by (simp add: r(1))
  qed
qed

text \<open>Collapsing a history does not change what is reported about it. The snapshot of the collapsed
  history is the snapshot of the raw one, panics included: the same readings and confidence, and the
  same forecast, which counts the raw observations. The observations have increasing times,
  and the estimated start of a window does not fall between two observations that repeat a reading.\<close>

theorem quota_on_collapsed:
  assumes "list_all raw_point raw" "length raw < 2 ^ 32" "sorted_wrt (<) (map p_timestamp raw)"
    and "\<And>pick t. pick = p_primary \<or> pick = p_secondary \<Longrightarrow> window_series raw pick \<noteq> [] \<Longrightarrow>
      window_start host (window_series raw pick) (wo_window (last (window_series raw pick)))
        = Inr (Some (t, ResetScheduleEstimate)) \<Longrightarrow> repeats_unsplit t raw"
  shows "build_quota_snapshot host provider supported (collapse raw) account now max_cache_age
    = build_quota_snapshot host provider supported raw account now max_cache_age"
  using collapsed_percent_window[OF assms(1-3), of p_primary] collapsed_percent_window[OF assms(1-3), of p_secondary]
    assms(4)
  unfolding build_quota_snapshot_def by presburger

section \<open>Witnesses\<close>

definition any_time :: chrono_host where
  "any_time = \<lparr>ch_in_range = (\<lambda>_. True), ch_minutes_in_range = (\<lambda>_. True)\<rparr>"

definition seconds :: "int \<Rightarrow> int" where "seconds n = n * nanos_per_second"

text \<open>A window of five hours that began at 0: ten percent at one hour, read four times, and twenty
  percent at two hours.\<close>

definition sample_point :: "int \<Rightarrow> int \<Rightarrow> rate_limit_snapshot_point" where
  "sample_point t used =
     \<lparr>p_timestamp = seconds t, p_turn_id = None, p_limit_id = None,
      p_primary = Some \<lparr>w_used_percent = f64_of_int used, w_window_minutes = Some 300,
        w_resets_at = Some (seconds 18000)\<rparr>,
      p_secondary = None, p_run_started_at = None, p_observation_count = 1\<rparr>"

definition sample_points :: "rate_limit_snapshot_point list" where
  "sample_points = [sample_point 3600 10, sample_point 3601 10, sample_point 3602 10,
     sample_point 3603 10, sample_point 7200 20]"

lemmas sample_simps = sample_points_def sample_point_def seconds_def nanos_per_second_def
  window_series_simps option_list_def any_time_def

lemma sample_decrease: "detect_counter_decrease (window_series sample_points p_primary) = None"
  by (simp add: sample_simps detect_simps dropped_to_def observation_of_def used_percent_def
      rollover_drop_threshold_percent_def f64_eval)

lemma sample_start:
  "window_start any_time (window_series sample_points p_primary)
      (wo_window (last (window_series sample_points p_primary))) = Inr (Some (0, ResetScheduleEstimate))"
  unfolding window_start_def sample_decrease
  by (simp add: sample_simps observation_of_def)

lemma sample_readings: "list_all (\<lambda>p. reading_of p_primary p \<and> reading_of p_secondary p) sample_points"
  by (simp add: sample_points_def sample_point_def reading_of_def f64_eval)

text \<open>The numbers of the forecast: 10 percent in one hour, 80 percent left, eight hours to go.\<close>

lemma sample_elapsed:
  "\<not> f64_le_zero (f64_of_int 300)" "f64_div (f64_of_int 3600) (f64_of_int 60) = f64_of_int 60"
  "\<not> f64_lt (f64_div (f64_of_int 60) (f64_of_int 300)) (f64_of_ratio False 1 10)"
  "f64_div (f64_of_int 60) (f64_of_int 60) = f64_of_int 1" "\<not> f64_le_zero (f64_of_int 1)"
  by (simp_all add: f64_eval)

lemma sample_used:
  "f64_sub (f64_of_int 20) (f64_of_int 10) = f64_of_int 10" "\<not> f64_lt (f64_of_int 10) 0"
  "f64_div (f64_of_int 10) (f64_of_int 1) = f64_of_int 10" "f64_lt 0 (f64_of_int 10)"
  "f64_sub (f64_of_int 100) (f64_of_int 20) = f64_of_int 80" "f64_max (f64_of_int 80) 0 = f64_of_int 80"
  by (simp_all add: f64_eval)

lemma sample_exhausted:
  "f64_div (f64_of_int 80) (f64_of_int 10) = f64_of_int 8"
  "f64_mul (f64_of_int 8) (f64_of_int 3600000) = f64_of_int 28800000"
  "f64_to_i64 (f64_round (f64_of_int 28800000)) = 28800000"
  by (simp_all add: f64_eval)

lemmas sample_numbers = sample_elapsed sample_used sample_exhausted

lemma sample_evidence:
  "in_window_evidence (window_series sample_points p_primary) 0 (seconds 7300)
    = window_series sample_points p_primary"
  "evidence_of (window_series sample_points p_primary) = 5"
  "hd (window_series sample_points p_primary) = observation_of (sample_point 3600 10) (the (p_primary (sample_point 3600 10)))"
  "last (window_series sample_points p_primary) = observation_of (sample_point 7200 20) (the (p_primary (sample_point 7200 20)))"
  by (simp_all add: sample_simps in_window_evidence_def observation_of_def evidence_of_def)

lemma sample_forecast:
  "\<exists>f. forecast_from_series any_time (window_series sample_points p_primary) 0 (Some 300)
      (Some (seconds 1000000)) (seconds 7300) = Inr (Some f)
    \<and> fc_projected_exhaustion_at f = Some (seconds 36100)"
proof -
  have "seconds_f64 (wo_timestamp (observation_of (sample_point 7200 20) w)
      - max (wo_run_started_at (observation_of (sample_point 3600 10) v)) 0) = f64_of_int 3600" for w v
    by (simp add: seconds_f64_def num_seconds_def observation_of_def sample_point_def run_started_at_def
        seconds_def nanos_per_second_def)
  moreover have "used_percent (observation_of (sample_point t u) (the (p_primary (sample_point t u)))) = f64_of_int u" for t u
    by (simp add: used_percent_def observation_of_def sample_point_def)
  moreover have "projected_exhaustion any_time (f64_of_int 10) (f64_of_int 20) (Some (seconds 1000000)) (seconds 7300)
      = Inr (Some (seconds 36100))"
    by (simp add: projected_exhaustion_def sample_numbers Let_def any_time_def seconds_def nanos_per_second_def)
  ultimately show ?thesis
    by (simp add: forecast_from_series_def Let_def sample_evidence sample_numbers min_evidence_points_def
        min_evidence_span_fraction_def)
qed

lemma forecast_sound_witness:
  "\<exists>f. forecast_from_series any_time (window_series sample_points p_primary) 0 (Some 300)
      (Some (seconds 1000000)) (seconds 7300) = Inr (Some f)
    \<and> fc_projected_exhaustion_at f = Some (seconds 36100) \<and> f64_lt 0 (fc_pace_per_hour f)"
  using sample_forecast forecast_sound[where started = 0 and now = "seconds 7300"] by metis

lemma sample_snapshot:
  "\<exists>s w. build_quota_snapshot any_time codex_provider_id True sample_points default_account
      (seconds 7300) (seconds 50) = Inr s \<and> qs_windows s = [w] \<and> qw_stale w"
proof -
  let ?l = "last (window_series sample_points p_primary)"
  have l: "wo_timestamp ?l = seconds 7200" "w_resets_at (wo_window ?l) = Some (seconds 18000)"
    unfolding sample_evidence by (simp_all add: observation_of_def sample_point_def)
  then have stale: "qw_stale (measured_window ?l (seconds 7300) (seconds 50))"
    by (simp add: measured_window_def is_stale_def blank_percent_window_def Let_def seconds_def nanos_per_second_def)
  have "window_series sample_points p_primary \<noteq> []" "window_series sample_points p_secondary = []"
    by (simp_all add: sample_simps)
  moreover have "build_credit_window default_account (seconds 7300) (seconds 50) = None"
    by (simp add: build_credit_window_def default_account_def Let_def)
  ultimately show ?thesis
    using l stale sample_start
    by (simp add: build_quota_snapshot_def build_percent_window_def started_window_def snapshot_of_def
        option_list_def Let_def seconds_def nanos_per_second_def)
qed

lemma quota_snapshot_honest_witness:
  "\<exists>s w. build_quota_snapshot any_time codex_provider_id True sample_points default_account
      (seconds 7300) (seconds 50) = Inr s
    \<and> qs_windows s = [w] \<and> window_honest (seconds 7300) (seconds 50) w \<and> qw_stale w"
proof -
  from sample_snapshot obtain s w where s: "build_quota_snapshot any_time codex_provider_id True sample_points
      default_account (seconds 7300) (seconds 50) = Inr s" "qs_windows s = [w]" "qw_stale w" by blast
  from quota_snapshot_honest[OF s(1) sample_readings] s(2,3) show ?thesis using s(1) by simp
qed

lemma quota_on_collapsed_witness:
  "build_quota_snapshot any_time codex_provider_id True (collapse sample_points) default_account
      (seconds 7300) (seconds 600)
    = build_quota_snapshot any_time codex_provider_id True sample_points default_account
      (seconds 7300) (seconds 600)"
proof (rule quota_on_collapsed)
  show "list_all raw_point sample_points"
    by (simp add: sample_points_def sample_point_def raw_point_def f64_eval)
  show "length sample_points < 2 ^ 32" "sorted_wrt (<) (map p_timestamp sample_points)"
    by (simp_all add: sample_points_def sample_point_def seconds_def nanos_per_second_def)
  fix pick t
  assume "pick = p_primary \<or> pick = p_secondary" "window_series sample_points pick \<noteq> []"
    and start: "window_start any_time (window_series sample_points pick)
        (wo_window (last (window_series sample_points pick))) = Inr (Some (t, ResetScheduleEstimate))"
  then have "pick = p_primary" by (auto simp: sample_simps)
  with start sample_start have "t = 0" by simp
  moreover have "\<forall>p\<in>set sample_points. 0 \<le> p_timestamp p"
    by (simp add: sample_points_def sample_point_def seconds_def nanos_per_second_def)
  ultimately have "\<not> p_timestamp p < t" if "p \<in> set sample_points" for p
    using that by auto
  then show "repeats_unsplit t sample_points"
    unfolding repeats_unsplit_def by (metis in_set_conv_decomp)
qed

end
