(* ===== verification/Quota_Index_Facts.thy ===== *)
theory Quota_Index_Facts
  imports Quota_Index Quota_Facts
begin

text \<open>
  The points index against the walk over the corpus: after any sequence of updates and removals the
  index holds only current points, as many as it may, every session knows exactly the points it
  still has, and as long as nothing that matters was evicted the snapshots are those of the walk.
\<close>

section \<open>Sorted association lists\<close>

lemma tm_member: "tm_inv m \<Longrightarrow> (k, v) \<in> set m \<longleftrightarrow> map_of m k = Some v"
  using tm.invar_distinct[of m] by auto

lemma hm_remove_inv: "tm_inv m \<Longrightarrow> tm_inv (hm_remove k m)"
  by (induction m) (auto simp: tm_inv_def hm_remove_def)

lemma fold_hm_remove: "fold hm_remove keys m = filter (\<lambda>e. fst e \<notin> set keys) m"
  by (induction keys arbitrary: m) (auto simp: hm_remove_def case_prod_unfold intro: filter_cong)

lemma filter_inv: "tm_inv m \<Longrightarrow> tm_inv (filter P m)"
  by (induction m) (auto simp: tm_inv_def)

lemma insert_points_lookup:
  "tm_inv b \<Longrightarrow> tm_inv (insert_points es b)
    \<and> map_of (insert_points es b) = map_of b ++ map_of (rev es)"
proof (induction es arbitrary: b)
  case (Cons e es)
  obtain k p where e: "e = (k, p)" by (cases e)
  have "tm_inv (tm_entry k p (\<lambda>_. p) b)" using Cons.prems by (rule tm.entry_invar)
  from Cons.IH[OF this] Cons.prems show ?case
    by (simp add: e insert_points_def tm_entry_lookup map_add_def fun_eq_iff split: option.split)
qed (simp add: insert_points_def)

section \<open>Entries\<close>

lemma session_entries_keys:
  assumes "length (s_rate_limits_history s) < 2 ^ 32"
  shows "distinct (map fst (session_entries k s))"
proof -
  have "i = j" if "(of_nat i :: u32) = of_nat j" "i < 2 ^ 32" "j < 2 ^ 32" for i j
    using arg_cong[OF that(1), of unat] that(2,3) by (simp add: unat_of_nat)
  then have "inj_on (\<lambda>(i, p). (p_timestamp p, k, of_nat i :: u32)) (set (enumerate 0 (s_rate_limits_history s)))"
  proof (intro inj_onI)
    fix x y
    assume inj: "\<And>i j. (of_nat i :: u32) = of_nat j \<Longrightarrow> i < 2 ^ 32 \<Longrightarrow> j < 2 ^ 32 \<Longrightarrow> i = j"
      and x: "x \<in> set (enumerate 0 (s_rate_limits_history s))"
      and y: "y \<in> set (enumerate 0 (s_rate_limits_history s))"
      and eq: "(case x of (i, p) \<Rightarrow> (p_timestamp p, k, of_nat i :: u32)) = (case y of (i, p) \<Rightarrow> (p_timestamp p, k, of_nat i))"
    from x y have xy: "fst x < length (s_rate_limits_history s)" "snd x = s_rate_limits_history s ! fst x"
        "fst y < length (s_rate_limits_history s)" "snd y = s_rate_limits_history s ! fst y"
      by (auto simp: in_set_enumerate_eq)
    from eq have "(of_nat (fst x) :: u32) = of_nat (fst y)" by (simp add: case_prod_unfold)
    with inj[of "fst x" "fst y"] xy assms have "fst x = fst y" by linarith
    with xy show "x = y" by (simp add: prod_eq_iff)
  qed
  moreover have "map fst (session_entries k s)
      = map (\<lambda>(i, p). (p_timestamp p, k, of_nat i :: u32)) (enumerate 0 (s_rate_limits_history s))"
    by (simp add: session_entries_def case_prod_unfold)
  ultimately show ?thesis by (simp add: distinct_map)
qed

lemma session_entries_member:
  "e \<in> set (session_entries k s) \<Longrightarrow> key_session (fst e) = k \<and> fst (fst e) = p_timestamp (snd e)"
  by (auto simp: session_entries_def key_session_def)

definition bucket :: "points_index \<Rightarrow> provider_id \<Rightarrow> (point_key \<times> rate_limit_snapshot_point) list" where
  "bucket ix p = unwrap_or [] (ix_points ix p)"

definition account_bucket ::
    "points_index \<Rightarrow> provider_id \<Rightarrow> ((timestamp \<times> string) \<times> quota_account_info) list" where
  "account_bucket ix p = unwrap_or [] (ix_accounts ix p)"

definition corpus_entries ::
    "(string \<Rightarrow> session option) \<Rightarrow> provider_id \<Rightarrow> (point_key \<times> rate_limit_snapshot_point) set" where
  "corpus_entries corpus p =
     {e. \<exists>k s. corpus k = Some s \<and> s_harness s = p \<and> e \<in> set (session_entries k s)}"

definition corpus_accounts ::
    "(string \<Rightarrow> session option) \<Rightarrow> provider_id \<Rightarrow> ((timestamp \<times> string) \<times> quota_account_info) set" where
  "corpus_accounts corpus p =
     {e. \<exists>k s. corpus k = Some s \<and> s_harness s = p \<and> has_credits s
        \<and> e = ((s_last_event_at s, k), account_of s)}"

definition owned_keys :: "points_index \<Rightarrow> provider_id \<Rightarrow> string \<Rightarrow> point_key set" where
  "owned_keys ix p k = {x \<in> fst ` set (bucket ix p). key_session x = k}"

definition contribution_ok ::
    "(string \<Rightarrow> session option) \<Rightarrow> points_index \<Rightarrow> string \<Rightarrow> bool" where
  "contribution_ok corpus ix k \<longleftrightarrow>
     (case ix_contributions ix k of
        None \<Rightarrow> (\<forall>p. owned_keys ix p k = {}) \<and> (\<forall>s. corpus k = Some s \<longrightarrow> \<not> has_credits s)
      | Some c \<Rightarrow> \<exists>s. corpus k = Some s \<and> sc_provider c = s_harness s
          \<and> distinct (sc_point_keys c) \<and> set (sc_point_keys c) = owned_keys ix (s_harness s) k
          \<and> sc_account_key c = (if has_credits s then Some (s_last_event_at s, k) else None))"

definition index_ok :: "(string \<Rightarrow> session option) \<Rightarrow> points_index \<Rightarrow> bool" where
  "index_ok corpus ix \<longleftrightarrow>
     (\<forall>p. tm_inv (bucket ix p) \<and> length (bucket ix p) \<le> retained_points_per_provider
        \<and> set (bucket ix p) \<subseteq> corpus_entries corpus p
        \<and> tm_inv (account_bucket ix p) \<and> set (account_bucket ix p) = corpus_accounts corpus p)
     \<and> (\<forall>k. contribution_ok corpus ix k)
     \<and> (\<forall>k s. corpus k = Some s \<longrightarrow> length (s_rate_limits_history s) < 2 ^ 32)"

lemma bucket_map_bucket:
  "unwrap_or [] (map_bucket f p m q) = (if q = p \<and> m p \<noteq> None then f (unwrap_or [] (m p)) else unwrap_or [] (m q))"
  by (auto simp: map_bucket_def split: option.split)

lemma index_contribution: "index_ok corpus ix \<Longrightarrow> contribution_ok corpus ix k"
  by (simp add: index_ok_def)

lemma owned_in_corpus:
  assumes "index_ok corpus ix" "x \<in> owned_keys ix p k"
  shows "\<exists>s. corpus k = Some s \<and> s_harness s = p"
proof -
  from assms(2) obtain e where e: "e \<in> set (bucket ix p)" "fst e = x" "key_session x = k"
    by (auto simp: owned_keys_def)
  with assms(1) have "e \<in> corpus_entries corpus p" unfolding index_ok_def by blast
  then obtain k' s where "corpus k' = Some s" "s_harness s = p" "e \<in> set (session_entries k' s)"
    by (auto simp: corpus_entries_def)
  with session_entries_member[of e k' s] e show ?thesis by auto
qed

lemma unowned:
  assumes "owned_keys ix p k = {}"
  shows "filter (\<lambda>e. key_session (fst e) \<noteq> k) (bucket ix p) = bucket ix p"
  unfolding filter_id_conv using assms unfolding owned_keys_def by blast

section \<open>Retraction\<close>

lemma retract_bucket:
  assumes "index_ok corpus ix"
  shows "bucket (retract_session k ix) p = filter (\<lambda>e. key_session (fst e) \<noteq> k) (bucket ix p)"
proof (cases "ix_contributions ix k")
  case None
  with index_contribution[OF assms, of k] have "owned_keys ix p k = {}"
    by (simp add: contribution_ok_def)
  from unowned[OF this] None show ?thesis by (simp add: retract_session_def)
next
  case (Some c)
  with index_contribution[OF assms, of k] obtain s where s: "corpus k = Some s"
      "sc_provider c = s_harness s" "set (sc_point_keys c) = owned_keys ix (s_harness s) k"
    by (auto simp: contribution_ok_def)
  show ?thesis
  proof (cases "p = s_harness s")
    case True
    have "bucket (retract_session k ix) p = filter (\<lambda>e. fst e \<notin> set (sc_point_keys c)) (bucket ix p)"
      using Some s(2) True
      by (auto simp: retract_session_def bucket_def bucket_map_bucket fold_hm_remove)
    also have "\<dots> = filter (\<lambda>e. key_session (fst e) \<noteq> k) (bucket ix p)"
      unfolding s(3) using True by (intro filter_cong) (auto simp: owned_keys_def)
    finally show ?thesis .
  next
    case False
    have "owned_keys ix p k = {}"
      using owned_in_corpus[OF assms, of _ p k] s(1) False by auto
    from unowned[OF this] Some s(2) False show ?thesis
      by (simp add: retract_session_def bucket_def bucket_map_bucket)
  qed
qed

lemma retract_accounts:
  assumes "index_ok corpus ix"
  shows "account_bucket (retract_session k ix) p = filter (\<lambda>e. snd (fst e) \<noteq> k) (account_bucket ix p)"
proof -
  have accounts: "set (account_bucket ix q) = corpus_accounts corpus q" for q
    using assms by (simp add: index_ok_def)
  show ?thesis
  proof (cases "ix_contributions ix k")
    case None
    with index_contribution[OF assms, of k] have "\<forall>e\<in>set (account_bucket ix p). snd (fst e) \<noteq> k"
      unfolding accounts by (auto simp: contribution_ok_def corpus_accounts_def)
    with None show ?thesis by (simp add: retract_session_def filter_id_conv)
  next
    case (Some c)
    with index_contribution[OF assms, of k] obtain s where s: "corpus k = Some s"
        "sc_provider c = s_harness s"
        "sc_account_key c = (if has_credits s then Some (s_last_event_at s, k) else None)"
      by (auto simp: contribution_ok_def)
    have only: "s_harness s = p \<and> has_credits s \<and> fst e = (s_last_event_at s, k)"
      if "e \<in> set (account_bucket ix p)" "snd (fst e) = k" for e
      using that s(1) unfolding accounts by (auto simp: corpus_accounts_def)
    show ?thesis
    proof (cases "p = s_harness s \<and> has_credits s")
      case True
      have "account_bucket (retract_session k ix) p = hm_remove (s_last_event_at s, k) (account_bucket ix p)"
        using Some s True
        by (auto simp: retract_session_def account_bucket_def bucket_map_bucket hm_remove_def)
      also have "\<dots> = filter (\<lambda>e. snd (fst e) \<noteq> k) (account_bucket ix p)"
        unfolding hm_remove_def
      proof (rule filter_cong[OF refl])
        fix e assume "e \<in> set (account_bucket ix p)"
        with only[of e] show "(case e of (a, _) \<Rightarrow> a \<noteq> (s_last_event_at s, k)) \<longleftrightarrow> snd (fst e) \<noteq> k"
          by (cases e) auto
      qed
      finally show ?thesis .
    next
      case False
      have "filter (\<lambda>e. snd (fst e) \<noteq> k) (account_bucket ix p) = account_bucket ix p"
        unfolding filter_id_conv using only False by blast
      with Some s False show ?thesis
        by (auto simp: retract_session_def account_bucket_def bucket_map_bucket)
    qed
  qed
qed

lemma retract_contributions:
  "ix_contributions (retract_session k ix) = (ix_contributions ix)(k := None)"
  by (auto simp: retract_session_def split: option.split)

lemma corpus_entries_remove:
  "corpus_entries (corpus(k := None)) p = {e \<in> corpus_entries corpus p. key_session (fst e) \<noteq> k}"
  unfolding corpus_entries_def by (auto dest: session_entries_member split: if_splits)

lemma corpus_accounts_remove:
  "corpus_accounts (corpus(k := None)) p = {e \<in> corpus_accounts corpus p. snd (fst e) \<noteq> k}"
  unfolding corpus_accounts_def by auto

lemma retract_ok:
  assumes "index_ok corpus ix"
  shows "index_ok (corpus(k := None)) (retract_session k ix)"
proof -
  let ?ix = "retract_session k ix"
  have old: "tm_inv (bucket ix p)" "length (bucket ix p) \<le> retained_points_per_provider"
      "set (bucket ix p) \<subseteq> corpus_entries corpus p" "tm_inv (account_bucket ix p)"
      "set (account_bucket ix p) = corpus_accounts corpus p" for p
    using assms by (simp_all add: index_ok_def)
  have owned: "owned_keys ?ix p k' = (if k' = k then {} else owned_keys ix p k')" for p k'
    unfolding owned_keys_def retract_bucket[OF assms] by auto
  have "contribution_ok (corpus(k := None)) ?ix k'" for k'
    using index_contribution[OF assms, of k']
    by (cases "k' = k"; cases "ix_contributions ix k'")
      (auto simp: contribution_ok_def retract_contributions owned)
  moreover have "length (bucket ?ix p) \<le> retained_points_per_provider" for p
    unfolding retract_bucket[OF assms] using old(2)[of p] length_filter_le order_trans by blast
  moreover have "set (bucket ?ix p) \<subseteq> corpus_entries (corpus(k := None)) p" for p
    unfolding retract_bucket[OF assms] corpus_entries_remove using old(3)[of p] by auto
  moreover have "set (account_bucket ?ix p) = corpus_accounts (corpus(k := None)) p" for p
    unfolding retract_accounts[OF assms] corpus_accounts_remove using old(5)[of p] by auto
  moreover have "tm_inv (bucket ?ix p)" "tm_inv (account_bucket ?ix p)" for p
    unfolding retract_bucket[OF assms] retract_accounts[OF assms] using old by (simp_all add: filter_inv)
  moreover have "(corpus(k := None)) k' = Some s \<longrightarrow> length (s_rate_limits_history s) < 2 ^ 32" for k' s
    using assms by (simp add: index_ok_def)
  ultimately show ?thesis unfolding index_ok_def by blast
qed

section \<open>Updates\<close>

definition merged_bucket ::
    "string \<Rightarrow> session \<Rightarrow> points_index \<Rightarrow> (point_key \<times> rate_limit_snapshot_point) list" where
  "merged_bucket k s ix = insert_points (session_entries k s) (bucket (retract_session k ix) (s_harness s))"

definition evicted_keys ::
    "string \<Rightarrow> session \<Rightarrow> points_index \<Rightarrow> point_key list" where
  "evicted_keys k s ix =
     map fst (take (length (merged_bucket k s ix) - retained_points_per_provider) (merged_bucket k s ix))"

definition owned_by :: "string \<Rightarrow> point_key list \<Rightarrow> point_key list" where
  "owned_by owner keys = filter (\<lambda>k. key_session k = owner) keys"

lemma drop_no_keys [simp]: "drop_keys [] keys = keys"
  by (simp add: drop_keys_def)

lemma place_points_fields:
  assumes "length (bucket ix (s_harness s)) \<le> retained_points_per_provider"
    and "B = insert_points (session_entries k s) (bucket ix (s_harness s))"
    and "n = length B - retained_points_per_provider" "ev = map fst (take n B)"
    and "place_points k s ix = (ix', keys)"
  shows "bucket ix' p = (if p = s_harness s then drop n B else bucket ix p)"
    and "ix_accounts ix' = ix_accounts ix"
    and "k' \<noteq> k \<Longrightarrow> ix_contributions ix' k' =
      map_option (\<lambda>c. c\<lparr>sc_point_keys := drop_keys (owned_by k' ev) (sc_point_keys c)\<rparr>) (ix_contributions ix k')"
    and "keys = drop_keys (owned_by k ev) (map fst (session_entries k s))"
proof -
  have "(bucket ix' p = (if p = s_harness s then drop n B else bucket ix p))
    \<and> ix_accounts ix' = ix_accounts ix
    \<and> (k' \<noteq> k \<longrightarrow> ix_contributions ix' k' =
      map_option (\<lambda>c. c\<lparr>sc_point_keys := drop_keys (owned_by k' ev) (sc_point_keys c)\<rparr>) (ix_contributions ix k'))
    \<and> keys = drop_keys (owned_by k ev) (map fst (session_entries k s))"
  proof (cases "s_rate_limits_history s = []")
    case True
    then have es: "session_entries k s = []" by (simp add: session_entries_def)
    then have "n = 0" "B = bucket ix (s_harness s)" using assms(1-3) by (simp_all add: insert_points_def)
    with True es assms(4,5) show ?thesis
      by (auto simp: place_points_def owned_by_def option.map_ident)
  next
    case False
    let ?ix = "ix\<lparr>ix_points := (ix_points ix)(s_harness s \<mapsto> B)\<rparr>"
    have place: "evict_excess (s_harness s) k ?ix (map fst (session_entries k s)) = (ix', keys)"
      using assms(2,5) False by (simp add: place_points_def Let_def bucket_def)
    show ?thesis
    proof (cases "length B \<le> retained_points_per_provider")
      case True
      then have "n = 0" using assms(3) by simp
      with True place assms(4) show ?thesis
        by (auto simp: evict_excess_def bucket_def owned_by_def option.map_ident)
    next
      case False
      with place assms(3,4) show ?thesis
        by (auto simp: evict_excess_def bucket_def owned_by_def Let_def option.map_ident)
    qed
  qed
  then show "bucket ix' p = (if p = s_harness s then drop n B else bucket ix p)"
    and "ix_accounts ix' = ix_accounts ix"
    and "k' \<noteq> k \<Longrightarrow> ix_contributions ix' k' =
      map_option (\<lambda>c. c\<lparr>sc_point_keys := drop_keys (owned_by k' ev) (sc_point_keys c)\<rparr>) (ix_contributions ix k')"
    and "keys = drop_keys (owned_by k ev) (map fst (session_entries k s))"
    by blast+
qed

lemma update_fields:
  assumes "index_ok corpus ix"
  shows "bucket (update_session k s ix) p =
      (if p = s_harness s
       then drop (length (merged_bucket k s ix) - retained_points_per_provider) (merged_bucket k s ix)
       else bucket (retract_session k ix) p)"
    and "account_bucket (update_session k s ix) p =
      (if p = s_harness s \<and> has_credits s
       then tm_entry (s_last_event_at s, k) (account_of s) (\<lambda>_. account_of s)
         (account_bucket (retract_session k ix) p)
       else account_bucket (retract_session k ix) p)"
    and "k' \<noteq> k \<Longrightarrow> ix_contributions (update_session k s ix) k' =
      map_option (\<lambda>c. c\<lparr>sc_point_keys := drop_keys (owned_by k' (evicted_keys k s ix)) (sc_point_keys c)\<rparr>)
        (ix_contributions ix k')"
    and "ix_contributions (update_session k s ix) k =
      (let keys = drop_keys (owned_by k (evicted_keys k s ix)) (map fst (session_entries k s)) in
       if keys = [] \<and> \<not> has_credits s then None
       else Some \<lparr>sc_provider = s_harness s, sc_point_keys = keys,
         sc_account_key = (if has_credits s then Some (s_last_event_at s, k) else None)\<rparr>)"
proof -
  let ?ix = "retract_session k ix"
  have small: "length (bucket ?ix (s_harness s)) \<le> retained_points_per_provider"
    using retract_ok[OF assms, of k] by (simp add: index_ok_def)
  obtain ix' keys where place: "place_points k s ?ix = (ix', keys)" by fastforce
  note fields = place_points_fields[OF small merged_bucket_def[of k s ix] refl evicted_keys_def[of k s ix] place]
  have buckets: "bucket (update_session k s ix) = bucket ix'"
    by (simp add: update_session_def place Let_def bucket_def fun_eq_iff split: option.split)
  show "bucket (update_session k s ix) p =
      (if p = s_harness s
       then drop (length (merged_bucket k s ix) - retained_points_per_provider) (merged_bucket k s ix)
       else bucket ?ix p)"
    unfolding buckets by (rule fields(1))
  show "account_bucket (update_session k s ix) p =
      (if p = s_harness s \<and> has_credits s
       then tm_entry (s_last_event_at s, k) (account_of s) (\<lambda>_. account_of s) (account_bucket ?ix p)
       else account_bucket ?ix p)"
    by (simp add: update_session_def place Let_def account_bucket_def fields(2))
  show "ix_contributions (update_session k s ix) k' =
      map_option (\<lambda>c. c\<lparr>sc_point_keys := drop_keys (owned_by k' (evicted_keys k s ix)) (sc_point_keys c)\<rparr>)
        (ix_contributions ix k')" if "k' \<noteq> k"
    using fields(3)[OF that] that
    by (simp add: update_session_def place Let_def retract_contributions)
  show "ix_contributions (update_session k s ix) k =
      (let keys = drop_keys (owned_by k (evicted_keys k s ix)) (map fst (session_entries k s)) in
       if keys = [] \<and> \<not> has_credits s then None
       else Some \<lparr>sc_provider = s_harness s, sc_point_keys = keys,
         sc_account_key = (if has_credits s then Some (s_last_event_at s, k) else None)\<rparr>)"
    unfolding fields(4)[symmetric] by (simp add: update_session_def place Let_def)
qed

lemma insert_points_set:
  assumes "tm_inv b" "distinct (map fst es)" "fst ` set es \<inter> fst ` set b = {}"
  shows "tm_inv (insert_points es b) \<and> set (insert_points es b) = set es \<union> set b"
proof -
  note m = insert_points_lookup[OF assms(1), of es]
  have member: "map_of (rev es) x = Some v \<longleftrightarrow> (x, v) \<in> set es" for x v
    using assms(2) by (simp add: rev_map[symmetric])
  have "(x, v) \<in> set (insert_points es b) \<longleftrightarrow> (x, v) \<in> set es \<union> set b" for x v
  proof -
    have "(x, v) \<in> set (insert_points es b) \<longleftrightarrow> (map_of b ++ map_of (rev es)) x = Some v"
      using m tm_member[of "insert_points es b" x v] by simp
    also have "\<dots> \<longleftrightarrow> (x, v) \<in> set es \<or> x \<notin> fst ` set es \<and> (x, v) \<in> set b"
      unfolding map_add_Some_iff member map_of_eq_None_iff set_rev list.set_map tm_member[OF assms(1), symmetric]
      by simp
    also have "\<dots> \<longleftrightarrow> (x, v) \<in> set es \<union> set b"
      using assms(3) by force
    finally show ?thesis .
  qed
  with m show ?thesis by auto
qed

lemma merged_entries:
  assumes "index_ok corpus ix" "length (s_rate_limits_history s) < 2 ^ 32"
  shows "tm_inv (merged_bucket k s ix)
    \<and> set (merged_bucket k s ix) = set (session_entries k s) \<union> set (bucket (retract_session k ix) (s_harness s))"
  unfolding merged_bucket_def
proof (rule insert_points_set)
  show "tm_inv (bucket (retract_session k ix) (s_harness s))"
    using retract_ok[OF assms(1), of k] by (simp add: index_ok_def)
  show "distinct (map fst (session_entries k s))" by (rule session_entries_keys[OF assms(2)])
  show "fst ` set (session_entries k s) \<inter> fst ` set (bucket (retract_session k ix) (s_harness s)) = {}"
    using session_entries_member[of _ k s] unfolding retract_bucket[OF assms(1)] by fastforce
qed

lemma corpus_add:
  assumes "corpus k = None"
  shows "(corpus(k \<mapsto> s)) k' = Some s' \<longleftrightarrow> k' = k \<and> s' = s \<or> corpus k' = Some s'"
  using assms by auto

lemma corpus_entries_add:
  assumes "corpus k = None"
  shows "corpus_entries (corpus(k \<mapsto> s)) p =
    corpus_entries corpus p \<union> (if p = s_harness s then set (session_entries k s) else {})"
  unfolding corpus_entries_def corpus_add[of corpus k, OF assms] by auto

lemma corpus_accounts_add:
  assumes "corpus k = None"
  shows "corpus_accounts (corpus(k \<mapsto> s)) p = corpus_accounts corpus p
    \<union> (if p = s_harness s \<and> has_credits s then {((s_last_event_at s, k), account_of s)} else {})"
  unfolding corpus_accounts_def corpus_add[of corpus k, OF assms] by auto

lemma tm_entry_member:
  assumes "tm_inv m" "k \<notin> fst ` set m"
  shows "set (tm_entry k v (\<lambda>_. v) m) = insert (k, v) (set m)"
proof -
  have none: "map_of m k = None" using assms(2) by (simp add: map_of_eq_None_iff)
  have "(x, w) \<in> set (tm_entry k v (\<lambda>_. v) m) \<longleftrightarrow> (x, w) \<in> insert (k, v) (set m)" for x w
  proof -
    have "(x, w) \<in> set (tm_entry k v (\<lambda>_. v) m) \<longleftrightarrow> ((map_of m)(k \<mapsto> v)) x = Some w"
      unfolding tm_member[OF tm.entry_invar[OF assms(1)]] tm.entry_lookup[OF assms(1)] by simp
    also have "\<dots> \<longleftrightarrow> (x, w) \<in> insert (k, v) (set m)"
      using none by (cases "x = k") (auto simp: tm_member[OF assms(1)])
    finally show ?thesis .
  qed
  then show ?thesis by auto
qed

lemma drop_inv: "tm_inv m \<Longrightarrow> tm_inv (drop n m)"
  by (simp add: tm_inv_def drop_map[symmetric] sorted_wrt_drop)

text \<open>What is evicted is what the bucket loses.\<close>

lemma kept_keys:
  assumes "tm_inv m"
  shows "fst ` set (drop n m) = fst ` set m - fst ` set (take n m)"
proof -
  have "distinct (map fst (take n m) @ map fst (drop n m))"
    using tm.invar_distinct[OF assms] by (simp add: map_append[symmetric] del: map_append)
  then have "fst ` set (take n m) \<inter> fst ` set (drop n m) = {}" by simp
  moreover have "fst ` set m = fst ` set (take n m) \<union> fst ` set (drop n m)"
    by (metis append_take_drop_id image_Un set_append)
  ultimately show ?thesis by blast
qed

lemma update_ok:
  assumes "index_ok corpus ix" "length (s_rate_limits_history s) < 2 ^ 32"
  shows "index_ok (corpus(k \<mapsto> s)) (update_session k s ix)"
proof -
  let ?c = "corpus(k := None)" and ?before = "retract_session k ix" and ?after = "update_session k s ix"
  let ?B = "merged_bucket k s ix" and ?es = "session_entries k s" and ?p = "s_harness s"
  let ?n = "length ?B - retained_points_per_provider" and ?ev = "evicted_keys k s ix"
  have c: "corpus(k \<mapsto> s) = ?c(k \<mapsto> s)" "?c k = None" by simp_all
  have ok0: "index_ok ?c ?before" by (rule retract_ok[OF assms(1)])
  have old: "tm_inv (bucket ?before p)" "length (bucket ?before p) \<le> retained_points_per_provider"
      "set (bucket ?before p) \<subseteq> corpus_entries ?c p" "tm_inv (account_bucket ?before p)"
      "set (account_bucket ?before p) = corpus_accounts ?c p" for p
    using ok0 by (simp_all add: index_ok_def)
  note fields = update_fields[OF assms(1), where k = k and s = s]
  have B: "tm_inv ?B" "set ?B = set ?es \<union> set (bucket ?before ?p)"
    using merged_entries[OF assms] by simp_all
  have sub: "set (drop ?n ?B) \<subseteq> corpus_entries ?c ?p \<union> set ?es"
    using set_drop_subset[of ?n ?B] old(3)[of ?p] B(2) by blast
  have buckets: "tm_inv (bucket ?after p)" "length (bucket ?after p) \<le> retained_points_per_provider"
      "set (bucket ?after p) \<subseteq> corpus_entries (corpus(k \<mapsto> s)) p" for p
    unfolding c(1) corpus_entries_add[of ?c k, OF c(2)]
    using old(1,2,3)[of p] drop_inv[OF B(1)] sub by (cases "p = ?p"; simp add: fields(1))+
  have fresh: "(s_last_event_at s, k) \<notin> fst ` set (account_bucket ?before ?p)"
    unfolding old(5) by (auto simp: corpus_accounts_def)
  have accounts: "tm_inv (account_bucket ?after p)"
      "set (account_bucket ?after p) = corpus_accounts (corpus(k \<mapsto> s)) p" for p
    unfolding c(1) corpus_accounts_add[of ?c k, OF c(2)]
    using old(4,5) tm_entry_member[OF old(4) fresh] by (auto simp: fields(2) tm_entry_inv)
  have keys_B: "fst ` set ?B = fst ` set ?es \<union> fst ` set (bucket ?before ?p)"
    by (simp add: B(2) image_Un)
  have ev: "set ?ev = fst ` set (take ?n ?B)" by (simp add: evicted_keys_def)
  have kept: "fst ` set (bucket ?after ?p) = fst ` set ?B - set ?ev"
    unfolding ev by (simp add: fields(1) kept_keys[OF B(1)])
  have ev_B: "set ?ev \<subseteq> fst ` set ?B"
    unfolding ev using set_take_subset by (rule image_mono)
  have own: "x \<in> fst ` set ?es \<Longrightarrow> key_session x = k" for x
    using session_entries_member[of _ k s] by auto
  have own_before: "x \<in> fst ` set (bucket ?before p) \<Longrightarrow> key_session x \<noteq> k" for x p
    unfolding retract_bucket[OF assms(1)] by auto
  have owned_other: "owned_keys ?after p k' = owned_keys ?before p k' - (if p = ?p then set ?ev else {})"
    if "k' \<noteq> k" for p k'
  proof (cases "p = ?p")
    case True
    have "x \<in> owned_keys ?after ?p k' \<longleftrightarrow> x \<in> owned_keys ?before ?p k' - set ?ev" for x
      unfolding owned_keys_def kept keys_B using own[of x] that by blast
    with True show ?thesis by (simp add: set_eq_iff)
  qed (simp add: owned_keys_def fields(1))
  have owned_self: "owned_keys ?after p k = (if p = ?p then fst ` set ?es - set ?ev else {})" for p
  proof (cases "p = ?p")
    case True
    have "x \<in> owned_keys ?after ?p k \<longleftrightarrow> x \<in> fst ` set ?es - set ?ev" for x
      unfolding owned_keys_def kept keys_B using own[of x] own_before[of x ?p] by blast
    with True show ?thesis by (simp add: set_eq_iff)
  next
    case False
    have "x \<notin> owned_keys ?after p k" for x
      using False own_before[of x p] unfolding owned_keys_def fields(1) by simp
    with False show ?thesis by (simp add: set_eq_iff)
  qed
  have evicted_of: "\<exists>s'. ?c k' = Some s' \<and> s_harness s' = ?p"
    if "x \<in> set ?ev" "key_session x = k'" "k' \<noteq> k" for x k'
  proof -
    have "x \<in> owned_keys ?before ?p k'"
      using that own[of x] ev_B unfolding owned_keys_def keys_B by blast
    from owned_in_corpus[OF ok0 this] show ?thesis .
  qed
  have "contribution_ok (corpus(k \<mapsto> s)) ?after k'" for k'
  proof (cases "k' = k")
    case True
    have "set (drop_keys (owned_by k ?ev) (map fst ?es)) = fst ` set ?es - set ?ev"
      using own by (auto simp: drop_keys_def owned_by_def)
    moreover have "distinct (drop_keys (owned_by k ?ev) (map fst ?es))"
      unfolding drop_keys_def using session_entries_keys[OF assms(2)] by (rule distinct_filter)
    moreover have "fst ` set ?es - set ?ev = {}" if "drop_keys (owned_by k ?ev) (map fst ?es) = []"
      using calculation(1) that by simp
    ultimately show ?thesis
      using fields(4) unfolding True contribution_ok_def Let_def by (auto simp: owned_self)
  next
    case False
    have before: "contribution_ok ?c ?before k'" by (rule index_contribution[OF ok0])
    have same: "ix_contributions ?before k' = ix_contributions ix k'"
      using False by (simp add: retract_contributions)
    show ?thesis
    proof (cases "ix_contributions ix k'")
      case None
      with before same False fields(3)[OF False] show ?thesis
        by (auto simp: contribution_ok_def owned_other)
    next
      case (Some d)
      with before same obtain s' where s': "?c k' = Some s'" "sc_provider d = s_harness s'"
          "distinct (sc_point_keys d)" "set (sc_point_keys d) = owned_keys ?before (s_harness s') k'"
          "sc_account_key d = (if has_credits s' then Some (s_last_event_at s', k') else None)"
        by (auto simp: contribution_ok_def)
      have "set (drop_keys (owned_by k' ?ev) (sc_point_keys d)) = owned_keys ?after (s_harness s') k'"
      proof -
        have "x \<in> set (owned_by k' ?ev) \<longleftrightarrow> s_harness s' = ?p \<and> x \<in> set ?ev"
          if "x \<in> owned_keys ?before (s_harness s') k'" for x
          using that evicted_of[of x k'] s'(1) False by (auto simp: owned_by_def owned_keys_def)
        then show ?thesis by (auto simp: drop_keys_def s'(4) owned_other[OF False])
      qed
      with s' Some fields(3)[OF False] False show ?thesis
        by (auto simp: contribution_ok_def drop_keys_def distinct_filter)
    qed
  qed
  moreover have "(corpus(k \<mapsto> s)) k' = Some s' \<longrightarrow> length (s_rate_limits_history s') < 2 ^ 32" for k' s'
    using assms by (auto simp: index_ok_def)
  ultimately show ?thesis unfolding index_ok_def using buckets accounts by blast
qed

section \<open>Any sequence of updates and removals\<close>

lemma empty_ok: "index_ok (\<lambda>_. None) empty_index"
  by (simp add: index_ok_def empty_index_def bucket_def account_bucket_def contribution_ok_def owned_keys_def
      corpus_accounts_def tm_inv_def)

lemma operations_ok:
  "list_all short_history ops \<Longrightarrow> index_ok corpus ix
    \<Longrightarrow> index_ok (fold corpus_operation ops corpus) (fold apply_operation ops ix)"
proof (induction ops arbitrary: corpus ix)
  case (Cons oper ops)
  have "index_ok (corpus_operation oper corpus) (apply_operation oper ix)"
    using Cons.prems by (cases oper) (simp_all add: update_ok retract_ok short_history_def)
  with Cons show ?case by simp
qed simp

lemma index_reachable_ok: "list_all short_history ops \<Longrightarrow> index_ok (corpus_after ops) (index_after ops)"
  unfolding corpus_after_def index_after_def by (rule operations_ok[OF _ empty_ok])

section \<open>Against the walk\<close>

lemma gather_points_fold:
  "fold gather_points sessions f p
    = f p @ concat (map s_rate_limits_history (filter (\<lambda>s. s_harness s = p) sessions))"
  by (induction sessions arbitrary: f) (auto simp: gather_points_def)

definition all_entries :: "(string \<times> session) list \<Rightarrow> provider_id \<Rightarrow> (point_key \<times> rate_limit_snapshot_point) list" where
  "all_entries sessions p = concat (map (\<lambda>(k, s). session_entries k s) (filter (\<lambda>(k, s). s_harness s = p) sessions))"

lemma all_entries_member:
  "e \<in> set (all_entries sessions p)
    \<longleftrightarrow> (\<exists>k s. (k, s) \<in> set sessions \<and> s_harness s = p \<and> e \<in> set (session_entries k s))"
  by (auto simp: all_entries_def)

lemma session_entries_points: "map snd (session_entries k s) = s_rate_limits_history s"
  unfolding session_entries_def map_map comp_def case_prod_unfold snd_conv by simp

lemma all_entries_points:
  "map snd (all_entries sessions p)
    = concat (map s_rate_limits_history (filter (\<lambda>s. s_harness s = p) (map snd sessions)))"
  by (induction sessions) (auto simp: all_entries_def session_entries_points)

lemma all_entries_keys:
  assumes "distinct (map fst sessions)" "\<And>k s. (k, s) \<in> set sessions \<Longrightarrow> length (s_rate_limits_history s) < 2 ^ 32"
  shows "distinct (map fst (all_entries sessions p))"
  using assms
proof (induction sessions)
  case (Cons e sessions)
  obtain k s where e: "e = (k, s)" by (cases e)
  have other: "key_session x \<noteq> k" if "x \<in> fst ` set (all_entries sessions p)" for x
  proof -
    from that obtain y k' s' where "(k', s') \<in> set sessions" "y \<in> set (session_entries k' s')" "x = fst y"
      by (auto simp: all_entries_member)
    with Cons.prems(1) session_entries_member[of y k' s'] show ?thesis by (force simp: e)
  qed
  have own: "key_session x = k" if "x \<in> fst ` set (session_entries k s)" for x
    using that session_entries_member[of _ k s] by auto
  have "distinct (map fst (all_entries sessions p))"
    using Cons.prems by (intro Cons.IH) auto
  moreover have "distinct (map fst (session_entries k s))"
    using Cons.prems(2)[of k s] by (intro session_entries_keys) (simp add: e)
  moreover have "fst ` set (session_entries k s) \<inter> fst ` set (all_entries sessions p) = {}"
    using other own by blast
  ultimately show ?case
    by (simp add: e all_entries_def)
qed (simp add: all_entries_def)

lemma entries_unique:
  assumes "tm_inv a" "tm_inv b" "set a = set b"
  shows "a = b"
proof -
  have "map_of a x = Some v \<longleftrightarrow> map_of b x = Some v" for x v
    using tm_member[OF assms(1), of x v] tm_member[OF assms(2), of x v] assms(3) by simp
  then have "map_of a x = map_of b x" for x by (metis not_Some_eq)
  then have "map_of a = map_of b" by (rule ext)
  with tm_unique[OF assms(1,2)] show ?thesis .
qed

definition no_shared_times :: "(string \<times> session) list \<Rightarrow> bool" where
  "no_shared_times sessions \<longleftrightarrow>
     (\<forall>x\<in>set sessions. \<forall>y\<in>set sessions. fst x \<noteq> fst y \<and> s_harness (snd x) = s_harness (snd y) \<longrightarrow>
        p_timestamp ` set (s_rate_limits_history (snd x))
          \<inter> p_timestamp ` set (s_rate_limits_history (snd y)) = {})"

lemma session_entries_at:
  "map snd (filter (\<lambda>e. fst (fst e) = t) (session_entries k s))
    = filter (\<lambda>p. p_timestamp p = t) (s_rate_limits_history s)"
proof -
  have "filter (\<lambda>e. fst (fst e) = t) (session_entries k s)
      = filter (\<lambda>e. p_timestamp (snd e) = t) (session_entries k s)"
    using session_entries_member by (intro filter_cong) auto
  also have "map snd \<dots> = filter (\<lambda>p. p_timestamp p = t) (map snd (session_entries k s))"
    by (simp add: filter_map o_def)
  finally show ?thesis by (simp add: session_entries_points)
qed

lemma session_entries_at_sorted:
  assumes "length (s_rate_limits_history s) < 2 ^ 32"
  shows "tm_inv (filter (\<lambda>e. fst (fst e) = t) (session_entries k s))"
proof -
  have less: "(of_nat i :: u32) < of_nat j" if "i < j" "j < 2 ^ 32" for i j :: nat
    using that by (simp add: word_less_nat_alt unat_of_nat)
  have "sorted_wrt (\<lambda>x y. fst x < fst y) (enumerate 0 (s_rate_limits_history s))"
    using sorted_wrt_map[of "(<)" fst "enumerate 0 (s_rate_limits_history s)"] by simp
  then have "sorted_wrt (\<lambda>e e'. fst (fst e) = t \<longrightarrow> fst (fst e') = t \<longrightarrow> fst e < fst e') (session_entries k s)"
    unfolding session_entries_def sorted_wrt_map
    by (rule sorted_wrt_mono_rel[rotated])
      (use assms in \<open>auto simp: less_prod_def in_set_enumerate_eq intro!: less\<close>)
  then have "sorted_wrt (\<lambda>e e'. fst e < fst e') (filter (\<lambda>e. fst (fst e) = t) (session_entries k s))"
    by (auto dest: sorted_wrt_filter intro: sorted_wrt_mono_rel[rotated])
  then show ?thesis by (simp add: tm_inv_def sorted_wrt_map)
qed

text \<open>Sorting the walk's points is the ordered map of all entries.\<close>

lemma sorted_walk:
  assumes keys: "distinct (map fst sessions)" and times: "no_shared_times sessions"
    and short: "\<And>k s. (k, s) \<in> set sessions \<Longrightarrow> length (s_rate_limits_history s) < 2 ^ 32"
    and L: "tm_inv L" "set L = set (all_entries sessions p)"
  shows "sort_key p_timestamp (map snd (all_entries sessions p)) = map snd L"
proof (rule properties_for_sort_key)
  let ?E = "all_entries sessions p"
  have "distinct L" using tm.invar_distinct[OF L(1)] by (simp add: distinct_map)
  moreover have "distinct ?E" using all_entries_keys[OF keys short] by (simp add: distinct_map)
  ultimately have "mset L = mset ?E" using L(2) by (simp add: set_eq_iff_mset_eq_distinct)
  then show "mset (map snd L) = mset (map snd ?E)" by simp
  have time: "p_timestamp (snd e) = fst (fst e)" if "e \<in> set ?E" for e
  proof -
    from that obtain k s where "e \<in> set (session_entries k s)" by (auto simp: all_entries_member)
    from session_entries_member[OF this] show ?thesis by simp
  qed
  have sorted: "sorted (map (fst \<circ> fst) L)"
    using L(1) unfolding tm_inv_def sorted_map sorted_wrt_map
    by (rule sorted_wrt_mono_rel[rotated]) (auto simp: less_prod_def)
  have stamps: "map (p_timestamp \<circ> snd) L = map (fst \<circ> fst) L"
    using time L(2) by simp
  show "sorted (map p_timestamp (map snd L))" by (simp only: map_map stamps sorted)
  have at: "filter (\<lambda>e. fst (fst e) = t) L = filter (\<lambda>e. fst (fst e) = t) ?E" for t
  proof (rule entries_unique)
    show "tm_inv (filter (\<lambda>e. fst (fst e) = t) L)" using L(1) by (rule filter_inv)
    show "set (filter (\<lambda>e. fst (fst e) = t) L) = set (filter (\<lambda>e. fst (fst e) = t) ?E)"
      using L(2) by simp
    show "tm_inv (filter (\<lambda>e. fst (fst e) = t) ?E)"
      using keys times short
    proof (induction sessions)
      case (Cons x sessions)
      obtain k s where x: "x = (k, s)" by (cases x)
      have rest: "tm_inv (filter (\<lambda>e. fst (fst e) = t) (all_entries sessions p))"
      proof (rule Cons.IH)
        show "no_shared_times sessions" using Cons.prems(2) unfolding no_shared_times_def by simp
      qed (use Cons.prems in auto)
      have first: "tm_inv (filter (\<lambda>e. fst (fst e) = t) (session_entries k s))"
        using Cons.prems(3)[of k s] by (intro session_entries_at_sorted) (simp add: x)
      have "filter (\<lambda>e. fst (fst e) = t) (session_entries k s) = []
          \<or> filter (\<lambda>e. fst (fst e) = t) (all_entries sessions p) = []" if "s_harness s = p"
      proof (rule ccontr)
        assume "\<not> ?thesis"
        then obtain e e' where e: "e \<in> set (session_entries k s)" "fst (fst e) = t"
            and e': "e' \<in> set (all_entries sessions p)" "fst (fst e') = t"
          by (auto simp: filter_empty_conv)
        from e'(1) obtain k' s' where s': "(k', s') \<in> set sessions" "s_harness s' = p"
            "e' \<in> set (session_entries k' s')"
          by (auto simp: all_entries_member)
        have "snd e \<in> set (s_rate_limits_history s)" "snd e' \<in> set (s_rate_limits_history s')"
          using e(1) s'(3) session_entries_points by (metis image_eqI list.set_map)+
        moreover have "p_timestamp (snd e) = t" "p_timestamp (snd e') = t"
          using e e' s' session_entries_member by auto
        moreover have "k \<noteq> k'" using Cons.prems(1) s'(1) by (force simp: x)
        ultimately show False
          using Cons.prems(2) s'(1,2) that unfolding no_shared_times_def x by fastforce
      qed
      then show ?case using rest first by (auto simp: x all_entries_def)
    qed (simp add: all_entries_def tm_inv_def)
  qed
  fix k assume "k \<in> set (map snd L)"
  have "filter (\<lambda>x. p_timestamp k = p_timestamp x) (map snd M)
      = map snd (filter (\<lambda>e. fst (fst e) = p_timestamp k) M)" if "set M = set ?E" for M
    unfolding filter_map using that time by (auto intro!: arg_cong[of _ _ "map snd"] filter_cong)
  with at L(2) show "filter (\<lambda>x. p_timestamp k = p_timestamp x) (map snd L)
      = filter (\<lambda>x. p_timestamp k = p_timestamp x) (map snd ?E)" by simp
qed

text \<open>What an ordered map with gaps still agrees on.\<close>

lemma newest_kept:
  assumes L: "tm_inv (L :: ((timestamp \<times> 'b::linorder) \<times> 'v) list)" and B: "tm_inv B" "set B \<subseteq> set L"
    and missed: "\<And>e. e \<in> set L - set B \<Longrightarrow> n \<le> length (filter (\<lambda>e'. fst (fst e) < fst (fst e')) B)"
  shows "drop (length L - n) L = drop (length B - n) B"
proof (cases "set L \<subseteq> set B")
  case True
  with B(2) have "set L = set B" by blast
  with entries_unique[OF L B(1)] show ?thesis by simp
next
  case False
  then obtain L1 e L2 where split: "L = L1 @ e # L2" "e \<notin> set B" "\<forall>x\<in>set L2. x \<in> set B"
    using split_list_last_prop[of L "\<lambda>x. x \<notin> set B"] by blast
  have "B = filter (\<lambda>x. x \<in> set B) L"
    using B(2) by (intro entries_unique[OF B(1) filter_inv[OF L]]) auto
  then have B_split: "B = filter (\<lambda>x. x \<in> set B) L1 @ L2"
    unfolding split(1) using split(2,3) by (simp add: filter_id_conv)
  have below: "\<not> fst (fst e) < fst (fst x)" if "x \<in> set L1" for x
    using L that by (fastforce simp: split(1) tm_inv_def sorted_wrt_append less_prod_def)
  have "filter (\<lambda>x. fst (fst e) < fst (fst x)) B = filter (\<lambda>x. fst (fst e) < fst (fst x)) L2"
    by (subst B_split) (auto simp: filter_empty_conv below)
  moreover have "n \<le> length (filter (\<lambda>x. fst (fst e) < fst (fst x)) B)"
    by (rule missed) (simp add: split)
  ultimately have "n \<le> length L2" using length_filter_le le_trans by metis
  moreover from this have "drop (length L - n) L = drop (length L2 - n) L2" by (simp add: split(1) Suc_diff_le)
  moreover have "drop (length (xs @ L2) - n) (xs @ L2) = drop (length L2 - n) L2" if "n \<le> length L2" for xs
    using that by simp
  ultimately show ?thesis using B_split by metis
qed

section \<open>Accounts\<close>

lemma gather_account_step:
  "gather_account s f p =
    (if s_harness s = p \<and> has_credits s
        \<and> (\<forall>existing. f p = Some existing \<longrightarrow> newer_account (account_of s) existing)
     then Some (account_of s) else f p)"
  by (auto simp: gather_account_def split: option.split)

lemma gather_account_newest:
  assumes "f p = Some (account_of a)"
  shows "\<exists>m\<in>insert a {s \<in> set sessions. s_harness s = p \<and> has_credits s}.
    fold gather_account sessions f p = Some (account_of m)
    \<and> (\<forall>s\<in>insert a {s \<in> set sessions. s_harness s = p \<and> has_credits s}. s_last_event_at s \<le> s_last_event_at m)"
  using assms
proof (induction sessions arbitrary: f a)
  case (Cons s sessions)
  let ?C = "{s \<in> set sessions. s_harness s = p \<and> has_credits s}"
  define b where "b = (if s_harness s = p \<and> has_credits s \<and> s_last_event_at a < s_last_event_at s then s else a)"
  have "gather_account s f p = Some (account_of b)"
    using Cons.prems by (simp add: gather_account_step b_def newer_account_def account_of_def)
  from Cons.IH[where f = "gather_account s f" and a = b, OF this] obtain m where m: "m \<in> insert b ?C"
      "fold gather_account sessions (gather_account s f) p = Some (account_of m)"
      "\<forall>s\<in>insert b ?C. s_last_event_at s \<le> s_last_event_at m" by blast
  have "m \<in> insert a {s' \<in> set (s # sessions). s_harness s' = p \<and> has_credits s'}"
    using m(1) by (auto simp: b_def split: if_splits)
  moreover have "\<forall>s'\<in>insert a {s' \<in> set (s # sessions). s_harness s' = p \<and> has_credits s'}.
      s_last_event_at s' \<le> s_last_event_at m"
    using m(3) by (auto simp: b_def split: if_splits)
  ultimately show ?case using m(2) by auto
qed simp

lemma gather_account_start:
  assumes "f p = None"
  shows "if \<exists>s\<in>set sessions. s_harness s = p \<and> has_credits s
    then \<exists>m\<in>{s \<in> set sessions. s_harness s = p \<and> has_credits s}.
      fold gather_account sessions f p = Some (account_of m)
      \<and> (\<forall>s\<in>{s \<in> set sessions. s_harness s = p \<and> has_credits s}. s_last_event_at s \<le> s_last_event_at m)
    else fold gather_account sessions f p = None"
  using assms
proof (induction sessions arbitrary: f)
  case (Cons s sessions)
  show ?case
  proof (cases "s_harness s = p \<and> has_credits s")
    case True
    then have "gather_account s f p = Some (account_of s)"
      using Cons.prems by (simp add: gather_account_step)
    from gather_account_newest[where f = "gather_account s f" and a = s, OF this, of sessions] True show ?thesis by auto
  next
    case False
    then have "gather_account s f p = None" using Cons.prems by (auto simp: gather_account_step)
    from Cons.IH[where f = "gather_account s f", OF this] False show ?thesis by (auto split: if_splits)
  qed
qed simp

definition no_shared_credit_times :: "(string \<times> session) list \<Rightarrow> bool" where
  "no_shared_credit_times sessions \<longleftrightarrow>
     (\<forall>s\<in>snd ` set sessions. \<forall>s'\<in>snd ` set sessions.
        s_harness s = s_harness s' \<and> has_credits s \<and> has_credits s' \<and> s_last_event_at s = s_last_event_at s'
        \<longrightarrow> account_of s = account_of s')"

lemma tm_last:
  assumes "tm_inv m" "x \<in> set m"
  shows "fst x \<le> fst (last m)"
proof (cases m rule: rev_cases)
  case (snoc xs y)
  with assms show ?thesis by (auto simp: tm_inv_def sorted_wrt_append)
qed (use assms in simp)

lemma index_account:
  assumes ok: "index_ok corpus ix"
    and graph: "\<And>k s. (k, s) \<in> set sessions \<longleftrightarrow> corpus k = Some s"
    and times: "no_shared_credit_times sessions"
  shows "provider_account ix p = unwrap_or default_account (fold gather_account (map snd sessions) (\<lambda>_. None) p)"
proof -
  let ?B = "account_bucket ix p" and ?C = "{s \<in> snd ` set sessions. s_harness s = p \<and> has_credits s}"
  have B: "tm_inv ?B" "set ?B = corpus_accounts corpus p" using ok by (simp_all add: index_ok_def)
  have provider: "provider_account ix p = (if ?B = [] then default_account else snd (last ?B))"
    by (simp add: provider_account_def account_bucket_def split: option.split)
  have member: "x \<in> set ?B \<longleftrightarrow> (\<exists>k s. (k, s) \<in> set sessions \<and> s \<in> ?C \<and> x = ((s_last_event_at s, k), account_of s))" for x
    unfolding B(2) corpus_accounts_def graph[symmetric] by force
  note start = gather_account_start[of "\<lambda>_. None" p "map snd sessions", OF refl]
  show ?thesis
  proof (cases "?B = []")
    case True
    then have "\<not> (\<exists>s\<in>set (map snd sessions). s_harness s = p \<and> has_credits s)"
      using member by fastforce
    with start True show ?thesis unfolding provider by simp
  next
    case False
    then obtain k s where s: "(k, s) \<in> set sessions" "s \<in> ?C"
        "last ?B = ((s_last_event_at s, k), account_of s)"
      using member[of "last ?B"] last_in_set by blast
    then have "\<exists>s\<in>set (map snd sessions). s_harness s = p \<and> has_credits s" by auto
    with start obtain m where m: "m \<in> ?C"
        "fold gather_account (map snd sessions) (\<lambda>_. None) p = Some (account_of m)"
        "\<forall>s\<in>?C. s_last_event_at s \<le> s_last_event_at m" by auto
    from m(1) obtain k' where k': "(k', m) \<in> set sessions" by auto
    with m(1) member have "((s_last_event_at m, k'), account_of m) \<in> set ?B" by blast
    moreover have "fst x \<le> fst (last ?B)" if "x \<in> set ?B" for x
      using tm_last[OF B(1) that] .
    ultimately have "(s_last_event_at m, k') \<le> (s_last_event_at s, k)" using s(3) by force
    then have "s_last_event_at m \<le> s_last_event_at s" by (auto simp: less_eq_prod_def)
    with m(3) s(2) have "s_last_event_at m = s_last_event_at s" by force
    then have "account_of m = account_of s"
      using times k' s(1,2) m(1) unfolding no_shared_credit_times_def by fastforce
    with m(2) s(3) False show ?thesis unfolding provider by simp
  qed
qed

section \<open>The snapshots\<close>

definition nothing_missed :: "(string \<Rightarrow> session option) \<Rightarrow> points_index \<Rightarrow> bool" where
  "nothing_missed corpus ix \<longleftrightarrow>
     (\<forall>p. \<forall>e\<in>corpus_entries corpus p - set (bucket ix p).
        max_points_per_provider \<le> length (filter (\<lambda>e'. fst (fst e) < fst (fst e')) (bucket ix p)))"

lemma provider_points_bucket:
  "provider_points ix p = map snd (drop (length (bucket ix p) - max_points_per_provider) (bucket ix p))"
  by (simp add: provider_points_def bucket_def drop_map take_rev split: option.split)

lemma newest_points_drop: "newest_points xs = drop (length xs - max_points_per_provider) xs"
  by (simp add: newest_points_def)

lemma index_points:
  assumes ok: "index_ok corpus ix" and missed: "nothing_missed corpus ix"
    and keys: "distinct (map fst sessions)" and graph: "\<And>k s. (k, s) \<in> set sessions \<longleftrightarrow> corpus k = Some s"
    and times: "no_shared_times sessions"
  shows "provider_points ix p
    = newest_points (sort_key p_timestamp (fold gather_points (map snd sessions) (\<lambda>_. []) p))"
proof -
  let ?E = "all_entries sessions p"
  have short: "length (s_rate_limits_history s) < 2 ^ 32" if "(k, s) \<in> set sessions" for k s
    using ok that unfolding index_ok_def graph by blast
  obtain L where L: "L = insert_points ?E []" "tm_inv L" "set L = set ?E"
    using insert_points_set[of "[]" ?E] all_entries_keys[OF keys short] by (simp add: tm_inv_def)
  have entries: "set L = corpus_entries corpus p"
    unfolding L(3) corpus_entries_def graph[symmetric] set_eq_iff mem_Collect_eq all_entries_member by blast
  have B: "tm_inv (bucket ix p)" "set (bucket ix p) \<subseteq> set L"
    using ok unfolding entries by (simp_all add: index_ok_def)
  have "drop (length L - max_points_per_provider) L
      = drop (length (bucket ix p) - max_points_per_provider) (bucket ix p)"
    by (rule newest_kept[OF L(2) B]) (use missed in \<open>auto simp: nothing_missed_def entries\<close>)
  moreover have "fold gather_points (map snd sessions) (\<lambda>_. []) p = map snd ?E"
    by (simp add: gather_points_fold all_entries_points)
  ultimately show ?thesis
    using sorted_walk[OF keys times short L(2,3)]
    by (simp add: provider_points_bucket newest_points_drop drop_map)
qed

text \<open>Nothing is missed while no more points arrive than a provider may keep.\<close>

definition points_brought :: "index_operation \<Rightarrow> nat" where
  "points_brought oper = (case oper of UpdateSession _ s \<Rightarrow> length (s_rate_limits_history s) | RemoveSession _ \<Rightarrow> 0)"

definition complete_within :: "nat \<Rightarrow> (string \<Rightarrow> session option) \<Rightarrow> points_index \<Rightarrow> bool" where
  "complete_within n corpus ix \<longleftrightarrow>
     index_ok corpus ix \<and> (\<forall>p. set (bucket ix p) = corpus_entries corpus p \<and> length (bucket ix p) \<le> n)"

lemma complete_retract:
  assumes "complete_within n corpus ix"
  shows "complete_within n (corpus(k := None)) (retract_session k ix)"
proof -
  have ok: "index_ok corpus ix" using assms by (simp add: complete_within_def)
  have "length (bucket (retract_session k ix) p) \<le> n" for p
    unfolding retract_bucket[OF ok] using assms by (meson complete_within_def length_filter_le le_trans)
  with assms retract_ok[OF ok, of k] show ?thesis
    unfolding complete_within_def retract_bucket[OF ok] corpus_entries_remove by auto
qed

lemma tm_card:
  assumes "tm_inv m"
  shows "length m = card (set m)"
  using tm.invar_distinct[OF assms] by (simp add: distinct_map distinct_card)

lemma complete_update:
  assumes "complete_within n corpus ix" "length (s_rate_limits_history s) < 2 ^ 32"
    and "n + length (s_rate_limits_history s) \<le> retained_points_per_provider"
  shows "complete_within (n + length (s_rate_limits_history s)) (corpus(k \<mapsto> s)) (update_session k s ix)"
proof -
  let ?m = "length (s_rate_limits_history s)" and ?c = "corpus(k := None)" and ?before = "retract_session k ix"
  have ok: "index_ok corpus ix" using assms(1) by (simp add: complete_within_def)
  have before: "set (bucket ?before p) = corpus_entries ?c p" "length (bucket ?before p) \<le> n" for p
    using complete_retract[OF assms(1), of k] by (simp_all add: complete_within_def)
  have merged: "tm_inv (merged_bucket k s ix)"
      "set (merged_bucket k s ix) = set (session_entries k s) \<union> set (bucket ?before (s_harness s))"
    using merged_entries[OF ok assms(2)] by simp_all
  have "length (merged_bucket k s ix) \<le> card (set (session_entries k s)) + card (set (bucket ?before (s_harness s)))"
    unfolding tm_card[OF merged(1)] merged(2) by (rule card_Un_le)
  also have "\<dots> \<le> length (session_entries k s) + length (bucket ?before (s_harness s))"
    by (intro add_mono card_length)
  also have "\<dots> \<le> n + ?m"
    using before(2)[of "s_harness s"] by (simp add: session_entries_def)
  finally have short: "length (merged_bucket k s ix) \<le> n + ?m" .
  with assms(3) have none: "length (merged_bucket k s ix) - retained_points_per_provider = 0" by simp
  have c: "corpus(k \<mapsto> s) = ?c(k \<mapsto> s)" "?c k = None" by simp_all
  have "set (bucket (update_session k s ix) p) = corpus_entries (corpus(k \<mapsto> s)) p
      \<and> length (bucket (update_session k s ix) p) \<le> n + ?m" for p
    unfolding update_fields(1)[OF ok] none c(1) corpus_entries_add[of ?c k, OF c(2)]
    using before[of p] merged(2) short by (cases "p = s_harness s") (auto simp: trans_le_add1)
  with update_ok[OF ok assms(2)] show ?thesis unfolding complete_within_def by blast
qed

lemma complete_operations:
  "list_all short_history ops \<Longrightarrow> complete_within n corpus ix
    \<Longrightarrow> n + sum_list (map points_brought ops) \<le> retained_points_per_provider
    \<Longrightarrow> complete_within (n + sum_list (map points_brought ops))
        (fold corpus_operation ops corpus) (fold apply_operation ops ix)"
proof (induction ops arbitrary: n corpus ix)
  case (Cons oper ops)
  have "complete_within (n + points_brought oper) (corpus_operation oper corpus) (apply_operation oper ix)"
    using Cons.prems by (cases oper) (simp_all add: complete_update complete_retract short_history_def points_brought_def)
  from Cons.IH[OF _ this] Cons.prems show ?case by (simp add: add.assoc)
qed simp

lemma few_points:
  assumes "list_all short_history ops" "sum_list (map points_brought ops) \<le> retained_points_per_provider"
  shows "nothing_missed (corpus_after ops) (index_after ops)"
proof -
  have "complete_within 0 (\<lambda>_. None) empty_index"
    using empty_ok by (simp add: complete_within_def bucket_def empty_index_def corpus_entries_def)
  from complete_operations[OF assms(1) this] assms(2) show ?thesis
    unfolding nothing_missed_def complete_within_def corpus_after_def index_after_def by simp
qed

text \<open>C26: After any sequence of updates and removals (each history shorter than 2^32 points) the points index
  is consistent with the corpus: every provider keeps at most 8,000 points, in strict key order, each of
  them a point of a current session of that provider; its accounts are exactly those of the sessions that
  carry credits; and every session's contribution lists exactly the points it still has, so a retraction
  removes all of them and nothing else.\<close>

theorem quota_index_consistent:
  assumes "list_all short_history ops"
  shows "index_ok (corpus_after ops) (index_after ops)"
  using assms by (rule index_reachable_ok)

text \<open>C25: The incremental index and the walk over the whole corpus give the same quota snapshots, after any
  sequence of updates and removals: if no two sessions of a provider share a point time or (with different
  accounts) the time of their last event, and every point the index had to evict is older than the newest
  2,000 it kept, then both return the same windows, forecasts, accounts or panic.\<close>

theorem quota_index_agrees:
  assumes "list_all short_history ops" "nothing_missed (corpus_after ops) (index_after ops)"
    and "distinct (map fst sessions)"
    and "\<And>k s. (k, s) \<in> set sessions \<longleftrightarrow> corpus_after ops k = Some s"
    and "no_shared_times sessions" "no_shared_credit_times sessions"
  shows "index_snapshots host (index_after ops) now max_cache_age
    = quota_snapshots_from_sessions host (map snd sessions) now max_cache_age"
proof -
  have ok: "index_ok (corpus_after ops) (index_after ops)" by (rule index_reachable_ok[OF assms(1)])
  show ?thesis
    unfolding index_snapshots_def quota_snapshots_from_sessions_def Let_def
      index_points[OF ok assms(2-5)] index_account[OF ok assms(4,6)] ..
qed

section \<open>Examples\<close>

definition quota_session :: "rate_limit_snapshot_point list \<Rightarrow> session" where
  "quota_session points = sample_session\<lparr>s_rate_limits_history := points\<rparr>"

definition sample_operations :: "index_operation list" where
  "sample_operations =
     [UpdateSession ''a'' (quota_session [sample_point 3600 10]),
      UpdateSession ''b'' (quota_session [sample_point 5400 15]),
      UpdateSession ''a'' (quota_session [sample_point 3600 10, sample_point 7200 20]),
      RemoveSession ''b'']"

lemma sample_corpus:
  "corpus_after sample_operations = [''a'' \<mapsto> quota_session [sample_point 3600 10, sample_point 7200 20]]"
  by (auto simp: corpus_after_def sample_operations_def)

lemma short_sample_operations: "list_all short_history sample_operations"
  by (simp add: sample_operations_def short_history_def quota_session_def)

lemma quota_index_consistent_witness:
  "index_ok (corpus_after sample_operations) (index_after sample_operations)"
  by (rule quota_index_consistent[OF short_sample_operations])

lemma quota_index_agrees_witness:
  "index_snapshots any_time (index_after sample_operations) 0 0
    = quota_snapshots_from_sessions any_time [quota_session [sample_point 3600 10, sample_point 7200 20]] 0 0"
proof -
  let ?sessions = "[(''a'', quota_session [sample_point 3600 10, sample_point 7200 20])]"
  have "nothing_missed (corpus_after sample_operations) (index_after sample_operations)"
    by (rule few_points[OF short_sample_operations])
      (simp add: sample_operations_def points_brought_def quota_session_def retained_points_per_provider_def
        max_points_per_provider_def)
  then show ?thesis
    using quota_index_agrees[OF short_sample_operations, where sessions = ?sessions]
    by (simp add: sample_corpus no_shared_times_def no_shared_credit_times_def eq_commute)
qed

end
