(* ===== verification/Quota_Live.thy ===== *)
theory Quota_Live
  imports Quota_Windows
begin

text \<open>
  The reading of a live quota through the installed command line tool (\<open>src-tauri/src/quota_live.rs\<close>):
  the bounded reader of the child's output, the request loop and the validation of the answers. The
  child is what the reader gets to see of its output, the channel what each receive returns and when.
  Decoding of the messages is an argument.
\<close>

section \<open>Limits and errors\<close>

definition total_deadline :: int where "total_deadline = 15 * nanos_per_second"
definition max_line_bytes :: nat where "max_line_bytes = 64 * 1024"
definition max_total_bytes :: nat where "max_total_bytes = 256 * 1024"
definition max_server_messages :: nat where "max_server_messages = 32"
definition max_limit_id_bytes :: nat where "max_limit_id_bytes = 128"
definition max_label_bytes :: nat where "max_label_bytes = 256"
definition max_account_id_bytes :: nat where "max_account_id_bytes = 256"
definition max_duration_minutes :: int where "max_duration_minutes = 366 * 24 * 60"
definition max_credit_balance :: f64 where "max_credit_balance = f64_of_int 1000000000000"
definition min_reset_epoch :: int where "min_reset_epoch = 946684800"
definition max_reset_epoch :: int where "max_reset_epoch = 4102444800"

datatype live_quota_error =
    LiveOffline | LiveLaunchFailed | LiveTimeout | LiveAuthExpired | LiveRateLimited | LiveProviderOutage | LiveUnsupported
  | LiveAccountChanged | LiveProtocolMismatch | LiveInvalidResponse | LiveNoObservation

definition live_error_code :: "live_quota_error \<Rightarrow> string" where
  "live_error_code e =
     (case e of LiveOffline \<Rightarrow> ''offline'' | LiveLaunchFailed \<Rightarrow> ''launch_failed'' | LiveTimeout \<Rightarrow> ''timeout''
      | LiveAuthExpired \<Rightarrow> ''auth_expired'' | LiveRateLimited \<Rightarrow> ''rate_limited''
      | LiveProviderOutage \<Rightarrow> ''provider_outage'' | LiveUnsupported \<Rightarrow> ''unsupported''
      | LiveAccountChanged \<Rightarrow> ''account_changed'' | LiveProtocolMismatch \<Rightarrow> ''protocol_mismatch''
      | LiveInvalidResponse \<Rightarrow> ''invalid_response'' | LiveNoObservation \<Rightarrow> ''no_observation'')"

record discovered_account =
  da_account_id :: string
  da_plan_type :: "string option"

record live_reading =
  lq_account_id :: string
  lq_ordinary_usage_allowed :: "bool option"
  lq_observed_at :: timestamp
  lq_limit_buckets :: "live_quota_bucket list"

text \<open>\<open>char::is_control\<close>: C0, DEL and C1.\<close>

definition is_control :: "string \<Rightarrow> bool" where
  "is_control c \<longleftrightarrow>
     (case c of
        [b] \<Rightarrow> byte b < 0x20 \<or> byte b = 0x7F
      | [a, b] \<Rightarrow> byte a = 0xC2 \<and> 0x80 \<le> byte b \<and> byte b < 0xA0
      | _ \<Rightarrow> False)"

definition has_control :: "string \<Rightarrow> bool" where
  "has_control s \<longleftrightarrow> list_ex is_control (chars s)"

section \<open>The reader\<close>

text \<open>What \<open>fill_buf\<close> gives: bytes, none at the end, or an error.\<close>

datatype chunk = Bytes string | BrokenPipe

datatype incoming = Line string | EndOfOutput | InvalidLine | ReadFailure

datatype read_line_failure = LineLimit | LineIo

definition strip_return :: "string \<Rightarrow> string" where
  "strip_return s = (if s \<noteq> [] \<and> last s = CHR 0x0D then butlast s else s)"

text \<open>A line, with the bytes read so far in all and what is left to read.\<close>

function read_bounded_line ::
    "chunk list \<Rightarrow> nat \<Rightarrow> string \<Rightarrow> read_line_failure + (string \<times> nat \<times> chunk list) option" where
  "read_bounded_line [] sofar line = (if line = [] then Inr None else Inl LineLimit)"
| "read_bounded_line (BrokenPipe # cs) sofar line = Inl LineIo"
| "read_bounded_line (Bytes available # cs) sofar line =
     (if available = [] then (if line = [] then Inr None else Inl LineLimit)
      else
        let segment = takeWhile (\<lambda>c. c \<noteq> CHR 0x0A) available;
            complete = CHR 0x0A \<in> set available;
            consumed = length segment + (if complete then 1 else 0)
        in if max_line_bytes < length line + length segment \<or> max_total_bytes < sofar + consumed
           then Inl LineLimit
           else if complete
             then Inr (Some (strip_return (line @ segment), sofar + consumed,
               (if drop consumed available = [] then cs else Bytes (drop consumed available) # cs)))
             else read_bounded_line cs (sofar + consumed) (line @ segment))"
  by pat_completeness auto
termination by (relation "measure (\<lambda>(cs, _, _). length cs)") auto

fun chunk_bytes :: "chunk \<Rightarrow> nat" where
  "chunk_bytes (Bytes s) = length s"
| "chunk_bytes BrokenPipe = 0"

definition unread_bytes :: "chunk list \<Rightarrow> nat" where
  "unread_bytes cs = sum_list (map (\<lambda>c. Suc (chunk_bytes c)) cs)"

lemma read_bounded_line_decreases:
  "read_bounded_line cs sofar line = Inr (Some (l, sofar', cs')) \<Longrightarrow> unread_bytes cs' < unread_bytes cs"
proof (induction cs sofar line rule: read_bounded_line.induct)
  case (3 available cs sofar line)
  then show ?case
    by (cases available) (fastforce simp: Let_def unread_bytes_def split: if_splits)+
qed (auto split: if_splits)

function read_messages :: "chunk list \<Rightarrow> nat \<Rightarrow> incoming list" where
  "read_messages cs sofar =
     (case read_bounded_line cs sofar [] of
        Inl LineLimit \<Rightarrow> [InvalidLine]
      | Inl LineIo \<Rightarrow> [ReadFailure]
      | Inr None \<Rightarrow> [EndOfOutput]
      | Inr (Some (line, sofar', cs')) \<Rightarrow> Line line # read_messages cs' sofar')"
  by pat_completeness auto
termination
  by (relation "measure (\<lambda>(cs, _). unread_bytes cs)") (auto intro: read_bounded_line_decreases)

declare read_messages.simps [simp del]

section \<open>Requests\<close>

record rpc_header =
  rh_jsonrpc :: "string option"
  rh_id :: "u64 option"
  rh_method :: "string option"

record 'a rpc_response =
  rr_jsonrpc :: "string option"
  rr_id :: "u64 option"
  rr_result :: "'a option"
  rr_error :: "int option"

record account_read_result =
  ar_kind_and_plan :: "(string \<times> string option) option"
  ar_workspace_account :: "string option"

record raw_window =
  rw_used_percent :: "json option"
  rw_window_duration_mins :: "int option"
  rw_resets_at :: "int option"

record raw_credits =
  rc_has_credits :: bool
  rc_unlimited :: bool
  rc_balance :: "string option"

record raw_limit_bucket =
  rb_spend_control_reached :: "bool option"
  rb_limit_id :: "string option"
  rb_limit_name :: "string option"
  rb_primary :: "raw_window option"
  rb_secondary :: "raw_window option"
  rb_credits :: "raw_credits option"

record rate_limits_response =
  rl_ordinary_usage_allowed :: "bool option"
  rl_account_id :: "string option"
  rl_rate_limits_by_limit_id :: "(string \<times> raw_limit_bucket) list option"
  rl_rate_limits :: "raw_limit_bucket option"

text \<open>The host prints and parses messages and says which writes to the child succeed.\<close>

record live_host =
  lh_to_vec :: "json \<Rightarrow> string"
  lh_header :: "string \<Rightarrow> rpc_header option"
  lh_empty :: "string \<Rightarrow> unit rpc_response option"
  lh_account :: "string \<Rightarrow> account_read_result rpc_response option"
  lh_rate_limits :: "string \<Rightarrow> rate_limits_response rpc_response option"
  lh_writes :: "nat \<Rightarrow> bool"
  lh_version :: string

text \<open>What a receive before the deadline returns, with the time before it.\<close>

datatype received = NothingInTime | Hangup | Received incoming

record app_server =
  as_next_id :: u64
  as_message_count :: nat
  as_incoming :: "(int \<times> received) list"
  as_sent :: "json list"

definition send_message :: "live_host \<Rightarrow> json \<Rightarrow> app_server \<Rightarrow> live_quota_error + app_server" where
  "send_message host message server =
     (if max_line_bytes < length (lh_to_vec host message) then Inl LiveProtocolMismatch
      else if \<not> lh_writes host (length (as_sent server)) then Inl LiveProviderOutage
      else Inr (server\<lparr>as_sent := as_sent server @ [message]\<rparr>))"

definition notify_message :: "string \<Rightarrow> json \<Rightarrow> json" where
  "notify_message mth params =
     Object [(''jsonrpc'', String ''2.0''), (''method'', String mth), (''params'', params)]"

definition request_message :: "u64 \<Rightarrow> string \<Rightarrow> json \<Rightarrow> json" where
  "request_message i mth params =
     Object [(''jsonrpc'', String ''2.0''), (''id'', Number (PosInt i)), (''method'', String mth),
       (''params'', params)]"

definition version_mismatch :: "string option \<Rightarrow> bool" where
  "version_mismatch v = (case v of None \<Rightarrow> False | Some s \<Rightarrow> s \<noteq> ''2.0'')"

definition map_rpc_error :: "int \<Rightarrow> live_quota_error" where
  "map_rpc_error code =
     (if code = 401 \<or> code = 403 then LiveAuthExpired
      else if code = 429 then LiveRateLimited
      else if code = - 32601 then LiveUnsupported
      else LiveProviderOutage)"

definition accept_response ::
    "u64 \<Rightarrow> 'a rpc_response option \<Rightarrow> live_quota_error + 'a" where
  "accept_response i response =
     (case response of
        None \<Rightarrow> Inl LiveProtocolMismatch
      | Some r \<Rightarrow>
          if version_mismatch (rr_jsonrpc r) then Inl LiveProtocolMismatch
          else if rr_id r \<noteq> Some i then Inl LiveProtocolMismatch
          else
            (case rr_error r of
               Some code \<Rightarrow> Inl (map_rpc_error code)
             | None \<Rightarrow>
                 (case rr_result r of None \<Rightarrow> Inl LiveInvalidResponse | Some x \<Rightarrow> Inr x)))"

text \<open>The loop that waits for the answer, over what the channel still holds. When the list is used up
  nothing arrives before the deadline.\<close>

fun await_response ::
    "live_host \<Rightarrow> (string \<Rightarrow> 'a rpc_response option) \<Rightarrow> u64 \<Rightarrow> int \<Rightarrow> nat \<Rightarrow> (int \<times> received) list
     \<Rightarrow> live_quota_error + ('a \<times> nat \<times> (int \<times> received) list)" where
  "await_response host decode i deadline messages [] =
     Inl (if max_server_messages < Suc messages then LiveProtocolMismatch else LiveTimeout)"
| "await_response host decode i deadline messages ((now, r) # rest) =
     (if max_server_messages < Suc messages then Inl LiveProtocolMismatch
      else if deadline \<le> now then Inl LiveTimeout
      else
        (case r of
           NothingInTime \<Rightarrow> Inl LiveTimeout
         | Hangup \<Rightarrow> Inl LiveProviderOutage
         | Received EndOfOutput \<Rightarrow> Inl LiveProviderOutage
         | Received InvalidLine \<Rightarrow> Inl LiveProtocolMismatch
         | Received ReadFailure \<Rightarrow> Inl LiveProviderOutage
         | Received (Line line) \<Rightarrow>
             (case lh_header host line of
                None \<Rightarrow> Inl LiveProtocolMismatch
              | Some h \<Rightarrow>
                  if version_mismatch (rh_jsonrpc h) then Inl LiveProtocolMismatch
                  else
                    (case (rh_id h, rh_method h) of
                       (None, Some _) \<Rightarrow> await_response host decode i deadline (Suc messages) rest
                     | (Some j, None) \<Rightarrow>
                         if j \<noteq> i then Inl LiveProtocolMismatch
                         else (case accept_response i (decode line) of
                             Inl e \<Rightarrow> Inl e
                           | Inr x \<Rightarrow> Inr (x, Suc messages, rest))
                     | _ \<Rightarrow> Inl LiveProtocolMismatch))))"

definition request ::
    "live_host \<Rightarrow> (string \<Rightarrow> 'a rpc_response option) \<Rightarrow> string \<Rightarrow> json \<Rightarrow> int \<Rightarrow> app_server
     \<Rightarrow> live_quota_error + ('a \<times> app_server)" where
  "request host decode mth params deadline server =
     (let i = as_next_id server; server = server\<lparr>as_next_id := i + 1\<rparr>
      in case send_message host (request_message i mth params) server of
           Inl e \<Rightarrow> Inl e
         | Inr server \<Rightarrow>
             (case await_response host decode i deadline (as_message_count server) (as_incoming server) of
                Inl e \<Rightarrow> Inl e
              | Inr (x, messages, rest) \<Rightarrow>
                  Inr (x, server\<lparr>as_message_count := messages, as_incoming := rest\<rparr>)))"

definition client_info :: "live_host \<Rightarrow> json" where
  "client_info host = Object [(''clientInfo'', Object
     [(''name'', String ''agent-odometer''), (''version'', String (lh_version host))])]"

definition initialize :: "live_host \<Rightarrow> int \<Rightarrow> app_server \<Rightarrow> live_quota_error + app_server" where
  "initialize host deadline server =
     (case request host (lh_empty host) ''initialize'' (client_info host) deadline server of
        Inl e \<Rightarrow> Inl e
      | Inr (_, server) \<Rightarrow> send_message host (notify_message ''initialized'' (Object [])) server)"

section \<open>Answers\<close>

record account_metadata =
  am_plan_type :: "string option"
  am_chatgpt_account_id :: "string option"

definition account_metadata_of :: "account_read_result \<Rightarrow> live_quota_error + account_metadata" where
  "account_metadata_of result =
     (case ar_kind_and_plan result of
        None \<Rightarrow> Inl LiveAuthExpired
      | Some (kind, plan) \<Rightarrow>
          if kind \<noteq> ''chatgpt'' then Inl LiveUnsupported
          else if (case plan of None \<Rightarrow> False | Some p \<Rightarrow> max_label_bytes < length p \<or> has_control p)
            then Inl LiveInvalidResponse
          else Inr \<lparr>am_plan_type = plan, am_chatgpt_account_id = ar_workspace_account result\<rparr>)"

definition read_account ::
    "live_host \<Rightarrow> int \<Rightarrow> app_server \<Rightarrow> live_quota_error + (account_metadata \<times> app_server)" where
  "read_account host deadline server =
     (case request host (lh_account host) ''account/read'' (Object [(''refreshToken'', Bool False)])
         deadline server of
        Inl e \<Rightarrow> Inl e
      | Inr (result, server) \<Rightarrow>
          (case account_metadata_of result of Inl e \<Rightarrow> Inl e | Inr m \<Rightarrow> Inr (m, server)))"

definition read_rate_limits ::
    "live_host \<Rightarrow> int \<Rightarrow> app_server \<Rightarrow> live_quota_error + (rate_limits_response \<times> app_server)" where
  "read_rate_limits host deadline server =
     request host (lh_rate_limits host) ''account/rateLimits/read''
       (Object [(''excludeResetCreditDetails'', Bool True)]) deadline server"

definition checked_account_id :: "string option \<Rightarrow> live_quota_error + string" where
  "checked_account_id v =
     (case v of
        None \<Rightarrow> Inl LiveInvalidResponse
      | Some s \<Rightarrow>
          if s = [] \<or> max_account_id_bytes < length s \<or> has_control s \<or> trim s \<noteq> s
          then Inl LiveInvalidResponse else Inr s)"

definition validate_approved_local_account ::
    "string option \<Rightarrow> string \<Rightarrow> live_quota_error + unit" where
  "validate_approved_local_account local approved =
     (case local of
        None \<Rightarrow> Inl LiveUnsupported
      | Some l \<Rightarrow>
          (case checked_account_id (Some l) of
             Inl e \<Rightarrow> Inl e
           | Inr l \<Rightarrow> if l = approved then Inr () else Inl LiveAccountChanged))"

text \<open>\<open>str::parse::<f64>().ok()\<close>: a decimal is rounded once to the nearest number.\<close>

definition split_exponent :: "string \<Rightarrow> (string \<times> string option)" where
  "split_exponent s =
     (let m = takeWhile (\<lambda>c. c \<noteq> CHR ''e'' \<and> c \<noteq> CHR ''E'') s in
      (m, if length m = length s then None else Some (drop (Suc (length m)) s)))"

definition split_sign :: "string \<Rightarrow> bool \<times> string" where
  "split_sign s =
     (case s of
        c # cs \<Rightarrow> if c = CHR ''-'' then (True, cs) else if c = CHR ''+'' then (False, cs) else (False, s)
      | [] \<Rightarrow> (False, []))"

definition decimal_exponent :: "string option \<Rightarrow> int option" where
  "decimal_exponent e =
     (case e of
        None \<Rightarrow> Some 0
      | Some s \<Rightarrow>
          (let (neg, ds) = split_sign s in
           if ds = [] then None
           else map_option (\<lambda>n. if neg then - int n else int n) (parse_digits ds 0)))"

definition parse_f64 :: "string \<Rightarrow> f64 option" where
  "parse_f64 s =
     (let (neg, body) = split_sign s; word = to_ascii_lowercase body in
      if word = ''inf'' \<or> word = ''infinity'' then Some (f64_infinity neg)
      else if word = ''nan'' then Some (f64_sign_bit neg + f64_nan)
      else
        let (mantissa, e) = split_exponent body;
            whole = takeWhile (\<lambda>c. c \<noteq> CHR ''.'') mantissa;
            fraction = drop (Suc (length whole)) mantissa
        in if whole @ fraction = [] then None
           else
             (case (parse_digits (whole @ fraction) 0, decimal_exponent e) of
                (Some n, Some x) \<Rightarrow>
                  let p = x - int (length fraction) in
                  Some (if 0 \<le> p then f64_of_ratio neg (int n * 10 ^ nat p) 1
                        else f64_of_ratio neg (int n) (10 ^ nat (- p)))
              | _ \<Rightarrow> None))"

definition parse_window :: "raw_window \<Rightarrow> live_quota_error + live_quota_window" where
  "parse_window raw =
     (case Option.bind (rw_used_percent raw) as_f64 of
        None \<Rightarrow> Inl LiveInvalidResponse
      | Some used \<Rightarrow>
          if \<not> (f64_is_finite used \<and> f64_le 0 used \<and> f64_le used (f64_of_int 100)) then Inl LiveInvalidResponse
          else if (case rw_window_duration_mins raw of
              None \<Rightarrow> False | Some m \<Rightarrow> m \<le> 0 \<or> max_duration_minutes < m) then Inl LiveInvalidResponse
          else if (case rw_resets_at raw of
              None \<Rightarrow> False | Some t \<Rightarrow> \<not> (min_reset_epoch \<le> t \<and> t \<le> max_reset_epoch)) then Inl LiveInvalidResponse
          else Inr \<lparr>lw_used_percent = used,
                    lw_window_minutes = map_option word_of_int (rw_window_duration_mins raw),
                    lw_resets_at = map_option (\<lambda>t. t * nanos_per_second) (rw_resets_at raw)\<rparr>)"

definition parse_credits :: "raw_credits \<Rightarrow> live_quota_error + live_quota_credits" where
  "parse_credits raw =
     (case rc_balance raw of
        None \<Rightarrow> Inr \<lparr>lc_has_credits = rc_has_credits raw, lc_unlimited = rc_unlimited raw, lc_balance = None\<rparr>
      | Some b \<Rightarrow>
          (case parse_f64 b of
             None \<Rightarrow> Inl LiveInvalidResponse
           | Some n \<Rightarrow>
               if \<not> f64_is_finite n \<or> \<not> (f64_le 0 n \<and> f64_le n max_credit_balance) then Inl LiveInvalidResponse
               else Inr \<lparr>lc_has_credits = rc_has_credits raw, lc_unlimited = rc_unlimited raw,
                         lc_balance = Some n\<rparr>))"

definition transposed :: "('a \<Rightarrow> 'e + 'b) \<Rightarrow> 'a option \<Rightarrow> 'e + 'b option" where
  "transposed f x =
     (case x of
        None \<Rightarrow> Inr None
      | Some v \<Rightarrow> (case f v of Inl e \<Rightarrow> Inl e | Inr y \<Rightarrow> Inr (Some y)))"

definition parse_bucket :: "string \<Rightarrow> raw_limit_bucket \<Rightarrow> live_quota_error + live_quota_bucket option" where
  "parse_bucket i raw =
     (if i = [] \<or> max_limit_id_bytes < length i \<or> has_control i
         \<or> (case rb_limit_id raw of None \<Rightarrow> False | Some inner \<Rightarrow> inner \<noteq> i) then Inl LiveInvalidResponse
      else if (case rb_limit_name raw of
          None \<Rightarrow> False | Some n \<Rightarrow> max_label_bytes < length n \<or> has_control n) then Inl LiveInvalidResponse
      else
        (case transposed parse_window (rb_primary raw) of
           Inl e \<Rightarrow> Inl e
         | Inr primary \<Rightarrow>
             (case transposed parse_window (rb_secondary raw) of
                Inl e \<Rightarrow> Inl e
              | Inr secondary \<Rightarrow>
                  (case transposed parse_credits (rb_credits raw) of
                     Inl e \<Rightarrow> Inl e
                   | Inr credits \<Rightarrow>
                       if primary = None \<and> secondary = None \<and> credits = None then Inr None
                       else Inr (Some \<lparr>lb_limit_id = i, lb_limit_name = rb_limit_name raw,
                         lb_spend_control_reached = rb_spend_control_reached raw,
                         lb_primary = primary, lb_secondary = secondary, lb_credits = credits\<rparr>)))))"

fun parse_buckets :: "(string \<times> raw_limit_bucket) list \<Rightarrow> live_quota_error + live_quota_bucket list" where
  "parse_buckets [] = Inr []"
| "parse_buckets ((i, raw) # rest) =
     (case parse_bucket i raw of
        Inl e \<Rightarrow> Inl e
      | Inr b \<Rightarrow> (case parse_buckets rest of Inl e \<Rightarrow> Inl e | Inr bs \<Rightarrow> Inr (option_list b @ bs)))"

definition bucket_source ::
    "rate_limits_response \<Rightarrow> live_quota_error + (string \<times> raw_limit_bucket) list" where
  "bucket_source response =
     (case rl_rate_limits_by_limit_id response of
        Some m \<Rightarrow> if m = [] then Inl LiveNoObservation else Inr m
      | None \<Rightarrow>
          (case rl_rate_limits response of
             None \<Rightarrow> Inl LiveNoObservation
           | Some legacy \<Rightarrow>
               (case rb_limit_id legacy of
                  None \<Rightarrow> Inl LiveInvalidResponse
                | Some i \<Rightarrow> if i = [] then Inl LiveInvalidResponse else Inr [(i, legacy)])))"

definition parse_limit_buckets :: "rate_limits_response \<Rightarrow> live_quota_error + live_quota_bucket list" where
  "parse_limit_buckets response =
     (case bucket_source response of
        Inl e \<Rightarrow> Inl e
      | Inr src \<Rightarrow>
          (case parse_buckets src of
             Inl e \<Rightarrow> Inl e
           | Inr bs \<Rightarrow> if bs = [] then Inl LiveNoObservation else Inr bs))"

section \<open>The two operations\<close>

text \<open>The child is spawned before the deadline or not at all; \<open>spawned\<close> is the outcome.\<close>

definition discover_codex_account ::
    "live_host \<Rightarrow> live_quota_error + app_server \<Rightarrow> int \<Rightarrow> live_quota_error + discovered_account" where
  "discover_codex_account host spawned deadline =
     (case spawned of Inl e \<Rightarrow> Inl e | Inr server \<Rightarrow>
     (case initialize host deadline server of Inl e \<Rightarrow> Inl e | Inr server \<Rightarrow>
     (case read_account host deadline server of Inl e \<Rightarrow> Inl e | Inr (account, server) \<Rightarrow>
     (case read_rate_limits host deadline server of Inl e \<Rightarrow> Inl e | Inr (rates, server) \<Rightarrow>
     (case checked_account_id (rl_account_id rates) of Inl e \<Rightarrow> Inl e | Inr account_id \<Rightarrow>
        Inr \<lparr>da_account_id = account_id, da_plan_type = am_plan_type account\<rparr>)))))"

definition read_codex_quota ::
    "live_host \<Rightarrow> live_quota_error + app_server \<Rightarrow> int \<Rightarrow> timestamp \<Rightarrow> string
     \<Rightarrow> live_quota_error + (live_reading \<times> app_server)" where
  "read_codex_quota host spawned deadline observed_at approved =
     (case checked_account_id (Some approved) of Inl e \<Rightarrow> Inl e | Inr approved \<Rightarrow>
     (case spawned of Inl e \<Rightarrow> Inl e | Inr server \<Rightarrow>
     (case initialize host deadline server of Inl e \<Rightarrow> Inl e | Inr server \<Rightarrow>
     (case read_account host deadline server of Inl e \<Rightarrow> Inl e | Inr (account, server) \<Rightarrow>
     (case validate_approved_local_account (am_chatgpt_account_id account) approved of
        Inl e \<Rightarrow> Inl e | Inr _ \<Rightarrow>
     (case read_rate_limits host deadline server of Inl e \<Rightarrow> Inl e | Inr (response, server) \<Rightarrow>
     (case checked_account_id (rl_account_id response) of Inl e \<Rightarrow> Inl e | Inr account_id \<Rightarrow>
        if account_id \<noteq> approved then Inl LiveAccountChanged
        else
          (case parse_limit_buckets response of Inl e \<Rightarrow> Inl e | Inr buckets \<Rightarrow>
             Inr (\<lparr>lq_account_id = account_id,
                   lq_ordinary_usage_allowed = rl_ordinary_usage_allowed response,
                   lq_observed_at = observed_at, lq_limit_buckets = buckets\<rparr>, server)))))))))"

text \<open>A fresh child.\<close>

definition new_server :: "(int \<times> received) list \<Rightarrow> app_server" where
  "new_server events = \<lparr>as_next_id = 1, as_message_count = 0, as_incoming = events, as_sent = []\<rparr>"

end
