(* ===== verification/Quota_Live_Facts.thy ===== *)
theory Quota_Live_Facts
  imports Quota_Live
begin

text \<open>
  The live quota reading: how the child's output is cut into chunks does not matter, what is read is
  bounded whatever the child writes, and a reading that is returned belongs to the approved account
  and holds only values the code declares valid.
\<close>

section \<open>The output as one stream\<close>

text \<open>The bytes before the end or the error, and whether an error ended them.\<close>

fun stream_of :: "chunk list \<Rightarrow> string \<times> bool" where
  "stream_of [] = ([], False)"
| "stream_of (BrokenPipe # cs) = ([], True)"
| "stream_of (Bytes s # cs) =
     (if s = [] then ([], False) else (let (t, broken) = stream_of cs in (s @ t, broken)))"

definition stream_line ::
    "string \<times> bool \<Rightarrow> nat \<Rightarrow> string \<Rightarrow> read_line_failure + (string \<times> nat \<times> string \<times> bool) option" where
  "stream_line stream sofar line =
     (let (s, broken) = stream;
          segment = takeWhile (\<lambda>c. c \<noteq> CHR 0x0A) s;
          complete = CHR 0x0A \<in> set s;
          consumed = length segment + (if complete then 1 else 0)
      in if max_line_bytes < length line + length segment \<or> max_total_bytes < sofar + consumed
         then Inl LineLimit
         else if complete then Inr (Some (strip_return (line @ segment), sofar + consumed, drop consumed s, broken))
         else if broken then Inl LineIo
         else if line @ segment = [] then Inr None
         else Inl LineLimit)"

lemma segment_append:
  "CHR 0x0A \<notin> set s \<Longrightarrow> takeWhile (\<lambda>c. c \<noteq> CHR 0x0A) (s @ t) = s @ takeWhile (\<lambda>c. c \<noteq> CHR 0x0A) t"
  by (rule takeWhile_append2) auto

lemma segment_append_complete:
  "CHR 0x0A \<in> set s \<Longrightarrow> takeWhile (\<lambda>c. c \<noteq> CHR 0x0A) (s @ t) = takeWhile (\<lambda>c. c \<noteq> CHR 0x0A) s"
  by (rule takeWhile_append1) auto

lemma segment_all: "CHR 0x0A \<notin> set s \<Longrightarrow> takeWhile (\<lambda>c. c \<noteq> CHR 0x0A) s = s"
  by (subst takeWhile_eq_all_conv) auto

lemma segment_complete_length:
  "CHR 0x0A \<in> set s \<Longrightarrow> length (takeWhile (\<lambda>c. c \<noteq> CHR 0x0A) s) < length s"
  by (induction s) auto

lemma read_bounded_line_stream:
  "length line \<le> max_line_bytes \<Longrightarrow> sofar \<le> max_total_bytes \<Longrightarrow>
    map_sum (\<lambda>e. e) (map_option (\<lambda>(l, n, cs'). (l, n, stream_of cs'))) (read_bounded_line cs sofar line)
      = stream_line (stream_of cs) sofar line"
proof (induction cs sofar line rule: read_bounded_line.induct)
  case (1 sofar line)
  then show ?case by (simp add: stream_line_def)
next
  case (2 cs sofar line)
  then show ?case by (simp add: stream_line_def)
next
  case (3 available cs sofar line)
  obtain t broken where t: "stream_of cs = (t, broken)" by (cases "stream_of cs")
  let ?seg = "takeWhile (\<lambda>c. c \<noteq> CHR 0x0A) available"
  show ?case
  proof (cases "available = []")
    case True
    with 3 show ?thesis by (simp add: stream_line_def)
  next
    case False
    note ne = this
    show ?thesis
    proof (cases "CHR 0x0A \<in> set available")
      case True
      note complete = this
      let ?n = "Suc (length ?seg)"
      have "?n \<le> length available" using segment_complete_length[OF complete] by simp
      then have "stream_of (if drop ?n available = [] then cs else Bytes (drop ?n available) # cs)
          = (drop ?n (available @ t), broken)"
        using t by auto
      then show ?thesis
        using ne complete
        by (simp add: stream_line_def t segment_append_complete Let_def split del: if_split cong: if_cong)
          (simp split: if_split)
    next
      case False
      note going = this
      show ?thesis
      proof (cases "max_line_bytes < length line + length available \<or> max_total_bytes < sofar + length available")
        case True
        then have "max_line_bytes < length line + length (available @ takeWhile (\<lambda>c. c \<noteq> CHR 0x0A) t)
            \<or> max_total_bytes < sofar + (length (available @ takeWhile (\<lambda>c. c \<noteq> CHR 0x0A) t) + n)" for n
          by auto
        with True ne going show ?thesis
          by (simp add: stream_line_def t segment_append segment_all Let_def)
      next
        case False
        then have "map_sum (\<lambda>e. e) (map_option (\<lambda>(l, n, cs'). (l, n, stream_of cs')))
            (read_bounded_line cs (sofar + length available) (line @ available))
            = stream_line (t, broken) (sofar + length available) (line @ available)"
          using "3.IH"[OF ne refl refl refl] going segment_all[OF going] t by simp
        then show ?thesis
          using ne going False
          by (simp add: stream_line_def t segment_append segment_all Let_def add.assoc)
      qed
    qed
  qed
qed

text \<open>The messages of a stream: complete lines as long as the limits allow, then how it ended.\<close>

definition raw_lines :: "string list \<Rightarrow> string" where
  "raw_lines ls = concat (map (\<lambda>l. l @ [CHR 0x0A]) ls)"

definition messages_of :: "string \<Rightarrow> bool \<Rightarrow> nat \<Rightarrow> incoming list \<Rightarrow> bool" where
  "messages_of s broken sofar ms \<longleftrightarrow>
     (\<exists>ls rest ending. s = raw_lines ls @ rest \<and> ms = map (\<lambda>l. Line (strip_return l)) ls @ [ending]
        \<and> (\<forall>l\<in>set ls. CHR 0x0A \<notin> set l \<and> length l \<le> max_line_bytes)
        \<and> sofar + length (raw_lines ls) \<le> max_total_bytes
        \<and> ending =
          (let segment = takeWhile (\<lambda>c. c \<noteq> CHR 0x0A) rest in
           if CHR 0x0A \<in> set rest \<or> max_line_bytes < length segment
              \<or> max_total_bytes < sofar + length (raw_lines ls) + length segment then InvalidLine
           else if broken then ReadFailure
           else if rest = [] then EndOfOutput
           else InvalidLine)
        \<and> (CHR 0x0A \<in> set rest \<longrightarrow>
             max_line_bytes < length (takeWhile (\<lambda>c. c \<noteq> CHR 0x0A) rest)
             \<or> max_total_bytes < sofar + length (raw_lines ls) + Suc (length (takeWhile (\<lambda>c. c \<noteq> CHR 0x0A) rest))))"

lemma messages_step:
  assumes "messages_of (drop (Suc (length l)) s) broken (sofar + Suc (length l)) ms"
    and "l = takeWhile (\<lambda>c. c \<noteq> CHR 0x0A) s" "CHR 0x0A \<in> set s" "length l \<le> max_line_bytes"
  shows "messages_of s broken sofar (Line (strip_return l) # ms)"
proof -
  from assms(1) obtain ls rest ending where m:
      "drop (Suc (length l)) s = raw_lines ls @ rest" "ms = map (\<lambda>l. Line (strip_return l)) ls @ [ending]"
      "\<forall>l\<in>set ls. CHR 0x0A \<notin> set l \<and> length l \<le> max_line_bytes"
      "sofar + Suc (length l) + length (raw_lines ls) \<le> max_total_bytes"
      "ending = (let segment = takeWhile (\<lambda>c. c \<noteq> CHR 0x0A) rest in
           if CHR 0x0A \<in> set rest \<or> max_line_bytes < length segment
              \<or> max_total_bytes < sofar + Suc (length l) + length (raw_lines ls) + length segment then InvalidLine
           else if broken then ReadFailure else if rest = [] then EndOfOutput else InvalidLine)"
      "CHR 0x0A \<in> set rest \<longrightarrow> max_line_bytes < length (takeWhile (\<lambda>c. c \<noteq> CHR 0x0A) rest)
         \<or> max_total_bytes < sofar + Suc (length l) + length (raw_lines ls)
             + Suc (length (takeWhile (\<lambda>c. c \<noteq> CHR 0x0A) rest))"
    unfolding messages_of_def by blast
  have "s = l @ CHR 0x0A # drop (Suc (length l)) s"
  proof -
    have "dropWhile (\<lambda>c. c \<noteq> CHR 0x0A) s \<noteq> []" using assms(3) by (auto simp: dropWhile_eq_Nil_conv)
    then obtain c cs where d: "dropWhile (\<lambda>c. c \<noteq> CHR 0x0A) s = c # cs" by (cases "dropWhile (\<lambda>c. c \<noteq> CHR 0x0A) s") auto
    then have "c = CHR 0x0A" using hd_dropWhile[of "\<lambda>c. c \<noteq> CHR 0x0A" s] by simp
    moreover have "s = l @ c # cs" using takeWhile_dropWhile_id[of "\<lambda>c. c \<noteq> CHR 0x0A" s] unfolding d assms(2) by simp
    ultimately show ?thesis by (metis append_Cons append_Nil append_assoc append_eq_conv_conj length_Suc_conv_rev
        length_append_singleton)
  qed
  then have "s = raw_lines (l # ls) @ rest" unfolding m(1) by (simp add: raw_lines_def)
  moreover have "CHR 0x0A \<notin> set l" using assms(2) by (auto dest: set_takeWhileD)
  ultimately show ?thesis
    unfolding messages_of_def
    by (intro exI[of _ "l # ls"] exI[of _ rest] exI[of _ ending])
      (use m assms(4) in \<open>auto simp: raw_lines_def add.assoc Let_def\<close>)
qed

text \<open>What the reader hands on depends only on the bytes the child wrote and on how the output
  ended, not on how the pipe cut it into chunks: the complete lines of at most 65,536 bytes, without a
  trailing carriage return, as long as all of them together stay within 262,144 bytes, and then one end
  message, which is end of output only when every byte has been handed on.\<close>

theorem live_reader_messages:
  "messages_of (fst (stream_of cs)) (snd (stream_of cs)) 0 (read_messages cs 0)"
proof -
  have "sofar \<le> max_total_bytes \<Longrightarrow> stream_of cs = (s, broken) \<Longrightarrow> messages_of s broken sofar (read_messages cs sofar)"
    for cs sofar s broken
  proof (induction cs sofar arbitrary: s broken rule: read_messages.induct)
    case (1 cs sofar)
    let ?seg = "takeWhile (\<lambda>c. c \<noteq> CHR 0x0A) s"
    have line: "map_sum (\<lambda>e. e) (map_option (\<lambda>(l, n, cs'). (l, n, stream_of cs'))) (read_bounded_line cs sofar [])
        = stream_line (s, broken) sofar []"
      using read_bounded_line_stream[of "[]" sofar cs] 1(2,3) by simp
    show ?case
    proof (cases "CHR 0x0A \<in> set s \<and> length ?seg \<le> max_line_bytes \<and> sofar + Suc (length ?seg) \<le> max_total_bytes")
      case True
      then have "stream_line (s, broken) sofar []
          = Inr (Some (strip_return ?seg, sofar + Suc (length ?seg), drop (Suc (length ?seg)) s, broken))"
        by (simp add: stream_line_def Let_def)
      with line obtain cs' where cs': "read_bounded_line cs sofar [] = Inr (Some (strip_return ?seg, sofar + Suc (length ?seg), cs'))"
          "stream_of cs' = (drop (Suc (length ?seg)) s, broken)"
        by (cases "read_bounded_line cs sofar []") auto
      have "messages_of (drop (Suc (length ?seg)) s) broken (sofar + Suc (length ?seg))
          (read_messages cs' (sofar + Suc (length ?seg)))"
        by (rule 1(1)[OF cs'(1)[THEN trans[OF _ refl]] refl refl refl]) (use True cs' in auto)
      from messages_step[OF this refl] True show ?thesis
        by (subst read_messages.simps) (simp add: cs'(1))
    next
      case False
      have one: "messages_of s broken sofar [e]"
        if "e = (if CHR 0x0A \<in> set s \<or> max_line_bytes < length ?seg \<or> max_total_bytes < sofar + length ?seg then InvalidLine
             else if broken then ReadFailure else if s = [] then EndOfOutput else InvalidLine)" for e
        unfolding messages_of_def that
        by (intro exI[of _ "[]"] exI[of _ s]) (use False 1(2) in \<open>auto simp: raw_lines_def Let_def\<close>)
      have "stream_line (s, broken) sofar [] = (if CHR 0x0A \<in> set s \<or> max_line_bytes < length ?seg
            \<or> max_total_bytes < sofar + length ?seg then Inl LineLimit
          else if broken then Inl LineIo else if s = [] then Inr None else Inl LineLimit)"
        using False by (auto simp: stream_line_def Let_def segment_all)
      with line have "read_messages cs sofar = [if CHR 0x0A \<in> set s \<or> max_line_bytes < length ?seg
            \<or> max_total_bytes < sofar + length ?seg then InvalidLine
          else if broken then ReadFailure else if s = [] then EndOfOutput else InvalidLine]"
        by (subst read_messages.simps)
          (cases "read_bounded_line cs sofar []"; auto split: if_splits option.splits read_line_failure.splits)
      with one[OF refl] show ?thesis by simp
    qed
  qed
  from this[of 0 cs] show ?thesis by simp
qed

section \<open>Requests\<close>

definition heard :: "int \<Rightarrow> (int \<times> received) list \<Rightarrow> app_server \<Rightarrow> bool" where
  "heard deadline events server \<longleftrightarrow>
     (\<exists>used. events = used @ as_incoming server \<and> as_message_count server = length used
        \<and> length used \<le> max_server_messages \<and> (\<forall>e\<in>set used. fst e < deadline))"

lemma await_heard:
  "await_response host decode i deadline messages events = Inr (x, messages', rest) \<Longrightarrow>
    \<exists>used. events = used @ rest \<and> messages' = messages + length used \<and> messages' \<le> max_server_messages
      \<and> (\<forall>e\<in>set used. fst e < deadline)"
proof (induction host decode i deadline messages events rule: await_response.induct)
  case (2 host decode i deadline messages now r rest')
  show ?case
  proof (cases r)
    case (Received inc)
    show ?thesis
    proof (cases inc)
      case (Line line)
      obtain h where h: "lh_header host line = Some h" "\<not> version_mismatch (rh_jsonrpc h)"
          "\<not> max_server_messages < Suc messages" "\<not> deadline \<le> now"
        using 2(2) by (auto simp: Received Line split: if_splits option.splits)
      show ?thesis
      proof (cases "rh_id h")
        case None
        then obtain m where m: "rh_method h = Some m"
          using 2(2) h by (auto simp: Received Line split: option.splits)
        have "await_response host decode i deadline (Suc messages) rest' = Inr (x, messages', rest)"
          using 2(2) h None m by (simp add: Received Line)
        from "2.IH"[OF h(3,4) Received Line h(1,2) refl None m this] h(4)
        obtain used where used: "rest' = used @ rest" "messages' = Suc messages + length used"
            "messages' \<le> max_server_messages" "\<forall>e\<in>set used. fst e < deadline" by blast
        show ?thesis
          by (rule exI[of _ "(now, r) # used"]) (use used h(4) in auto)
      next
        case (Some j)
        with 2(2) h have "rest = rest'" "messages' = Suc messages"
          by (auto simp: Received Line split: if_splits option.splits sum.splits)
        then show ?thesis
          by (intro exI[of _ "[(now, r)]"]) (use h in auto)
      qed
    qed (use 2(2) in \<open>auto simp: Received split: if_splits\<close>)
  qed (use 2(2) in \<open>auto split: if_splits\<close>)
qed simp

lemma send_heard:
  assumes "send_message host message server = Inr server'" "heard deadline events server"
  shows "heard deadline events server' \<and> as_sent server' = as_sent server @ [message]
    \<and> as_next_id server' = as_next_id server"
  using assms by (auto simp: send_message_def heard_def split: if_splits)

lemma request_heard:
  assumes "request host decode mth params deadline server = Inr (x, server')" "heard deadline events server"
  shows "heard deadline events server'
    \<and> as_sent server' = as_sent server @ [request_message (as_next_id server) mth params]
    \<and> as_next_id server' = as_next_id server + 1"
proof -
  obtain messages rest where await: "await_response host decode (as_next_id server) deadline
      (as_message_count server) (as_incoming server) = Inr (x, messages, rest)"
    and server': "server' = server\<lparr>as_next_id := as_next_id server + 1,
      as_sent := as_sent server @ [request_message (as_next_id server) mth params],
      as_message_count := messages, as_incoming := rest\<rparr>"
    using assms(1) by (auto simp: request_def send_message_def Let_def split: sum.splits if_splits)
  from await_heard[OF await] obtain used where used: "as_incoming server = used @ rest"
      "messages = as_message_count server + length used" "messages \<le> max_server_messages"
      "\<forall>e\<in>set used. fst e < deadline" by blast
  from assms(2) obtain before where before: "events = before @ as_incoming server"
      "as_message_count server = length before" "\<forall>e\<in>set before. fst e < deadline"
    by (auto simp: heard_def)
  have "heard deadline events server'"
    unfolding heard_def server'
    by (rule exI[of _ "before @ used"]) (use used before in auto)
  with server' show ?thesis by simp
qed

section \<open>Readings\<close>

definition live_window_valid :: "live_quota_window \<Rightarrow> bool" where
  "live_window_valid w \<longleftrightarrow>
     f64_is_finite (lw_used_percent w) \<and> f64_le 0 (lw_used_percent w)
     \<and> f64_le (lw_used_percent w) (f64_of_int 100)
     \<and> (\<forall>m. lw_window_minutes w = Some m \<longrightarrow> 1 \<le> uint m \<and> uint m \<le> 366 * 24 * 60)
     \<and> (\<forall>t. lw_resets_at w = Some t \<longrightarrow>
          min_reset_epoch * nanos_per_second \<le> t \<and> t \<le> max_reset_epoch * nanos_per_second)"

definition live_credits_valid :: "live_quota_credits \<Rightarrow> bool" where
  "live_credits_valid c \<longleftrightarrow>
     (\<forall>b. lc_balance c = Some b \<longrightarrow> f64_is_finite b \<and> f64_le 0 b \<and> f64_le b max_credit_balance)"

definition live_bucket_valid :: "live_quota_bucket \<Rightarrow> bool" where
  "live_bucket_valid b \<longleftrightarrow>
     lb_limit_id b \<noteq> [] \<and> length (lb_limit_id b) \<le> max_limit_id_bytes \<and> \<not> has_control (lb_limit_id b)
     \<and> (\<forall>n. lb_limit_name b = Some n \<longrightarrow> length n \<le> max_label_bytes \<and> \<not> has_control n)
     \<and> (lb_primary b \<noteq> None \<or> lb_secondary b \<noteq> None \<or> lb_credits b \<noteq> None)
     \<and> pred_option live_window_valid (lb_primary b) \<and> pred_option live_window_valid (lb_secondary b)
     \<and> pred_option live_credits_valid (lb_credits b)"

lemma parse_window_valid: "parse_window raw = Inr w \<Longrightarrow> live_window_valid w"
  by (auto simp: parse_window_def live_window_valid_def max_duration_minutes_def uint_word_of_int
      nanos_per_second_def take_bit_int_eq_self unsigned_of_int
      split: option.splits if_splits)

lemma parse_credits_valid: "parse_credits raw = Inr c \<Longrightarrow> live_credits_valid c"
  by (auto simp: parse_credits_def live_credits_valid_def split: option.splits if_splits)

lemma transposed_valid:
  "transposed f x = Inr y \<Longrightarrow> (\<And>v r. f v = Inr r \<Longrightarrow> P r) \<Longrightarrow> pred_option P y"
  by (auto simp: transposed_def split: option.splits sum.splits)

lemma parse_bucket_valid:
  assumes "parse_bucket i raw = Inr (Some b)"
  shows "live_bucket_valid b"
proof -
  obtain primary secondary credits where p: "transposed parse_window (rb_primary raw) = Inr primary"
      "transposed parse_window (rb_secondary raw) = Inr secondary"
      "transposed parse_credits (rb_credits raw) = Inr credits"
      "b = \<lparr>lb_limit_id = i, lb_limit_name = rb_limit_name raw,
        lb_spend_control_reached = rb_spend_control_reached raw,
        lb_primary = primary, lb_secondary = secondary, lb_credits = credits\<rparr>"
      "\<not> (primary = None \<and> secondary = None \<and> credits = None)"
    using assms by (auto simp: parse_bucket_def split: sum.splits if_splits)
  have "pred_option live_window_valid primary" "pred_option live_window_valid secondary"
      "pred_option live_credits_valid credits"
    using p(1-3) by (auto intro!: transposed_valid parse_window_valid parse_credits_valid)
  with p(4,5) assms show ?thesis
    by (auto simp: parse_bucket_def live_bucket_valid_def split: if_splits option.splits)
qed

lemma parse_buckets_valid: "parse_buckets src = Inr bs \<Longrightarrow> list_all live_bucket_valid bs"
  by (induction src arbitrary: bs rule: parse_buckets.induct)
    (auto simp: option_list_def dest: parse_bucket_valid split: sum.splits option.splits)

definition sent_methods :: "app_server \<Rightarrow> string list" where
  "sent_methods server = map (\<lambda>m. unwrap_or [] (get_str ''method'' m)) (as_sent server)"

text \<open>An answer is the decoded content of a line that was received before the deadline.\<close>

definition answered :: "(int \<times> received) list \<Rightarrow> int \<Rightarrow> (string \<Rightarrow> 'a rpc_response option) \<Rightarrow> u64 \<Rightarrow> 'a \<Rightarrow> bool" where
  "answered events deadline decode i x \<longleftrightarrow>
     (\<exists>t line. (t, Received (Line line)) \<in> set events \<and> t < deadline \<and> accept_response i (decode line) = Inr x)"

lemma answered_later: "answered rest deadline decode i x \<Longrightarrow> answered (used @ rest) deadline decode i x"
  by (auto simp: answered_def)

lemma await_answered:
  "await_response host decode i deadline messages events = Inr (x, messages', rest)
    \<Longrightarrow> answered events deadline decode i x"
proof (induction host decode i deadline messages events rule: await_response.induct)
  case (2 host decode i deadline messages now r rest')
  show ?case
  proof (cases "\<exists>line. r = Received (Line line)")
    case True
    then obtain line where r: "r = Received (Line line)" by blast
    with 2(2) obtain h where h: "lh_header host line = Some h" "\<not> version_mismatch (rh_jsonrpc h)"
        "\<not> max_server_messages < Suc messages" "\<not> deadline \<le> now"
      by (auto split: if_splits option.splits)
    show ?thesis
    proof (cases "rh_id h")
      case None
      then obtain m where m: "rh_method h = Some m"
        using 2(2) h by (auto simp: r split: option.splits)
      have "await_response host decode i deadline (Suc messages) rest' = Inr (x, messages', rest)"
        using 2(2) h None m by (simp add: r)
      from "2.IH"[OF h(3,4) r refl h(1,2) refl None m this] show ?thesis
        using answered_later[of rest' deadline decode i x "[(now, r)]"] by simp
    next
      case (Some j)
      with 2(2) h have "accept_response i (decode line) = Inr x"
        by (auto simp: r split: if_splits option.splits sum.splits)
      with h(4) show ?thesis
        unfolding answered_def r by (intro exI[of _ now] exI[of _ line]) simp
    qed
  qed (use 2(2) in \<open>auto split: if_splits received.splits incoming.splits\<close>)
qed simp

lemma request_answered:
  assumes "request host decode mth params deadline server = Inr (x, server')" "heard deadline events server"
  shows "answered events deadline decode (as_next_id server) x"
proof -
  obtain messages rest where "await_response host decode (as_next_id server) deadline
      (as_message_count server) (as_incoming server) = Inr (x, messages, rest)"
    using assms(1) by (auto simp: request_def send_message_def Let_def split: sum.splits if_splits)
  note answer = await_answered[OF this]
  from assms(2) obtain used where "events = used @ as_incoming server" by (auto simp: heard_def)
  with answered_later[OF answer] show ?thesis by simp
qed

text \<open>C32: A live reading is returned only for the approved account, both as the local tool names it and
  as the answer does: a line received before the deadline answers the account request with the approved
  account, and a line received before the deadline answers the limits request with the approved account
  and with the limits of the reading. The reading holds at least one limit, each with a valid name and at
  least one value: a finite percentage from 0 to 100, a duration of at most a leap year, a reset between
  2000 and 2100, a balance between 0 and 10^12. It takes exactly the four messages of the protocol in their
  order and at most 32 messages of the tool, all received before the deadline.\<close>

theorem live_reading_sound:
  assumes "read_codex_quota host (Inr (new_server events)) deadline observed_at approved = Inr (reading, server)"
  shows "(\<exists>local. answered events deadline (lh_account host) 2 local \<and> ar_workspace_account local = Some approved)
    \<and> (\<exists>response. answered events deadline (lh_rate_limits host) 3 response
        \<and> rl_account_id response = Some approved
        \<and> parse_limit_buckets response = Inr (lq_limit_buckets reading))
    \<and> lq_account_id reading = approved \<and> lq_observed_at reading = observed_at
    \<and> lq_limit_buckets reading \<noteq> [] \<and> list_all live_bucket_valid (lq_limit_buckets reading)
    \<and> sent_methods server = [''initialize'', ''initialized'', ''account/read'', ''account/rateLimits/read'']
    \<and> heard deadline events server"
proof -
  from assms obtain s1 s2 s3 account response m where
      init: "request host (lh_empty host) ''initialize'' (client_info host) deadline (new_server events) = Inr ((), s1)"
      "send_message host (notify_message ''initialized'' (Object [])) s1 = Inr s2" and
      account: "request host (lh_account host) ''account/read'' (Object [(''refreshToken'', Bool False)])
         deadline s2 = Inr (account, s3)" "account_metadata_of account = Inr m"
         "validate_approved_local_account (am_chatgpt_account_id m) approved = Inr ()" and
      limits: "request host (lh_rate_limits host) ''account/rateLimits/read''
         (Object [(''excludeResetCreditDetails'', Bool True)]) deadline s3 = Inr (response, server)"
         "checked_account_id (rl_account_id response) = Inr approved" and
      buckets: "parse_limit_buckets response = Inr (lq_limit_buckets reading)" and
      ids: "lq_account_id reading = approved" "lq_observed_at reading = observed_at"
    by (auto simp: read_codex_quota_def initialize_def read_account_def read_rate_limits_def
        checked_account_id_def split: sum.splits if_splits option.splits)
  have named: "ar_workspace_account account = Some approved"
    using account(2,3) by (auto simp: account_metadata_of_def validate_approved_local_account_def
        checked_account_id_def split: option.splits if_splits)
  have limited: "rl_account_id response = Some approved"
    using limits(2) by (auto simp: checked_account_id_def split: option.splits if_splits)
  have "heard deadline events (new_server events)" "as_sent (new_server events) = []"
      "as_next_id (new_server events) = 1"
    by (simp_all add: heard_def new_server_def)
  with request_heard[OF init(1)] have 1: "heard deadline events s1" "as_next_id s1 = 2"
      "as_sent s1 = [request_message (as_next_id (new_server events)) ''initialize'' (client_info host)]" by auto
  note 2 = send_heard[OF init(2) 1(1)]
  note 3 = request_heard[OF account(1) conjunct1[OF 2]]
  note 4 = request_heard[OF limits(1) conjunct1[OF 3]]
  have "sent_methods server = [''initialize'', ''initialized'', ''account/read'', ''account/rateLimits/read'']"
    using 1(3) 2 3 4
    by (simp add: sent_methods_def request_message_def notify_message_def get_str_def)
  moreover have "lq_limit_buckets reading \<noteq> []" "list_all live_bucket_valid (lq_limit_buckets reading)"
    using buckets by (auto simp: parse_limit_buckets_def dest: parse_buckets_valid split: sum.splits if_splits)
  moreover have "answered events deadline (lh_account host) 2 account"
    using request_answered[OF account(1) conjunct1[OF 2]] 1(2) 2 by simp
  moreover have "answered events deadline (lh_rate_limits host) 3 response"
    using request_answered[OF limits(1) conjunct1[OF 3]] 1(2) 2 3 by simp
  ultimately show ?thesis using ids 4 named limited buckets by blast
qed

section \<open>An example\<close>

definition sample_limits :: rate_limits_response where
  "sample_limits = \<lparr>rl_ordinary_usage_allowed = None, rl_account_id = Some ''a'',
     rl_rate_limits_by_limit_id = None,
     rl_rate_limits = Some \<lparr>rb_spend_control_reached = None, rb_limit_id = Some ''five_hours'',
       rb_limit_name = None,
       rb_primary = Some \<lparr>rw_used_percent = Some (Number (Float (f64_of_int 42))), rw_window_duration_mins = Some 300,
         rw_resets_at = None\<rparr>,
       rb_secondary = None, rb_credits = None\<rparr>\<rparr>"

definition sample_live_host :: live_host where
  "sample_live_host =
     \<lparr>lh_to_vec = (\<lambda>_. []),
      lh_header = (\<lambda>line. Some \<lparr>rh_jsonrpc = None,
        rh_id = Some (if line = ''1'' then 1 else if line = ''2'' then 2 else 3), rh_method = None\<rparr>),
      lh_empty = (\<lambda>_. Some \<lparr>rr_jsonrpc = None, rr_id = Some 1, rr_result = Some (), rr_error = None\<rparr>),
      lh_account = (\<lambda>_. Some \<lparr>rr_jsonrpc = None, rr_id = Some 2,
        rr_result = Some \<lparr>ar_kind_and_plan = Some (''chatgpt'', None), ar_workspace_account = Some ''a''\<rparr>,
        rr_error = None\<rparr>),
      lh_rate_limits = (\<lambda>_. Some \<lparr>rr_jsonrpc = None, rr_id = Some 3, rr_result = Some sample_limits,
        rr_error = None\<rparr>),
      lh_writes = (\<lambda>_. True), lh_version = ''1''\<rparr>"

definition sample_events :: "(int \<times> received) list" where
  "sample_events = map (\<lambda>(t, l). (t, Received (Line l))) [(1, ''1''), (2, ''2''), (3, ''3'')]"

lemma sample_account_id: "checked_account_id (Some ''a'') = Inr ''a''"
  by (simp add: checked_account_id_def max_account_id_bytes_def) code_simp

lemma sample_buckets:
  "\<exists>bs. parse_limit_buckets sample_limits = Inr bs"
proof -
  have "\<not> has_control ''five_hours''" by code_simp
  then show ?thesis
    by (simp add: parse_limit_buckets_def bucket_source_def sample_limits_def parse_bucket_def
        max_limit_id_bytes_def transposed_def parse_window_def max_duration_minutes_def option_list_def
        f64_eval)
qed

lemma live_reading_sound_witness:
  "\<exists>reading server. read_codex_quota sample_live_host (Inr (new_server sample_events)) 15 7 ''a''
      = Inr (reading, server)
    \<and> lq_account_id reading = ''a'' \<and> list_all live_bucket_valid (lq_limit_buckets reading)"
proof -
  have "\<exists>reading server. read_codex_quota sample_live_host (Inr (new_server sample_events)) 15 7 ''a''
      = Inr (reading, server)"
    using sample_buckets
    by (auto simp: read_codex_quota_def sample_account_id initialize_def read_account_def read_rate_limits_def
        request_def send_message_def new_server_def sample_events_def sample_live_host_def version_mismatch_def
        accept_response_def account_metadata_of_def validate_approved_local_account_def max_server_messages_def
        sample_limits_def)
  then obtain reading server where "read_codex_quota sample_live_host (Inr (new_server sample_events)) 15 7 ''a''
      = Inr (reading, server)" by blast
  with live_reading_sound[OF this] show ?thesis by blast
qed

end
