(* ===== verification/Quota_Consent.thy ===== *)
theory Quota_Consent
  imports Quota_Live Quota_Index
begin

text \<open>
  Consent to live quota readings and their schedule (\<open>src-tauri/src/quota_accounts.rs\<close>): the consent
  file, the state each process keeps of it, and the operations of the service. Several processes share
  the file; an operation that waits for the installed tool is two steps, since the lock is released
  in between. A save compares the file with what the process read before, which may be stale by then.
  Instants and durations are nanoseconds.
\<close>

section \<open>The consent file\<close>

definition poll_interval :: int where "poll_interval = 300 * nanos_per_second"
definition max_backoff :: int where "max_backoff = 3600 * nanos_per_second"
definition candidate_ttl :: int where "candidate_ttl = 300 * nanos_per_second"
definition max_accounts :: nat where "max_accounts = 8"

record account_consent =
  cn_account_id :: string
  cn_label :: string
  cn_consented_at :: timestamp
  cn_enabled :: bool

record consent_file =
  cf_version :: u32
  cf_accounts :: "account_consent list"

datatype consent_error =
    LocationUnavailable | ConsentsUnsupported | ConsentsInvalid | ConsentsUnreadable
  | NotARegularFile | ConsentsTooLarge | ConsentsMalformed
  | ConsentsUnsaved | LockFailed | LockHeld | ConsentChanged
  | RequestRunning | ConsentChangedDuringRequest | ReadingFailed live_quota_error
  | IdentifyAgain | SettingsUnavailable | AccountNotFound

definition no_consents :: consent_file where
  "no_consents = \<lparr>cf_version = 1, cf_accounts = []\<rparr>"

fun validate_accounts :: "string list \<Rightarrow> account_consent list \<Rightarrow> consent_error + unit" where
  "validate_accounts seen [] = Inr ()"
| "validate_accounts seen (a # rest) =
     (if cn_account_id a = [] \<or> 256 < length (cn_account_id a) \<or> has_control (cn_account_id a)
         \<or> trim (cn_label a) = [] \<or> 80 < length (cn_label a) \<or> has_control (cn_label a)
         \<or> cn_account_id a \<in> set seen
      then Inl ConsentsInvalid else validate_accounts (cn_account_id a # seen) rest)"

definition validate_consents :: "consent_file \<Rightarrow> consent_error + unit" where
  "validate_consents f =
     (if cf_version f \<noteq> 1 \<or> max_accounts < length (cf_accounts f)
         \<or> 1 < length (filter cn_enabled (cf_accounts f)) then Inl ConsentsUnsupported
      else validate_accounts [] (cf_accounts f))"

text \<open>What opening and reading the file gives, and how the host prints and parses it.\<close>

datatype consent_read = NoConsentFile | ReadFailed consent_error | ConsentBytes string

record consent_host =
  kh_parse :: "string \<Rightarrow> consent_file option"
  kh_print :: "consent_file \<Rightarrow> string"

definition read_consents :: "consent_host \<Rightarrow> consent_read \<Rightarrow> consent_error + consent_file" where
  "read_consents host r =
     (case r of
        NoConsentFile \<Rightarrow> Inr no_consents
      | ReadFailed e \<Rightarrow> Inl e
      | ConsentBytes text \<Rightarrow>
          let bytes = take 32769 text in
          if 32768 < length bytes then Inl ConsentsTooLarge
          else (case kh_parse host bytes of
              None \<Rightarrow> Inl ConsentsMalformed
            | Some f \<Rightarrow> (case validate_consents f of Inl e \<Rightarrow> Inl e | Inr _ \<Rightarrow> Inr f)))"

text \<open>Saving: the directory, the lock file and the write may fail; under the lock the file is read again.\<close>

record save_io =
  so_directory :: bool
  so_lock :: "consent_error option"
  so_reading :: consent_read
  so_write :: bool

definition save_consents ::
    "consent_host \<Rightarrow> save_io \<Rightarrow> consent_file \<Rightarrow> consent_file \<Rightarrow> consent_error + consent_read" where
  "save_consents host io expected f =
     (case validate_consents f of
        Inl e \<Rightarrow> Inl e
      | Inr _ \<Rightarrow>
          if \<not> so_directory io then Inl ConsentsUnsaved
          else
            (case so_lock io of
               Some e \<Rightarrow> Inl e
             | None \<Rightarrow>
                 (case read_consents host (so_reading io) of
                    Inl e \<Rightarrow> Inl e
                  | Inr current \<Rightarrow>
                      if current \<noteq> expected then Inl ConsentChanged
                      else if \<not> so_write io then Inl ConsentsUnsaved
                      else Inr (ConsentBytes (kh_print host f)))))"

section \<open>The service\<close>

record consent_runtime =
  cr_loaded :: bool
  cr_file :: consent_file
  cr_durable_file :: "consent_file option"
  cr_locally_paused :: bool
  cr_configuration_error :: "consent_error option"
  cr_candidate :: "(discovered_account \<times> int) option"
  cr_generation :: u64
  cr_busy :: bool
  cr_next_poll :: int
  cr_backoff :: int
  cr_reading :: "live_reading option"
  cr_error :: "live_quota_error option"

definition initial_runtime :: "int \<Rightarrow> consent_runtime" where
  "initial_runtime now =
     \<lparr>cr_loaded = False, cr_file = no_consents, cr_durable_file = None, cr_locally_paused = False,
      cr_configuration_error = None, cr_candidate = None, cr_generation = 0, cr_busy = False,
      cr_next_poll = now, cr_backoff = poll_interval, cr_reading = None, cr_error = None\<rparr>"

definition disable_accounts :: "consent_file \<Rightarrow> consent_file" where
  "disable_accounts f = f\<lparr>cf_accounts := map (\<lambda>a. a\<lparr>cn_enabled := False\<rparr>) (cf_accounts f)\<rparr>"

definition invalidate_runtime :: "int \<Rightarrow> consent_runtime \<Rightarrow> consent_runtime" where
  "invalidate_runtime now rt =
     rt\<lparr>cr_generation := cr_generation rt + 1, cr_reading := None, cr_error := None,
        cr_candidate := None, cr_next_poll := now, cr_backoff := poll_interval\<rparr>"

definition enforce_local_pause :: "consent_runtime \<Rightarrow> consent_runtime" where
  "enforce_local_pause rt =
     (if cr_locally_paused rt then rt\<lparr>cr_file := disable_accounts (cr_file rt)\<rparr> else rt)"

definition load_consents ::
    "consent_host \<Rightarrow> int \<Rightarrow> consent_read \<Rightarrow> consent_runtime \<Rightarrow> consent_runtime \<times> bool" where
  "load_consents host now r rt =
     (let (rt, changed) =
        (case read_consents host r of
           Inr f \<Rightarrow>
             let differs = \<not> cr_loaded rt \<or> cr_durable_file rt \<noteq> Some f;
                 changed = (differs \<and> cr_loaded rt) \<or> cr_configuration_error rt \<noteq> None;
                 rt = (if differs
                       then (invalidate_runtime now rt)\<lparr>cr_file := f, cr_durable_file := Some f\<rparr> else rt)
             in (rt\<lparr>cr_configuration_error := None\<rparr>, changed)
         | Inl e \<Rightarrow>
             let differs = \<not> cr_loaded rt \<or> cr_configuration_error rt \<noteq> Some e;
                 rt = (if differs
                       then (invalidate_runtime now rt)\<lparr>cr_file := disable_accounts (cr_file rt)\<rparr> else rt)
             in (rt\<lparr>cr_configuration_error := Some e\<rparr>, differs))
      in ((enforce_local_pause rt)\<lparr>cr_loaded := True\<rparr>, changed))"

definition finish_read ::
    "u64 \<Rightarrow> live_quota_error + live_reading \<Rightarrow> int \<Rightarrow> consent_runtime \<Rightarrow> consent_runtime" where
  "finish_read generation result now rt =
     (let rt = rt\<lparr>cr_busy := False\<rparr> in
      if generation \<noteq> cr_generation rt then rt
      else
        let rt = (case result of
              Inr reading \<Rightarrow> rt\<lparr>cr_reading := Some reading, cr_error := None, cr_backoff := poll_interval\<rparr>
            | Inl e \<Rightarrow> rt\<lparr>cr_reading := None, cr_error := Some e,
                cr_backoff := min (cr_backoff rt * 2) max_backoff\<rparr>)
        in rt\<lparr>cr_next_poll := now + cr_backoff rt\<rparr>)"

text \<open>\<open>identify\<close>, before and after the tool has answered.\<close>

definition identify_start ::
    "consent_host \<Rightarrow> int \<Rightarrow> consent_read \<Rightarrow> consent_runtime \<Rightarrow> consent_runtime \<times> (consent_error + u64)" where
  "identify_start host now r rt =
     (let rt = fst (load_consents host now r rt) in
      case cr_configuration_error rt of
        Some e \<Rightarrow> (rt, Inl e)
      | None \<Rightarrow>
          if cr_busy rt then (rt, Inl RequestRunning)
          else (rt\<lparr>cr_busy := True, cr_candidate := None\<rparr>, Inr (cr_generation rt)))"

definition identify_finish ::
    "consent_host \<Rightarrow> int \<Rightarrow> consent_read \<Rightarrow> u64 \<Rightarrow> live_quota_error + discovered_account \<Rightarrow> consent_runtime
     \<Rightarrow> consent_runtime \<times> (consent_error + discovered_account)" where
  "identify_finish host now r generation result rt =
     (let rt = (fst (load_consents host now r rt))\<lparr>cr_busy := False\<rparr> in
      if cr_generation rt \<noteq> generation then (rt, Inl ConsentChangedDuringRequest)
      else
        (case result of
           Inr account \<Rightarrow> (rt\<lparr>cr_candidate := Some (account, now)\<rparr>, Inr account)
         | Inl e \<Rightarrow> (rt, Inl (ReadingFailed e))))"

definition approved_accounts ::
    "string \<Rightarrow> string \<Rightarrow> timestamp \<Rightarrow> account_consent list \<Rightarrow> account_consent list" where
  "approved_accounts account_id label utc accounts =
     map (\<lambda>a. a\<lparr>cn_enabled := False\<rparr>) (filter (\<lambda>a. cn_account_id a \<noteq> account_id) accounts)
     @ [\<lparr>cn_account_id = account_id, cn_label = trim label, cn_consented_at = utc, cn_enabled = True\<rparr>]"

definition approve_account ::
    "consent_host \<Rightarrow> int \<Rightarrow> timestamp \<Rightarrow> consent_read \<Rightarrow> save_io \<Rightarrow> string \<Rightarrow> string \<Rightarrow> consent_runtime
     \<Rightarrow> consent_runtime \<times> (consent_error + consent_read)" where
  "approve_account host now utc r io account_id label rt =
     (let rt = fst (load_consents host now r rt) in
      case cr_configuration_error rt of
        Some e \<Rightarrow> (rt, Inl e)
      | None \<Rightarrow>
          if \<not> (case cr_candidate rt of
              None \<Rightarrow> False
            | Some (c, at) \<Rightarrow> da_account_id c = account_id \<and> max 0 (now - at) \<le> candidate_ttl)
          then (rt, Inl IdentifyAgain)
          else
            let f = \<lparr>cf_version = 1,
                  cf_accounts = approved_accounts account_id label utc (cf_accounts (cr_file rt))\<rparr>
            in case cr_durable_file rt of
                 None \<Rightarrow> (rt, Inl SettingsUnavailable)
               | Some expected \<Rightarrow>
                   (case save_consents host io expected f of
                      Inl e \<Rightarrow> (rt, Inl e)
                    | Inr disk \<Rightarrow>
                        (invalidate_runtime now
                           (rt\<lparr>cr_durable_file := Some f, cr_file := f, cr_locally_paused := False\<rparr>),
                         Inr disk)))"

definition changed_accounts ::
    "string \<Rightarrow> bool \<Rightarrow> bool \<Rightarrow> account_consent list \<Rightarrow> account_consent list" where
  "changed_accounts account_id enabled revoke accounts =
     (let accounts = map (\<lambda>a.
            if cn_account_id a = account_id then a\<lparr>cn_enabled := enabled \<and> \<not> revoke\<rparr>
            else if enabled then a\<lparr>cn_enabled := False\<rparr> else a) accounts
      in if revoke then filter (\<lambda>a. cn_account_id a \<noteq> account_id) accounts else accounts)"

definition change_account ::
    "consent_host \<Rightarrow> int \<Rightarrow> consent_read \<Rightarrow> save_io \<Rightarrow> string \<Rightarrow> bool \<Rightarrow> bool \<Rightarrow> consent_runtime
     \<Rightarrow> consent_runtime \<times> (consent_error + consent_read)" where
  "change_account host now r io account_id enabled revoke rt =
     (let rt = fst (load_consents host now r rt) in
      case cr_configuration_error rt of
        Some e \<Rightarrow> (rt, Inl e)
      | None \<Rightarrow>
          if \<not> list_ex (\<lambda>a. cn_account_id a = account_id) (cf_accounts (cr_file rt))
          then (rt, Inl AccountNotFound)
          else
            let f = \<lparr>cf_version = 1,
                  cf_accounts = changed_accounts account_id enabled revoke (cf_accounts (cr_file rt))\<rparr>;
                rt = (invalidate_runtime now rt)\<lparr>cr_file := disable_accounts (cr_file rt)\<rparr>
            in case cr_durable_file rt of
                 None \<Rightarrow> (rt, Inl SettingsUnavailable)
               | Some expected \<Rightarrow>
                   (case save_consents host io expected f of
                      Inl e \<Rightarrow> (rt\<lparr>cr_locally_paused := True\<rparr>, Inl e)
                    | Inr disk \<Rightarrow>
                        (enforce_local_pause (rt\<lparr>cr_durable_file := Some f, cr_file := f,
                           cr_locally_paused := (if enabled \<and> \<not> revoke then False else cr_locally_paused rt)\<rparr>),
                         Inr disk)))"

text \<open>\<open>poll\<close>, before and after the tool has answered: whether the front end is told, and the account
  the tool is asked about.\<close>

definition poll_start ::
    "consent_host \<Rightarrow> int \<Rightarrow> consent_read \<Rightarrow> consent_runtime
     \<Rightarrow> consent_runtime \<times> bool \<times> (u64 \<times> string) option" where
  "poll_start host now r rt =
     (let (rt, changed) = load_consents host now r rt in
      if cr_configuration_error rt \<noteq> None \<or> cr_busy rt \<or> now < cr_next_poll rt then (rt, changed, None)
      else
        (case List.find cn_enabled (cf_accounts (cr_file rt)) of
           None \<Rightarrow> (rt, changed, None)
         | Some a \<Rightarrow> (rt\<lparr>cr_busy := True\<rparr>, changed, Some (cr_generation rt, cn_account_id a))))"

definition poll_finish ::
    "consent_host \<Rightarrow> int \<Rightarrow> consent_read \<Rightarrow> u64 \<Rightarrow> live_quota_error + live_reading \<Rightarrow> consent_runtime
     \<Rightarrow> consent_runtime" where
  "poll_finish host now r generation result rt =
     finish_read generation result now (fst (load_consents host now r rt))"

section \<open>Status\<close>

record live_bucket_view =
  bv_limit_id :: string
  bv_limit_name :: "string option"
  bv_spend_control_reached :: "bool option"
  bv_snapshot :: quota_snapshot

record live_account_view =
  av_provider :: string
  av_consent :: account_consent
  av_observed_at :: "timestamp option"
  av_ordinary_usage_allowed :: "bool option"
  av_buckets :: "live_bucket_view list"
  av_unavailable :: "string option"

record live_status =
  ls_accounts :: "live_account_view list"
  ls_busy :: bool
  ls_configuration_error :: "consent_error option"

definition own_reading :: "consent_runtime \<Rightarrow> account_consent \<Rightarrow> live_reading option" where
  "own_reading rt consent =
     (case cr_reading rt of
        None \<Rightarrow> None
      | Some r \<Rightarrow> if cn_enabled consent \<and> lq_account_id r = cn_account_id consent then Some r else None)"

definition bucket_view ::
    "chrono_host \<Rightarrow> timestamp \<Rightarrow> timestamp \<Rightarrow> live_quota_bucket \<Rightarrow> quota_panic + live_bucket_view" where
  "bucket_view chrono observed_at now b =
     (case live_bucket_snapshot chrono b observed_at now of
        Inl p \<Rightarrow> Inl p
      | Inr s \<Rightarrow> Inr \<lparr>bv_limit_id = lb_limit_id b, bv_limit_name = lb_limit_name b,
          bv_spend_control_reached = lb_spend_control_reached b, bv_snapshot = s\<rparr>)"

definition view_unavailable ::
    "consent_runtime \<Rightarrow> account_consent \<Rightarrow> live_reading option \<Rightarrow> timestamp \<Rightarrow> string option" where
  "view_unavailable rt consent reading now =
     (if \<not> cn_enabled consent then Some ''disabled''
      else
        (case cr_error rt of
           Some e \<Rightarrow> Some (live_error_code e)
         | None \<Rightarrow>
             (case reading of
                None \<Rightarrow> Some ''no_observation''
              | Some r \<Rightarrow>
                  if lq_limit_buckets r = [] then Some ''no_observation''
                  else if now < lq_observed_at r then Some ''clock_skew''
                  else if ten_minutes < now - lq_observed_at r then Some ''stale_observation''
                  else None)))"

definition account_view ::
    "chrono_host \<Rightarrow> consent_runtime \<Rightarrow> timestamp \<Rightarrow> account_consent \<Rightarrow> quota_panic + live_account_view" where
  "account_view chrono rt now consent =
     (let reading = own_reading rt consent; unavailable = view_unavailable rt consent reading now
      in case collect_results (case reading of
             None \<Rightarrow> []
           | Some r \<Rightarrow> map (bucket_view chrono (lq_observed_at r) now) (lq_limit_buckets r)) of
           Inl p \<Rightarrow> Inl p
         | Inr buckets \<Rightarrow> Inr
             \<lparr>av_provider = ''codex'', av_consent = consent,
              av_observed_at = map_option lq_observed_at reading,
              av_ordinary_usage_allowed =
                (if unavailable = None then Option.bind reading lq_ordinary_usage_allowed else None),
              av_buckets = buckets, av_unavailable = unavailable\<rparr>)"

definition live_status_of ::
    "consent_host \<Rightarrow> chrono_host \<Rightarrow> int \<Rightarrow> consent_read \<Rightarrow> timestamp \<Rightarrow> consent_runtime
     \<Rightarrow> consent_runtime \<times> (quota_panic + live_status)" where
  "live_status_of host chrono instant r now rt =
     (let rt = fst (load_consents host instant r rt) in
      (rt,
       case collect_results (map (account_view chrono rt now) (cf_accounts (cr_file rt))) of
         Inl p \<Rightarrow> Inl p
       | Inr views \<Rightarrow> Inr \<lparr>ls_accounts = views, ls_busy = cr_busy rt,
           ls_configuration_error = cr_configuration_error rt\<rparr>))"

section \<open>Processes\<close>

text \<open>The processes that share the file, each with its state and the request it waits for. A read of the
  file shows it or fails. Before it saves, a process may have read the file at any earlier time; under
  the lock it reads what is there.\<close>

datatype pending_request = Identifying u64 | Polling u64 string

record consent_world =
  cw_disk :: consent_read
  cw_runtimes :: "nat \<Rightarrow> consent_runtime"
  cw_pending :: "nat \<Rightarrow> pending_request option"

definition sees :: "consent_world \<Rightarrow> consent_read \<Rightarrow> bool" where
  "sees w r \<longleftrightarrow> r = cw_disk w \<or> (\<exists>e. r = ReadFailed e)"

definition with_runtime :: "nat \<Rightarrow> consent_runtime \<Rightarrow> consent_world \<Rightarrow> consent_world" where
  "with_runtime p rt w = w\<lparr>cw_runtimes := (cw_runtimes w)(p := rt)\<rparr>"

definition with_saved :: "consent_error + consent_read \<Rightarrow> consent_world \<Rightarrow> consent_world" where
  "with_saved result w = (case result of Inl _ \<Rightarrow> w | Inr disk \<Rightarrow> w\<lparr>cw_disk := disk\<rparr>)"

definition with_pending :: "nat \<Rightarrow> pending_request option \<Rightarrow> consent_world \<Rightarrow> consent_world" where
  "with_pending p q w = w\<lparr>cw_pending := (cw_pending w)(p := q)\<rparr>"

datatype consent_event =
    StatusShown nat "quota_panic + live_status"
  | IdentifyStarted nat | IdentifyFinished nat
  | Approved nat string | ApprovalFailed nat | ConsentEdited nat string bool bool | ChangeFailed nat string bool bool
  | PollStarted nat string | PollSkipped nat | PollFinished nat
  | Restarted nat

inductive consent_step ::
    "consent_host \<Rightarrow> chrono_host \<Rightarrow> consent_world \<Rightarrow> consent_event \<Rightarrow> consent_world \<Rightarrow> bool"
    for host chrono where
  show_status: "sees w r \<Longrightarrow> live_status_of host chrono instant r now (cw_runtimes w p) = (rt, status)
     \<Longrightarrow> consent_step host chrono w (StatusShown p status) (with_runtime p rt w)"
| start_identify: "sees w r \<Longrightarrow> identify_start host now r (cw_runtimes w p) = (rt, result)
     \<Longrightarrow> consent_step host chrono w (IdentifyStarted p) (with_runtime p rt
           (case result of Inl _ \<Rightarrow> w | Inr g \<Rightarrow> with_pending p (Some (Identifying g)) w))"
| finish_identify: "sees w r \<Longrightarrow> cw_pending w p = Some (Identifying g)
     \<Longrightarrow> identify_finish host now r g result (cw_runtimes w p) = (rt, answer)
     \<Longrightarrow> consent_step host chrono w (IdentifyFinished p) (with_runtime p rt (with_pending p None w))"
| approve: "sees w (so_reading io)
     \<Longrightarrow> approve_account host now utc r io account label (cw_runtimes w p) = (rt, Inr disk)
     \<Longrightarrow> consent_step host chrono w (Approved p account) (with_runtime p rt (w\<lparr>cw_disk := disk\<rparr>))"
| approve_fails: "sees w (so_reading io)
     \<Longrightarrow> approve_account host now utc r io account label (cw_runtimes w p) = (rt, Inl e)
     \<Longrightarrow> consent_step host chrono w (ApprovalFailed p) (with_runtime p rt w)"
| change: "sees w (so_reading io)
     \<Longrightarrow> change_account host now r io account enabled revoke (cw_runtimes w p) = (rt, Inr disk)
     \<Longrightarrow> consent_step host chrono w (ConsentEdited p account enabled revoke)
           (with_runtime p rt (w\<lparr>cw_disk := disk\<rparr>))"
| change_fails: "sees w (so_reading io)
     \<Longrightarrow> change_account host now r io account enabled revoke (cw_runtimes w p) = (rt, Inl e)
     \<Longrightarrow> consent_step host chrono w (ChangeFailed p account enabled revoke) (with_runtime p rt w)"
| start_poll: "sees w r \<Longrightarrow> poll_start host now r (cw_runtimes w p) = (rt, told, Some (g, account))
     \<Longrightarrow> consent_step host chrono w (PollStarted p account)
           (with_runtime p rt (with_pending p (Some (Polling g account)) w))"
| skip_poll: "sees w r \<Longrightarrow> poll_start host now r (cw_runtimes w p) = (rt, told, None)
     \<Longrightarrow> consent_step host chrono w (PollSkipped p) (with_runtime p rt w)"
| finish_poll: "sees w r \<Longrightarrow> cw_pending w p = Some (Polling g account)
     \<Longrightarrow> (\<And>reading. result = Inr reading \<Longrightarrow> lq_account_id reading = account)
     \<Longrightarrow> poll_finish host now r g result (cw_runtimes w p) = rt
     \<Longrightarrow> consent_step host chrono w (PollFinished p) (with_runtime p rt (with_pending p None w))"
| restart: "consent_step host chrono w (Restarted p)
     (with_runtime p (initial_runtime now) (with_pending p None w))"

inductive consent_run ::
    "consent_host \<Rightarrow> chrono_host \<Rightarrow> consent_world \<Rightarrow> consent_event list \<Rightarrow> consent_world \<Rightarrow> bool"
    for host chrono where
  no_event: "consent_run host chrono w [] w"
| next_event: "consent_run host chrono w es w' \<Longrightarrow> consent_step host chrono w' e w''
     \<Longrightarrow> consent_run host chrono w (es @ [e]) w''"

inductive_cases consent_stepE: "consent_step host chrono w e w'"

end
