(* ===== verification/Quota_Consent_Facts.thy ===== *)
theory Quota_Consent_Facts
  imports Quota_Consent Quota_Facts
begin

text \<open>
  Consent is obeyed: whatever processes share the file and however their operations interleave, the
  tool is asked only about an account that the file enables at that moment, nothing else is shown, a
  revoked account stays revoked until it is approved again, and a failed revocation stops the process
  in which it was asked for.
\<close>

section \<open>The state of one process\<close>

text \<open>The accounts of the runtime are those of the file it knows, perhaps all disabled.\<close>

definition runtime_ok :: "consent_runtime \<Rightarrow> bool" where
  "runtime_ok rt \<longleftrightarrow>
     (case cr_durable_file rt of
        None \<Rightarrow> filter cn_enabled (cf_accounts (cr_file rt)) = []
      | Some d \<Rightarrow> cr_file rt = d \<or> cr_file rt = disable_accounts d)
     \<and> (cr_locally_paused rt \<longrightarrow> filter cn_enabled (cf_accounts (cr_file rt)) = [])
     \<and> (cr_configuration_error rt \<noteq> None \<longrightarrow> filter cn_enabled (cf_accounts (cr_file rt)) = [])
     \<and> poll_interval \<le> cr_backoff rt \<and> cr_backoff rt \<le> max_backoff"

lemma disabled_none [simp]: "filter cn_enabled (cf_accounts (disable_accounts f)) = []"
  by (auto simp: disable_accounts_def filter_empty_conv)

lemma disable_twice [simp]: "disable_accounts (disable_accounts f) = disable_accounts f"
  by (simp add: disable_accounts_def)

lemma backoff_limits: "poll_interval \<le> max_backoff" "0 < poll_interval"
  by (simp_all add: poll_interval_def max_backoff_def nanos_per_second_def)

lemma invalidate_fields [simp]:
  "cr_loaded (invalidate_runtime now rt) = cr_loaded rt" "cr_file (invalidate_runtime now rt) = cr_file rt"
  "cr_durable_file (invalidate_runtime now rt) = cr_durable_file rt"
  "cr_locally_paused (invalidate_runtime now rt) = cr_locally_paused rt"
  "cr_configuration_error (invalidate_runtime now rt) = cr_configuration_error rt"
  "cr_reading (invalidate_runtime now rt) = None" "cr_backoff (invalidate_runtime now rt) = poll_interval"
  "cr_busy (invalidate_runtime now rt) = cr_busy rt" "cr_candidate (invalidate_runtime now rt) = None"
  by (simp_all add: invalidate_runtime_def)

lemma load_ok:
  assumes "runtime_ok rt"
  shows "runtime_ok (fst (load_consents host now r rt))"
  using assms backoff_limits
  by (auto simp: load_consents_def runtime_ok_def enforce_local_pause_def Let_def
      split: sum.splits option.splits)

text \<open>After a read that succeeds the process knows the file.\<close>

lemma load_read:
  assumes "read_consents host r = Inr f"
  shows "cr_durable_file (fst (load_consents host now r rt)) = Some f"
    and "cr_configuration_error (fst (load_consents host now r rt)) = None"
    and "cr_loaded (fst (load_consents host now r rt))"
  using assms by (auto simp: load_consents_def enforce_local_pause_def Let_def)

lemma load_failed:
  assumes "read_consents host r = Inl e"
  shows "cr_configuration_error (fst (load_consents host now r rt)) = Some e"
  using assms by (auto simp: load_consents_def enforce_local_pause_def Let_def)

lemma load_paused: "cr_locally_paused (fst (load_consents host now r rt)) = cr_locally_paused rt"
  by (auto simp: load_consents_def enforce_local_pause_def Let_def split: sum.splits)

lemma enabled_after_load:
  assumes "runtime_ok rt" "a \<in> set (cf_accounts (cr_file (fst (load_consents host now r rt))))" "cn_enabled a"
  shows "\<exists>f. read_consents host r = Inr f \<and> a \<in> set (cf_accounts f)"
    and "\<not> cr_locally_paused rt"
proof -
  let ?rt = "fst (load_consents host now r rt)"
  have ok: "runtime_ok ?rt" by (rule load_ok[OF assms(1)])
  have some: "filter cn_enabled (cf_accounts (cr_file ?rt)) \<noteq> []"
    using assms(2,3) by (auto simp: filter_empty_conv)
  with ok have "\<not> cr_locally_paused ?rt" "cr_configuration_error ?rt = None"
    by (auto simp: runtime_ok_def)
  then show "\<not> cr_locally_paused rt" by (simp add: load_paused)
  obtain f where f: "read_consents host r = Inr f"
  proof (cases "read_consents host r")
    case (Inl e)
    with load_failed[OF Inl, of now rt] \<open>cr_configuration_error ?rt = None\<close> show ?thesis by simp
  qed (use that in blast)
  have "cr_file ?rt = f \<or> cr_file ?rt = disable_accounts f"
    using ok load_read(1)[OF f, of now rt] by (simp add: runtime_ok_def)
  with some assms(2) f show "\<exists>f. read_consents host r = Inr f \<and> a \<in> set (cf_accounts f)" by auto
qed

lemma poll_enabled:
  assumes "runtime_ok rt" "poll_start host now r rt = (rt', told, Some (g, account))"
  shows "\<exists>f c. read_consents host r = Inr f \<and> c \<in> set (cf_accounts f) \<and> cn_account_id c = account \<and> cn_enabled c"
    and "\<not> cr_locally_paused rt"
proof -
  let ?rt = "fst (load_consents host now r rt)"
  obtain c where c: "List.find cn_enabled (cf_accounts (cr_file ?rt)) = Some c" "cn_account_id c = account"
    using assms(2) by (auto simp: poll_start_def Let_def case_prod_unfold split: if_splits option.splits)
  then have "c \<in> set (cf_accounts (cr_file ?rt))" "cn_enabled c"
    by (auto simp: find_Some_iff)
  with enabled_after_load[OF assms(1) this] c(2)
  show "\<exists>f c. read_consents host r = Inr f \<and> c \<in> set (cf_accounts f) \<and> cn_account_id c = account \<and> cn_enabled c"
    and "\<not> cr_locally_paused rt" by blast+
qed

lemma collect_results_all:
  "collect_results rs = Inr xs \<Longrightarrow> rs = map Inr xs"
  by (induction rs arbitrary: xs rule: collect_results.induct) (auto split: sum.splits)

definition shows_reading :: "live_account_view \<Rightarrow> bool" where
  "shows_reading v \<longleftrightarrow> av_observed_at v \<noteq> None \<or> av_ordinary_usage_allowed v \<noteq> None \<or> av_buckets v \<noteq> []"

lemma view_reading:
  assumes "account_view chrono rt now c = Inr v" "shows_reading v"
  shows "av_consent v = c \<and> cn_enabled c \<and> (\<exists>r. cr_reading rt = Some r \<and> lq_account_id r = cn_account_id c)"
  using assms
  by (auto simp: account_view_def own_reading_def shows_reading_def Let_def
      split: sum.splits option.splits if_splits)

lemma status_reading_enabled:
  assumes "live_status_of host chrono instant r now rt = (rt', Inr st)"
    and "v \<in> set (ls_accounts st)" "shows_reading v"
  shows "\<exists>c\<in>set (cf_accounts (cr_file (fst (load_consents host instant r rt)))). av_consent v = c \<and> cn_enabled c"
proof -
  let ?rt = "fst (load_consents host instant r rt)"
  have "map (account_view chrono ?rt now) (cf_accounts (cr_file ?rt)) = map Inr (ls_accounts st)"
    using assms(1) collect_results_all by (fastforce simp: live_status_of_def Let_def split: sum.splits)
  then obtain c where c: "c \<in> set (cf_accounts (cr_file ?rt))" "account_view chrono ?rt now c = Inr v"
    using assms(2) by (metis (no_types, lifting) image_iff list.set_map)
  with view_reading[OF c(2) assms(3)] show ?thesis by auto
qed

lemma status_enabled:
  assumes "runtime_ok rt" "live_status_of host chrono instant r now rt = (rt', Inr st)"
    and "v \<in> set (ls_accounts st)" "shows_reading v"
  shows "\<exists>f. read_consents host r = Inr f \<and> av_consent v \<in> set (cf_accounts f) \<and> cn_enabled (av_consent v)"
  using status_reading_enabled[OF assms(2-4)] enabled_after_load(1)[OF assms(1)] by blast

lemma finish_ok: "runtime_ok rt \<Longrightarrow> runtime_ok (finish_read g result now rt)"
  using backoff_limits
  by (auto simp: finish_read_def runtime_ok_def Let_def split: sum.splits option.splits)

lemma approve_ok:
  assumes "runtime_ok rt"
  shows "runtime_ok (fst (approve_account host now utc r io account label rt))"
  using load_ok[OF assms, of host now r] backoff_limits
  by (auto simp: approve_account_def runtime_ok_def Let_def split: option.splits sum.splits)

lemma enforce_ok:
  assumes "cr_durable_file rt = Some (cr_file rt)" "cr_configuration_error rt = None"
    and "poll_interval \<le> cr_backoff rt" "cr_backoff rt \<le> max_backoff"
  shows "runtime_ok (enforce_local_pause rt)"
  using assms by (simp add: runtime_ok_def enforce_local_pause_def)

lemma paused_ok:
  assumes "runtime_ok rt"
  shows "runtime_ok ((invalidate_runtime now rt)\<lparr>cr_file := disable_accounts (cr_file rt)\<rparr>)"
    and "runtime_ok ((invalidate_runtime now rt)\<lparr>cr_file := disable_accounts (cr_file rt), cr_locally_paused := True\<rparr>)"
  using assms backoff_limits by (auto simp: runtime_ok_def split: option.splits)

lemma change_ok:
  assumes "runtime_ok rt"
  shows "runtime_ok (fst (change_account host now r io account enabled revoke rt))"
proof -
  define rt0 where "rt0 = fst (load_consents host now r rt)"
  define rt1 where "rt1 = (invalidate_runtime now rt0)\<lparr>cr_file := disable_accounts (cr_file rt0)\<rparr>"
  have ok: "runtime_ok rt0" unfolding rt0_def by (rule load_ok[OF assms])
  have rt1: "runtime_ok rt1" "runtime_ok (rt1\<lparr>cr_locally_paused := True\<rparr>)"
    unfolding rt1_def by (rule paused_ok[OF ok])+
  have facts: "cr_backoff rt1 = poll_interval" "cr_configuration_error rt1 = cr_configuration_error rt0"
    by (simp_all add: rt1_def)
  show ?thesis
    unfolding change_account_def rt0_def[symmetric] Let_def rt1_def[symmetric]
    using ok rt1 facts backoff_limits
    by (auto intro!: enforce_ok split: option.split sum.split)
qed

section \<open>All processes\<close>

definition world_ok :: "consent_world \<Rightarrow> bool" where
  "world_ok w \<longleftrightarrow> (\<forall>p. runtime_ok (cw_runtimes w p))"

lemma initial_ok: "runtime_ok (initial_runtime now)"
  using backoff_limits by (simp add: runtime_ok_def initial_runtime_def no_consents_def)

lemma world_simps [simp]:
  "cw_runtimes (with_runtime p rt w) = (cw_runtimes w)(p := rt)" "cw_disk (with_runtime p rt w) = cw_disk w"
  "cw_runtimes (with_pending p q w) = cw_runtimes w" "cw_disk (with_pending p q w) = cw_disk w"
  by (simp_all add: with_runtime_def with_pending_def)

lemma poll_ok: "runtime_ok rt \<Longrightarrow> runtime_ok (fst (poll_start host now r rt))"
  using load_ok[of rt host now r]
  by (auto simp: poll_start_def runtime_ok_def Let_def case_prod_unfold split: option.splits)

lemma identify_start_ok: "runtime_ok rt \<Longrightarrow> runtime_ok (fst (identify_start host now r rt))"
  using load_ok[of rt host now r]
  by (auto simp: identify_start_def runtime_ok_def Let_def split: option.splits)

lemma identify_finish_ok: "runtime_ok rt \<Longrightarrow> runtime_ok (fst (identify_finish host now r g result rt))"
  using load_ok[of rt host now r]
  by (auto simp: identify_finish_def runtime_ok_def Let_def split: option.splits sum.splits)

lemma step_ok:
  assumes "consent_step host chrono w e w'" "world_ok w"
  shows "world_ok w'"
proof -
  have ok: "runtime_ok (cw_runtimes w p)" for p using assms(2) by (simp add: world_ok_def)
  have keep: "world_ok v" if "cw_runtimes v = (cw_runtimes w)(p := rt)" "runtime_ok rt" for v p rt
    using that ok by (simp add: world_ok_def)
  from assms(1) show ?thesis
  proof cases
    case (show_status r instant now p rt status)
    then have "rt = fst (load_consents host instant r (cw_runtimes w p))" by (simp add: live_status_of_def Let_def)
    with show_status show ?thesis by (auto intro!: keep load_ok[OF ok])
  next
    case (start_identify r now p rt result)
    with identify_start_ok[OF ok, of host now r p] show ?thesis
      by (auto intro!: keep[of _ p rt] split: sum.split)
  next
    case (finish_identify r p g now result rt answer)
    with identify_finish_ok[OF ok, of host now r g result p] show ?thesis by (auto intro!: keep[of _ p rt])
  next
    case (approve io now utc r account label p rt disk)
    with approve_ok[OF ok, of host now utc r io account label p] show ?thesis by (auto intro!: keep[of _ p rt])
  next
    case (approve_fails io now utc r account label p rt err)
    with approve_ok[OF ok, of host now utc r io account label p] show ?thesis by (auto intro!: keep[of _ p rt])
  next
    case (change io now r account enabled revoke p rt disk)
    with change_ok[OF ok, of host now r io account enabled revoke p] show ?thesis by (auto intro!: keep[of _ p rt])
  next
    case (change_fails io now r account enabled revoke p rt err)
    with change_ok[OF ok, of host now r io account enabled revoke p] show ?thesis by (auto intro!: keep[of _ p rt])
  next
    case (start_poll r now p rt told g account)
    with poll_ok[OF ok, of host now r p] show ?thesis by (auto intro!: keep[of _ p rt])
  next
    case (skip_poll r now p rt told)
    with poll_ok[OF ok, of host now r p] show ?thesis by (auto intro!: keep[of _ p rt])
  next
    case (finish_poll r p g account result now rt)
    then have "runtime_ok rt" using finish_ok[OF load_ok[OF ok]] by (auto simp: poll_finish_def)
    with finish_poll show ?thesis by (auto intro!: keep[of _ p rt])
  next
    case (restart p now)
    then show ?thesis by (auto intro!: keep[of _ p] initial_ok)
  qed
qed

lemma run_ok: "consent_run host chrono w es w' \<Longrightarrow> world_ok w \<Longrightarrow> world_ok w'"
  by (induction rule: consent_run.induct) (auto intro: step_ok)

definition fresh_world :: "consent_world \<Rightarrow> bool" where
  "fresh_world w \<longleftrightarrow> (\<forall>p. \<exists>now. cw_runtimes w p = initial_runtime now)"

lemma fresh_ok: "fresh_world w \<Longrightarrow> world_ok w"
  unfolding fresh_world_def world_ok_def by (metis initial_ok)

definition enabled_on_disk :: "consent_host \<Rightarrow> consent_world \<Rightarrow> string \<Rightarrow> bool" where
  "enabled_on_disk host w account \<longleftrightarrow>
     (\<exists>f c. read_consents host (cw_disk w) = Inr f \<and> c \<in> set (cf_accounts f) \<and> cn_account_id c = account
        \<and> cn_enabled c)"

lemma sees_read: "sees w r \<Longrightarrow> read_consents host r = Inr f \<Longrightarrow> read_consents host (cw_disk w) = Inr f"
  by (auto simp: sees_def read_consents_def)

lemma event_enabled:
  assumes "consent_step host chrono w e w'" "world_ok w"
  shows "e = PollStarted p account \<Longrightarrow> enabled_on_disk host w account"
    and "e = StatusShown p (Inr st) \<Longrightarrow> v \<in> set (ls_accounts st) \<Longrightarrow> shows_reading v
      \<Longrightarrow> enabled_on_disk host w (cn_account_id (av_consent v))"
proof -
  have ok: "runtime_ok (cw_runtimes w p)" for p using assms(2) by (simp add: world_ok_def)
  show "enabled_on_disk host w account" if "e = PollStarted p account"
    using assms(1) unfolding that
    by (cases rule: consent_step.cases) (use poll_enabled(1)[OF ok] sees_read in \<open>fastforce simp: enabled_on_disk_def\<close>)
  show "enabled_on_disk host w (cn_account_id (av_consent v))"
    if "e = StatusShown p (Inr st)" "v \<in> set (ls_accounts st)" "shows_reading v"
    using assms(1) unfolding that(1)
    by (cases rule: consent_step.cases)
      (use status_enabled[OF ok _ that(2,3)] sees_read in \<open>fastforce simp: enabled_on_disk_def\<close>)
qed

text \<open>C29: Whatever processes share the consent file and however their operations interleave, restarts
  and failing reads included: the installed tool is asked about an account only if the file, when the
  request starts, holds an enabled consent for it; and when the status is shown, a reading appears only
  beside an account that the file enables at that moment.\<close>

theorem consent_enforced:
  assumes "fresh_world w0" "consent_run host chrono w0 es w" "consent_step host chrono w e w'"
  shows "(\<forall>p account. e = PollStarted p account \<longrightarrow> enabled_on_disk host w account)
    \<and> (\<forall>p st v. e = StatusShown p (Inr st) \<and> v \<in> set (ls_accounts st) \<and> shows_reading v
        \<longrightarrow> enabled_on_disk host w (cn_account_id (av_consent v)))"
  using event_enabled[OF assms(3) run_ok[OF assms(2) fresh_ok[OF assms(1)]]] by blast

section \<open>Revocation\<close>

text \<open>What the host prints it parses back.\<close>

definition prints_back :: "consent_host \<Rightarrow> bool" where
  "prints_back host \<longleftrightarrow> (\<forall>f. kh_parse host (kh_print host f) = Some f)"

definition account_ids :: "consent_file \<Rightarrow> string set" where
  "account_ids f = cn_account_id ` set (cf_accounts f)"

definition absent :: "consent_host \<Rightarrow> consent_world \<Rightarrow> string \<Rightarrow> bool" where
  "absent host w account \<longleftrightarrow> (\<forall>f. read_consents host (cw_disk w) = Inr f \<longrightarrow> account \<notin> account_ids f)"

lemma disable_ids [simp]: "account_ids (disable_accounts f) = account_ids f"
  by (simp add: account_ids_def disable_accounts_def image_image)

lemma printed_read:
  assumes "prints_back host" "read_consents host (ConsentBytes (kh_print host f)) = Inr f'"
  shows "f' = f"
  using assms by (auto simp: read_consents_def prints_back_def Let_def split: if_splits option.splits sum.splits)

lemma saved_over:
  assumes "save_consents host io expected f = Inr disk"
  shows "disk = ConsentBytes (kh_print host f) \<and> read_consents host (so_reading io) = Inr expected"
  using assms by (auto simp: save_consents_def split: sum.splits if_splits option.splits)

lemma runtime_ids:
  assumes "runtime_ok rt" "cr_durable_file rt = Some d"
  shows "account_ids (cr_file rt) = account_ids d"
  using assms by (auto simp: runtime_ok_def)

lemma approve_disk:
  assumes "runtime_ok rt" "approve_account host now utc r io account label rt = (rt', Inr disk)"
  shows "\<exists>d f. read_consents host (so_reading io) = Inr d \<and> disk = ConsentBytes (kh_print host f)
    \<and> account_ids f \<subseteq> insert account (account_ids d)"
proof -
  define rt0 where "rt0 = fst (load_consents host now r rt)"
  obtain d where d: "cr_durable_file rt0 = Some d"
      "save_consents host io d \<lparr>cf_version = 1,
         cf_accounts = approved_accounts account label utc (cf_accounts (cr_file rt0))\<rparr> = Inr disk"
    using assms(2) unfolding approve_account_def rt0_def[symmetric] Let_def
    by (auto split: option.splits if_splits sum.splits)
  have "account_ids (cr_file rt0) = account_ids d"
    using runtime_ids[OF load_ok[OF assms(1)] d(1)[unfolded rt0_def]] by (simp add: rt0_def)
  then have "account_ids \<lparr>cf_version = 1,
      cf_accounts = approved_accounts account label utc (cf_accounts (cr_file rt0))\<rparr> \<subseteq> insert account (account_ids d)"
    by (auto simp: account_ids_def approved_accounts_def)
  with saved_over[OF d(2)] show ?thesis by blast
qed

lemma change_disk:
  assumes "runtime_ok rt" "change_account host now r io account enabled revoke rt = (rt', Inr disk)"
  shows "\<exists>d f. read_consents host (so_reading io) = Inr d \<and> disk = ConsentBytes (kh_print host f)
    \<and> account_ids f \<subseteq> account_ids d - (if revoke then {account} else {})"
proof -
  define rt0 where "rt0 = fst (load_consents host now r rt)"
  obtain d where d: "cr_durable_file rt0 = Some d"
      "save_consents host io d \<lparr>cf_version = 1,
         cf_accounts = changed_accounts account enabled revoke (cf_accounts (cr_file rt0))\<rparr> = Inr disk"
    using assms(2) unfolding change_account_def rt0_def[symmetric] Let_def
    by (auto split: option.splits if_splits sum.splits)
  have "account_ids (cr_file rt0) = account_ids d"
    using runtime_ids[OF load_ok[OF assms(1)] d(1)[unfolded rt0_def]] by (simp add: rt0_def)
  then have "account_ids \<lparr>cf_version = 1,
      cf_accounts = changed_accounts account enabled revoke (cf_accounts (cr_file rt0))\<rparr>
        \<subseteq> account_ids d - (if revoke then {account} else {})"
    by (auto simp: account_ids_def changed_accounts_def Let_def)
  with saved_over[OF d(2)] show ?thesis by blast
qed

lemma sees_same: "sees w r \<Longrightarrow> read_consents host r = Inr f \<Longrightarrow> r = cw_disk w"
  by (auto simp: sees_def read_consents_def)

lemma absent_step:
  assumes "consent_step host chrono w e w'" "world_ok w" "prints_back host" "absent host w account"
    and "\<forall>q. e \<noteq> Approved q account"
  shows "absent host w' account"
proof -
  have ok: "runtime_ok (cw_runtimes w p)" for p using assms(2) by (simp add: world_ok_def)
  have same: "absent host v account" if "cw_disk v = cw_disk w" for v
    using assms(4) that by (simp add: absent_def)
  have saved: "absent host v account"
    if "cw_disk v = ConsentBytes (kh_print host f)" "account \<notin> account_ids f" for v f
    using printed_read[OF assms(3)] that by (auto simp: absent_def)
  from assms(1) show ?thesis
  proof cases
    case (approve io now utc r other label p rt disk)
    from approve_disk[OF ok approve(4)] obtain d f where f: "read_consents host (so_reading io) = Inr d"
        "disk = ConsentBytes (kh_print host f)" "account_ids f \<subseteq> insert other (account_ids d)" by blast
    have "account \<notin> account_ids d"
      using assms(4) sees_read[OF approve(3) f(1)] by (simp add: absent_def)
    moreover have "other \<noteq> account" using assms(5) approve(1) by blast
    ultimately have "account \<notin> account_ids f" using f(3) by blast
    with saved f(2) approve(2) show ?thesis by simp
  next
    case (change io now r other enabled revoke p rt disk)
    from change_disk[OF ok change(4)] obtain d f where f: "read_consents host (so_reading io) = Inr d"
        "disk = ConsentBytes (kh_print host f)" "account_ids f \<subseteq> account_ids d - (if revoke then {other} else {})"
      by blast
    have "account \<notin> account_ids d"
      using assms(4) sees_read[OF change(3) f(1)] by (simp add: absent_def)
    with f(3) have "account \<notin> account_ids f" by blast
    with saved f(2) change(2) show ?thesis by simp
  next
    case (start_identify r now p rt result)
    then show ?thesis by (intro same) (auto split: sum.split)
  qed (auto intro: same)
qed

lemma absent_run:
  assumes "consent_run host chrono w es w'" "world_ok w" "prints_back host" "absent host w account"
    and "\<forall>q. Approved q account \<notin> set es"
  shows "absent host w' account"
  using assms
proof (induction rule: consent_run.induct)
  case (next_event w es w' e w'')
  then show ?case using absent_step[OF next_event(2) run_ok[OF next_event(1,4)]] by auto
qed

text \<open>C30: A revocation is final. Once one process has revoked an account, no process that shares the file
  asks the tool about it or shows a reading of it until some process approves the account again, whatever
  they had read or approved before: a stale save cannot bring the consent back. The one
  assumption is that the file parses to what was printed.\<close>

theorem revocation_is_final:
  assumes "fresh_world w0" "consent_run host chrono w0 before w"
    and "consent_step host chrono w (ConsentEdited p account enabled True) w1"
    and "consent_run host chrono w1 es w2" "\<forall>q. Approved q account \<notin> set es"
    and "prints_back host" "consent_step host chrono w2 e w3"
  shows "(\<forall>q. e \<noteq> PollStarted q account)
    \<and> (\<forall>q st v. e = StatusShown q (Inr st) \<and> v \<in> set (ls_accounts st) \<and> shows_reading v
        \<longrightarrow> cn_account_id (av_consent v) \<noteq> account)"
proof -
  have ok: "world_ok w" by (rule run_ok[OF assms(2) fresh_ok[OF assms(1)]])
  have ok1: "world_ok w1" by (rule step_ok[OF assms(3) ok])
  from assms(3) have "absent host w1 account"
  proof cases
    case (change io now r rt disk)
    have "runtime_ok (cw_runtimes w p)" using ok by (simp add: world_ok_def)
    from change_disk[OF this change(3)] obtain d f where
        "disk = ConsentBytes (kh_print host f)" "account \<notin> account_ids f" by auto
    with change(1) printed_read[OF assms(6)] show ?thesis by (auto simp: absent_def)
  qed
  from absent_run[OF assms(4) ok1 assms(6) this assms(5)]
  have gone: "\<not> enabled_on_disk host w2 account"
    by (auto simp: absent_def enabled_on_disk_def account_ids_def)
  show ?thesis using event_enabled[OF assms(7) run_ok[OF assms(4) ok1]] gone by metis
qed

section \<open>A failed change\<close>

fun resumes :: "nat \<Rightarrow> consent_event \<Rightarrow> bool" where
  "resumes p (Approved q _) \<longleftrightarrow> q = p"
| "resumes p (ConsentEdited q _ enabled revoke) \<longleftrightarrow> q = p \<and> enabled \<and> \<not> revoke"
| "resumes p (Restarted q) \<longleftrightarrow> q = p"
| "resumes p _ \<longleftrightarrow> False"

lemma identify_start_paused: "cr_locally_paused (fst (identify_start host now r rt)) = cr_locally_paused rt"
  by (auto simp: identify_start_def Let_def load_paused split: option.splits)

lemma identify_finish_paused: "cr_locally_paused (fst (identify_finish host now r g result rt)) = cr_locally_paused rt"
  by (auto simp: identify_finish_def Let_def load_paused split: sum.splits)

lemma poll_paused: "cr_locally_paused (fst (poll_start host now r rt)) = cr_locally_paused rt"
  by (auto simp: poll_start_def Let_def case_prod_unfold load_paused split: option.splits)

lemma finish_paused: "cr_locally_paused (poll_finish host now r g result rt) = cr_locally_paused rt"
  by (auto simp: poll_finish_def finish_read_def Let_def load_paused split: sum.splits)

lemma approve_fails_paused:
  "approve_account host now utc r io account label rt = (rt', Inl e) \<Longrightarrow> cr_locally_paused rt' = cr_locally_paused rt"
  by (auto simp: approve_account_def Let_def load_paused split: option.splits if_splits sum.splits)

lemma enforce_paused [simp]: "cr_locally_paused (enforce_local_pause rt) = cr_locally_paused rt"
  by (simp add: enforce_local_pause_def)

lemma change_paused:
  "change_account host now r io account enabled revoke rt = (rt', Inr disk) \<Longrightarrow> \<not> (enabled \<and> \<not> revoke)
    \<Longrightarrow> cr_locally_paused rt' = cr_locally_paused rt"
  by (auto simp: change_account_def Let_def load_paused split: option.splits if_splits sum.splits)

lemma change_fails_paused:
  "change_account host now r io account enabled revoke rt = (rt', Inl e) \<Longrightarrow> cr_locally_paused rt
    \<Longrightarrow> cr_locally_paused rt'"
  by (auto simp: change_account_def Let_def load_paused split: option.splits if_splits sum.splits)

lemma paused_step:
  assumes "consent_step host chrono w e w'" "cr_locally_paused (cw_runtimes w p)" "\<not> resumes p e"
  shows "cr_locally_paused (cw_runtimes w' p)"
  using assms
proof cases
  case (show_status r instant now q rt status)
  then have "rt = fst (load_consents host instant r (cw_runtimes w q))" by (simp add: live_status_of_def Let_def)
  with show_status assms(2) show ?thesis by (auto simp: load_paused)
next
  case (start_identify r now q rt result)
  with identify_start_paused[of host now r "cw_runtimes w q"] assms(2) show ?thesis by (auto split: sum.split)
next
  case (finish_identify r q g now result rt answer)
  with identify_finish_paused[of host now r g result "cw_runtimes w q"] assms(2) show ?thesis by auto
next
  case (approve io now utc r account label q rt disk)
  with assms(2,3) show ?thesis by simp
next
  case (approve_fails io now utc r account label q rt err)
  with approve_fails_paused[OF approve_fails(4)] assms(2) show ?thesis by auto
next
  case (change io now r account enabled revoke q rt disk)
  with change_paused[OF change(4)] assms(2,3) show ?thesis by auto
next
  case (change_fails io now r account enabled revoke q rt err)
  with change_fails_paused[OF change_fails(4)] assms(2) show ?thesis by auto
next
  case (start_poll r now q rt told g account)
  with poll_paused[of host now r "cw_runtimes w q"] assms(2) show ?thesis by auto
next
  case (skip_poll r now q rt told)
  with poll_paused[of host now r "cw_runtimes w q"] assms(2) show ?thesis by auto
next
  case (finish_poll r q g account result now rt)
  with finish_paused[of host now r g result "cw_runtimes w q"] assms(2) show ?thesis by auto
qed auto

lemma paused_run:
  "consent_run host chrono w es w' \<Longrightarrow> cr_locally_paused (cw_runtimes w p) \<Longrightarrow> \<forall>e\<in>set es. \<not> resumes p e
    \<Longrightarrow> cr_locally_paused (cw_runtimes w' p)"
  by (induction rule: consent_run.induct) (auto intro: paused_step)

lemma change_failed_pauses:
  assumes "change_account host now r io account enabled revoke rt = (rt', Inl e)"
    and "cr_configuration_error rt' = None" "account \<in> account_ids (cr_file rt')"
  shows "cr_locally_paused rt'"
proof -
  define rt0 where "rt0 = fst (load_consents host now r rt)"
  have "cr_durable_file rt0 \<noteq> None" if "cr_configuration_error rt0 = None"
  proof (cases "read_consents host r")
    case (Inl err)
    with that load_failed[OF Inl, of now rt] show ?thesis by (simp add: rt0_def)
  next
    case (Inr f)
    with load_read(1)[OF Inr, of now rt] show ?thesis by (simp add: rt0_def)
  qed
  with assms show ?thesis
    unfolding change_account_def rt0_def[symmetric] Let_def
    by (auto simp: list_ex_iff account_ids_def split: option.splits if_splits sum.splits)
qed

text \<open>C31: A failed change stops the process. When pausing or revoking an account could not be saved
  (the account was there and the file readable), that process asks the tool about no account and shows no
  reading until an explicit approval or enabling in this process succeeds, whatever other processes write
  to the file meanwhile.\<close>

theorem failed_change_pauses:
  assumes "fresh_world w0" "consent_run host chrono w0 before w"
    and "consent_step host chrono w (ChangeFailed p account enabled revoke) w1"
    and "cr_configuration_error (cw_runtimes w1 p) = None"
    and "account \<in> account_ids (cr_file (cw_runtimes w1 p))"
    and "consent_run host chrono w1 es w2" "\<forall>x\<in>set es. \<not> resumes p x"
    and "consent_step host chrono w2 e w3"
  shows "(\<forall>a. e \<noteq> PollStarted p a)
    \<and> (\<forall>st v. e = StatusShown p (Inr st) \<and> v \<in> set (ls_accounts st) \<longrightarrow> \<not> shows_reading v)"
proof -
  have ok: "world_ok w2"
    by (rule run_ok[OF assms(6) step_ok[OF assms(3) run_ok[OF assms(2) fresh_ok[OF assms(1)]]]])
  from assms(3) have "cr_locally_paused (cw_runtimes w1 p)"
  proof cases
    case (change_fails io now r rt err)
    with change_failed_pauses[OF change_fails(3)] assms(4,5) show ?thesis by simp
  qed
  from paused_run[OF assms(6) this assms(7)] have paused: "cr_locally_paused (cw_runtimes w2 p)" .
  have rt: "runtime_ok (cw_runtimes w2 p)" using ok by (simp add: world_ok_def)
  have "e \<noteq> PollStarted p a" for a
  proof
    assume "e = PollStarted p a"
    with assms(8) show False
      by (cases rule: consent_step.cases) (use poll_enabled(2)[OF rt] paused in auto)
  qed
  moreover have "\<not> shows_reading v" if "e = StatusShown p (Inr st)" "v \<in> set (ls_accounts st)" for st v
    using assms(8) unfolding that(1)
  proof cases
    case (show_status r instant now rt')
    show ?thesis
    proof
      assume reading: "shows_reading v"
      from status_reading_enabled[OF show_status(3) that(2) reading] obtain c where
          "c \<in> set (cf_accounts (cr_file (fst (load_consents host instant r (cw_runtimes w2 p)))))" "cn_enabled c" by blast
      from enabled_after_load(2)[OF rt this] paused show False by simp
    qed
  qed
  ultimately show ?thesis by blast
qed

section \<open>Pace\<close>

text \<open>What a process does while its consents do not change: polls that may be skipped, answers to polls,
  status reads, and identifications with their answers, each with its time and its read of the file.\<close>

datatype quiet_op =
    PollTick | PollAnswer u64 "live_quota_error + live_reading" | StatusRead timestamp
  | IdentifyTick | IdentifyAnswer u64 "live_quota_error + discovered_account"

definition quiet_step ::
    "consent_host \<Rightarrow> chrono_host \<Rightarrow> int \<times> consent_read \<times> quiet_op \<Rightarrow> consent_runtime \<Rightarrow> consent_runtime" where
  "quiet_step host chrono = (\<lambda>(now, r, x) rt.
     case x of
       PollTick \<Rightarrow> fst (poll_start host now r rt)
     | PollAnswer g result \<Rightarrow> poll_finish host now r g result rt
     | StatusRead utc \<Rightarrow> fst (live_status_of host chrono now r utc rt)
     | IdentifyTick \<Rightarrow> fst (identify_start host now r rt)
     | IdentifyAnswer g result \<Rightarrow> fst (identify_finish host now r g result rt))"

text \<open>The answers to polls of one generation, with their times, and the wait that they lead to.\<close>

definition poll_answers ::
    "u64 \<Rightarrow> (int \<times> consent_read \<times> quiet_op) list \<Rightarrow> (int \<times> (live_quota_error + live_reading)) list" where
  "poll_answers g = filter_map (\<lambda>(now, r, x).
     case x of PollAnswer h result \<Rightarrow> if h = g then Some (now, result) else None | _ \<Rightarrow> None)"

definition next_wait :: "int \<times> (live_quota_error + live_reading) \<Rightarrow> int \<Rightarrow> int" where
  "next_wait answer wait = (case snd answer of Inr _ \<Rightarrow> poll_interval | Inl _ \<Rightarrow> min (2 * wait) max_backoff)"

text \<open>A runtime that knows the file \<open>f\<close> and waits until the given time.\<close>

definition waiting :: "consent_file \<Rightarrow> u64 \<Rightarrow> int \<Rightarrow> int \<Rightarrow> consent_runtime \<Rightarrow> bool" where
  "waiting f g wait due rt \<longleftrightarrow>
     cr_loaded rt \<and> cr_durable_file rt = Some f \<and> cr_configuration_error rt = None
     \<and> cr_generation rt = g \<and> cr_backoff rt = wait \<and> cr_next_poll rt = due"

lemma load_known:
  assumes "read_consents host r = Inr f" "waiting f g wait due rt"
  shows "waiting f g wait due (fst (load_consents host now r rt))"
  using assms by (simp add: load_consents_def Let_def enforce_local_pause_def waiting_def)

lemma poll_waits:
  assumes "read_consents host r = Inr f" "waiting f g wait due rt"
  shows "waiting f g wait due (fst (poll_start host now r rt))"
    and "now < due \<Longrightarrow> snd (snd (poll_start host now r rt)) = None"
  using load_known[OF assms, of now]
  by (auto simp: poll_start_def Let_def case_prod_unfold waiting_def split: option.splits)

lemma quiet_step_waiting:
  assumes "read_consents host r = Inr f" "waiting f g wait due rt"
  shows "case poll_answers g [(now, r, x)] of
      [] \<Rightarrow> waiting f g wait due (quiet_step host chrono (now, r, x) rt)
    | answer # _ \<Rightarrow> waiting f g (next_wait answer wait) (now + next_wait answer wait)
        (quiet_step host chrono (now, r, x) rt)"
proof (cases x)
  case PollTick
  then show ?thesis using poll_waits(1)[OF assms] by (simp add: quiet_step_def poll_answers_def)
qed (use load_known[OF assms, of now] in \<open>auto simp: quiet_step_def poll_answers_def poll_finish_def finish_read_def
    live_status_of_def identify_start_def identify_finish_def waiting_def next_wait_def Let_def mult.commute
    split: sum.splits option.splits\<close>)

lemma quiet_run_waiting:
  assumes "\<forall>(now, r, x)\<in>set ops. read_consents host r = Inr f" "waiting f g wait due rt"
  shows "waiting f g (fold next_wait (poll_answers g ops) wait)
    (if poll_answers g ops = [] then due
     else fst (last (poll_answers g ops)) + fold next_wait (poll_answers g ops) wait)
    (fold (quiet_step host chrono) ops rt)"
  using assms
proof (induction ops arbitrary: wait due rt)
  case (Cons y ops)
  obtain now r x where y: "y = (now, r, x)" by (cases y)
  have read: "read_consents host r = Inr f" "\<forall>(now, r, x)\<in>set ops. read_consents host r = Inr f"
    using Cons.prems(1) by (auto simp: y)
  have split: "poll_answers g (y # ops) = poll_answers g [(now, r, x)] @ poll_answers g ops"
    by (simp add: poll_answers_def y split: option.split)
  have fst_answer: "fst a = now" if "poll_answers g [(now, r, x)] = a # as" for a as
    using that by (auto simp: poll_answers_def split: quiet_op.splits if_splits)
  have short: "as = []" if "poll_answers g [(now, r, x)] = a # as" for a as
    using that by (auto simp: poll_answers_def split: quiet_op.splits if_splits)
  note one = quiet_step_waiting[OF read(1) Cons.prems(2), where now = now and x = x and chrono = chrono]
  show ?case
  proof (cases "poll_answers g [(now, r, x)]")
    case Nil
    with one have "waiting f g wait due (quiet_step host chrono y rt)" by (simp add: y)
    from Cons.IH[OF read(2) this] show ?thesis by (cases "poll_answers g ops = []") (simp_all add: split Nil)
  next
    case (Cons a as)
    with one short[OF Cons] have "waiting f g (next_wait a wait) (now + next_wait a wait) (quiet_step host chrono y rt)"
      by (simp add: y)
    from Cons.IH[OF read(2) this] fst_answer[OF Cons] short[OF Cons] show ?thesis
      by (cases "poll_answers g ops = []") (simp_all add: split Cons)
  qed
qed (simp add: poll_answers_def)

text \<open>C33: The tool is not asked more often than agreed. Take a process that any run of processes has brought to
  know the consent file without an error. While every read of the file finds it as it is, and whatever polls,
  status reads, identifications and answers follow, no poll that comes before the time of the last answer to
  a poll (of the current generation) plus the current wait asks the tool. The wait is five minutes after a
  success and twice the previous one, at most an hour, after a failure; it is always between five minutes and
  an hour.\<close>

theorem polls_back_off:
  assumes "fresh_world w0" "consent_run host chrono w0 es w"
    and "rt = cw_runtimes w p" "cr_loaded rt" "cr_durable_file rt = Some f" "cr_configuration_error rt = None"
    and "\<forall>(now, r, x)\<in>set ops. read_consents host r = Inr f" "read_consents host r' = Inr f"
    and "answers = poll_answers (cr_generation rt) ops" "wait = fold next_wait answers (cr_backoff rt)"
  shows "poll_interval \<le> wait \<and> wait \<le> max_backoff
    \<and> (answers \<noteq> [] \<and> now < fst (last answers) + wait
      \<longrightarrow> snd (snd (poll_start host now r' (fold (quiet_step host chrono) ops rt))) = None)"
proof -
  have "poll_interval \<le> cr_backoff rt \<and> cr_backoff rt \<le> max_backoff"
    using run_ok[OF assms(2) fresh_ok[OF assms(1)]] by (simp add: world_ok_def runtime_ok_def assms(3))
  then have "poll_interval \<le> fold next_wait xs (cr_backoff rt) \<and> fold next_wait xs (cr_backoff rt) \<le> max_backoff" for xs
    using backoff_limits
    by (induction xs rule: rev_induct) (auto simp: next_wait_def split: sum.split)
  moreover have "waiting f (cr_generation rt) (cr_backoff rt) (cr_next_poll rt) rt"
    using assms(4-6) by (simp add: waiting_def)
  note poll_waits(2)[OF assms(8) quiet_run_waiting[OF assms(7) this, of chrono], of now]
  ultimately show ?thesis by (auto simp: assms(9,10))
qed

text \<open>A read that fails once disables the accounts in memory, and reading the same file again does not
  enable them.\<close>

lemma consent_lost_by_failed_read:
  assumes "cr_loaded rt" "cr_durable_file rt = Some f" "cr_file rt = f" "cr_configuration_error rt = None"
    and "read_consents host r = Inr f"
  shows "cr_file (fst (load_consents host now' r (fst (load_consents host now (ReadFailed e) rt)))) = disable_accounts f"
  using assms by (simp add: load_consents_def read_consents_def enforce_local_pause_def Let_def)

section \<open>An example\<close>

text \<open>A printer that can be parsed back: numbers in unary, strings with their length.\<close>

definition print_nat :: "nat \<Rightarrow> string" where
  "print_nat n = replicate n (CHR 0x01) @ [CHR 0x00]"

definition parse_nat :: "string \<Rightarrow> nat \<times> string" where
  "parse_nat t = (let n = length (takeWhile (\<lambda>c. c = CHR 0x01) t) in (n, drop (Suc n) t))"

definition print_str :: "string \<Rightarrow> string" where
  "print_str s = print_nat (length s) @ s"

definition parse_str :: "string \<Rightarrow> string \<times> string" where
  "parse_str t = (let (n, r) = parse_nat t in (take n r, drop n r))"

definition print_consent :: "account_consent \<Rightarrow> string" where
  "print_consent c = print_str (cn_account_id c) @ print_str (cn_label c)
     @ print_nat (if cn_consented_at c < 0 then 1 else 0) @ print_nat (nat \<bar>cn_consented_at c\<bar>)
     @ print_nat (if cn_enabled c then 1 else 0)"

definition parse_consent :: "string \<Rightarrow> account_consent \<times> string" where
  "parse_consent t =
     (let (i, t) = parse_str t; (l, t) = parse_str t; (sg, t) = parse_nat t; (m, t) = parse_nat t;
          (e, t) = parse_nat t
      in (\<lparr>cn_account_id = i, cn_label = l, cn_consented_at = (if sg = 1 then - int m else int m),
           cn_enabled = (e = 1)\<rparr>, t))"

fun parse_consents :: "nat \<Rightarrow> string \<Rightarrow> account_consent list" where
  "parse_consents 0 t = []"
| "parse_consents (Suc n) t = (let (c, t) = parse_consent t in c # parse_consents n t)"

definition sample_print :: "consent_file \<Rightarrow> string" where
  "sample_print f = print_nat (unat (cf_version f)) @ print_nat (length (cf_accounts f))
     @ concat (map print_consent (cf_accounts f))"

definition sample_parse :: "string \<Rightarrow> consent_file" where
  "sample_parse t =
     (let (v, t) = parse_nat t; (n, t) = parse_nat t
      in \<lparr>cf_version = of_nat v, cf_accounts = parse_consents n t\<rparr>)"

definition sample_consent_host :: consent_host where
  "sample_consent_host = \<lparr>kh_parse = (\<lambda>t. Some (sample_parse t)), kh_print = sample_print\<rparr>"

lemma parse_print_nat [simp]: "parse_nat (print_nat n @ r) = (n, r)"
proof -
  have "takeWhile (\<lambda>c. c = CHR 0x01) (replicate n (CHR 0x01) @ CHR 0x00 # r) = replicate n (CHR 0x01)"
    by (induction n) auto
  then show ?thesis by (simp add: parse_nat_def print_nat_def Let_def)
qed

lemma parse_print_str [simp]: "parse_str (print_str s @ r) = (s, r)"
  by (simp add: parse_str_def print_str_def)

lemma parse_print_consent [simp]: "parse_consent (print_consent c @ r) = (c, r)"
  by (simp add: parse_consent_def print_consent_def)

lemma parse_print_consents [simp]: "parse_consents (length cs) (concat (map print_consent cs)) = cs"
  by (induction cs) simp_all

lemma sample_prints_back: "prints_back sample_consent_host"
  by (simp add: prints_back_def sample_consent_host_def sample_parse_def sample_print_def)

definition sample_consents :: consent_file where
  "sample_consents = \<lparr>cf_version = 1, cf_accounts =
     [\<lparr>cn_account_id = ''a'', cn_label = ''A'', cn_consented_at = 5, cn_enabled = True\<rparr>]\<rparr>"

definition sample_world :: consent_world where
  "sample_world = \<lparr>cw_disk = ConsentBytes (sample_print sample_consents),
     cw_runtimes = (\<lambda>_. initial_runtime 0), cw_pending = (\<lambda>_. None)\<rparr>"

lemma sample_texts: "trim ''A'' = ''A''" "\<not> has_control ''A''" "\<not> has_control ''a''"
  by code_simp+

lemma printed_reads:
  assumes "length (sample_print f) \<le> 32768" "validate_consents f = Inr ()"
  shows "read_consents sample_consent_host (ConsentBytes (sample_print f)) = Inr f"
  using assms sample_prints_back
  by (simp add: read_consents_def prints_back_def sample_consent_host_def)

lemma sample_valid: "validate_consents sample_consents = Inr ()" "validate_consents no_consents = Inr ()"
  by (simp_all add: validate_consents_def sample_consents_def no_consents_def max_accounts_def sample_texts)

lemma sample_length: "length (sample_print sample_consents) \<le> 32768" "length (sample_print no_consents) \<le> 32768"
  by (simp_all add: sample_print_def print_nat_def sample_consents_def no_consents_def print_consent_def print_str_def)

lemma sample_read: "read_consents sample_consent_host (cw_disk sample_world) = Inr sample_consents"
  using printed_reads[OF sample_length(1) sample_valid(1)] by (simp add: sample_world_def)

lemma sample_fresh: "fresh_world sample_world"
  by (auto simp: fresh_world_def sample_world_def)

text \<open>A process that has just started reads the file.\<close>

lemma load_initial:
  assumes "read_consents host r = Inr f"
  shows "fst (load_consents host now r (initial_runtime t))
    = (invalidate_runtime now (initial_runtime t))\<lparr>cr_file := f, cr_durable_file := Some f, cr_loaded := True\<rparr>"
  using assms by (simp add: load_consents_def Let_def enforce_local_pause_def initial_runtime_def invalidate_runtime_def)

lemma sample_poll:
  "\<exists>w. consent_step sample_consent_host any_time sample_world (PollStarted 0 ''a'') w"
proof -
  let ?rt = "fst (load_consents sample_consent_host 0 (cw_disk sample_world) (initial_runtime 0))"
  have "snd (snd (poll_start sample_consent_host 0 (cw_disk sample_world) (initial_runtime 0)))
      = Some (cr_generation ?rt, ''a'')"
    unfolding poll_start_def Let_def case_prod_unfold load_initial[OF sample_read]
    by (simp add: sample_consents_def initial_runtime_def invalidate_runtime_def)
  then obtain rt told where "poll_start sample_consent_host 0 (cw_disk sample_world) (cw_runtimes sample_world 0)
      = (rt, told, Some (cr_generation ?rt, ''a''))"
    by (simp add: sample_world_def prod_eq_iff)
  from start_poll[OF _ this] show ?thesis by (auto simp: sees_def)
qed

lemma consent_enforced_witness: "enabled_on_disk sample_consent_host sample_world ''a''"
  using sample_poll consent_enforced[OF sample_fresh no_event] by blast

text \<open>Process 0 revokes the account, with the lock free or held; what process 1 or 0 then shows.\<close>

definition save_with :: "consent_error option \<Rightarrow> save_io" where
  "save_with lock = \<lparr>so_directory = True, so_lock = lock, so_reading = cw_disk sample_world, so_write = True\<rparr>"

definition sample_loaded :: consent_runtime where
  "sample_loaded = fst (load_consents sample_consent_host 0 (cw_disk sample_world) (initial_runtime 0))"

lemma sample_loaded_fields:
  "cr_file sample_loaded = sample_consents" "cr_durable_file sample_loaded = Some sample_consents"
  "cr_configuration_error sample_loaded = None" "cr_locally_paused sample_loaded = False"
  "cr_loaded sample_loaded" "cr_backoff sample_loaded = poll_interval"
  unfolding sample_loaded_def load_initial[OF sample_read]
  by (simp_all add: initial_runtime_def invalidate_runtime_def)

lemma sample_change:
  "change_account sample_consent_host 0 (cw_disk sample_world) (save_with lock) ''a'' False True (initial_runtime 0)
    = (let rt = (invalidate_runtime 0 sample_loaded)\<lparr>cr_file := disable_accounts sample_consents\<rparr>
       in case lock of
            Some e \<Rightarrow> (rt\<lparr>cr_locally_paused := True\<rparr>, Inl e)
          | None \<Rightarrow> (rt\<lparr>cr_durable_file := Some no_consents, cr_file := no_consents, cr_locally_paused := False\<rparr>,
              Inr (ConsentBytes (sample_print no_consents))))"
proof -
  have accounts: "\<lparr>cf_version = 1, cf_accounts = changed_accounts ''a'' False True (cf_accounts sample_consents)\<rparr> = no_consents"
    by (simp add: changed_accounts_def sample_consents_def no_consents_def)
  have save: "save_consents sample_consent_host (save_with lock) sample_consents no_consents
      = (case lock of Some e \<Rightarrow> Inl e | None \<Rightarrow> Inr (ConsentBytes (sample_print no_consents)))"
    using sample_read sample_valid(2)
    by (simp add: save_consents_def save_with_def sample_consent_host_def split: option.split)
  have known: "list_ex (\<lambda>a. cn_account_id a = ''a'') (cf_accounts sample_consents)"
    by (simp add: sample_consents_def)
  show ?thesis
    unfolding change_account_def sample_loaded_def[symmetric] Let_def
    by (simp add: sample_loaded_fields accounts save known enforce_local_pause_def split: option.split)
qed

lemma show_status_step:
  "consent_step host chrono w (StatusShown p (snd (live_status_of host chrono 0 (cw_disk w) 0 (cw_runtimes w p))))
    (with_runtime p (fst (live_status_of host chrono 0 (cw_disk w) 0 (cw_runtimes w p))) w)"
  by (rule show_status[of _ "cw_disk w"]) (simp_all add: sees_def)

lemma revocation_is_final_witness:
  "\<exists>w1 status w3.
    consent_step sample_consent_host any_time sample_world (ConsentEdited 0 ''a'' False True) w1
    \<and> consent_step sample_consent_host any_time w1 (StatusShown 1 status) w3
    \<and> (\<forall>st v. status = Inr st \<and> v \<in> set (ls_accounts st) \<and> shows_reading v
        \<longrightarrow> cn_account_id (av_consent v) \<noteq> ''a'')"
proof -
  from sample_change[of None] obtain rt disk where
      "change_account sample_consent_host 0 (cw_disk sample_world) (save_with None) ''a'' False True
        (cw_runtimes sample_world 0) = (rt, Inr disk)"
    by (simp add: Let_def sample_world_def)
  from change[OF _ this] have revoke: "consent_step sample_consent_host any_time sample_world
      (ConsentEdited 0 ''a'' False True) (with_runtime 0 rt (sample_world\<lparr>cw_disk := disk\<rparr>))"
    by (simp add: sees_def save_with_def)
  note status = show_status_step[of sample_consent_host any_time "with_runtime 0 rt (sample_world\<lparr>cw_disk := disk\<rparr>)" 1]
  from revocation_is_final[OF sample_fresh no_event revoke no_event _ sample_prints_back status]
  show ?thesis using revoke status by auto
qed

lemma failed_change_pauses_witness:
  "\<exists>w1 status w3.
    consent_step sample_consent_host any_time sample_world (ChangeFailed 0 ''a'' False True) w1
    \<and> consent_step sample_consent_host any_time w1 (StatusShown 0 status) w3
    \<and> (\<forall>st v. status = Inr st \<and> v \<in> set (ls_accounts st) \<longrightarrow> \<not> shows_reading v)"
proof -
  from sample_change[of "Some LockHeld"] obtain rt where rt:
      "change_account sample_consent_host 0 (cw_disk sample_world) (save_with (Some LockHeld)) ''a'' False True
        (cw_runtimes sample_world 0) = (rt, Inl LockHeld)"
      "cr_configuration_error rt = None" "cr_file rt = disable_accounts sample_consents"
    by (simp add: Let_def sample_world_def sample_loaded_fields)
  from change_fails[OF _ rt(1)] have failed: "consent_step sample_consent_host any_time sample_world
      (ChangeFailed 0 ''a'' False True) (with_runtime 0 rt sample_world)"
    by (simp add: sees_def save_with_def)
  note status = show_status_step[of sample_consent_host any_time "with_runtime 0 rt sample_world" 0]
  have "''a'' \<in> account_ids (cr_file rt)"
    by (simp add: rt(3) account_ids_def disable_accounts_def sample_consents_def)
  with failed_change_pauses[OF sample_fresh no_event failed _ _ no_event _ status] rt(2)
  show ?thesis using failed status by auto
qed

lemma polls_back_off_witness:
  "snd (snd (poll_start sample_consent_host (10 + 2 * poll_interval - 1) (cw_disk sample_world)
      (fold (quiet_step sample_consent_host any_time)
        [(10, cw_disk sample_world, PollAnswer (cr_generation sample_loaded) (Inl LiveOffline)),
         (11, cw_disk sample_world, PollTick), (12, cw_disk sample_world, StatusRead 0)] sample_loaded))) = None"
proof -
  have "live_status_of host chrono 0 r 0 rt = (fst (load_consents host 0 r rt), snd (live_status_of host chrono 0 r 0 rt))"
    for host chrono r rt
    by (simp add: live_status_of_def Let_def)
  then have "fst (live_status_of sample_consent_host any_time 0 (cw_disk sample_world) 0 (cw_runtimes sample_world 0))
      = sample_loaded"
    by (simp add: live_status_of_def Let_def sample_loaded_def sample_world_def)
  with show_status_step[of sample_consent_host any_time sample_world 0] obtain e where
    step: "consent_step sample_consent_host any_time sample_world e (with_runtime 0 sample_loaded sample_world)" by metis
  have run: "consent_run sample_consent_host any_time sample_world [e] (with_runtime 0 sample_loaded sample_world)"
    using next_event[OF no_event step] by simp
  let ?ops = "[(10, cw_disk sample_world, PollAnswer (cr_generation sample_loaded) (Inl LiveOffline)),
      (11, cw_disk sample_world, PollTick), (12, cw_disk sample_world, StatusRead 0)]"
  have "min (2 * poll_interval) max_backoff = 2 * poll_interval"
    by (simp add: poll_interval_def max_backoff_def nanos_per_second_def)
  then have answers: "poll_answers (cr_generation sample_loaded) ?ops = [(10, Inl LiveOffline)]"
      "fold next_wait (poll_answers (cr_generation sample_loaded) ?ops) (cr_backoff sample_loaded) = 2 * poll_interval"
    by (simp_all add: poll_answers_def next_wait_def sample_loaded_fields)
  from polls_back_off[OF sample_fresh run, of sample_loaded 0 sample_consents ?ops "cw_disk sample_world",
      OF _ _ _ _ _ sample_read refl refl, of "10 + 2 * poll_interval - 1"] answers sample_read
  show ?thesis by (simp add: sample_loaded_fields)
qed

end
