(* ===== verification/Quota_Store.thy ===== *)
theory Quota_Store
  imports Quota_Live Stable_Hash
begin

text \<open>
  Soft budgets, notification settings and the alert log (\<open>src-tauri/src/quota_store.rs\<close>, with the
  notice types of \<open>ambient.rs\<close>), and the operations of \<open>store.rs\<close> that write them. A file is what
  opening and reading it gives; JSON parsing and printing of the store are arguments.
\<close>

section \<open>Data\<close>

datatype budget_unit = PercentOfWindow | TokenBudget | UsdBudget

record quota_budget =
  qb_id :: string
  qb_provider :: provider_id
  qb_project_key :: "string option"
  qb_unit :: budget_unit
  qb_window_kind :: "string option"
  qb_period_hours :: "u32 option"
  qb_threshold :: f64
  qb_enabled :: bool

record live_account_budget =
  la_id :: string
  la_account_id :: string
  la_consented_at :: timestamp
  la_limit_id :: string
  la_window_kind :: string
  la_window_minutes :: u64
  la_threshold_percent :: f64
  la_enabled :: bool

text \<open>The derived equalities compare the thresholds as numbers.\<close>

definition budget_eq :: "quota_budget \<Rightarrow> quota_budget \<Rightarrow> bool" where
  "budget_eq a b \<longleftrightarrow>
     a\<lparr>qb_threshold := 0\<rparr> = b\<lparr>qb_threshold := 0\<rparr> \<and> f64_eq (qb_threshold a) (qb_threshold b)"

definition live_rule_eq :: "live_account_budget \<Rightarrow> live_account_budget \<Rightarrow> bool" where
  "live_rule_eq a b \<longleftrightarrow>
     a\<lparr>la_threshold_percent := 0\<rparr> = b\<lparr>la_threshold_percent := 0\<rparr>
     \<and> f64_eq (la_threshold_percent a) (la_threshold_percent b)"

fun option_eq :: "('a \<Rightarrow> 'a \<Rightarrow> bool) \<Rightarrow> 'a option \<Rightarrow> 'a option \<Rightarrow> bool" where
  "option_eq eq None None = True"
| "option_eq eq (Some a) (Some b) = eq a b"
| "option_eq eq _ _ = False"

definition live_account_log_prefix :: string where "live_account_log_prefix = ''live-account:''"

definition live_account_log_key :: "string \<Rightarrow> string" where
  "live_account_log_key i = live_account_log_prefix @ i"

definition ambient_prefix :: string where "ambient_prefix = ''@ambient/''"

record ambient_categories =
  ac_attention :: bool
  ac_provider_incidents :: bool
  ac_stale_quota :: bool
  ac_retention_risk :: bool

datatype ambient_route = BudgetsRoute | AttentionRoute | ProviderStatusRoute | RetentionRoute | QuotaRoute

record ambient_notice =
  an_id :: string
  an_route :: ambient_route
  an_provider :: string
  an_code :: string
  an_observed_at :: timestamp
  an_delivered_at :: timestamp

record notification_settings =
  ns_enabled :: bool
  ns_quiet_hours :: "(nat \<times> nat) option"
  ns_ambient :: ambient_categories

definition default_settings :: notification_settings where
  "default_settings = \<lparr>ns_enabled = False, ns_quiet_hours = None,
     ns_ambient = \<lparr>ac_attention = False, ac_provider_incidents = False, ac_stale_quota = False,
       ac_retention_risk = False\<rparr>\<rparr>"

record log_entry =
  ne_dedup_key :: string
  ne_fired_at :: timestamp
  ne_notice :: "ambient_notice option"

record quota_store =
  qf_version :: u32
  qf_budgets :: "quota_budget list"
  qf_live_account_budgets :: "live_account_budget list"
  qf_notifications :: notification_settings
  qf_notification_log :: "log_entry list"
  qf_max_cache_age_secs :: int

definition quota_store_version :: u32 where "quota_store_version = 3"

definition default_quota_store :: quota_store where
  "default_quota_store = \<lparr>qf_version = quota_store_version, qf_budgets = [], qf_live_account_budgets = [],
     qf_notifications = default_settings, qf_notification_log = [], qf_max_cache_age_secs = 6 * 60 * 60\<rparr>"

record quota_config =
  qc_revision :: "string option"
  qc_budgets :: "quota_budget list"
  qc_live_account_budgets :: "live_account_budget list"
  qc_notifications :: notification_settings
  qc_max_cache_age_secs :: int

section \<open>Validation\<close>

datatype quota_config_error =
    CacheAgeOutOfRange | TooManyBudgets | TooManyLiveRules | QuietHoursOutOfRange
  | UnsupportedBudgetProvider | InvalidProjectKey | InvalidBudgetId | DuplicateBudgetId string
  | ThresholdNotPositive string | PercentBudgetScoped string | WindowKindMissing string
  | PercentThresholdTooHigh string | PeriodOutOfRange string | InvalidLiveRule
  | SettingsChanged | SettingsUnreadable | SettingsTooLarge | SettingsInvalid | NewerVersion
  | SettingsUnsaved

definition window_kinds :: "string list" where
  "window_kinds = [''burst'', ''daily'', ''weekly'', ''monthly'']"

definition validate_budget :: "string list \<Rightarrow> quota_budget \<Rightarrow> quota_config_error + unit" where
  "validate_budget seen b =
     (if find_adapter (qb_provider b) = None then Inl UnsupportedBudgetProvider
      else if (case qb_project_key b of
          None \<Rightarrow> False
        | Some k \<Rightarrow> trim k = [] \<or> 1024 < length k \<or> has_control k) then Inl InvalidProjectKey
      else if trim (qb_id b) = [] \<or> 128 < length (qb_id b) \<or> starts_with ambient_prefix (qb_id b)
          \<or> starts_with live_account_log_prefix (qb_id b) then Inl InvalidBudgetId
      else if qb_id b \<in> set seen then Inl (DuplicateBudgetId (qb_id b))
      else if \<not> f64_is_finite (qb_threshold b) \<or> f64_le_zero (qb_threshold b)
        then Inl (ThresholdNotPositive (qb_id b))
      else
        (case qb_unit b of
           PercentOfWindow \<Rightarrow>
             if qb_project_key b \<noteq> None then Inl (PercentBudgetScoped (qb_id b))
             else if \<not> (case qb_window_kind b of None \<Rightarrow> False | Some k \<Rightarrow> k \<in> set window_kinds)
               then Inl (WindowKindMissing (qb_id b))
             else if f64_lt (f64_of_int 100) (qb_threshold b) then Inl (PercentThresholdTooHigh (qb_id b))
             else Inr ()
         | _ \<Rightarrow>
             (case qb_period_hours b of
                None \<Rightarrow> Inr ()
              | Some h \<Rightarrow> if 1 \<le> h \<and> h \<le> 8760 then Inr () else Inl (PeriodOutOfRange (qb_id b)))))"

fun validate_budgets :: "string list \<Rightarrow> quota_budget list \<Rightarrow> quota_config_error + unit" where
  "validate_budgets seen [] = Inr ()"
| "validate_budgets seen (b # bs) =
     (case validate_budget seen b of
        Inl e \<Rightarrow> Inl e
      | Inr _ \<Rightarrow> validate_budgets (qb_id b # seen) bs)"

definition live_rule_window :: "live_account_budget \<Rightarrow> string \<times> timestamp \<times> string \<times> string \<times> u64" where
  "live_rule_window r =
     (la_account_id r, la_consented_at r, la_limit_id r, la_window_kind r, la_window_minutes r)"

definition live_rule_valid :: "live_account_budget \<Rightarrow> bool" where
  "live_rule_valid r \<longleftrightarrow>
     trim (la_id r) \<noteq> [] \<and> length (la_id r) \<le> 128 \<and> \<not> has_control (la_id r)
     \<and> la_account_id r \<noteq> [] \<and> length (la_account_id r) \<le> 256 \<and> \<not> has_control (la_account_id r)
     \<and> la_limit_id r \<noteq> [] \<and> length (la_limit_id r) \<le> 128 \<and> \<not> has_control (la_limit_id r)
     \<and> la_window_kind r \<in> set window_kinds
     \<and> 1 \<le> la_window_minutes r \<and> la_window_minutes r \<le> 527040
     \<and> f64_is_finite (la_threshold_percent r)
     \<and> f64_le 0 (la_threshold_percent r) \<and> f64_le (la_threshold_percent r) (f64_of_int 100)
     \<and> \<not> f64_eq (la_threshold_percent r) 0"

fun validate_live_rules ::
    "string list \<Rightarrow> (string \<times> timestamp \<times> string \<times> string \<times> u64) list \<Rightarrow> live_account_budget list
     \<Rightarrow> quota_config_error + unit" where
  "validate_live_rules ids windows [] = Inr ()"
| "validate_live_rules ids windows (r # rs) =
     (if \<not> live_rule_valid r \<or> la_id r \<in> set ids \<or> live_rule_window r \<in> set windows then Inl InvalidLiveRule
      else validate_live_rules (la_id r # ids) (live_rule_window r # windows) rs)"

definition validate_quota_config :: "quota_config \<Rightarrow> quota_config_error + unit" where
  "validate_quota_config c =
     (if \<not> (1 \<le> qc_max_cache_age_secs c \<and> qc_max_cache_age_secs c \<le> 31536000) then Inl CacheAgeOutOfRange
      else if 64 < length (qc_budgets c) then Inl TooManyBudgets
      else if 32 < length (qc_live_account_budgets c) then Inl TooManyLiveRules
      else if (case ns_quiet_hours (qc_notifications c) of
          None \<Rightarrow> False
        | Some (s, e) \<Rightarrow> 23 < s \<or> 23 < e) then Inl QuietHoursOutOfRange
      else
        (case validate_budgets [] (qc_budgets c) of
           Inl e \<Rightarrow> Inl e
         | Inr _ \<Rightarrow> validate_live_rules [] [] (qc_live_account_budgets c)))"

section \<open>The log\<close>

definition max_log_entries :: nat where "max_log_entries = 500"

fun retain_entries :: "string list \<Rightarrow> timestamp \<Rightarrow> int \<Rightarrow> string list \<Rightarrow> log_entry list \<Rightarrow> log_entry list" where
  "retain_entries armed now retention seen [] = []"
| "retain_entries armed now retention seen (e # es) =
     (if ne_dedup_key e \<in> set armed then
        (if ne_dedup_key e \<in> set seen then retain_entries armed now retention seen es
         else e # retain_entries armed now retention (ne_dedup_key e # seen) es)
      else if now - ne_fired_at e \<le> retention then e # retain_entries armed now retention seen es
      else retain_entries armed now retention seen es)"

fun drop_excess_entries :: "string list \<Rightarrow> nat \<Rightarrow> log_entry list \<Rightarrow> log_entry list" where
  "drop_excess_entries armed excess [] = []"
| "drop_excess_entries armed excess (e # es) =
     (if 0 < excess \<and> ne_dedup_key e \<notin> set armed then drop_excess_entries armed (excess - 1) es
      else e # drop_excess_entries armed excess es)"

definition armed_live_keys :: "quota_store \<Rightarrow> string list" where
  "armed_live_keys store = map (\<lambda>r. live_account_log_key (la_id r)) (qf_live_account_budgets store)"

definition prune_log :: "timestamp \<Rightarrow> int \<Rightarrow> quota_store \<Rightarrow> quota_store" where
  "prune_log now retention store =
     (let armed = armed_live_keys store;
          kept = sort_key ne_fired_at (retain_entries armed now retention [] (qf_notification_log store))
      in store\<lparr>qf_notification_log := drop_excess_entries armed (length kept - max_log_entries) kept\<rparr>)"

section \<open>Revisions and files\<close>

text \<open>The host prints the settings for the digest, and prints and parses the file.\<close>

record quota_store_host =
  sh_settings_json :: "quota_budget list \<times> live_account_budget list \<times> notification_settings \<times> int \<Rightarrow> string"
  sh_store_json :: "quota_store \<Rightarrow> string"
  sh_parse_value :: "string \<Rightarrow> json option"
  sh_parse_store :: "string \<Rightarrow> quota_store option"

definition config_revision :: "quota_store_host \<Rightarrow> quota_store \<Rightarrow> string" where
  "config_revision host store =
     hex16 (fnv1a64 (sh_settings_json host
       (qf_budgets store, qf_live_account_budgets store, qf_notifications store, qf_max_cache_age_secs store)))"

definition check_revision ::
    "quota_store_host \<Rightarrow> quota_store \<Rightarrow> string option \<Rightarrow> quota_config_error + unit" where
  "check_revision host store revision =
     (case revision of
        None \<Rightarrow> Inr ()
      | Some r \<Rightarrow> if r \<noteq> config_revision host store then Inl SettingsChanged else Inr ())"

definition quota_config_of :: "quota_store_host \<Rightarrow> quota_store \<Rightarrow> quota_config" where
  "quota_config_of host store =
     \<lparr>qc_revision = Some (config_revision host store), qc_budgets = qf_budgets store,
      qc_live_account_budgets = qf_live_account_budgets store, qc_notifications = qf_notifications store,
      qc_max_cache_age_secs = qf_max_cache_age_secs store\<rparr>"

datatype quota_file = QuotaV1 | QuotaV2 | QuotaV3

text \<open>What the file system says of a file: that it is not there, that it cannot tell, that the file
  cannot be read, or its bytes.\<close>

datatype file_state = Absent | Unknown | Unreadable | Holding string

type_synonym quota_files = "quota_file \<Rightarrow> file_state"

definition select_file :: "quota_files \<Rightarrow> quota_config_error + quota_file" where
  "select_file files =
     (case files QuotaV3 of
        Unknown \<Rightarrow> Inl SettingsUnreadable
      | Absent \<Rightarrow>
          (case files QuotaV2 of
             Unknown \<Rightarrow> Inl SettingsUnreadable
           | Absent \<Rightarrow> Inr QuotaV1
           | _ \<Rightarrow> Inr QuotaV2)
      | _ \<Rightarrow> Inr QuotaV3)"

definition required_keys :: "string list" where
  "required_keys = [''version'', ''budgets'', ''live_account_budgets'', ''notifications'',
     ''notification_log'', ''max_cache_age_secs'']"

definition file_version :: "quota_file \<Rightarrow> u32" where
  "file_version f = (case f of QuotaV1 \<Rightarrow> 1 | QuotaV2 \<Rightarrow> 2 | QuotaV3 \<Rightarrow> quota_store_version)"

definition decode_file ::
    "quota_store_host \<Rightarrow> quota_file \<Rightarrow> string \<Rightarrow> quota_config_error + quota_store" where
  "decode_file host selected raw =
     (if selected = QuotaV3 \<and> (case sh_parse_value host raw of
          None \<Rightarrow> True
        | Some v \<Rightarrow> list_ex (\<lambda>k. get k v = None) required_keys) then Inl SettingsInvalid
      else
        (case sh_parse_store host raw of
           None \<Rightarrow> Inl SettingsInvalid
         | Some store \<Rightarrow>
             if qf_version store \<noteq> file_version selected then Inl NewerVersion
             else
               let store = (if selected \<noteq> QuotaV3 then store\<lparr>qf_live_account_budgets := []\<rparr> else store)
               in (case validate_quota_config (quota_config_of host store) of
                    Inl e \<Rightarrow> Inl e
                  | Inr _ \<Rightarrow> Inr (store\<lparr>qf_version := quota_store_version\<rparr>))))"

definition load_store_file :: "quota_store_host \<Rightarrow> quota_files \<Rightarrow> quota_config_error + quota_store" where
  "load_store_file host files =
     (case select_file files of
        Inl e \<Rightarrow> Inl e
      | Inr selected \<Rightarrow>
          (case files selected of
             Absent \<Rightarrow> Inr default_quota_store
           | Holding text \<Rightarrow>
               let raw = take 512001 text in
               if \<not> utf8_valid raw then Inl SettingsUnreadable
               else if 512000 < length raw then Inl SettingsTooLarge
               else decode_file host selected raw
           | _ \<Rightarrow> Inl SettingsUnreadable))"

definition load_or_default :: "quota_store_host \<Rightarrow> quota_files \<Rightarrow> quota_store" where
  "load_or_default host files =
     (case load_store_file host files of Inl _ \<Rightarrow> default_quota_store | Inr store \<Rightarrow> store)"

end
