(* ===== verification/History_Ledger.thy ===== *)
theory History_Ledger
  imports Range_Totals Stable_Hash
begin

text \<open>
  The accounting tables of the history store (\<open>src-tauri/src/history_store.rs\<close>): per session the facts
  (token events, tool events, dimension events, findings) and the hour rollups derived from them,
  how an observation of the session writes both, and how a deferred rebuild derives the rollups from the
  facts. The statements are written out; the rows of a table with one session key are one field. A
  row of counters is the list of its columns in the order of the statement. SQLite keeps integers of
  64 bits: a value that does not fit is refused when it is bound, \<open>SUM\<close> fails when it overflows, and
  an overflowing \<open>+\<close> of an upsert leaves a number no reader accepts, which is the exact sum here. A
  failing statement is \<open>None\<close>; the transaction around it rolls back.
\<close>

section \<open>Keys and columns\<close>

definition hour_ms :: int where "hour_ms = 3600000"

text \<open>Rust's \<open>/\<close> and SQLite's truncate towards zero.\<close>

definition hour_bucket :: "int \<Rightarrow> int" where
  "hour_bucket ms = (if 0 \<le> ms then ms div hour_ms else - ((- ms) div hour_ms))"

definition key_sentinel :: "string option \<Rightarrow> string" where
  "key_sentinel v = unwrap_or [] v"

definition sentinel_to_option :: "string \<Rightarrow> string option" where
  "sentinel_to_option v = (if v = [] then None else Some v)"

definition unit_separator :: string where "unit_separator = [CHR 0x1F]"

definition token_event_signature :: "token_history_point \<Rightarrow> string" where
  "token_event_signature e =
     join unit_separator
       [dec_int (timestamp_millis (h_timestamp e)), unwrap_or [] (h_model e), unwrap_or [] (h_service_tier e),
        dec (unat (h_total_tokens e)), dec (unat (input_tokens (h_delta e))),
        dec (unat (cached_input_tokens (h_delta e))), dec (unat (output_tokens (h_delta e))),
        dec (unat (reasoning_output_tokens (h_delta e)))]"

definition token_event_key :: "token_history_point \<Rightarrow> string" where
  "token_event_key e = stable_hash (token_event_signature e)"

definition to_i64 :: "u64 \<Rightarrow> int option" where
  "to_i64 v = (if uint v < 2 ^ 63 then Some (uint v) else None)"

fun collect_options :: "'a option list \<Rightarrow> 'a list option" where
  "collect_options [] = Some []"
| "collect_options (None # xs) = None"
| "collect_options (Some x # xs) = map_option ((#) x) (collect_options xs)"

definition token_columns :: "token_totals \<Rightarrow> int list option" where
  "token_columns t =
     collect_options (map to_i64 [input_tokens t, cached_input_tokens t, output_tokens t,
       reasoning_output_tokens t, total_tokens t, cache_creation_input_tokens t])"

definition metric_columns :: "tool_metrics \<Rightarrow> int list option" where
  "metric_columns m =
     collect_options (map to_i64 [m_calls m, m_reads m, m_searches m, m_mutations m, m_commands m, m_other m,
       m_successes m, m_failures m, m_unknown m, m_duration_ms m, m_output_bytes m, m_core_origin_calls m,
       m_mcp_origin_calls m, m_provider_origin_calls m, m_unknown_origin_calls m])"

definition dimension_columns :: "dimension_metrics \<Rightarrow> int list option" where
  "dimension_columns d =
     collect_options (map to_i64 [d_calls d, d_failures d, d_output_bytes d, d_duration_ms d])"

section \<open>Tables\<close>

record token_row =
  tk_event_key :: string
  tk_event_index :: nat
  tk_timestamp_ms :: int
  tk_model :: "string option"
  tk_service_tier :: "string option"
  tk_request_input_tokens :: "int option"
  tk_cumulative_total_tokens :: int
  tk_columns :: "int list"

record tool_row =
  tw_timestamp_ms :: int
  tw_model :: "string option"
  tw_kind :: string
  tw_outcome :: string
  tw_turn_id :: "string option"
  tw_target :: "string option"
  tw_duration_ms :: "int option"
  tw_output_bytes :: int
  tw_origin :: string

record dimension_row =
  dw_timestamp_ms :: int
  dw_model :: "string option"
  dw_kind :: string
  dw_value :: string
  dw_outcome :: string
  dw_output_bytes :: int
  dw_duration_ms :: "int option"

record finding_row =
  fw_timestamp_ms :: "int option"
  fw_rule_id :: string
  fw_severity :: string
  fw_avoidable_calls :: int

type_synonym token_key = "int \<times> string \<times> string"
type_synonym metric_key = "int \<times> string"
type_synonym chain_key = "int \<times> string \<times> string \<times> string"
type_synonym dimension_key = "int \<times> string \<times> string"

record session_tables =
  tb_tokens :: "token_row list"
  tb_tools :: "tool_row list"
  tb_dimensions :: "dimension_row list"
  tb_findings :: "finding_row list"
  tb_token_rollup :: "(token_key \<times> int list) list"
  tb_metric_rollup :: "(metric_key \<times> int list) list"
  tb_chain_rollup :: "(chain_key \<times> int) list"
  tb_dimension_rollup :: "(dimension_key \<times> int list) list"

definition empty_tables :: session_tables where
  "empty_tables =
     \<lparr>tb_tokens = [], tb_tools = [], tb_dimensions = [], tb_findings = [], tb_token_rollup = [],
      tb_metric_rollup = [], tb_chain_rollup = [], tb_dimension_rollup = []\<rparr>"

section \<open>Token events\<close>

definition next_event_index :: "token_row list \<Rightarrow> nat" where
  "next_event_index rows = (if rows = [] then 0 else Suc (Max (set (map tk_event_index rows))))"

text \<open>The request evidence that early rows did not keep.\<close>

fun backfill_requests :: "token_history_point list \<Rightarrow> token_row list \<Rightarrow> token_row list option" where
  "backfill_requests [] rows = Some rows"
| "backfill_requests (e # es) rows =
     (case h_request_input_tokens e of
        None \<Rightarrow> backfill_requests es rows
      | Some r \<Rightarrow>
          (case to_i64 r of
             None \<Rightarrow> None
           | Some v \<Rightarrow>
               backfill_requests es (map (\<lambda>row.
                 if tk_event_key row = token_event_key e \<and> tk_request_input_tokens row = None
                 then row\<lparr>tk_request_input_tokens := Some v\<rparr> else row) rows)))"

definition token_row_of :: "nat \<Rightarrow> token_history_point \<Rightarrow> token_row option" where
  "token_row_of index e =
     (case (case h_request_input_tokens e of
              None \<Rightarrow> Some None
            | Some r \<Rightarrow> map_option Some (to_i64 r),
            to_i64 (h_total_tokens e), token_columns (h_delta e)) of
        (Some request, Some cumulative, Some columns) \<Rightarrow> Some
          \<lparr>tk_event_key = token_event_key e, tk_event_index = index,
           tk_timestamp_ms = timestamp_millis (h_timestamp e), tk_model = h_model e,
           tk_service_tier = h_service_tier e, tk_request_input_tokens = request,
           tk_cumulative_total_tokens = cumulative, tk_columns = columns\<rparr>
      | _ \<Rightarrow> None)"

text \<open>\<open>INSERT .. ON CONFLICT(session_key, event_key) DO UPDATE SET request_input_tokens = COALESCE(..)\<close>.\<close>

definition insert_token_row :: "token_row \<Rightarrow> token_row list \<Rightarrow> token_row list" where
  "insert_token_row new rows =
     (if tk_event_key new \<in> set (map tk_event_key rows)
      then map (\<lambda>row. if tk_event_key row = tk_event_key new
                      then row\<lparr>tk_request_input_tokens :=
                        (case tk_request_input_tokens new of None \<Rightarrow> tk_request_input_tokens row | v \<Rightarrow> v)\<rparr>
                      else row) rows
      else rows @ [new])"

definition token_key_of :: "token_row \<Rightarrow> token_key" where
  "token_key_of r =
     (hour_bucket (tk_timestamp_ms r), key_sentinel (tk_model r), key_sentinel (tk_service_tier r))"

text \<open>The upsert of a rollup row adds its columns.\<close>

definition upsert_columns :: "'k \<Rightarrow> int list \<Rightarrow> ('k \<times> int list) list \<Rightarrow> ('k \<times> int list) list" where
  "upsert_columns k columns = hm_entry k (map (\<lambda>_. 0) columns) (\<lambda>v. map2 (+) v columns)"

definition store_token_events ::
    "token_history_point list \<Rightarrow> bool \<Rightarrow> session_tables \<Rightarrow> session_tables option" where
  "store_token_events events maintain_rollups t =
     (let k = next_event_index (tb_tokens t) in
      case (if list_ex (\<lambda>r. tk_request_input_tokens r = None) (tb_tokens t)
            then backfill_requests (take k events) (tb_tokens t) else Some (tb_tokens t)) of
        None \<Rightarrow> None
      | Some rows \<Rightarrow>
          (case collect_options (map (\<lambda>(i, e). token_row_of i e) (drop k (enumerate 0 events))) of
             None \<Rightarrow> None
           | Some new \<Rightarrow> Some (t\<lparr>
               tb_tokens := fold insert_token_row new rows,
               tb_token_rollup :=
                 (if maintain_rollups
                  then fold (\<lambda>r. upsert_columns (token_key_of r) (tk_columns r)) new (tb_token_rollup t)
                  else tb_token_rollup t)\<rparr>)))"

section \<open>Tool events\<close>

definition tool_outcome_str :: "tool_outcome \<Rightarrow> string" where
  "tool_outcome_str v =
     (case v of OutPending \<Rightarrow> ''pending'' | OutSuccess \<Rightarrow> ''success'' | OutFailure \<Rightarrow> ''failure''
      | OutUnknown \<Rightarrow> ''unknown'')"

definition tool_outcome_from_str :: "string \<Rightarrow> tool_outcome" where
  "tool_outcome_from_str v =
     (if v = ''pending'' then OutPending else if v = ''success'' then OutSuccess
      else if v = ''failure'' then OutFailure else OutUnknown)"

definition tool_kind_from_str :: "string \<Rightarrow> tool_kind" where
  "tool_kind_from_str v =
     (if v = ''read'' then KRead else if v = ''search'' then KSearch
      else if v = ''mutation'' then KMutation else if v = ''command'' then KCommand else KOther)"

text \<open>\<open>value as i64\<close>.\<close>

definition cast_i64 :: "u64 \<Rightarrow> int" where
  "cast_i64 v = sint v"

definition tool_row_of :: "tool_observation \<Rightarrow> tool_row option" where
  "tool_row_of ob =
     map_option (\<lambda>bytes.
       \<lparr>tw_timestamp_ms = timestamp_millis (o_timestamp ob), tw_model = o_model ob,
        tw_kind = tool_kind_as_str (o_kind ob), tw_outcome = tool_outcome_str (o_outcome ob),
        tw_turn_id = o_turn_id ob, tw_target = o_target ob, tw_duration_ms = map_option cast_i64 (o_duration_ms ob),
        tw_output_bytes = bytes, tw_origin = tool_origin_as_str (o_origin ob)\<rparr>)
       (to_i64 (o_output_bytes ob))"

definition store_tool_event_facts :: "tool_observation list \<Rightarrow> session_tables \<Rightarrow> session_tables option" where
  "store_tool_event_facts obs t =
     map_option (\<lambda>rows. t\<lparr>tb_tools := rows\<rparr>) (collect_options (map tool_row_of obs))"

definition dimension_entries :: "tool_observation \<Rightarrow> (string \<times> string) list" where
  "dimension_entries ob =
     map (Pair ''mcp_server'') (o_providers ob)
     @ (case o_shell_family ob of None \<Rightarrow> [] | Some f \<Rightarrow> [(''shell_family'', f)])
     @ (case o_language ob of None \<Rightarrow> [] | Some l \<Rightarrow> [(''language'', l)])"

definition dimension_rows_of :: "tool_observation \<Rightarrow> dimension_row option list" where
  "dimension_rows_of ob =
     map (\<lambda>(kind, v). map_option (\<lambda>bytes.
       \<lparr>dw_timestamp_ms = timestamp_millis (o_timestamp ob), dw_model = o_model ob, dw_kind = kind, dw_value = v,
        dw_outcome = tool_outcome_str (o_outcome ob), dw_output_bytes = bytes,
        dw_duration_ms = map_option cast_i64 (o_duration_ms ob)\<rparr>) (to_i64 (o_output_bytes ob)))
       (dimension_entries ob)"

definition store_tool_dimension_facts :: "tool_observation list \<Rightarrow> session_tables \<Rightarrow> session_tables option" where
  "store_tool_dimension_facts obs t =
     map_option (\<lambda>rows. t\<lparr>tb_dimensions := rows\<rparr>) (collect_options (concat (map dimension_rows_of obs)))"

definition observation_bucket :: "tool_observation \<Rightarrow> int" where
  "observation_bucket ob = hour_bucket (timestamp_millis (o_timestamp ob))"

definition hour_metrics :: "tool_observation list \<Rightarrow> (metric_key \<times> tool_metrics) list" where
  "hour_metrics obs =
     fold (\<lambda>ob. hm_entry (observation_bucket ob, key_sentinel (o_model ob)) default_metrics
       (\<lambda>c. accumulate_observation c ob)) obs []"

definition chain_key_of :: "tool_observation \<Rightarrow> chain_key" where
  "chain_key_of ob =
     (observation_bucket ob, key_sentinel (o_model ob), key_sentinel (o_turn_id ob), key_sentinel (o_target ob))"

definition hour_chains :: "tool_observation list \<Rightarrow> (chain_key \<times> u64) list" where
  "hour_chains obs =
     fold (\<lambda>ob. if o_kind ob = KMutation then hm_entry (chain_key_of ob) 0 (\<lambda>n. n + 1) else (\<lambda>m. m)) obs []"

definition hour_dimensions :: "tool_observation list \<Rightarrow> (dimension_key \<times> dimension_metrics) list" where
  "hour_dimensions obs =
     fold (\<lambda>ob. fold (\<lambda>(kind, v). hm_entry (observation_bucket ob, kind, v) default_dimension_metrics
         (accumulate_dimension_call (o_outcome ob) (o_output_bytes ob) (o_duration_ms ob)))
       (dimension_entries ob)) obs []"

text \<open>Writing a map of counters as rows.\<close>

definition rows_of_map :: "('v \<Rightarrow> 'c option) \<Rightarrow> ('k \<times> 'v) list \<Rightarrow> ('k \<times> 'c) list option" where
  "rows_of_map columns m = collect_options (map (\<lambda>(k, v). map_option (Pair k) (columns v)) m)"

definition store_tool_events ::
    "tool_observation list \<Rightarrow> bool \<Rightarrow> session_tables \<Rightarrow> session_tables option" where
  "store_tool_events obs maintain_rollups t =
     (case Option.bind (store_tool_event_facts obs t) (store_tool_dimension_facts obs) of
        None \<Rightarrow> None
      | Some t \<Rightarrow>
          if \<not> maintain_rollups then Some t
          else
            (case (rows_of_map dimension_columns (hour_dimensions obs),
                   rows_of_map metric_columns (hour_metrics obs), rows_of_map to_i64 (hour_chains obs)) of
               (Some ds, Some ms, Some cs) \<Rightarrow> Some
                 (t\<lparr>tb_metric_rollup := ms, tb_chain_rollup := cs, tb_dimension_rollup := ds\<rparr>)
             | _ \<Rightarrow> None))"

definition finding_row_of :: "optimization_finding \<Rightarrow> finding_row option" where
  "finding_row_of f =
     map_option (\<lambda>calls. \<lparr>fw_timestamp_ms = map_option timestamp_millis (f_timestamp f),
       fw_rule_id = f_rule_id f, fw_severity = f_severity f, fw_avoidable_calls = calls\<rparr>)
       (to_i64 (f_avoidable_calls f))"

definition store_finding_events :: "optimization_finding list \<Rightarrow> session_tables \<Rightarrow> session_tables option" where
  "store_finding_events found t =
     map_option (\<lambda>rows. t\<lparr>tb_findings := rows\<rparr>) (collect_options (map finding_row_of found))"

text \<open>What \<open>observe_one_in_transaction\<close> does when the facts of a session changed.\<close>

definition store_facts :: "session \<Rightarrow> bool \<Rightarrow> session_tables \<Rightarrow> session_tables option" where
  "store_facts s maintain_rollups t =
     Option.bind (Option.bind (store_token_events (s_tokens_history s) maintain_rollups t)
       (store_tool_events (s_tool_observations s) maintain_rollups))
       (store_finding_events (s_optimization_findings s))"

text \<open>A source observation never replaces a snapshot that holds more.\<close>

definition source_snapshot_is_monotonic :: "session \<Rightarrow> session \<Rightarrow> bool" where
  "source_snapshot_is_monotonic incoming current \<longleftrightarrow>
     length (s_tokens_history current) < length (s_tokens_history incoming)
     \<or> length (s_tokens_history incoming) = length (s_tokens_history current)
       \<and> s_last_event_at current \<le> s_last_event_at incoming
       \<and> \<not> (s_turns incoming = [] \<and> s_turns current \<noteq> [])"

record session_ledger =
  lg_stored :: "session option"
  lg_stale :: bool
  lg_tables :: session_tables

text \<open>What an observation does to the snapshot, the facts and the mark of deferred rollups. Whether the
  hashes of the snapshots agree is an argument: the encoding of a snapshot is not modelled.\<close>

definition observe_facts :: "bool \<Rightarrow> session \<Rightarrow> bool \<Rightarrow> session_ledger \<Rightarrow> session_ledger option" where
  "observe_facts same_hash incoming maintain_rollups l =
     (if same_hash \<or> (case lg_stored l of
           None \<Rightarrow> False | Some current \<Rightarrow> \<not> source_snapshot_is_monotonic incoming current)
      then Some l
      else map_option (\<lambda>t. \<lparr>lg_stored = Some incoming, lg_stale = (lg_stale l \<or> \<not> maintain_rollups), lg_tables = t\<rparr>)
             (store_facts incoming maintain_rollups (lg_tables l)))"

section \<open>Rebuilding the rollups\<close>

definition fits_i64 :: "int \<Rightarrow> bool" where
  "fits_i64 n \<longleftrightarrow> - (2 ^ 63) \<le> n \<and> n < 2 ^ 63"

text \<open>\<open>SUM\<close> over the rows of a group, column by column.\<close>

definition sum_step :: "int list \<Rightarrow> int list option \<Rightarrow> int list option" where
  "sum_step columns acc =
     (case acc of
        None \<Rightarrow> None
      | Some v \<Rightarrow> let w = map2 (+) v columns in if list_all fits_i64 w then Some w else None)"

definition sum_columns :: "nat \<Rightarrow> int list list \<Rightarrow> int list option" where
  "sum_columns n rows = fold sum_step rows (Some (replicate n 0))"

text \<open>\<open>SELECT key, SUM(..) .. GROUP BY key\<close>.\<close>

definition group_rows ::
    "nat \<Rightarrow> ('r \<Rightarrow> 'k) \<Rightarrow> ('r \<Rightarrow> int list) \<Rightarrow> 'r list \<Rightarrow> ('k \<times> int list) list option" where
  "group_rows n key columns rows =
     collect_options (map (\<lambda>k. map_option (Pair k)
       (sum_columns n (map columns (filter (\<lambda>r. key r = k) rows)))) (remdups (map key rows)))"

definition sql_bool :: "bool \<Rightarrow> int" where
  "sql_bool b = (if b then 1 else 0)"

definition tool_row_key :: "tool_row \<Rightarrow> metric_key" where
  "tool_row_key r = (hour_bucket (tw_timestamp_ms r), key_sentinel (tw_model r))"

definition tool_row_columns :: "tool_row \<Rightarrow> int list" where
  "tool_row_columns r =
     [1, sql_bool (tw_kind r = ''read''), sql_bool (tw_kind r = ''search''), sql_bool (tw_kind r = ''mutation''),
      sql_bool (tw_kind r = ''command''), sql_bool (tw_kind r = ''other''), sql_bool (tw_outcome r = ''success''),
      sql_bool (tw_outcome r = ''failure''), sql_bool (tw_outcome r \<notin> {''success'', ''failure''}),
      unwrap_or 0 (tw_duration_ms r), tw_output_bytes r, sql_bool (tw_origin r = ''core''),
      sql_bool (tw_origin r = ''mcp''), sql_bool (tw_origin r = ''provider''),
      sql_bool (tw_origin r \<notin> {''core'', ''mcp'', ''provider''})]"

definition chain_row_key :: "tool_row \<Rightarrow> chain_key" where
  "chain_row_key r =
     (hour_bucket (tw_timestamp_ms r), key_sentinel (tw_model r), key_sentinel (tw_turn_id r),
      key_sentinel (tw_target r))"

definition dimension_row_key :: "dimension_row \<Rightarrow> dimension_key" where
  "dimension_row_key r = (hour_bucket (dw_timestamp_ms r), dw_kind r, dw_value r)"

definition dimension_row_columns :: "dimension_row \<Rightarrow> int list" where
  "dimension_row_columns r =
     [1, sql_bool (dw_outcome r = ''failure''), dw_output_bytes r, unwrap_or 0 (dw_duration_ms r)]"

definition rebuild_tables :: "session_tables \<Rightarrow> session_tables option" where
  "rebuild_tables t =
     (case (group_rows 6 token_key_of tk_columns (tb_tokens t),
            group_rows 15 tool_row_key tool_row_columns (tb_tools t),
            group_rows 1 chain_row_key (\<lambda>_. [1]) (filter (\<lambda>r. tw_kind r = ''mutation'') (tb_tools t)),
            group_rows 4 dimension_row_key dimension_row_columns (tb_dimensions t)) of
        (Some ts, Some ms, Some cs, Some ds) \<Rightarrow> Some
          (t\<lparr>tb_token_rollup := ts, tb_metric_rollup := ms,
             tb_chain_rollup := map (\<lambda>(k, v). (k, hd v)) cs, tb_dimension_rollup := ds\<rparr>)
      | _ \<Rightarrow> None)"

text \<open>The rebuild at the end of a scan covers the sessions that deferred.\<close>

definition rebuild_if_stale :: "session_ledger \<Rightarrow> session_ledger option" where
  "rebuild_if_stale l =
     (if \<not> lg_stale l then Some l
      else map_option (\<lambda>t. l\<lparr>lg_stale := False, lg_tables := t\<rparr>) (rebuild_tables (lg_tables l)))"

end
