(* ===== verification/History_Ranges.thy ===== *)
theory History_Ranges
  imports History_Ledger
begin

text \<open>
  Windowed totals from the history store (\<open>src-tauri/src/history_store.rs\<close>, with the limits of
  \<open>query_control.rs\<close>): a window is split into the hours that lie in it, which the rollups answer, and
  at most two ranges of milliseconds at its ends, which the facts answer. Whether a query is cancelled
  or past its deadline at its \<open>n\<close>-th check is an argument.
\<close>

section \<open>Limits of a query\<close>

datatype query_error =
    QueryCancelled | DeadlineExceeded | RowLimit | SessionLimit | WindowLimit | CardinalityLimit
  | WindowReversed | BadRow | AccountingAmbiguous | AccountingUnverified

record query_limits =
  ql_max_sessions :: nat
  ql_max_windows :: nat
  ql_max_rows :: nat
  ql_stopped :: "nat \<Rightarrow> query_error option"

text \<open>The checks and the rows so far.\<close>

record query_state =
  qn_checks :: nat
  qn_rows :: nat

type_synonym 'a queried = "query_error + 'a \<times> query_state"

definition then_query :: "'a queried \<Rightarrow> ('a \<Rightarrow> query_state \<Rightarrow> 'b queried) \<Rightarrow> 'b queried" where
  "then_query r f = (case r of Inl e \<Rightarrow> Inl e | Inr (x, st) \<Rightarrow> f x st)"

definition query_check :: "query_limits \<Rightarrow> query_state \<Rightarrow> unit queried" where
  "query_check q st =
     (case ql_stopped q (qn_checks st) of
        Some e \<Rightarrow> Inl e
      | None \<Rightarrow> Inr ((), st\<lparr>qn_checks := Suc (qn_checks st)\<rparr>))"

definition consume_row :: "query_limits \<Rightarrow> query_state \<Rightarrow> unit queried" where
  "consume_row q st =
     then_query (query_check q st) (\<lambda>_ st.
       if ql_max_rows q \<le> qn_rows st then Inl RowLimit else Inr ((), st\<lparr>qn_rows := Suc (qn_rows st)\<rparr>))"

fun collect_bounded :: "query_limits \<Rightarrow> 'a option list \<Rightarrow> query_state \<Rightarrow> 'a list queried" where
  "collect_bounded q [] st = Inr ([], st)"
| "collect_bounded q (row # rows) st =
     then_query (consume_row q st) (\<lambda>_ st.
       case row of
         None \<Rightarrow> Inl BadRow
       | Some x \<Rightarrow> then_query (collect_bounded q rows st) (\<lambda>xs st. Inr (x # xs, st)))"

section \<open>Splitting a window\<close>

type_synonym ms_window = "int option \<times> int option"

record window_plan =
  wp_full_buckets :: "(int \<times> int) option"
  wp_edges :: "(int \<times> int) list"

definition min_i64 :: int where "min_i64 = - (2 ^ 63)"
definition max_i64 :: int where "max_i64 = 2 ^ 63 - 1"

definition first_full_bucket :: "int \<Rightarrow> int" where
  "first_full_bucket f = (if f mod hour_ms = 0 then hour_bucket f else hour_bucket f + 1)"

definition last_full_bucket :: "int \<Rightarrow> int" where
  "last_full_bucket t = (if (t + 1) mod hour_ms = 0 then hour_bucket t else hour_bucket t - 1)"

definition start_edge :: "int option \<Rightarrow> (int \<times> int) list" where
  "start_edge from =
     (case from of
        None \<Rightarrow> []
      | Some f \<Rightarrow>
          let boundary = first_full_bucket f * hour_ms in if f < boundary then [(f, boundary - 1)] else [])"

definition stop_edge :: "int option \<Rightarrow> (int \<times> int) list" where
  "stop_edge to =
     (case to of
        None \<Rightarrow> []
      | Some t \<Rightarrow>
          let boundary = (last_full_bucket t + 1) * hour_ms in if boundary \<le> t then [(boundary, t)] else [])"

definition plan_window :: "ms_window \<Rightarrow> window_plan" where
  "plan_window = (\<lambda>(from, to).
     case (from, to) of
       (Some f, Some t) \<Rightarrow>
         if t < f then \<lparr>wp_full_buckets = None, wp_edges = []\<rparr>
         else if last_full_bucket t < first_full_bucket f then \<lparr>wp_full_buckets = None, wp_edges = [(f, t)]\<rparr>
         else \<lparr>wp_full_buckets = Some (first_full_bucket f, last_full_bucket t),
               wp_edges = start_edge from @ stop_edge to\<rparr>
     | _ \<Rightarrow>
         \<lparr>wp_full_buckets = Some (case from of None \<Rightarrow> min_i64 | Some f \<Rightarrow> first_full_bucket f,
                                case to of None \<Rightarrow> max_i64 | Some t \<Rightarrow> last_full_bucket t),
          wp_edges = start_edge from @ stop_edge to\<rparr>)"

definition in_ranges :: "(int \<times> int) list \<Rightarrow> int \<Rightarrow> bool" where
  "in_ranges ranges v \<longleftrightarrow> list_ex (\<lambda>(a, b). a \<le> v \<and> v \<le> b) ranges"

section \<open>Rows as they are read\<close>

record dimension_edge_event =
  de_timestamp_ms :: int
  de_kind :: string
  de_value :: string
  de_outcome :: tool_outcome
  de_output_bytes :: u64
  de_duration_ms :: "u64 option"

record fetched_rows =
  fr_tokens :: "(token_key \<times> token_totals) list"
  fr_metrics :: "(metric_key \<times> tool_metrics) list"
  fr_chains :: "(chain_key \<times> u64) list"
  fr_dimensions :: "(dimension_key \<times> dimension_metrics) list"
  fr_edge_tokens :: "token_history_point list"
  fr_edge_tools :: "tool_observation list"
  fr_edge_dimensions :: "dimension_edge_event list"
  fr_findings :: "optimization_finding list"

text \<open>\<open>row.get::<_, i64>(i)? as u64\<close>.\<close>

definition read_u64 :: "int \<Rightarrow> u64 option" where
  "read_u64 n = (if fits_i64 n then Some (word_of_int n) else None)"

fun totals_of_columns :: "u64 list \<Rightarrow> token_totals" where
  "totals_of_columns [inp, cached, out, reasoning, tot, creation] =
     \<lparr>input_tokens = inp, cached_input_tokens = cached, cache_creation_input_tokens = creation,
      output_tokens = out, reasoning_output_tokens = reasoning, total_tokens = tot\<rparr>"
| "totals_of_columns _ = default_totals"

fun metrics_of_columns :: "u64 list \<Rightarrow> tool_metrics" where
  "metrics_of_columns [calls, reads, searches, mutations, commands, other, successes, failures, unknown,
       duration, bytes, core, mcp, provider, unknown_origin] =
     default_metrics\<lparr>m_calls := calls, m_reads := reads, m_searches := searches, m_mutations := mutations,
       m_commands := commands, m_other := other, m_successes := successes, m_failures := failures,
       m_unknown := unknown, m_duration_ms := duration, m_output_bytes := bytes,
       m_core_origin_calls := core, m_mcp_origin_calls := mcp, m_provider_origin_calls := provider,
       m_unknown_origin_calls := unknown_origin\<rparr>"
| "metrics_of_columns _ = default_metrics"

fun dimension_of_columns :: "u64 list \<Rightarrow> dimension_metrics" where
  "dimension_of_columns [calls, failures, bytes, duration] =
     default_dimension_metrics\<lparr>d_calls := calls, d_failures := failures, d_output_bytes := bytes,
       d_duration_ms := duration\<rparr>"
| "dimension_of_columns _ = default_dimension_metrics"

definition read_columns :: "(u64 list \<Rightarrow> 'v) \<Rightarrow> 'k \<times> int list \<Rightarrow> ('k \<times> 'v) option" where
  "read_columns value_of = (\<lambda>(k, columns).
     map_option (\<lambda>ws. (k, value_of ws)) (collect_options (map read_u64 columns)))"

definition read_chain :: "chain_key \<times> int \<Rightarrow> (chain_key \<times> u64) option" where
  "read_chain = (\<lambda>(k, n). map_option (Pair k) (read_u64 n))"

definition read_optional :: "int option \<Rightarrow> u64 option option" where
  "read_optional v = (case v of None \<Rightarrow> Some None | Some n \<Rightarrow> map_option Some (read_u64 n))"

text \<open>Every stored time came from a time of \<open>chrono\<close>, so it reads back.\<close>

definition time_of_ms :: "int \<Rightarrow> timestamp" where
  "time_of_ms ms = ms * 1000000"

definition read_token_row :: "token_row \<Rightarrow> token_history_point option" where
  "read_token_row r =
     (case (read_optional (tk_request_input_tokens r), read_u64 (tk_cumulative_total_tokens r),
            collect_options (map read_u64 (tk_columns r))) of
        (Some request, Some cumulative, Some columns) \<Rightarrow> Some
          \<lparr>h_timestamp = time_of_ms (tk_timestamp_ms r), h_model = tk_model r,
           h_service_tier = tk_service_tier r, h_request_input_tokens = request,
           h_total_tokens = cumulative, h_delta = totals_of_columns columns\<rparr>
      | _ \<Rightarrow> None)"

definition read_tool_row :: "tool_row \<Rightarrow> tool_observation option" where
  "read_tool_row r =
     (case (read_optional (tw_duration_ms r), read_u64 (tw_output_bytes r)) of
        (Some duration, Some bytes) \<Rightarrow> Some
          \<lparr>o_call_id = [], o_turn_id = tw_turn_id r, o_harness = codex_provider_id, o_model = tw_model r,
           o_timestamp = time_of_ms (tw_timestamp_ms r), o_kind = tool_kind_from_str (tw_kind r), o_name = [],
           o_providers = [], o_effective_tools = [], o_target = tw_target r, o_resource_id = None,
           o_origin = tool_origin_from_str_or_unknown (tw_origin r), o_shell_family = None, o_language = None,
           o_outcome = tool_outcome_from_str (tw_outcome r), o_duration_ms = duration, o_output_bytes = bytes\<rparr>
      | _ \<Rightarrow> None)"

definition read_dimension_row :: "dimension_row \<Rightarrow> dimension_edge_event option" where
  "read_dimension_row r =
     (case (read_optional (dw_duration_ms r), read_u64 (dw_output_bytes r)) of
        (Some duration, Some bytes) \<Rightarrow> Some
          \<lparr>de_timestamp_ms = dw_timestamp_ms r, de_kind = dw_kind r, de_value = dw_value r,
           de_outcome = tool_outcome_from_str (dw_outcome r), de_output_bytes = bytes,
           de_duration_ms = duration\<rparr>
      | _ \<Rightarrow> None)"

text \<open>The fields that are not stored have their defaults.\<close>

definition blank_finding :: optimization_finding where
  "blank_finding =
     \<lparr>f_version = 0, f_rule_id = [], f_severity = [], f_confidence = [], f_turn_id = None, f_model = None,
      f_timestamp = None, f_evidence = [], f_remediation = [], f_occurrences = 0, f_avoidable_calls = 0\<rparr>"

definition read_finding_row :: "finding_row \<Rightarrow> optimization_finding option" where
  "read_finding_row r =
     map_option (\<lambda>calls. blank_finding\<lparr>f_timestamp := map_option time_of_ms (fw_timestamp_ms r),
       f_rule_id := fw_rule_id r, f_severity := fw_severity r, f_avoidable_calls := calls\<rparr>)
       (read_u64 (fw_avoidable_calls r))"

section \<open>The totals of one window\<close>

definition in_ms_window :: "ms_window \<Rightarrow> int \<Rightarrow> bool" where
  "in_ms_window = (\<lambda>(from, to) ms.
     (case from of None \<Rightarrow> True | Some f \<Rightarrow> f \<le> ms) \<and> (case to of None \<Rightarrow> True | Some t \<Rightarrow> ms \<le> t))"

definition in_buckets :: "window_plan \<Rightarrow> int \<Rightarrow> bool" where
  "in_buckets plan b \<longleftrightarrow> (case wp_full_buckets plan of None \<Rightarrow> False | Some (lo, hi) \<Rightarrow> lo \<le> b \<and> b \<le> hi)"

text \<open>An event in the window that no rollup row counts.\<close>

definition edge_counts :: "ms_window \<Rightarrow> window_plan \<Rightarrow> int \<Rightarrow> bool" where
  "edge_counts w plan ms \<longleftrightarrow> in_ms_window w ms \<and> \<not> in_buckets plan (hour_bucket ms)"

definition add_token_row ::
    "window_plan \<Rightarrow> token_key \<times> token_totals
     \<Rightarrow> token_totals \<times> ((string \<times> string option) \<times> token_totals) list
     \<Rightarrow> token_totals \<times> ((string \<times> string option) \<times> token_totals) list" where
  "add_token_row plan = (\<lambda>((bucket, model, tier), delta) (tokens, m).
     if \<not> in_buckets plan bucket then (tokens, m)
     else (add_totals tokens delta,
       if model = [] then m
       else tm_entry (model, sentinel_to_option tier) default_totals (\<lambda>v. add_totals v delta) m))"

definition add_edge_token ::
    "ms_window \<Rightarrow> window_plan \<Rightarrow> token_history_point
     \<Rightarrow> token_totals \<times> ((string \<times> string option) \<times> token_totals) list
     \<Rightarrow> token_totals \<times> ((string \<times> string option) \<times> token_totals) list" where
  "add_edge_token w plan point = (\<lambda>(tokens, m).
     if \<not> edge_counts w plan (timestamp_millis (h_timestamp point)) then (tokens, m)
     else (add_totals tokens (h_delta point),
       case h_model point of
         None \<Rightarrow> m
       | Some model \<Rightarrow> tm_entry (model, h_service_tier point) default_totals
           (\<lambda>v. add_totals v (h_delta point)) m))"

type_synonym counter_maps = "tool_metrics \<times> (string \<times> tool_metrics) list"
type_synonym chain_counts = "((string \<times> string) \<times> u64) list"
type_synonym chain_maps = "chain_counts \<times> (string \<times> chain_counts) list"

definition add_metric_row :: "window_plan \<Rightarrow> metric_key \<times> tool_metrics \<Rightarrow> counter_maps \<Rightarrow> counter_maps" where
  "add_metric_row plan = (\<lambda>((bucket, model), counted) (all, by_model).
     if \<not> in_buckets plan bucket then (all, by_model)
     else (metrics_add_assign all counted,
       if model = [] then by_model
       else tm_entry model default_metrics (\<lambda>c. metrics_add_assign c counted) by_model))"

definition add_chain_row :: "window_plan \<Rightarrow> chain_key \<times> u64 \<Rightarrow> chain_maps \<Rightarrow> chain_maps" where
  "add_chain_row plan = (\<lambda>((bucket, model, turn, target), n) (all, by_model).
     if \<not> in_buckets plan bucket then (all, by_model)
     else (hm_entry (turn, target) 0 (\<lambda>c. c + n) all,
       if model = [] then by_model
       else tm_entry model [] (hm_entry (turn, target) 0 (\<lambda>c. c + n)) by_model))"

definition add_edge_tool ::
    "ms_window \<Rightarrow> window_plan \<Rightarrow> tool_observation \<Rightarrow> counter_maps \<times> chain_maps \<Rightarrow> counter_maps \<times> chain_maps" where
  "add_edge_tool w plan item = (\<lambda>((all, by_model), (all_chain, by_model_chain)).
     if \<not> edge_counts w plan (timestamp_millis (o_timestamp item)) then ((all, by_model), (all_chain, by_model_chain))
     else
       let chain_key = (unwrap_or [] (o_turn_id item), unwrap_or [] (o_target item));
           mutation = (o_kind item = KMutation)
       in ((accumulate_observation all item,
            case o_model item of
              None \<Rightarrow> by_model
            | Some model \<Rightarrow> tm_entry model default_metrics (\<lambda>c. accumulate_observation c item) by_model),
           (if mutation then hm_entry chain_key 0 (\<lambda>c. c + 1) all_chain else all_chain,
            case o_model item of
              None \<Rightarrow> by_model_chain
            | Some model \<Rightarrow>
                if mutation then tm_entry model [] (hm_entry chain_key 0 (\<lambda>c. c + 1)) by_model_chain
                else by_model_chain)))"

definition finish_chain :: "tool_metrics \<Rightarrow> chain_counts \<Rightarrow> tool_metrics" where
  "finish_chain counted m =
     (case mutation_chain_fields (map snd m) of
        (mutation_targets, one_shot_mutations, retry_count) \<Rightarrow>
          counted\<lparr>m_mutation_targets := mutation_targets, m_one_shot_mutations := one_shot_mutations,
            m_retry_count := retry_count\<rparr>)"

type_synonym dimension_maps = "(string \<times> (string \<times> dimension_metrics) list) list"

definition add_dimension_row ::
    "window_plan \<Rightarrow> dimension_key \<times> dimension_metrics \<Rightarrow> dimension_maps \<Rightarrow> dimension_maps" where
  "add_dimension_row plan = (\<lambda>((bucket, kind, v), counted) m.
     if \<not> in_buckets plan bucket then m
     else tm_entry kind [] (tm_entry v default_dimension_metrics (\<lambda>d. dimension_metrics_add_assign d counted)) m)"

definition add_edge_dimension ::
    "ms_window \<Rightarrow> window_plan \<Rightarrow> dimension_edge_event \<Rightarrow> dimension_maps \<Rightarrow> dimension_maps" where
  "add_edge_dimension w plan ev m =
     (if \<not> edge_counts w plan (de_timestamp_ms ev) then m
      else tm_entry (de_kind ev) [] (tm_entry (de_value ev) default_dimension_metrics
        (accumulate_dimension_call (de_outcome ev) (de_output_bytes ev) (de_duration_ms ev))) m)"

definition add_context_sources :: "token_totals \<Rightarrow> dimension_maps \<Rightarrow> dimension_maps" where
  "add_context_sources tokens m =
     fold (\<lambda>(v, n). tm_entry ''context_source'' [] (tm_entry v default_dimension_metrics
       (\<lambda>_. default_dimension_metrics\<lparr>d_tokens := n\<rparr>))) (context_source_breakdown tokens) m"

definition finding_in_window :: "ms_window \<Rightarrow> optimization_finding \<Rightarrow> bool" where
  "finding_in_window w f =
     (case f_timestamp f of
        Some t \<Rightarrow> in_ms_window w (timestamp_millis t)
      | None \<Rightarrow> fst w = None \<and> snd w = None)"

definition compute_range_totals :: "ms_window \<Rightarrow> window_plan \<Rightarrow> fetched_rows \<Rightarrow> 'p range_totals_t" where
  "compute_range_totals w plan rows =
     (let (tokens, m) = fold (add_edge_token w plan) (fr_edge_tokens rows)
            (fold (add_token_row plan) (fr_tokens rows) (default_totals, []));
          ((all, by_model), (all_chain, by_model_chain)) = fold (add_edge_tool w plan) (fr_edge_tools rows)
            (fold (add_metric_row plan) (fr_metrics rows) (default_metrics, []),
             fold (add_chain_row plan) (fr_chains rows) ([], []));
          selected = filter (finding_in_window w) (fr_findings rows);
          dimensions = fold (add_edge_dimension w plan) (fr_edge_dimensions rows)
            (fold (add_dimension_row plan) (fr_dimensions rows) [])
      in \<lparr>r_pricing = None,
          r_tokens = tokens,
          r_buckets = sort_buckets (map (\<lambda>((model, tier), v).
            \<lparr>b_model = model, b_service_tier = tier, b_tokens = v\<rparr>) m),
          r_tool_metrics = finish_chain all all_chain,
          r_tool_metrics_by_model = map (\<lambda>(model, counted).
            (model, finish_chain counted (unwrap_or [] (map_of by_model_chain model)))) by_model,
          r_optimization_findings_count = word_of_nat (length selected),
          r_optimization_summary = optimization_summary_from_findings selected,
          r_tool_dimensions = add_context_sources tokens dimensions\<rparr>)"

section \<open>The query\<close>

record window_batch =
  wb_windows :: "ms_window list"
  wb_plans :: "window_plan list"
  wb_edges :: "(int \<times> int) list"
  wb_buckets :: "(int \<times> int) list"

definition batch_of :: "range_window list \<Rightarrow> window_batch" where
  "batch_of windows =
     (let ws = map (\<lambda>(from, to). (map_option timestamp_millis from, map_option timestamp_millis to)) windows;
          plans = map plan_window ws
      in \<lparr>wb_windows = ws, wb_plans = plans, wb_edges = remdups (concat (map wp_edges plans)),
          wb_buckets = filter_map wp_full_buckets plans\<rparr>)"

definition finding_wanted :: "window_batch \<Rightarrow> finding_row \<Rightarrow> bool" where
  "finding_wanted b r \<longleftrightarrow>
     (case fw_timestamp_ms r of
        None \<Rightarrow> (None, None) \<in> set (wb_windows b)
      | Some ms \<Rightarrow> in_ranges (map (\<lambda>(from, to). (unwrap_or min_i64 from, unwrap_or max_i64 to)) (wb_windows b)) ms)"

definition fetch_rows :: "query_limits \<Rightarrow> window_batch \<Rightarrow> session_tables \<Rightarrow> query_state \<Rightarrow> fetched_rows queried" where
  "fetch_rows q b t st =
     then_query (collect_bounded q (map (read_columns totals_of_columns)
       (filter (\<lambda>((h, _), _). in_ranges (wb_buckets b) h) (tb_token_rollup t))) st) (\<lambda>tokens st.
     then_query (collect_bounded q (map (read_columns metrics_of_columns)
       (filter (\<lambda>((h, _), _). in_ranges (wb_buckets b) h) (tb_metric_rollup t))) st) (\<lambda>ms st.
     then_query (collect_bounded q (map read_chain
       (filter (\<lambda>((h, _), _). in_ranges (wb_buckets b) h) (tb_chain_rollup t))) st) (\<lambda>cs st.
     then_query (collect_bounded q (map (read_columns dimension_of_columns)
       (filter (\<lambda>((h, _), _). in_ranges (wb_buckets b) h) (tb_dimension_rollup t))) st) (\<lambda>ds st.
     then_query (collect_bounded q (map read_token_row
       (sort_key (\<lambda>r. (tk_timestamp_ms r, tk_event_index r))
         (filter (\<lambda>r. in_ranges (wb_edges b) (tk_timestamp_ms r)) (tb_tokens t)))) st) (\<lambda>edge_tokens st.
     then_query (collect_bounded q (map read_tool_row
       (sort_key tw_timestamp_ms (filter (\<lambda>r. in_ranges (wb_edges b) (tw_timestamp_ms r)) (tb_tools t)))) st)
       (\<lambda>edge_tools st.
     then_query (collect_bounded q (map read_dimension_row
       (sort_key dw_timestamp_ms (filter (\<lambda>r. in_ranges (wb_edges b) (dw_timestamp_ms r)) (tb_dimensions t)))) st)
       (\<lambda>edge_dimensions st.
     then_query (collect_bounded q (map read_finding_row (filter (finding_wanted b) (tb_findings t))) st)
       (\<lambda>found st. Inr
         (\<lparr>fr_tokens = tokens, fr_metrics = ms, fr_chains = cs, fr_dimensions = ds, fr_edge_tokens = edge_tokens,
           fr_edge_tools = edge_tools, fr_edge_dimensions = edge_dimensions, fr_findings = found\<rparr>, st)))))))))"

definition range_has_data :: "'p range_totals_t \<Rightarrow> bool" where
  "range_has_data r \<longleftrightarrow> total_tokens (r_tokens r) \<noteq> 0 \<or> m_calls (r_tool_metrics r) \<noteq> 0"

type_synonym 'p window_results = "(string \<times> 'p range_totals_t) list list"

definition add_session_ranges ::
    "string \<Rightarrow> window_batch \<Rightarrow> fetched_rows \<Rightarrow> 'p window_results \<Rightarrow> 'p window_results" where
  "add_session_ranges key b rows out =
     map2 (\<lambda>(w, plan) m.
       let range = compute_range_totals w plan rows in
       if range_has_data range then hm_entry key range (\<lambda>_. range) m else m)
       (zip (wb_windows b) (wb_plans b)) out"

fun range_totals_of_keys ::
    "query_limits \<Rightarrow> (string \<Rightarrow> session_tables) \<Rightarrow> window_batch \<Rightarrow> string list \<Rightarrow> 'p window_results \<Rightarrow> query_state
     \<Rightarrow> 'p window_results queried" where
  "range_totals_of_keys q tables b [] out st = Inr (out, st)"
| "range_totals_of_keys q tables b (key # keys) out st =
     then_query (query_check q st) (\<lambda>_ st.
     then_query (fetch_rows q b (tables key) st) (\<lambda>rows st.
       range_totals_of_keys q tables b keys (add_session_ranges key b rows out) st))"

definition range_totals_multi_on ::
    "query_limits \<Rightarrow> (string \<Rightarrow> session_tables) \<Rightarrow> string list \<Rightarrow> range_window list \<Rightarrow> query_state
     \<Rightarrow> 'p window_results queried" where
  "range_totals_multi_on q tables keys windows st =
     then_query (query_check q st) (\<lambda>_ st.
       if ql_max_sessions q < length keys then Inl SessionLimit
       else if ql_max_windows q < length windows then Inl WindowLimit
       else if ql_max_rows q < length keys * length windows then Inl CardinalityLimit
       else if list_ex (\<lambda>(from, to). case (from, to) of (Some f, Some t) \<Rightarrow> t < f | _ \<Rightarrow> False) windows
         then Inl WindowReversed
       else range_totals_of_keys q tables (batch_of windows) keys (map (\<lambda>_. []) windows) st)"

end
