(* ===== verification/History_Ledger_Facts.thy ===== *)
theory History_Ledger_Facts
  imports History_Ranges
begin

text \<open>
  The ledger answers windowed queries as the session in memory does: the hours and edges of a window
  partition it, the rollup rows are the sums of the facts with their key, however they were written, and
  every accumulator of \<open>compute_range_totals\<close> depends on the sums only.
\<close>

section \<open>The hours and the edges of a window\<close>

definition nonneg_window :: "ms_window \<Rightarrow> bool" where
  "nonneg_window w \<longleftrightarrow> pred_option ((\<le>) 0) (fst w) \<and> pred_option ((\<le>) 0) (snd w)"

lemma hour_bucket_nonneg: "0 \<le> ms \<Longrightarrow> hour_bucket ms = ms div hour_ms"
  by (simp add: hour_bucket_def)

text \<open>Splitting a time into its hour and the rest leaves linear arithmetic.\<close>

lemma hour_split:
  obtains q r :: int where "x = q * 3600000 + r" "0 \<le> r" "r < 3600000" "x div hour_ms = q" "x mod hour_ms = r"
proof
  show "x = x div 3600000 * 3600000 + x mod 3600000" by simp
qed (simp_all add: hour_ms_def)

lemma hour_unique:
  assumes "x = q * 3600000 + r" "0 \<le> r" "r < (3600000 :: int)"
  shows "x div hour_ms = q" "x mod hour_ms = r"
proof -
  obtain q' r' where q': "x = q' * 3600000 + r'" "0 \<le> r'" "r' < 3600000" "x div hour_ms = q'" "x mod hour_ms = r'"
    by (rule hour_split)
  with assms have "q' = q" by linarith
  with assms q' show "x div hour_ms = q" "x mod hour_ms = r" by auto
qed

lemma hour_le: "n \<le> ms div hour_ms \<longleftrightarrow> n * hour_ms \<le> ms" for n :: int
proof -
  obtain q r where q: "ms = q * 3600000 + r" "0 \<le> r" "r < 3600000" "ms div hour_ms = q" by (rule hour_split)
  show ?thesis unfolding q(4) using q(1-3) unfolding hour_ms_def by linarith
qed

lemma hour_less: "ms div hour_ms \<le> n \<longleftrightarrow> ms < (n + 1) * hour_ms" for n :: int
proof -
  obtain q r where q: "ms = q * 3600000 + r" "0 \<le> r" "r < 3600000" "ms div hour_ms = q" by (rule hour_split)
  show ?thesis unfolding q(4) using q(1-3) unfolding hour_ms_def by (auto simp: distrib_right)
qed

lemma first_full_bucket:
  assumes "0 \<le> f"
  shows "f \<le> first_full_bucket f * hour_ms" "first_full_bucket f * hour_ms < f + hour_ms"
proof -
  obtain q r where q: "f = q * 3600000 + r" "0 \<le> r" "r < 3600000" "f div hour_ms = q" "f mod hour_ms = r"
    by (rule hour_split)
  have "first_full_bucket f = (if r = 0 then q else q + 1)"
    using assms q(4,5) by (simp add: first_full_bucket_def hour_bucket_nonneg)
  with q(1-3) show "f \<le> first_full_bucket f * hour_ms" "first_full_bucket f * hour_ms < f + hour_ms"
    unfolding hour_ms_def by auto
qed

lemma last_full_bucket:
  assumes "0 \<le> t"
  shows "(last_full_bucket t + 1) * hour_ms \<le> t + 1" "t + 1 < (last_full_bucket t + 2) * hour_ms"
proof -
  obtain q r where q: "t = q * 3600000 + r" "0 \<le> r" "r < 3600000" "t div hour_ms = q" "t mod hour_ms = r"
    by (rule hour_split)
  have "(t + 1) mod hour_ms = (if r = 3599999 then 0 else r + 1)"
    using q(1-3) hour_unique(2)[of "t + 1" "q + 1" 0] hour_unique(2)[of "t + 1" q "r + 1"] by auto
  then have "last_full_bucket t = (if r = 3599999 then q else q - 1)"
    using assms q(2,4) by (auto simp: last_full_bucket_def hour_bucket_nonneg)
  with q(1-3) show "(last_full_bucket t + 1) * hour_ms \<le> t + 1" "t + 1 < (last_full_bucket t + 2) * hour_ms"
    unfolding hour_ms_def by auto
qed

text \<open>The hours of the plan lie in the window, and what the hours leave out is in an edge.\<close>

lemma plan_hours:
  assumes "0 \<le> ms" "nonneg_window w" "in_buckets (plan_window w) (hour_bucket ms)"
  shows "in_ms_window w ms"
proof -
  obtain from' to' where w: "w = (from', to')" by (cases w)
  have low: "f \<le> ms" if "0 \<le> f" "first_full_bucket f \<le> ms div hour_ms" for f
    using first_full_bucket(1)[OF that(1)] that(2) unfolding hour_le by linarith
  have high: "ms \<le> t" if "0 \<le> t" "ms div hour_ms \<le> last_full_bucket t" for t
    using last_full_bucket(1)[OF that(1)] that(2) unfolding hour_less by linarith
  show ?thesis
    using assms unfolding w
    by (cases from'; cases to')
      (auto simp: plan_window_def in_buckets_def in_ms_window_def nonneg_window_def hour_bucket_nonneg
        split: if_splits intro: low high)
qed

lemma in_ranges_append [simp]: "in_ranges (xs @ ys) v \<longleftrightarrow> in_ranges xs v \<or> in_ranges ys v"
  by (simp add: in_ranges_def)

lemma start_edge_in: "f \<le> ms \<Longrightarrow> \<not> first_full_bucket f \<le> ms div hour_ms \<Longrightarrow> in_ranges (start_edge (Some f)) ms"
  by (auto simp: start_edge_def in_ranges_def Let_def hour_le)

lemma stop_edge_in: "ms \<le> t \<Longrightarrow> \<not> ms div hour_ms \<le> last_full_bucket t \<Longrightarrow> in_ranges (stop_edge (Some t)) ms"
  by (auto simp: stop_edge_def in_ranges_def Let_def hour_less)

lemma plan_edges:
  assumes "0 \<le> ms" "ms \<le> max_i64" "edge_counts w (plan_window w) ms"
  shows "in_ranges (wp_edges (plan_window w)) ms"
proof -
  obtain from' to' where w: "w = (from', to')" by (cases w)
  have bounds: "min_i64 \<le> ms div hour_ms" "ms div hour_ms \<le> max_i64"
    using assms(1,2) by (auto simp: min_i64_def max_i64_def hour_ms_def)
  have covered: "from' = Some f \<and> \<not> first_full_bucket f \<le> ms div hour_ms \<Longrightarrow> ?thesis" for f
    using assms(3) start_edge_in[of f ms]
    by (cases to') (auto simp: w plan_window_def edge_counts_def in_ms_window_def in_ranges_def)
  moreover have "to' = Some t \<and> \<not> ms div hour_ms \<le> last_full_bucket t \<Longrightarrow> ?thesis" for t
    using assms(3) stop_edge_in[of ms t]
    by (cases from') (auto simp: w plan_window_def edge_counts_def in_ms_window_def in_ranges_def)
  moreover have "(\<exists>f t. from' = Some f \<and> to' = Some t \<and> last_full_bucket t < first_full_bucket f) \<Longrightarrow> ?thesis"
    using assms(3)
    by (auto simp: w plan_window_def edge_counts_def in_ms_window_def in_ranges_def)
  moreover have "(\<exists>f. from' = Some f \<and> \<not> first_full_bucket f \<le> ms div hour_ms)
      \<or> (\<exists>t. to' = Some t \<and> \<not> ms div hour_ms \<le> last_full_bucket t)
      \<or> (\<exists>f t. from' = Some f \<and> to' = Some t \<and> last_full_bucket t < first_full_bucket f)"
    using assms(1,3) bounds
    by (cases from'; cases to')
      (auto simp: w plan_window_def edge_counts_def in_buckets_def in_ms_window_def hour_bucket_nonneg
        split: if_splits)
  ultimately show ?thesis by blast
qed

lemma plan_partition:
  assumes "0 \<le> ms" "nonneg_window w"
  shows "in_ms_window w ms \<longleftrightarrow> in_buckets (plan_window w) (hour_bucket ms) \<or> edge_counts w (plan_window w) ms"
  using plan_hours[OF assms] by (auto simp: edge_counts_def)

section \<open>Rows that are sums\<close>

definition grouped :: "('i \<Rightarrow> 'k) \<Rightarrow> ('i \<Rightarrow> 'v::comm_monoid_add) \<Rightarrow> 'i list \<Rightarrow> ('k \<times> 'v) list \<Rightarrow> bool" where
  "grouped key val items m \<longleftrightarrow>
     distinct (map fst m) \<and> fst ` set m = key ` set items
     \<and> (\<forall>(k, v)\<in>set m. v = (\<Sum>i\<leftarrow>filter (\<lambda>i. key i = k) items. val i))"

lemma grouped_key: "grouped key val items m \<Longrightarrow> (\<exists>x\<in>set m. P (fst x)) \<longleftrightarrow> (\<exists>i\<in>set items. P (key i))"
  by (auto simp: grouped_def) (metis image_eqI image_iff fst_conv)+

lemma grouped_filter: "grouped key val items m \<Longrightarrow>
    grouped key val (filter (\<lambda>i. P (key i)) items) (filter (\<lambda>x. P (fst x)) m)"
proof -
  assume g: "grouped key val items m"
  have "fst ` set (filter (\<lambda>x. P (fst x)) m) = {k \<in> fst ` set m. P k}" by auto
  moreover have "key ` set (filter (\<lambda>i. P (key i)) items) = {k \<in> key ` set items. P k}" by auto
  ultimately have "fst ` set (filter (\<lambda>x. P (fst x)) m) = key ` set (filter (\<lambda>i. P (key i)) items)"
    using g by (simp add: grouped_def)
  moreover have "filter (\<lambda>i. key i = k) (filter (\<lambda>i. P (key i)) items) = filter (\<lambda>i. key i = k) items" if "P k" for k
    using that by (auto intro!: filter_cong)
  ultimately show ?thesis
    using g by (fastforce simp: grouped_def distinct_map_filter simp del: filter_filter)
qed

lemma sum_groups:
  fixes val :: "'i \<Rightarrow> 'v::comm_monoid_add"
  assumes "distinct ks"
  shows "(\<Sum>k\<leftarrow>ks. \<Sum>i\<leftarrow>filter (\<lambda>i. key i = k) items. val i) = (\<Sum>i\<leftarrow>filter (\<lambda>i. key i \<in> set ks) items. val i)"
  using assms
proof (induction ks)
  case (Cons k ks)
  have "(\<Sum>i\<leftarrow>filter (\<lambda>i. key i = k \<or> key i \<in> set ks) xs. val i)
      = (\<Sum>i\<leftarrow>filter (\<lambda>i. key i = k) xs. val i) + (\<Sum>i\<leftarrow>filter (\<lambda>i. key i \<in> set ks) xs. val i)" for xs
    using Cons.prems by (induction xs) (auto simp: ac_simps)
  with Cons show ?case by simp
qed simp

lemma grouped_sum:
  assumes "grouped key val items m"
  shows "(\<Sum>x\<leftarrow>m. snd x) = (\<Sum>i\<leftarrow>items. val i)"
proof -
  have "(\<Sum>x\<leftarrow>m. snd x) = (\<Sum>k\<leftarrow>map fst m. \<Sum>i\<leftarrow>filter (\<lambda>i. key i = k) items. val i)"
    using assms by (auto simp: grouped_def comp_def intro!: arg_cong[of _ _ sum_list] map_cong)
  also have "\<dots> = (\<Sum>i\<leftarrow>filter (\<lambda>i. key i \<in> set (map fst m)) items. val i)"
    using assms by (intro sum_groups) (simp add: grouped_def)
  also have "filter (\<lambda>i. key i \<in> set (map fst m)) items = items"
    using assms by (simp add: grouped_def)
  finally show ?thesis .
qed

lemma grouped_sum_filter:
  "grouped key val items m \<Longrightarrow>
    (\<Sum>x\<leftarrow>filter (\<lambda>x. P (fst x)) m. snd x) = (\<Sum>i\<leftarrow>filter (\<lambda>i. P (key i)) items. val i)"
  using grouped_sum[OF grouped_filter] .

section \<open>Tallies\<close>

text \<open>Contributions counted by key.\<close>

definition tally :: "('k::linorder \<times> 'v::comm_monoid_add) list \<Rightarrow> ('k \<times> 'v) list" where
  "tally xs = fold (\<lambda>x. tm_entry (fst x) 0 (\<lambda>c. c + snd x)) xs []"

definition contribution :: "('k \<times> 'v::comm_monoid_add) list \<Rightarrow> 'k \<Rightarrow> 'v option" where
  "contribution xs k =
     (if k \<in> fst ` set xs then Some (\<Sum>x\<leftarrow>filter (\<lambda>x. fst x = k) xs. snd x) else None)"

lemma tally_inv: "tm_inv (tally xs)"
  unfolding tally_def by (rule tm.fold_invar) (simp add: tm_inv_def)

lemma tally_lookup: "map_of (tally xs) = contribution xs"
  by (rule ext) (auto simp: tally_def contribution_def tm.fold_lookup tm_inv_def fold_plus image_iff)

lemma tally_cong: "contribution xs = contribution ys \<Longrightarrow> tally xs = tally ys"
  by (rule tm_unique) (simp_all add: tally_inv tally_lookup)

text \<open>Contributions of rollup rows and of facts that the rows are sums of.\<close>

lemma mapped_key: "k \<in> fst ` set (map (\<lambda>x. (h x, w x)) (filter Q xs)) \<longleftrightarrow> (\<exists>x\<in>set xs. Q x \<and> k = h x)"
  by (auto simp: image_image)

lemma grouped_contribution:
  assumes "grouped key val items m"
  shows "contribution (map (\<lambda>x. (f (fst x), snd x)) (filter (\<lambda>x. P (fst x)) m))
    = contribution (map (\<lambda>i. (f (key i), val i)) (filter (\<lambda>i. P (key i)) items))"
proof
  fix k
  have "k \<in> fst ` set (map (\<lambda>x. (f (fst x), snd x)) (filter (\<lambda>x. P (fst x)) m))
      \<longleftrightarrow> (\<exists>x\<in>set m. P (fst x) \<and> k = f (fst x))" by (rule mapped_key)
  also have "\<dots> \<longleftrightarrow> (\<exists>i\<in>set items. P (key i) \<and> k = f (key i))"
    using grouped_key[OF assms, of "\<lambda>a. P a \<and> k = f a"] by simp
  finally have dom: "k \<in> fst ` set (map (\<lambda>x. (f (fst x), snd x)) (filter (\<lambda>x. P (fst x)) m))
      \<longleftrightarrow> k \<in> fst ` set (map (\<lambda>i. (f (key i), val i)) (filter (\<lambda>i. P (key i)) items))"
    unfolding mapped_key .
  have "(\<Sum>x\<leftarrow>filter (\<lambda>x. fst x = k) (map (\<lambda>x. (f (fst x), snd x)) (filter (\<lambda>x. P (fst x)) m)). snd x)
      = (\<Sum>x\<leftarrow>filter (\<lambda>x. P (fst x) \<and> f (fst x) = k) m. snd x)"
    by (simp add: filter_map comp_def conj_commute)
  also have "\<dots> = (\<Sum>i\<leftarrow>filter (\<lambda>i. P (key i) \<and> f (key i) = k) items. val i)"
    by (rule grouped_sum_filter[OF assms, of "\<lambda>a. P a \<and> f a = k"])
  also have "\<dots> = (\<Sum>x\<leftarrow>filter (\<lambda>x. fst x = k) (map (\<lambda>i. (f (key i), val i)) (filter (\<lambda>i. P (key i)) items)). snd x)"
    by (simp add: filter_map comp_def conj_commute)
  finally show "contribution (map (\<lambda>x. (f (fst x), snd x)) (filter (\<lambda>x. P (fst x)) m)) k
      = contribution (map (\<lambda>i. (f (key i), val i)) (filter (\<lambda>i. P (key i)) items)) k"
    unfolding contribution_def by (simp only: dom)
qed

text \<open>Two disjoint selections that make up a third.\<close>

lemma sum_split:
  fixes g :: "'i \<Rightarrow> 'v::comm_monoid_add"
  assumes "\<And>i. i \<in> set xs \<Longrightarrow> R i \<longleftrightarrow> P i \<or> Q i" "\<And>i. i \<in> set xs \<Longrightarrow> \<not> (P i \<and> Q i)"
  shows "(\<Sum>i\<leftarrow>filter P xs. g i) + (\<Sum>i\<leftarrow>filter Q xs. g i) = (\<Sum>i\<leftarrow>filter R xs. g i)"
  using assms
proof (induction xs)
  case (Cons x xs)
  from Cons.prems have ih: "(\<Sum>i\<leftarrow>filter P xs. g i) + (\<Sum>i\<leftarrow>filter Q xs. g i) = (\<Sum>i\<leftarrow>filter R xs. g i)"
    by (intro Cons.IH) auto
  show ?case
    using Cons.prems(1)[of x] Cons.prems(2)[of x] ih[symmetric] by (auto simp: ac_simps)
qed simp

lemma contribution_split:
  assumes "\<And>i. i \<in> set xs \<Longrightarrow> R i \<longleftrightarrow> P i \<or> Q i" "\<And>i. i \<in> set xs \<Longrightarrow> \<not> (P i \<and> Q i)"
  shows "contribution (map g (filter P xs) @ map g (filter Q xs)) = contribution (map g (filter R xs))"
proof
  fix k
  have "(\<Sum>x\<leftarrow>filter (\<lambda>x. fst x = k) (map g (filter P' xs)). snd x)
      = (\<Sum>i\<leftarrow>filter P' (filter (\<lambda>i. fst (g i) = k) xs). snd (g i))" for P'
    by (simp add: filter_map comp_def conj_commute)
  moreover have "(\<Sum>i\<leftarrow>filter P (filter (\<lambda>i. fst (g i) = k) xs). snd (g i))
        + (\<Sum>i\<leftarrow>filter Q (filter (\<lambda>i. fst (g i) = k) xs). snd (g i))
      = (\<Sum>i\<leftarrow>filter R (filter (\<lambda>i. fst (g i) = k) xs). snd (g i))"
    by (rule sum_split) (use assms in auto)
  moreover have "set (map g (filter P xs) @ map g (filter Q xs)) = set (map g (filter R xs))"
    using assms by auto
  ultimately show "contribution (map g (filter P xs) @ map g (filter Q xs)) k = contribution (map g (filter R xs)) k"
    unfolding contribution_def by simp
qed

lemma contribution_mset: "mset xs = mset ys \<Longrightarrow> contribution xs = contribution ys"
proof
  fix k
  assume m: "mset xs = mset ys"
  then have "mset (map snd (filter (\<lambda>x. fst x = k) xs)) = mset (map snd (filter (\<lambda>x. fst x = k) ys))"
    by (simp add: mset_filter)
  then have "(\<Sum>x\<leftarrow>filter (\<lambda>x. fst x = k) xs. snd x) = (\<Sum>x\<leftarrow>filter (\<lambda>x. fst x = k) ys. snd x)"
    using sum_mset_sum_list by metis
  with mset_eq_setD[OF m] show "contribution xs k = contribution ys k"
    unfolding contribution_def by simp
qed

section \<open>Counters as monoids\<close>

text \<open>\<open>add_assign\<close> of both counter types is the addition of a commutative monoid, and counting one call
  adds to it.\<close>

instantiation tool_metrics_ext :: (comm_monoid_add) comm_monoid_add
begin

definition zero_tool_metrics_ext :: "'a tool_metrics_scheme" where
  "zero_tool_metrics_ext =
     \<lparr>m_calls = 0, m_reads = 0, m_searches = 0, m_mutations = 0,
      m_commands = 0, m_other = 0, m_successes = 0, m_failures = 0,
      m_unknown = 0, m_mutation_targets = 0, m_one_shot_mutations = 0, m_retry_count = 0,
      m_duration_ms = 0, m_output_bytes = 0, m_core_origin_calls = 0, m_mcp_origin_calls = 0,
      m_provider_origin_calls = 0, m_unknown_origin_calls = 0, \<dots> = 0\<rparr>"

definition plus_tool_metrics_ext :: "'a tool_metrics_scheme \<Rightarrow> 'a tool_metrics_scheme \<Rightarrow> 'a tool_metrics_scheme" where
  "plus_tool_metrics_ext a b =
     \<lparr>m_calls = m_calls a + m_calls b,
      m_reads = m_reads a + m_reads b,
      m_searches = m_searches a + m_searches b,
      m_mutations = m_mutations a + m_mutations b,
      m_commands = m_commands a + m_commands b,
      m_other = m_other a + m_other b,
      m_successes = m_successes a + m_successes b,
      m_failures = m_failures a + m_failures b,
      m_unknown = m_unknown a + m_unknown b,
      m_mutation_targets = m_mutation_targets a + m_mutation_targets b,
      m_one_shot_mutations = m_one_shot_mutations a + m_one_shot_mutations b,
      m_retry_count = m_retry_count a + m_retry_count b,
      m_duration_ms = m_duration_ms a + m_duration_ms b,
      m_output_bytes = m_output_bytes a + m_output_bytes b,
      m_core_origin_calls = m_core_origin_calls a + m_core_origin_calls b,
      m_mcp_origin_calls = m_mcp_origin_calls a + m_mcp_origin_calls b,
      m_provider_origin_calls = m_provider_origin_calls a + m_provider_origin_calls b,
      m_unknown_origin_calls = m_unknown_origin_calls a + m_unknown_origin_calls b,
      \<dots> = tool_metrics.more a + tool_metrics.more b\<rparr>"

instance
  by standard
    (simp_all add: zero_tool_metrics_ext_def plus_tool_metrics_ext_def ac_simps)

end

instantiation dimension_metrics_ext :: (comm_monoid_add) comm_monoid_add
begin

definition zero_dimension_metrics_ext :: "'a dimension_metrics_scheme" where
  "zero_dimension_metrics_ext =
     \<lparr>d_calls = 0, d_failures = 0, d_output_bytes = 0, d_duration_ms = 0,
      d_tokens = 0, \<dots> = 0\<rparr>"

definition plus_dimension_metrics_ext :: "'a dimension_metrics_scheme \<Rightarrow> 'a dimension_metrics_scheme \<Rightarrow> 'a dimension_metrics_scheme" where
  "plus_dimension_metrics_ext a b =
     \<lparr>d_calls = d_calls a + d_calls b,
      d_failures = d_failures a + d_failures b,
      d_output_bytes = d_output_bytes a + d_output_bytes b,
      d_duration_ms = d_duration_ms a + d_duration_ms b,
      d_tokens = d_tokens a + d_tokens b,
      \<dots> = dimension_metrics.more a + dimension_metrics.more b\<rparr>"

instance
  by standard
    (simp_all add: zero_dimension_metrics_ext_def plus_dimension_metrics_ext_def ac_simps)

end

lemma metrics_add_assign_plus: "metrics_add_assign a b = a + b"
  by (simp add: metrics_add_assign_def plus_tool_metrics_ext_def plus_unit_def)

lemma default_metrics_zero: "default_metrics = 0"
  by (simp add: default_metrics_def zero_tool_metrics_ext_def zero_unit_def)

lemma dimension_add_assign_plus: "dimension_metrics_add_assign a b = a + b"
  by (simp add: dimension_metrics_add_assign_def plus_dimension_metrics_ext_def plus_unit_def)

lemma default_dimension_zero: "default_dimension_metrics = 0"
  by (simp add: default_dimension_metrics_def zero_dimension_metrics_ext_def zero_unit_def)

definition observed_call :: "tool_observation \<Rightarrow> tool_metrics" where
  "observed_call ob = accumulate_observation 0 ob"

lemma accumulate_plus: "accumulate_observation c ob = c + observed_call ob"
  unfolding observed_call_def accumulate_observation_def zero_tool_metrics_ext_def
  by (cases c; cases "o_kind ob"; cases "o_outcome ob"; cases "o_origin ob")
    (simp_all add: plus_tool_metrics_ext_def count_kind_def count_outcome_def count_origin_def)

definition dimension_call_of :: "tool_outcome \<Rightarrow> u64 \<Rightarrow> u64 option \<Rightarrow> dimension_metrics" where
  "dimension_call_of outcome bytes duration = accumulate_dimension_call outcome bytes duration 0"

lemma accumulate_dimension_plus:
  "accumulate_dimension_call outcome bytes duration d = d + dimension_call_of outcome bytes duration"
  unfolding dimension_call_of_def accumulate_dimension_call_def zero_dimension_metrics_ext_def
  by (cases d) (simp add: plus_dimension_metrics_ext_def)

lemma counters_plus: "counters obs = (\<Sum>ob\<leftarrow>obs. observed_call ob)"
proof -
  have "fold (\<lambda>ob m. accumulate_observation m ob) obs c = c + (\<Sum>ob\<leftarrow>obs. observed_call ob)" for c
    by (induction obs arbitrary: c) (simp_all add: accumulate_plus add.assoc)
  from this[of default_metrics] show ?thesis by (simp add: counters_def default_metrics_zero)
qed

end
