(* ===== verification/History_Reads.thy ===== *)
theory History_Reads
  imports History_Ledger_Facts
begin

text \<open>
  What a windowed query makes of the rows it fetches: contributions counted by key, the values that rows
  of counters and facts read back as, the accumulators of \<open>compute_range_totals\<close> in closed form, and
  what the tables of a session hold.
\<close>

section \<open>Contributions\<close>

lemma contribution_append:
  fixes xs :: "('k \<times> 'v::comm_monoid_add) list"
  shows "contribution (xs @ ys) k =
    (case (contribution xs k, contribution ys k) of
       (None, v) \<Rightarrow> v | (v, None) \<Rightarrow> v | (Some a, Some b) \<Rightarrow> Some (a + b))"
proof -
  have "(\<Sum>x\<leftarrow>filter (\<lambda>x. fst x = k) zs. snd x) = 0" if "k \<notin> fst ` set zs" for zs :: "('k \<times> 'v) list"
    using that by (induction zs) auto
  then show ?thesis by (auto simp: contribution_def)
qed

lemma contribution_append_cong:
  "contribution xs = contribution xs' \<Longrightarrow> contribution ys = contribution ys' \<Longrightarrow>
    contribution (xs @ ys) = contribution (xs' @ ys')"
  by (rule ext) (simp add: contribution_append)

lemma contribution_slice:
  "contribution (map (\<lambda>x. (snd (fst x), snd x)) (filter (\<lambda>x. fst (fst x) = a) xs)) k = contribution xs (a, k)"
proof -
  have "(\<Sum>x\<leftarrow>filter (\<lambda>x. fst x = k) (map (\<lambda>x. (snd (fst x), snd x)) (filter (\<lambda>x. fst (fst x) = a) xs)). snd x)
      = (\<Sum>x\<leftarrow>filter (\<lambda>x. fst x = (a, k)) xs. snd x)"
    by (induction xs) auto
  moreover have "k \<in> fst ` set (map (\<lambda>x. (snd (fst x), snd x)) (filter (\<lambda>x. fst (fst x) = a) xs))
      \<longleftrightarrow> (a, k) \<in> fst ` set xs"
    by force
  ultimately show ?thesis unfolding contribution_def by simp
qed

lemma contribution_first: "a \<in> fst ` fst ` set xs \<longleftrightarrow> (\<exists>k. contribution xs (a, k) \<noteq> None)"
  by (force simp: contribution_def)

lemma contribution_distinct: "distinct (map fst m) \<Longrightarrow> contribution m = map_of m"
proof
  fix k
  assume d: "distinct (map fst m)"
  show "contribution m k = map_of m k"
  proof (cases "map_of m k")
    case None
    then have "k \<notin> fst ` set m" by (simp add: map_of_eq_None_iff)
    with None show ?thesis by (simp add: contribution_def)
  next
    case (Some v)
    then have kv: "(k, v) \<in> set m" by (rule map_of_SomeD)
    have "filter (\<lambda>x. fst x = k) m = [(k, v)]"
      using d kv
    proof (induction m)
      case (Cons x m)
      show ?case
      proof (cases "x = (k, v)")
        case True
        then have "filter (\<lambda>x. fst x = k) m = []"
          using Cons.prems(1) by (force simp: filter_empty_conv)
        then show ?thesis using True by simp
      next
        case False
        with Cons.prems(2) have kv: "(k, v) \<in> set m" by simp
        from imageI[OF kv, of fst] Cons.prems(1) have "fst x \<noteq> k" by auto
        with Cons kv show ?thesis by simp
      qed
    qed simp
    then show ?thesis using Some kv by (force simp: contribution_def)
  qed
qed

lemma contribution_tally: "contribution (tally xs) = contribution xs"
  by (simp add: contribution_distinct tm.invar_distinct tally_inv tally_lookup)

lemma tally_append:
  "fold (\<lambda>x. tm_entry (fst x) 0 (\<lambda>c. c + snd x)) ys (tally xs) = tally (xs @ ys)"
  by (simp add: tally_def)

text \<open>Tallies in insertion order.\<close>

definition hm_tally :: "('k \<times> 'v::comm_monoid_add) list \<Rightarrow> ('k \<times> 'v) list" where
  "hm_tally xs = fold (\<lambda>x. hm_entry (fst x) 0 (\<lambda>c. c + snd x)) xs []"

lemma hm_tally_inv: "distinct (map fst (hm_tally xs))"
  unfolding hm_tally_def by (rule hm.invar_distinct) (rule hm.fold_invar, simp add: hm_inv_def)

lemma hm_tally_lookup: "map_of (hm_tally xs) = contribution xs"
  by (rule ext) (auto simp: hm_tally_def contribution_def hm.fold_lookup hm_inv_def fold_plus image_iff)

lemma hm_tally_append:
  "fold (\<lambda>x. hm_entry (fst x) 0 (\<lambda>c. c + snd x)) ys (hm_tally xs) = hm_tally (xs @ ys)"
  by (simp add: hm_tally_def)

text \<open>Tallies of tallies.\<close>

definition nested_tally :: "(('a::linorder \<times> 'k::linorder) \<times> 'v::comm_monoid_add) list \<Rightarrow> ('a \<times> ('k \<times> 'v) list) list"
  where
  "nested_tally xs =
     fold (\<lambda>x. tm_entry (fst (fst x)) [] (tm_entry (snd (fst x)) 0 (\<lambda>c. c + snd x))) xs []"

lemma nested_tally_lookup:
  "map_of (nested_tally xs) a =
    (if a \<in> fst ` fst ` set xs
     then Some (tally (map (\<lambda>x. (snd (fst x), snd x)) (filter (\<lambda>x. fst (fst x) = a) xs))) else None)"
  unfolding nested_tally_def tally_def
  by (subst tm.fold_lookup) (auto simp: tm_inv_def fold_map comp_def image_iff)

lemma nested_tally_inv: "tm_inv (nested_tally xs)"
  unfolding nested_tally_def by (rule tm.fold_invar) (simp add: tm_inv_def)

lemma nested_tally_cong:
  assumes "contribution xs = contribution ys"
  shows "nested_tally xs = nested_tally ys"
proof (rule tm_unique)
  show "map_of (nested_tally xs) = map_of (nested_tally ys)"
  proof
    fix a
    have "tally (map (\<lambda>x. (snd (fst x), snd x)) (filter (\<lambda>x. fst (fst x) = a) xs))
        = tally (map (\<lambda>x. (snd (fst x), snd x)) (filter (\<lambda>x. fst (fst x) = a) ys))"
      by (rule tally_cong) (rule ext, simp add: contribution_slice assms)
    then show "map_of (nested_tally xs) a = map_of (nested_tally ys) a"
      by (simp add: nested_tally_lookup contribution_first assms)
  qed
qed (rule nested_tally_inv)+

lemma nested_tally_append:
  "fold (\<lambda>x. tm_entry (fst (fst x)) [] (tm_entry (snd (fst x)) 0 (\<lambda>c. c + snd x))) ys (nested_tally xs)
    = nested_tally (xs @ ys)"
  by (simp add: nested_tally_def)

text \<open>Distinct entries put one into another are their tally.\<close>

lemma nested_distinct:
  fixes m :: "(('a::linorder \<times> 'k::linorder) \<times> 'c::comm_monoid_add) list"
  assumes "distinct (map fst m)"
  shows "fold (\<lambda>x. tm_entry (fst (fst x)) [] (tm_entry (snd (fst x)) 0 (\<lambda>_. snd x))) m [] = nested_tally m"
proof (rule tm_unique)
  let ?put = "\<lambda>ys. fold (\<lambda>x. tm_entry (snd (fst x)) 0 (\<lambda>_. snd x)) ys []"
  show "map_of (fold (\<lambda>x. tm_entry (fst (fst x)) [] (tm_entry (snd (fst x)) 0 (\<lambda>_. snd x))) m [])
      = map_of (nested_tally m)"
  proof
    fix a
    let ?ys = "filter (\<lambda>x. fst (fst x) = a) m"
    have d: "distinct (map (\<lambda>x. snd (fst x)) ?ys)"
      using assms by (induction m) force+
    have "?put ?ys = tally (map (\<lambda>x. (snd (fst x), snd x)) ?ys)"
    proof (rule tm_unique)
      show "tm_inv (?put ?ys)" by (rule tm.fold_invar) (simp add: tm_inv_def)
      show "map_of (?put ?ys) = map_of (tally (map (\<lambda>x. (snd (fst x), snd x)) ?ys))"
      proof
        fix k
        have "map_of (tally (map (\<lambda>x. (snd (fst x), snd x)) ?ys)) k = map_of (map (\<lambda>x. (snd (fst x), snd x)) ?ys) k"
          using d by (simp add: tally_lookup contribution_distinct comp_def)
        moreover have "fold (\<lambda>x _. snd x) (filter (\<lambda>x. snd (fst x) = k) ys) z
            = (case map_of (map (\<lambda>x. (snd (fst x), snd x)) ys) k of None \<Rightarrow> z | Some v \<Rightarrow> v)"
          if "distinct (map (\<lambda>x. snd (fst x)) ys)" for ys and z :: 'c
          using that
        proof (induction ys arbitrary: z)
          case (Cons y ys)
          have "map_of (map (\<lambda>x. (snd (fst x), snd x)) ys) (snd (fst y)) = None"
            using Cons.prems by (simp add: map_of_eq_None_iff image_image)
          with Cons show ?case by auto
        qed simp
        moreover have "(\<exists>x\<in>set ?ys. snd (fst x) = k) \<longleftrightarrow> map_of (map (\<lambda>x. (snd (fst x), snd x)) ?ys) k \<noteq> None"
          unfolding map_of_eq_None_iff by force
        ultimately show "map_of (?put ?ys) k = map_of (tally (map (\<lambda>x. (snd (fst x), snd x)) ?ys)) k"
          using d by (subst tm.fold_lookup) (auto simp: tm_inv_def simp del: filter_filter)
      qed
    qed (rule tally_inv)
    then show "map_of (fold (\<lambda>x. tm_entry (fst (fst x)) [] (tm_entry (snd (fst x)) 0 (\<lambda>_. snd x))) m []) a
        = map_of (nested_tally m) a"
      unfolding nested_tally_lookup
      by (subst tm.fold_lookup) (auto simp: tm_inv_def image_iff)
  qed
  show "tm_inv (fold (\<lambda>x. tm_entry (fst (fst x)) [] (tm_entry (snd (fst x)) 0 (\<lambda>_. snd x))) m [])"
    by (rule tm.fold_invar) (simp add: tm_inv_def)
qed (rule nested_tally_inv)

text \<open>The rows of the hours of a window and the facts at its edges.\<close>

lemma window_sum:
  assumes "grouped key val items m" "nonneg_window w"
    and "\<And>i. i \<in> set items \<Longrightarrow> 0 \<le> ms i \<and> hour (key i) = hour_bucket (ms i)"
  shows "(\<Sum>x\<leftarrow>filter (\<lambda>x. in_buckets (plan_window w) (hour (fst x))) m. snd x)
      + (\<Sum>i\<leftarrow>filter (\<lambda>i. edge_counts w (plan_window w) (ms i)) items. val i)
    = (\<Sum>i\<leftarrow>filter (\<lambda>i. in_ms_window w (ms i)) items. val i)"
proof -
  have "(\<Sum>x\<leftarrow>filter (\<lambda>x. in_buckets (plan_window w) (hour (fst x))) m. snd x)
      = (\<Sum>i\<leftarrow>filter (\<lambda>i. in_buckets (plan_window w) (hour (key i))) items. val i)"
    by (rule grouped_sum_filter[OF assms(1), of "\<lambda>k. in_buckets (plan_window w) (hour k)"])
  moreover have "(\<Sum>i\<leftarrow>filter (\<lambda>i. in_buckets (plan_window w) (hour (key i))) items. val i)
      + (\<Sum>i\<leftarrow>filter (\<lambda>i. edge_counts w (plan_window w) (ms i)) items. val i)
    = (\<Sum>i\<leftarrow>filter (\<lambda>i. in_ms_window w (ms i)) items. val i)"
  proof (rule sum_split)
    fix i
    assume "i \<in> set items"
    then have i: "0 \<le> ms i" "hour (key i) = hour_bucket (ms i)" using assms(3) by blast+
    from plan_partition[OF i(1) assms(2)]
    show "in_ms_window w (ms i) \<longleftrightarrow>
        in_buckets (plan_window w) (hour (key i)) \<or> edge_counts w (plan_window w) (ms i)"
      by (simp add: i)
    show "\<not> (in_buckets (plan_window w) (hour (key i)) \<and> edge_counts w (plan_window w) (ms i))"
      by (simp add: i edge_counts_def)
  qed
  ultimately show ?thesis by simp
qed

lemma window_contribution:
  assumes "grouped key val items m" "nonneg_window w"
    and "\<And>i. i \<in> set items \<Longrightarrow> 0 \<le> ms i \<and> hour (key i) = hour_bucket (ms i)
      \<and> (kept (key i) \<longleftrightarrow> keep i) \<and> (keep i \<longrightarrow> f (key i) = g i)"
  shows "contribution (map (\<lambda>x. (f (fst x), snd x))
        (filter (\<lambda>x. in_buckets (plan_window w) (hour (fst x)) \<and> kept (fst x)) m)
      @ map (\<lambda>i. (g i, val i)) (filter (\<lambda>i. edge_counts w (plan_window w) (ms i) \<and> keep i) items))
    = contribution (map (\<lambda>i. (g i, val i)) (filter (\<lambda>i. in_ms_window w (ms i) \<and> keep i) items))"
proof -
  let ?plan = "plan_window w"
  have "map (\<lambda>i. (f (key i), val i)) (filter (\<lambda>i. in_buckets ?plan (hour (key i)) \<and> kept (key i)) items)
      = map (\<lambda>i. (g i, val i)) (filter (\<lambda>i. in_buckets ?plan (hour_bucket (ms i)) \<and> keep i) items)"
    using assms(3) by (intro map_cong filter_cong) auto
  then have "contribution (map (\<lambda>x. (f (fst x), snd x))
        (filter (\<lambda>x. in_buckets ?plan (hour (fst x)) \<and> kept (fst x)) m))
      = contribution (map (\<lambda>i. (g i, val i)) (filter (\<lambda>i. in_buckets ?plan (hour_bucket (ms i)) \<and> keep i) items))"
    using grouped_contribution[OF assms(1), of f "\<lambda>k. in_buckets ?plan (hour k) \<and> kept k"] by simp
  from contribution_append_cong[OF this refl]
  have "contribution (map (\<lambda>x. (f (fst x), snd x))
        (filter (\<lambda>x. in_buckets ?plan (hour (fst x)) \<and> kept (fst x)) m)
      @ map (\<lambda>i. (g i, val i)) (filter (\<lambda>i. edge_counts w ?plan (ms i) \<and> keep i) items))
    = contribution (map (\<lambda>i. (g i, val i)) (filter (\<lambda>i. in_buckets ?plan (hour_bucket (ms i)) \<and> keep i) items)
      @ map (\<lambda>i. (g i, val i)) (filter (\<lambda>i. edge_counts w ?plan (ms i) \<and> keep i) items))" .
  also have "\<dots> = contribution (map (\<lambda>i. (g i, val i)) (filter (\<lambda>i. in_ms_window w (ms i) \<and> keep i) items))"
  proof (rule contribution_split)
    fix i
    assume "i \<in> set items"
    then have "0 \<le> ms i" using assms(3) by blast
    from plan_partition[OF this assms(2)]
    show "in_ms_window w (ms i) \<and> keep i \<longleftrightarrow>
        in_buckets ?plan (hour_bucket (ms i)) \<and> keep i \<or> edge_counts w ?plan (ms i) \<and> keep i"
      by blast
  qed (simp add: edge_counts_def)
  finally show ?thesis .
qed

section \<open>Reading rows back\<close>

lemma then_query_Inr: "then_query r f = Inr y \<longleftrightarrow> (\<exists>x st. r = Inr (x, st) \<and> f x st = Inr y)"
  by (cases r) (auto simp: then_query_def)

lemma collect_bounded_Inr: "collect_bounded q rows st = Inr (xs, st') \<Longrightarrow> rows = map Some xs"
  by (induction q rows st arbitrary: xs st' rule: collect_bounded.induct)
    (fastforce simp: then_query_Inr split: option.splits)+

lemma collect_options_Some: "collect_options xs = Some ys \<longleftrightarrow> xs = map Some ys"
  by (induction xs arbitrary: ys rule: collect_options.induct) auto

text \<open>The values a row of counters stands for, in the wrapping arithmetic of the reader.\<close>

definition abs_columns :: "(u64 list \<Rightarrow> 'v) \<Rightarrow> 'k \<times> int list \<Rightarrow> 'k \<times> 'v" where
  "abs_columns value_of = (\<lambda>(k, columns). (k, value_of (map word_of_int columns)))"

definition abs_chain :: "chain_key \<times> int \<Rightarrow> chain_key \<times> u64" where
  "abs_chain = (\<lambda>(k, n). (k, word_of_int n))"

lemma fst_abs [simp]: "fst (abs_columns value_of x) = fst x" "fst (abs_chain y) = fst y"
  by (simp_all add: abs_columns_def abs_chain_def split: prod.splits)

lemma read_u64_Some: "read_u64 n = Some v \<Longrightarrow> v = word_of_int n"
  by (simp add: read_u64_def split: if_splits)

lemma map_read_u64: "map read_u64 ns = map Some vs \<Longrightarrow> vs = map word_of_int ns"
  by (induction ns arbitrary: vs) (auto dest: read_u64_Some)

lemma read_columns_Some: "read_columns value_of x = Some y \<Longrightarrow> y = abs_columns value_of x"
  by (auto simp: read_columns_def abs_columns_def collect_options_Some dest: map_read_u64 split: prod.splits)

lemma read_chain_Some: "read_chain x = Some y \<Longrightarrow> y = abs_chain x"
  by (auto simp: read_chain_def abs_chain_def dest: read_u64_Some split: prod.splits)

lemma read_rows:
  assumes "map read (filter P rows) = map Some xs"
    and "\<And>x y. read x = Some y \<Longrightarrow> y = meaning x" and "\<And>x. P x = Q (meaning x)"
  shows "xs = filter Q (map meaning rows)"
  using assms(1)
proof (induction rows arbitrary: xs)
  case (Cons r rows)
  then show ?case using assms(2,3) by (cases xs) (auto split: if_splits)
qed simp

text \<open>Facts read in any order.\<close>

lemma read_selected:
  assumes "list_all2 (\<lambda>r i. (\<forall>x. read r = Some x \<longrightarrow> view x = bare i) \<and> (P r \<longleftrightarrow> Q i)) rows items"
    and "map read ys = map Some xs" "mset ys = filter_mset P (mset rows)"
  shows "mset (map view xs) = mset (map bare (filter Q items))"
proof -
  have "mset (map (map_option view \<circ> read) (filter P rows)) = image_mset (map_option view) (mset (map read ys))"
    using assms(3) by (simp add: image_mset.compositionality)
  also have "\<dots> = mset (map Some (map view xs))"
    by (simp add: assms(2) image_mset.compositionality comp_def)
  finally have m: "mset (map (map_option view \<circ> read) (filter P rows)) = mset (map Some (map view xs))" .
  have reads: "read r \<noteq> None" if "r \<in> set rows" "P r" for r
  proof -
    have "r \<in> set ys" using that arg_cong[OF assms(3), of set_mset] by simp
    then have "read r \<in> set (map Some xs)" unfolding assms(2)[symmetric] by simp
    then show ?thesis by auto
  qed
  have "map (map_option view \<circ> read) (filter P rows) = map Some (map bare (filter Q items))"
    using assms(1) reads
  proof (induction rule: list_all2_induct)
    case (Cons r rows i items)
    from Cons.prems have "P r \<Longrightarrow> read r \<noteq> None" by simp
    with Cons show ?case by (cases "P r"; cases "read r") auto
  qed simp
  with m have "image_mset Some (mset (map bare (filter Q items))) = image_mset Some (mset (map view xs))"
    by (simp only: mset_map)
  then have "mset (map bare (filter Q items)) = mset (map view xs)"
    by (rule injD[OF multiset.inj_map[OF inj_Some]])
  then show ?thesis ..
qed

text \<open>Facts as they are stored.\<close>

definition bare_point :: "token_history_point \<Rightarrow> token_history_point" where
  "bare_point e = e\<lparr>h_timestamp := time_of_ms (timestamp_millis (h_timestamp e)), h_request_input_tokens := None\<rparr>"

definition bare_tool :: "tool_observation \<Rightarrow> tool_observation" where
  "bare_tool ob =
     ob\<lparr>o_call_id := [], o_harness := codex_provider_id,
        o_timestamp := time_of_ms (timestamp_millis (o_timestamp ob)), o_name := [], o_providers := [],
        o_effective_tools := [], o_resource_id := None, o_shell_family := None, o_language := None\<rparr>"

type_synonym dimension_item = "tool_observation \<times> string \<times> string"

definition dimension_items :: "tool_observation list \<Rightarrow> dimension_item list" where
  "dimension_items obs = concat (map (\<lambda>ob. map (Pair ob) (dimension_entries ob)) obs)"

definition dimension_event :: "dimension_item \<Rightarrow> dimension_edge_event" where
  "dimension_event = (\<lambda>(ob, kind, v).
     \<lparr>de_timestamp_ms = timestamp_millis (o_timestamp ob), de_kind = kind, de_value = v,
      de_outcome = o_outcome ob, de_output_bytes = o_output_bytes ob, de_duration_ms = o_duration_ms ob\<rparr>)"

definition bare_finding :: "optimization_finding \<Rightarrow> optimization_finding" where
  "bare_finding f = blank_finding\<lparr>f_timestamp := map_option (\<lambda>t. time_of_ms (timestamp_millis t)) (f_timestamp f),
     f_rule_id := f_rule_id f, f_severity := f_severity f, f_avoidable_calls := f_avoidable_calls f\<rparr>"

definition token_row_holds :: "token_row \<Rightarrow> token_history_point \<Rightarrow> bool" where
  "token_row_holds r e \<longleftrightarrow>
     tk_event_key r = token_event_key e \<and> tk_timestamp_ms r = timestamp_millis (h_timestamp e)
     \<and> tk_model r = h_model e \<and> tk_service_tier r = h_service_tier e
     \<and> pred_option fits_i64 (tk_request_input_tokens r)
     \<and> to_i64 (h_total_tokens e) = Some (tk_cumulative_total_tokens r)
     \<and> token_columns (h_delta e) = Some (tk_columns r)"

lemma timestamp_time_of_ms [simp]: "timestamp_millis (time_of_ms ms) = ms"
  by (simp add: time_of_ms_def timestamp_millis_def)

lemma to_i64_Some: "to_i64 v = Some n \<Longrightarrow> word_of_int n = v \<and> fits_i64 n"
  by (auto simp: to_i64_def fits_i64_def split: if_splits intro: order_trans[of _ 0])

lemma fits_to_i64 [simp]: "pred_option fits_i64 (to_i64 v)"
  by (auto simp: pred_option_def dest: to_i64_Some)

lemma read_to_i64: "to_i64 v = Some n \<Longrightarrow> read_u64 n = Some v"
  using to_i64_Some by (auto simp: read_u64_def)

lemma read_cast_i64 [simp]: "read_u64 (cast_i64 v) = Some v"
proof -
  have "fits_i64 (sint v)" using sint_range_size[of v] by (simp add: fits_i64_def word_size)
  then show ?thesis by (simp add: read_u64_def cast_i64_def)
qed

lemma collect_read_to_i64: "map to_i64 vs = map Some ns \<Longrightarrow> map read_u64 ns = map Some vs"
  by (induction vs arbitrary: ns) (auto dest: read_to_i64)

lemma columns_of_i64: "map to_i64 vs = map Some ns \<Longrightarrow> map word_of_int ns = vs"
  by (induction vs arbitrary: ns) (auto dest: to_i64_Some)

lemma token_columns_value:
  assumes "token_columns d = Some ns"
  shows "length ns = 6" "totals_of_columns (map word_of_int ns) = d"
proof -
  from assms have m: "map to_i64 [input_tokens d, cached_input_tokens d, output_tokens d,
       reasoning_output_tokens d, total_tokens d, cache_creation_input_tokens d] = map Some ns"
    by (simp only: token_columns_def collect_options_Some)
  from arg_cong[OF m, of length] show "length ns = 6" by simp
  show "totals_of_columns (map word_of_int ns) = d" unfolding columns_of_i64[OF m] by simp
qed

lemma read_token_row_holds:
  assumes "token_row_holds r e" "read_token_row r = Some p"
  shows "bare_point p = bare_point e"
proof -
  from assms(1) have r: "tk_timestamp_ms r = timestamp_millis (h_timestamp e)" "tk_model r = h_model e"
      "tk_service_tier r = h_service_tier e" "read_u64 (tk_cumulative_total_tokens r) = Some (h_total_tokens e)"
      "token_columns (h_delta e) = Some (tk_columns r)"
    by (auto simp: token_row_holds_def dest: read_to_i64)
  from assms(2) r(4) obtain request ws where p: "collect_options (map read_u64 (tk_columns r)) = Some ws"
      "p = \<lparr>h_timestamp = time_of_ms (tk_timestamp_ms r), h_model = tk_model r,
           h_service_tier = tk_service_tier r, h_request_input_tokens = request,
           h_total_tokens = h_total_tokens e, h_delta = totals_of_columns ws\<rparr>"
    by (auto simp: read_token_row_def split: option.splits)
  have "totals_of_columns ws = h_delta e"
    using p(1) map_read_u64[of "tk_columns r" ws] token_columns_value(2)[OF r(5)]
    by (simp add: collect_options_Some)
  with p(2) r show ?thesis by (cases e) (simp add: bare_point_def)
qed

lemma outcome_round_trip [simp]: "tool_outcome_from_str (tool_outcome_str v) = v"
  by (cases v) (simp_all add: tool_outcome_from_str_def tool_outcome_str_def)

lemma kind_round_trip [simp]: "tool_kind_from_str (tool_kind_as_str v) = v"
  by (cases v) (simp_all add: tool_kind_from_str_def)

lemma origin_round_trip [simp]: "tool_origin_from_str_or_unknown (tool_origin_as_str v) = v"
  by (cases v) (simp_all add: tool_origin_from_str_or_unknown_def)

lemma read_optional_cast_i64 [simp]: "read_optional (map_option cast_i64 v) = Some v"
  by (cases v) (simp_all add: read_optional_def)

lemma read_tool_row_of: "tool_row_of ob = Some r \<Longrightarrow> read_tool_row r = Some (bare_tool ob)"
  by (cases ob) (auto simp: tool_row_of_def read_tool_row_def bare_tool_def dest: read_to_i64)

definition dimension_row_of :: "dimension_item \<Rightarrow> dimension_row option" where
  "dimension_row_of = (\<lambda>(ob, kind, v). map_option (\<lambda>bytes.
     \<lparr>dw_timestamp_ms = timestamp_millis (o_timestamp ob), dw_model = o_model ob, dw_kind = kind, dw_value = v,
      dw_outcome = tool_outcome_str (o_outcome ob), dw_output_bytes = bytes,
      dw_duration_ms = map_option cast_i64 (o_duration_ms ob)\<rparr>) (to_i64 (o_output_bytes ob)))"

lemma dimension_rows_items: "concat (map dimension_rows_of obs) = map dimension_row_of (dimension_items obs)"
proof -
  have "dimension_rows_of ob = map dimension_row_of (map (Pair ob) (dimension_entries ob))" for ob
    by (simp add: dimension_rows_of_def dimension_row_of_def split_def)
  then show ?thesis by (induction obs) (simp_all add: dimension_items_def)
qed

lemma read_dimension_row_of: "dimension_row_of i = Some r \<Longrightarrow> read_dimension_row r = Some (dimension_event i)"
  by (cases i) (auto simp: dimension_row_of_def read_dimension_row_def dimension_event_def dest: read_to_i64)

lemma dimension_row_time:
  "dimension_row_of i = Some r \<Longrightarrow> dw_timestamp_ms r = timestamp_millis (o_timestamp (fst i))"
  by (auto simp: dimension_row_of_def split: prod.splits)

lemma read_finding_row_of: "finding_row_of f = Some r \<Longrightarrow> read_finding_row r = Some (bare_finding f)"
  by (auto simp: finding_row_of_def read_finding_row_def bare_finding_def option.map_comp comp_def
      dest: read_to_i64)

text \<open>The fact tables hold the facts of a session.\<close>

definition facts_hold :: "session \<Rightarrow> session_tables \<Rightarrow> bool" where
  "facts_hold s t \<longleftrightarrow>
     list_all2 token_row_holds (tb_tokens t) (s_tokens_history s)
     \<and> map tool_row_of (s_tool_observations s) = map Some (tb_tools t)
     \<and> map dimension_row_of (dimension_items (s_tool_observations s)) = map Some (tb_dimensions t)
     \<and> map finding_row_of (s_optimization_findings s) = map Some (tb_findings t)"

lemma map_Some_list_all2: "map f xs = map Some ys \<longleftrightarrow> list_all2 (\<lambda>y x. f x = Some y) ys xs"
  by (induction xs arbitrary: ys) (auto simp: list_all2_Cons2 Cons_eq_map_conv)

lemma fetched_edges:
  assumes "facts_hold s t" "fetch_rows q b t st = Inr (rows, st')"
  shows "mset (map bare_point (fr_edge_tokens rows)) = mset (map bare_point
      (filter (\<lambda>e. in_ranges (wb_edges b) (timestamp_millis (h_timestamp e))) (s_tokens_history s)))"
    and "mset (fr_edge_tools rows) = mset (map bare_tool
      (filter (\<lambda>ob. in_ranges (wb_edges b) (timestamp_millis (o_timestamp ob))) (s_tool_observations s)))"
    and "mset (fr_edge_dimensions rows) = mset (map dimension_event
      (filter (\<lambda>i. in_ranges (wb_edges b) (timestamp_millis (o_timestamp (fst i))))
        (dimension_items (s_tool_observations s))))"
proof -
  from assms(2) have reads:
      "\<exists>ys. mset ys = filter_mset (\<lambda>r. in_ranges (wb_edges b) (tk_timestamp_ms r)) (mset (tb_tokens t))
        \<and> map read_token_row ys = map Some (fr_edge_tokens rows)"
      "\<exists>ys. mset ys = filter_mset (\<lambda>r. in_ranges (wb_edges b) (tw_timestamp_ms r)) (mset (tb_tools t))
        \<and> map read_tool_row ys = map Some (fr_edge_tools rows)"
      "\<exists>ys. mset ys = filter_mset (\<lambda>r. in_ranges (wb_edges b) (dw_timestamp_ms r)) (mset (tb_dimensions t))
        \<and> map read_dimension_row ys = map Some (fr_edge_dimensions rows)"
    by (auto simp: fetch_rows_def then_query_Inr dest!: collect_bounded_Inr intro!: exI)
  show "mset (map bare_point (fr_edge_tokens rows)) = mset (map bare_point
      (filter (\<lambda>e. in_ranges (wb_edges b) (timestamp_millis (h_timestamp e))) (s_tokens_history s)))"
    using assms(1) reads(1)
    by (elim exE conjE, intro read_selected)
      (auto simp: facts_hold_def read_token_row_holds token_row_holds_def elim!: list_all2_mono)
  have "mset (map (\<lambda>x. x) (fr_edge_tools rows)) = mset (map bare_tool
      (filter (\<lambda>ob. in_ranges (wb_edges b) (timestamp_millis (o_timestamp ob))) (s_tool_observations s)))"
    using assms(1) reads(2)
    by (elim exE conjE, intro read_selected)
      (auto simp: facts_hold_def map_Some_list_all2 read_tool_row_of tool_row_of_def elim!: list_all2_mono)
  then show "mset (fr_edge_tools rows) = mset (map bare_tool
      (filter (\<lambda>ob. in_ranges (wb_edges b) (timestamp_millis (o_timestamp ob))) (s_tool_observations s)))"
    by simp
  have "mset (map (\<lambda>x. x) (fr_edge_dimensions rows)) = mset (map dimension_event
      (filter (\<lambda>i. in_ranges (wb_edges b) (timestamp_millis (o_timestamp (fst i))))
        (dimension_items (s_tool_observations s))))"
    using assms(1) reads(3)
    by (elim exE conjE, intro read_selected)
      (auto simp: facts_hold_def map_Some_list_all2 read_dimension_row_of dimension_row_time
        elim!: list_all2_mono)
  then show "mset (fr_edge_dimensions rows) = mset (map dimension_event
      (filter (\<lambda>i. in_ranges (wb_edges b) (timestamp_millis (o_timestamp (fst i))))
        (dimension_items (s_tool_observations s))))"
    by simp
qed

section \<open>The accumulators in closed form\<close>

lemma add_token_row_fold:
  "fold (add_token_row p) rows z =
    (fst z + (\<Sum>x\<leftarrow>filter (\<lambda>x. in_buckets p (fst (fst x))) rows. snd x),
     fold (\<lambda>x. tm_entry (fst x) 0 (\<lambda>c. c + snd x))
       (map (\<lambda>x. ((fst (snd (fst x)), sentinel_to_option (snd (snd (fst x)))), snd x))
         (filter (\<lambda>x. in_buckets p (fst (fst x)) \<and> fst (snd (fst x)) \<noteq> []) rows)) (snd z))"
  by (induction rows arbitrary: z) (auto simp: add_token_row_def ac_simps split: prod.splits)

lemma add_edge_token_fold:
  "fold (add_edge_token w p) es z =
    (fst z + (\<Sum>e\<leftarrow>filter (\<lambda>e. edge_counts w p (timestamp_millis (h_timestamp e))) es. h_delta e),
     fold (\<lambda>x. tm_entry (fst x) 0 (\<lambda>c. c + snd x))
       (map (\<lambda>e. (event_key e, h_delta e))
         (filter (\<lambda>e. edge_counts w p (timestamp_millis (h_timestamp e)) \<and> modelled e) es)) (snd z))"
  by (induction es arbitrary: z)
    (auto simp: add_edge_token_def modelled_def event_key_def ac_simps split: prod.splits option.splits)

lemma add_metric_row_fold:
  "fold (add_metric_row p) rows z =
    (fst z + (\<Sum>x\<leftarrow>filter (\<lambda>x. in_buckets p (fst (fst x))) rows. snd x),
     fold (\<lambda>x. tm_entry (fst x) 0 (\<lambda>c. c + snd x))
       (map (\<lambda>x. (snd (fst x), snd x))
         (filter (\<lambda>x. in_buckets p (fst (fst x)) \<and> snd (fst x) \<noteq> []) rows)) (snd z))"
  by (induction rows arbitrary: z)
    (auto simp: add_metric_row_def metrics_add_assign_plus default_metrics_zero ac_simps split: prod.splits)

text \<open>The chain counts of all calls, and of the calls of each model.\<close>

definition model_chains :: "((string \<times> string \<times> string) \<times> u64) list \<Rightarrow> (string \<times> chain_counts) list \<Rightarrow> (string \<times> chain_counts) list"
  where
  "model_chains xs = fold (\<lambda>x. tm_entry (fst (fst x)) [] (hm_entry (snd (fst x)) 0 (\<lambda>c. c + snd x))) xs"

lemma add_chain_row_fold:
  "fold (add_chain_row p) rows z =
    (fold (\<lambda>x. hm_entry (fst x) 0 (\<lambda>c. c + snd x))
       (map (\<lambda>x. (snd (snd (fst x)), snd x)) (filter (\<lambda>x. in_buckets p (fst (fst x))) rows)) (fst z),
     model_chains (map (\<lambda>x. (snd (fst x), snd x))
       (filter (\<lambda>x. in_buckets p (fst (fst x)) \<and> fst (snd (fst x)) \<noteq> []) rows)) (snd z))"
  by (induction rows arbitrary: z) (auto simp: add_chain_row_def model_chains_def split: prod.splits)

definition edge_chain :: "tool_observation \<Rightarrow> string \<times> string" where
  "edge_chain ob = (unwrap_or [] (o_turn_id ob), unwrap_or [] (o_target ob))"

lemma add_edge_tool_fold:
  "fold (add_edge_tool w p) obs z =
    (let at = \<lambda>ob. edge_counts w p (timestamp_millis (o_timestamp ob)) in
     ((fst (fst z) + (\<Sum>ob\<leftarrow>filter at obs. observed_call ob),
       fold (\<lambda>x. tm_entry (fst x) 0 (\<lambda>c. c + snd x))
         (map (\<lambda>ob. (the (o_model ob), observed_call ob)) (filter (\<lambda>ob. at ob \<and> o_model ob \<noteq> None) obs))
         (snd (fst z))),
      (fold (\<lambda>x. hm_entry (fst x) 0 (\<lambda>c. c + snd x))
         (map (\<lambda>ob. (edge_chain ob, 1)) (filter (\<lambda>ob. at ob \<and> o_kind ob = KMutation) obs)) (fst (snd z)),
       model_chains (map (\<lambda>ob. ((the (o_model ob), edge_chain ob), 1))
         (filter (\<lambda>ob. at ob \<and> o_kind ob = KMutation \<and> o_model ob \<noteq> None) obs)) (snd (snd z)))))"
  by (induction obs arbitrary: z)
    (auto simp: add_edge_tool_def model_chains_def edge_chain_def accumulate_plus default_metrics_zero ac_simps
      Let_def split: prod.splits option.splits)

lemma add_dimension_row_fold:
  "fold (add_dimension_row p) rows m =
    fold (\<lambda>x. tm_entry (fst (fst x)) [] (tm_entry (snd (fst x)) 0 (\<lambda>c. c + snd x)))
      (map (\<lambda>x. (snd (fst x), snd x)) (filter (\<lambda>x. in_buckets p (fst (fst x))) rows)) m"
  by (induction rows arbitrary: m)
    (auto simp: add_dimension_row_def dimension_add_assign_plus default_dimension_zero split: prod.splits)

definition event_call :: "dimension_edge_event \<Rightarrow> dimension_metrics" where
  "event_call ev = dimension_call_of (de_outcome ev) (de_output_bytes ev) (de_duration_ms ev)"

lemma add_edge_dimension_fold:
  "fold (add_edge_dimension w p) evs m =
    fold (\<lambda>x. tm_entry (fst (fst x)) [] (tm_entry (snd (fst x)) 0 (\<lambda>c. c + snd x)))
      (map (\<lambda>ev. ((de_kind ev, de_value ev), event_call ev))
        (filter (\<lambda>ev. edge_counts w p (de_timestamp_ms ev)) evs)) m"
proof (induction evs arbitrary: m)
  case (Cons ev evs)
  have "accumulate_dimension_call (de_outcome ev) (de_output_bytes ev) (de_duration_ms ev) = (\<lambda>c. c + event_call ev)"
    by (rule ext) (simp add: event_call_def accumulate_dimension_plus)
  with Cons show ?case by (simp add: add_edge_dimension_def default_dimension_zero)
qed simp

section \<open>What the rows stand for\<close>

definition token_hour_key :: "token_history_point \<Rightarrow> token_key" where
  "token_hour_key e =
     (hour_bucket (timestamp_millis (h_timestamp e)), key_sentinel (h_model e), key_sentinel (h_service_tier e))"

definition tool_hour_key :: "tool_observation \<Rightarrow> metric_key" where
  "tool_hour_key ob = (observation_bucket ob, key_sentinel (o_model ob))"

definition mutation_calls :: "tool_observation list \<Rightarrow> tool_observation list" where
  "mutation_calls obs = filter (\<lambda>ob. o_kind ob = KMutation) obs"

definition dimension_hour_key :: "dimension_item \<Rightarrow> dimension_key" where
  "dimension_hour_key i = (observation_bucket (fst i), snd i)"

definition item_call :: "dimension_item \<Rightarrow> dimension_metrics" where
  "item_call i = dimension_call_of (o_outcome (fst i)) (o_output_bytes (fst i)) (o_duration_ms (fst i))"

text \<open>Every rollup row is the sum of the facts with its key, and every fact has a row.\<close>

definition rollups_hold :: "session \<Rightarrow> session_tables \<Rightarrow> bool" where
  "rollups_hold s t \<longleftrightarrow>
     grouped token_hour_key h_delta (s_tokens_history s) (map (abs_columns totals_of_columns) (tb_token_rollup t))
     \<and> grouped tool_hour_key observed_call (s_tool_observations s)
         (map (abs_columns metrics_of_columns) (tb_metric_rollup t))
     \<and> grouped chain_key_of (\<lambda>_. 1) (mutation_calls (s_tool_observations s)) (map abs_chain (tb_chain_rollup t))
     \<and> grouped dimension_hour_key item_call (dimension_items (s_tool_observations s))
         (map (abs_columns dimension_of_columns) (tb_dimension_rollup t))"

text \<open>Times that are not negative and fit a column, and no empty name, which the keys confuse with a
  missing one.\<close>

definition plain_time :: "timestamp \<Rightarrow> bool" where
  "plain_time t \<longleftrightarrow> 0 \<le> timestamp_millis t \<and> timestamp_millis t \<le> max_i64"

definition plain_facts :: "session \<Rightarrow> bool" where
  "plain_facts s \<longleftrightarrow>
     list_all (\<lambda>e. plain_time (h_timestamp e) \<and> h_model e \<noteq> Some [] \<and> h_service_tier e \<noteq> Some [])
       (s_tokens_history s)
     \<and> list_all (\<lambda>ob. plain_time (o_timestamp ob) \<and> o_model ob \<noteq> Some [] \<and> o_turn_id ob \<noteq> Some []
         \<and> o_target ob \<noteq> Some []) (s_tool_observations s)
     \<and> list_all (\<lambda>f. pred_option plain_time (f_timestamp f)) (s_optimization_findings s)"

text \<open>A batch fetches what each of its plans needs.\<close>

definition batch_serves :: "window_batch \<Rightarrow> window_plan \<Rightarrow> bool" where
  "batch_serves b p \<longleftrightarrow>
     (\<forall>h. in_buckets p h \<longrightarrow> in_ranges (wb_buckets b) h)
     \<and> (\<forall>v. in_ranges (wp_edges p) v \<longrightarrow> in_ranges (wb_edges b) v)"

lemma sum_mset_eq:
  fixes f :: "'a \<Rightarrow> 'v::comm_monoid_add"
  shows "mset (map f xs) = mset (map g ys) \<Longrightarrow> (\<Sum>x\<leftarrow>xs. f x) = (\<Sum>y\<leftarrow>ys. g y)"
  by (metis sum_mset_sum_list)

lemma edge_selected:
  assumes "mset (map view xs) = mset (map bare (filter Q items))" "\<And>i. i \<in> set items \<Longrightarrow> at (bare i) \<Longrightarrow> Q i"
  shows "mset (map D (filter at (map view xs))) = mset (map D (filter at (map bare items)))"
proof -
  have "filter_mset at (mset (map view xs)) = filter_mset at (mset (map bare (filter Q items)))"
    by (simp only: assms(1))
  also have "\<dots> = mset (filter at (map bare (filter Q items)))" by (simp only: mset_filter)
  also have "filter at (map bare (filter Q items)) = filter at (map bare items)"
    using assms(2) by (induction items) auto
  finally show ?thesis by (simp only: mset_map mset_filter)
qed

lemma filter_served:
  assumes "batch_serves b p"
  shows "filter (\<lambda>x. in_buckets p (hour (fst x)) \<and> K x) (filter (\<lambda>x. in_ranges (wb_buckets b) (hour (fst x))) xs)
      = filter (\<lambda>x. in_buckets p (hour (fst x)) \<and> K x) xs"
    and "filter (\<lambda>x. in_buckets p (hour (fst x))) (filter (\<lambda>x. in_ranges (wb_buckets b) (hour (fst x))) xs)
      = filter (\<lambda>x. in_buckets p (hour (fst x))) xs"
  using assms by (auto simp: batch_serves_def intro!: filter_cong)

lemma fetched_rollups:
  assumes "fetch_rows q b t st = Inr (rows, st')"
  shows "fr_tokens rows = filter (\<lambda>x. in_ranges (wb_buckets b) (fst (fst x)))
      (map (abs_columns totals_of_columns) (tb_token_rollup t))"
    and "fr_metrics rows = filter (\<lambda>x. in_ranges (wb_buckets b) (fst (fst x)))
      (map (abs_columns metrics_of_columns) (tb_metric_rollup t))"
    and "fr_chains rows = filter (\<lambda>x. in_ranges (wb_buckets b) (fst (fst x))) (map abs_chain (tb_chain_rollup t))"
    and "fr_dimensions rows = filter (\<lambda>x. in_ranges (wb_buckets b) (fst (fst x)))
      (map (abs_columns dimension_of_columns) (tb_dimension_rollup t))"
proof -
  from assms have r: "map (read_columns totals_of_columns)
        (filter (\<lambda>x. in_ranges (wb_buckets b) (fst (fst x))) (tb_token_rollup t)) = map Some (fr_tokens rows)"
      "map (read_columns metrics_of_columns)
        (filter (\<lambda>x. in_ranges (wb_buckets b) (fst (fst x))) (tb_metric_rollup t)) = map Some (fr_metrics rows)"
      "map read_chain (filter (\<lambda>x. in_ranges (wb_buckets b) (fst (fst x))) (tb_chain_rollup t))
        = map Some (fr_chains rows)"
      "map (read_columns dimension_of_columns)
        (filter (\<lambda>x. in_ranges (wb_buckets b) (fst (fst x))) (tb_dimension_rollup t)) = map Some (fr_dimensions rows)"
    by (auto simp: fetch_rows_def then_query_Inr split_def dest!: collect_bounded_Inr)
  from read_rows[OF r(1)] show "fr_tokens rows = filter (\<lambda>x. in_ranges (wb_buckets b) (fst (fst x)))
      (map (abs_columns totals_of_columns) (tb_token_rollup t))"
    by (simp add: read_columns_Some)
  from read_rows[OF r(2)] show "fr_metrics rows = filter (\<lambda>x. in_ranges (wb_buckets b) (fst (fst x)))
      (map (abs_columns metrics_of_columns) (tb_metric_rollup t))"
    by (simp add: read_columns_Some)
  from read_rows[OF r(3)] show "fr_chains rows = filter (\<lambda>x. in_ranges (wb_buckets b) (fst (fst x)))
      (map abs_chain (tb_chain_rollup t))"
    by (simp add: read_chain_Some)
  from read_rows[OF r(4)] show "fr_dimensions rows = filter (\<lambda>x. in_ranges (wb_buckets b) (fst (fst x)))
      (map (abs_columns dimension_of_columns) (tb_dimension_rollup t))"
    by (simp add: read_columns_Some)
qed

text \<open>The facts at the edges of one window, as the fetched rows give them.\<close>

lemma bare_point_sel [simp]:
  "timestamp_millis (h_timestamp (bare_point e)) = timestamp_millis (h_timestamp e)"
  "h_delta (bare_point e) = h_delta e" "event_key (bare_point e) = event_key e" "modelled (bare_point e) = modelled e"
  by (simp_all add: bare_point_def event_key_def modelled_def)

lemma bare_tool_sel [simp]:
  "timestamp_millis (o_timestamp (bare_tool ob)) = timestamp_millis (o_timestamp ob)"
  "o_model (bare_tool ob) = o_model ob" "o_kind (bare_tool ob) = o_kind ob"
  "edge_chain (bare_tool ob) = edge_chain ob" "observed_call (bare_tool ob) = observed_call ob"
  by (simp_all add: bare_tool_def edge_chain_def observed_call_def accumulate_observation_def)

lemma dimension_event_sel [simp]:
  "de_timestamp_ms (dimension_event i) = timestamp_millis (o_timestamp (fst i))"
  "de_kind (dimension_event i) = fst (snd i)" "de_value (dimension_event i) = snd (snd i)"
  "event_call (dimension_event i) = item_call i"
  by (simp_all add: dimension_event_def event_call_def item_call_def split: prod.splits)

lemma plain_edge:
  "plain_time t \<Longrightarrow> batch_serves b (plan_window w) \<Longrightarrow> edge_counts w (plan_window w) (timestamp_millis t) \<Longrightarrow>
    in_ranges (wb_edges b) (timestamp_millis t)"
  using plan_edges[of "timestamp_millis t" w] by (auto simp: plain_time_def batch_serves_def)

lemma item_fst: "i \<in> set (dimension_items obs) \<Longrightarrow> fst i \<in> set obs"
  by (auto simp: dimension_items_def)

end
