(* ===== verification/History_Refines.thy ===== *)
theory History_Refines
  imports History_Reads
begin

text \<open>
  The windowed totals read from the ledger are those of the session in memory: the contributions of the
  rollup rows and of the facts at the edges of a window are together those of the facts in the window,
  for one window, one session, and a query over many of both.
\<close>

section \<open>One window\<close>

text \<open>What a query of one window has at hand.\<close>

definition window_ready ::
    "session \<Rightarrow> session_tables \<Rightarrow> ms_window \<Rightarrow> window_batch \<Rightarrow> fetched_rows \<Rightarrow> bool" where
  "window_ready s t w b rows \<longleftrightarrow>
     plain_facts s \<and> facts_hold s t \<and> rollups_hold s t \<and> nonneg_window w \<and> batch_serves b (plan_window w)
     \<and> (\<exists>q st st'. fetch_rows q b t st = Inr (rows, st'))"

definition events_in :: "session \<Rightarrow> ms_window \<Rightarrow> token_history_point list" where
  "events_in s w = filter (\<lambda>e. in_ms_window w (timestamp_millis (h_timestamp e))) (s_tokens_history s)"

definition calls_in :: "session \<Rightarrow> ms_window \<Rightarrow> tool_observation list" where
  "calls_in s w = filter (\<lambda>ob. in_ms_window w (timestamp_millis (o_timestamp ob))) (s_tool_observations s)"

lemma ready_edges:
  assumes "window_ready s t w b rows"
  shows "(\<And>e. K e \<Longrightarrow> edge_counts w (plan_window w) (timestamp_millis (h_timestamp e))) \<Longrightarrow>
      mset (map D (filter K (map bare_point (fr_edge_tokens rows))))
      = mset (map D (filter K (map bare_point (s_tokens_history s))))"
    and "(\<And>ob. L ob \<Longrightarrow> edge_counts w (plan_window w) (timestamp_millis (o_timestamp ob))) \<Longrightarrow>
      mset (map E (filter L (fr_edge_tools rows))) = mset (map E (filter L (map bare_tool (s_tool_observations s))))"
    and "(\<And>ev. M ev \<Longrightarrow> edge_counts w (plan_window w) (de_timestamp_ms ev)) \<Longrightarrow>
      mset (map F (filter M (fr_edge_dimensions rows)))
      = mset (map F (filter M (map dimension_event (dimension_items (s_tool_observations s)))))"
proof -
  from assms obtain q st st' where r: "plain_facts s" "facts_hold s t" "batch_serves b (plan_window w)"
      "fetch_rows q b t st = Inr (rows, st')"
    by (auto simp: window_ready_def)
  note e = fetched_edges[OF r(2,4)]
  have plain: "e \<in> set (s_tokens_history s) \<Longrightarrow> plain_time (h_timestamp e)"
      "ob \<in> set (s_tool_observations s) \<Longrightarrow> plain_time (o_timestamp ob)" for e ob
    using r(1) by (auto simp: plain_facts_def list_all_iff)
  show "mset (map D (filter K (map bare_point (fr_edge_tokens rows))))
      = mset (map D (filter K (map bare_point (s_tokens_history s))))"
    if "\<And>e. K e \<Longrightarrow> edge_counts w (plan_window w) (timestamp_millis (h_timestamp e))"
    using that by (intro edge_selected[OF e(1)]) (fastforce intro: plain_edge[OF plain(1) r(3)])
  show "mset (map E (filter L (fr_edge_tools rows))) = mset (map E (filter L (map bare_tool (s_tool_observations s))))"
    if "\<And>ob. L ob \<Longrightarrow> edge_counts w (plan_window w) (timestamp_millis (o_timestamp ob))"
    using that edge_selected[where view = "\<lambda>x. x", unfolded list.map_ident, OF e(2), of L E]
    by (fastforce intro: plain_edge[OF plain(2) r(3)])
  show "mset (map F (filter M (fr_edge_dimensions rows)))
      = mset (map F (filter M (map dimension_event (dimension_items (s_tool_observations s)))))"
    if "\<And>ev. M ev \<Longrightarrow> edge_counts w (plan_window w) (de_timestamp_ms ev)"
    using that edge_selected[where view = "\<lambda>x. x", unfolded list.map_ident, OF e(3), of M F]
    by (fastforce intro: plain_edge[OF plain(2) r(3)] dest: item_fst)
qed

lemma ready_rollups:
  assumes "window_ready s t w b rows"
  shows "filter (\<lambda>x. in_buckets (plan_window w) (fst (fst x)) \<and> K x) (fr_tokens rows)
      = filter (\<lambda>x. in_buckets (plan_window w) (fst (fst x)) \<and> K x)
        (map (abs_columns totals_of_columns) (tb_token_rollup t))"
    and "filter (\<lambda>x. in_buckets (plan_window w) (fst (fst x)) \<and> L x) (fr_metrics rows)
      = filter (\<lambda>x. in_buckets (plan_window w) (fst (fst x)) \<and> L x)
        (map (abs_columns metrics_of_columns) (tb_metric_rollup t))"
    and "filter (\<lambda>x. in_buckets (plan_window w) (fst (fst x)) \<and> M x) (fr_chains rows)
      = filter (\<lambda>x. in_buckets (plan_window w) (fst (fst x)) \<and> M x) (map abs_chain (tb_chain_rollup t))"
    and "filter (\<lambda>x. in_buckets (plan_window w) (fst (fst x)) \<and> N x) (fr_dimensions rows)
      = filter (\<lambda>x. in_buckets (plan_window w) (fst (fst x)) \<and> N x)
        (map (abs_columns dimension_of_columns) (tb_dimension_rollup t))"
proof -
  from assms obtain q st st' where r: "batch_serves b (plan_window w)" "fetch_rows q b t st = Inr (rows, st')"
    by (auto simp: window_ready_def)
  show "filter (\<lambda>x. in_buckets (plan_window w) (fst (fst x)) \<and> K x) (fr_tokens rows)
      = filter (\<lambda>x. in_buckets (plan_window w) (fst (fst x)) \<and> K x)
        (map (abs_columns totals_of_columns) (tb_token_rollup t))"
    unfolding fetched_rollups(1)[OF r(2)] by (rule filter_served[OF r(1)])
  show "filter (\<lambda>x. in_buckets (plan_window w) (fst (fst x)) \<and> L x) (fr_metrics rows)
      = filter (\<lambda>x. in_buckets (plan_window w) (fst (fst x)) \<and> L x)
        (map (abs_columns metrics_of_columns) (tb_metric_rollup t))"
    unfolding fetched_rollups(2)[OF r(2)] by (rule filter_served[OF r(1)])
  show "filter (\<lambda>x. in_buckets (plan_window w) (fst (fst x)) \<and> M x) (fr_chains rows)
      = filter (\<lambda>x. in_buckets (plan_window w) (fst (fst x)) \<and> M x) (map abs_chain (tb_chain_rollup t))"
    unfolding fetched_rollups(3)[OF r(2)] by (rule filter_served[OF r(1)])
  show "filter (\<lambda>x. in_buckets (plan_window w) (fst (fst x)) \<and> N x) (fr_dimensions rows)
      = filter (\<lambda>x. in_buckets (plan_window w) (fst (fst x)) \<and> N x)
        (map (abs_columns dimension_of_columns) (tb_dimension_rollup t))"
    unfolding fetched_rollups(4)[OF r(2)] by (rule filter_served[OF r(1)])
qed

lemma ready_plain:
  assumes "window_ready s t w b rows"
  shows "e \<in> set (s_tokens_history s) \<Longrightarrow>
      0 \<le> timestamp_millis (h_timestamp e) \<and> h_model e \<noteq> Some [] \<and> h_service_tier e \<noteq> Some []"
    and "ob \<in> set (s_tool_observations s) \<Longrightarrow> 0 \<le> timestamp_millis (o_timestamp ob)
      \<and> o_model ob \<noteq> Some [] \<and> o_turn_id ob \<noteq> Some [] \<and> o_target ob \<noteq> Some []"
  using assms by (auto simp: window_ready_def plain_facts_def plain_time_def list_all_iff)

lemma sentinel_round_trip: "v \<noteq> Some [] \<Longrightarrow> sentinel_to_option (key_sentinel v) = v"
  by (cases v) (auto simp: sentinel_to_option_def key_sentinel_def)

lemma key_sentinel_Some [simp]: "key_sentinel (Some v) = v"
  by (simp add: key_sentinel_def)

lemma sentinel_present: "v \<noteq> Some [] \<Longrightarrow> key_sentinel v \<noteq> [] \<longleftrightarrow> v \<noteq> None"
  by (cases v) (auto simp: key_sentinel_def)

lemma window_tokens:
  assumes ready: "window_ready s t w b rows"
  shows "fold (add_edge_token w (plan_window w)) (fr_edge_tokens rows)
      (fold (add_token_row (plan_window w)) (fr_tokens rows) (default_totals, []))
    = (\<Sum>e\<leftarrow>events_in s w. h_delta e,
       tally (map (\<lambda>e. (event_key e, h_delta e)) (filter modelled (events_in s w))))"
proof -
  let ?p = "plan_window w" and ?ms = "\<lambda>e. timestamp_millis (h_timestamp e)" and ?evs = "s_tokens_history s"
  let ?at = "\<lambda>e. edge_counts w ?p (?ms e)" and ?C = "\<lambda>e. (event_key e, h_delta e)"
  have g: "grouped token_hour_key h_delta ?evs (map (abs_columns totals_of_columns) (tb_token_rollup t))"
    and w: "nonneg_window w"
    using ready by (auto simp: window_ready_def rollups_hold_def)
  note plain = ready_plain(1)[OF ready]
  have sums: "mset (map h_delta (filter ?at (fr_edge_tokens rows))) = mset (map h_delta (filter ?at ?evs))"
    using ready_edges(1)[OF ready, of ?at h_delta] by (simp add: filter_map comp_def)
  have edges: "mset (map ?C (filter (\<lambda>e. ?at e \<and> modelled e) (fr_edge_tokens rows)))
      = mset (map ?C (filter (\<lambda>e. ?at e \<and> modelled e) ?evs))"
    using ready_edges(1)[OF ready, of "\<lambda>e. ?at e \<and> modelled e" ?C] by (simp add: filter_map comp_def)
  have "(\<Sum>x\<leftarrow>filter (\<lambda>x. in_buckets ?p (fst (fst x))) (fr_tokens rows). snd x)
      + (\<Sum>e\<leftarrow>filter ?at (fr_edge_tokens rows). h_delta e) = (\<Sum>e\<leftarrow>events_in s w. h_delta e)"
    using window_sum[OF g w, of ?ms fst] ready_rollups(1)[OF ready, of "\<lambda>_. True"] sum_mset_eq[OF sums] plain
    by (simp add: events_in_def token_hour_key_def)
  moreover have "contribution (map (\<lambda>x. ((fst (snd (fst x)), sentinel_to_option (snd (snd (fst x)))), snd x))
        (filter (\<lambda>x. in_buckets ?p (fst (fst x)) \<and> fst (snd (fst x)) \<noteq> []) (fr_tokens rows))
      @ map ?C (filter (\<lambda>e. ?at e \<and> modelled e) (fr_edge_tokens rows)))
    = contribution (map ?C (filter modelled (events_in s w)))"
  proof -
    have "contribution (map (\<lambda>x. ((fst (snd (fst x)), sentinel_to_option (snd (snd (fst x)))), snd x))
        (filter (\<lambda>x. in_buckets ?p (fst (fst x)) \<and> fst (snd (fst x)) \<noteq> []) (fr_tokens rows))
      @ map ?C (filter (\<lambda>e. ?at e \<and> modelled e) ?evs))
      = contribution (map ?C (filter (\<lambda>e. in_ms_window w (?ms e) \<and> modelled e) ?evs))"
      unfolding ready_rollups(1)[OF ready]
      by (rule window_contribution[OF g w, where hour = fst and f = "\<lambda>k. (fst (snd k), sentinel_to_option (snd (snd k)))"])
        (use plain in \<open>auto simp: token_hour_key_def modelled_def event_key_def sentinel_round_trip sentinel_present\<close>)
    moreover have "filter (\<lambda>e. in_ms_window w (?ms e) \<and> modelled e) ?evs = filter modelled (events_in s w)"
      by (simp add: events_in_def conj_commute)
    ultimately show ?thesis
      using contribution_append_cong[OF refl contribution_mset[OF edges]] by simp
  qed
  ultimately show ?thesis
    by (simp add: add_token_row_fold add_edge_token_fold tally_append tally_def[symmetric] cong: tally_cong)
qed

text \<open>The counters of the calls in a window, of all of them and by model.\<close>

definition model_calls :: "tool_observation list \<Rightarrow> tool_observation list" where
  "model_calls obs = filter (\<lambda>ob. o_model ob \<noteq> None) obs"

lemma window_counters:
  assumes ready: "window_ready s t w b rows"
  defines "at \<equiv> \<lambda>ob. edge_counts w (plan_window w) (timestamp_millis (o_timestamp ob))"
  shows "(\<Sum>x\<leftarrow>filter (\<lambda>x. in_buckets (plan_window w) (fst (fst x))) (fr_metrics rows). snd x)
      + (\<Sum>ob\<leftarrow>filter at (fr_edge_tools rows). observed_call ob) = counters (calls_in s w)"
    and "tally (map (\<lambda>x. (snd (fst x), snd x))
        (filter (\<lambda>x. in_buckets (plan_window w) (fst (fst x)) \<and> snd (fst x) \<noteq> []) (fr_metrics rows))
      @ map (\<lambda>ob. (the (o_model ob), observed_call ob))
        (filter (\<lambda>ob. at ob \<and> o_model ob \<noteq> None) (fr_edge_tools rows)))
      = tally (map (\<lambda>ob. (the (o_model ob), observed_call ob)) (model_calls (calls_in s w)))"
proof -
  let ?p = "plan_window w" and ?ms = "\<lambda>ob. timestamp_millis (o_timestamp ob)" and ?obs = "s_tool_observations s"
  let ?C = "\<lambda>ob. (the (o_model ob), observed_call ob)"
  have g: "grouped tool_hour_key observed_call ?obs (map (abs_columns metrics_of_columns) (tb_metric_rollup t))"
    and w: "nonneg_window w"
    using ready by (auto simp: window_ready_def rollups_hold_def)
  note plain = ready_plain(2)[OF ready]
  have sums: "mset (map observed_call (filter at (fr_edge_tools rows))) = mset (map observed_call (filter at ?obs))"
    using ready_edges(2)[OF ready, of at observed_call] by (simp add: at_def filter_map comp_def)
  have edges: "mset (map ?C (filter (\<lambda>ob. at ob \<and> o_model ob \<noteq> None) (fr_edge_tools rows)))
      = mset (map ?C (filter (\<lambda>ob. at ob \<and> o_model ob \<noteq> None) ?obs))"
    using ready_edges(2)[OF ready, of "\<lambda>ob. at ob \<and> o_model ob \<noteq> None" ?C]
    by (simp add: at_def filter_map comp_def)
  show "(\<Sum>x\<leftarrow>filter (\<lambda>x. in_buckets ?p (fst (fst x))) (fr_metrics rows). snd x)
      + (\<Sum>ob\<leftarrow>filter at (fr_edge_tools rows). observed_call ob) = counters (calls_in s w)"
    using window_sum[OF g w, of ?ms fst] ready_rollups(2)[OF ready, of "\<lambda>_. True"] sum_mset_eq[OF sums] plain
    by (simp add: calls_in_def tool_hour_key_def observation_bucket_def counters_plus at_def)
  have "contribution (map (\<lambda>x. (snd (fst x), snd x))
        (filter (\<lambda>x. in_buckets ?p (fst (fst x)) \<and> snd (fst x) \<noteq> []) (fr_metrics rows))
      @ map ?C (filter (\<lambda>ob. at ob \<and> o_model ob \<noteq> None) ?obs))
      = contribution (map ?C (filter (\<lambda>ob. in_ms_window w (?ms ob) \<and> o_model ob \<noteq> None) ?obs))"
    unfolding ready_rollups(2)[OF ready] at_def
    by (rule window_contribution[OF g w, where hour = fst and f = snd])
      (use plain in \<open>auto simp: tool_hour_key_def observation_bucket_def sentinel_present\<close>)
  moreover have "filter (\<lambda>ob. in_ms_window w (?ms ob) \<and> o_model ob \<noteq> None) ?obs = model_calls (calls_in s w)"
    by (simp add: calls_in_def model_calls_def conj_commute)
  ultimately show "tally (map (\<lambda>x. (snd (fst x), snd x))
        (filter (\<lambda>x. in_buckets ?p (fst (fst x)) \<and> snd (fst x) \<noteq> []) (fr_metrics rows))
      @ map ?C (filter (\<lambda>ob. at ob \<and> o_model ob \<noteq> None) (fr_edge_tools rows)))
      = tally (map ?C (model_calls (calls_in s w)))"
    using contribution_append_cong[OF refl contribution_mset[OF edges]] by (intro tally_cong) simp
qed

text \<open>The chains of the calls in a window.\<close>

lemma window_chains:
  assumes ready: "window_ready s t w b rows"
  defines "at \<equiv> \<lambda>ob. edge_counts w (plan_window w) (timestamp_millis (o_timestamp ob))"
  shows "contribution (map (\<lambda>x. (snd (snd (fst x)), snd x))
        (filter (\<lambda>x. in_buckets (plan_window w) (fst (fst x))) (fr_chains rows))
      @ map (\<lambda>ob. (edge_chain ob, 1)) (filter (\<lambda>ob. at ob \<and> o_kind ob = KMutation) (fr_edge_tools rows)))
      = contribution (map (\<lambda>ob. (edge_chain ob, 1)) (mutation_calls (calls_in s w)))"
    and "contribution (map (\<lambda>x. (snd (fst x), snd x))
        (filter (\<lambda>x. in_buckets (plan_window w) (fst (fst x)) \<and> fst (snd (fst x)) \<noteq> []) (fr_chains rows))
      @ map (\<lambda>ob. ((the (o_model ob), edge_chain ob), 1))
        (filter (\<lambda>ob. at ob \<and> o_kind ob = KMutation \<and> o_model ob \<noteq> None) (fr_edge_tools rows)))
      = contribution (map (\<lambda>ob. ((the (o_model ob), edge_chain ob), 1)) (mutation_calls (model_calls (calls_in s w))))"
proof -
  let ?p = "plan_window w" and ?ms = "\<lambda>ob. timestamp_millis (o_timestamp ob)" and ?obs = "s_tool_observations s"
  let ?C = "\<lambda>ob. (edge_chain ob, 1 :: u64)" and ?D = "\<lambda>ob. ((the (o_model ob), edge_chain ob), 1 :: u64)"
  have g: "grouped chain_key_of (\<lambda>_. 1) (mutation_calls ?obs) (map abs_chain (tb_chain_rollup t))"
    and w: "nonneg_window w"
    using ready by (auto simp: window_ready_def rollups_hold_def)
  have plain: "0 \<le> ?ms ob \<and> o_model ob \<noteq> Some []" if "ob \<in> set (mutation_calls ?obs)" for ob
    using ready_plain(2)[OF ready] that by (auto simp: mutation_calls_def)
  have key: "fst (chain_key_of ob) = hour_bucket (?ms ob)" "snd (snd (chain_key_of ob)) = edge_chain ob"
      "fst (snd (chain_key_of ob)) = key_sentinel (o_model ob)" for ob
    by (simp_all add: chain_key_of_def edge_chain_def key_sentinel_def observation_bucket_def)
  have edges: "mset (map ?C (filter (\<lambda>ob. at ob \<and> o_kind ob = KMutation) (fr_edge_tools rows)))
      = mset (map ?C (filter at (mutation_calls ?obs)))"
    using ready_edges(2)[OF ready, of "\<lambda>ob. at ob \<and> o_kind ob = KMutation" ?C]
    by (simp add: at_def filter_map comp_def mutation_calls_def conj_commute)
  have edges_by: "mset (map ?D (filter (\<lambda>ob. at ob \<and> o_kind ob = KMutation \<and> o_model ob \<noteq> None) (fr_edge_tools rows)))
      = mset (map ?D (filter (\<lambda>ob. at ob \<and> o_model ob \<noteq> None) (mutation_calls ?obs)))"
    using ready_edges(2)[OF ready, of "\<lambda>ob. at ob \<and> o_kind ob = KMutation \<and> o_model ob \<noteq> None" ?D]
    by (simp add: at_def filter_map comp_def mutation_calls_def conj_commute conj_left_commute)
  have "contribution (map (\<lambda>x. (snd (snd (fst x)), snd x))
        (filter (\<lambda>x. in_buckets ?p (fst (fst x)) \<and> True) (fr_chains rows))
      @ map ?C (filter (\<lambda>ob. at ob \<and> True) (mutation_calls ?obs)))
      = contribution (map ?C (filter (\<lambda>ob. in_ms_window w (?ms ob) \<and> True) (mutation_calls ?obs)))"
    unfolding ready_rollups(3)[OF ready] at_def
    by (rule window_contribution[OF g w, where hour = fst and f = "\<lambda>k. snd (snd k)" and kept = "\<lambda>_. True"])
      (use plain in \<open>auto simp: key\<close>)
  moreover have "filter (\<lambda>ob. in_ms_window w (?ms ob)) (mutation_calls ?obs) = mutation_calls (calls_in s w)"
    by (simp add: calls_in_def mutation_calls_def conj_commute)
  ultimately show "contribution (map (\<lambda>x. (snd (snd (fst x)), snd x))
        (filter (\<lambda>x. in_buckets ?p (fst (fst x))) (fr_chains rows))
      @ map ?C (filter (\<lambda>ob. at ob \<and> o_kind ob = KMutation) (fr_edge_tools rows)))
      = contribution (map ?C (mutation_calls (calls_in s w)))"
    using contribution_append_cong[OF refl contribution_mset[OF edges]] by simp
  have "contribution (map (\<lambda>x. (snd (fst x), snd x))
        (filter (\<lambda>x. in_buckets ?p (fst (fst x)) \<and> fst (snd (fst x)) \<noteq> []) (fr_chains rows))
      @ map ?D (filter (\<lambda>ob. at ob \<and> o_model ob \<noteq> None) (mutation_calls ?obs)))
      = contribution (map ?D (filter (\<lambda>ob. in_ms_window w (?ms ob) \<and> o_model ob \<noteq> None) (mutation_calls ?obs)))"
    unfolding ready_rollups(3)[OF ready] at_def
    by (rule window_contribution[OF g w, where hour = fst and f = snd])
      (use plain in \<open>auto simp: key prod_eq_iff[of "snd (chain_key_of _)"] sentinel_present\<close>)
  moreover have "filter (\<lambda>ob. in_ms_window w (?ms ob) \<and> o_model ob \<noteq> None) (mutation_calls ?obs)
      = mutation_calls (model_calls (calls_in s w))"
    by (simp add: calls_in_def mutation_calls_def model_calls_def conj_commute conj_left_commute)
  ultimately show "contribution (map (\<lambda>x. (snd (fst x), snd x))
        (filter (\<lambda>x. in_buckets ?p (fst (fst x)) \<and> fst (snd (fst x)) \<noteq> []) (fr_chains rows))
      @ map ?D (filter (\<lambda>ob. at ob \<and> o_kind ob = KMutation \<and> o_model ob \<noteq> None) (fr_edge_tools rows)))
      = contribution (map ?D (mutation_calls (model_calls (calls_in s w))))"
    using contribution_append_cong[OF refl contribution_mset[OF edges_by]] by simp
qed

lemma window_dimensions:
  assumes ready: "window_ready s t w b rows"
  shows "fold (add_edge_dimension w (plan_window w)) (fr_edge_dimensions rows)
      (fold (add_dimension_row (plan_window w)) (fr_dimensions rows) [])
    = nested_tally (map (\<lambda>i. (snd i, item_call i)) (dimension_items (calls_in s w)))"
proof -
  let ?p = "plan_window w" and ?ms = "\<lambda>i. timestamp_millis (o_timestamp (fst i))"
  let ?items = "dimension_items (s_tool_observations s)"
  let ?C = "\<lambda>ev. ((de_kind ev, de_value ev), event_call ev)" and ?D = "\<lambda>i. (snd i, item_call i)"
  have g: "grouped dimension_hour_key item_call ?items (map (abs_columns dimension_of_columns) (tb_dimension_rollup t))"
    and w: "nonneg_window w"
    using ready by (auto simp: window_ready_def rollups_hold_def)
  have plain: "0 \<le> ?ms i" if "i \<in> set ?items" for i
    using ready_plain(2)[OF ready item_fst[OF that]] by simp
  have edges: "mset (map ?C (filter (\<lambda>ev. edge_counts w ?p (de_timestamp_ms ev)) (fr_edge_dimensions rows)))
      = mset (map ?D (filter (\<lambda>i. edge_counts w ?p (?ms i)) ?items))"
    using ready_edges(3)[OF ready, of "\<lambda>ev. edge_counts w ?p (de_timestamp_ms ev)" ?C]
    by (simp add: filter_map comp_def)
  have "contribution (map (\<lambda>x. (snd (fst x), snd x)) (filter (\<lambda>x. in_buckets ?p (fst (fst x)) \<and> True) (fr_dimensions rows))
      @ map ?D (filter (\<lambda>i. edge_counts w ?p (?ms i) \<and> True) ?items))
    = contribution (map ?D (filter (\<lambda>i. in_ms_window w (?ms i) \<and> True) ?items))"
    unfolding ready_rollups(4)[OF ready]
    by (rule window_contribution[OF g w, where hour = fst and f = snd and kept = "\<lambda>_. True"])
      (use plain in \<open>auto simp: dimension_hour_key_def observation_bucket_def\<close>)
  moreover have "filter (\<lambda>i. in_ms_window w (?ms i)) ?items = dimension_items (calls_in s w)"
  proof -
    have "filter (\<lambda>i. in_ms_window w (?ms i)) (dimension_items obs)
        = dimension_items (filter (\<lambda>ob. in_ms_window w (timestamp_millis (o_timestamp ob))) obs)" for obs
      by (induction obs) (auto simp: dimension_items_def filter_map comp_def filter_empty_conv)
    then show ?thesis by (simp add: calls_in_def)
  qed
  ultimately have "contribution (map (\<lambda>x. (snd (fst x), snd x)) (filter (\<lambda>x. in_buckets ?p (fst (fst x))) (fr_dimensions rows))
      @ map ?C (filter (\<lambda>ev. edge_counts w ?p (de_timestamp_ms ev)) (fr_edge_dimensions rows)))
    = contribution (map ?D (dimension_items (calls_in s w)))"
    using contribution_append_cong[OF refl contribution_mset[OF edges]] by simp
  then show ?thesis
    unfolding add_dimension_row_fold add_edge_dimension_fold nested_tally_def[symmetric] nested_tally_append
    by (rule nested_tally_cong)
qed

section \<open>The session in memory\<close>

lemma mutation_chain_fields_mset: "mset xs = mset ys \<Longrightarrow> mutation_chain_fields xs = mutation_chain_fields ys"
  unfolding mutation_chain_fields_sums by (auto intro!: sum_mset_eq)

lemma finish_chain_cong:
  assumes "distinct (map fst m)" "distinct (map fst m')" "map_of m = map_of m'"
  shows "finish_chain counted m = finish_chain counted m'"
proof -
  from mset_eq_alist[OF assms] have "mset (map snd m) = mset (map snd m')" by (simp only: mset_map)
  from mutation_chain_fields_mset[OF this] show ?thesis by (simp add: finish_chain_def)
qed

text \<open>Counting keys through an injective renaming.\<close>

lemma hm_entry_renamed:
  assumes "inj_on f (insert k (fst ` set m))"
  shows "hm_entry (f k) d g (map (\<lambda>(a, v). (f a, v)) m) = map (\<lambda>(a, v). (f a, v)) (hm_entry k d g m)"
  using assms
proof (induction m)
  case (Cons x m)
  obtain a v where x: "x = (a, v)" by (cases x)
  from Cons.prems have "f a = f k \<longleftrightarrow> a = k" "inj_on f (insert k (fst ` set m))"
    by (auto simp: x inj_on_def)
  with Cons.IH show ?case by (simp add: x)
qed simp

lemma hm_tally_renamed:
  assumes "inj_on f (set ks)"
  shows "hm_tally (map (\<lambda>k. (f k, 1)) ks) = map (\<lambda>(a, v). (f a, v)) (count_table ks)"
  using assms
proof (induction ks rule: rev_induct)
  case (snoc k ks)
  have keys: "fst ` set (count_table ks) = set ks"
    using count_table_dom[of ks] by (simp add: dom_map_of_conv_image_fst)
  have "hm_tally (map (\<lambda>k. (f k, 1)) (ks @ [k])) = hm_entry (f k) 0 (\<lambda>c. c + 1) (hm_tally (map (\<lambda>k. (f k, 1)) ks))"
    by (simp add: hm_tally_def)
  also have "hm_tally (map (\<lambda>k. (f k, 1)) ks) = map (\<lambda>(a, v). (f a, v)) (count_table ks)"
    using snoc by (simp add: inj_on_insert)
  also have "hm_entry (f k) 0 (\<lambda>c. c + 1) \<dots> = map (\<lambda>(a, v). (f a, v)) (hm_entry k 0 (\<lambda>c. c + 1) (count_table ks))"
    using snoc.prems by (intro hm_entry_renamed) (simp add: keys)
  finally show ?case by (simp add: count_table_def)
qed (simp add: hm_tally_def count_table_def)

definition plain_calls :: "tool_observation list \<Rightarrow> bool" where
  "plain_calls obs \<longleftrightarrow> (\<forall>ob\<in>set obs. o_turn_id ob \<noteq> Some [] \<and> o_target ob \<noteq> Some [])"

lemma finish_chain_metrics:
  assumes "plain_calls obs" "contribution xs = contribution (map (\<lambda>ob. (edge_chain ob, 1)) (mutation_calls obs))"
  shows "finish_chain (counters obs) (hm_tally xs) = metrics obs"
proof -
  let ?f = "\<lambda>(turn, target). (unwrap_or [] turn, unwrap_or [] target)" and ?ks = "mutation_keys obs"
  have "inj_on ?f (set ?ks)"
  proof (rule inj_onI)
    fix x y
    assume xy: "x \<in> set ?ks" "y \<in> set ?ks" "?f x = ?f y"
    have "a = b" if "unwrap_or [] a = unwrap_or [] b" "a \<noteq> Some []" "b \<noteq> Some []" for a b :: "string option"
      using that by (cases a; cases b) auto
    with xy assms(1) show "x = y"
      by (auto simp: mutation_keys_def mutation_key_def plain_calls_def)
  qed
  then have "hm_tally (map (\<lambda>k. (?f k, 1)) ?ks) = map (\<lambda>(a, v). (?f a, v)) (count_table ?ks)"
    by (rule hm_tally_renamed)
  moreover have "map (\<lambda>ob. (edge_chain ob, 1 :: u64)) (mutation_calls obs) = map (\<lambda>k. (?f k, 1)) ?ks"
    by (simp add: mutation_calls_def mutation_keys_def edge_chain_def mutation_key_def comp_def)
  ultimately have "map snd (hm_tally (map (\<lambda>ob. (edge_chain ob, 1 :: u64)) (mutation_calls obs)))
      = map snd (count_table ?ks)"
    by (simp add: comp_def split_def)
  moreover have "finish_chain (counters obs) (hm_tally xs)
      = finish_chain (counters obs) (hm_tally (map (\<lambda>ob. (edge_chain ob, 1)) (mutation_calls obs)))"
    by (rule finish_chain_cong) (simp_all add: hm_tally_inv hm_tally_lookup assms(2))
  ultimately show ?thesis by (simp add: finish_chain_def metrics_eq)
qed

lemma model_chains_lookup:
  "map_of (model_chains xs []) model =
    (if model \<in> fst ` fst ` set xs
     then Some (hm_tally (map (\<lambda>x. (snd (fst x), snd x)) (filter (\<lambda>x. fst (fst x) = model) xs))) else None)"
  unfolding model_chains_def hm_tally_def
  by (subst tm.fold_lookup) (auto simp: tm_inv_def fold_map comp_def image_iff)

lemma model_chains_tally:
  "unwrap_or [] (map_of (model_chains xs []) model)
    = hm_tally (map (\<lambda>x. (snd (fst x), snd x)) (filter (\<lambda>x. fst (fst x) = model) xs))"
proof -
  have "filter (\<lambda>x. fst (fst x) = model) xs = []" if "model \<notin> fst ` fst ` set xs"
    using that by (auto simp: filter_empty_conv image_iff)
  then show ?thesis by (simp add: model_chains_lookup hm_tally_def)
qed

lemma tally_calls_lookup:
  "map_of (tally (map (\<lambda>ob. (the (o_model ob), observed_call ob)) (model_calls obs))) model
    = (if with_model model obs = [] then None else Some (counters (with_model model obs)))"
proof -
  have "filter (\<lambda>ob. the (o_model ob) = model) (model_calls obs) = with_model model obs"
    by (induction obs) (auto simp: model_calls_def with_model_def)
  then show ?thesis
    by (force simp: tally_lookup contribution_def filter_map comp_def counters_plus model_calls_def with_model_def
        filter_empty_conv image_iff)
qed

lemma finish_by_model:
  assumes "plain_calls obs" "contribution xs
    = contribution (map (\<lambda>ob. ((the (o_model ob), edge_chain ob), 1)) (mutation_calls (model_calls obs)))"
  shows "map (\<lambda>(model, counted). (model, finish_chain counted (unwrap_or [] (map_of (model_chains xs []) model))))
      (tally (map (\<lambda>ob. (the (o_model ob), observed_call ob)) (model_calls obs)))
    = snd (metrics_with_models obs)"
proof (rule tm_unique)
  let ?t = "tally (map (\<lambda>ob. (the (o_model ob), observed_call ob)) (model_calls obs))"
  let ?g = "\<lambda>model counted. finish_chain counted (unwrap_or [] (map_of (model_chains xs []) model))"
  have "tm_inv (map (\<lambda>(k, v). (k, g k v)) m) = tm_inv m" for g :: "string \<Rightarrow> tool_metrics \<Rightarrow> tool_metrics" and m
    by (simp add: tm_inv_def comp_def split_def)
  then show "tm_inv (map (\<lambda>(model, counted). (model, ?g model counted)) ?t)"
    by (simp add: tally_inv)
  show "tm_inv (snd (metrics_with_models obs))"
    by (simp add: metrics_with_models_eq map_values_inv model_accumulators_inv)
  show "map_of (map (\<lambda>(model, counted). (model, ?g model counted)) ?t) = map_of (snd (metrics_with_models obs))"
  proof
    fix model
    have look: "map_of (map (\<lambda>(k, v). (k, g k v)) m) model = map_option (g model) (map_of m model)"
      for g :: "string \<Rightarrow> tool_metrics \<Rightarrow> tool_metrics" and m
      by (induction m) auto
    have mine: "filter (\<lambda>ob. the (o_model ob) = model) (mutation_calls (model_calls obs)) = mutation_calls (with_model model obs)"
      by (induction obs) (auto simp: mutation_calls_def model_calls_def with_model_def)
    have "contribution (map (\<lambda>x. (snd (fst x), snd x)) (filter (\<lambda>x. fst (fst x) = model) xs))
        = contribution (map (\<lambda>x. (snd (fst x), snd x)) (filter (\<lambda>x. fst (fst x) = model)
            (map (\<lambda>ob. ((the (o_model ob), edge_chain ob), 1)) (mutation_calls (model_calls obs)))))"
      by (rule ext) (simp only: contribution_slice assms(2))
    also have "\<dots> = contribution (map (\<lambda>ob. (edge_chain ob, 1)) (mutation_calls (with_model model obs)))"
      by (simp add: filter_map comp_def mine)
    finally have "?g model (counters (with_model model obs)) = metrics (with_model model obs)"
      unfolding model_chains_tally
      by (intro finish_chain_metrics) (use assms(1) in \<open>auto simp: plain_calls_def with_model_def\<close>)
    then show "map_of (map (\<lambda>(model, counted). (model, ?g model counted)) ?t) model
        = map_of (snd (metrics_with_models obs)) model"
      by (simp add: look tally_calls_lookup metrics_by_model_lookup)
  qed
qed

text \<open>Buckets and dimensions.\<close>

lemma tally_buckets:
  "sort_buckets (map (\<lambda>((model, tier), v). \<lparr>b_model = model, b_service_tier = tier, b_tokens = v\<rparr>)
      (tally (map (\<lambda>e. (event_key e, h_delta e)) (filter modelled evs)))) = bucket_history evs"
proof (rule bucket_map_inj, rule tm_unique)
  let ?t = "tally (map (\<lambda>e. (event_key e, h_delta e)) (filter modelled evs))"
  let ?b = "map (\<lambda>((model, tier), v). \<lparr>b_model = model, b_service_tier = tier, b_tokens = v\<rparr>) ?t"
  have b: "bucket_map ?b = ?t"
    by (simp add: bucket_map_def bucket_pair_def comp_def split_def)
  then have d: "distinct (map fst (bucket_map ?b))" by (simp add: tally_inv tm.invar_distinct)
  have h: "bucket_map (bucket_history evs) = ?t"
    by (simp add: bucket_history_map tally_def fold_map comp_def)
  show "tm_inv (bucket_map (sort_buckets ?b))" by (rule sort_buckets_inv[OF d])
  show "tm_inv (bucket_map (bucket_history evs))" by (simp add: h tally_inv)
  show "map_of (bucket_map (sort_buckets ?b)) = map_of (bucket_map (bucket_history evs))"
    by (rule ext) (simp add: sort_buckets_lookup[OF d] b h)
qed

lemma tool_dimension_tally:
  "tool_dimension_metrics obs = tally (map (\<lambda>i. (snd i, item_call i)) (dimension_items obs))"
proof -
  have call: "dimension_call ob kv = tm_entry kv 0 (\<lambda>c. c + item_call (ob, kv))" for ob kv
  proof -
    have "accumulate_dimension_call (o_outcome ob) (o_output_bytes ob) (o_duration_ms ob) = (\<lambda>c. c + item_call (ob, kv))"
      by (rule ext) (simp add: item_call_def accumulate_dimension_plus)
    then show ?thesis by (intro ext) (simp only: dimension_call_def default_dimension_zero)
  qed
  have "tool_dimension_metrics obs = fold (\<lambda>i. tm_entry (snd i) 0 (\<lambda>c. c + item_call i)) (dimension_items obs) []"
  proof -
    have "fold (\<lambda>item out.
       let out = fold (\<lambda>provider. dimension_call item (''mcp_server'', provider)) (o_providers item) out;
           out = (case o_shell_family item of
                    Some family \<Rightarrow> dimension_call item (''shell_family'', family) out
                  | None \<Rightarrow> out)
       in case o_language item of
            Some language \<Rightarrow> dimension_call item (''language'', language) out
          | None \<Rightarrow> out) obs m
      = fold (\<lambda>i. tm_entry (snd i) 0 (\<lambda>c. c + item_call i)) (dimension_items obs) m" for m
      by (induction obs arbitrary: m)
        (simp_all add: dimension_items_def dimension_entries_def call fold_map comp_def split: option.split)
    then show ?thesis by (simp add: tool_dimension_metrics_def)
  qed
  then show ?thesis by (simp add: tally_def fold_map comp_def)
qed

lemma dimension_totals_nested:
  "dimension_totals obs tokens
    = add_context_sources tokens (nested_tally (map (\<lambda>i. (snd i, item_call i)) (dimension_items obs)))"
proof -
  let ?xs = "map (\<lambda>i. (snd i, item_call i)) (dimension_items obs)"
  have "fold (\<lambda>((kind, v), entry). tm_entry kind [] (tm_entry v default_dimension_metrics (\<lambda>_. entry))) (tally ?xs) []
      = nested_tally (tally ?xs)"
    using nested_distinct[OF tm.invar_distinct[OF tally_inv[of ?xs]]]
    by (simp add: default_dimension_zero split_def)
  also have "nested_tally (tally ?xs) = nested_tally ?xs"
    by (rule nested_tally_cong) (rule contribution_tally)
  finally show ?thesis
    by (simp add: dimension_totals_def tool_dimension_tally add_context_sources_def Let_def)
qed

section \<open>One session, one window\<close>

definition ms_window_of :: "range_window \<Rightarrow> ms_window" where
  "ms_window_of = (\<lambda>(from, to). (map_option timestamp_millis from, map_option timestamp_millis to))"

lemma in_ms_window_of: "in_ms_window (ms_window_of w) (timestamp_millis t) \<longleftrightarrow> in_window w t"
  by (cases w) (simp add: ms_window_of_def in_ms_window_def in_window_def split: option.splits)

lemma bare_finding_window: "finding_in_window (ms_window_of w) (bare_finding f) \<longleftrightarrow> finding_selected w f"
proof -
  have "f_timestamp (bare_finding f) = map_option (\<lambda>t. time_of_ms (timestamp_millis t)) (f_timestamp f)"
    by (simp add: bare_finding_def)
  then show ?thesis
    by (cases "f_timestamp f"; cases w)
      (simp_all add: finding_in_window_def finding_selected_def in_ms_window_of,
       simp add: ms_window_of_def)
qed

lemma bare_finding_summary:
  "optimization_summary_from_findings (map bare_finding fs) = optimization_summary_from_findings fs"
  by (simp add: optimization_summary_from_findings_def fold_map comp_def bare_finding_def)

lemma window_findings:
  assumes "plain_facts s" "facts_hold s t" "fetch_rows q b t st = Inr (rows, st')" "ms_window_of w \<in> set (wb_windows b)"
  shows "filter (finding_in_window (ms_window_of w)) (fr_findings rows)
    = map bare_finding (filter (finding_selected w) (s_optimization_findings s))"
proof -
  let ?want = "\<lambda>f. case map_option timestamp_millis (f_timestamp f) of
      None \<Rightarrow> (None, None) \<in> set (wb_windows b)
    | Some ms \<Rightarrow> in_ranges (map (\<lambda>(from, to). (unwrap_or min_i64 from, unwrap_or max_i64 to)) (wb_windows b)) ms"
  have r: "map read_finding_row (filter (finding_wanted b) (tb_findings t)) = map Some (fr_findings rows)"
    using assms(3) by (auto simp: fetch_rows_def then_query_Inr dest!: collect_bounded_Inr)
  have reads: "map read_finding_row (filter (finding_wanted b) rs) = map Some (map bare_finding (filter ?want fs))"
    if "map finding_row_of fs = map Some rs" for rs fs
    using that
  proof (induction fs arbitrary: rs)
    case (Cons f fs)
    then obtain r rs' where rs: "rs = r # rs'" and r: "finding_row_of f = Some r"
      by (cases rs) auto
    then have "fw_timestamp_ms r = map_option timestamp_millis (f_timestamp f)"
      by (auto simp: finding_row_of_def)
    with Cons rs r show ?case by (simp add: finding_wanted_def read_finding_row_of)
  qed simp
  have "map finding_row_of (s_optimization_findings s) = map Some (tb_findings t)"
    using assms(2) by (simp add: facts_hold_def)
  from r[symmetric, unfolded reads[OF this]]
  have "map Some (fr_findings rows) = map Some (map bare_finding (filter ?want (s_optimization_findings s)))" .
  then have rows: "fr_findings rows = map bare_finding (filter ?want (s_optimization_findings s))"
    by (rule injD[OF inj_mapI[OF inj_Some]])
  have "?want f" if "f \<in> set (s_optimization_findings s)" "finding_selected w f" for f
  proof (cases "f_timestamp f")
    case None
    with that(2) have "w = (None, None)" by (cases w) (simp add: finding_selected_def)
    with None assms(4) show ?thesis by (simp add: ms_window_of_def)
  next
    case (Some time)
    with assms(1) that(1) have "plain_time time" by (auto simp: plain_facts_def list_all_iff)
    moreover have "in_ms_window (ms_window_of w) (timestamp_millis time)"
      using Some that(2) by (simp add: finding_selected_def in_ms_window_of)
    ultimately have "unwrap_or min_i64 (fst (ms_window_of w)) \<le> timestamp_millis time
        \<and> timestamp_millis time \<le> unwrap_or max_i64 (snd (ms_window_of w))"
      by (cases "ms_window_of w"; cases "fst (ms_window_of w)"; cases "snd (ms_window_of w)")
        (auto simp: in_ms_window_def plain_time_def min_i64_def)
    with Some assms(4) show ?thesis
      by (auto simp: in_ranges_def list_ex_iff split_def intro!: bexI[of _ "ms_window_of w"])
  qed
  then have "filter (\<lambda>f. ?want f \<and> finding_selected w f) (s_optimization_findings s)
      = filter (finding_selected w) (s_optimization_findings s)"
    by (intro filter_cong) auto
  then show ?thesis
    by (simp add: rows filter_map comp_def bare_finding_window conj_commute)
qed

lemma range_totals_filtered:
  "range_totals s w =
    (let evs = events_in s (ms_window_of w); obs = calls_in s (ms_window_of w);
         found = filter (finding_selected w) (s_optimization_findings s)
     in \<lparr>r_pricing = None, r_tokens = \<Sum>e\<leftarrow>evs. h_delta e, r_buckets = bucket_history evs,
         r_tool_metrics = metrics obs, r_tool_metrics_by_model = snd (metrics_with_models obs),
         r_optimization_findings_count = word_of_nat (length found),
         r_optimization_summary = optimization_summary_from_findings found,
         r_tool_dimensions = dimension_totals obs (\<Sum>e\<leftarrow>evs. h_delta e)\<rparr>)"
proof -
  have evs: "events_in s (ms_window_of w) = select_window h_timestamp False w (s_tokens_history s)"
    and obs: "calls_in s (ms_window_of w) = select_window o_timestamp False w (s_tool_observations s)"
    by (simp_all add: events_in_def calls_in_def select_window_def in_ms_window_of)
  obtain b where "fold add_event (events_in s (ms_window_of w)) (0, []) = (\<Sum>e\<leftarrow>events_in s (ms_window_of w). h_delta e, b)"
      "sort_buckets b = bucket_history (events_in s (ms_window_of w))"
    using add_event_fold(1)[of "events_in s (ms_window_of w)" "(0, [])"] sorted_event_buckets[of "events_in s (ms_window_of w)"]
    by (metis add_0 fst_conv prod.collapse)
  then show ?thesis
    unfolding range_totals_eq range_total_def evs[symmetric] obs[symmetric]
    by (simp add: Let_def metrics_with_models_eq)
qed

theorem window_refines:
  assumes "window_ready s t (ms_window_of w) b rows" "fetch_rows q b t st = Inr (rows, st')"
    and "ms_window_of w \<in> set (wb_windows b)"
  shows "compute_range_totals (ms_window_of w) (plan_window (ms_window_of w)) rows = range_totals s w"
proof -
  let ?w = "ms_window_of w"
  let ?p = "plan_window ?w"
  let ?evs = "events_in s ?w" and ?obs = "calls_in s ?w"
  let ?found = "filter (finding_selected w) (s_optimization_findings s)"
  have "plain_facts s" "facts_hold s t" using assms(1) by (auto simp: window_ready_def)
  note found = window_findings[OF this assms(2,3)]
  have plain: "plain_calls ?obs"
    using ready_plain(2)[OF assms(1)] by (auto simp: plain_calls_def calls_in_def)
  obtain counts cs chs where tools: "fold (add_edge_tool ?w ?p) (fr_edge_tools rows)
      (fold (add_metric_row ?p) (fr_metrics rows) (default_metrics, []),
       fold (add_chain_row ?p) (fr_chains rows) ([], [])) = ((counters ?obs, counts), (cs, chs))"
    and counts: "counts = tally (map (\<lambda>ob. (the (o_model ob), observed_call ob)) (model_calls ?obs))"
    and cs: "finish_chain (counters ?obs) cs = metrics ?obs"
    and chs: "map (\<lambda>(model, counted). (model, finish_chain counted (unwrap_or [] (map_of chs model)))) counts
      = snd (metrics_with_models ?obs)"
  proof -
    let ?at = "\<lambda>ob. edge_counts ?w ?p (timestamp_millis (o_timestamp ob))"
    let ?all = "map (\<lambda>x. (snd (snd (fst x)), snd x)) (filter (\<lambda>x. in_buckets ?p (fst (fst x))) (fr_chains rows))
        @ map (\<lambda>ob. (edge_chain ob, 1)) (filter (\<lambda>ob. ?at ob \<and> o_kind ob = KMutation) (fr_edge_tools rows))"
    let ?by = "map (\<lambda>x. (snd (fst x), snd x))
          (filter (\<lambda>x. in_buckets ?p (fst (fst x)) \<and> fst (snd (fst x)) \<noteq> []) (fr_chains rows))
        @ map (\<lambda>ob. ((the (o_model ob), edge_chain ob), 1))
          (filter (\<lambda>ob. ?at ob \<and> o_kind ob = KMutation \<and> o_model ob \<noteq> None) (fr_edge_tools rows))"
    have model_append: "model_chains ys (model_chains xs []) = model_chains (xs @ ys) []" for xs ys
      by (simp add: model_chains_def)
    show thesis
    proof (rule that)
      show "fold (add_edge_tool ?w ?p) (fr_edge_tools rows)
          (fold (add_metric_row ?p) (fr_metrics rows) (default_metrics, []),
           fold (add_chain_row ?p) (fr_chains rows) ([], []))
        = ((counters ?obs, tally (map (\<lambda>ob. (the (o_model ob), observed_call ob)) (model_calls ?obs))),
           (hm_tally ?all, model_chains ?by []))"
        unfolding add_edge_tool_fold add_metric_row_fold add_chain_row_fold
        by (simp add: Let_def tally_def[symmetric] hm_tally_def[symmetric] tally_append hm_tally_append model_append
            default_metrics_zero window_counters[OF assms(1)] del: fold_append map_append not_None_eq)
    qed (rule refl,
      rule finish_chain_metrics[OF plain window_chains(1)[OF assms(1)]],
      rule finish_by_model[OF plain window_chains(2)[OF assms(1)]])
  qed
  show ?thesis
    unfolding compute_range_totals_def window_tokens[OF assms(1)] tools
      window_dimensions[OF assms(1)] range_totals_filtered Let_def prod.case found counts[symmetric] chs
    by (simp add: tally_buckets cs chs bare_finding_summary dimension_totals_nested)
qed

section \<open>Many sessions and windows\<close>

lemma batch_of_serves:
  assumes "w \<in> set windows"
  shows "ms_window_of w \<in> set (wb_windows (batch_of windows))"
    and "batch_serves (batch_of windows) (plan_window (ms_window_of w))"
proof -
  have ws: "wb_windows (batch_of windows) = map ms_window_of windows"
    by (simp add: batch_of_def ms_window_of_def Let_def)
  with assms show "ms_window_of w \<in> set (wb_windows (batch_of windows))" by simp
  have plan: "plan_window (ms_window_of w) \<in> set (map plan_window (map ms_window_of windows))"
    using assms by simp
  have buckets: "wb_buckets (batch_of windows) = filter_map wp_full_buckets (map plan_window (map ms_window_of windows))"
    and edges: "wb_edges (batch_of windows) = remdups (concat (map wp_edges (map plan_window (map ms_window_of windows))))"
    by (simp_all add: batch_of_def ms_window_of_def[abs_def] Let_def comp_assoc)
  have mapped: "r \<in> set (filter_map wp_full_buckets ps)" if "p \<in> set ps" "wp_full_buckets p = Some r" for p r ps
    using that by (induction ps) (auto split: option.splits)
  show "batch_serves (batch_of windows) (plan_window (ms_window_of w))"
    unfolding batch_serves_def
  proof (intro conjI allI impI)
    fix h
    assume "in_buckets (plan_window (ms_window_of w)) h"
    then obtain r where r: "wp_full_buckets (plan_window (ms_window_of w)) = Some r" "fst r \<le> h" "h \<le> snd r"
      by (auto simp: in_buckets_def split: option.splits prod.splits)
    from mapped[OF plan r(1)] r(2,3) show "in_ranges (wb_buckets (batch_of windows)) h"
      unfolding buckets by (auto simp: in_ranges_def list_ex_iff split_def)
  next
    fix v
    assume "in_ranges (wp_edges (plan_window (ms_window_of w))) v"
    with assms show "in_ranges (wb_edges (batch_of windows)) v"
      unfolding edges by (auto simp: in_ranges_def list_ex_iff)
  qed
qed

lemma map2_map: "map2 f (map g xs) (map h xs) = map (\<lambda>x. f (g x) (h x)) xs"
  by (induction xs) auto

lemma hm_entry_new: "k \<notin> fst ` set m \<Longrightarrow> hm_entry k d f m = m @ [(k, f d)]"
  by (induction m) auto

text \<open>What the ledger of a session must satisfy.\<close>

definition ledger_holds :: "session \<Rightarrow> session_tables \<Rightarrow> bool" where
  "ledger_holds s t \<longleftrightarrow> plain_facts s \<and> facts_hold s t \<and> rollups_hold s t"

definition session_results :: "(string \<Rightarrow> session) \<Rightarrow> string list \<Rightarrow> range_window \<Rightarrow> (string \<times> 'p range_totals_t) list" where
  "session_results sessions keys w =
     map (\<lambda>key. (key, range_totals (sessions key) w)) (filter (\<lambda>key. range_has_data (range_totals (sessions key) w :: 'p range_totals_t)) keys)"

lemma session_results_snoc:
  "session_results sessions (keys @ [key]) w =
    (if range_has_data (range_totals (sessions key) w :: 'p range_totals_t)
     then session_results sessions keys w @ [(key, range_totals (sessions key) w :: 'p range_totals_t)]
     else session_results sessions keys w)"
  by (simp add: session_results_def)

lemma add_session_refines:
  assumes "ledger_holds (sessions key) t" "\<forall>w\<in>set windows. nonneg_window (ms_window_of w)"
    and "fetch_rows q (batch_of windows) t st = Inr (rows, st')" "key \<notin> set done_keys"
  shows "add_session_ranges key (batch_of windows) rows (map (session_results sessions done_keys) windows)
    = map (session_results sessions (done_keys @ [key])) windows"
proof -
  have ws: "zip (wb_windows (batch_of windows)) (wb_plans (batch_of windows))
      = map (\<lambda>w. (ms_window_of w, plan_window (ms_window_of w))) windows"
    by (simp add: batch_of_def ms_window_of_def[abs_def] Let_def zip_map1 zip_map2 zip_same_conv_map)
  have range: "compute_range_totals (ms_window_of w) (plan_window (ms_window_of w)) rows = range_totals (sessions key) w"
    if "w \<in> set windows" for w
    using assms that batch_of_serves[OF that]
    by (intro window_refines[OF _ assms(3)]) (auto simp: window_ready_def ledger_holds_def)
  have fresh: "key \<notin> fst ` set (session_results sessions done_keys w)" for w
    using assms(4) by (auto simp: session_results_def)
  show ?thesis
    unfolding add_session_ranges_def ws map2_map
    by (rule map_cong) (simp_all add: range Let_def hm_entry_new[OF fresh] session_results_snoc)
qed

lemma range_totals_of_keys_refines:
  assumes "\<forall>key\<in>set keys. ledger_holds (sessions key) (tables key)"
    and "\<forall>w\<in>set windows. nonneg_window (ms_window_of w)" "distinct (done_keys @ keys)"
    and "range_totals_of_keys q tables (batch_of windows) keys (map (session_results sessions done_keys) windows) st
      = Inr (out, st')"
  shows "out = map (session_results sessions (done_keys @ keys)) windows"
  using assms(1,3,4)
proof (induction keys arbitrary: done_keys st)
  case (Cons key keys)
  then obtain rows st1 st2 where rows: "fetch_rows q (batch_of windows) (tables key) st1 = Inr (rows, st2)"
      and rest: "range_totals_of_keys q tables (batch_of windows) keys
        (add_session_ranges key (batch_of windows) rows (map (session_results sessions done_keys) windows)) st2 = Inr (out, st')"
    by (auto simp: then_query_Inr)
  have key: "ledger_holds (sessions key) (tables key)" "key \<notin> set done_keys"
    using Cons.prems(1,2) by simp_all
  from rest[unfolded add_session_refines[of sessions, OF key(1) assms(2) rows key(2)]]
    Cons.IH[of "done_keys @ [key]" st2] Cons.prems(1,2)
  show ?case by simp
qed simp

lemma range_totals_multi_on_refines:
  assumes "\<forall>key\<in>set keys. ledger_holds (sessions key) (tables key)"
    and "\<forall>w\<in>set windows. nonneg_window (ms_window_of w)" "distinct keys"
    and "range_totals_multi_on q tables keys windows st = Inr (out, st')"
  shows "out = map (session_results sessions keys) windows"
proof -
  have start: "map (session_results sessions []) windows = map (\<lambda>_. []) windows"
    by (simp add: session_results_def)
  from assms(4) obtain st1 where "range_totals_of_keys q tables (batch_of windows) keys
      (map (session_results sessions []) windows) st1 = Inr (out, st')"
    unfolding start by (auto simp: range_totals_multi_on_def then_query_Inr split: if_splits)
  from range_totals_of_keys_refines[OF assms(1,2) _ this] assms(3) show ?thesis by simp
qed

end
