(* ===== verification/History_Writes.thy ===== *)
theory History_Writes
  imports History_Refines
begin

text \<open>
  The writes of the ledger: an observation inserts the new suffix of the token history and replaces the
  other facts, and either maintains the rollups or leaves them to a rebuild. Both ways leave rollup rows
  that are sums of the facts, so the tables reached by any sequence of them answer windowed queries as
  the session does.
\<close>

section \<open>Grouping by insertion\<close>

lemma grouped_snoc:
  assumes "grouped key val items m"
  shows "grouped key val (items @ [i]) (hm_entry (key i) 0 (\<lambda>c. c + val i) m)"
proof -
  have inv: "hm_inv m" using assms by (simp add: grouped_def hm_inv_def)
  have d: "distinct (map fst (hm_entry (key i) 0 (\<lambda>c. c + val i) m))"
    using hm.entry_invar[OF inv] by (simp add: hm_inv_def)
  have rows: "map_of m k = (if k \<in> key ` set items then Some (\<Sum>i\<leftarrow>filter (\<lambda>i. key i = k) items. val i) else None)" for k
  proof (cases "map_of m k")
    case None
    then show ?thesis using assms by (auto simp: grouped_def map_of_eq_None_iff)
  next
    case (Some v)
    from map_of_SomeD[OF this] Some show ?thesis using assms by (force simp: grouped_def)
  qed
  have none: "k \<notin> key ` set items \<Longrightarrow> (\<Sum>i\<leftarrow>filter (\<lambda>i. key i = k) items. val i) = 0" for k
    by (induction items) auto
  have "v = (\<Sum>j\<leftarrow>filter (\<lambda>j. key j = k) (items @ [i]). val j)"
    if "(k, v) \<in> set (hm_entry (key i) 0 (\<lambda>c. c + val i) m)" for k v
  proof -
    have "map_of (hm_entry (key i) 0 (\<lambda>c. c + val i) m) k = Some v"
      using that map_of_distinct_in[OF d] by simp
    then show ?thesis
      using none by (auto simp: hm_entry_lookup rows split: if_splits)
  qed
  then show ?thesis
    using assms d by (auto simp: grouped_def hm_entry_keys)
qed

lemma grouped_append:
  "grouped key val items m \<Longrightarrow>
    grouped key val (items @ new) (fold (\<lambda>i. hm_entry (key i) 0 (\<lambda>c. c + val i)) new m)"
proof (induction new arbitrary: items m)
  case (Cons i new)
  from Cons.IH[OF grouped_snoc[OF Cons.prems, of i]] show ?case by simp
qed simp

lemma grouped_Nil: "grouped key val [] []"
  by (simp add: grouped_def)

lemma grouped_fold: "grouped key val items (fold (\<lambda>i. hm_entry (key i) 0 (\<lambda>c. c + val i)) items [])"
  using grouped_append[OF grouped_Nil, of key val items] by simp

text \<open>The same groups through related items.\<close>

lemma grouped_related:
  assumes "list_all2 (\<lambda>x y. key x = key' y \<and> val x = val' y) xs ys" "grouped key val xs m"
  shows "grouped key' val' ys m"
proof -
  have s: "(\<Sum>x\<leftarrow>filter (\<lambda>x. key x = k) xs. val x) = (\<Sum>y\<leftarrow>filter (\<lambda>y. key' y = k) ys. val' y)" for k
    using assms(1) by (induction rule: list_all2_induct) auto
  have "map key xs = map key' ys" using assms(1) by (induction rule: list_all2_induct) auto
  then have "key ` set xs = key' ` set ys" by (metis set_map)
  with assms(2) s show ?thesis by (simp add: grouped_def)
qed

lemma grouped_unique:
  assumes "grouped key val items m" "grouped key val items m'"
  shows "map_of m = map_of m'"
proof
  fix k
  have d: "distinct (map fst m)" "distinct (map fst m')" "fst ` set m = fst ` set m'"
    using assms by (auto simp: grouped_def)
  show "map_of m k = map_of m' k"
  proof (cases "map_of m k")
    case None
    with d(3) show ?thesis by (metis map_of_eq_None_iff)
  next
    case (Some v)
    then have "k \<in> fst ` set m'" using d(3) by (metis map_of_eq_None_iff option.distinct(1))
    then obtain v' where v': "map_of m' k = Some v'" by (metis map_of_eq_None_iff not_None_eq)
    with assms Some have "v = v'" by (auto simp: grouped_def dest!: map_of_SomeD)
    with Some v' show ?thesis by simp
  qed
qed

section \<open>Columns add up\<close>

lemma length_columns:
  "length a = 4 \<Longrightarrow> \<exists>x1 x2 x3 x4. a = [x1, x2, x3, x4]"
  "length a = 6 \<Longrightarrow> \<exists>x1 x2 x3 x4 x5 x6. a = [x1, x2, x3, x4, x5, x6]"
  "length a = 15 \<Longrightarrow> \<exists>x1 x2 x3 x4 x5 x6 x7 x8 x9 x10 x11 x12 x13 x14 x15.
     a = [x1, x2, x3, x4, x5, x6, x7, x8, x9, x10, x11, x12, x13, x14, x15]"
  by (simp_all add: eval_nat_numeral length_Suc_conv) (auto simp: length_Suc_conv)

lemma map2_word_of_int:
  "map (word_of_int :: int \<Rightarrow> 'w::len word) (map2 (+) a b) = map2 (+) (map word_of_int a) (map word_of_int b)"
proof (induction a arbitrary: b)
  case (Cons x a)
  then show ?case by (cases b) simp_all
qed simp

text \<open>Rows of \<open>n\<close> columns whose reader respects sums: an upsert adds to the value of a row, and a
  \<open>GROUP BY\<close> has the sums of the groups.\<close>

definition wide :: "nat \<Rightarrow> ('k \<times> int list) list \<Rightarrow> bool" where
  "wide n m \<longleftrightarrow> list_all (\<lambda>x. length (snd x) = n) m"

locale counter_columns =
  fixes n :: nat and value_of :: "u64 list \<Rightarrow> 'v::comm_monoid_add"
  assumes value_zero: "value_of (replicate n 0) = 0"
    and value_plus: "length a = n \<Longrightarrow> length b = n \<Longrightarrow> value_of (map2 (+) a b) = value_of a + value_of b"
begin

lemma upsert_columns_abs:
  assumes "length columns = n" "wide n m"
  shows "map (abs_columns value_of) (upsert_columns k columns m)
      = hm_entry k 0 (\<lambda>c. c + value_of (map word_of_int columns)) (map (abs_columns value_of) m)"
    and "wide n (upsert_columns k columns m)"
proof -
  have add: "value_of (map word_of_int (map2 (+) v columns)) = value_of (map word_of_int v) + value_of (map word_of_int columns)"
    if "length v = n" for v
    unfolding map2_word_of_int using assms(1) that by (intro value_plus) simp_all
  have zero: "map2 (+) (map (\<lambda>_. 0) columns) columns = columns" for columns :: "int list"
    by (induction columns) auto
  show "map (abs_columns value_of) (upsert_columns k columns m)
      = hm_entry k 0 (\<lambda>c. c + value_of (map word_of_int columns)) (map (abs_columns value_of) m)"
    using assms(2) unfolding upsert_columns_def
    by (induction m) (auto simp: abs_columns_def add zero wide_def simp del: map_map)
  show "wide n (upsert_columns k columns m)"
    using assms unfolding upsert_columns_def by (induction m) (auto simp: wide_def split: if_splits)
qed

lemma sum_columns_value:
  assumes "fold sum_step rows (Some v) = Some w" "length v = n"
    and "\<forall>columns\<in>set rows. length columns = n"
  shows "length w = n \<and> value_of (map word_of_int w)
    = value_of (map word_of_int v) + (\<Sum>columns\<leftarrow>rows. value_of (map word_of_int columns))"
  using assms
proof (induction rows arbitrary: v)
  case (Cons columns rows)
  have stopped: "fold sum_step xs None = None" for xs by (induction xs) (simp_all add: sum_step_def)
  from Cons.prems have next_step: "fold sum_step rows (Some (map2 (+) v columns)) = Some w"
    by (auto simp: sum_step_def[of columns] Let_def stopped split: if_splits)
  have "value_of (map word_of_int (map2 (+) v columns)) = value_of (map word_of_int v) + value_of (map word_of_int columns)"
    unfolding map2_word_of_int using Cons.prems by (intro value_plus) simp_all
  moreover have "length (map2 (+) v columns) = n" using Cons.prems by simp
  ultimately show ?case using Cons.IH[OF next_step] Cons.prems by (simp add: add.assoc del: map_map)
qed simp

lemma group_rows_grouped:
  assumes "group_rows n key columns rows = Some m"
    and "\<forall>r\<in>set rows. length (columns r) = n"
  shows "grouped key (\<lambda>r. value_of (map word_of_int (columns r))) rows (map (abs_columns value_of) m)" "wide n m"
proof -
  let ?sum = "\<lambda>k. sum_columns n (map columns (filter (\<lambda>r. key r = k) rows))"
  let ?val = "\<lambda>r. value_of (map word_of_int (columns r))"
  from assms(1) have m: "map (\<lambda>k. map_option (Pair k) (?sum k)) (remdups (map key rows)) = map Some m"
    by (simp add: group_rows_def collect_options_Some)
  have zero: "value_of (map word_of_int (replicate n 0)) = 0"
    by (simp add: value_zero)
  have group_value: "length w = n \<and> value_of (map word_of_int w) = (\<Sum>r\<leftarrow>filter (\<lambda>r. key r = k) rows. ?val r)"
    if "?sum k = Some w" for k w
    using sum_columns_value[OF that[unfolded sum_columns_def]] assms(2) zero by (simp add: comp_def)
  have "map fst m = ks \<and> wide n m
      \<and> (\<forall>x\<in>set (map (abs_columns value_of) m). snd x = (\<Sum>r\<leftarrow>filter (\<lambda>r. key r = fst x) rows. ?val r))"
    if "map (\<lambda>k. map_option (Pair k) (?sum k)) ks = map Some m" for ks m
    using that
  proof (induction ks arbitrary: m)
    case (Cons k ks)
    then obtain w m' where m': "m = (k, w) # m'" "?sum k = Some w"
        "map (\<lambda>k. map_option (Pair k) (?sum k)) ks = map Some m'"
      by auto
    from Cons.IH[OF m'(3)] group_value[OF m'(2)] show ?case
      by (simp add: m'(1) wide_def abs_columns_def)
  qed (simp add: wide_def)
  from this[OF m] have d: "map fst m = remdups (map key rows)" "wide n m"
      "\<forall>x\<in>set (map (abs_columns value_of) m). snd x = (\<Sum>r\<leftarrow>filter (\<lambda>r. key r = fst x) rows. ?val r)"
    by simp_all
  show "wide n m" by (rule d(2))
  have fsts: "map fst (map (abs_columns value_of) m) = remdups (map key rows)"
    using d(1) by (simp add: comp_def)
  from arg_cong[OF fsts, of set] have "fst ` set (map (abs_columns value_of) m) = key ` set rows"
    by (simp only: set_map set_remdups)
  moreover have "distinct (map fst (map (abs_columns value_of) m))"
    unfolding fsts by simp
  ultimately show "grouped key ?val rows (map (abs_columns value_of) m)"
    unfolding grouped_def using d(3) by (intro conjI) (assumption | fastforce)+
qed

end

interpretation token_rows: counter_columns 6 totals_of_columns
  by (unfold_locales, simp add: eval_nat_numeral zero_token_totals_ext_def)
    (auto dest!: length_columns(2) simp: plus_token_totals_ext_def)

interpretation metric_rows: counter_columns 15 metrics_of_columns
  by (unfold_locales, simp add: eval_nat_numeral zero_tool_metrics_ext_def default_metrics_def)
    (auto dest!: length_columns(3) simp: plus_tool_metrics_ext_def default_metrics_def)

interpretation dimension_rows: counter_columns 4 dimension_of_columns
  by (unfold_locales, simp add: eval_nat_numeral zero_dimension_metrics_ext_def default_dimension_metrics_def)
    (auto dest!: length_columns(1) simp: plus_dimension_metrics_ext_def default_dimension_metrics_def)

interpretation chain_rows: counter_columns 1 hd
  by unfold_locales (auto simp: length_Suc_conv)

section \<open>Token events\<close>

definition tokens_hold :: "token_row list \<Rightarrow> token_history_point list \<Rightarrow> bool" where
  "tokens_hold rows events \<longleftrightarrow>
     list_all2 token_row_holds rows events \<and> map tk_event_index rows = [0..<length events]"

lemma tokens_hold_index: "tokens_hold rows events \<Longrightarrow> next_event_index rows = length events"
proof -
  assume t: "tokens_hold rows events"
  then have len: "length rows = length events" by (auto simp: tokens_hold_def dest: list_all2_lengthD)
  have "set (map tk_event_index rows) = {0..<length events}"
    using t unfolding tokens_hold_def by (metis set_upt)
  moreover have "Max {0..<n} = n - 1" if "0 < n" for n :: nat
    using that by (intro Max_eqI) auto
  ultimately show ?thesis
    using len by (cases "rows = []"; cases "0 < length events") (auto simp: next_event_index_def)
qed

lemma backfill_holds:
  "backfill_requests es rows = Some rows' \<Longrightarrow> tokens_hold rows events \<Longrightarrow> tokens_hold rows' events"
proof (induction es arbitrary: rows)
  case (Cons e es)
  let ?f = "\<lambda>v row. if tk_event_key row = token_event_key e \<and> tk_request_input_tokens row = None
       then row\<lparr>tk_request_input_tokens := Some v\<rparr> else row"
  have index: "map tk_event_index (map (?f v) rs) = map tk_event_index rs" for v rs
    by (induction rs) auto
  have rows: "list_all2 token_row_holds (map (?f v) rs) evs" if "list_all2 token_row_holds rs evs" "fits_i64 v" for v rs evs
    using that by (induction rule: list_all2_induct) (auto simp: token_row_holds_def)
  from Cons.prems(2) have "tokens_hold (map (?f v) rows) events" if "fits_i64 v" for v
    using that unfolding tokens_hold_def index by (auto intro: rows)
  with Cons show ?case by (auto dest: to_i64_Some split: option.splits)
qed simp

lemma token_row_of_holds: "token_row_of i e = Some r \<Longrightarrow> token_row_holds r e \<and> tk_event_index r = i"
  by (auto simp: token_row_of_def token_row_holds_def split: option.splits)

lemma insert_new_rows:
  assumes "distinct (map tk_event_key (rows @ new))"
  shows "fold insert_token_row new rows = rows @ new"
  using assms
proof (induction new arbitrary: rows)
  case (Cons r new)
  then have "insert_token_row r rows = rows @ [r]" by (simp add: insert_token_row_def)
  with Cons.IH[of "rows @ [r]"] Cons.prems show ?case by simp
qed simp

lemma new_rows_hold:
  assumes "collect_options (map (\<lambda>(i, e). token_row_of i e) (drop k (enumerate 0 events))) = Some new"
  shows "list_all2 token_row_holds new (drop k events)" "map tk_event_index new = [k..<length events]"
proof -
  have "drop k (enumerate 0 events) = enumerate k (drop k events)"
    by (cases "k \<le> length events") (simp_all add: enumerate_eq_zip drop_zip)
  with assms have rows: "map (\<lambda>(i, e). token_row_of i e) (enumerate k (drop k events)) = map Some new"
    by (simp add: collect_options_Some)
  have "list_all2 token_row_holds new es \<and> map tk_event_index new = [n..<n + length es]"
    if "map (\<lambda>(i, e). token_row_of i e) (enumerate n es) = map Some new" for n es new
    using that
  proof (induction es arbitrary: n new)
    case (Cons e es)
    from Cons.prems obtain r rs where new: "new = r # rs" and r: "token_row_of n e = Some r"
        "map (\<lambda>(i, e). token_row_of i e) (enumerate (Suc n) es) = map Some rs"
      by auto
    have "[n..<n + length (e # es)] = n # [Suc n..<Suc n + length es]" by (subst upt_conv_Cons) simp_all
    with Cons.IH[OF r(2)] token_row_of_holds[OF r(1)] show ?case by (simp add: new)
  qed simp
  from this[OF rows] show "list_all2 token_row_holds new (drop k events)"
      "map tk_event_index new = [k..<length events]"
    by (cases "k \<le> length events"; simp add: not_le)+
qed

lemma event_keys_hold: "list_all2 token_row_holds rows events \<Longrightarrow> map tk_event_key rows = map token_event_key events"
  by (induction rule: list_all2_induct) (auto simp: token_row_holds_def)

lemma upsert_tokens_abs:
  assumes "list_all2 token_row_holds new es" "wide 6 m"
  shows "map (abs_columns totals_of_columns) (fold (\<lambda>r. upsert_columns (token_key_of r) (tk_columns r)) new m)
      = fold (\<lambda>e. hm_entry (token_hour_key e) 0 (\<lambda>c. c + h_delta e)) es (map (abs_columns totals_of_columns) m)
    \<and> wide 6 (fold (\<lambda>r. upsert_columns (token_key_of r) (tk_columns r)) new m)"
  using assms
proof (induction arbitrary: m rule: list_all2_induct)
  case (Cons r new e es)
  from Cons.hyps(1) have r: "token_key_of r = token_hour_key e" "token_columns (h_delta e) = Some (tk_columns r)"
    by (auto simp: token_row_holds_def token_key_of_def token_hour_key_def)
  note columns = token_columns_value[OF r(2)]
  note up = token_rows.upsert_columns_abs[OF columns(1) Cons.prems, of "token_key_of r"]
  from Cons.IH[OF up(2)] up(1) show ?case by (simp add: r(1) columns(2))
qed simp

text \<open>The new suffix of an append-only history.\<close>

lemma store_token_events_holds:
  assumes "store_token_events events maintain t = Some t'" "tokens_hold (tb_tokens t) (take k events)" "k \<le> length events"
    and "distinct (map token_event_key events)" "wide 6 (tb_token_rollup t)"
  shows "tokens_hold (tb_tokens t') events" "wide 6 (tb_token_rollup t')"
    and "maintain \<Longrightarrow> grouped token_hour_key h_delta (take k events) (map (abs_columns totals_of_columns) (tb_token_rollup t))
      \<Longrightarrow> grouped token_hour_key h_delta events (map (abs_columns totals_of_columns) (tb_token_rollup t'))"
    and "t' = t\<lparr>tb_tokens := tb_tokens t', tb_token_rollup := tb_token_rollup t'\<rparr>"
proof -
  from assms(2,3) have index: "next_event_index (tb_tokens t) = k"
    by (auto dest: tokens_hold_index simp: min_def)
  from assms(1) obtain rows new where
      rows: "rows = tb_tokens t \<or> backfill_requests (take k events) (tb_tokens t) = Some rows"
    and new: "collect_options (map (\<lambda>(i, e). token_row_of i e) (drop k (enumerate 0 events))) = Some new"
    and t': "t' = t\<lparr>tb_tokens := fold insert_token_row new rows,
               tb_token_rollup :=
                 (if maintain then fold (\<lambda>r. upsert_columns (token_key_of r) (tk_columns r)) new (tb_token_rollup t)
                  else tb_token_rollup t)\<rparr>"
    unfolding store_token_events_def index Let_def by (auto split: option.splits if_splits)
  from rows assms(2) have hold: "tokens_hold rows (take k events)" by (auto dest: backfill_holds)
  note suffix = new_rows_hold[OF new]
  have all: "list_all2 token_row_holds (rows @ new) events"
    using list_all2_appendI[OF _ suffix(1), of rows "take k events"] hold by (simp add: tokens_hold_def)
  have inserted: "fold insert_token_row new rows = rows @ new"
    by (rule insert_new_rows) (simp only: event_keys_hold[OF all] assms(4))
  have "map tk_event_index (rows @ new) = [0..<length events]"
    using hold suffix(2) assms(3) upt_add_eq_append[of 0 k "length events - k"]
    by (simp add: tokens_hold_def min_def)
  with all show "tokens_hold (tb_tokens t') events" by (simp add: t' inserted tokens_hold_def)
  note up = upsert_tokens_abs[OF suffix(1) assms(5)]
  show "wide 6 (tb_token_rollup t')" using up assms(5) by (simp add: t')
  show "grouped token_hour_key h_delta events (map (abs_columns totals_of_columns) (tb_token_rollup t'))"
    if "maintain" "grouped token_hour_key h_delta (take k events) (map (abs_columns totals_of_columns) (tb_token_rollup t))"
    using grouped_append[OF that(2), of "drop k events"] up that(1) by (simp add: t')
  show "t' = t\<lparr>tb_tokens := tb_tokens t', tb_token_rollup := tb_token_rollup t'\<rparr>" by (simp add: t')
qed

section \<open>Tool events\<close>

lemma fold_hm_cong:
  "(\<And>i c. i \<in> set xs \<Longrightarrow> upd i c = c + val i) \<Longrightarrow>
    fold (\<lambda>i. hm_entry (key i) d (upd i)) xs m = fold (\<lambda>i. hm_entry (key i) d (\<lambda>c. c + val i)) xs m"
proof (induction xs arbitrary: m)
  case (Cons x xs)
  then have "upd x = (\<lambda>c. c + val x)" by (intro ext) simp
  with Cons show ?case by simp
qed simp

lemma hour_metrics_grouped: "grouped tool_hour_key observed_call obs (hour_metrics obs)"
proof -
  have "hour_metrics obs = fold (\<lambda>ob. hm_entry (tool_hour_key ob) 0 (\<lambda>c. c + observed_call ob)) obs []"
    unfolding hour_metrics_def tool_hour_key_def default_metrics_zero
    by (rule fold_hm_cong) (rule accumulate_plus)
  then show ?thesis by (simp add: grouped_fold)
qed

lemma hour_chains_grouped: "grouped chain_key_of (\<lambda>_. 1) (mutation_calls obs) (hour_chains obs)"
proof -
  have "fold (\<lambda>ob. if o_kind ob = KMutation then hm_entry (chain_key_of ob) 0 (\<lambda>n. n + 1) else (\<lambda>m. m)) obs m
      = fold (\<lambda>ob. hm_entry (chain_key_of ob) 0 (\<lambda>n. n + 1)) (mutation_calls obs) m" for m :: "(chain_key \<times> u64) list"
    by (induction obs arbitrary: m) (auto simp: mutation_calls_def)
  then show ?thesis using grouped_fold[of chain_key_of "\<lambda>_. 1 :: u64"] by (simp add: hour_chains_def)
qed

lemma hour_dimensions_grouped: "grouped dimension_hour_key item_call (dimension_items obs) (hour_dimensions obs)"
proof -
  let ?upd = "\<lambda>i. accumulate_dimension_call (o_outcome (fst i)) (o_output_bytes (fst i)) (o_duration_ms (fst i))"
  have "fold (\<lambda>ob. fold (\<lambda>(kind, v). hm_entry (observation_bucket ob, kind, v) default_dimension_metrics
         (accumulate_dimension_call (o_outcome ob) (o_output_bytes ob) (o_duration_ms ob))) (dimension_entries ob)) obs m
      = fold (\<lambda>i. hm_entry (dimension_hour_key i) default_dimension_metrics (?upd i)) (dimension_items obs) m" for m
    by (induction obs arbitrary: m)
      (simp_all add: dimension_items_def fold_map comp_def dimension_hour_key_def split_def)
  then have "hour_dimensions obs = fold (\<lambda>i. hm_entry (dimension_hour_key i) 0 (\<lambda>c. c + item_call i)) (dimension_items obs) []"
    unfolding hour_dimensions_def default_dimension_zero
    by (simp add: fold_hm_cong[where upd = ?upd and val = item_call] item_call_def accumulate_dimension_plus)
  then show ?thesis by (simp add: grouped_fold)
qed

text \<open>Written rows read back as the map they were written from.\<close>

lemma rows_of_map_abs:
  assumes "rows_of_map columns m = Some rows"
    and "\<And>k v c. (k, v) \<in> set m \<Longrightarrow> columns v = Some c \<Longrightarrow> meaning (k, c) = (k, v)"
  shows "map meaning rows = m"
proof -
  from assms(1) have "map (\<lambda>(k, v). map_option (Pair k) (columns v)) m = map Some rows"
    by (simp add: rows_of_map_def collect_options_Some)
  then show ?thesis
    using assms(2)
  proof (induction m arbitrary: rows)
    case (Cons x m)
    then show ?case by (cases x; cases rows) auto
  qed simp
qed

text \<open>Counters of calls have no chain fields.\<close>

definition chainless :: "tool_metrics \<Rightarrow> bool" where
  "chainless m \<longleftrightarrow> m_mutation_targets m = 0 \<and> m_one_shot_mutations m = 0 \<and> m_retry_count m = 0"

lemma chainless_plus: "chainless a \<Longrightarrow> chainless b \<Longrightarrow> chainless (a + b)"
  by (simp add: chainless_def plus_tool_metrics_ext_def)

lemma chainless_call: "chainless (observed_call ob)"
  unfolding chainless_def observed_call_def accumulate_observation_def zero_tool_metrics_ext_def
  by (cases "o_kind ob"; cases "o_outcome ob"; cases "o_origin ob")
    (simp_all add: count_kind_def count_outcome_def count_origin_def)

lemma chainless_sum: "chainless (\<Sum>ob\<leftarrow>obs. observed_call ob)"
  by (induction obs) (auto intro: chainless_plus chainless_call, simp add: chainless_def zero_tool_metrics_ext_def)

lemma metric_columns_value:
  assumes "metric_columns m = Some ns" "chainless m"
  shows "metrics_of_columns (map word_of_int ns) = m"
proof -
  from assms(1) have "map to_i64 [m_calls m, m_reads m, m_searches m, m_mutations m, m_commands m, m_other m,
       m_successes m, m_failures m, m_unknown m, m_duration_ms m, m_output_bytes m, m_core_origin_calls m,
       m_mcp_origin_calls m, m_provider_origin_calls m, m_unknown_origin_calls m] = map Some ns"
    by (simp only: metric_columns_def collect_options_Some)
  from columns_of_i64[OF this] show ?thesis
    using assms(2) by (cases m) (simp add: chainless_def default_metrics_def)
qed

lemma item_call_tokens: "d_tokens (item_call i) = 0"
  by (simp add: item_call_def dimension_call_of_def accumulate_dimension_call_def zero_dimension_metrics_ext_def)

lemma item_sum_tokens: "d_tokens (\<Sum>i\<leftarrow>is. item_call i) = 0"
  by (induction "is") (simp_all add: item_call_tokens plus_dimension_metrics_ext_def zero_dimension_metrics_ext_def)

lemma dimension_columns_value:
  assumes "dimension_columns d = Some ns" "d_tokens d = 0"
  shows "dimension_of_columns (map word_of_int ns) = d"
proof -
  from assms(1) have "map to_i64 [d_calls d, d_failures d, d_output_bytes d, d_duration_ms d] = map Some ns"
    by (simp only: dimension_columns_def collect_options_Some)
  from columns_of_i64[OF this] show ?thesis
    using assms(2) by (cases d) (simp add: default_dimension_metrics_def)
qed

lemma grouped_value: "grouped key val items m \<Longrightarrow> (k, v) \<in> set m \<Longrightarrow> v = (\<Sum>i\<leftarrow>filter (\<lambda>i. key i = k) items. val i)"
  by (auto simp: grouped_def)

lemma hour_values:
  "(k, v) \<in> set (hour_metrics obs) \<Longrightarrow> chainless v"
  "(k', d) \<in> set (hour_dimensions obs) \<Longrightarrow> d_tokens d = 0"
  by (auto dest!: grouped_value[OF hour_metrics_grouped] grouped_value[OF hour_dimensions_grouped]
      simp: chainless_sum item_sum_tokens)

lemma hour_rows_abs:
  "rows_of_map metric_columns (hour_metrics obs) = Some ms \<Longrightarrow> map (abs_columns metrics_of_columns) ms = hour_metrics obs"
  "rows_of_map to_i64 (hour_chains obs) = Some cs \<Longrightarrow> map abs_chain cs = hour_chains obs"
  "rows_of_map dimension_columns (hour_dimensions obs) = Some ds \<Longrightarrow>
    map (abs_columns dimension_of_columns) ds = hour_dimensions obs"
proof -
  show "map (abs_columns metrics_of_columns) ms = hour_metrics obs"
    if "rows_of_map metric_columns (hour_metrics obs) = Some ms"
    using that
    by (rule rows_of_map_abs) (simp add: abs_columns_def metric_columns_value[OF _ hour_values(1)])
  show "map abs_chain cs = hour_chains obs" if "rows_of_map to_i64 (hour_chains obs) = Some cs"
    using that by (rule rows_of_map_abs) (auto simp: abs_chain_def dest: to_i64_Some)
  show "map (abs_columns dimension_of_columns) ds = hour_dimensions obs"
    if "rows_of_map dimension_columns (hour_dimensions obs) = Some ds"
    using that
    by (rule rows_of_map_abs) (simp add: abs_columns_def dimension_columns_value[OF _ hour_values(2)])
qed

lemma store_tool_events_holds:
  assumes "store_tool_events obs maintain t = Some t'"
  shows "map tool_row_of obs = map Some (tb_tools t')"
    and "map dimension_row_of (dimension_items obs) = map Some (tb_dimensions t')"
    and "tb_tokens t' = tb_tokens t \<and> tb_token_rollup t' = tb_token_rollup t"
    and "maintain \<Longrightarrow> grouped tool_hour_key observed_call obs (map (abs_columns metrics_of_columns) (tb_metric_rollup t'))
      \<and> grouped chain_key_of (\<lambda>_. 1) (mutation_calls obs) (map abs_chain (tb_chain_rollup t'))
      \<and> grouped dimension_hour_key item_call (dimension_items obs)
          (map (abs_columns dimension_of_columns) (tb_dimension_rollup t'))"
proof -
  from assms obtain tools dims where
      tools: "collect_options (map tool_row_of obs) = Some tools"
    and dims: "collect_options (concat (map dimension_rows_of obs)) = Some dims"
    by (auto simp: store_tool_events_def store_tool_event_facts_def store_tool_dimension_facts_def
        split: option.splits bind_splits)
  let ?t = "t\<lparr>tb_tools := tools, tb_dimensions := dims\<rparr>"
  have "Option.bind (store_tool_event_facts obs t) (store_tool_dimension_facts obs) = Some ?t"
    by (simp add: store_tool_event_facts_def store_tool_dimension_facts_def tools dims)
  with assms have t': "t' = ?t \<and> \<not> maintain \<or> (\<exists>ds ms cs.
      rows_of_map dimension_columns (hour_dimensions obs) = Some ds
      \<and> rows_of_map metric_columns (hour_metrics obs) = Some ms \<and> rows_of_map to_i64 (hour_chains obs) = Some cs
      \<and> t' = ?t\<lparr>tb_metric_rollup := ms, tb_chain_rollup := cs, tb_dimension_rollup := ds\<rparr>)"
    by (auto simp: store_tool_events_def split: if_splits option.splits)
  then show "map tool_row_of obs = map Some (tb_tools t')"
      "map dimension_row_of (dimension_items obs) = map Some (tb_dimensions t')"
      "tb_tokens t' = tb_tokens t \<and> tb_token_rollup t' = tb_token_rollup t"
    using tools dims by (auto simp: collect_options_Some dimension_rows_items)
  show "grouped tool_hour_key observed_call obs (map (abs_columns metrics_of_columns) (tb_metric_rollup t'))
      \<and> grouped chain_key_of (\<lambda>_. 1) (mutation_calls obs) (map abs_chain (tb_chain_rollup t'))
      \<and> grouped dimension_hour_key item_call (dimension_items obs)
          (map (abs_columns dimension_of_columns) (tb_dimension_rollup t'))" if maintain
    using t' that hour_metrics_grouped hour_chains_grouped hour_dimensions_grouped
    by (auto simp: hour_rows_abs)
qed

lemma store_finding_events_holds:
  assumes "store_finding_events found t = Some t'"
  shows "map finding_row_of found = map Some (tb_findings t')" "t' = t\<lparr>tb_findings := tb_findings t'\<rparr>"
  using assms by (auto simp: store_finding_events_def collect_options_Some)

section \<open>Rebuilding\<close>

lemma tool_row_meaning:
  assumes "tool_row_of ob = Some r"
  shows "tool_row_key r = tool_hour_key ob" "metrics_of_columns (map word_of_int (tool_row_columns r)) = observed_call ob"
    and "chain_row_key r = chain_key_of ob" "tw_kind r = ''mutation'' \<longleftrightarrow> o_kind ob = KMutation"
proof -
  from assms obtain n where n: "to_i64 (o_output_bytes ob) = Some n"
    and r: "tw_timestamp_ms r = timestamp_millis (o_timestamp ob)" "tw_model r = o_model ob"
      "tw_kind r = tool_kind_as_str (o_kind ob)" "tw_outcome r = tool_outcome_str (o_outcome ob)"
      "tw_turn_id r = o_turn_id ob" "tw_target r = o_target ob" "tw_duration_ms r = map_option cast_i64 (o_duration_ms ob)"
      "tw_output_bytes r = n" "tw_origin r = tool_origin_as_str (o_origin ob)"
    by (auto simp: tool_row_of_def)
  show "tool_row_key r = tool_hour_key ob" "chain_row_key r = chain_key_of ob"
    by (simp_all add: tool_row_key_def tool_hour_key_def chain_row_key_def chain_key_of_def observation_bucket_def r)
  show "tw_kind r = ''mutation'' \<longleftrightarrow> o_kind ob = KMutation" unfolding r by (cases "o_kind ob") simp_all
  have words: "word_of_int n = o_output_bytes ob"
      "word_of_int (unwrap_or 0 (map_option cast_i64 (o_duration_ms ob))) = unwrap_or 0 (o_duration_ms ob)"
    using to_i64_Some[OF n] by (simp, cases "o_duration_ms ob", simp_all add: cast_i64_def)
  have kinds: "word_of_int (sql_bool (tool_kind_as_str k = ''read'')) = (of_bool (k = KRead) :: u64)"
      "word_of_int (sql_bool (tool_kind_as_str k = ''search'')) = (of_bool (k = KSearch) :: u64)"
      "word_of_int (sql_bool (tool_kind_as_str k = ''mutation'')) = (of_bool (k = KMutation) :: u64)"
      "word_of_int (sql_bool (tool_kind_as_str k = ''command'')) = (of_bool (k = KCommand) :: u64)"
      "word_of_int (sql_bool (tool_kind_as_str k = ''other'')) = (of_bool (k = KOther) :: u64)" for k
    by (cases k; simp add: sql_bool_def)+
  have outcomes: "word_of_int (sql_bool (tool_outcome_str v = ''success'')) = (of_bool (v = OutSuccess) :: u64)"
      "word_of_int (sql_bool (tool_outcome_str v = ''failure'')) = (of_bool (v = OutFailure) :: u64)"
      "word_of_int (sql_bool (tool_outcome_str v \<notin> {''success'', ''failure''}))
        = (of_bool (v = OutPending \<or> v = OutUnknown) :: u64)" for v
    by (cases v; simp add: sql_bool_def tool_outcome_str_def)+
  have origins: "word_of_int (sql_bool (tool_origin_as_str v = ''core'')) = (of_bool (v = OrgCore) :: u64)"
      "word_of_int (sql_bool (tool_origin_as_str v = ''mcp'')) = (of_bool (v = OrgMcp) :: u64)"
      "word_of_int (sql_bool (tool_origin_as_str v = ''provider'')) = (of_bool (v = OrgProvider) :: u64)"
      "word_of_int (sql_bool (tool_origin_as_str v \<notin> {''core'', ''mcp'', ''provider''}))
        = (of_bool (v = OrgUnknown) :: u64)" for v
    by (cases v; simp add: sql_bool_def)+
  have "metrics_of_columns (map word_of_int (tool_row_columns r)) = observed_call ob"
    using chainless_call[of ob]
    unfolding tool_row_columns_def r list.map words kinds outcomes origins metrics_of_columns.simps
    by (intro tool_metrics.equality)
      (simp_all add: chainless_def observed_call_def accumulate_observation_def count_sels zero_tool_metrics_ext_def
        default_metrics_def)
  then show "metrics_of_columns (map word_of_int (tool_row_columns r)) = observed_call ob" .
qed

lemma dimension_row_meaning:
  assumes "dimension_row_of i = Some r"
  shows "dimension_row_key r = dimension_hour_key i"
    and "dimension_of_columns (map word_of_int (dimension_row_columns r)) = item_call i"
proof -
  obtain ob kind v where i: "i = (ob, kind, v)" by (cases i)
  from assms obtain n where n: "to_i64 (o_output_bytes ob) = Some n"
    and r: "r = \<lparr>dw_timestamp_ms = timestamp_millis (o_timestamp ob), dw_model = o_model ob, dw_kind = kind,
      dw_value = v, dw_outcome = tool_outcome_str (o_outcome ob), dw_output_bytes = n,
      dw_duration_ms = map_option cast_i64 (o_duration_ms ob)\<rparr>"
    by (auto simp: dimension_row_of_def i)
  show "dimension_row_key r = dimension_hour_key i"
    by (simp add: dimension_row_key_def dimension_hour_key_def observation_bucket_def r i)
  have "word_of_int (unwrap_or 0 (map_option cast_i64 (o_duration_ms ob))) = unwrap_or 0 (o_duration_ms ob)"
    by (cases "o_duration_ms ob") (simp_all add: cast_i64_def)
  moreover have "tool_outcome_str (o_outcome ob) = ''failure'' \<longleftrightarrow> o_outcome ob = OutFailure"
    by (cases "o_outcome ob") (simp_all add: tool_outcome_str_def)
  ultimately show "dimension_of_columns (map word_of_int (dimension_row_columns r)) = item_call i"
    using to_i64_Some[OF n]
    by (simp add: dimension_row_columns_def r i item_call_def dimension_call_of_def accumulate_dimension_call_def
        zero_dimension_metrics_ext_def default_dimension_metrics_def sql_bool_def)
qed

end
