(* ===== verification/History_Recorded.thy ===== *)
theory History_Recorded
  imports History_Writes "HOL-Library.Sublist"
begin

text \<open>
  The ledgers that observations and rebuilds reach, and what a windowed query of them returns: the
  totals of the stored sessions, for any sequence of observations of an append-only source, whether
  the rollups were maintained or deferred and rebuilt.
\<close>

section \<open>Reachable ledgers\<close>

definition empty_ledger :: session_ledger where
  "empty_ledger = \<lparr>lg_stored = None, lg_stale = False, lg_tables = empty_tables\<rparr>"

text \<open>A source that only appends: whatever replaces a snapshot extends its token history.\<close>

definition appends_to :: "session_ledger \<Rightarrow> session \<Rightarrow> bool" where
  "appends_to l s \<longleftrightarrow>
     (case lg_stored l of None \<Rightarrow> True | Some current \<Rightarrow> prefix (s_tokens_history current) (s_tokens_history s))"

inductive recorded :: "session_ledger \<Rightarrow> bool" where
  fresh: "recorded empty_ledger"
| observed: "recorded l \<Longrightarrow> appends_to l s \<Longrightarrow> observe_facts same s maintain l = Some l' \<Longrightarrow> recorded l'"
| rebuilt: "recorded l \<Longrightarrow> rebuild_if_stale l = Some l' \<Longrightarrow> recorded l'"

definition distinct_events :: "session \<Rightarrow> bool" where
  "distinct_events s \<longleftrightarrow> distinct (map token_event_key (s_tokens_history s))"

definition ledger_inv :: "session_ledger \<Rightarrow> bool" where
  "ledger_inv l \<longleftrightarrow>
     (case lg_stored l of
        None \<Rightarrow> l = empty_ledger
      | Some s \<Rightarrow> distinct_events s \<longrightarrow>
          tokens_hold (tb_tokens (lg_tables l)) (s_tokens_history s) \<and> facts_hold s (lg_tables l)
          \<and> wide 6 (tb_token_rollup (lg_tables l)) \<and> (\<not> lg_stale l \<longrightarrow> rollups_hold s (lg_tables l)))"

lemma store_facts_holds:
  assumes "store_facts s maintain t = Some t'" "tokens_hold (tb_tokens t) (take k (s_tokens_history s))"
    and "k \<le> length (s_tokens_history s)" "distinct_events s" "wide 6 (tb_token_rollup t)"
  shows "tokens_hold (tb_tokens t') (s_tokens_history s)" "facts_hold s t'" "wide 6 (tb_token_rollup t')"
    and "maintain \<Longrightarrow> grouped token_hour_key h_delta (take k (s_tokens_history s))
        (map (abs_columns totals_of_columns) (tb_token_rollup t)) \<Longrightarrow> rollups_hold s t'"
proof -
  from assms(1) obtain t1 t2 where
      t1: "store_token_events (s_tokens_history s) maintain t = Some t1"
    and t2: "store_tool_events (s_tool_observations s) maintain t1 = Some t2"
    and t': "store_finding_events (s_optimization_findings s) t2 = Some t'"
    by (auto simp: store_facts_def bind_eq_Some_conv)
  note tokens = store_token_events_holds[OF t1 assms(2,3) assms(4)[unfolded distinct_events_def] assms(5)]
  note tools = store_tool_events_holds[OF t2]
  note found = store_finding_events_holds[OF t']
  have same: "tb_tokens t' = tb_tokens t1" "tb_token_rollup t' = tb_token_rollup t1" "tb_tools t' = tb_tools t2"
      "tb_dimensions t' = tb_dimensions t2" "tb_metric_rollup t' = tb_metric_rollup t2"
      "tb_chain_rollup t' = tb_chain_rollup t2" "tb_dimension_rollup t' = tb_dimension_rollup t2"
    using tools(3) by (subst found(2); simp)+
  show "tokens_hold (tb_tokens t') (s_tokens_history s)" "wide 6 (tb_token_rollup t')"
    using tokens(1,2) by (simp_all add: same)
  show "facts_hold s t'"
    using tokens(1) tools(1,2) found(1) by (simp add: facts_hold_def tokens_hold_def same)
  show "rollups_hold s t'" if maintain "grouped token_hour_key h_delta (take k (s_tokens_history s))
      (map (abs_columns totals_of_columns) (tb_token_rollup t))"
    using tokens(3)[OF that] tools(4)[OF that(1)] by (simp add: rollups_hold_def same)
qed

lemma row_widths: "length (tool_row_columns r) = 15" "length (dimension_row_columns d) = 4"
  by (simp_all add: tool_row_columns_def dimension_row_columns_def)

lemma rebuild_tables_holds:
  assumes "rebuild_tables t = Some t'" "facts_hold s t"
  shows "rollups_hold s t'" "facts_hold s t'" "tb_tokens t' = tb_tokens t" "wide 6 (tb_token_rollup t')"
proof -
  from assms(1) obtain ts ms cs ds where
      ts: "group_rows 6 token_key_of tk_columns (tb_tokens t) = Some ts"
    and ms: "group_rows 15 tool_row_key tool_row_columns (tb_tools t) = Some ms"
    and cs: "group_rows 1 chain_row_key (\<lambda>_. [1]) (filter (\<lambda>r. tw_kind r = ''mutation'') (tb_tools t)) = Some cs"
    and ds: "group_rows 4 dimension_row_key dimension_row_columns (tb_dimensions t) = Some ds"
    and t': "t' = t\<lparr>tb_token_rollup := ts, tb_metric_rollup := ms,
             tb_chain_rollup := map (\<lambda>(k, v). (k, hd v)) cs, tb_dimension_rollup := ds\<rparr>"
    by (auto simp: rebuild_tables_def split: option.splits)
  from assms(2) have f: "list_all2 token_row_holds (tb_tokens t) (s_tokens_history s)"
      "list_all2 (\<lambda>r ob. tool_row_of ob = Some r) (tb_tools t) (s_tool_observations s)"
      "list_all2 (\<lambda>r i. dimension_row_of i = Some r) (tb_dimensions t) (dimension_items (s_tool_observations s))"
    by (simp_all add: facts_hold_def map_Some_list_all2)
  have widths: "\<forall>r\<in>set (tb_tokens t). length (tk_columns r) = 6"
    using f(1) by (induction rule: list_all2_induct) (auto simp: token_row_holds_def dest: token_columns_value(1))
  note tokens = token_rows.group_rows_grouped[OF ts widths]
  note tools = metric_rows.group_rows_grouped(1)[OF ms]
  note chains = chain_rows.group_rows_grouped[OF cs]
  note dims = dimension_rows.group_rows_grouped(1)[OF ds]
  have "grouped token_hour_key h_delta (s_tokens_history s) (map (abs_columns totals_of_columns) ts)"
    using f(1)
    by (intro grouped_related[OF _ tokens(1)], elim list_all2_mono)
      (auto simp: token_row_holds_def token_key_of_def token_hour_key_def token_columns_value(2))
  moreover have "grouped tool_hour_key observed_call (s_tool_observations s) (map (abs_columns metrics_of_columns) ms)"
    using f(2)
    by (intro grouped_related[OF _ tools], elim list_all2_mono)
      (simp_all add: row_widths tool_row_meaning(1,2))
  moreover have "grouped chain_key_of (\<lambda>_. 1) (mutation_calls (s_tool_observations s))
      (map abs_chain (map (\<lambda>(k, v). (k, hd v)) cs))"
  proof -
    have "list_all2 (\<lambda>r ob. tool_row_of ob = Some r) (filter (\<lambda>r. tw_kind r = ''mutation'') (tb_tools t))
        (mutation_calls (s_tool_observations s))"
      unfolding mutation_calls_def using f(2)
      by (induction rule: list_all2_induct) (auto simp: tool_row_meaning(4))
    then have "grouped chain_key_of (\<lambda>_. 1) (mutation_calls (s_tool_observations s)) (map (abs_columns hd) cs)"
      using chains(1) by (intro grouped_related[OF _ chains(1)], elim list_all2_mono) (simp_all add: tool_row_meaning(3))
    moreover have "map (abs_columns hd) cs = map abs_chain (map (\<lambda>(k, v). (k, hd v)) cs)"
      using chains(2) by (auto simp: abs_columns_def abs_chain_def wide_def list_all_iff length_Suc_conv hd_map)
    ultimately show ?thesis by simp
  qed
  moreover have "grouped dimension_hour_key item_call (dimension_items (s_tool_observations s))
      (map (abs_columns dimension_of_columns) ds)"
    using f(3)
    by (intro grouped_related[OF _ dims], elim list_all2_mono)
      (simp_all add: row_widths dimension_row_meaning)
  ultimately show "rollups_hold s t'" by (simp add: rollups_hold_def t')
  show "facts_hold s t'" using assms(2) by (simp add: facts_hold_def t')
  show "tb_tokens t' = tb_tokens t" "wide 6 (tb_token_rollup t')" using tokens(2) by (simp_all add: t')
qed

lemma observe_facts_inv:
  assumes "ledger_inv l" "appends_to l s" "observe_facts same s maintain l = Some l'"
  shows "ledger_inv l'"
proof (cases "l' = l")
  case False
  with assms(3) obtain t' where t': "store_facts s maintain (lg_tables l) = Some t'"
      and l': "l' = \<lparr>lg_stored = Some s, lg_stale = (lg_stale l \<or> \<not> maintain), lg_tables = t'\<rparr>"
    by (auto simp: observe_facts_def split: if_splits)
  show ?thesis
  proof (cases "distinct_events s")
    case True
    obtain k where k: "k \<le> length (s_tokens_history s)"
        "tokens_hold (tb_tokens (lg_tables l)) (take k (s_tokens_history s))"
        "wide 6 (tb_token_rollup (lg_tables l))"
        "\<not> lg_stale l \<Longrightarrow> grouped token_hour_key h_delta (take k (s_tokens_history s))
          (map (abs_columns totals_of_columns) (tb_token_rollup (lg_tables l)))"
    proof (cases "lg_stored l")
      case None
      with assms(1) have "l = empty_ledger" by (simp add: ledger_inv_def)
      then show thesis
        by (intro that[of 0]) (simp_all add: empty_ledger_def empty_tables_def tokens_hold_def wide_def grouped_Nil)
    next
      case (Some old)
      with assms(2) obtain rest where history: "s_tokens_history s = s_tokens_history old @ rest"
        by (auto simp: appends_to_def prefix_def)
      with True have "distinct_events old" by (simp add: distinct_events_def)
      with assms(1) Some history show thesis
        by (intro that[of "length (s_tokens_history old)"]) (simp_all add: ledger_inv_def rollups_hold_def)
    qed
    from store_facts_holds[OF t' k(2,1) True k(3)] k(4) show ?thesis
      by (auto simp: ledger_inv_def l')
  qed (simp add: ledger_inv_def l')
qed (use assms(1) in simp)

lemma rebuild_if_stale_inv:
  assumes "ledger_inv l" "rebuild_if_stale l = Some l'"
  shows "ledger_inv l'"
proof (cases "lg_stale l")
  case True
  with assms(2) obtain t' where t': "rebuild_tables (lg_tables l) = Some t'"
      and l': "l' = l\<lparr>lg_stale := False, lg_tables := t'\<rparr>"
    by (auto simp: rebuild_if_stale_def)
  show ?thesis
  proof (cases "lg_stored l")
    case None
    with assms(1) True show ?thesis by (simp add: ledger_inv_def empty_ledger_def)
  next
    case (Some s)
    with assms(1) show ?thesis
      using rebuild_tables_holds[OF t', of s] by (auto simp: ledger_inv_def l')
  qed
qed (use assms in \<open>simp add: rebuild_if_stale_def\<close>)

lemma recorded_inv: "recorded l \<Longrightarrow> ledger_inv l"
proof (induction rule: recorded.induct)
  case fresh
  show ?case by (simp add: ledger_inv_def) (simp add: empty_ledger_def)
qed (blast intro: observe_facts_inv rebuild_if_stale_inv)+

section \<open>Queries within their limits\<close>

text \<open>A step of a query that reads at most \<open>n\<close> rows returns when the limit leaves room for them.\<close>

definition returns_within :: "query_limits \<Rightarrow> nat \<Rightarrow> (query_state \<Rightarrow> 'a queried) \<Rightarrow> bool" where
  "returns_within q n f \<longleftrightarrow>
     (\<forall>st. qn_rows st + n \<le> ql_max_rows q \<longrightarrow> (\<exists>y st'. f st = Inr (y, st') \<and> qn_rows st' \<le> qn_rows st + n))"

lemma returns_value: "returns_within q 0 (\<lambda>st. Inr (x, st))"
  by (simp add: returns_within_def)

lemma returns_then:
  assumes "returns_within q n f" "\<And>x. returns_within q m (g x)"
  shows "returns_within q (n + m) (\<lambda>st. then_query (f st) g)"
  unfolding returns_within_def
proof (intro allI impI)
  fix st :: query_state
  assume room: "qn_rows st + (n + m) \<le> ql_max_rows q"
  with assms(1)[unfolded returns_within_def, rule_format, of st]
  obtain y st1 where st1: "f st = Inr (y, st1)" "qn_rows st1 \<le> qn_rows st + n" by auto
  with assms(2)[unfolded returns_within_def, rule_format, of st1 y] room
  obtain z st2 where "g y st1 = Inr (z, st2)" "qn_rows st2 \<le> qn_rows st1 + m" by auto
  with st1 show "\<exists>y st'. then_query (f st) g = Inr (y, st') \<and> qn_rows st' \<le> qn_rows st + (n + m)"
    by (auto simp: then_query_def)
qed

lemma returns_mono: "returns_within q n f \<Longrightarrow> n \<le> m \<Longrightarrow> returns_within q m f"
  unfolding returns_within_def by (meson add_le_mono le_refl order_trans)

definition unstopped :: "query_limits \<Rightarrow> bool" where
  "unstopped q \<longleftrightarrow> (\<forall>n. ql_stopped q n = None)"

lemma returns_check: "unstopped q \<Longrightarrow> returns_within q 0 (query_check q)"
  by (simp add: returns_within_def query_check_def unstopped_def)

lemma returns_collect:
  assumes "unstopped q" "None \<notin> set rows"
  shows "returns_within q (length rows) (collect_bounded q rows)"
  using assms(2)
proof (induction rows)
  case Nil
  show ?case by (simp add: returns_within_def)
next
  case (Cons row rows)
  then obtain x where row: "row = Some x" by (cases row) auto
  have "returns_within q 1 (consume_row q)"
    using assms(1) by (simp add: returns_within_def consume_row_def query_check_def unstopped_def then_query_def)
  moreover have "returns_within q (length rows)
      (\<lambda>st. then_query (collect_bounded q rows st) (\<lambda>xs st. Inr (x # xs, st)))"
    using returns_then[OF Cons.IH returns_value, of "\<lambda>xs. x # xs"] Cons.prems by simp
  ultimately have "returns_within q (1 + length rows) (\<lambda>st. then_query (consume_row q st)
      (\<lambda>_ st. then_query (collect_bounded q rows st) (\<lambda>xs st. Inr (x # xs, st))))"
    by (rule returns_then)
  then show ?case by (simp add: row)
qed

text \<open>The rows of a ledger that a query may read, and rollup rows whose counters fit.\<close>

definition row_count :: "session_tables \<Rightarrow> nat" where
  "row_count t =
     length (tb_token_rollup t) + (length (tb_metric_rollup t) + (length (tb_chain_rollup t)
     + (length (tb_dimension_rollup t) + (length (tb_tokens t) + (length (tb_tools t)
     + (length (tb_dimensions t) + length (tb_findings t)))))))"

definition rows_fit :: "session_tables \<Rightarrow> bool" where
  "rows_fit t \<longleftrightarrow>
     list_all (\<lambda>x. list_all fits_i64 (snd x)) (tb_token_rollup t)
     \<and> list_all (\<lambda>x. list_all fits_i64 (snd x)) (tb_metric_rollup t)
     \<and> list_all (\<lambda>x. fits_i64 (snd x)) (tb_chain_rollup t)
     \<and> list_all (\<lambda>x. list_all fits_i64 (snd x)) (tb_dimension_rollup t)"

lemma read_columns_fit: "list_all fits_i64 (snd x) \<Longrightarrow> read_columns value_of x \<noteq> None"
proof -
  have "\<exists>vs. collect_options (map read_u64 ns) = Some vs" if "list_all fits_i64 ns" for ns
    using that by (induction ns) (auto simp: read_u64_def)
  then show "list_all fits_i64 (snd x) \<Longrightarrow> read_columns value_of x \<noteq> None"
    by (fastforce simp: read_columns_def split: prod.splits)
qed

lemma read_token_row_fits: "token_row_holds r e \<Longrightarrow> read_token_row r \<noteq> None"
proof -
  assume r: "token_row_holds r e"
  then have "map to_i64 [input_tokens (h_delta e), cached_input_tokens (h_delta e), output_tokens (h_delta e),
      reasoning_output_tokens (h_delta e), total_tokens (h_delta e), cache_creation_input_tokens (h_delta e)]
    = map Some (tk_columns r)"
    by (simp only: token_row_holds_def token_columns_def collect_options_Some)
  from collect_read_to_i64[OF this] r show "read_token_row r \<noteq> None"
    by (cases "tk_request_input_tokens r")
      (auto simp: read_token_row_def token_row_holds_def read_optional_def read_u64_def collect_options_Some[symmetric]
        dest!: read_to_i64 split: if_splits)
qed

lemma fetch_returns:
  assumes "unstopped q" "facts_hold s t" "rows_fit t"
  shows "returns_within q (row_count t) (fetch_rows q b t)"
proof -
  have sub: "returns_within q (length rows) (collect_bounded q (map read (filter P rows)))"
    if "\<And>r. r \<in> set rows \<Longrightarrow> read r \<noteq> None" for read :: "'x \<Rightarrow> 'y option" and P rows
    by (rule returns_mono[OF returns_collect[OF assms(1)]]) (use that in \<open>force simp: image_iff\<close>)+
  have sorted: "returns_within q (length rows) (collect_bounded q (map read (sort_key k (filter P rows))))"
    if "\<And>r. r \<in> set rows \<Longrightarrow> read r \<noteq> None" for read :: "'x \<Rightarrow> 'y option" and k :: "'x \<Rightarrow> 'k::linorder" and P rows
    by (rule returns_mono[OF returns_collect[OF assms(1)]]) (use that in \<open>force simp: image_iff\<close>)+
  from assms(2) have reads: "\<And>r. r \<in> set (tb_tokens t) \<Longrightarrow> read_token_row r \<noteq> None"
      "\<And>r. r \<in> set (tb_tools t) \<Longrightarrow> read_tool_row r \<noteq> None"
      "\<And>r. r \<in> set (tb_dimensions t) \<Longrightarrow> read_dimension_row r \<noteq> None"
      "\<And>r. r \<in> set (tb_findings t) \<Longrightarrow> read_finding_row r \<noteq> None"
    unfolding facts_hold_def map_Some_list_all2 list_all2_conv_all_nth in_set_conv_nth
    by (auto dest!: read_token_row_fits read_tool_row_of read_dimension_row_of read_finding_row_of)
  from assms(3) have rolls: "\<And>x. x \<in> set (tb_token_rollup t) \<Longrightarrow> read_columns totals_of_columns x \<noteq> None"
      "\<And>x. x \<in> set (tb_metric_rollup t) \<Longrightarrow> read_columns metrics_of_columns x \<noteq> None"
      "\<And>x. x \<in> set (tb_chain_rollup t) \<Longrightarrow> read_chain x \<noteq> None"
      "\<And>x. x \<in> set (tb_dimension_rollup t) \<Longrightarrow> read_columns dimension_of_columns x \<noteq> None"
    by (auto simp: rows_fit_def list_all_iff read_columns_fit read_chain_def read_u64_def split: prod.splits)
  show ?thesis
    unfolding fetch_rows_def row_count_def
    by (intro returns_then sub[OF rolls(1)] sub[OF rolls(2)] sub[OF rolls(3)] sub[OF rolls(4)] sorted[OF reads(1)]
      sorted[OF reads(2)] sorted[OF reads(3)] returns_mono[OF returns_then[OF sub[OF reads(4)] returns_value]]) simp_all
qed

lemma keys_return:
  assumes "unstopped q" "\<forall>key\<in>set keys. (\<exists>s. facts_hold s (tables key)) \<and> rows_fit (tables key)"
  shows "returns_within q (\<Sum>key\<leftarrow>keys. row_count (tables key)) (range_totals_of_keys q tables b keys out)"
  using assms(2)
proof (induction keys arbitrary: out)
  case Nil
  show ?case by (simp add: returns_within_def)
next
  case (Cons key keys)
  then obtain s where s: "facts_hold s (tables key)" "rows_fit (tables key)" by auto
  have "returns_within q (0 + (row_count (tables key) + (\<Sum>key\<leftarrow>keys. row_count (tables key))))
      (\<lambda>st. then_query (query_check q st) (\<lambda>_ st. then_query (fetch_rows q b (tables key) st)
        (\<lambda>rows st. range_totals_of_keys q tables b keys (add_session_ranges key b rows out) st)))"
    by (intro returns_then returns_check[OF assms(1)] fetch_returns[OF assms(1) s] Cons.IH) (use Cons.prems in auto)
  then show ?case by simp
qed

section \<open>Rebuilds that succeed\<close>

definition small_columns :: "nat \<Rightarrow> int list list \<Rightarrow> bool" where
  "small_columns n rows \<longleftrightarrow>
     list_all (\<lambda>c. length c = n \<and> list_all ((\<le>) 0) c) rows \<and> (\<Sum>c\<leftarrow>rows. sum_list c) < 2 ^ 63"

lemma nonneg_fits: "list_all ((\<le>) 0) v \<Longrightarrow> sum_list v < 2 ^ 63 \<Longrightarrow> list_all fits_i64 v"
proof (induction v)
  case (Cons x v)
  then have "0 \<le> sum_list v" by (auto simp: list_all_iff intro: sum_list_nonneg)
  with Cons show ?case by (auto simp: fits_i64_def intro: order_trans[of _ 0])
qed simp

lemma sum_step_returns:
  assumes "list_all (\<lambda>c. length c = n \<and> list_all ((\<le>) 0) c) rows" "length v = n" "list_all ((\<le>) 0) v"
    and "sum_list v + (\<Sum>c\<leftarrow>rows. sum_list c) < 2 ^ 63"
  shows "\<exists>w. fold sum_step rows (Some v) = Some w \<and> list_all fits_i64 w"
  using assms
proof (induction rows arbitrary: v)
  case (Cons c rows)
  let ?w = "map2 (+) v c"
  have "sum_list (map2 (+) a b) = sum_list a + sum_list b" if "length a = length b" for a b :: "int list"
    using that by (induction rule: list_induct2) auto
  then have total: "sum_list ?w = sum_list v + sum_list c" using Cons.prems by simp
  have "list_all ((\<le>) 0) (map2 (+) a b)" if "length a = length b" "list_all ((\<le>) 0) a" "list_all ((\<le>) 0) b" for a b :: "int list"
    using that by (induction rule: list_induct2) auto
  then have nonneg: "list_all ((\<le>) 0) ?w" using Cons.prems by simp
  have "0 \<le> (\<Sum>c\<leftarrow>rows. sum_list c)"
    using Cons.prems(1) by (auto simp: list_all_iff intro!: sum_list_nonneg)
  then have "list_all fits_i64 ?w" using Cons.prems(4) total by (intro nonneg_fits[OF nonneg]) simp
  then have "sum_step c (Some v) = Some ?w" by (simp add: sum_step_def Let_def)
  with Cons.IH[of ?w] Cons.prems total nonneg show ?case by simp
qed (auto intro: nonneg_fits)

lemma small_filter: "small_columns n (map f rows) \<Longrightarrow> small_columns n (map f (filter P rows))"
proof -
  assume small: "small_columns n (map f rows)"
  then have "list_all (\<lambda>r. 0 \<le> sum_list (f r)) rows"
    by (auto simp: small_columns_def list_all_iff intro!: sum_list_nonneg)
  then have "(\<Sum>r\<leftarrow>filter P rows. sum_list (f r)) \<le> (\<Sum>r\<leftarrow>rows. sum_list (f r))"
    by (induction rows) auto
  with small show ?thesis by (auto simp: small_columns_def list_all_iff comp_def)
qed

lemma group_rows_returns:
  assumes "small_columns n (map columns rows)"
  shows "\<exists>m. group_rows n key columns rows = Some m \<and> list_all (\<lambda>x. list_all fits_i64 (snd x)) m"
proof -
  have one: "\<exists>w. sum_columns n (map columns (filter P rows)) = Some w \<and> list_all fits_i64 w" for P
  proof -
    have "sum_list (replicate n (0 :: int)) = 0" "list_all ((\<le>) 0) (replicate n (0 :: int))"
      by (simp_all add: list_all_iff sum_list_replicate)
    with small_filter[OF assms, of P] show ?thesis
      unfolding sum_columns_def small_columns_def by (intro sum_step_returns[of n]) auto
  qed
  have "\<exists>m. map (\<lambda>k. map_option (Pair k) (sum_columns n (map columns (filter (\<lambda>r. key r = k) rows)))) ks = map Some m
      \<and> list_all (\<lambda>x. list_all fits_i64 (snd x)) m" for ks
  proof (induction ks)
    case (Cons k ks)
    from Cons obtain m where m: "map (\<lambda>k. map_option (Pair k) (sum_columns n (map columns (filter (\<lambda>r. key r = k) rows)))) ks
        = map Some m" "list_all (\<lambda>x. list_all fits_i64 (snd x)) m" by blast
    from one[of "\<lambda>r. key r = k"] obtain w where
        "sum_columns n (map columns (filter (\<lambda>r. key r = k) rows)) = Some w" "list_all fits_i64 w" by blast
    with m show ?case by (intro exI[of _ "(k, w) # m"]) simp
  qed simp
  then show ?thesis by (auto simp: group_rows_def collect_options_Some)
qed

text \<open>The counters of the facts, column by column, stay below what SQLite's integers hold.\<close>

definition facts_bounded :: "session_tables \<Rightarrow> bool" where
  "facts_bounded t \<longleftrightarrow>
     small_columns 6 (map tk_columns (tb_tokens t)) \<and> small_columns 15 (map tool_row_columns (tb_tools t))
     \<and> small_columns 4 (map dimension_row_columns (tb_dimensions t)) \<and> int (length (tb_tools t)) < 2 ^ 63"

lemma rebuild_tables_returns:
  assumes "facts_bounded t"
  shows "\<exists>t'. rebuild_tables t = Some t' \<and> rows_fit t'"
proof -
  let ?mutations = "filter (\<lambda>r. tw_kind r = ''mutation'') (tb_tools t)"
  have "(\<Sum>r\<leftarrow>rs. sum_list [1]) = int (length rs)" for rs :: "tool_row list"
    by (induction rs) auto
  moreover have "int (length ?mutations) < 2 ^ 63"
    using assms length_filter_le[of "\<lambda>r. tw_kind r = ''mutation''" "tb_tools t"]
    by (simp add: facts_bounded_def del: length_filter_le)
  ultimately have "small_columns 1 (map (\<lambda>_. [1]) ?mutations)"
    by (simp add: small_columns_def list_all_iff comp_def)
  then obtain cs where cs: "group_rows 1 chain_row_key (\<lambda>_. [1]) ?mutations = Some cs"
      "list_all (\<lambda>x. list_all fits_i64 (snd x)) cs"
    using group_rows_returns by blast
  from assms obtain ts where ts: "group_rows 6 token_key_of tk_columns (tb_tokens t) = Some ts"
      "list_all (\<lambda>x. list_all fits_i64 (snd x)) ts"
    unfolding facts_bounded_def using group_rows_returns by blast
  from assms obtain ms where ms: "group_rows 15 tool_row_key tool_row_columns (tb_tools t) = Some ms"
      "list_all (\<lambda>x. list_all fits_i64 (snd x)) ms"
    unfolding facts_bounded_def using group_rows_returns by blast
  from assms obtain ds where ds: "group_rows 4 dimension_row_key dimension_row_columns (tb_dimensions t) = Some ds"
      "list_all (\<lambda>x. list_all fits_i64 (snd x)) ds"
    unfolding facts_bounded_def using group_rows_returns by blast
  have "list_all (\<lambda>x. fits_i64 (snd x)) (map (\<lambda>(k, v). (k, hd v)) m)"
    if "list_all (\<lambda>x. list_all fits_i64 (snd x)) m" "wide 1 m" for m :: "(chain_key \<times> int list) list"
    using that by (induction m) (auto simp: wide_def length_Suc_conv)
  from this[OF cs(2) chain_rows.group_rows_grouped(2)[OF cs(1)]] ts ms ds cs(1) show ?thesis
    by (simp add: rebuild_tables_def rows_fit_def)
qed

section \<open>Properties\<close>

text \<open>A ledger ready to be read.\<close>

definition current_ledger :: "session \<Rightarrow> session_ledger \<Rightarrow> bool" where
  "current_ledger s l \<longleftrightarrow>
     recorded l \<and> lg_stored l = Some s \<and> \<not> lg_stale l \<and> distinct_events s \<and> plain_facts s"

lemma current_ledger_holds: "current_ledger s l \<Longrightarrow> ledger_holds s (lg_tables l)"
  using recorded_inv[of l] by (simp add: current_ledger_def ledger_inv_def ledger_holds_def)

definition proper_windows :: "range_window list \<Rightarrow> bool" where
  "proper_windows windows \<longleftrightarrow> (\<forall>w\<in>set windows. nonneg_window (ms_window_of w))
     \<and> \<not> list_ex (\<lambda>(from, to). case (from, to) of (Some f, Some t) \<Rightarrow> t < f | _ \<Rightarrow> False) windows"

lemma current_ledgers_return:
  assumes "\<forall>key\<in>set keys. current_ledger (sessions key) (ledgers key) \<and> rows_fit (lg_tables (ledgers key))"
    and "proper_windows windows" "unstopped q"
    and "length keys \<le> ql_max_sessions q" "length windows \<le> ql_max_windows q"
    and "length keys * length windows \<le> ql_max_rows q"
    and "qn_rows st + (\<Sum>key\<leftarrow>keys. row_count (lg_tables (ledgers key))) \<le> ql_max_rows q"
  shows "\<exists>out st'. range_totals_multi_on q (\<lambda>key. lg_tables (ledgers key)) keys windows st
    = Inr (out :: 'p window_results, st')"
proof -
  let ?tables = "\<lambda>key. lg_tables (ledgers key)" and ?st = "st\<lparr>qn_checks := Suc (qn_checks st)\<rparr>"
  from assms(1) have ready: "\<forall>key\<in>set keys. (\<exists>s. facts_hold s (?tables key)) \<and> rows_fit (?tables key)"
    using current_ledger_holds unfolding ledger_holds_def by blast
  have "qn_rows ?st + (\<Sum>key\<leftarrow>keys. row_count (?tables key)) \<le> ql_max_rows q" using assms(7) by simp
  then obtain out :: "'p window_results" and st' where
      "range_totals_of_keys q ?tables (batch_of windows) keys (map (\<lambda>_. []) windows) ?st = Inr (out, st')"
    using keys_return[OF assms(3) ready, of "batch_of windows" "map (\<lambda>_. []) windows"]
    unfolding returns_within_def by blast
  then show ?thesis
    using assms(2-6) by (auto simp: range_totals_multi_on_def then_query_def query_check_def unstopped_def proper_windows_def)
qed

lemma current_ledgers_refine:
  assumes "\<forall>key\<in>set keys. current_ledger (sessions key) (ledgers key)" "distinct keys" "proper_windows windows"
    and "range_totals_multi_on q (\<lambda>key. lg_tables (ledgers key)) keys windows st = Inr (out, st')"
  shows "out = map (session_results sessions keys) windows"
  using assms(1,3) current_ledger_holds
  by (intro range_totals_multi_on_refines[OF _ _ assms(2,4)]) (auto simp: proper_windows_def)

text \<open>C4: A windowed query of the history store refines the session in memory. Take ledgers reached by any
  successful observations of append-only sources and rebuilds, none with deferred rollups left, whose stored
  sessions are plain: the keys of their token events (digests of what identifies an event) are pairwise
  distinct, no time is negative or too large for a column, and no model, service tier, turn or target is the
  empty text. When the counters of the rollups fit their columns, the session keys are distinct, the windows
  do not end before they begin or lie before the epoch, and the query stays within its limits and is not
  cancelled, it returns, and it returns for every window and session exactly \<open>range_totals\<close> of the stored
  session, wherever the session has data in the window.\<close>

theorem ledger_answers_windows:
  assumes "\<forall>key\<in>set keys. current_ledger (sessions key) (ledgers key) \<and> rows_fit (lg_tables (ledgers key))"
    and "distinct keys" "proper_windows windows" "unstopped q"
    and "length keys \<le> ql_max_sessions q" "length windows \<le> ql_max_windows q"
    and "length keys * length windows \<le> ql_max_rows q"
    and "qn_rows st + (\<Sum>key\<leftarrow>keys. row_count (lg_tables (ledgers key))) \<le> ql_max_rows q"
  shows "\<exists>st'. range_totals_multi_on q (\<lambda>key. lg_tables (ledgers key)) keys windows st
    = Inr (map (session_results sessions keys) windows :: 'p window_results, st')"
proof -
  obtain out :: "'p window_results" and st' where
      query: "range_totals_multi_on q (\<lambda>key. lg_tables (ledgers key)) keys windows st = Inr (out, st')"
    using current_ledgers_return[OF assms(1,3-8)] by blast
  with assms(1) current_ledgers_refine[OF _ assms(2,3) query, of sessions] show ?thesis by auto
qed

text \<open>C11: Limits, cancellation and unreadable rows never change what a query says, only whether it says it.
  On the ledgers of C4 (append-only sources, no rollups left deferred, event keys pairwise distinct, no time
  negative or too large for a column, no empty names), with distinct session keys and proper windows, but with any limits, any
  cancellation and any counters: whenever a windowed query returns, it returns the totals of the stored
  sessions, all of them.\<close>

theorem ledger_answers_whole:
  assumes "\<forall>key\<in>set keys. current_ledger (sessions key) (ledgers key)" "distinct keys" "proper_windows windows"
    and "range_totals_multi_on q (\<lambda>key. lg_tables (ledgers key)) keys windows st = Inr (out, st')"
  shows "out = map (session_results sessions keys) windows"
  by (rule current_ledgers_refine[OF assms])

text \<open>C9: Maintaining the rollups is equivalent to rebuilding them, on a ledger reached by successful
  observations of an append-only source and rebuilds, none of its rollups left deferred, when the keys of the
  stored token events are pairwise distinct: the rows that observations maintained and the rows that a rebuild
  derives from the facts have the same keys and read as the same counters, in all four rollups. (With a
  repeated key they need not: \<open>repeated_event_counted_twice\<close>.)\<close>

theorem maintained_is_rebuilt:
  assumes "recorded l" "lg_stored l = Some s" "\<not> lg_stale l" "distinct_events s" "rebuild_tables (lg_tables l) = Some t"
  shows "map_of (map (abs_columns totals_of_columns) (tb_token_rollup (lg_tables l)))
      = map_of (map (abs_columns totals_of_columns) (tb_token_rollup t))
    \<and> map_of (map (abs_columns metrics_of_columns) (tb_metric_rollup (lg_tables l)))
      = map_of (map (abs_columns metrics_of_columns) (tb_metric_rollup t))
    \<and> map_of (map abs_chain (tb_chain_rollup (lg_tables l))) = map_of (map abs_chain (tb_chain_rollup t))
    \<and> map_of (map (abs_columns dimension_of_columns) (tb_dimension_rollup (lg_tables l)))
      = map_of (map (abs_columns dimension_of_columns) (tb_dimension_rollup t))"
proof -
  from recorded_inv[OF assms(1)] assms(2-4) have "facts_hold s (lg_tables l)" "rollups_hold s (lg_tables l)"
    by (simp_all add: ledger_inv_def)
  moreover from rebuild_tables_holds(1)[OF assms(5) this(1)] have "rollups_hold s t" .
  ultimately show ?thesis
    unfolding rollups_hold_def by (blast intro: grouped_unique)
qed

text \<open>C10: Deferred rollups come back. On a ledger reached by successful observations of an append-only
  source, with rollups deferred, whose stored session is plain (event keys pairwise distinct, no time
  negative or too large for a column, no empty names): when the counters of the facts add up below what an integer of SQLite holds, the
  rebuild at the end of a scan succeeds, clears the mark and leaves the facts alone; each of the four rollups
  then has exactly one row for every key of the stored session's events, holding the sum of their counters;
  and every windowed query of the session within its limits returns the session's totals again.\<close>

theorem deferred_rollups_come_back:
  assumes "recorded l" "lg_stored l = Some s" "lg_stale l" "distinct_events s" "plain_facts s"
    and "facts_bounded (lg_tables l)"
  shows "\<exists>l'. rebuild_if_stale l = Some l' \<and> \<not> lg_stale l' \<and> lg_stored l' = Some s
    \<and> tb_tokens (lg_tables l') = tb_tokens (lg_tables l) \<and> tb_tools (lg_tables l') = tb_tools (lg_tables l)
    \<and> tb_dimensions (lg_tables l') = tb_dimensions (lg_tables l)
    \<and> tb_findings (lg_tables l') = tb_findings (lg_tables l)
    \<and> grouped token_hour_key h_delta (s_tokens_history s)
        (map (abs_columns totals_of_columns) (tb_token_rollup (lg_tables l')))
    \<and> grouped tool_hour_key observed_call (s_tool_observations s)
        (map (abs_columns metrics_of_columns) (tb_metric_rollup (lg_tables l')))
    \<and> grouped chain_key_of (\<lambda>_. 1) (mutation_calls (s_tool_observations s))
        (map abs_chain (tb_chain_rollup (lg_tables l')))
    \<and> grouped dimension_hour_key item_call (dimension_items (s_tool_observations s))
        (map (abs_columns dimension_of_columns) (tb_dimension_rollup (lg_tables l')))
    \<and> (\<forall>q windows st. proper_windows windows \<and> unstopped q \<and> 1 \<le> ql_max_sessions q
        \<and> length windows \<le> ql_max_windows q \<and> length windows \<le> ql_max_rows q
        \<and> qn_rows st + row_count (lg_tables l') \<le> ql_max_rows q \<longrightarrow>
        (\<exists>st'. range_totals_multi_on q (\<lambda>_. lg_tables l') [key] windows st
          = Inr (map (session_results (\<lambda>_. s) [key]) windows :: 'p window_results, st')))"
proof -
  from rebuild_tables_returns[OF assms(6)] obtain t' where t': "rebuild_tables (lg_tables l) = Some t'" "rows_fit t'"
    by blast
  let ?l = "l\<lparr>lg_stale := False, lg_tables := t'\<rparr>"
  have rebuild: "rebuild_if_stale l = Some ?l" using assms(3) t'(1) by (simp add: rebuild_if_stale_def)
  have ready: "current_ledger s ?l"
    using rebuilt[OF assms(1) rebuild] assms(2,4,5) by (simp add: current_ledger_def)
  have "facts_hold s (lg_tables l)"
    using recorded_inv[OF assms(1)] assms(2,4) by (simp add: ledger_inv_def)
  from rebuild_tables_holds(1)[OF t'(1) this] have rolled: "rollups_hold s t'" .
  have facts: "tb_tokens t' = tb_tokens (lg_tables l)" "tb_tools t' = tb_tools (lg_tables l)"
      "tb_dimensions t' = tb_dimensions (lg_tables l)" "tb_findings t' = tb_findings (lg_tables l)"
    using t'(1) by (auto simp: rebuild_tables_def split: option.splits)
  have answers: "\<exists>st'. range_totals_multi_on q (\<lambda>_. t') [key] windows st
      = Inr (map (session_results (\<lambda>_. s) [key]) windows :: 'p window_results, st')"
    if q: "proper_windows windows" "unstopped q" "1 \<le> ql_max_sessions q" "length windows \<le> ql_max_windows q"
      "length windows \<le> ql_max_rows q" "qn_rows st + row_count t' \<le> ql_max_rows q" for q windows st
  proof -
    obtain out :: "'p window_results" and st' where
        query: "range_totals_multi_on q (\<lambda>_. t') [key] windows st = Inr (out, st')"
      using current_ledgers_return[of "[key]" "\<lambda>_. s" "\<lambda>_. ?l" windows q st] ready t'(2) q by auto
    with current_ledgers_refine[of "[key]" "\<lambda>_. s" "\<lambda>_. ?l" windows q st out st'] ready q(1) show ?thesis by simp
  qed
  from rolled facts answers show ?thesis
    unfolding rollups_hold_def by (intro exI[of _ ?l]) (simp add: rebuild assms(2))
qed

section \<open>Witnesses\<close>

text \<open>One call and one event: the event in the first hour of the window, the call at its ragged end.\<close>

definition sample_point_stored :: token_history_point where
  "sample_point_stored =
     \<lparr>h_timestamp = 5000000, h_model = Some ''m'', h_service_tier = None, h_request_input_tokens = None,
      h_total_tokens = 105, h_delta = sample_totals\<rparr>"

definition sample_recorded :: session where
  "sample_recorded = sample_session\<lparr>s_tokens_history := [sample_point_stored],
     s_tool_observations := [sample_observation\<lparr>o_timestamp := 3700000000000\<rparr>], s_optimization_findings := []\<rparr>"

definition sample_row :: token_row where
  "sample_row =
     \<lparr>tk_event_key = token_event_key sample_point_stored, tk_event_index = 0, tk_timestamp_ms = 5, tk_model = Some ''m'',
      tk_service_tier = None, tk_request_input_tokens = None, tk_cumulative_total_tokens = 105,
      tk_columns = [100, 60, 5, 0, 105, 30]\<rparr>"

lemma sample_row_of: "token_row_of 0 sample_point_stored = Some sample_row"
  by (simp add: token_row_of_def sample_point_stored_def sample_row_def token_columns_def to_i64_def sample_totals_def
      timestamp_millis_def)

definition sample_tool_row :: tool_row where
  "sample_tool_row =
     \<lparr>tw_timestamp_ms = 3700000, tw_model = Some ''m'', tw_kind = ''mutation'', tw_outcome = ''failure'',
      tw_turn_id = Some ''t1'', tw_target = Some ''mutation:x'', tw_duration_ms = None, tw_output_bytes = 7,
      tw_origin = ''core''\<rparr>"

definition sample_tables :: "bool \<Rightarrow> session_tables" where
  "sample_tables rolled =
     \<lparr>tb_tokens = [sample_row], tb_tools = [sample_tool_row], tb_dimensions = [], tb_findings = [],
      tb_token_rollup = (if rolled then [((0, ''m'', []), [100, 60, 5, 0, 105, 30])] else []),
      tb_metric_rollup = (if rolled then [((1, ''m''), [1, 0, 0, 1, 0, 0, 0, 1, 0, 0, 7, 1, 0, 0, 0])] else []),
      tb_chain_rollup = (if rolled then [((1, ''m'', ''t1'', ''mutation:x''), 1)] else []), tb_dimension_rollup = []\<rparr>"

definition sample_ledger :: "bool \<Rightarrow> session_ledger" where
  "sample_ledger rolled =
     \<lparr>lg_stored = Some sample_recorded, lg_stale = (\<not> rolled), lg_tables = sample_tables rolled\<rparr>"

lemma sample_observed: "observe_facts False sample_recorded rolled empty_ledger = Some (sample_ledger rolled)"
proof -
  have tokens: "store_token_events [sample_point_stored] b empty_tables = Some (empty_tables
      \<lparr>tb_tokens := [sample_row],
       tb_token_rollup := (if b then [((0, ''m'', []), [100, 60, 5, 0, 105, 30])] else [])\<rparr>)" for b
    by (simp add: store_token_events_def empty_tables_def next_event_index_def sample_row_of insert_token_row_def
        upsert_columns_def)
      (simp add: sample_row_def token_key_of_def hour_bucket_def hour_ms_def key_sentinel_def)
  have tool_row: "tool_row_of (sample_observation\<lparr>o_timestamp := 3700000000000\<rparr>) = Some sample_tool_row"
    by (simp add: tool_row_of_def sample_observation_def to_i64_def sample_tool_row_def tool_outcome_str_def
        timestamp_millis_def)
  have entries: "dimension_rows_of (sample_observation\<lparr>o_timestamp := 3700000000000\<rparr>) = []"
      "dimension_entries (sample_observation\<lparr>o_timestamp := 3700000000000\<rparr>) = []"
    by (simp_all add: dimension_rows_of_def dimension_entries_def sample_observation_def)
  have key: "observation_bucket (sample_observation\<lparr>o_timestamp := 3700000000000\<rparr>) = 1"
    by (simp add: observation_bucket_def hour_bucket_def hour_ms_def timestamp_millis_def)
  have metrics_rows: "rows_of_map metric_columns (hour_metrics [sample_observation\<lparr>o_timestamp := 3700000000000\<rparr>])
      = Some [((1, ''m''), [1, 0, 0, 1, 0, 0, 0, 1, 0, 0, 7, 1, 0, 0, 0])]"
    by (simp add: hour_metrics_def key rows_of_map_def)
      (simp add: sample_observation_def accumulate_observation_def count_kind_def count_outcome_def count_origin_def
        default_metrics_def metric_columns_def to_i64_def)
  have chain_rows: "rows_of_map to_i64 (hour_chains [sample_observation\<lparr>o_timestamp := 3700000000000\<rparr>])
      = Some [((1, ''m'', ''t1'', ''mutation:x''), 1)]"
    by (simp add: hour_chains_def key chain_key_of_def rows_of_map_def) (simp add: sample_observation_def to_i64_def key_sentinel_def)
  show ?thesis
    by (cases rolled)
      (simp_all add: observe_facts_def empty_ledger_def sample_recorded_def store_facts_def tokens store_tool_events_def
        store_tool_event_facts_def store_tool_dimension_facts_def tool_row entries metrics_rows chain_rows
        hour_dimensions_def rows_of_map_def[of dimension_columns] store_finding_events_def sample_ledger_def sample_tables_def,
       simp_all add: empty_tables_def)
qed

lemma sample_recorded_ledger: "recorded (sample_ledger rolled)"
  by (rule observed[OF fresh _ sample_observed]) (simp add: appends_to_def empty_ledger_def)

lemma sample_plain: "plain_facts sample_recorded" "distinct_events sample_recorded"
  by (simp_all add: plain_facts_def distinct_events_def sample_recorded_def sample_session_def sample_point_stored_def
      sample_observation_def plain_time_def timestamp_millis_def max_i64_def)

lemma sample_current: "current_ledger sample_recorded (sample_ledger True)"
  using sample_recorded_ledger[of True] sample_plain by (simp add: current_ledger_def sample_ledger_def)

definition sample_limits_of :: query_limits where
  "sample_limits_of =
     \<lparr>ql_max_sessions = 10, ql_max_windows = 10, ql_max_rows = 100, ql_stopped = (\<lambda>_. None)\<rparr>"

definition sample_windows :: "range_window list" where
  "sample_windows = [(None, None), (Some 0, Some 3800000000000)]"

lemma sample_windows_proper: "proper_windows sample_windows"
  by (simp add: proper_windows_def sample_windows_def ms_window_of_def nonneg_window_def timestamp_millis_def)

lemma ledger_answers_windows_witness:
  "\<exists>st'. range_totals_multi_on sample_limits_of (\<lambda>_. sample_tables True) [''a''] sample_windows \<lparr>qn_checks = 0, qn_rows = 0\<rparr>
    = Inr (map (session_results (\<lambda>_. sample_recorded) [''a'']) sample_windows :: unit window_results, st')"
  using ledger_answers_windows[of "[''a'']" "\<lambda>_. sample_recorded" "\<lambda>_. sample_ledger True" sample_windows sample_limits_of
      "\<lparr>qn_checks = 0, qn_rows = 0\<rparr>"] sample_current sample_windows_proper
  by (simp add: sample_ledger_def sample_limits_of_def sample_windows_def unstopped_def row_count_def sample_tables_def
      rows_fit_def fits_i64_def)

lemma maintained_is_rebuilt_witness:
  "\<exists>t. rebuild_tables (sample_tables True) = Some t
    \<and> map_of (map abs_chain (tb_chain_rollup t)) (1, ''m'', ''t1'', ''mutation:x'') = Some 1"
proof -
  have "facts_bounded (sample_tables True)"
    by (simp add: facts_bounded_def sample_tables_def small_columns_def sample_row_def sample_tool_row_def
        tool_row_columns_def sql_bool_def)
  then obtain t where t: "rebuild_tables (sample_tables True) = Some t" using rebuild_tables_returns by blast
  with maintained_is_rebuilt[of "sample_ledger True" sample_recorded t] sample_recorded_ledger[of True] sample_plain
  have "map_of (map abs_chain (tb_chain_rollup (sample_tables True))) = map_of (map abs_chain (tb_chain_rollup t))"
    by (simp add: sample_ledger_def)
  from fun_cong[OF this, of "(1, ''m'', ''t1'', ''mutation:x'')"] t show ?thesis
    by (simp add: sample_tables_def abs_chain_def)
qed

lemma deferred_rollups_come_back_witness:
  "\<exists>l'. rebuild_if_stale (sample_ledger False) = Some l' \<and> \<not> lg_stale l'
    \<and> fst ` set (map abs_chain (tb_chain_rollup (lg_tables l'))) = {(1, ''m'', ''t1'', ''mutation:x'')}"
proof -
  have "facts_bounded (sample_tables False)"
    by (simp add: facts_bounded_def sample_tables_def small_columns_def sample_row_def sample_tool_row_def
        tool_row_columns_def sql_bool_def)
  then have l: "lg_stored (sample_ledger False) = Some sample_recorded" "lg_stale (sample_ledger False)"
      "facts_bounded (lg_tables (sample_ledger False))"
    by (simp_all add: sample_ledger_def)
  from deferred_rollups_come_back[OF sample_recorded_ledger l(1,2) sample_plain(2,1) l(3), where ?'p = unit]
  obtain l' where l': "rebuild_if_stale (sample_ledger False) = Some l'" "\<not> lg_stale l'"
      "grouped chain_key_of (\<lambda>_. 1) (mutation_calls (s_tool_observations sample_recorded))
        (map abs_chain (tb_chain_rollup (lg_tables l')))"
    by blast
  have "chain_key_of ` set (mutation_calls (s_tool_observations sample_recorded)) = {(1, ''m'', ''t1'', ''mutation:x'')}"
    by (simp add: mutation_calls_def sample_recorded_def sample_observation_def chain_key_of_def observation_bucket_def
        hour_bucket_def hour_ms_def timestamp_millis_def key_sentinel_def)
  with l' show ?thesis by (auto simp: grouped_def)
qed

lemma ledger_answers_whole_witness:
  "\<exists>out st'. range_totals_multi_on sample_limits_of (\<lambda>_. sample_tables True) [''a''] sample_windows
      \<lparr>qn_checks = 0, qn_rows = 0\<rparr> = Inr (out :: unit window_results, st')
    \<and> out = map (session_results (\<lambda>_. sample_recorded) [''a'']) sample_windows"
proof -
  obtain out :: "unit window_results" and st' where
      "range_totals_multi_on sample_limits_of (\<lambda>_. sample_tables True) [''a''] sample_windows
        \<lparr>qn_checks = 0, qn_rows = 0\<rparr> = Inr (out, st')"
    using current_ledgers_return[of "[''a'']" "\<lambda>_. sample_recorded" "\<lambda>_. sample_ledger True" sample_windows
        sample_limits_of "\<lparr>qn_checks = 0, qn_rows = 0\<rparr>"] sample_current sample_windows_proper
    by (auto simp: sample_ledger_def sample_limits_of_def sample_windows_def unstopped_def row_count_def
        sample_tables_def rows_fit_def fits_i64_def)
  then show ?thesis
    using ledger_answers_whole[of "[''a'']" "\<lambda>_. sample_recorded" "\<lambda>_. sample_ledger True" sample_windows
        sample_limits_of "\<lparr>qn_checks = 0, qn_rows = 0\<rparr>" out st'] sample_current sample_windows_proper
    by (auto simp: sample_ledger_def)
qed

text \<open>Two events with one key are one fact, and the maintained rollup counts both.\<close>

lemma repeated_event_counted_twice:
  "\<exists>t. store_token_events [sample_point_stored, sample_point_stored] True empty_tables = Some t
    \<and> map tk_columns (tb_tokens t) = [[100, 60, 5, 0, 105, 30]]
    \<and> tb_token_rollup t = [((0, ''m'', []), [200, 120, 10, 0, 210, 60])]"
proof -
  have second: "token_row_of (Suc 0) sample_point_stored = Some (sample_row\<lparr>tk_event_index := 1\<rparr>)"
    by (simp add: token_row_of_def sample_point_stored_def sample_row_def token_columns_def to_i64_def sample_totals_def
        timestamp_millis_def)
  show ?thesis
    by (simp add: store_token_events_def empty_tables_def next_event_index_def sample_row_of second insert_token_row_def
        upsert_columns_def)
      (simp add: sample_row_def token_key_of_def hour_bucket_def hour_ms_def key_sentinel_def)
qed

end
