(* ===== verification/Provider_Status.thy ===== *)
theory Provider_Status
  imports Quota_Live
begin

text \<open>
  The opt-in observations of the providers' public status pages (\<open>src-tauri/src/provider_status.rs\<close>):
  the request and its validation, the service that schedules requests and keeps their answers, and what
  it shows. The HTTP client and the decoders are arguments: what a request came to is a value.
\<close>

section \<open>Answers\<close>

definition status_interval :: int where "status_interval = 300"
definition fresh_seconds :: int where "fresh_seconds = 900"
definition max_status_body :: nat where "max_status_body = 32 * 1024"

definition status_sources :: "(string \<times> string) list" where
  "status_sources =
     [(''codex'', ''https://status.openai.com/api/v2/status.json''),
      (''claude_code'', ''https://status.claude.com/api/v2/status.json'')]"

datatype indicator = Operational | MinorIncident | MajorIncident | CriticalIncident | Maintenance
datatype status_failure = OfflineOrTimeout | RateLimitedStatus | HttpError | InvalidStatus

type_synonym fetch_result = "(status_failure \<times> int option) + (indicator \<times> timestamp)"

text \<open>The decoded body: \<open>page.url\<close>, \<open>page.updated_at\<close> and \<open>status.indicator\<close>.\<close>

record public_response =
  pr_url :: string
  pr_updated_at :: timestamp
  pr_indicator :: string

text \<open>\<open>th_from_slice\<close> is \<open>serde_json::from_slice\<close>, \<open>th_rfc2822\<close> chrono's parser of mail dates.\<close>

record status_host =
  th_from_slice :: "string \<Rightarrow> public_response option"
  th_rfc2822 :: "string \<Rightarrow> timestamp option"

definition trim_end_matches :: "string \<Rightarrow> string \<Rightarrow> string" where
  "trim_end_matches p s = rev (drop_any [rev p] (rev s))"

definition indicator_of :: "string \<Rightarrow> indicator option" where
  "indicator_of s =
     (if s = ''none'' then Some Operational else if s = ''minor'' then Some MinorIncident
      else if s = ''major'' then Some MajorIncident else if s = ''critical'' then Some CriticalIncident
      else if s = ''maintenance'' then Some Maintenance else None)"

definition status_origin :: "nat \<Rightarrow> string" where
  "status_origin i = trim_end_matches ''/api/v2/status.json'' (snd (status_sources ! i))"

definition parse_status :: "status_host \<Rightarrow> nat \<Rightarrow> string \<Rightarrow> timestamp \<Rightarrow> fetch_result" where
  "parse_status host i body now =
     (if max_status_body < length body then Inl (InvalidStatus, None)
      else
        (case th_from_slice host body of
           None \<Rightarrow> Inl (InvalidStatus, None)
         | Some r \<Rightarrow>
             if trim_end_matches ''/'' (pr_url r) \<noteq> status_origin i
                 \<or> now + 300 * nanos_per_second < pr_updated_at r then Inl (InvalidStatus, None)
             else
               (case indicator_of (pr_indicator r) of
                  None \<Rightarrow> Inl (InvalidStatus, None)
                | Some ind \<Rightarrow> Inr (ind, pr_updated_at r))))"

text \<open>\<open>str::parse::<i64>\<close>: a sign and digits, in range.\<close>

fun digits_value :: "int \<Rightarrow> string \<Rightarrow> int option" where
  "digits_value acc [] = Some acc"
| "digits_value acc (c # cs) =
     (if 48 \<le> byte c \<and> byte c \<le> 57 then digits_value (10 * acc + int (byte c) - 48) cs else None)"

definition i64_of_string :: "string \<Rightarrow> int option" where
  "i64_of_string s =
     (let (neg, ds) = (case s of
          c # cs \<Rightarrow> if c = CHR ''-'' then (True, cs) else if c = CHR ''+'' then (False, cs) else (False, s)
        | [] \<Rightarrow> (False, s))
      in if ds = [] then None
         else (case digits_value 0 ds of
             None \<Rightarrow> None
           | Some n \<Rightarrow>
               let v = (if neg then - n else n) in if - (2 ^ 63) \<le> v \<and> v < 2 ^ 63 then Some v else None))"

text \<open>What the client gives: no client, no answer within its limits, or an answer whose chunks end or
  break off.\<close>

record http_answer =
  ha_status :: nat
  ha_retry_after :: "string option"
  ha_content_length :: "u64 option"
  ha_chunks :: "string list"
  ha_broken :: bool

datatype http_exchange = NoClient | NoAnswer | Answered http_answer

fun read_chunks :: "bool \<Rightarrow> string \<Rightarrow> string list \<Rightarrow> (status_failure \<times> int option) + string" where
  "read_chunks broken body [] = (if broken then Inl (OfflineOrTimeout, None) else Inr body)"
| "read_chunks broken body (c # cs) =
     (if max_status_body < length body + length c then Inl (InvalidStatus, None)
      else read_chunks broken (body @ c) cs)"

definition retry_delay :: "status_host \<Rightarrow> timestamp \<Rightarrow> string option \<Rightarrow> int option" where
  "retry_delay host now h =
     (case h of
        None \<Rightarrow> None
      | Some s \<Rightarrow>
          or_else (i64_of_string s) (map_option (\<lambda>t. num_seconds (t - now)) (th_rfc2822 host s)))"

definition fetch_status :: "status_host \<Rightarrow> nat \<Rightarrow> http_exchange \<Rightarrow> timestamp \<Rightarrow> timestamp \<Rightarrow> fetch_result" where
  "fetch_status host i x now now_parsed =
     (case x of
        NoClient \<Rightarrow> Inl (OfflineOrTimeout, None)
      | NoAnswer \<Rightarrow> Inl (OfflineOrTimeout, None)
      | Answered a \<Rightarrow>
          if ha_status a = 429 then Inl (RateLimitedStatus, retry_delay host now (ha_retry_after a))
          else if \<not> (200 \<le> ha_status a \<and> ha_status a < 300) then Inl (HttpError, None)
          else if (case ha_content_length a of None \<Rightarrow> False | Some n \<Rightarrow> of_nat max_status_body < n)
            then Inl (InvalidStatus, None)
          else
            (case read_chunks (ha_broken a) [] (ha_chunks a) of
               Inl e \<Rightarrow> Inl e
             | Inr body \<Rightarrow> parse_status host i body now_parsed))"

section \<open>The service\<close>

record status_row =
  sr_indicator :: "indicator option"
  sr_checked :: "timestamp option"
  sr_updated :: "timestamp option"
  sr_attempted :: "timestamp option"
  sr_next :: "timestamp option"
  sr_failure :: "status_failure option"
  sr_failures :: u32
  sr_in_flight :: bool

record status_service =
  sv_enabled :: bool
  sv_generation :: u64
  sv_rows :: "status_row list"

definition no_row :: status_row where
  "no_row =
     \<lparr>sr_indicator = None, sr_checked = None, sr_updated = None, sr_attempted = None, sr_next = None,
      sr_failure = None, sr_failures = 0, sr_in_flight = False\<rparr>"

definition initial_service :: status_service where
  "initial_service = \<lparr>sv_enabled = False, sv_generation = 0, sv_rows = [no_row, no_row]\<rparr>"

definition configure_status :: "bool \<Rightarrow> status_service \<Rightarrow> status_service" where
  "configure_status enabled s =
     (if sv_enabled s \<noteq> enabled
      then \<lparr>sv_enabled = enabled, sv_generation = sv_generation s + 1, sv_rows = [no_row, no_row]\<rparr>
      else s)"

definition begin_status :: "nat \<Rightarrow> timestamp \<Rightarrow> status_service \<Rightarrow> status_service \<times> u64 option" where
  "begin_status i now s =
     (if \<not> sv_enabled s then (s, None)
      else
        let row = sv_rows s ! i in
        if sr_in_flight row \<or> (case sr_next row of None \<Rightarrow> False | Some next_at \<Rightarrow> now < next_at) then (s, None)
        else
          (s\<lparr>sv_rows := (sv_rows s)[i := row\<lparr>sr_in_flight := True, sr_attempted := Some now,
               sr_next := Some (now + status_interval * nanos_per_second)\<rparr>]\<rparr>,
           Some (sv_generation s)))"

definition backoff_seconds :: "u32 \<Rightarrow> int option \<Rightarrow> int" where
  "backoff_seconds failures retry_after =
     max (min (status_interval * 2 ^ min (unat failures) 4) 3600) (max 0 (min 86400 (unwrap_or 0 retry_after)))"

definition finish_row :: "timestamp \<Rightarrow> fetch_result \<Rightarrow> status_row \<Rightarrow> status_row" where
  "finish_row now result row =
     (let row = row\<lparr>sr_in_flight := False\<rparr> in
      case result of
        Inr (ind, updated) \<Rightarrow>
          row\<lparr>sr_indicator := Some ind, sr_updated := Some updated, sr_checked := Some now, sr_failure := None,
              sr_failures := 0, sr_next := Some (now + status_interval * nanos_per_second)\<rparr>
      | Inl (failure, retry_after) \<Rightarrow>
          let failures = sat_add (sr_failures row) 1 in
          row\<lparr>sr_failure := Some failure, sr_failures := failures,
              sr_next := Some (now + backoff_seconds failures retry_after * nanos_per_second)\<rparr>)"

definition finish_status ::
    "nat \<Rightarrow> u64 \<Rightarrow> timestamp \<Rightarrow> fetch_result \<Rightarrow> status_service \<Rightarrow> status_service" where
  "finish_status i generation now result s =
     (if \<not> sv_enabled s \<or> sv_generation s \<noteq> generation then s
      else s\<lparr>sv_rows := (sv_rows s)[i := finish_row now result (sv_rows s ! i)]\<rparr>)"

section \<open>What is shown\<close>

record provider_status =
  ps_provider :: string
  ps_source_url :: "string option"
  ps_state :: string
  ps_current_indicator :: "indicator option"
  ps_last_known_indicator :: "indicator option"
  ps_checked_at :: "timestamp option"
  ps_source_updated_at :: "timestamp option"
  ps_last_attempt_at :: "timestamp option"
  ps_next_attempt_at :: "timestamp option"
  ps_failure :: "status_failure option"

record status_snapshot =
  ss_enabled :: bool
  ss_providers :: "provider_status list"

definition row_fresh :: "timestamp \<Rightarrow> status_row \<Rightarrow> bool" where
  "row_fresh now row \<longleftrightarrow>
     (case sr_checked row of
        None \<Rightarrow> False
      | Some t \<Rightarrow> 0 \<le> num_seconds (now - t) \<and> num_seconds (now - t) \<le> fresh_seconds)"

definition availability :: "timestamp \<Rightarrow> bool \<Rightarrow> status_row \<Rightarrow> string" where
  "availability now enabled row =
     (if \<not> enabled then ''disabled''
      else if sr_failure row \<noteq> None then ''unavailable''
      else if row_fresh now row then ''current''
      else if sr_checked row \<noteq> None then ''stale''
      else ''pending'')"

definition shown_row :: "timestamp \<Rightarrow> bool \<Rightarrow> string \<times> string \<Rightarrow> status_row \<Rightarrow> provider_status" where
  "shown_row now enabled src row =
     \<lparr>ps_provider = fst src, ps_source_url = Some (snd src), ps_state = availability now enabled row,
      ps_current_indicator = (if availability now enabled row = ''current'' then sr_indicator row else None),
      ps_last_known_indicator = sr_indicator row, ps_checked_at = sr_checked row,
      ps_source_updated_at = sr_updated row, ps_last_attempt_at = sr_attempted row,
      ps_next_attempt_at = sr_next row, ps_failure = sr_failure row\<rparr>"

definition unsupported_row :: "string \<Rightarrow> provider_status" where
  "unsupported_row provider =
     \<lparr>ps_provider = provider, ps_source_url = None, ps_state = ''unsupported'', ps_current_indicator = None,
      ps_last_known_indicator = None, ps_checked_at = None, ps_source_updated_at = None,
      ps_last_attempt_at = None, ps_next_attempt_at = None, ps_failure = None\<rparr>"

definition show_status :: "timestamp \<Rightarrow> status_service \<Rightarrow> status_snapshot" where
  "show_status now s =
     \<lparr>ss_enabled = sv_enabled s,
      ss_providers = map (\<lambda>(src, row). shown_row now (sv_enabled s) src row) (zip status_sources (sv_rows s))
        @ [unsupported_row ''gemini_cli'']\<rparr>"

section \<open>Runs\<close>

text \<open>
  The service with the tasks that \<open>refresh_due\<close> has spawned, each its source and the generation it was
  granted. A queued task asks only if the service still is what it was granted by; otherwise it ends.
\<close>

datatype task_phase = Queued | Asking

record status_world =
  sw_service :: status_service
  sw_tasks :: "(task_phase \<times> nat \<times> u64) list"

datatype status_event =
    Configured bool
  | Scheduled nat timestamp "u64 option"
  | Asked nat u64
  | GivenUp nat u64
  | Finished nat u64 timestamp fetch_result

inductive status_event_step :: "status_world \<Rightarrow> status_event \<Rightarrow> status_world \<Rightarrow> bool" where
  configured: "status_event_step w (Configured b) (w\<lparr>sw_service := configure_status b (sw_service w)\<rparr>)"
| refused: "i < length status_sources \<Longrightarrow> begin_status i now (sw_service w) = (s, None)
     \<Longrightarrow> status_event_step w (Scheduled i now None) (w\<lparr>sw_service := s\<rparr>)"
| granted: "i < length status_sources \<Longrightarrow> begin_status i now (sw_service w) = (s, Some g)
     \<Longrightarrow> status_event_step w (Scheduled i now (Some g))
           \<lparr>sw_service = s, sw_tasks = (Queued, i, g) # sw_tasks w\<rparr>"
| asked: "(Queued, i, g) \<in> set (sw_tasks w) \<Longrightarrow> sv_enabled (sw_service w)
     \<Longrightarrow> sv_generation (sw_service w) = g
     \<Longrightarrow> status_event_step w (Asked i g) (w\<lparr>sw_tasks := (Asking, i, g) # remove1 (Queued, i, g) (sw_tasks w)\<rparr>)"
| given_up: "(Queued, i, g) \<in> set (sw_tasks w)
     \<Longrightarrow> \<not> (sv_enabled (sw_service w) \<and> sv_generation (sw_service w) = g)
     \<Longrightarrow> status_event_step w (GivenUp i g) (w\<lparr>sw_tasks := remove1 (Queued, i, g) (sw_tasks w)\<rparr>)"
| finished: "(Asking, i, g) \<in> set (sw_tasks w)
     \<Longrightarrow> status_event_step w (Finished i g now result)
           \<lparr>sw_service = finish_status i g now result (sw_service w), sw_tasks = remove1 (Asking, i, g) (sw_tasks w)\<rparr>"

inductive status_run :: "status_world \<Rightarrow> status_event list \<Rightarrow> status_world \<Rightarrow> bool" where
  no_status_event: "status_run w [] w"
| next_status_event: "status_run w es w' \<Longrightarrow> status_event_step w' e w'' \<Longrightarrow> status_run w (es @ [e]) w''"

inductive_cases status_event_stepE: "status_event_step w e w'"

definition initial_status_world :: status_world where
  "initial_status_world = \<lparr>sw_service = initial_service, sw_tasks = []\<rparr>"

end
