(* ===== verification/Provider_Status_Facts.thy ===== *)
theory Provider_Status_Facts
  imports Provider_Status
begin

text \<open>
  What the status service promises in every run of it: a state is shown as current only on the strength
  of the latest answer of its source, received while the user had the service on and at most fifteen
  minutes old; turning the service off discards what is under way; and requests are spaced.
\<close>

section \<open>The service in a run\<close>

definition status_service_ok :: "status_service \<Rightarrow> bool" where
  "status_service_ok s \<longleftrightarrow>
     length (sv_rows s) = length status_sources \<and> (\<not> sv_enabled s \<longrightarrow> sv_rows s = [no_row, no_row])"

lemma sources_two [simp]: "length status_sources = 2"
  by (simp add: status_sources_def)

lemma status_configure_ok: "status_service_ok s \<Longrightarrow> status_service_ok (configure_status b s)"
  by (auto simp: configure_status_def status_service_ok_def)

lemma status_begin_ok: "status_service_ok s \<Longrightarrow> status_service_ok (fst (begin_status i now s))"
  by (auto simp: begin_status_def status_service_ok_def Let_def)

lemma status_finish_ok: "status_service_ok s \<Longrightarrow> status_service_ok (finish_status i g now r s)"
  by (simp add: finish_status_def status_service_ok_def)

lemma status_initial_ok [simp]: "status_service_ok initial_service"
  by (simp add: initial_service_def status_service_ok_def)

lemma begin_cases:
  "begin_status i now s = (s', None) \<Longrightarrow> s' = s"
  "begin_status i now s = (s', Some g) \<Longrightarrow> sv_enabled s \<and> g = sv_generation s
     \<and> sv_enabled s' = sv_enabled s \<and> sv_generation s' = sv_generation s
     \<and> \<not> sr_in_flight (sv_rows s ! i) \<and> (\<forall>t. sr_next (sv_rows s ! i) = Some t \<longrightarrow> t \<le> now)
     \<and> sv_rows s' = (sv_rows s)[i := (sv_rows s ! i)\<lparr>sr_in_flight := True, sr_attempted := Some now,
          sr_next := Some (now + status_interval * nanos_per_second)\<rparr>]"
  by (auto simp: begin_status_def Let_def split: if_splits option.splits)

text \<open>What a step does to the service.\<close>

lemma step_service:
  assumes "status_event_step w e w'"
  shows "sw_service w' =
    (case e of
       Configured b \<Rightarrow> configure_status b (sw_service w)
     | Scheduled i now g \<Rightarrow> fst (begin_status i now (sw_service w))
     | Finished i g now r \<Rightarrow> finish_status i g now r (sw_service w)
     | _ \<Rightarrow> sw_service w)"
  using assms by (cases rule: status_event_step.cases) auto

lemma step_index:
  assumes "status_event_step w (Scheduled i now g) w'"
  shows "i < 2" "snd (begin_status i now (sw_service w)) = g"
  using assms by (auto elim: status_event_stepE)

lemma status_step_ok: "status_event_step w e w' \<Longrightarrow> status_service_ok (sw_service w) \<Longrightarrow> status_service_ok (sw_service w')"
  by (auto simp: step_service status_configure_ok status_begin_ok status_finish_ok split: status_event.splits)

lemma status_run_ok: "status_run w es w' \<Longrightarrow> status_service_ok (sw_service w) \<Longrightarrow> status_service_ok (sw_service w')"
  by (induction rule: status_run.induct) (auto intro: status_step_ok)

section \<open>The latest answer\<close>

text \<open>An event that replaces what the service knows of a source.\<close>

definition toggles :: "bool \<Rightarrow> status_event \<Rightarrow> bool" where
  "toggles enabled e \<longleftrightarrow> (case e of Configured b \<Rightarrow> b \<noteq> enabled | _ \<Rightarrow> False)"

definition answers :: "nat \<Rightarrow> u64 \<Rightarrow> status_event \<Rightarrow> bool" where
  "answers i g e \<longleftrightarrow> (case e of Finished j h t r \<Rightarrow> j = i \<and> h = g | _ \<Rightarrow> False)"

definition undisturbed :: "nat \<Rightarrow> u64 \<Rightarrow> status_event list \<Rightarrow> bool" where
  "undisturbed i g es \<longleftrightarrow> list_all (\<lambda>e. \<not> toggles True e \<and> \<not> answers i g e) es"

definition known :: "nat \<Rightarrow> status_event list \<Rightarrow> status_service \<Rightarrow> bool" where
  "known i es s \<longleftrightarrow>
     (let row = sv_rows s ! i in
      sr_failure row = None \<longrightarrow> sr_checked row \<noteq> None \<longrightarrow>
        (\<exists>pre post t ind u. es = pre @ Finished i (sv_generation s) t (Inr (ind, u)) # post
           \<and> sr_checked row = Some t \<and> sr_indicator row = Some ind \<and> sr_updated row = Some u
           \<and> undisturbed i (sv_generation s) post))"

lemma known_keep:
  assumes "known i es s" and "sv_generation s' = sv_generation s"
    and "sr_failure (sv_rows s' ! i) = sr_failure (sv_rows s ! i)"
    and "sr_checked (sv_rows s' ! i) = sr_checked (sv_rows s ! i)"
    and "sr_indicator (sv_rows s' ! i) = sr_indicator (sv_rows s ! i)"
    and "sr_updated (sv_rows s' ! i) = sr_updated (sv_rows s ! i)"
    and "\<not> toggles True e" "\<not> answers i (sv_generation s) e"
  shows "known i (es @ [e]) s'"
  unfolding known_def Let_def
proof (intro impI)
  assume "sr_failure (sv_rows s' ! i) = None" "sr_checked (sv_rows s' ! i) \<noteq> None"
  with assms(1,3,4) obtain pre post t ind u where
    p: "es = pre @ Finished i (sv_generation s) t (Inr (ind, u)) # post" "undisturbed i (sv_generation s) post"
    and v: "sr_checked (sv_rows s ! i) = Some t" "sr_indicator (sv_rows s ! i) = Some ind"
      "sr_updated (sv_rows s ! i) = Some u"
    unfolding known_def Let_def by auto
  have "es @ [e] = pre @ Finished i (sv_generation s') t (Inr (ind, u)) # (post @ [e])"
    using p(1) assms(2) by simp
  moreover have "undisturbed i (sv_generation s') (post @ [e])"
    using p(2) assms(2,7,8) by (simp add: undisturbed_def)
  ultimately show "\<exists>pre post t ind u. es @ [e] = pre @ Finished i (sv_generation s') t (Inr (ind, u)) # post
      \<and> sr_checked (sv_rows s' ! i) = Some t \<and> sr_indicator (sv_rows s' ! i) = Some ind
      \<and> sr_updated (sv_rows s' ! i) = Some u \<and> undisturbed i (sv_generation s') post"
    using v assms(4-6) by metis
qed

lemma known_nothing: "i < 2 \<Longrightarrow> sv_rows s = [no_row, no_row] \<Longrightarrow> known i es s"
  by (auto simp: known_def no_row_def less_2_cases_iff)

lemma known_step:
  assumes step: "status_event_step w e w'" and i: "i < 2" and ok: "status_service_ok (sw_service w)"
    and known: "known i es (sw_service w)"
  shows "known i (es @ [e]) (sw_service w')"
proof (cases "sv_enabled (sw_service w)")
  case off: False
  with ok have rows: "sv_rows (sw_service w) = [no_row, no_row]" by (simp add: status_service_ok_def)
  have "sv_rows (sw_service w') = [no_row, no_row]"
    using off rows by (auto simp: step_service[OF step] configure_status_def begin_status_def finish_status_def
        split: status_event.splits)
  then show ?thesis by (rule known_nothing[OF i])
next
  case on: True
  note keep = known_keep[OF known]
  show ?thesis
  proof (cases e)
    case (Configured b)
    show ?thesis
    proof (cases b)
      case True
      then show ?thesis
        using on by (intro keep) (auto simp: step_service[OF step] Configured configure_status_def toggles_def
            answers_def)
    next
      case False
      then show ?thesis
        using on by (intro known_nothing[OF i]) (simp add: step_service[OF step] Configured configure_status_def)
    qed
  next
    case (Scheduled j now g)
    have "j < 2" using step_index(1)[OF step[unfolded Scheduled]] .
    moreover have "length (sv_rows (sw_service w)) = 2" using ok by (simp add: status_service_ok_def)
    ultimately show ?thesis
      using i by (intro keep) (auto simp: step_service[OF step] Scheduled begin_status_def Let_def toggles_def
          answers_def nth_list_update)
  next
    case (Finished j g t r)
    let ?s = "sw_service w"
    have len: "length (sv_rows ?s) = 2" using ok by (simp add: status_service_ok_def)
    show ?thesis
    proof (cases "g = sv_generation ?s \<and> j = i")
      case True
      then have row: "sv_rows (sw_service w') ! i = finish_row t r (sv_rows ?s ! i)"
        "sv_generation (sw_service w') = g"
        using on i len by (simp_all add: step_service[OF step] Finished finish_status_def)
      show ?thesis
      proof (cases r)
        case (Inr a)
        obtain ind u where a: "a = (ind, u)" by (cases a)
        have "es @ [e] = es @ Finished i (sv_generation (sw_service w')) t (Inr (ind, u)) # []"
          using True row by (simp add: Finished Inr a)
        moreover have "undisturbed i g []" by (simp add: undisturbed_def)
        ultimately show ?thesis
          unfolding known_def Let_def row finish_row_def Inr a by fastforce
      qed (auto simp: known_def row finish_row_def Let_def split: prod.splits)
    next
      case False
      then show ?thesis
        using on i len by (intro keep) (auto simp: step_service[OF step] Finished finish_status_def toggles_def
            answers_def nth_list_update)
    qed
  qed (auto intro!: keep simp: step_service[OF step] toggles_def answers_def)
qed

lemma run_known:
  assumes "status_run w es w'" "i < 2" "status_service_ok (sw_service w)" "known i [] (sw_service w)"
  shows "known i es (sw_service w')"
  using assms
proof (induction rule: status_run.induct)
  case (next_status_event w es w' e w'')
  then show ?case by (intro known_step[of w' e]) (auto intro: status_run_ok)
qed

definition answered_by :: "status_event list \<Rightarrow> timestamp \<Rightarrow> provider_status \<Rightarrow> bool" where
  "answered_by es now row \<longleftrightarrow>
     (\<exists>i g pre post t ind u. i < length status_sources \<and> ps_provider row = fst (status_sources ! i)
        \<and> es = pre @ Finished i g t (Inr (ind, u)) # post \<and> undisturbed i g post
        \<and> ps_current_indicator row = Some ind \<and> ps_checked_at row = Some t \<and> ps_source_updated_at row = Some u
        \<and> - nanos_per_second < now - t \<and> now - t < 901 * nanos_per_second)"

lemma shown_rows:
  assumes "status_service_ok s" "row \<in> set (ss_providers (show_status now s))"
  shows "row = unsupported_row ''gemini_cli''
    \<or> (\<exists>i<2. row = shown_row now (sv_enabled s) (status_sources ! i) (sv_rows s ! i))"
proof -
  obtain a b where rows: "sv_rows s = [a, b]"
    using assms(1) by (auto simp: status_service_ok_def eval_nat_numeral length_Suc_conv)
  from assms(2) have "row = unsupported_row ''gemini_cli''
      \<or> row = shown_row now (sv_enabled s) (status_sources ! 0) (sv_rows s ! 0)
      \<or> row = shown_row now (sv_enabled s) (status_sources ! 1) (sv_rows s ! 1)"
    by (simp add: show_status_def rows status_sources_def) blast
  moreover have "(0::nat) < 2" "(1::nat) < 2" by simp_all
  ultimately show ?thesis by blast
qed

lemma current_answered:
  assumes run: "status_run initial_status_world es w" and i: "i < 2"
    and row: "row = shown_row now (sv_enabled (sw_service w)) (status_sources ! i) (sv_rows (sw_service w) ! i)"
    and current: "ps_state row = ''current''"
  shows "sv_enabled (sw_service w) \<and> answered_by es now row"
proof -
  let ?s = "sw_service w"
  have "known i es ?s"
    using run_known[OF run i] known_nothing[OF i, of initial_service "[]"]
    by (simp add: initial_status_world_def) (simp add: initial_service_def)
  moreover have fresh: "sv_enabled ?s" "sr_failure (sv_rows ?s ! i) = None" "row_fresh now (sv_rows ?s ! i)"
    using current by (auto simp: row shown_row_def availability_def split: if_splits)
  moreover from this(3) obtain t where t: "sr_checked (sv_rows ?s ! i) = Some t"
    "0 \<le> num_seconds (now - t)" "num_seconds (now - t) \<le> 900"
    by (auto simp: row_fresh_def fresh_seconds_def split: option.splits)
  ultimately obtain pre post ind u where k:
    "es = pre @ Finished i (sv_generation ?s) t (Inr (ind, u)) # post"
    "undisturbed i (sv_generation ?s) post" "sr_indicator (sv_rows ?s ! i) = Some ind"
    "sr_updated (sv_rows ?s ! i) = Some u"
    by (auto simp: known_def Let_def)
  have age: "- nanos_per_second < now - t" "now - t < 901 * nanos_per_second"
    using t(2,3) by (auto simp: num_seconds_def nanos_per_second_def split: if_splits)
  have "answered_by es now row"
    unfolding answered_by_def
    using k age t(1) i current
    by (intro exI[of _ i] exI[of _ "sv_generation ?s"] exI[of _ pre] exI[of _ post] exI[of _ t] exI[of _ ind]
        exI[of _ u]) (auto simp: row shown_row_def)
  with fresh(1) show ?thesis ..
qed

theorem status_current_sound:
  assumes "status_run initial_status_world es w" "row \<in> set (ss_providers (show_status now (sw_service w)))"
  shows "if ps_state row = ''current'' then sv_enabled (sw_service w) \<and> answered_by es now row
    else ps_current_indicator row = None"
proof -
  have "status_service_ok (sw_service w)"
    using status_run_ok[OF assms(1)] by (simp add: initial_status_world_def)
  from shown_rows[OF this assms(2)] show ?thesis
    using current_answered[OF assms(1), of _ row now]
    by (auto simp: unsupported_row_def shown_row_def split: if_splits)
qed

section \<open>Turning the service off\<close>

definition is_configured :: "status_event \<Rightarrow> bool" where
  "is_configured e \<longleftrightarrow> (case e of Configured b \<Rightarrow> True | _ \<Rightarrow> False)"

lemma run_generation:
  assumes "status_run w es w'"
  shows "\<exists>n \<le> length (filter is_configured es).
    sv_generation (sw_service w') = sv_generation (sw_service w) + of_nat n
    \<and> (n = 0 \<longrightarrow> sv_enabled (sw_service w') = sv_enabled (sw_service w)
         \<and> (\<forall>b. Configured b \<in> set es \<longrightarrow> b = sv_enabled (sw_service w)))"
  using assms
proof (induction rule: status_run.induct)
  case (next_status_event w es w' e w'')
  then obtain n where n: "n \<le> length (filter is_configured es)"
    "sv_generation (sw_service w') = sv_generation (sw_service w) + of_nat n"
    "n = 0 \<longrightarrow> sv_enabled (sw_service w') = sv_enabled (sw_service w)
         \<and> (\<forall>b. Configured b \<in> set es \<longrightarrow> b = sv_enabled (sw_service w))"
    by blast
  note service = step_service[OF next_status_event.hyps(2)]
  show ?case
  proof (cases "\<exists>b. e = Configured b \<and> b \<noteq> sv_enabled (sw_service w')")
    case True
    then have "sv_generation (sw_service w'') = sv_generation (sw_service w) + of_nat (Suc n)"
      using n(2) by (auto simp: service configure_status_def)
    moreover have "Suc n \<le> length (filter is_configured (es @ [e]))"
      using True n(1) by (auto simp: is_configured_def)
    ultimately show ?thesis by blast
  next
    case False
    then have "sv_generation (sw_service w'') = sv_generation (sw_service w')"
      "sv_enabled (sw_service w'') = sv_enabled (sw_service w')"
      by (auto simp: service configure_status_def begin_status_def finish_status_def Let_def
          split: status_event.splits option.splits)
    moreover have "n \<le> length (filter is_configured (es @ [e]))" using n(1) by simp
    ultimately show ?thesis
      using n False by (intro exI[of _ n]) auto
  qed
qed (auto intro!: exI[of _ 0])

theorem opt_out_discards:
  assumes granted: "status_event_step w (Scheduled i t (Some g)) w1"
    and run: "status_run w1 es w2"
    and off: "Configured False \<in> set es"
    and few: "length (filter is_configured es) < 2 ^ 64"
  shows "\<not> status_event_step w2 (Asked i g) w3 \<and> finish_status i g now r (sw_service w2) = sw_service w2"
proof -
  have on: "sv_enabled (sw_service w1)" "sv_generation (sw_service w1) = g"
    using granted by (auto elim!: status_event_stepE dest: begin_cases)
  obtain n where n: "n \<le> length (filter is_configured es)" "sv_generation (sw_service w2) = g + of_nat n"
    "n \<noteq> 0"
    using run_generation[OF run] off on by (metis)
  have "unat (of_nat n :: u64) = n"
    using n(1) few by (simp add: unsigned_of_nat take_bit_nat_eq_self)
  then have "of_nat n \<noteq> (0 :: u64)" using n(3) by (metis unsigned_0)
  then have "sv_generation (sw_service w2) \<noteq> g" using n(2) by simp
  then show ?thesis
    by (auto simp: finish_status_def elim: status_event_stepE)
qed

section \<open>Spacing of requests\<close>

text \<open>The answers of a source in a run, with their times.\<close>

definition own_answers :: "nat \<Rightarrow> u64 \<Rightarrow> status_event list \<Rightarrow> (timestamp \<times> fetch_result) list" where
  "own_answers i g es =
     filter_map (\<lambda>e. case e of Finished j h t r \<Rightarrow> if j = i \<and> h = g then Some (t, r) else None | _ \<Rightarrow> None) es"

definition failing :: "(timestamp \<times> fetch_result) list \<Rightarrow> nat" where
  "failing rs = length (takeWhile (\<lambda>(t, r). isl r) (rev rs))"

fun event_time :: "status_event \<Rightarrow> timestamp option" where
  "event_time (Scheduled i t g) = Some t"
| "event_time (Finished i g t r) = Some t"
| "event_time _ = None"

definition row_follows :: "(timestamp \<times> fetch_result) list \<Rightarrow> status_row \<Rightarrow> bool" where
  "row_follows rs row \<longleftrightarrow>
     unat (sr_failures row) = min (failing rs) (2 ^ 32 - 1)
     \<and> (\<not> sr_in_flight row \<longrightarrow>
          sr_next row =
            (if rs = [] then None
             else (case last rs of
                 (t, Inr a) \<Rightarrow> Some (t + status_interval * nanos_per_second)
               | (t, Inl (f, ra)) \<Rightarrow>
                   Some (t + backoff_seconds (sr_failures row) ra * nanos_per_second))))"

lemma filter_map_append: "filter_map f (xs @ ys) = filter_map f xs @ filter_map f ys"
  by (induction xs) (auto split: option.splits)

lemma set_filter_map: "set (filter_map f xs) = {y. \<exists>x\<in>set xs. f x = Some y}"
  by (induction xs) (auto split: option.splits)

lemma failing_snoc [simp]:
  "failing (rs @ [(t, Inl x)]) = Suc (failing rs)" "failing (rs @ [(t, Inr a)]) = 0" "failing [] = 0"
  by (simp_all add: failing_def)

lemma own_answers_snoc [simp]:
  "own_answers i g (es @ [e]) = own_answers i g es @
     (case e of Finished j h t r \<Rightarrow> if j = i \<and> h = g then [(t, r)] else [] | _ \<Rightarrow> [])"
  by (auto simp: own_answers_def filter_map_append split: status_event.splits)

lemma follows_finish:
  assumes "row_follows rs row"
  shows "row_follows (rs @ [(t, r)]) (finish_row t r row)"
proof (cases r)
  case (Inl x)
  have "unat (sat_add (sr_failures row) 1) = min (Suc (unat (sr_failures row))) (2 ^ 32 - 1)"
    by (simp add: unat_sat_add)
  with assms show ?thesis
    by (cases x) (auto simp: row_follows_def finish_row_def Let_def Inl)
qed (auto simp: row_follows_def finish_row_def Let_def split: prod.splits)

definition scheduled_before :: "nat \<Rightarrow> u64 \<Rightarrow> status_event list \<Rightarrow> status_row \<Rightarrow> bool" where
  "scheduled_before i g es row \<longleftrightarrow>
     (\<forall>t. Scheduled i t (Some g) \<in> set es \<longrightarrow>
        (\<exists>u. sr_next row = Some u \<and> t + status_interval * nanos_per_second \<le> u))"

definition clocked :: "status_event list \<Rightarrow> bool" where
  "clocked es \<longleftrightarrow> sorted (filter_map event_time es)"

lemma clocked_snoc:
  assumes "clocked (es @ [e])" "event_time e = Some t" "e0 \<in> set es" "event_time e0 = Some t0"
  shows "t0 \<le> t"
proof -
  have "t0 \<in> set (filter_map event_time es)" using assms(3,4) by (force simp: set_filter_map)
  then show ?thesis using assms(1,2) by (auto simp: clocked_def filter_map_append sorted_append)
qed

lemma backoff_least: "status_interval \<le> backoff_seconds n ra"
proof -
  have "status_interval * 1 \<le> status_interval * 2 ^ min (unat n) 4"
    by (intro mult_left_mono) (simp_all add: status_interval_def)
  then have "300 \<le> (300 :: int) * 2 ^ min (unat n) 4" by (simp add: status_interval_def)
  then show ?thesis unfolding backoff_seconds_def status_interval_def by linarith
qed

lemma finish_next: "\<exists>u. sr_next (finish_row t r row) = Some u \<and> t + status_interval * nanos_per_second \<le> u"
  using backoff_least by (auto simp: finish_row_def Let_def nanos_per_second_def split: sum.splits prod.splits)

definition requests_spaced :: "nat \<Rightarrow> u64 \<Rightarrow> status_event list \<Rightarrow> status_service \<Rightarrow> bool" where
  "requests_spaced i g es s \<longleftrightarrow>
     sv_enabled s \<and> sv_generation s = g \<and> length (sv_rows s) = 2
     \<and> row_follows (own_answers i g es) (sv_rows s ! i) \<and> scheduled_before i g es (sv_rows s ! i)"

lemma spaced_step:
  assumes step: "status_event_step w e w'" and i: "i < 2" and sp: "requests_spaced i g es (sw_service w)"
    and e: "e \<noteq> Configured False" and clock: "clocked (es @ [e])"
  shows "requests_spaced i g (es @ [e]) (sw_service w')"
proof -
  let ?s = "sw_service w" let ?row = "sv_rows ?s ! i"
  from sp have s: "sv_enabled ?s" "sv_generation ?s = g" "length (sv_rows ?s) = 2"
    "row_follows (own_answers i g es) ?row" "scheduled_before i g es ?row"
    by (simp_all add: requests_spaced_def)
  show ?thesis
  proof (cases e)
    case (Configured b)
    with e have "sw_service w' = ?s" using s(1) by (simp add: step_service[OF step] configure_status_def)
    with s Configured show ?thesis
      by (auto simp: requests_spaced_def own_answers_snoc scheduled_before_def)
  next
    case (Scheduled j t h)
    have j: "j < 2" "snd (begin_status j t ?s) = h" using step_index[OF step[unfolded Scheduled]] by auto
    have w': "sw_service w' = fst (begin_status j t ?s)" by (simp add: step_service[OF step] Scheduled)
    have own: "own_answers i g (es @ [Scheduled j t h]) = own_answers i g es" for h by simp
    show ?thesis
    proof (cases h)
      case None
      have "sw_service w' = ?s" using j(2) None begin_cases(1)[of j t ?s] w' by (metis prod.collapse)
      with s show ?thesis
        by (auto simp: requests_spaced_def scheduled_before_def Scheduled None)
    next
      case (Some k)
      have b: "begin_status j t ?s = (sw_service w', Some k)" using j(2) w' Some by (metis prod.collapse)
      note bc = begin_cases(2)[OF b]
      show ?thesis
      proof (cases "j = i")
        case True
        have row: "sv_rows (sw_service w') ! i = ?row\<lparr>sr_in_flight := True, sr_attempted := Some t,
            sr_next := Some (t + status_interval * nanos_per_second)\<rparr>"
          using bc s(3) i True by simp
        have "t0 \<le> t" if "Scheduled i t0 (Some g) \<in> set es" for t0
          using clocked_snoc[OF clock, of t "Scheduled i t0 (Some g)" t0] that by (simp add: Scheduled)
        then have "scheduled_before i g (es @ [e]) (sv_rows (sw_service w') ! i)"
          by (auto simp: scheduled_before_def row Scheduled)
        moreover have "row_follows (own_answers i g es) (sv_rows (sw_service w') ! i)"
          using s(4) by (simp add: row_follows_def row)
        ultimately show ?thesis using bc s by (simp add: requests_spaced_def Scheduled)
      next
        case False
        then have "sv_rows (sw_service w') ! i = ?row" using bc by simp
        with False show ?thesis
          using bc s by (simp add: requests_spaced_def Scheduled) (auto simp: scheduled_before_def Scheduled)
      qed
    qed
  next
    case (Finished j h t r)
    have w': "sw_service w' = finish_status j h t r ?s" by (simp add: step_service[OF step] Finished)
    show ?thesis
    proof (cases "j = i \<and> h = g")
      case True
      then have row: "sv_rows (sw_service w') ! i = finish_row t r ?row"
        using s i by (simp add: w' finish_status_def)
      have "t0 \<le> t" if "Scheduled i t0 (Some g) \<in> set es" for t0
        using clocked_snoc[OF clock, of t "Scheduled i t0 (Some g)" t0] that by (simp add: Finished)
      then have "scheduled_before i g (es @ [e]) (sv_rows (sw_service w') ! i)"
        using finish_next[of t r ?row] by (fastforce simp: scheduled_before_def row Finished)
      then show ?thesis
        using s True follows_finish[OF s(4), of t r]
        by (simp add: requests_spaced_def row own_answers_snoc Finished) (simp add: w' finish_status_def)
    next
      case False
      then have "sv_rows (sw_service w') ! i = ?row" using s by (auto simp: w' finish_status_def)
      moreover have "own_answers i g (es @ [e]) = own_answers i g es"
        using False by (auto simp: own_answers_snoc Finished)
      moreover have "scheduled_before i g (es @ [e]) = scheduled_before i g es"
        by (auto simp: scheduled_before_def Finished fun_eq_iff)
      ultimately show ?thesis using s by (simp add: requests_spaced_def) (simp add: w' finish_status_def)
    qed
  next
    case (Asked j h)
    then have "sw_service w' = ?s" by (simp add: step_service[OF step])
    with s Asked show ?thesis by (auto simp: requests_spaced_def own_answers_snoc scheduled_before_def)
  next
    case (GivenUp j h)
    then have "sw_service w' = ?s" by (simp add: step_service[OF step])
    with s GivenUp show ?thesis by (auto simp: requests_spaced_def own_answers_snoc scheduled_before_def)
  qed
qed

lemma run_spaced:
  assumes "status_run w es w'" "i < 2" "Configured False \<notin> set es" "clocked es" "requests_spaced i g [] (sw_service w)"
  shows "requests_spaced i g es (sw_service w')"
  using assms
proof (induction rule: status_run.induct)
  case (next_status_event w es w' e w'')
  have "clocked es" using next_status_event.prems(3) by (simp add: clocked_def filter_map_append sorted_append)
  then show ?case
    using next_status_event by (intro spaced_step[of w' e]) auto
qed

text \<open>When the next request of a source is due after its answers so far.\<close>

definition due_after :: "(timestamp \<times> fetch_result) list \<Rightarrow> timestamp \<Rightarrow> bool" where
  "due_after rs t \<longleftrightarrow>
     (rs \<noteq> [] \<longrightarrow>
        (case last rs of
           (ta, Inr _) \<Rightarrow> ta + 300 * nanos_per_second \<le> t
         | (ta, Inl (f, ra)) \<Rightarrow>
             ta + min (300 * 2 ^ failing rs) 3600 * nanos_per_second \<le> t
             \<and> ta + min 86400 (unwrap_or 0 ra) * nanos_per_second \<le> t))"

lemma backoff_after:
  assumes "unat n = min k (2 ^ 32 - 1)" "0 < k"
  shows "min (300 * 2 ^ k) 3600 \<le> backoff_seconds n ra" "min 86400 (unwrap_or 0 ra) \<le> backoff_seconds n ra"
proof -
  have m: "min (unat n) 4 = min k 4" using assms(1) by simp
  have "min (300 * 2 ^ k) 3600 \<le> (min (300 * 2 ^ min k 4) 3600 :: int)"
    by (simp add: min_def)
  then show "min (300 * 2 ^ k) 3600 \<le> backoff_seconds n ra"
    unfolding backoff_seconds_def m status_interval_def by linarith
  show "min 86400 (unwrap_or 0 ra) \<le> backoff_seconds n ra"
    unfolding backoff_seconds_def by linarith
qed

theorem status_requests_spaced:
  assumes w: "sw_service w = \<lparr>sv_enabled = True, sv_generation = g, sv_rows = [no_row, no_row]\<rparr>"
    and run: "status_run w es w1" "Configured False \<notin> set es" "clocked es"
    and again: "status_event_step w1 (Scheduled i t (Some g)) w2"
  shows "(\<forall>t0. Scheduled i t0 (Some g) \<in> set es \<longrightarrow> t0 + 300 * nanos_per_second \<le> t)
    \<and> due_after (own_answers i g es) t"
proof -
  have i: "i < 2" using step_index(1)[OF again] .
  have "requests_spaced i g [] (sw_service w)"
    using i by (auto simp: requests_spaced_def w row_follows_def own_answers_def scheduled_before_def no_row_def
        less_2_cases_iff)
  from run_spaced[OF run(1) i run(2,3) this] have sp: "requests_spaced i g es (sw_service w1)" .
  let ?row = "sv_rows (sw_service w1) ! i"
  from again have due: "\<not> sr_in_flight ?row" "\<forall>u. sr_next ?row = Some u \<longrightarrow> u \<le> t"
    by (auto elim!: status_event_stepE dest: begin_cases(2))
  have "t0 + 300 * nanos_per_second \<le> t" if "Scheduled i t0 (Some g) \<in> set es" for t0
    using sp due(2) that by (fastforce simp: requests_spaced_def scheduled_before_def status_interval_def)
  moreover have "due_after (own_answers i g es) t"
    unfolding due_after_def
  proof
    let ?rs = "own_answers i g es"
    assume ne: "?rs \<noteq> []"
    have fl: "row_follows ?rs ?row" using sp by (simp add: requests_spaced_def)
    obtain ta r where l: "last ?rs = (ta, r)" by (cases "last ?rs")
    show "case last ?rs of (ta, Inr _) \<Rightarrow> ta + 300 * nanos_per_second \<le> t
      | (ta, Inl (f, ra)) \<Rightarrow> ta + min (300 * 2 ^ failing ?rs) 3600 * nanos_per_second \<le> t
          \<and> ta + min 86400 (unwrap_or 0 ra) * nanos_per_second \<le> t"
    proof (cases r)
      case (Inr a)
      then show ?thesis using fl due ne by (simp add: row_follows_def l status_interval_def)
    next
      case (Inl x)
      obtain f ra where x: "x = (f, ra)" by (cases x)
      have "0 < failing ?rs" using ne l Inl by (cases ?rs rule: rev_cases) auto
      moreover have "unat (sr_failures ?row) = min (failing ?rs) (2 ^ 32 - 1)"
        using fl by (simp add: row_follows_def)
      ultimately have b: "min (300 * 2 ^ failing ?rs) 3600 * nanos_per_second
            \<le> backoff_seconds (sr_failures ?row) ra * nanos_per_second"
          "min 86400 (unwrap_or 0 ra) * nanos_per_second \<le> backoff_seconds (sr_failures ?row) ra * nanos_per_second"
        using backoff_after[of "sr_failures ?row" "failing ?rs" ra]
        by (auto intro!: mult_right_mono simp: nanos_per_second_def)
      have "ta + backoff_seconds (sr_failures ?row) ra * nanos_per_second \<le> t"
        using fl due ne by (simp add: row_follows_def l Inl x)
      with b show ?thesis by (simp add: l Inl x)
    qed
  qed
  ultimately show ?thesis by blast
qed

end
