(* ===== verification/Spec2Isabelle.thy ===== *)
theory Spec2Isabelle
  imports Stable_Hash Range_Totals Codex_Invariants Claude_Facts Gemini_Facts
    Provider_Sources Correlation Tool_Impact Pricing_Catalog Finding_Lifecycle
    Attention_Runs Quota_Index_Facts Quota_Live_Facts Quota_Consent_Facts Quota_Store
    History_Recorded Provider_Status_Facts
begin

text \<open>
  Agent Odometer: the telemetry core.

  \<^bold>\<open>The program.\<close> Agent Odometer is a desktop application (a Tauri backend in Rust under
  \<open>src/src-tauri/src\<close>, a TypeScript front end under \<open>src/src\<close>) that reads the session logs
  coding agents leave on disk and shows what they cost. The log of a session is a growing file of
  JSON lines. One incremental parser per harness (\<open>parser.rs\<close> for Codex, \<open>claude_parser.rs\<close> for
  Claude Code, \<open>gemini_parser.rs\<close> for Gemini CLI) turns the lines into a \<open>Session\<close>
  (\<open>model.rs\<close>): its metadata, its turns, its token history and its tool observations. A tool call
  is reduced to a redacted observation when it is seen (\<open>telemetry.rs\<close>, \<open>observe_call\<close>), settled
  by its result (\<open>observe_result\<close>), and after every read of the file the metrics, findings and
  category totals of the session and of each turn are derived afresh (\<open>refresh_session\<close>). The
  dashboard asks for rollups of a session over time windows (\<open>model.rs\<close>,
  \<open>range_totals_multi\<close>), which must agree with the session's own counters; most are answered from the
  history store (\<open>history_store.rs\<close>), which keeps the events of every session as facts and their
  totals by the hour as rollups, and which must agree with the session in turn. Around this core:
  \<open>provider.rs\<close> says which configured directory a path belongs to and which adapter parses it;
  \<open>correlation.rs\<close> and \<open>tool_impact.rs\<close> compare windows and cohorts of turns over many sessions,
  choosing by their summaries which sessions to load; \<open>rates.rs\<close> validates the rate card and decides
  which price a model has; \<open>workflow_lifecycle.rs\<close> keeps the state of workflow findings across
  measurements; \<open>attention.rs\<close> raises alerts about sessions, at most once per event. The quota side
  reads what is left of a subscription: \<open>quota.rs\<close> from the rate-limit points in the session logs,
  kept in an incremental index, \<open>quota_live.rs\<close> from the installed command line tool, which it asks
  only for accounts with consent (\<open>quota_accounts.rs\<close>); \<open>quota_store.rs\<close> holds the soft budgets
  and the log of their alerts.

  \<^bold>\<open>The theories\<close>, in the order they build on each other:
  \<^item> \<open>Odo_Prelude\<close>: type names, named theorem collections, lemmas on options and lists.
  \<^item> \<open>Odo_Strings\<close>: the string and number operations of the Rust standard library the code uses
    (\<open>trim\<close>, \<open>split\<close>, \<open>lines\<close>, \<open>to_ascii_lowercase\<close>, \<open>contains\<close>, \<open>parse::<i32>\<close>, \<dots>), on lists of
    characters.
  \<^item> \<open>Odo_Containers\<close>: \<open>HashMap\<close> and \<open>BTreeMap\<close> as association lists with distinct keys, their
    upsert, and the algebra of folding a list into one.
  \<^item> \<open>Odo_Json\<close>: \<open>serde_json::Value\<close> and its accessors.
  \<^item> \<open>Model_Types\<close>: the records and enumerations of \<open>model.rs\<close>.
  \<^item> \<open>Stable_Hash\<close>: the FNV-1a fingerprint of \<open>stable_hash.rs\<close>.
  \<^item> \<open>Telemetry_Calls\<close>: classification of tools, redaction of a call to an observation and the
    settlement of observations by results (\<open>telemetry.rs\<close>, first half).
  \<^item> \<open>Telemetry_Metrics\<close>: accumulation of metrics, streaks of repeated reads, dimensions, turn
    categories, findings, category totals and \<open>refresh_session\<close> (\<open>telemetry.rs\<close>, second half).
  \<^item> \<open>Telemetry_Facts\<close>: what the metrics mean, how they split, that refreshing is a function of
    the observations, that a settled outcome is settled on the latest pending call and that
    observations carry no argument text.
  \<^item> \<open>Range_Totals\<close>: windowed rollups, tier buckets, the run-length collapse of rate-limit
    snapshots, session summaries and the resident projection (\<open>model.rs\<close>).
  \<^item> \<open>Line_Reader\<close>: the read loop the three parsers share (complete lines only, byte offset,
    reset when the file shrank), and the locale \<open>line_parser\<close> with the laws a parser has to
    satisfy for reading in pieces to be the same as reading at once.
  \<^item> \<open>Session_Updates\<close>: the session updates the parsers share (turns opened, settled and
    abandoned, usage added, activity recorded), and what each of them preserves.
  \<^item> \<open>Codex_Parser\<close>, \<open>Codex_Facts\<close>, \<open>Codex_Invariants\<close>: \<open>parser.rs\<close>, its interpretation of
    \<open>line_parser\<close> and its properties.
  \<^item> \<open>Claude_Parser\<close>, \<open>Claude_Facts\<close>: the same for \<open>claude_parser.rs\<close>.
  \<^item> \<open>Gemini_Parser\<close>, \<open>Gemini_Facts\<close>: the same for \<open>gemini_parser.rs\<close>.
  \<^item> \<open>Provider_Sources\<close>: provider ids, adapters, path filters and the validated set of source roots
    (\<open>provider.rs\<close>, \<open>paths.rs\<close>); the locale \<open>forest_order\<close> holds what the set needs of path
    containment. The three parsers meet here: what an adapter parses is what its cache guard accepts.
  \<^item> \<open>Correlation\<close>: usage before and after external events (\<open>correlation.rs\<close>).
  \<^item> \<open>Tool_Impact\<close>: turns with and without a tool, matched in time (\<open>tool_impact.rs\<close>).
  \<^item> \<open>Pricing_Catalog\<close>: the rate card, its validation, alias chains, candidate refresh and the
    resolution of a model to a price (\<open>rates.rs\<close>).
  \<^item> \<open>Finding_Lifecycle\<close>: the lifecycle table of workflow findings, the transactions on it as a
    step relation, and its reachable tables (\<open>workflow_lifecycle.rs\<close>, \<open>history_workflow.rs\<close>).
  \<^item> \<open>Attention\<close>, \<open>Attention_Runs\<close>: the attention service and its store (\<open>attention.rs\<close>), and the
    runs of several processes that share the store as a step relation.
  \<^item> \<open>Odo_Floats\<close>: the arithmetic of \<open>f64\<close> on its 64-bit encoding: rounding to nearest even of
    exact rationals, comparisons and conversions.
  \<^item> \<open>Quota_Windows\<close>, \<open>Quota_Facts\<close>: the quota windows, forecasts and snapshots of \<open>quota.rs\<close> and
    what they promise.
  \<^item> \<open>Quota_Index\<close>, \<open>Quota_Index_Facts\<close>: the incremental index of quota points and its refinement
    of the walk over all sessions.
  \<^item> \<open>Quota_Live\<close>, \<open>Quota_Live_Facts\<close>: the reader, the protocol and the validation of live readings
    (\<open>quota_live.rs\<close>).
  \<^item> \<open>Quota_Consent\<close>, \<open>Quota_Consent_Facts\<close>: the consent service (\<open>quota_accounts.rs\<close>), as steps of
    several processes on one consent file.
  \<^item> \<open>Quota_Store\<close>: soft budgets, notification settings and the alert log (\<open>quota_store.rs\<close>).
  \<^item> \<open>Provider_Status\<close>, \<open>Provider_Status_Facts\<close>: the opt-in observations of public status pages
    (\<open>provider_status.rs\<close>): the service and its tasks as a step relation; what is shown as current rests
    on the latest answer (\<open>status_current_sound\<close>), opting out discards what is under way
    (\<open>opt_out_discards\<close>) and requests are spaced (\<open>status_requests_spaced\<close>).
  \<^item> \<open>History_Ledger\<close>: the accounting tables of a session in the history store, facts and hour rollups,
    what an observation writes and how a deferred rebuild derives the rollups (\<open>history_store.rs\<close>).
  \<^item> \<open>History_Ranges\<close>: the windowed query over the tables, with the limits of \<open>query_control.rs\<close>.
  \<^item> \<open>History_Ledger_Facts\<close>, \<open>History_Reads\<close>, \<open>History_Refines\<close>: a window is its hours and edges, rows are
    sums of facts, and the query over such tables gives the totals of the sessions in memory.
  \<^item> \<open>History_Writes\<close>, \<open>History_Recorded\<close>: the writes keep the rows sums (the locale \<open>counter_columns\<close>
    holds what a reader of a row of counters must satisfy), the ledgers observations and rebuilds
    reach, and the properties of queries on them.

  \<^bold>\<open>State and operations.\<close> A parser struct is a record (\<open>codex_parser\<close>, \<open>claude_parser\<close>,
  \<open>gemini_parser\<close>) and each \<open>&mut self\<close> method a function from record to record with the name of
  the method and a prefix for the harness. A handler is modelled whole: every guard and early
  return of the code is a branch. Token counters are 64-bit words and wrap as the release build
  does (a debug build panics instead); counts of turns and observations that are kept as \<open>u32\<close> or
  \<open>u64\<close> are words of that width where the code adds to them, byte offsets and lengths are
  natural numbers. Strings and file contents are lists of bytes in UTF-8 (\<open>char list\<close>), so
  offsets and lengths count bytes as in the code; \<open>chars\<close> and \<open>take_chars\<close> respect character
  boundaries, and a line that is not valid UTF-8 is skipped as in the code.

  \<^bold>\<open>Parameters.\<close> What is not in the repository is an argument of the definitions: the record
  \<open>host\<close> holds the JSON parser (\<open>host_from_str\<close>), the RFC 3339 parser (\<open>host_parse_time\<close>) and
  the other library calls the parsers make; the wall clock is a function \<open>clock\<close> from
  the number of the line read to a time. No property assumes anything of them unless its statement says so.
  Iteration over a \<open>HashMap\<close> is modelled in insertion order; the code sorts wherever the order
  reaches its output.

  \<^bold>\<open>The lemmas.\<close> The main results: reading a growing log in pieces gives the state of
  reading it once, for each of the three parsers (\<open>codex_incremental\<close>, \<open>claude_incremental\<close>,
  \<open>gemini_incremental\<close>); every parsed session is well formed and a line only adds to it; tokens
  are conserved between counters, history and buckets (\<open>codex_token_count_reconciles\<close>,
  \<open>gemini_tokens_conserved\<close>, \<open>open_window_is_session\<close>), and over any lines of a Claude file each
  message is counted once (\<open>claude_usage_counted_once\<close>); the two paths
  of the range query agree and disjoint windows add up (\<open>range_paths_agree\<close>,
  \<open>range_totals_split\<close>); the metrics are what their names say and split by model and by turn. Correlating sessions
  in one pass is correlating each event alone (\<open>correlate_per_event\<close>), and dropping sessions on
  their summaries changes no result (\<open>correlation_prefilter_sound\<close>, \<open>impact_prefilter_sound\<close>)
  under hypotheses on the times that the comments of the code take for granted. An accepted set of
  source roots gives every path one owner (\<open>source_set_accepts\<close>, \<open>source_set_resolves\<close>); a
  validated catalog gives every lookup one answer (\<open>catalog_validate_iff\<close>,
  \<open>catalog_lookup_unique\<close>); a refused rate card changes nothing (\<open>refresh_fails_closed\<close>); and
  edits of a finding lose no update (\<open>suppression_no_lost_update\<close>). Whatever processes share the
  attention store, no event of a session is announced twice (\<open>attention_no_replay\<close>). The index of
  quota points gives the snapshots of a walk over all sessions (\<open>quota_index_agrees\<close>); a snapshot
  shows a number only when it was measured (\<open>quota_snapshot_honest\<close>), a live reading is
  returned only when it is valid and for the account asked about (\<open>live_reading_sound\<close>), the tool
  is asked only about accounts the file enables (\<open>consent_enforced\<close>), and a revoked account shows no
  reading in any process again (\<open>revocation_is_final\<close>). A windowed query of the history store returns
  what \<open>range_totals\<close> of the stored sessions is (\<open>ledger_answers_windows\<close>), for append-only sources whose
  events have distinct keys, no negative times and no empty names, whether the rollups were
  maintained with every observation or rebuilt (\<open>maintained_is_rebuilt\<close>, \<open>deferred_rollups_come_back\<close>).

  \<^bold>\<open>Bounds and termination.\<close> Everything is a total function by structural recursion on the
  list of lines, events or observations; the read loop recurses on the unread rest of the file.
  The one bounded loop of the code, over alias chains, keeps its bound, and
  \<open>alias_chain_resolved\<close> shows that it is enough; no other fuel is used. The limits of the code
  (\<open>turn_message_limit\<close> and the limits on redacted values) are the code's constants.

  \<^bold>\<open>Not modelled.\<close> The snapshots, lineage, migrations and maintenance of the history store, the scan
  cache, the Tauri commands, the file watchers and the window shell are input and output or depend on
  external services, as are the process the live reader talks to and the HTTP client of the status
  pages; the ledger and the lifecycle table of the history store are modelled as lists and maps whose
  statements are written out, in the integers SQLite has. The report assembly of \<open>workflow.rs\<close> and
  \<open>query.rs\<close>, the action executor, the transcripts and the migration of older rate cards are not
  modelled yet; \<open>telemetry.rs\<close>'s optimisation summary over several sessions is left out as well.
  The accounting-identity check that the public entry of a windowed query makes before it reads the
  tables is not modelled either (\<open>range_totals_multi_on\<close> starts after it), and a run of the
  attention store starts without a file and its clock never goes backwards. Arithmetic on
  floating-point numbers is modelled for the quota windows; where the code multiplies or adds prices,
  the operation is a parameter. Paths are Unix paths. I/O errors of the file system end a read before
  any state changes and are outside the model.
\<close>

end
